(* ===== verification/Prelude.thy ===== *)
theory Prelude
  imports Main "HOL-Library.AList" "HOL-Library.Char_ord" "HOL-Library.List_Lexorder"
begin

text \<open>
  Shared vocabulary of the development: Python results, dictionaries and strings, and the
  generic lemmas the component theories use.

  \<^item> A Python call that may raise is a value of a sum type: \<open>Inl\<close> is the exception,
    \<open>Inr\<close> the returned value. \<open>rbind\<close> runs the next statement only after a normal return.
  \<^item> A Python dictionary keeps its insertion order. It is an association list, read by
    \<open>map_of\<close> and written by \<open>AList.update\<close>, which overwrites a key in place and appends
    a new key at the end, as \<open>d[k] = v\<close> does.
  \<^item> A Python string is a \<open>string\<close>. A model character is the code point with its number, so
    the model covers the strings whose code points are at most 255; on them Unicode
    normalization form C is the identity, and ordering strings by code point is the
    lexicographic order of \<open>HOL-Library.List_Lexorder\<close>.
\<close>

named_theorems graph_simps \<open>unfolding rules of the workflow graph definitions\<close>
named_theorems dispatch_simps \<open>unfolding rules of the dispatch repository operations\<close>

subsection \<open>Results\<close>

type_synonym ('e, 'a) result = "'e + 'a"

definition rbind :: "('e, 'a) result \<Rightarrow> ('a \<Rightarrow> ('e, 'b) result) \<Rightarrow> ('e, 'b) result" where
  "rbind m f = (case m of Inl e \<Rightarrow> Inl e | Inr x \<Rightarrow> f x)"

definition is_ok :: "('e, 'a) result \<Rightarrow> bool" where
  "is_ok m = (case m of Inl _ \<Rightarrow> False | Inr _ \<Rightarrow> True)"

lemma rbind_simps [simp]:
  "rbind (Inl e) f = Inl e"
  "rbind (Inr x) f = f x"
  by (simp_all add: rbind_def)

lemma rbind_Inr_iff: "rbind m f = Inr y \<longleftrightarrow> (\<exists>x. m = Inr x \<and> f x = Inr y)"
  by (cases m) simp_all

lemma rbind_InrE [elim!]:
  assumes "rbind m f = Inr y"
  obtains x where "m = Inr x" and "f x = Inr y"
  using assms by (auto simp: rbind_Inr_iff)

lemma is_ok_simps [simp]:
  "is_ok (Inl e) = False"
  "is_ok (Inr x) = True"
  by (simp_all add: is_ok_def)

lemma is_ok_iff: "is_ok m \<longleftrightarrow> (\<exists>x. m = Inr x)"
  by (cases m) simp_all

subsection \<open>Dictionaries\<close>

type_synonym ('k, 'v) dict = "('k \<times> 'v) list"

definition dict_keys :: "('k, 'v) dict \<Rightarrow> 'k list" where
  "dict_keys d = map fst d"

definition dict_get :: "('k, 'v) dict \<Rightarrow> 'k \<Rightarrow> 'v \<Rightarrow> 'v" where
  "dict_get d k v = (case map_of d k of None \<Rightarrow> v | Some w \<Rightarrow> w)"

lemma set_dict_keys [simp]: "set (dict_keys d) = dom (map_of d)"
  by (simp add: dict_keys_def dom_map_of_conv_image_fst)

lemma dict_keys_simps [simp]:
  "dict_keys [] = []"
  "dict_keys (p # d) = fst p # dict_keys d"
  by (simp_all add: dict_keys_def)

lemma map_of_dict_update [simp]: "map_of (AList.update k v d) = (map_of d)(k \<mapsto> v)"
  by (rule update_conv')

lemma map_of_map_key [simp]:
  "map_of (map (\<lambda>n. (n, f n)) ns) k = (if k \<in> set ns then Some (f k) else None)"
  by (induction ns) auto

lemma dict_update_new: "k \<notin> dom (map_of d) \<Longrightarrow> AList.update k v d = d @ [(k, v)]"
  by (induction d) (auto split: if_splits)

lemma takeWhile_neq_split:
  "x \<notin> set ys \<Longrightarrow> takeWhile (\<lambda>u. u \<noteq> x) (ys @ x # zs) = ys"
  by (induction ys) auto

subsection \<open>Strings\<close>

text \<open>\<open>str.isspace\<close> on the code points up to 255, as \<open>str.strip\<close> uses it.\<close>

definition py_space :: "char \<Rightarrow> bool" where
  "py_space c = (let n = of_char c in
     (9 \<le> n \<and> n \<le> 13) \<or> (28 \<le> n \<and> n \<le> 32) \<or> n = (133::nat) \<or> n = 160)"

definition lstrip :: "string \<Rightarrow> string" where
  "lstrip s = dropWhile py_space s"

definition rstrip :: "string \<Rightarrow> string" where
  "rstrip s = rev (dropWhile py_space (rev s))"

definition strip :: "string \<Rightarrow> string" where
  "strip s = rstrip (lstrip s)"

text \<open>The truth value of \<open>s.strip()\<close>: the string has a character that is not white space.\<close>

definition nonblank :: "string \<Rightarrow> bool" where
  "nonblank s = (strip s \<noteq> [])"

lemma rstrip_Nil_iff: "rstrip s = [] \<longleftrightarrow> (\<forall>c \<in> set s. py_space c)"
  by (simp add: rstrip_def)

lemma lstrip_Nil_iff: "lstrip s = [] \<longleftrightarrow> (\<forall>c \<in> set s. py_space c)"
  by (simp add: lstrip_def)

lemma nonblank_iff: "nonblank s \<longleftrightarrow> (\<exists>c \<in> set s. \<not> py_space c)"
proof -
  have "(\<forall>c \<in> set (lstrip s). py_space c) \<longleftrightarrow> (\<forall>c \<in> set s. py_space c)"
  proof
    assume "\<forall>c \<in> set (lstrip s). py_space c"
    then have "lstrip s = []"
      using hd_dropWhile [of py_space s] hd_in_set [of "lstrip s"]
      by (cases "lstrip s = []") (auto simp: lstrip_def)
    then show "\<forall>c \<in> set s. py_space c" by (simp add: lstrip_Nil_iff)
  next
    assume "\<forall>c \<in> set s. py_space c"
    then show "\<forall>c \<in> set (lstrip s). py_space c"
      by (auto simp: lstrip_def dest: set_dropWhileD)
  qed
  then show ?thesis by (auto simp: nonblank_def strip_def rstrip_Nil_iff)
qed

lemma lstrip_idem: "lstrip (lstrip s) = lstrip s"
  by (simp add: lstrip_def)

lemma rstrip_idem: "rstrip (rstrip s) = rstrip s"
  by (simp add: rstrip_def)

text \<open>\<open>sep.join(parts)\<close>\<close>

fun py_join :: "string \<Rightarrow> string list \<Rightarrow> string" where
  "py_join sep [] = []"
| "py_join sep [s] = s"
| "py_join sep (s # t # ss) = s @ sep @ py_join sep (t # ss)"


text \<open>\<open>repr(s)\<close>: the quote Python chooses, and its escapes on the code points up to 255.\<close>

definition hex_digit :: "nat \<Rightarrow> char" where
  "hex_digit n = (if n < 10 then char_of (48 + n) else char_of (87 + n))"

definition repr_quote :: "string \<Rightarrow> char" where
  "repr_quote s = (if CHR 0x27 \<in> set s \<and> CHR 0x22 \<notin> set s then CHR 0x22 else CHR 0x27)"

definition repr_char :: "char \<Rightarrow> char \<Rightarrow> string" where
  "repr_char q c = (let n = of_char c in
     if c = q \<or> c = CHR 0x5C then [CHR 0x5C, c]
     else if n = (9::nat) then [CHR 0x5C, CHR ''t'']
     else if n = 10 then [CHR 0x5C, CHR ''n'']
     else if n = 13 then [CHR 0x5C, CHR ''r'']
     else if n < 32 \<or> (127 \<le> n \<and> n \<le> 160) \<or> n = 173
       then [CHR 0x5C, CHR ''x'', hex_digit (n div 16), hex_digit (n mod 16)]
     else [c])"

definition py_repr :: "string \<Rightarrow> string" where
  "py_repr s = [repr_quote s] @ concat (map (repr_char (repr_quote s)) s) @ [repr_quote s]"


subsection \<open>Numbers as text\<close>

text \<open>\<open>str(n)\<close>\<close>

fun show_nat :: "nat \<Rightarrow> string" where
  "show_nat n = (if n < 10 then [char_of (48 + n)] else show_nat (n div 10) @ [char_of (48 + n mod 10)])"

declare show_nat.simps [simp del]

definition show_int :: "int \<Rightarrow> string" where
  "show_int i = (if i < 0 then CHR ''-'' # show_nat (nat (- i)) else show_nat (nat i))"

definition read_nat :: "string \<Rightarrow> nat" where
  "read_nat s = foldl (\<lambda>n c. 10 * n + (of_char c - 48)) 0 s"

lemma read_show_nat: "read_nat (show_nat n) = n"
proof (induction n rule: show_nat.induct)
  case (1 n)
  show ?case
  proof (cases "n < 10")
    case True
    then show ?thesis by (simp add: show_nat.simps [of n] read_nat_def)
  next
    case False
    then have "read_nat (show_nat (n div 10)) = n div 10" using 1 by simp
    then show ?thesis using False by (simp add: show_nat.simps [of n] read_nat_def)
  qed
qed

lemma show_nat_inject: "show_nat m = show_nat n \<longleftrightarrow> m = n"
  by (metis read_show_nat)

lemma show_nat_digits: "c \<in> set (show_nat n) \<Longrightarrow> 48 \<le> (of_char c :: nat) \<and> of_char c \<le> (57 :: nat)"
proof (induction n rule: show_nat.induct)
  case (1 n)
  show ?case
  proof (cases "n < 10")
    case True
    then show ?thesis using "1.prems" by (simp add: show_nat.simps [of n])
  next
    case False
    then consider "c \<in> set (show_nat (n div 10))" | "c = char_of (48 + n mod 10)"
      using "1.prems" by (auto simp: show_nat.simps [of n])
    then show ?thesis
    proof cases
      case 2
      have "n mod 10 < 10" by simp
      then show ?thesis using 2 by simp
    qed (use 1 False in simp)
  qed
qed

lemma show_int_inject: "show_int i = show_int j \<longleftrightarrow> i = j"
proof
  assume e: "show_int i = show_int j"
  have m: "CHR ''-'' \<notin> set (show_nat n)" for n using show_nat_digits [of "CHR ''-''" n] by auto
  show "i = j"
  proof (cases "i < 0"; cases "j < 0")
    assume "\<not> i < 0" "\<not> j < 0" then show ?thesis using e by (simp add: show_int_def show_nat_inject)
  next
    assume n: "i < 0" "\<not> j < 0"
    then have "CHR ''-'' # show_nat (nat (- i)) = show_nat (nat j)" using e by (simp add: show_int_def)
    then show ?thesis using m [of "nat j"] by (metis list.set_intros(1))
  next
    assume n: "\<not> i < 0" "j < 0"
    then have "show_nat (nat i) = CHR ''-'' # show_nat (nat (- j))" using e by (simp add: show_int_def)
    then show ?thesis using m [of "nat i"] by (metis list.set_intros(1))
  next
    assume "i < 0" "j < 0" then show ?thesis using e by (simp add: show_int_def show_nat_inject)
  qed
qed simp

lemma length_filter_update:
  "i < length xs \<Longrightarrow> length (filter P (xs[i := y])) + (if P (xs ! i) then 1 else 0)
     = length (filter P xs) + (if P y then 1 else 0)"
proof (induction xs arbitrary: i)
  case (Cons x xs)
  show ?case
  proof (cases i)
    case (Suc j)
    then show ?thesis using Cons.IH [of j] Cons.prems by (cases "P x") simp_all
  qed (cases "P x"; cases "P y"; simp)
qed simp

subsection \<open>JSON\<close>

text \<open>The values \<open>json.loads\<close> returns; a float is kept as the text of its shortest representation.\<close>

datatype json = JNull | JBool bool | JInt int | JFloat string | JStr string
  | JList "json list" | JObj "(string \<times> json) list"

definition jget :: "json \<Rightarrow> string \<Rightarrow> json option" where
  "jget j k = (case j of JObj d \<Rightarrow> map_of d k | _ \<Rightarrow> None)"

definition is_obj :: "json \<Rightarrow> bool" where
  "is_obj j = (case j of JObj _ \<Rightarrow> True | _ \<Rightarrow> False)"

lemma jget_obj [simp]: "jget (JObj d) k = map_of d k"
  by (simp add: jget_def)

lemma is_obj_simps [simp]: "is_obj (JObj d) = True"
  by (simp add: is_obj_def)

end
