(* ===== verification/Workflow_Graph.thy ===== *)
theory Workflow_Graph
  imports Prelude
begin

text \<open>
  The dependency graph of a Workflow: \<open>operator/src/agent_operator/workflow_graph.py\<close>.

  The definitions follow the module: the three validation passes and the cycle check of
  \<open>build_workflow_graph\<close>, the work-list algorithm of \<open>WorkflowGraph.topological_order\<close>, and
  the two scheduling queries \<open>find_ready_tasks\<close> and \<open>find_skipped_tasks\<close>. Every raise is a
  constructor of \<open>graph_error\<close>; \<open>MissingKey\<close> is the \<open>KeyError\<close> of a dictionary read.

  The lemmas show that the work list orders every dependency before its dependents and fails
  exactly on cyclic graphs, that \<open>build_workflow_graph\<close> accepts exactly the well-formed
  acyclic task lists, that the skipped tasks are exactly the blocked ones, and that the
  scheduler cannot deadlock.
\<close>

subsection \<open>Data\<close>

datatype phase = Pending | Running | Succeeded | Failed | TimedOut | Skipped

record workflow_task =
  task_name :: string
  depends_on :: "string list option"
  agent_ref_name :: string
  input_prompt :: string
  input_from :: "string list option"
  timeout_seconds :: "int option"

record workflow_graph =
  task_names :: "string list"
  dependencies :: "(string, string list) dict"

datatype graph_error =
    EmptyWorkflow
  | DuplicateTaskName string
  | DuplicateDependencies string
  | SelfDependency string
  | UnknownDependency string string
  | OwnResult string
  | UnknownResultSource string string
  | DuplicateResultSource string string
  | ResultSourceNotDependency string string
  | DependencyCycle
  | MissingKey string

type_synonym phases = "(string, phase) dict"

subsection \<open>Topological order\<close>

text \<open>The dictionary comprehensions \<open>{name: v for name in names}\<close>.\<close>

definition dict_fromkeys :: "string list \<Rightarrow> 'v \<Rightarrow> (string, 'v) dict" where
  "dict_fromkeys names v = foldl (\<lambda>d n. AList.update n v d) [] names"

fun add_dependent ::
  "string \<Rightarrow> string list \<Rightarrow> (string, string list) dict
   \<Rightarrow> (graph_error, (string, string list) dict) result" where
  "add_dependent t [] dts = Inr dts"
| "add_dependent t (d # ds) dts =
     (case map_of dts d of
        None \<Rightarrow> Inl (MissingKey d)
      | Some us \<Rightarrow> add_dependent t ds (AList.update d (us @ [t]) dts))"

fun count_edges ::
  "(string, string list) dict \<Rightarrow> (string, int) dict \<Rightarrow> (string, string list) dict
   \<Rightarrow> (graph_error, (string, int) dict \<times> (string, string list) dict) result" where
  "count_edges [] ind dts = Inr (ind, dts)"
| "count_edges ((t, ds) # es) ind dts =
     rbind (add_dependent t ds dts)
       (\<lambda>dts'. count_edges es (AList.update t (int (length ds)) ind) dts')"

text \<open>The inner loop: decrement the in-degree of each dependent, queue it at zero.\<close>

fun release ::
  "string list \<Rightarrow> (string, int) dict \<Rightarrow> string list
   \<Rightarrow> (graph_error, (string, int) dict \<times> string list) result" where
  "release [] ind ready = Inr (ind, ready)"
| "release (d # ds) ind ready =
     (case map_of ind d of
        None \<Rightarrow> Inl (MissingKey d)
      | Some k \<Rightarrow>
          release ds (AList.update d (k - 1) ind) (if k - 1 = 0 then ready @ [d] else ready))"

text \<open>The termination measure: in-degrees that are still positive, plus the queue.\<close>

definition open_degrees :: "(string, int) dict \<Rightarrow> nat" where
  "open_degrees ind = length (filter (\<lambda>p. 0 < snd p) ind)"

lemma open_degrees_update:
  "map_of ind d = Some k \<Longrightarrow>
   open_degrees (AList.update d (k - 1) ind) + (if k - 1 = 0 then 1 else 0) \<le> open_degrees ind"
  by (induction ind) (auto simp: open_degrees_def split: if_splits)

lemma release_measure:
  "release ds ind ready = Inr (ind', ready') \<Longrightarrow>
   open_degrees ind' + length ready' \<le> open_degrees ind + length ready"
proof (induction ds arbitrary: ind ready)
  case (Cons d ds)
  then obtain k where k: "map_of ind d = Some k" by (auto split: option.splits)
  have "open_degrees ind' + length ready' \<le> open_degrees (AList.update d (k - 1) ind)
      + length (if k - 1 = 0 then ready @ [d] else ready)"
    by (rule Cons.IH) (use Cons.prems k in simp)
  also have "\<dots> \<le> open_degrees ind + length ready"
    using open_degrees_update [OF k] by auto
  finally show ?case .
qed simp

function kahn_loop ::
  "(string, string list) dict \<Rightarrow> (string, int) dict \<Rightarrow> string list \<Rightarrow> string list
   \<Rightarrow> (graph_error, string list) result" where
  "kahn_loop dts ind [] ordered = Inr ordered"
| "kahn_loop dts ind (t # ready) ordered =
     (case map_of dts t of
        None \<Rightarrow> Inl (MissingKey t)
      | Some ds \<Rightarrow>
          (case release ds ind ready of
             Inl e \<Rightarrow> Inl e
           | Inr (ind', ready') \<Rightarrow> kahn_loop dts ind' ready' (ordered @ [t])))"
  by pat_completeness auto
termination
  by (relation "measure (\<lambda>(dts, ind, ready, ordered). open_degrees ind + length ready)")
    (auto dest: release_measure)

definition initial_ready :: "string list \<Rightarrow> (string, int) dict \<Rightarrow> string list" where
  "initial_ready names ind = filter (\<lambda>n. map_of ind n = Some 0) names"

definition topological_order :: "workflow_graph \<Rightarrow> (graph_error, string list) result" where
  "topological_order g =
     rbind (count_edges (dependencies g) (dict_fromkeys (task_names g) 0)
              (dict_fromkeys (task_names g) []))
       (\<lambda>(ind, dts). rbind (kahn_loop dts ind (initial_ready (task_names g) ind) [])
          (\<lambda>ordered. if length ordered \<noteq> length (task_names g) then Inl DependencyCycle
                     else Inr ordered))"

subsection \<open>Validation\<close>

fun collect_names :: "workflow_task list \<Rightarrow> string list \<Rightarrow> (graph_error, string list) result" where
  "collect_names [] names = Inr names"
| "collect_names (t # ts) names =
     (if task_name t \<in> set names then Inl (DuplicateTaskName (task_name t))
      else collect_names ts (names @ [task_name t]))"

definition task_depends_on :: "workflow_task \<Rightarrow> string list" where
  "task_depends_on t = (case depends_on t of None \<Rightarrow> [] | Some ds \<Rightarrow> ds)"

definition task_sources :: "workflow_task \<Rightarrow> string list" where
  "task_sources t = (case input_from t of None \<Rightarrow> [] | Some ss \<Rightarrow> ss)"

fun check_dependencies ::
  "string \<Rightarrow> string list \<Rightarrow> string list \<Rightarrow> (graph_error, unit) result" where
  "check_dependencies name names [] = Inr ()"
| "check_dependencies name names (d # ds) =
     (if d = name then Inl (SelfDependency name)
      else if d \<notin> set names then Inl (UnknownDependency name d)
      else check_dependencies name names ds)"

fun build_dependencies ::
  "string list \<Rightarrow> workflow_task list \<Rightarrow> (string, string list) dict
   \<Rightarrow> (graph_error, (string, string list) dict) result" where
  "build_dependencies names [] deps = Inr deps"
| "build_dependencies names (t # ts) deps =
     (if \<not> distinct (task_depends_on t) then Inl (DuplicateDependencies (task_name t))
      else rbind (check_dependencies (task_name t) names (task_depends_on t))
        (\<lambda>_. build_dependencies names ts
               (AList.update (task_name t) (task_depends_on t) deps)))"

fun check_sources ::
  "string \<Rightarrow> string list \<Rightarrow> string list \<Rightarrow> string list \<Rightarrow> string list
   \<Rightarrow> (graph_error, unit) result" where
  "check_sources name names ds [] seen = Inr ()"
| "check_sources name names ds (s # ss) seen =
     (if s = name then Inl (OwnResult name)
      else if s \<notin> set names then Inl (UnknownResultSource name s)
      else if s \<in> set seen then Inl (DuplicateResultSource name s)
      else if s \<notin> set ds then Inl (ResultSourceNotDependency name s)
      else check_sources name names ds ss (s # seen))"

fun check_all_sources ::
  "string list \<Rightarrow> (string, string list) dict \<Rightarrow> workflow_task list
   \<Rightarrow> (graph_error, unit) result" where
  "check_all_sources names deps [] = Inr ()"
| "check_all_sources names deps (t # ts) =
     (case map_of deps (task_name t) of
        None \<Rightarrow> Inl (MissingKey (task_name t))
      | Some ds \<Rightarrow> rbind (check_sources (task_name t) names ds (task_sources t) [])
          (\<lambda>_. check_all_sources names deps ts))"

definition build_workflow_graph :: "workflow_task list \<Rightarrow> (graph_error, workflow_graph) result" where
  "build_workflow_graph tasks =
     (if tasks = [] then Inl EmptyWorkflow
      else rbind (collect_names tasks []) (\<lambda>names.
        rbind (build_dependencies names tasks []) (\<lambda>deps.
        rbind (check_all_sources names deps tasks) (\<lambda>_.
        let g = \<lparr>task_names = names, dependencies = deps\<rparr> in
        rbind (topological_order g) (\<lambda>_. Inr g)))))"

subsection \<open>Scheduling queries\<close>

fun ready_loop ::
  "workflow_graph \<Rightarrow> phases \<Rightarrow> string list \<Rightarrow> string list \<Rightarrow> (graph_error, string list) result" where
  "ready_loop g phs [] ready = Inr ready"
| "ready_loop g phs (t # ts) ready =
     (if map_of phs t \<noteq> None then ready_loop g phs ts ready
      else case map_of (dependencies g) t of
        None \<Rightarrow> Inl (MissingKey t)
      | Some ds \<Rightarrow>
          if list_all (\<lambda>d. map_of phs d = Some Succeeded) ds
          then ready_loop g phs ts (ready @ [t]) else ready_loop g phs ts ready)"

definition find_ready_tasks :: "workflow_graph \<Rightarrow> phases \<Rightarrow> (graph_error, string list) result" where
  "find_ready_tasks g phs = ready_loop g phs (task_names g) []"

definition TERMINAL_UNSUCCESSFUL_PHASES :: "phase list" where
  "TERMINAL_UNSUCCESSFUL_PHASES = [Failed, TimedOut, Skipped]"

definition unsuccessful :: "phase option \<Rightarrow> bool" where
  "unsuccessful p = (case p of None \<Rightarrow> False | Some q \<Rightarrow> q \<in> set TERMINAL_UNSUCCESSFUL_PHASES)"

fun skip_loop ::
  "workflow_graph \<Rightarrow> string list \<Rightarrow> phases \<Rightarrow> string list \<Rightarrow> (graph_error, string list) result" where
  "skip_loop g [] eff skipped = Inr skipped"
| "skip_loop g (t # ts) eff skipped =
     (if map_of eff t \<noteq> None then skip_loop g ts eff skipped
      else case map_of (dependencies g) t of
        None \<Rightarrow> Inl (MissingKey t)
      | Some ds \<Rightarrow>
          if list_ex (\<lambda>d. unsuccessful (map_of eff d)) ds
          then skip_loop g ts (AList.update t Skipped eff) (skipped @ [t])
          else skip_loop g ts eff skipped)"

definition find_skipped_tasks :: "workflow_graph \<Rightarrow> phases \<Rightarrow> (graph_error, string list) result" where
  "find_skipped_tasks g phs = rbind (topological_order g) (\<lambda>ord. skip_loop g ord phs [])"


subsection \<open>Specification vocabulary\<close>

definition deps_of :: "workflow_graph \<Rightarrow> string \<Rightarrow> string list" where
  "deps_of g t = (case map_of (dependencies g) t of None \<Rightarrow> [] | Some ds \<Rightarrow> ds)"

definition wf_graph :: "workflow_graph \<Rightarrow> bool" where
  "wf_graph g \<longleftrightarrow> distinct (task_names g) \<and> dict_keys (dependencies g) = task_names g \<and>
     (\<forall>t \<in> set (task_names g). distinct (deps_of g t) \<and> t \<notin> set (deps_of g t) \<and>
        set (deps_of g t) \<subseteq> set (task_names g))"

definition dep_rel :: "workflow_graph \<Rightarrow> (string \<times> string) set" where
  "dep_rel g = {(d, t). t \<in> set (task_names g) \<and> d \<in> set (deps_of g t)}"

definition topo_sorted :: "workflow_graph \<Rightarrow> string list \<Rightarrow> bool" where
  "topo_sorted g xs \<longleftrightarrow> (\<forall>ys t zs. xs = ys @ t # zs \<longrightarrow> set (deps_of g t) \<subseteq> set ys)"

definition dependents_of :: "workflow_graph \<Rightarrow> string \<Rightarrow> string list" where
  "dependents_of g d = map fst (filter (\<lambda>(t, ds). d \<in> set ds) (dependencies g))"

lemma wf_graph_deps:
  assumes "wf_graph g" and "t \<in> set (task_names g)"
  shows "distinct (deps_of g t)" and "d \<in> set (deps_of g t) \<Longrightarrow> d \<in> set (task_names g)"
  using assms unfolding wf_graph_def by blast+

lemma wf_graph_lookup:
  assumes "wf_graph g" and "t \<in> set (task_names g)"
  shows "map_of (dependencies g) t = Some (deps_of g t)"
proof -
  have "t \<in> dom (map_of (dependencies g))"
    using assms by (metis set_dict_keys wf_graph_def)
  then show ?thesis by (auto simp: deps_of_def)
qed

lemma wf_graph_distinct_keys:
  assumes "wf_graph g"
  shows "distinct (map fst (dependencies g))"
  using assms by (simp add: wf_graph_def flip: dict_keys_def)

lemma wf_graph_entry:
  assumes "wf_graph g" and "(t, ds) \<in> set (dependencies g)"
  shows "t \<in> set (task_names g)" and "ds = deps_of g t"
proof -
  have m: "map_of (dependencies g) t = Some ds"
    using assms wf_graph_distinct_keys by (simp add: map_of_is_SomeI)
  then show "ds = deps_of g t" by (simp add: deps_of_def)
  have "t \<in> set (dict_keys (dependencies g))" using m by auto
  then show "t \<in> set (task_names g)" using assms(1) by (metis wf_graph_def)
qed

lemma set_dependents_of:
  assumes "wf_graph g"
  shows "set (dependents_of g d) = {t \<in> set (task_names g). d \<in> set (deps_of g t)}"
proof -
  have "(t, deps_of g t) \<in> set (dependencies g)" if "t \<in> set (task_names g)" for t
    using wf_graph_lookup [OF assms that] by (rule map_of_SomeD)
  then show ?thesis
    using wf_graph_entry [OF assms] by (force simp: dependents_of_def)
qed

lemma distinct_dependents_of:
  assumes "wf_graph g"
  shows "distinct (dependents_of g d)"
  unfolding dependents_of_def using wf_graph_distinct_keys [OF assms]
  by (simp add: distinct_map_filter)

lemma topo_sorted_snoc:
  assumes "topo_sorted g xs" and "set (deps_of g t) \<subseteq> set xs"
  shows "topo_sorted g (xs @ [t])"
  unfolding topo_sorted_def
proof (intro allI impI)
  fix ys u zs assume eq: "xs @ [t] = ys @ u # zs"
  show "set (deps_of g u) \<subseteq> set ys"
  proof (cases zs rule: rev_cases)
    case Nil
    then show ?thesis using eq assms(2) by simp
  next
    case (snoc zs' z)
    then have "xs = ys @ u # zs'" using eq by simp
    then show ?thesis using assms(1) by (simp add: topo_sorted_def)
  qed
qed

subsection \<open>The tables of the work-list algorithm\<close>

lemma map_of_dict_fromkeys:
  "map_of (dict_fromkeys ns v) k = (if k \<in> set ns then Some v else None)"
proof -
  have "map_of (foldl (\<lambda>d n. AList.update n v d) d ns) k
      = (if k \<in> set ns then Some v else map_of d k)" for d
    by (induction ns arbitrary: d) auto
  then show ?thesis by (simp add: dict_fromkeys_def)
qed

lemma add_dependent_spec:
  "distinct ds \<Longrightarrow> set ds \<subseteq> dom (map_of dts) \<Longrightarrow>
   \<exists>dts'. add_dependent t ds dts = Inr dts' \<and>
     map_of dts' = (\<lambda>k. if k \<in> set ds then Some (the (map_of dts k) @ [t]) else map_of dts k)"
proof (induction ds arbitrary: dts)
  case (Cons d ds)
  then obtain us where us: "map_of dts d = Some us" by auto
  have "\<exists>dts'. add_dependent t ds (AList.update d (us @ [t]) dts) = Inr dts' \<and>
     map_of dts' = (\<lambda>k. if k \<in> set ds then Some (the (map_of (AList.update d (us @ [t]) dts) k) @ [t])
       else map_of (AList.update d (us @ [t]) dts) k)"
    using Cons.prems by (intro Cons.IH) auto
  then show ?case using us Cons.prems by (auto simp: fun_eq_iff)
qed simp

lemma count_edges_spec:
  assumes "distinct (map fst es)"
    and "\<forall>(t, ds) \<in> set es. distinct ds \<and> set ds \<subseteq> dom (map_of dts)"
  shows "\<exists>ind' dts'. count_edges es ind dts = Inr (ind', dts') \<and>
     (\<forall>k. map_of ind' k =
        (case map_of es k of Some ds \<Rightarrow> Some (int (length ds)) | None \<Rightarrow> map_of ind k)) \<and>
     (\<forall>k. map_of dts' k = map_option (\<lambda>us. us @ map fst (filter (\<lambda>(t, ds). k \<in> set ds) es))
        (map_of dts k))"
  using assms
proof (induction es arbitrary: ind dts)
  case Nil
  show ?case by (simp add: option.map_ident)
next
  case (Cons e es)
  obtain t ds where e: "e = (t, ds)" by (cases e)
  from Cons.prems e obtain dts1 where d1: "add_dependent t ds dts = Inr dts1"
    and m1: "map_of dts1 = (\<lambda>k. if k \<in> set ds then Some (the (map_of dts k) @ [t]) else map_of dts k)"
    using add_dependent_spec [of ds dts t] by auto
  from Cons.prems e have dom1: "dom (map_of dts1) = dom (map_of dts)"
    by (auto simp: m1 split: if_splits)
  obtain ind' dts' where r: "count_edges es (AList.update t (int (length ds)) ind) dts1 = Inr (ind', dts')"
    and i: "\<And>k. map_of ind' k = (case map_of es k of Some ds \<Rightarrow> Some (int (length ds))
        | None \<Rightarrow> map_of (AList.update t (int (length ds)) ind) k)"
    and d: "\<And>k. map_of dts' k = map_option (\<lambda>us. us @ map fst (filter (\<lambda>(t, ds). k \<in> set ds) es))
        (map_of dts1 k)"
    using Cons.IH [of dts1 "AList.update t (int (length ds)) ind"] Cons.prems dom1 by auto
  have "map_of es t = None" using Cons.prems e by (simp add: map_of_eq_None_iff)
  then have i': "map_of ind' k = (case map_of (e # es) k of Some ds \<Rightarrow> Some (int (length ds))
        | None \<Rightarrow> map_of ind k)" for k
    using i [of k] e by (auto split: option.splits)
  have d': "map_of dts' k = map_option (\<lambda>us. us @ map fst (filter (\<lambda>(t, ds). k \<in> set ds) (e # es)))
        (map_of dts k)" for k
    using d [of k] m1 e Cons.prems by (cases "map_of dts k") (auto split: if_splits)
  show ?case using r d1 e i' d' by auto
qed

lemma release_spec:
  "distinct ds \<Longrightarrow> \<forall>d \<in> set ds. map_of ind d = Some (f d) \<Longrightarrow>
   \<exists>ind'. release ds ind ready = Inr (ind', ready @ filter (\<lambda>d. f d = 1) ds) \<and>
     map_of ind' = (\<lambda>k. if k \<in> set ds then Some (f k - 1) else map_of ind k)"
proof (induction ds arbitrary: ind ready)
  case (Cons d ds)
  let ?ind = "AList.update d (f d - 1) ind"
  let ?ready = "if f d - 1 = 0 then ready @ [d] else ready"
  have "\<exists>ind'. release ds ?ind ?ready = Inr (ind', ?ready @ filter (\<lambda>d. f d = 1) ds) \<and>
     map_of ind' = (\<lambda>k. if k \<in> set ds then Some (f k - 1) else map_of ?ind k)"
    using Cons.prems by (intro Cons.IH) auto
  then show ?case using Cons.prems by (auto simp: fun_eq_iff)
qed simp


subsection \<open>Correctness of the work-list algorithm\<close>

definition kahn_inv :: "workflow_graph \<Rightarrow> (string, int) dict \<Rightarrow> string list \<Rightarrow> string list \<Rightarrow> bool" where
  "kahn_inv g ind ready ordered \<longleftrightarrow>
     distinct (ordered @ ready) \<and>
     set (ordered @ ready) = {t \<in> set (task_names g). set (deps_of g t) \<subseteq> set ordered} \<and>
     (\<forall>t \<in> set (task_names g).
        map_of ind t = Some (int (card (set (deps_of g t) - set ordered)))) \<and>
     topo_sorted g ordered"

lemma kahn_inv_step:
  assumes wf: "wf_graph g" and inv: "kahn_inv g ind (t # ready) ordered"
  shows "\<exists>ind' ready'. release (dependents_of g t) ind ready = Inr (ind', ready') \<and>
     kahn_inv g ind' ready' (ordered @ [t])"
proof -
  define f where "f u = int (card (set (deps_of g u) - set ordered))" for u
  let ?ds = "dependents_of g t"
  have ds: "set ?ds = {u \<in> set (task_names g). t \<in> set (deps_of g u)}"
    by (rule set_dependents_of [OF wf])
  have dist: "distinct (ordered @ t # ready)"
    and qset: "set (ordered @ t # ready) = {u \<in> set (task_names g). set (deps_of g u) \<subseteq> set ordered}"
    and ind: "\<forall>u \<in> set (task_names g). map_of ind u = Some (f u)"
    and topo: "topo_sorted g ordered"
    using inv by (auto simp: kahn_inv_def f_def)
  have ds_new: "u \<notin> set (ordered @ t # ready)" if "u \<in> set ?ds" for u
  proof
    assume "u \<in> set (ordered @ t # ready)"
    then have "set (deps_of g u) \<subseteq> set ordered" using qset by blast
    moreover have "t \<in> set (deps_of g u)" using that ds by blast
    ultimately show False using dist by auto
  qed
  obtain ind' where rel: "release ?ds ind ready = Inr (ind', ready @ filter (\<lambda>u. f u = 1) ?ds)"
    and ind': "map_of ind' = (\<lambda>k. if k \<in> set ?ds then Some (f k - 1) else map_of ind k)"
    using release_spec [OF distinct_dependents_of [OF wf], of t ind f ready] ind ds by auto
  have card_step: "int (card (set (deps_of g u) - set (ordered @ [t])))
      = (if u \<in> set ?ds then f u - 1 else f u)" if "u \<in> set (task_names g)" for u
  proof (cases "u \<in> set ?ds")
    case True
    then have "t \<in> set (deps_of g u) - set ordered" using ds dist by auto
    moreover have "set (deps_of g u) - set (ordered @ [t]) = (set (deps_of g u) - set ordered) - {t}"
      by auto
    ultimately have "card (set (deps_of g u) - set ordered)
        = Suc (card (set (deps_of g u) - set (ordered @ [t])))"
      by (metis card.remove finite_Diff finite_set)
    then show ?thesis using True by (simp add: f_def)
  next
    case False
    then have "set (deps_of g u) - set (ordered @ [t]) = set (deps_of g u) - set ordered"
      using ds that by auto
    then show ?thesis using False by (simp add: f_def)
  qed
  have one: "f u = 1 \<longleftrightarrow> set (deps_of g u) - set ordered = {t}" if "u \<in> set ?ds" for u
  proof -
    have "t \<in> set (deps_of g u) - set ordered" using that ds dist by auto
    then have "card (set (deps_of g u) - set ordered) = 1 \<longleftrightarrow> set (deps_of g u) - set ordered = {t}"
      by (metis card_1_singletonE is_singletonI is_singleton_altdef singletonD)
    then show ?thesis by (simp add: f_def)
  qed
  have q': "set (ordered @ [t]) \<union> set (ready @ filter (\<lambda>u. f u = 1) ?ds)
      = {u \<in> set (task_names g). set (deps_of g u) \<subseteq> set (ordered @ [t])}" (is "?L = ?R")
  proof
    show "?L \<subseteq> ?R"
    proof
      fix u assume "u \<in> ?L"
      then consider "u \<in> set (ordered @ t # ready)" | "u \<in> set ?ds" "f u = 1" by auto
      then show "u \<in> ?R"
      proof cases
        case 1
        then have "u \<in> set (task_names g) \<and> set (deps_of g u) \<subseteq> set ordered" using qset by blast
        then show ?thesis by auto
      next
        case 2
        then show ?thesis using one [of u] ds by auto
      qed
    qed
    show "?R \<subseteq> ?L"
    proof
      fix u assume u: "u \<in> ?R"
      show "u \<in> ?L"
      proof (cases "t \<in> set (deps_of g u)")
        case True
        then have "u \<in> set ?ds" using u ds by auto
        moreover have "set (deps_of g u) - set ordered = {t}" using True u dist by auto
        ultimately show ?thesis using one by auto
      next
        case False
        then have "u \<in> {u \<in> set (task_names g). set (deps_of g u) \<subseteq> set ordered}" using u by auto
        then show ?thesis using qset by auto
      qed
    qed
  qed
  have "kahn_inv g ind' (ready @ filter (\<lambda>u. f u = 1) ?ds) (ordered @ [t])"
    unfolding kahn_inv_def
  proof (intro conjI)
    show "distinct ((ordered @ [t]) @ ready @ filter (\<lambda>u. f u = 1) ?ds)"
      using dist ds_new distinct_dependents_of [OF wf] by auto
    show "set ((ordered @ [t]) @ ready @ filter (\<lambda>u. f u = 1) ?ds)
        = {u \<in> set (task_names g). set (deps_of g u) \<subseteq> set (ordered @ [t])}"
      using q' by auto
    show "\<forall>u \<in> set (task_names g).
        map_of ind' u = Some (int (card (set (deps_of g u) - set (ordered @ [t]))))"
      using card_step ind' ind by auto
    show "topo_sorted g (ordered @ [t])"
      using topo qset by (intro topo_sorted_snoc) auto
  qed
  then show ?thesis using rel by blast
qed

lemma kahn_loop_correct:
  assumes "wf_graph g"
    and "\<forall>d \<in> set (task_names g). map_of dts d = Some (dependents_of g d)"
    and "kahn_inv g ind ready ordered"
  shows "\<exists>ind' ord. kahn_loop dts ind ready ordered = Inr ord \<and> kahn_inv g ind' [] ord"
  using assms
proof (induction dts ind ready ordered rule: kahn_loop.induct)
  case (1 dts ind ordered)
  then show ?case by auto
next
  case (2 dts ind t ready ordered)
  have "t \<in> set (task_names g)" using "2.prems"(3) by (auto simp: kahn_inv_def)
  then have t: "map_of dts t = Some (dependents_of g t)" using "2.prems"(2) by auto
  obtain ind' ready' where r: "release (dependents_of g t) ind ready = Inr (ind', ready')"
    and i: "kahn_inv g ind' ready' (ordered @ [t])"
    using kahn_inv_step [OF "2.prems"(1,3)] by auto
  show ?case using "2.IH" [OF t r _ "2.prems"(1,2) i] t r by auto
qed

lemma kahn_initial:
  assumes wf: "wf_graph g"
  obtains ind dts where
    "count_edges (dependencies g) (dict_fromkeys (task_names g) 0) (dict_fromkeys (task_names g) [])
       = Inr (ind, dts)"
    and "\<forall>d \<in> set (task_names g). map_of dts d = Some (dependents_of g d)"
    and "kahn_inv g ind (initial_ready (task_names g) ind) []"
proof -
  have pre: "\<forall>(t, ds) \<in> set (dependencies g). distinct ds \<and>
      set ds \<subseteq> dom (map_of (dict_fromkeys (task_names g) ([] :: string list)))"
  proof clarify
    fix t ds assume "(t, ds) \<in> set (dependencies g)"
    then have "t \<in> set (task_names g)" "ds = deps_of g t" using wf_graph_entry [OF wf] by auto
    then show "distinct ds \<and> set ds \<subseteq> dom (map_of (dict_fromkeys (task_names g) ([] :: string list)))"
      using wf_graph_deps [OF wf] by (auto simp: map_of_dict_fromkeys)
  qed
  obtain ind dts where c: "count_edges (dependencies g) (dict_fromkeys (task_names g) 0)
        (dict_fromkeys (task_names g) []) = Inr (ind, dts)"
    and i: "\<And>k. map_of ind k = (case map_of (dependencies g) k of Some ds \<Rightarrow> Some (int (length ds))
        | None \<Rightarrow> map_of (dict_fromkeys (task_names g) 0) k)"
    and d: "\<And>k. map_of dts k = map_option (\<lambda>us. us @ dependents_of g k)
        (map_of (dict_fromkeys (task_names g) []) k)"
    using count_edges_spec [OF wf_graph_distinct_keys [OF wf] pre, of "dict_fromkeys (task_names g) 0"]
    unfolding dependents_of_def by metis
  have ind: "map_of ind t = Some (int (length (deps_of g t)))" if "t \<in> set (task_names g)" for t
    using i [of t] wf_graph_lookup [OF wf that] by simp
  have len: "length (deps_of g t) = card (set (deps_of g t))" if "t \<in> set (task_names g)" for t
    using wf that by (simp add: wf_graph_def distinct_card)
  have "kahn_inv g ind (initial_ready (task_names g) ind) []"
    using wf ind len by (auto simp: kahn_inv_def wf_graph_def initial_ready_def topo_sorted_def)
  moreover have "\<forall>d \<in> set (task_names g). map_of dts d = Some (dependents_of g d)"
    using d by (simp add: map_of_dict_fromkeys)
  ultimately show ?thesis using c that by blast
qed

lemma topo_sorted_acyclic:
  assumes "topo_sorted g xs" and "distinct xs" and "set xs = set (task_names g)"
  shows "acyclic (dep_rel g)"
proof -
  define pos where "pos t = length (takeWhile (\<lambda>u. u \<noteq> t) xs)" for t
  have before: "pos d < pos t" if "(d, t) \<in> dep_rel g" for d t
  proof -
    from that assms(3) have "t \<in> set xs" by (auto simp: dep_rel_def)
    then obtain ys zs where xs: "xs = ys @ t # zs" by (auto dest: split_list)
    then have d: "d \<in> set ys" using assms(1) that by (auto simp: topo_sorted_def dep_rel_def)
    then obtain as bs where ys: "ys = as @ d # bs" by (auto dest: split_list)
    have "d \<notin> set as" "t \<notin> set ys" using xs ys assms(2) by auto
    then have "pos d = length as" "pos t = length ys"
      using xs ys takeWhile_neq_split [of d as "bs @ t # zs"] takeWhile_neq_split [of t ys zs]
      by (simp_all add: pos_def)
    then show ?thesis using ys by simp
  qed
  have "dep_rel g \<subseteq> measure pos" using before by auto
  then have "wf (dep_rel g)" using wf_subset [OF wf_measure] by blast
  then show ?thesis by (rule wf_acyclic)
qed

lemma finite_dep_rel: "finite (dep_rel g)"
proof -
  have "dep_rel g \<subseteq> (\<Union>t \<in> set (task_names g). set (deps_of g t) \<times> {t})"
    by (auto simp: dep_rel_def)
  then show ?thesis by (rule finite_subset) auto
qed

lemma acyclic_all_ordered:
  assumes wf: "wf_graph g" and ac: "acyclic (dep_rel g)"
    and closed: "ord = {t \<in> set (task_names g). set (deps_of g t) \<subseteq> ord}"
  shows "set (task_names g) \<subseteq> ord"
proof
  fix t assume "t \<in> set (task_names g)"
  have "wf (dep_rel g)" using finite_acyclic_wf [OF finite_dep_rel ac] .
  then show "t \<in> ord" using \<open>t \<in> set (task_names g)\<close>
  proof (induction t rule: wf_induct_rule)
    case (less t)
    have "set (deps_of g t) \<subseteq> ord"
    proof
      fix d assume d: "d \<in> set (deps_of g t)"
      then have "d \<in> set (task_names g)" using wf_graph_deps [OF wf less.prems] by simp
      then show "d \<in> ord" using less.IH [of d] d less.prems by (auto simp: dep_rel_def)
    qed
    then show ?case using closed less.prems by auto
  qed
qed

lemma topological_order_cases:
  assumes wf: "wf_graph g"
  shows "if acyclic (dep_rel g)
    then \<exists>ord. topological_order g = Inr ord \<and> distinct ord \<and> set ord = set (task_names g) \<and>
           topo_sorted g ord
    else topological_order g = Inl DependencyCycle"
proof -
  obtain ind dts where c: "count_edges (dependencies g) (dict_fromkeys (task_names g) 0)
       (dict_fromkeys (task_names g) []) = Inr (ind, dts)"
    and d: "\<forall>d \<in> set (task_names g). map_of dts d = Some (dependents_of g d)"
    and i: "kahn_inv g ind (initial_ready (task_names g) ind) []"
    using kahn_initial [OF wf] by blast
  obtain ind' ord where k: "kahn_loop dts ind (initial_ready (task_names g) ind) [] = Inr ord"
    and inv: "kahn_inv g ind' [] ord"
    using kahn_loop_correct [OF wf d i] by blast
  have dist: "distinct ord" and topo: "topo_sorted g ord"
    and closed: "set ord = {t \<in> set (task_names g). set (deps_of g t) \<subseteq> set ord}"
    using inv by (auto simp: kahn_inv_def)
  have names: "distinct (task_names g)" using wf by (simp add: wf_graph_def)
  have len: "length ord = length (task_names g) \<longleftrightarrow> set ord = set (task_names g)"
  proof
    assume "length ord = length (task_names g)"
    then have "card (set ord) = card (set (task_names g))"
      using dist names by (simp add: distinct_card)
    moreover have "set ord \<subseteq> set (task_names g)" using closed by blast
    ultimately show "set ord = set (task_names g)" by (simp add: card_subset_eq)
  next
    assume "set ord = set (task_names g)"
    then show "length ord = length (task_names g)" using dist names by (metis distinct_card)
  qed
  have top: "topological_order g = (if set ord \<noteq> set (task_names g) then Inl DependencyCycle else Inr ord)"
    using c k len by (simp add: topological_order_def)
  show ?thesis
  proof (cases "acyclic (dep_rel g)")
    case True
    then have "set ord = set (task_names g)"
      using acyclic_all_ordered [OF wf True closed] closed by blast
    then show ?thesis using True top dist topo by auto
  next
    case False
    then have "set ord \<noteq> set (task_names g)" using topo_sorted_acyclic [OF topo dist] by blast
    then show ?thesis using False top by simp
  qed
qed


subsection \<open>Validation accepts exactly the acyclic well-formed task lists\<close>

definition valid_task :: "string list \<Rightarrow> workflow_task \<Rightarrow> bool" where
  "valid_task names t \<longleftrightarrow> distinct (task_depends_on t) \<and> task_name t \<notin> set (task_depends_on t) \<and>
     set (task_depends_on t) \<subseteq> set names \<and>
     distinct (task_sources t) \<and> set (task_sources t) \<subseteq> set (task_depends_on t)"

definition valid_tasks :: "workflow_task list \<Rightarrow> bool" where
  "valid_tasks tasks \<longleftrightarrow> tasks \<noteq> [] \<and> distinct (map task_name tasks) \<and>
     (\<forall>t \<in> set tasks. valid_task (map task_name tasks) t) \<and>
     acyclic {(d, task_name t) | d t. t \<in> set tasks \<and> d \<in> set (task_depends_on t)}"

definition graph_of :: "workflow_task list \<Rightarrow> workflow_graph" where
  "graph_of tasks = \<lparr>task_names = map task_name tasks,
     dependencies = map (\<lambda>t. (task_name t, task_depends_on t)) tasks\<rparr>"

lemma collect_names_iff:
  "distinct ns \<Longrightarrow> collect_names ts ns = Inr r \<longleftrightarrow>
     distinct (ns @ map task_name ts) \<and> r = ns @ map task_name ts"
  by (induction ts arbitrary: ns) auto

lemma check_dependencies_iff:
  "check_dependencies name names ds = Inr u \<longleftrightarrow> name \<notin> set ds \<and> set ds \<subseteq> set names"
  by (induction ds) auto

lemma build_dependencies_iff:
  assumes "distinct (map task_name ts)" and "dom (map_of deps) \<inter> task_name ` set ts = {}"
  shows "build_dependencies names ts deps = Inr r \<longleftrightarrow>
     (\<forall>t \<in> set ts. distinct (task_depends_on t) \<and> task_name t \<notin> set (task_depends_on t) \<and>
        set (task_depends_on t) \<subseteq> set names) \<and>
     r = deps @ map (\<lambda>t. (task_name t, task_depends_on t)) ts"
  using assms
proof (induction ts arbitrary: deps)
  case (Cons t ts)
  have upd: "AList.update (task_name t) (task_depends_on t) deps
      = deps @ [(task_name t, task_depends_on t)]"
    using Cons.prems by (intro dict_update_new) auto
  have "build_dependencies names ts (AList.update (task_name t) (task_depends_on t) deps) = Inr r \<longleftrightarrow>
     (\<forall>t \<in> set ts. distinct (task_depends_on t) \<and> task_name t \<notin> set (task_depends_on t) \<and>
        set (task_depends_on t) \<subseteq> set names) \<and>
     r = AList.update (task_name t) (task_depends_on t) deps
         @ map (\<lambda>t. (task_name t, task_depends_on t)) ts"
  proof (rule Cons.IH)
    show "dom (map_of (AList.update (task_name t) (task_depends_on t) deps)) \<inter> task_name ` set ts = {}"
      using Cons.prems by (simp add: disjoint_iff)
  qed (use Cons.prems in simp)
  then show ?case
    by (auto simp: rbind_Inr_iff check_dependencies_iff upd)
qed auto

lemma check_sources_iff:
  "check_sources name names ds ss seen = Inr u \<longleftrightarrow>
     distinct ss \<and> set ss \<inter> set seen = {} \<and> name \<notin> set ss \<and> set ss \<subseteq> set names \<and> set ss \<subseteq> set ds"
  by (induction ss arbitrary: seen) auto

lemma check_all_sources_iff:
  "check_all_sources names deps ts = Inr u \<longleftrightarrow>
     (\<forall>t \<in> set ts. \<exists>ds. map_of deps (task_name t) = Some ds \<and>
        check_sources (task_name t) names ds (task_sources t) [] = Inr ())"
  by (induction ts) (auto simp: rbind_Inr_iff split: option.splits)

lemma map_of_task_key:
  "distinct (map task_name ts) \<Longrightarrow> t \<in> set ts \<Longrightarrow>
   map_of (map (\<lambda>t. (task_name t, f t)) ts) (task_name t) = Some (f t)"
  by (induction ts) (auto simp: image_iff)

lemma deps_of_graph_of:
  assumes "distinct (map task_name tasks)" and "t \<in> set tasks"
  shows "deps_of (graph_of tasks) (task_name t) = task_depends_on t"
  using assms by (simp add: deps_of_def graph_of_def map_of_task_key)

lemma dep_rel_graph_of:
  assumes "distinct (map task_name tasks)"
  shows "dep_rel (graph_of tasks)
    = {(d, task_name t) | d t. t \<in> set tasks \<and> d \<in> set (task_depends_on t)}"
proof -
  have "dep_rel (graph_of tasks)
    = {(d, task_name t) | d t. t \<in> set tasks \<and> d \<in> set (deps_of (graph_of tasks) (task_name t))}"
    by (auto simp: dep_rel_def graph_of_def)
  also have "\<dots> = {(d, task_name t) | d t. t \<in> set tasks \<and> d \<in> set (task_depends_on t)}"
    using deps_of_graph_of [OF assms] by (intro Collect_cong) metis
  finally show ?thesis .
qed

lemma wf_graph_of:
  assumes "distinct (map task_name tasks)"
    and "\<forall>t \<in> set tasks. distinct (task_depends_on t) \<and> task_name t \<notin> set (task_depends_on t) \<and>
        set (task_depends_on t) \<subseteq> set (map task_name tasks)"
  shows "wf_graph (graph_of tasks)"
proof -
  have "distinct (deps_of (graph_of tasks) n) \<and> n \<notin> set (deps_of (graph_of tasks) n) \<and>
      set (deps_of (graph_of tasks) n) \<subseteq> set (task_names (graph_of tasks))"
    if n: "n \<in> set (task_names (graph_of tasks))" for n
  proof -
    from n obtain t where t: "t \<in> set tasks" "n = task_name t" by (auto simp: graph_of_def)
    then show ?thesis using assms deps_of_graph_of [OF assms(1) t(1)] by (simp add: graph_of_def)
  qed
  then show ?thesis using assms(1) by (auto simp: wf_graph_def graph_of_def dict_keys_def comp_def)
qed

lemma build_workflow_graph_iff:
  "build_workflow_graph tasks = Inr g \<longleftrightarrow> valid_tasks tasks \<and> g = graph_of tasks"
proof (cases "tasks \<noteq> [] \<and> distinct (map task_name tasks)")
  case False
  then show ?thesis
    by (auto simp: build_workflow_graph_def valid_tasks_def collect_names_iff)
next
  case True
  let ?names = "map task_name tasks"
  let ?deps = "map (\<lambda>t. (task_name t, task_depends_on t)) tasks"
  let ?okd = "\<forall>t \<in> set tasks. distinct (task_depends_on t) \<and> task_name t \<notin> set (task_depends_on t) \<and>
      set (task_depends_on t) \<subseteq> set ?names"
  let ?oks = "\<forall>t \<in> set tasks. distinct (task_sources t) \<and> set (task_sources t) \<subseteq> set (task_depends_on t)"
  have names: "collect_names tasks [] = Inr ?names"
    using True by (simp add: collect_names_iff)
  have deps: "build_dependencies ?names tasks [] = Inr r \<longleftrightarrow> ?okd \<and> r = ?deps" for r
    using True by (subst build_dependencies_iff) auto
  have srcs: "check_all_sources ?names ?deps tasks = Inr u \<longleftrightarrow> ?oks" if okd: "?okd" for u
  proof -
    have "(\<exists>ds. map_of ?deps (task_name t) = Some ds \<and>
        check_sources (task_name t) ?names ds (task_sources t) [] = Inr ()) \<longleftrightarrow>
        distinct (task_sources t) \<and> set (task_sources t) \<subseteq> set (task_depends_on t)"
      if t: "t \<in> set tasks" for t
      using True t okd by (auto simp: map_of_task_key check_sources_iff)
    then show ?thesis by (simp add: check_all_sources_iff)
  qed
  have graph: "\<lparr>task_names = ?names, dependencies = ?deps\<rparr> = graph_of tasks"
    by (simp add: graph_of_def)
  have "build_workflow_graph tasks = Inr g \<longleftrightarrow>
      ?okd \<and> ?oks \<and> is_ok (topological_order (graph_of tasks)) \<and> g = graph_of tasks"
    using True names deps srcs
    by (auto simp: build_workflow_graph_def rbind_Inr_iff is_ok_iff graph Let_def)
  moreover have "is_ok (topological_order (graph_of tasks)) \<longleftrightarrow> acyclic (dep_rel (graph_of tasks))" if "?okd"
  proof -
    have "wf_graph (graph_of tasks)" using wf_graph_of True that by blast
    from topological_order_cases [OF this] show ?thesis by (auto split: if_splits)
  qed
  ultimately show ?thesis
    using True dep_rel_graph_of [of tasks] by (auto simp: valid_tasks_def valid_task_def)
qed


subsection \<open>Ready and blocked tasks\<close>

text \<open>
  A task is blocked when it is not scheduled and a dependency is unsuccessful or itself
  blocked. The definition names no traversal order.
\<close>

inductive blocked :: "string list \<Rightarrow> (string \<Rightarrow> string list) \<Rightarrow> phases \<Rightarrow> string \<Rightarrow> bool"
  for names deps phs where
  direct: "t \<in> set names \<Longrightarrow> map_of phs t = None \<Longrightarrow> d \<in> set (deps t) \<Longrightarrow>
     unsuccessful (map_of phs d) \<Longrightarrow> blocked names deps phs t"
| inherited: "t \<in> set names \<Longrightarrow> map_of phs t = None \<Longrightarrow> d \<in> set (deps t) \<Longrightarrow>
     blocked names deps phs d \<Longrightarrow> blocked names deps phs t"

inductive_cases blockedE: "blocked names deps phs t"

inductive_simps blocked_step: "blocked names deps phs t"

lemma blocked_unscheduled: "blocked names deps phs t \<Longrightarrow> t \<in> set names \<and> map_of phs t = None"
  by (auto elim: blockedE)

lemma unsuccessful_simps [simp]:
  "unsuccessful None = False"
  "unsuccessful (Some p) = (p = Failed \<or> p = TimedOut \<or> p = Skipped)"
  by (auto simp: unsuccessful_def TERMINAL_UNSUCCESSFUL_PHASES_def)

definition task_ready :: "(string \<Rightarrow> string list) \<Rightarrow> phases \<Rightarrow> string \<Rightarrow> bool" where
  "task_ready deps phs t \<longleftrightarrow> map_of phs t = None \<and>
     list_all (\<lambda>d. map_of phs d = Some Succeeded) (deps t)"

lemma ready_loop_filter:
  assumes "wf_graph g"
  shows "set ts \<subseteq> set (task_names g) \<Longrightarrow>
    ready_loop g phs ts ready = Inr (ready @ filter (task_ready (deps_of g) phs) ts)"
  using wf_graph_lookup [OF assms]
  by (induction ts arbitrary: ready) (auto simp: task_ready_def)

lemma find_ready_tasks_filter:
  "wf_graph g \<Longrightarrow> find_ready_tasks g phs = Inr (filter (task_ready (deps_of g) phs) (task_names g))"
  by (simp add: find_ready_tasks_def ready_loop_filter)

lemma skip_step_iff:
  assumes "t \<in> set names" and "map_of phs t = None" and "set (deps t) \<subseteq> ys"
    and eff: "\<And>k. map_of eff k = (if map_of phs k \<noteq> None then map_of phs k
         else if k \<in> ys \<and> blocked names deps phs k then Some Skipped else None)"
  shows "list_ex (\<lambda>d. unsuccessful (map_of eff d)) (deps t) \<longleftrightarrow> blocked names deps phs t"
proof
  assume "list_ex (\<lambda>d. unsuccessful (map_of eff d)) (deps t)"
  then obtain d where d: "d \<in> set (deps t)" "unsuccessful (map_of eff d)" by (auto simp: list_ex_iff)
  then have "unsuccessful (map_of phs d) \<or> blocked names deps phs d"
    by (auto simp: eff split: if_splits)
  then show "blocked names deps phs t"
    using assms(1,2) d(1) by (auto intro: blocked.intros)
next
  assume "blocked names deps phs t"
  then obtain d where d: "d \<in> set (deps t)" "unsuccessful (map_of phs d) \<or> blocked names deps phs d"
    by (auto elim: blockedE)
  then have "unsuccessful (map_of eff d)"
    using assms(3) blocked_unscheduled [of names deps phs d]
    by (cases "map_of phs d") (auto simp: eff)
  then show "list_ex (\<lambda>d. unsuccessful (map_of eff d)) (deps t)"
    using d(1) by (auto simp: list_ex_iff)
qed

lemma skip_loop_filter:
  assumes wf: "wf_graph g" and topo: "topo_sorted g ord" and names: "set ord = set (task_names g)"
    and dist: "distinct ord"
  shows "ord = ys @ ts \<Longrightarrow>
    (\<And>k. map_of eff k = (if map_of phs k \<noteq> None then map_of phs k
       else if k \<in> set ys \<and> blocked (task_names g) (deps_of g) phs k then Some Skipped else None)) \<Longrightarrow>
    skip_loop g ts eff sk = Inr (sk @ filter (blocked (task_names g) (deps_of g) phs) ts)"
proof (induction ts arbitrary: ys eff sk)
  case (Cons t ts)
  let ?B = "blocked (task_names g) (deps_of g) phs"
  note eff = Cons.prems(2)
  have t: "t \<in> set (task_names g)" using Cons.prems(1) names by auto
  have tys: "t \<notin> set ys" using Cons.prems(1) dist by auto
  have ys: "set (deps_of g t) \<subseteq> set ys" using topo Cons.prems(1) by (auto simp: topo_sorted_def)
  note look = wf_graph_lookup [OF wf t]
  have next_eff: "(\<And>k. map_of eff' k = (if map_of phs k \<noteq> None then map_of phs k
       else if k \<in> set (ys @ [t]) \<and> ?B k then Some Skipped else None)) \<Longrightarrow>
    skip_loop g ts eff' sk' = Inr (sk' @ filter ?B ts)" for eff' sk'
    using Cons.prems(1) by (intro Cons.IH [of "ys @ [t]"]) auto
  show ?case
  proof (cases "map_of phs t")
    case (Some p)
    then have "\<not> ?B t" using blocked_unscheduled by force
    moreover have "map_of eff t \<noteq> None" using eff [of t] Some by simp
    moreover have "skip_loop g ts eff sk = Inr (sk @ filter ?B ts)"
      using Some eff calculation by (intro next_eff) auto
    ultimately show ?thesis by simp
  next
    case None
    have iff: "list_ex (\<lambda>d. unsuccessful (map_of eff d)) (deps_of g t) \<longleftrightarrow> ?B t"
      using t None ys eff by (rule skip_step_iff [where deps = "deps_of g"])
    have "map_of eff t = None" using eff [of t] None tys by simp
    then have step: "skip_loop g (t # ts) eff sk = (if ?B t
        then skip_loop g ts (AList.update t Skipped eff) (sk @ [t]) else skip_loop g ts eff sk)"
      using look iff by simp
    show ?thesis
    proof (cases "?B t")
      case True
      have "skip_loop g ts (AList.update t Skipped eff) (sk @ [t]) = Inr ((sk @ [t]) @ filter ?B ts)"
        using eff True None by (intro next_eff) auto
      then show ?thesis using step True by simp
    next
      case False
      have "skip_loop g ts eff sk = Inr (sk @ filter ?B ts)"
        using eff False by (intro next_eff) auto
      then show ?thesis using step False by simp
    qed
  qed
qed simp

lemma find_skipped_tasks_filter:
  assumes wf: "wf_graph g" and ac: "acyclic (dep_rel g)"
  shows "\<exists>ord. topological_order g = Inr ord \<and> distinct ord \<and> set ord = set (task_names g) \<and>
     find_skipped_tasks g phs = Inr (filter (blocked (task_names g) (deps_of g) phs) ord)"
proof -
  obtain ord where o: "topological_order g = Inr ord" "distinct ord"
    "set ord = set (task_names g)" "topo_sorted g ord"
    using topological_order_cases [OF wf] ac by auto
  have "skip_loop g ord phs [] = Inr ([] @ filter (blocked (task_names g) (deps_of g) phs) ord)"
    by (rule skip_loop_filter [OF wf o(4,3,2), of "[]"]) auto
  then show ?thesis using o by (auto simp: find_skipped_tasks_def)
qed

subsection \<open>The scheduler interface\<close>

text \<open>
  What the Workflow controller relies on: both queries return, the ready tasks are those with
  every dependency succeeded, the skipped tasks are the blocked ones, and the dependency
  relation has no cycle.
\<close>

definition terminal_phase :: "phase \<Rightarrow> bool" where
  "terminal_phase p \<longleftrightarrow> p \<noteq> Pending \<and> p \<noteq> Running"

definition mark_skipped :: "string list \<Rightarrow> phases \<Rightarrow> phases" where
  "mark_skipped ts phs = foldl (\<lambda>m t. AList.update t Skipped m) phs ts"

lemma map_of_mark_skipped:
  "map_of (mark_skipped ts phs) k = (if k \<in> set ts then Some Skipped else map_of phs k)"
proof -
  have "map_of (foldl (\<lambda>m t. AList.update t Skipped m) m ts) k
      = (if k \<in> set ts then Some Skipped else map_of m k)" for m
    by (induction ts arbitrary: m) auto
  then show ?thesis by (simp add: mark_skipped_def)
qed

locale task_scheduler =
  fixes tasks :: "'g \<Rightarrow> string list"
    and deps :: "'g \<Rightarrow> string \<Rightarrow> string list"
    and valid :: "'g \<Rightarrow> bool"
    and ready :: "'g \<Rightarrow> phases \<Rightarrow> (graph_error, string list) result"
    and skipped :: "'g \<Rightarrow> phases \<Rightarrow> (graph_error, string list) result"
  assumes ready_law: "valid g \<Longrightarrow> ready g phs = Inr (filter (task_ready (deps g) phs) (tasks g))"
    and skipped_law: "valid g \<Longrightarrow> \<exists>ss. skipped g phs = Inr ss \<and> distinct ss \<and>
      set ss = Collect (blocked (tasks g) (deps g) phs)"
    and deps_closed: "valid g \<Longrightarrow> t \<in> set (tasks g) \<Longrightarrow> set (deps g t) \<subseteq> set (tasks g)"
    and deps_wf: "valid g \<Longrightarrow> wf {(d, t). t \<in> set (tasks g) \<and> d \<in> set (deps g t)}"
begin

lemma skipped_set:
  "valid g \<Longrightarrow> skipped g phs = Inr ss \<Longrightarrow> set ss = Collect (blocked (tasks g) (deps g) phs)"
  using skipped_law [of g phs] by auto

lemma ready_not_blocked:
  assumes "valid g" and "ready g phs = Inr rs" and "t \<in> set rs"
  shows "\<not> blocked (tasks g) (deps g) phs t"
proof
  assume b: "blocked (tasks g) (deps g) phs t"
  have r: "task_ready (deps g) phs t" using assms ready_law by auto
  from b obtain d where d: "d \<in> set (deps g t)"
    and u: "unsuccessful (map_of phs d) \<or> blocked (tasks g) (deps g) phs d"
    by (auto elim: blockedE)
  have "map_of phs d = Some Succeeded" using r d by (auto simp: task_ready_def list_all_iff)
  then show False using u blocked_unscheduled by fastforce
qed

lemma blocked_after_marking:
  assumes "valid g" and "skipped g phs = Inr ss"
  shows "\<not> blocked (tasks g) (deps g) (mark_skipped ss phs) t"
proof
  assume "blocked (tasks g) (deps g) (mark_skipped ss phs) t"
  then show False
  proof (induction rule: blocked.induct)
    case (direct t d)
    have t: "map_of phs t = None" "\<not> blocked (tasks g) (deps g) phs t"
      using direct(2) skipped_set [OF assms] by (auto simp: map_of_mark_skipped split: if_splits)
    have "unsuccessful (map_of phs d) \<or> blocked (tasks g) (deps g) phs d"
      using direct(4) skipped_set [OF assms] by (auto simp: map_of_mark_skipped split: if_splits)
    then show False using t direct(1,3) blocked.intros by blast
  next
    case (inherited t d)
    then show False by simp
  qed
qed

lemma skipped_after_marking:
  assumes "valid g" and "skipped g phs = Inr ss"
  shows "skipped g (mark_skipped ss phs) = Inr []"
proof -
  obtain rs where "skipped g (mark_skipped ss phs) = Inr rs"
    and "set rs = Collect (blocked (tasks g) (deps g) (mark_skipped ss phs))"
    using skipped_law [OF assms(1)] by blast
  moreover have "blocked (tasks g) (deps g) (mark_skipped ss phs) = (\<lambda>_. False)"
    using blocked_after_marking [OF assms] by (intro ext) simp
  ultimately have "set rs = {}" by simp
  then show ?thesis using \<open>skipped g (mark_skipped ss phs) = Inr rs\<close> by simp
qed

lemma no_deadlock:
  assumes v: "valid g" and s: "skipped g phs = Inr []" and r: "ready g phs = Inr []"
    and final: "\<forall>t p. map_of phs t = Some p \<longrightarrow> terminal_phase p"
    and t: "t \<in> set (tasks g)"
  shows "map_of phs t \<noteq> None"
  using deps_wf [OF v] t
proof (induction t rule: wf_induct_rule)
  case (less t)
  show ?case
  proof
    assume n: "map_of phs t = None"
    have sch: "map_of phs d \<noteq> None" if "d \<in> set (deps g t)" for d
      using less that deps_closed [OF v less.prems] by auto
    have ok: "\<not> unsuccessful (map_of phs d)" if "d \<in> set (deps g t)" for d
      using skipped_set [OF v s] blocked.direct [where deps = "deps g", OF less.prems n that] by auto
    have "map_of phs d = Some Succeeded" if d: "d \<in> set (deps g t)" for d
    proof -
      from d obtain p where p: "map_of phs d = Some p" using sch by blast
      then have "terminal_phase p" and "\<not> unsuccessful (Some p)" using final ok [OF d] by auto
      then show ?thesis using p by (cases p) (auto simp: terminal_phase_def)
    qed
    then have "task_ready (deps g) phs t" using n by (auto simp: task_ready_def list_all_iff)
    moreover have "filter (task_ready (deps g) phs) (tasks g) = []"
      using ready_law [OF v, of phs] r by simp
    ultimately show False using less.prems by (auto simp: filter_empty_conv)
  qed
qed

end

definition valid_graph :: "workflow_graph \<Rightarrow> bool" where
  "valid_graph g \<longleftrightarrow> wf_graph g \<and> acyclic (dep_rel g)"

interpretation wfg: task_scheduler task_names deps_of valid_graph find_ready_tasks find_skipped_tasks
proof unfold_locales
  fix g :: workflow_graph and phs :: phases and t :: string
  assume v: "valid_graph g"
  then have wf: "wf_graph g" and ac: "acyclic (dep_rel g)" by (auto simp: valid_graph_def)
  show "find_ready_tasks g phs = Inr (filter (task_ready (deps_of g) phs) (task_names g))"
    by (rule find_ready_tasks_filter [OF wf])
  show "\<exists>ss. find_skipped_tasks g phs = Inr ss \<and> distinct ss \<and>
      set ss = Collect (blocked (task_names g) (deps_of g) phs)"
    using find_skipped_tasks_filter [OF wf ac, of phs] blocked_unscheduled by auto
  show "set (deps_of g t) \<subseteq> set (task_names g)" if "t \<in> set (task_names g)"
    using wf_graph_deps [OF wf that] by auto
  show "wf {(d, t). t \<in> set (task_names g) \<and> d \<in> set (deps_of g t)}"
    using finite_acyclic_wf [OF finite_dep_rel ac] by (simp add: dep_rel_def)
qed

lemma built_graph_valid: "build_workflow_graph tasks = Inr g \<Longrightarrow> valid_graph g"
proof -
  assume "build_workflow_graph tasks = Inr g"
  then have v: "valid_tasks tasks" and g: "g = graph_of tasks" by (auto simp: build_workflow_graph_iff)
  have "wf_graph (graph_of tasks)" using v by (intro wf_graph_of) (auto simp: valid_tasks_def valid_task_def)
  then show "valid_graph g" using v g dep_rel_graph_of [of tasks] by (simp add: valid_graph_def valid_tasks_def)
qed


subsection \<open>Properties\<close>

text \<open>A diamond-free example: \<open>build\<close> feeds \<open>test\<close>, \<open>test\<close> feeds \<open>ship\<close>.\<close>

definition mk_task :: "string \<Rightarrow> string list \<Rightarrow> string list \<Rightarrow> workflow_task" where
  "mk_task n ds ss = \<lparr>task_name = n, depends_on = Some ds, agent_ref_name = ''agent'',
     input_prompt = ''work'', input_from = Some ss, timeout_seconds = None\<rparr>"

definition example_tasks :: "workflow_task list" where
  "example_tasks = [mk_task ''ship'' [''test''] [''test''], mk_task ''build'' [] [],
     mk_task ''test'' [''build''] []]"

definition example_graph :: workflow_graph where
  "example_graph = \<lparr>task_names = [''ship'', ''build'', ''test''],
     dependencies = [(''ship'', [''test'']), (''build'', []), (''test'', [''build''])]\<rparr>"

lemma example_built: "build_workflow_graph example_tasks = Inr example_graph"
  by code_simp

text \<open>
  C1: On a graph whose entries are consistent, \<open>topological_order\<close> returns every task exactly
  once with each dependency before its dependents when the dependency relation is acyclic,
  and raises the cycle error exactly when it is not; it never loops and never fails otherwise.
\<close>

theorem topological_order_correct:
  assumes "wf_graph g"
  shows "case topological_order g of
      Inr ord \<Rightarrow> acyclic (dep_rel g) \<and> distinct ord \<and> set ord = set (task_names g) \<and> topo_sorted g ord
    | Inl e \<Rightarrow> e = DependencyCycle \<and> \<not> acyclic (dep_rel g)"
  using topological_order_cases [OF assms] by (auto split: if_splits)

theorem topological_order_correct_witness:
  "topological_order example_graph = Inr [''build'', ''test'', ''ship''] \<and>
   topo_sorted example_graph [''build'', ''test'', ''ship'']"
proof -
  have "wf_graph example_graph" by (simp add: wf_graph_def example_graph_def deps_of_def)
  moreover have "topological_order example_graph = Inr [''build'', ''test'', ''ship'']" by code_simp
  ultimately show ?thesis using topological_order_correct [of example_graph] by simp
qed

text \<open>
  C26: \<open>build_workflow_graph\<close> accepts exactly the task lists that are not empty, have distinct
  names, whose dependencies are distinct, known and not reflexive, whose result sources are
  distinct and also dependencies, and whose dependencies are acyclic; the graph it returns
  holds the names and dependencies as declared.
\<close>

theorem build_workflow_graph_accepts:
  "build_workflow_graph tasks = Inr g \<longleftrightarrow> valid_tasks tasks \<and> g = graph_of tasks"
  by (rule build_workflow_graph_iff)

text \<open>
  C2: On every graph that \<open>build_workflow_graph\<close> returns and for every phase assignment,
  \<open>find_skipped_tasks\<close> returns exactly the blocked tasks (unscheduled, with an unsuccessful or
  blocked dependency), in topological order.
\<close>

theorem find_skipped_tasks_exact:
  assumes "build_workflow_graph tasks = Inr g"
  shows "\<exists>ord. topological_order g = Inr ord \<and>
    find_skipped_tasks g phs = Inr (filter (blocked (task_names g) (deps_of g) phs) ord)"
proof -
  have "wf_graph g" and "acyclic (dep_rel g)"
    using built_graph_valid [OF assms] by (auto simp: valid_graph_def)
  from find_skipped_tasks_filter [OF this, of phs] show ?thesis by blast
qed

theorem find_skipped_tasks_exact_witness:
  "blocked (task_names example_graph) (deps_of example_graph) [(''build'', Failed)] ''ship''"
proof -
  have "find_skipped_tasks example_graph [(''build'', Failed)] = Inr [''test'', ''ship'']" by code_simp
  then obtain ord where "filter (blocked (task_names example_graph) (deps_of example_graph)
      [(''build'', Failed)]) ord = [''test'', ''ship'']"
    using find_skipped_tasks_exact [OF example_built, of "[(''build'', Failed)]"] by auto
  then have "''ship'' \<in> set (filter (blocked (task_names example_graph) (deps_of example_graph)
      [(''build'', Failed)]) ord)"
    by simp
  then show ?thesis by simp
qed

text \<open>
  Skipping converges in one pass: once the skipped tasks are recorded as \<open>Skipped\<close>, a
  second query finds nothing more to skip.
\<close>

theorem skip_converges_in_one_pass:
  assumes "build_workflow_graph tasks = Inr g" and "find_skipped_tasks g phs = Inr ss"
  shows "find_skipped_tasks g (mark_skipped ss phs) = Inr []"
  using wfg.skipped_after_marking [OF built_graph_valid] assms by blast

theorem skip_converges_in_one_pass_witness:
  "find_skipped_tasks example_graph (mark_skipped [''test'', ''ship''] [(''build'', Failed)]) = Inr []"
proof -
  have "find_skipped_tasks example_graph [(''build'', Failed)] = Inr [''test'', ''ship'']" by code_simp
  then show ?thesis by (rule skip_converges_in_one_pass [OF example_built])
qed

text \<open>
  C30: the scheduler never deadlocks: when every scheduled task has reached a terminal phase and
  there is nothing to skip and nothing ready, every task of the workflow is scheduled.
\<close>

theorem scheduler_never_deadlocks:
  assumes "build_workflow_graph tasks = Inr g"
    and "\<forall>t p. map_of phs t = Some p \<longrightarrow> terminal_phase p"
    and "find_skipped_tasks g phs = Inr []" and "find_ready_tasks g phs = Inr []"
  shows "set (task_names g) \<subseteq> dom (map_of phs)"
  using wfg.no_deadlock [OF built_graph_valid [OF assms(1)] assms(3,4,2)] by blast

theorem scheduler_never_deadlocks_witness:
  "set (task_names example_graph) \<subseteq>
     dom (map_of [(''build'', Succeeded), (''test'', TimedOut), (''ship'', Skipped)])"
proof (rule scheduler_never_deadlocks [OF example_built])
  let ?phs = "[(''build'', Succeeded), (''test'', TimedOut), (''ship'', Skipped)]"
  show "\<forall>t p. map_of ?phs t = Some p \<longrightarrow> terminal_phase p"
    by (simp add: terminal_phase_def)
  show "find_skipped_tasks example_graph ?phs = Inr []" by code_simp
  show "find_ready_tasks example_graph ?phs = Inr []" by code_simp
qed

end
