(* ===== verification/Workflow_Controller.thy ===== *)
theory Workflow_Controller
  imports Workflow_Graph
begin

text \<open>
  The Workflow controller: \<open>operator/src/agent_operator/workflow_controller.py\<close> and the Task
  builder of \<open>resources.py\<close>.

  A reconciliation reads the Tasks of the Workflow, marks blocked nodes as skipped, creates a
  Task for every ready node whose upstream results exist, and writes the aggregated status.
  The Kubernetes API and the owner adoption of the operator framework are the record
  \<open>kube\<close> of functions over an arbitrary world \<open>'w\<close>; a call that raises is the value
  \<open>FailedReply\<close>, \<open>None\<close> or \<open>False\<close> in the reply. An operation returns the world together with its result, so that
  effects made before an exception are kept.

  The lemmas show which Tasks a reconciliation creates and with which prompt, the aggregated
  phase it writes, and what its status patch does.
\<close>

subsection \<open>Data\<close>

definition phase_text :: "phase \<Rightarrow> string" where
  "phase_text p = (case p of Pending \<Rightarrow> ''Pending'' | Running \<Rightarrow> ''Running''
     | Succeeded \<Rightarrow> ''Succeeded'' | Failed \<Rightarrow> ''Failed'' | TimedOut \<Rightarrow> ''TimedOut''
     | Skipped \<Rightarrow> ''Skipped'')"

record task_resource =
  res_api_version :: string
  res_kind :: string
  res_name :: string
  res_namespace :: string
  res_labels :: "(string, string) dict"
  res_agent :: string
  res_prompt :: string
  res_timeout :: "int option"

record task_item =
  item_labels :: "(string, string) dict"
  item_phase :: "phase option"
  item_result :: "string option"

record task_state =
  st_phase :: phase
  st_result :: "string option"

record node_status =
  ns_phase :: "phase option"
  ns_task_ref :: "string option"
  ns_reason :: "string option"
  ns_message :: "string option"

record workflow_status =
  ws_phase :: "phase option"
  ws_task_count :: "int option"
  ws_tasks :: "(string, node_status) dict"

record status_patch =
  sp_phase :: phase
  sp_task_count :: int
  sp_tasks :: "(string, node_status option) dict"

datatype create_reply = CreatedReply | ConflictReply | FailedReply

datatype controller_error =
    GraphFailure graph_error
  | ApiFailure
  | KeyFailure string

record 'w kube =
  list_tasks :: "'w \<Rightarrow> string \<Rightarrow> string \<Rightarrow> task_item list option"
  create_object :: "'w \<Rightarrow> task_resource \<Rightarrow> 'w \<times> create_reply"
  patch_status :: "'w \<Rightarrow> string \<Rightarrow> string \<Rightarrow> status_patch \<Rightarrow> 'w \<times> bool"
  adopt :: "task_resource \<Rightarrow> task_resource"

subsection \<open>Task resources\<close>

definition workflow_label :: string where
  "workflow_label = ''agentos.io/workflow''"

definition workflow_task_label :: string where
  "workflow_task_label = ''agentos.io/workflow-task''"

definition build_workflow_task :: "string \<Rightarrow> string \<Rightarrow> workflow_task \<Rightarrow> task_resource" where
  "build_workflow_task workflow_name namespace t =
     \<lparr>res_api_version = ''agentos.io/v1alpha1'', res_kind = ''Task'',
      res_name = workflow_name @ ''-'' @ task_name t, res_namespace = namespace,
      res_labels = [(''app.kubernetes.io/managed-by'', ''agent-operator''),
        (workflow_label, workflow_name), (workflow_task_label, task_name t)],
      res_agent = agent_ref_name t, res_prompt = input_prompt t, res_timeout = timeout_seconds t\<rparr>"

definition ensure_workflow_task ::
  "'w kube \<Rightarrow> 'w \<Rightarrow> string \<Rightarrow> string \<Rightarrow> workflow_task
   \<Rightarrow> 'w \<times> (controller_error, bool) result" where
  "ensure_workflow_task k w workflow_name namespace t =
     (case create_object k w (adopt k (build_workflow_task workflow_name namespace t)) of
        (w', CreatedReply) \<Rightarrow> (w', Inr True)
      | (w', ConflictReply) \<Rightarrow> (w', Inr False)
      | (w', FailedReply) \<Rightarrow> (w', Inl ApiFailure))"

fun prompt_sections ::
  "string list \<Rightarrow> (string, string) dict \<Rightarrow> (controller_error, string list) result" where
  "prompt_sections [] results = Inr []"
| "prompt_sections (s # ss) results =
     (case map_of results s of
        None \<Rightarrow> Inl (KeyFailure s)
      | Some r \<Rightarrow> rbind (prompt_sections ss results)
          (\<lambda>rest. Inr ([[], ''['' @ s @ '']'', r] @ rest)))"

definition resolve_task_prompt ::
  "workflow_task \<Rightarrow> (string, string) dict \<Rightarrow> (controller_error, string) result" where
  "resolve_task_prompt t results =
     (if task_sources t = [] then Inr (input_prompt t)
      else rbind (prompt_sections (task_sources t) results)
        (\<lambda>rest. Inr (py_join [CHR 0x0A] ([input_prompt t, [], ''Previous task results:''] @ rest))))"

subsection \<open>Status\<close>

fun task_states_loop :: "task_item list \<Rightarrow> (string, task_state) dict \<Rightarrow> (string, task_state) dict" where
  "task_states_loop [] states = states"
| "task_states_loop (i # is) states =
     (case map_of (item_labels i) workflow_task_label of
        None \<Rightarrow> task_states_loop is states
      | Some n \<Rightarrow>
          if n = [] then task_states_loop is states
          else task_states_loop is (AList.update n
            \<lparr>st_phase = (case item_phase i of None \<Rightarrow> Pending | Some p \<Rightarrow> p),
             st_result = item_result i\<rparr> states))"

definition list_workflow_task_states ::
  "'w kube \<Rightarrow> 'w \<Rightarrow> string \<Rightarrow> string \<Rightarrow> (controller_error, (string, task_state) dict) result" where
  "list_workflow_task_states k w workflow_name namespace =
     (case list_tasks k w workflow_name namespace of
        None \<Rightarrow> Inl ApiFailure
      | Some items \<Rightarrow> Inr (task_states_loop items []))"

definition list_workflow_task_phases ::
  "'w kube \<Rightarrow> 'w \<Rightarrow> string \<Rightarrow> string \<Rightarrow> (controller_error, phases) result" where
  "list_workflow_task_phases k w workflow_name namespace =
     rbind (list_workflow_task_states k w workflow_name namespace)
       (\<lambda>states. Inr (map (\<lambda>(n, s). (n, st_phase s)) states))"

definition blocker_list :: "string list \<Rightarrow> phases \<Rightarrow> (string \<times> phase option) list" where
  "blocker_list ds phs = map (\<lambda>d. (d, map_of phs d)) (filter (\<lambda>d. unsuccessful (map_of phs d)) ds)"

definition build_skipped_task_status :: "string \<Rightarrow> string list \<Rightarrow> phases \<Rightarrow> node_status" where
  "build_skipped_task_status name ds phs =
     (let blockers = blocker_list ds phs;
          direct = list_ex (\<lambda>b. snd b = Some Failed \<or> snd b = Some TimedOut) blockers;
          blocker_text = py_join '', '' (map (\<lambda>(d, p).
            d @ '' ('' @ (case p of None \<Rightarrow> ''None'' | Some q \<Rightarrow> phase_text q) @ '')'') blockers)
      in \<lparr>ns_phase = Some Skipped, ns_task_ref = None,
          ns_reason = Some (if direct then ''DependencyFailed'' else ''DependencySkipped''),
          ns_message = Some (''Task '' @ py_repr name @
            '' skipped because required dependencies cannot succeed: '' @ blocker_text)\<rparr>)"

fun build_workflow_task_statuses ::
  "string \<Rightarrow> string list \<Rightarrow> (string, task_state) dict \<Rightarrow> (string, node_status) dict
   \<Rightarrow> (string, node_status) dict \<Rightarrow> (string, node_status) dict" where
  "build_workflow_task_statuses wname [] states existing acc = acc"
| "build_workflow_task_statuses wname (t # ts) states existing acc =
     build_workflow_task_statuses wname ts states existing (AList.update t
       (case map_of states t of
          Some s \<Rightarrow> \<lparr>ns_phase = Some (st_phase s), ns_task_ref = Some (wname @ ''-'' @ t),
             ns_reason = None, ns_message = None\<rparr>
        | None \<Rightarrow> (case map_of existing t of
             Some e \<Rightarrow> if ns_phase e = Some Skipped then e
               else \<lparr>ns_phase = Some Pending, ns_task_ref = None, ns_reason = None, ns_message = None\<rparr>
           | None \<Rightarrow> \<lparr>ns_phase = Some Pending, ns_task_ref = None, ns_reason = None, ns_message = None\<rparr>)) acc)"

definition WORKFLOW_TERMINAL_TASK_PHASES :: "phase list" where
  "WORKFLOW_TERMINAL_TASK_PHASES = [Succeeded, Failed, TimedOut, Skipped]"

definition aggregate_workflow_phase :: "string list \<Rightarrow> phases \<Rightarrow> phase" where
  "aggregate_workflow_phase names phs =
     (let ps = map (\<lambda>n. dict_get phs n Pending) names in
      if ps \<noteq> [] \<and> list_all (\<lambda>p. p = Succeeded) ps then Succeeded
      else if ps \<noteq> [] \<and> list_all (\<lambda>p. p \<in> set WORKFLOW_TERMINAL_TASK_PHASES) ps then Failed
      else Running)"

text \<open>Equality of Python dictionaries ignores the order of insertion.\<close>

definition dict_eq :: "('k, 'v) dict \<Rightarrow> ('k, 'v) dict \<Rightarrow> bool" where
  "dict_eq a b = list_all (\<lambda>k. map_of a k = map_of b k) (dict_keys a @ dict_keys b)"

definition patch_workflow_task_statuses ::
  "workflow_status \<Rightarrow> (string, node_status) dict \<Rightarrow> (string, node_status) dict option" where
  "patch_workflow_task_statuses current statuses =
     (let changed = filter (\<lambda>(n, s). map_of (ws_tasks current) n \<noteq> Some s) statuses in
      if changed = [] then None else Some changed)"

definition patch_workflow_status ::
  "workflow_status \<Rightarrow> phase \<Rightarrow> int \<Rightarrow> (string, node_status) dict \<Rightarrow> status_patch option" where
  "patch_workflow_status current phase count statuses =
     (if ws_phase current = Some phase \<and> ws_task_count current = Some count \<and>
         dict_eq (ws_tasks current) statuses then None
      else Some \<lparr>sp_phase = phase, sp_task_count = count,
        sp_tasks = map (\<lambda>(n, s). (n, Some s)) statuses @
          map (\<lambda>n. (n, None)) (filter (\<lambda>n. n \<notin> set (dict_keys statuses))
            (dict_keys (ws_tasks current)))\<rparr>)"

subsection \<open>Reconciliation\<close>

fun add_recorded_skips :: "(string, node_status) dict \<Rightarrow> phases \<Rightarrow> phases" where
  "add_recorded_skips [] phs = phs"
| "add_recorded_skips ((n, s) # ss) phs =
     (if map_of phs n \<noteq> None then add_recorded_skips ss phs
      else if ns_phase s = Some Skipped then add_recorded_skips ss (AList.update n Skipped phs)
      else add_recorded_skips ss phs)"

fun record_skips ::
  "workflow_graph \<Rightarrow> string list \<Rightarrow> phases \<Rightarrow> (string, node_status) dict
   \<Rightarrow> (controller_error, phases \<times> (string, node_status) dict) result" where
  "record_skips g [] phs statuses = Inr (phs, statuses)"
| "record_skips g (t # ts) phs statuses =
     (case map_of (dependencies g) t of
        None \<Rightarrow> Inl (KeyFailure t)
      | Some ds \<Rightarrow> record_skips g ts (AList.update t Skipped phs)
          (AList.update t (build_skipped_task_status t ds phs) statuses))"

fun gather_results ::
  "(string, task_state) dict \<Rightarrow> string list \<Rightarrow> (string, string) dict \<Rightarrow> (string, string) dict option" where
  "gather_results states [] acc = Some acc"
| "gather_results states (s # ss) acc =
     (case map_of states s of
        None \<Rightarrow> None
      | Some st \<Rightarrow> (case st_result st of
          None \<Rightarrow> None
        | Some r \<Rightarrow> gather_results states ss (AList.update s r acc)))"

fun create_ready ::
  "'w kube \<Rightarrow> string \<Rightarrow> string \<Rightarrow> (string, workflow_task) dict \<Rightarrow> (string, task_state) dict
   \<Rightarrow> string list \<Rightarrow> 'w \<Rightarrow> int \<Rightarrow> 'w \<times> (controller_error, int) result" where
  "create_ready k wname ns by_name states [] w created = (w, Inr created)"
| "create_ready k wname ns by_name states (t # ts) w created =
     (case map_of by_name t of
        None \<Rightarrow> (w, Inl (KeyFailure t))
      | Some spec \<Rightarrow>
          (case gather_results states (task_sources spec) [] of
             None \<Rightarrow> create_ready k wname ns by_name states ts w created
           | Some results \<Rightarrow>
               (case resolve_task_prompt spec results of
                  Inl e \<Rightarrow> (w, Inl e)
                | Inr p \<Rightarrow>
                    (case ensure_workflow_task k w wname ns
                        (spec\<lparr>input_prompt := p, input_from := None\<rparr>) of
                       (w', Inl e) \<Rightarrow> (w', Inl e)
                     | (w', Inr made) \<Rightarrow> create_ready k wname ns by_name states ts w'
                         (if made then created + 1 else created)))))"

definition node_phases :: "(string, node_status) dict \<Rightarrow> phases" where
  "node_phases statuses = map (\<lambda>(n, s). (n, the (ns_phase s))) statuses"

definition effective_statuses ::
  "string \<Rightarrow> workflow_graph \<Rightarrow> (string, task_state) dict \<Rightarrow> (string, node_status) dict
   \<Rightarrow> (string, node_status) dict \<Rightarrow> (string, node_status) dict" where
  "effective_statuses name g states existing skips =
     foldl (\<lambda>acc (n, s). AList.update n s acc)
       (build_workflow_task_statuses name (task_names g) states existing []) skips"

definition reconcile_workflow ::
  "'w kube \<Rightarrow> 'w \<Rightarrow> workflow_task list \<Rightarrow> string \<Rightarrow> string \<Rightarrow> workflow_status
   \<Rightarrow> 'w \<times> (controller_error, int) result" where
  "reconcile_workflow k w tasks name namespace status =
     (case build_workflow_graph tasks of
        Inl e \<Rightarrow> (w, Inl (GraphFailure e))
      | Inr g \<Rightarrow>
     (case list_workflow_task_states k w name namespace of
        Inl e \<Rightarrow> (w, Inl e)
      | Inr states \<Rightarrow>
     (let by_name = map (\<lambda>t. (task_name t, t)) tasks;
          phs = add_recorded_skips (ws_tasks status) (map (\<lambda>(n, s). (n, st_phase s)) states) in
      case find_skipped_tasks g phs of
        Inl e \<Rightarrow> (w, Inl (GraphFailure e))
      | Inr skipped \<Rightarrow>
     (case record_skips g skipped phs [] of
        Inl e \<Rightarrow> (w, Inl e)
      | Inr (phs', skips) \<Rightarrow>
     (case find_ready_tasks g phs' of
        Inl e \<Rightarrow> (w, Inl (GraphFailure e))
      | Inr ready \<Rightarrow>
     (case create_ready k name namespace by_name states ready w 0 of
        (w', Inl e) \<Rightarrow> (w', Inl e)
      | (w', Inr created) \<Rightarrow>
          (let eff = effective_statuses name g states (ws_tasks status) skips;
               ph = aggregate_workflow_phase (task_names g) (node_phases eff) in
           case patch_workflow_status status ph (int (length tasks)) eff of
             None \<Rightarrow> (w', Inr created)
           | Some p \<Rightarrow> (case patch_status k w' name namespace p of
               (w'', True) \<Rightarrow> (w'', Inr created)
             | (w'', False) \<Rightarrow> (w'', Inl ApiFailure)))))))))"

text \<open>
  The handlers. \<open>create_workflow\<close> turns a validation error into a failed status and a
  permanent error; a missing dictionary key is not a validation error and is not caught.
\<close>

datatype handler_outcome =
    HandlerReturned int
  | HandlerPermanentError graph_error
  | HandlerRaised controller_error

definition validation_error :: "graph_error \<Rightarrow> bool" where
  "validation_error e = (case e of MissingKey _ \<Rightarrow> False | _ \<Rightarrow> True)"

definition create_workflow ::
  "'w kube \<Rightarrow> 'w \<Rightarrow> workflow_task list \<Rightarrow> string \<Rightarrow> string \<Rightarrow> workflow_status
   \<Rightarrow> 'w \<times> phase option \<times> handler_outcome" where
  "create_workflow k w tasks name namespace status =
     (case reconcile_workflow k w tasks name namespace status of
        (w', Inr n) \<Rightarrow> (w', None, HandlerReturned n)
      | (w', Inl (GraphFailure e)) \<Rightarrow>
          if validation_error e then (w', Some Failed, HandlerPermanentError e)
          else (w', None, HandlerRaised (GraphFailure e))
      | (w', Inl e) \<Rightarrow> (w', None, HandlerRaised e))"

definition reconcile_workflow_for_task ::
  "'w kube \<Rightarrow> ('w \<Rightarrow> string \<Rightarrow> string \<Rightarrow> (workflow_task list \<times> workflow_status) option)
   \<Rightarrow> 'w \<Rightarrow> (string, string) dict \<Rightarrow> string \<Rightarrow> phase option
   \<Rightarrow> 'w \<times> (controller_error, int option) result" where
  "reconcile_workflow_for_task k get_workflow w labels namespace new_phase =
     (if new_phase \<notin> {Some Succeeded, Some Failed, Some TimedOut} then (w, Inr None)
      else case map_of labels workflow_label of
        None \<Rightarrow> (w, Inr None)
      | Some name \<Rightarrow>
          if name = [] then (w, Inr None)
          else (case get_workflow w name namespace of
             None \<Rightarrow> (w, Inl ApiFailure)
           | Some (tasks, status) \<Rightarrow>
               (case reconcile_workflow k w tasks name namespace status of
                  (w', Inl e) \<Rightarrow> (w', Inl e)
                | (w', Inr n) \<Rightarrow> (w', Inr (Some n)))))"


subsection \<open>Specification of a reconciliation\<close>

definition result_of :: "(string, task_state) dict \<Rightarrow> string \<Rightarrow> string option" where
  "result_of states s = (case map_of states s of None \<Rightarrow> None | Some st \<Rightarrow> st_result st)"

definition recorded_skip :: "(string, node_status) dict \<Rightarrow> string \<Rightarrow> bool" where
  "recorded_skip recorded t =
     (case map_of recorded t of None \<Rightarrow> False | Some s \<Rightarrow> ns_phase s = Some Skipped)"

text \<open>The declared tasks a reconciliation launches, in terms of the listed Tasks only.\<close>

definition launchable ::
  "(string, task_state) dict \<Rightarrow> (string, node_status) dict \<Rightarrow> workflow_task \<Rightarrow> bool" where
  "launchable states recorded t \<longleftrightarrow>
     map_of states (task_name t) = None \<and> \<not> recorded_skip recorded (task_name t) \<and>
     list_all (\<lambda>d. map_option st_phase (map_of states d) = Some Succeeded) (task_depends_on t) \<and>
     list_all (\<lambda>s. result_of states s \<noteq> None) (task_sources t)"

definition prompt_with :: "(string \<Rightarrow> string) \<Rightarrow> workflow_task \<Rightarrow> string" where
  "prompt_with f t =
     (if task_sources t = [] then input_prompt t
      else py_join [CHR 0x0A] ([input_prompt t, [], ''Previous task results:''] @
        concat (map (\<lambda>s. [[], ''['' @ s @ '']'', f s]) (task_sources t))))"

definition resolved_prompt :: "(string, task_state) dict \<Rightarrow> workflow_task \<Rightarrow> string" where
  "resolved_prompt states = prompt_with (\<lambda>s. the (result_of states s))"

definition launched_task :: "string \<Rightarrow> string \<Rightarrow> (string, task_state) dict \<Rightarrow> workflow_task \<Rightarrow> task_resource" where
  "launched_task name namespace states t =
     build_workflow_task name namespace (t\<lparr>input_prompt := resolved_prompt states t\<rparr>)"

fun create_all ::
  "'w kube \<Rightarrow> task_resource list \<Rightarrow> 'w \<Rightarrow> int \<Rightarrow> 'w \<times> (controller_error, int) result" where
  "create_all k [] w created = (w, Inr created)"
| "create_all k (r # rs) w created =
     (case create_object k w (adopt k r) of
        (w', CreatedReply) \<Rightarrow> create_all k rs w' (created + 1)
      | (w', ConflictReply) \<Rightarrow> create_all k rs w' created
      | (w', FailedReply) \<Rightarrow> (w', Inl ApiFailure))"

definition publish ::
  "'w kube \<Rightarrow> 'w \<Rightarrow> string \<Rightarrow> string \<Rightarrow> status_patch option \<Rightarrow> int
   \<Rightarrow> 'w \<times> (controller_error, int) result" where
  "publish k w name namespace p created =
     (case p of
        None \<Rightarrow> (w, Inr created)
      | Some q \<Rightarrow> (case patch_status k w name namespace q of
          (w', ok) \<Rightarrow> (w', if ok then Inr created else Inl ApiFailure)))"

definition listed_phases :: "(string, task_state) dict \<Rightarrow> (string, node_status) dict \<Rightarrow> phases" where
  "listed_phases states recorded =
     add_recorded_skips recorded (map (\<lambda>(n, s). (n, st_phase s)) states)"

definition effective_phase ::
  "workflow_graph \<Rightarrow> (string, task_state) dict \<Rightarrow> (string, node_status) dict \<Rightarrow> string \<Rightarrow> phase" where
  "effective_phase g states recorded t =
     (case map_of states t of
        Some s \<Rightarrow> st_phase s
      | None \<Rightarrow> if recorded_skip recorded t \<or>
            blocked (task_names g) (deps_of g) (listed_phases states recorded) t
          then Skipped else Pending)"

subsection \<open>Results and prompts\<close>

lemma map_of_map_snd: "map_of (map (\<lambda>(n, s). (n, f s)) d) k = map_option f (map_of d k)"
  by (induction d) auto

lemma gather_results_iff:
  "gather_results states ss acc = Some r \<longleftrightarrow>
     (\<forall>s \<in> set ss. result_of states s \<noteq> None) \<and>
     r = foldl (\<lambda>m s. AList.update s (the (result_of states s)) m) acc ss"
  by (induction ss arbitrary: acc) (auto simp: result_of_def split: option.splits)

lemma gather_results_None_iff:
  "gather_results states ss acc = None \<longleftrightarrow> (\<exists>s \<in> set ss. result_of states s = None)"
  by (induction ss arbitrary: acc) (auto simp: result_of_def split: option.splits)

lemma map_of_update_all:
  "map_of (foldl (\<lambda>m s. AList.update s (f s) m) acc ss) k
     = (if k \<in> set ss then Some (f k) else map_of acc k)"
  by (induction ss arbitrary: acc) auto

lemma prompt_sections_total:
  "\<forall>s \<in> set ss. map_of results s = Some (f s) \<Longrightarrow>
   prompt_sections ss results = Inr (concat (map (\<lambda>s. [[], ''['' @ s @ '']'', f s]) ss))"
  by (induction ss) auto

lemma resolve_task_prompt_gathered:
  assumes "gather_results states (task_sources t) [] = Some r"
  shows "resolve_task_prompt t r = Inr (resolved_prompt states t)"
proof -
  have "\<forall>s \<in> set (task_sources t). map_of r s = Some (the (result_of states s))"
    using assms by (auto simp: gather_results_iff map_of_update_all)
  from prompt_sections_total [OF this] show ?thesis
    by (simp add: resolve_task_prompt_def resolved_prompt_def prompt_with_def)
qed

lemma build_ignores_sources [simp]:
  "build_workflow_task n ns (t\<lparr>input_prompt := p, input_from := f\<rparr>)
     = build_workflow_task n ns (t\<lparr>input_prompt := p\<rparr>)"
  by (simp add: build_workflow_task_def)

lemma create_ready_spec:
  assumes "\<forall>t \<in> set ts. map_of by_name (task_name t) = Some t"
  shows "create_ready k n ns by_name states (map task_name ts) w c
    = create_all k (map (launched_task n ns states)
        (filter (\<lambda>t. list_all (\<lambda>s. result_of states s \<noteq> None) (task_sources t)) ts)) w c"
  using assms
proof (induction ts arbitrary: w c)
  case (Cons t ts)
  have m: "map_of by_name (task_name t) = Some t" using Cons.prems by simp
  note IH = Cons.IH [OF ballI]
  show ?case
  proof (cases "gather_results states (task_sources t) []")
    case None
    then have "\<not> list_all (\<lambda>s. result_of states s \<noteq> None) (task_sources t)"
      by (auto simp: gather_results_None_iff list_all_iff)
    then show ?thesis using m None IH Cons.prems by simp
  next
    case (Some r)
    then have "list_all (\<lambda>s. result_of states s \<noteq> None) (task_sources t)"
      by (auto simp: gather_results_iff list_all_iff)
    then show ?thesis using m Some IH Cons.prems resolve_task_prompt_gathered [OF Some]
      by (auto simp: ensure_workflow_task_def launched_task_def split: prod.splits create_reply.splits)
  qed
qed simp

subsection \<open>Phases\<close>

lemma map_of_add_recorded_skips:
  "distinct (dict_keys recorded) \<Longrightarrow>
   map_of (add_recorded_skips recorded phs) t =
     (case map_of phs t of Some p \<Rightarrow> Some p
      | None \<Rightarrow> if recorded_skip recorded t then Some Skipped else None)"
proof (induction recorded phs rule: add_recorded_skips.induct)
  case (2 n s ss phs)
  then have "n \<notin> dom (map_of ss)" and d: "distinct (dict_keys ss)"
    by (auto simp flip: set_dict_keys)
  then have n: "map_of ss n = None" by (simp add: domIff)
  show ?case using 2 d n by (auto simp: recorded_skip_def split: option.splits if_splits)
qed (simp add: recorded_skip_def split: option.split)

lemma map_of_listed_phases:
  assumes "distinct (dict_keys recorded)"
  shows "map_of (listed_phases states recorded) t =
     (case map_of states t of Some s \<Rightarrow> Some (st_phase s)
      | None \<Rightarrow> if recorded_skip recorded t then Some Skipped else None)"
  using assms by (simp add: listed_phases_def map_of_add_recorded_skips map_of_map_snd split: option.split)

definition all_skipped :: "(string, node_status) dict \<Rightarrow> bool" where
  "all_skipped st \<longleftrightarrow> (\<forall>p \<in> set st. ns_phase (snd p) = Some Skipped)"

lemma all_skipped_update:
  "all_skipped st \<Longrightarrow> ns_phase s = Some Skipped \<Longrightarrow> all_skipped (AList.update t s st)"
  by (induction st) (auto simp: all_skipped_def)

lemma record_skips_spec:
  assumes "\<forall>t \<in> set ts. map_of (dependencies g) t \<noteq> None" and "all_skipped st"
  shows "\<exists>sk. record_skips g ts phs st = Inr (mark_skipped ts phs, sk) \<and>
     dom (map_of sk) = dom (map_of st) \<union> set ts \<and> all_skipped sk"
  using assms
proof (induction ts arbitrary: phs st)
  case Nil
  then show ?case by (simp add: mark_skipped_def)
next
  case (Cons t ts)
  then obtain ds where ds: "map_of (dependencies g) t = Some ds" by auto
  let ?s = "build_skipped_task_status t ds phs"
  have "all_skipped (AList.update t ?s st)"
    using Cons.prems(2) by (rule all_skipped_update) (simp add: build_skipped_task_status_def Let_def)
  from Cons.IH [OF _ this, of "AList.update t Skipped phs"] Cons.prems(1) obtain sk where
    "record_skips g ts (AList.update t Skipped phs) (AList.update t ?s st)
      = Inr (mark_skipped ts (AList.update t Skipped phs), sk)"
    "dom (map_of sk) = dom (map_of (AList.update t ?s st)) \<union> set ts" "all_skipped sk"
    by (auto simp del: map_of_dict_update)
  then show ?case using ds by (auto simp: mark_skipped_def)
qed

lemma dict_keys_update: "dict_keys (AList.update k v d) = (if k \<in> dom (map_of d) then dict_keys d else dict_keys d @ [k])"
  by (induction d) auto

definition projected_node ::
  "string \<Rightarrow> (string, task_state) dict \<Rightarrow> (string, node_status) dict \<Rightarrow> string \<Rightarrow> node_status" where
  "projected_node wname states existing t =
     (case map_of states t of
        Some s \<Rightarrow> \<lparr>ns_phase = Some (st_phase s), ns_task_ref = Some (wname @ ''-'' @ t),
           ns_reason = None, ns_message = None\<rparr>
      | None \<Rightarrow> if recorded_skip existing t then the (map_of existing t)
          else \<lparr>ns_phase = Some Pending, ns_task_ref = None, ns_reason = None, ns_message = None\<rparr>)"

lemma projected_node_step:
  "build_workflow_task_statuses wname (t # ts) states existing acc =
   build_workflow_task_statuses wname ts states existing
     (AList.update t (projected_node wname states existing t) acc)"
  by (simp add: projected_node_def recorded_skip_def split: option.split)

declare build_workflow_task_statuses.simps(2) [simp del]

lemma build_workflow_task_statuses_map:
  assumes "distinct ts" and "set ts \<inter> dom (map_of acc) = {}"
  shows "build_workflow_task_statuses wname ts states existing acc
    = acc @ map (\<lambda>t. (t, projected_node wname states existing t)) ts"
  using assms
proof (induction ts arbitrary: acc)
  case (Cons t ts)
  then have "AList.update t v acc = acc @ [(t, v)]" for v by (intro dict_update_new) auto
  then show ?case using Cons by (simp add: projected_node_step Cons.IH)
qed simp

lemma update_all_keys:
  "set (dict_keys ps) \<subseteq> set (dict_keys acc) \<Longrightarrow>
   dict_keys (foldl (\<lambda>m (n, s). AList.update n s m) acc ps) = dict_keys acc"
proof (induction ps arbitrary: acc)
  case (Cons p ps)
  obtain n s where p: "p = (n, s)" by (cases p)
  have "dict_keys (AList.update n s acc) = dict_keys acc"
    using Cons.prems p by (auto simp: dict_keys_update)
  then show ?case using Cons.IH [of "AList.update n s acc"] Cons.prems p
    by (auto simp del: set_dict_keys)
qed simp

lemma update_all_skipped:
  assumes "all_skipped ps"
  shows "map_option ns_phase (map_of (foldl (\<lambda>m (n, s). AList.update n s m) acc ps) t)
    = (if t \<in> fst ` set ps then Some (Some Skipped) else map_option ns_phase (map_of acc t))"
  using assms unfolding all_skipped_def by (induction ps arbitrary: acc) auto

lemma map_of_node_phases: "map_of (node_phases st) t = map_option (\<lambda>s. the (ns_phase s)) (map_of st t)"
  by (simp add: node_phases_def map_of_map_snd)

lemma dict_as_map:
  assumes "distinct (dict_keys d)" and "\<And>k. k \<in> set (dict_keys d) \<Longrightarrow> map_of d k = Some (f k)"
  shows "d = map (\<lambda>k. (k, f k)) (dict_keys d)"
  using assms
proof (induction d)
  case (Cons p d)
  have "fst p \<notin> set (dict_keys d)" using Cons.prems(1) by simp
  then have "map_of d k = Some (f k)" if "k \<in> set (dict_keys d)" for k
    using Cons.prems(2) [of k] that by (cases "k = fst p") (auto simp del: set_dict_keys)
  then have "d = map (\<lambda>k. (k, f k)) (dict_keys d)" using Cons by simp
  moreover have "snd p = f (fst p)" using Cons.prems(2) [of "fst p"] by simp
  ultimately show ?case by (metis dict_keys_simps(2) list.simps(9) prod.collapse)
qed simp

subsection \<open>The reconciliation meets its specification\<close>

lemma listed_succeeded:
  assumes "distinct (dict_keys recorded)"
  shows "map_of (listed_phases states recorded) d = Some Succeeded
    \<longleftrightarrow> map_option st_phase (map_of states d) = Some Succeeded"
  using assms by (auto simp: map_of_listed_phases split: option.splits)

lemma ready_after_skips:
  assumes v: "valid_graph g" and d: "distinct (dict_keys recorded)"
    and s: "set sk = Collect (blocked (task_names g) (deps_of g) (listed_phases states recorded))"
  shows "task_ready (deps_of g) (mark_skipped sk (listed_phases states recorded)) t
    \<longleftrightarrow> map_of states t = None \<and> \<not> recorded_skip recorded t \<and>
        list_all (\<lambda>d. map_option st_phase (map_of states d) = Some Succeeded) (deps_of g t)"
proof -
  let ?phs = "listed_phases states recorded"
  have un: "map_of ?phs u = None" if "u \<in> set sk" for u
    using that s blocked_unscheduled by auto
  have mk: "map_of (mark_skipped sk ?phs) u = Some Succeeded \<longleftrightarrow> map_of ?phs u = Some Succeeded" for u
    using un [of u] by (auto simp: map_of_mark_skipped)
  have nb: "t \<notin> set sk" if "list_all (\<lambda>d. map_of ?phs d = Some Succeeded) (deps_of g t)"
  proof
    assume "t \<in> set sk"
    then have "blocked (task_names g) (deps_of g) ?phs t" using s by auto
    then obtain d where d: "d \<in> set (deps_of g t)"
      and u: "unsuccessful (map_of ?phs d) \<or> blocked (task_names g) (deps_of g) ?phs d"
      by (auto elim: blockedE)
    have "map_of ?phs d = Some Succeeded" using that d by (auto simp: list_all_iff)
    then show False using u blocked_unscheduled by fastforce
  qed
  have "task_ready (deps_of g) (mark_skipped sk ?phs) t \<longleftrightarrow>
      map_of ?phs t = None \<and> list_all (\<lambda>d. map_of ?phs d = Some Succeeded) (deps_of g t)"
    unfolding task_ready_def mk using nb by (auto simp: map_of_mark_skipped)
  also have "map_of ?phs t = None \<longleftrightarrow> map_of states t = None \<and> \<not> recorded_skip recorded t"
    using d by (auto simp: map_of_listed_phases split: option.splits if_splits)
  finally show ?thesis unfolding listed_succeeded [OF d] by simp
qed

lemma effective_statuses_phases:
  assumes v: "valid_graph g" and a: "all_skipped sk"
    and s: "dom (map_of sk) = Collect (blocked (task_names g) (deps_of g) (listed_phases states recorded))"
    and d: "distinct (dict_keys recorded)"
  shows "node_phases (effective_statuses name g states recorded sk)
    = map (\<lambda>t. (t, effective_phase g states recorded t)) (task_names g)"
proof -
  let ?base = "build_workflow_task_statuses name (task_names g) states recorded []"
  let ?eff = "effective_statuses name g states recorded sk"
  have dist: "distinct (task_names g)" using v by (simp add: valid_graph_def wf_graph_def)
  have base: "?base = map (\<lambda>t. (t, projected_node name states recorded t)) (task_names g)"
    using build_workflow_task_statuses_map [OF dist, of "[]"] by simp
  have keys: "dict_keys ?base = task_names g" by (simp add: base dict_keys_def comp_def)
  have "set (dict_keys sk) \<subseteq> set (task_names g)" using s blocked_unscheduled by auto
  then have ek: "dict_keys ?eff = task_names g"
    unfolding effective_statuses_def using keys by (simp add: update_all_keys del: set_dict_keys)
  have nk: "dict_keys (node_phases ?eff) = task_names g"
    using ek by (simp add: dict_keys_def node_phases_def case_prod_beta' comp_def)
  have "map_of (node_phases ?eff) t = Some (effective_phase g states recorded t)"
    if t: "t \<in> set (task_names g)" for t
  proof -
    have b: "map_of ?base t = Some (projected_node name states recorded t)" using t by (simp add: base)
    have "map_option ns_phase (map_of ?eff t) = (if t \<in> dom (map_of sk) then Some (Some Skipped)
        else Some (ns_phase (projected_node name states recorded t)))"
      unfolding effective_statuses_def by (simp add: update_all_skipped [OF a] b dom_map_of_conv_image_fst)
    moreover have "blocked (task_names g) (deps_of g) (listed_phases states recorded) t \<Longrightarrow>
        map_of states t = None"
      using blocked_unscheduled d by (fastforce simp: map_of_listed_phases split: option.splits)
    ultimately show ?thesis unfolding s
      by (auto simp: map_of_node_phases effective_phase_def projected_node_def recorded_skip_def
          split: option.splits if_splits)
  qed
  then show ?thesis using dict_as_map [of "node_phases ?eff"] nk dist by metis
qed

lemma reconcile_spec:
  assumes b: "build_workflow_graph tasks = Inr g"
    and l: "list_workflow_task_states k w name namespace = Inr states"
    and d: "distinct (dict_keys (ws_tasks status))"
  shows "\<exists>eff. node_phases eff = map (\<lambda>t. (t, effective_phase g states (ws_tasks status) t)) (task_names g) \<and>
    reconcile_workflow k w tasks name namespace status =
      (case create_all k (map (launched_task name namespace states)
          (filter (launchable states (ws_tasks status)) tasks)) w 0 of
         (w', Inl e) \<Rightarrow> (w', Inl e)
       | (w', Inr c) \<Rightarrow> publish k w' name namespace (patch_workflow_status status
           (aggregate_workflow_phase (task_names g) (node_phases eff)) (int (length tasks)) eff) c)"
proof -
  let ?phs = "listed_phases states (ws_tasks status)"
  have v: "valid_graph g" using b by (rule built_graph_valid)
  have vt: "valid_tasks tasks" and g: "g = graph_of tasks" using b by (auto simp: build_workflow_graph_iff)
  then have dist: "distinct (map task_name tasks)" by (simp add: valid_tasks_def)
  obtain sk where sk: "find_skipped_tasks g ?phs = Inr sk"
    and sks: "set sk = Collect (blocked (task_names g) (deps_of g) ?phs)"
    using wfg.skipped_law [OF v] by blast
  have "\<forall>t \<in> set sk. map_of (dependencies g) t \<noteq> None"
    using sks blocked_unscheduled wf_graph_lookup v by (fastforce simp: valid_graph_def)
  then obtain st where st: "record_skips g sk ?phs [] = Inr (mark_skipped sk ?phs, st)"
    and dst: "dom (map_of st) = set sk" and ast: "all_skipped st"
    using record_skips_spec [of sk g "[]" ?phs] by (auto simp: all_skipped_def)
  let ?ready = "\<lambda>t. map_of states (task_name t) = None \<and> \<not> recorded_skip (ws_tasks status) (task_name t) \<and>
        list_all (\<lambda>d. map_option st_phase (map_of states d) = Some Succeeded) (task_depends_on t)"
  have rd: "find_ready_tasks g (mark_skipped sk ?phs) = Inr (map task_name (filter ?ready tasks))"
  proof -
    have "task_ready (deps_of g) (mark_skipped sk ?phs) (task_name t) \<longleftrightarrow> ?ready t"
      if "t \<in> set tasks" for t
      using ready_after_skips [OF v d sks] deps_of_graph_of [OF dist that] g by simp
    then have "filter (task_ready (deps_of g) (mark_skipped sk ?phs)) (map task_name tasks)
        = map task_name (filter ?ready tasks)"
      by (simp add: filter_map comp_def cong: filter_cong)
    then show ?thesis using wfg.ready_law [OF v] g by (simp add: graph_of_def)
  qed
  have cr: "create_ready k name namespace (map (\<lambda>t. (task_name t, t)) tasks) states
      (map task_name (filter ?ready tasks)) w 0
    = create_all k (map (launched_task name namespace states)
        (filter (launchable states (ws_tasks status)) tasks)) w 0"
  proof -
    have "\<forall>t \<in> set (filter ?ready tasks). map_of (map (\<lambda>t. (task_name t, t)) tasks) (task_name t) = Some t"
      using map_of_task_key [OF dist] by auto
    from create_ready_spec [OF this] show ?thesis by (simp add: launchable_def conj_ac cong: filter_cong)
  qed
  have eff: "node_phases (effective_statuses name g states (ws_tasks status) st)
      = map (\<lambda>t. (t, effective_phase g states (ws_tasks status) t)) (task_names g)"
    using effective_statuses_phases [OF v ast _ d] dst sks by blast
  from rd cr obtain rn where rn: "find_ready_tasks g (mark_skipped sk ?phs) = Inr rn"
    "create_ready k name namespace (map (\<lambda>t. (task_name t, t)) tasks) states rn w 0
     = create_all k (map (launched_task name namespace states)
        (filter (launchable states (ws_tasks status)) tasks)) w 0"
    by blast
  show ?thesis
    by (rule exI [of _ "effective_statuses name g states (ws_tasks status) st"])
      (simp add: eff reconcile_workflow_def b l sk st rn Let_def publish_def
        flip: listed_phases_def split: prod.split sum.split option.split bool.split)
qed

subsection \<open>Aggregated phase\<close>

lemma aggregate_of_map:
  assumes "names \<noteq> []"
  shows "aggregate_workflow_phase names (map (\<lambda>t. (t, f t)) names) =
    (if \<forall>t \<in> set names. f t = Succeeded then Succeeded
     else if \<forall>t \<in> set names. terminal_phase (f t) then Failed else Running)"
proof -
  have ph: "map (\<lambda>n. dict_get (map (\<lambda>t. (t, f t)) names) n Pending) names = map f names"
    by (simp add: dict_get_def)
  have t: "p \<in> set WORKFLOW_TERMINAL_TASK_PHASES \<longleftrightarrow> terminal_phase p" for p
    by (cases p) (simp_all add: WORKFLOW_TERMINAL_TASK_PHASES_def terminal_phase_def)
  show ?thesis unfolding aggregate_workflow_phase_def ph Let_def t
    using assms by (simp add: list_all_iff)
qed

lemma effective_succeeded:
  "effective_phase g states recorded t = Succeeded \<longleftrightarrow>
     map_option st_phase (map_of states t) = Some Succeeded"
  by (auto simp: effective_phase_def split: option.splits)

subsection \<open>Reconciliations running against a cluster\<close>

text \<open>
  The Tasks of a cluster as the API server keeps them: a create call is refused when the name is
  taken, may fail, and may also be applied although its reply is lost. The owner references that
  \<open>kopf.adopt\<close> adds are not part of \<open>task_resource\<close>. Handlers run in threads, so a
  reconciliation may act on a listing that is out of date: a listing is a step of its own, and
  a later step acts on any listing read before.
\<close>

record task_object =
  obj_res :: task_resource
  obj_phase :: "phase option"
  obj_result :: "string option"

definition item_of :: "task_object \<Rightarrow> task_item" where
  "item_of ob = \<lparr>item_labels = res_labels (obj_res ob), item_phase = obj_phase ob,
     item_result = obj_result ob\<rparr>"

definition label_selected :: "string \<Rightarrow> string \<Rightarrow> task_object \<Rightarrow> bool" where
  "label_selected name namespace ob \<longleftrightarrow> res_namespace (obj_res ob) = namespace \<and>
     map_of (res_labels (obj_res ob)) workflow_label = Some name"

definition cluster_create ::
  "task_resource set \<Rightarrow> task_resource set \<Rightarrow> task_object list \<Rightarrow> task_resource
   \<Rightarrow> task_object list \<times> create_reply" where
  "cluster_create refused lost obs r =
     (if r \<in> refused then (obs, FailedReply)
      else if list_ex (\<lambda>ob. res_name (obj_res ob) = res_name r \<and>
          res_namespace (obj_res ob) = res_namespace r) obs then (obs, ConflictReply)
      else (obs @ [\<lparr>obj_res = r, obj_phase = None, obj_result = None\<rparr>],
        if r \<in> lost then FailedReply else CreatedReply))"

definition cluster_kube ::
  "task_item list option \<Rightarrow> task_resource set \<Rightarrow> task_resource set \<Rightarrow> bool \<Rightarrow> task_object list kube" where
  "cluster_kube listing refused lost patched =
     \<lparr>list_tasks = (\<lambda>_ _ _. listing), create_object = cluster_create refused lost,
      patch_status = (\<lambda>obs _ _ _. (obs, patched)), adopt = (\<lambda>r. r)\<rparr>"

inductive cluster_reachable ::
  "workflow_task list \<Rightarrow> string \<Rightarrow> string \<Rightarrow> task_object list \<Rightarrow> task_item list list \<Rightarrow> bool"
  for tasks name namespace where
  start: "cluster_reachable tasks name namespace [] []"
| listing: "cluster_reachable tasks name namespace obs ls \<Longrightarrow>
    cluster_reachable tasks name namespace obs
      (map item_of (filter (label_selected name namespace) obs) # ls)"
| progress: "cluster_reachable tasks name namespace obs ls \<Longrightarrow> i < length obs \<Longrightarrow>
    (\<forall>p. obj_phase (obs ! i) = Some p \<longrightarrow> \<not> terminal_phase p) \<Longrightarrow>
    cluster_reachable tasks name namespace (obs[i := (obs ! i)\<lparr>obj_phase := ph, obj_result := r\<rparr>]) ls"
| reconcile: "cluster_reachable tasks name namespace obs ls \<Longrightarrow> l \<in> set ls \<Longrightarrow>
    distinct (dict_keys (ws_tasks status)) \<Longrightarrow>
    cluster_reachable tasks name namespace
      (fst (reconcile_workflow (cluster_kube (Some l) refused lost patched) obs tasks name namespace status)) ls"

definition node_label :: "task_object \<Rightarrow> string option" where
  "node_label ob = map_of (res_labels (obj_res ob)) workflow_task_label"

definition done_with :: "task_object list \<Rightarrow> string \<Rightarrow> string option \<Rightarrow> bool" where
  "done_with obs n r \<longleftrightarrow> (\<exists>ob \<in> set obs. node_label ob = Some n \<and>
     obj_phase ob = Some Succeeded \<and> obj_result ob = r)"

definition justified :: "workflow_task list \<Rightarrow> string \<Rightarrow> string \<Rightarrow> task_object list \<Rightarrow> task_resource \<Rightarrow> bool" where
  "justified tasks name namespace obs res \<longleftrightarrow> (\<exists>t \<in> set tasks. \<exists>f.
     res = build_workflow_task name namespace (t\<lparr>input_prompt := prompt_with f t\<rparr>) \<and>
     (\<forall>d \<in> set (task_depends_on t). \<exists>r. done_with obs d r) \<and>
     (\<forall>s \<in> set (task_sources t). done_with obs s (Some (f s))))"

lemma done_with_append: "done_with obs n r \<Longrightarrow> done_with (obs @ extra) n r"
  by (auto simp: done_with_def)

lemma done_with_progress:
  assumes "done_with obs n r" and "\<forall>p. obj_phase (obs ! i) = Some p \<longrightarrow> \<not> terminal_phase p"
  shows "done_with (obs[i := v]) n r"
proof -
  from assms(1) obtain j where j: "j < length obs" "node_label (obs ! j) = Some n"
    "obj_phase (obs ! j) = Some Succeeded" "obj_result (obs ! j) = r"
    by (auto simp: done_with_def in_set_conv_nth)
  then have "j \<noteq> i" using assms(2) by (auto simp: terminal_phase_def)
  then have "obs ! j \<in> set (obs[i := v])"
    using j(1) nth_mem [of j "obs[i := v]"] by simp
  then show ?thesis using j unfolding done_with_def by metis
qed

lemma justified_mono:
  "justified tasks name namespace obs res \<Longrightarrow> (\<And>n r. done_with obs n r \<Longrightarrow> done_with obs' n r) \<Longrightarrow>
   justified tasks name namespace obs' res"
  unfolding justified_def by blast

lemma task_states_loop_origin:
  "map_of (task_states_loop items acc) n = Some s \<Longrightarrow> map_of acc n = Some s \<or>
    (\<exists>i \<in> set items. map_of (item_labels i) workflow_task_label = Some n \<and>
       s = \<lparr>st_phase = (case item_phase i of None \<Rightarrow> Pending | Some p \<Rightarrow> p), st_result = item_result i\<rparr>)"
proof (induction items arbitrary: acc)
  case (Cons i items)
  then show ?case by (fastforce split: option.splits if_splits)
qed simp

lemma create_all_cluster:
  "\<exists>extra. fst (create_all (cluster_kube l refused lost patched) rs obs c) = obs @ extra \<and>
     obj_res ` set extra \<subseteq> set rs"
proof (induction rs arbitrary: obs c)
  case (Cons r rs)
  let ?k = "cluster_kube l refused lost patched"
  obtain obs' rep where cr: "cluster_create refused lost obs r = (obs', rep)" by fastforce
  then obtain one where one: "obs' = obs @ one" "obj_res ` set one \<subseteq> {r}"
    by (force simp: cluster_create_def split: if_splits)
  have ck: "create_object ?k obs (adopt ?k r) = (obs', rep)" using cr by (simp add: cluster_kube_def)
  have extra: "\<exists>extra. fst (create_all ?k rs obs' c') = obs @ extra \<and> obj_res ` set extra \<subseteq> set (r # rs)" for c'
  proof -
    obtain m where "fst (create_all ?k rs obs' c') = obs' @ m" "obj_res ` set m \<subseteq> set rs"
      using Cons.IH by blast
    then show ?thesis using one by (intro exI [of _ "one @ m"]) auto
  qed
  show ?case
  proof (cases rep)
    case FailedReply
    then show ?thesis using ck one by (intro exI [of _ one]) auto
  qed (use ck extra in simp_all)
qed simp

lemma reconcile_cluster:
  assumes "distinct (dict_keys (ws_tasks status))"
  shows "\<exists>extra. fst (reconcile_workflow (cluster_kube (Some l) refused lost patched) obs tasks name namespace status)
      = obs @ extra \<and> (\<forall>ob \<in> set extra. \<exists>t \<in> set tasks.
        obj_res ob = launched_task name namespace (task_states_loop l []) t \<and> valid_tasks tasks \<and>
        launchable (task_states_loop l []) (ws_tasks status) t)"
proof (cases "build_workflow_graph tasks")
  case (Inl e)
  then show ?thesis by (simp add: reconcile_workflow_def)
next
  case (Inr g)
  let ?k = "cluster_kube (Some l) refused lost patched"
  let ?rs = "map (launched_task name namespace (task_states_loop l []))
    (filter (launchable (task_states_loop l []) (ws_tasks status)) tasks)"
  have "list_workflow_task_states ?k obs name namespace = Inr (task_states_loop l [])"
    by (simp add: list_workflow_task_states_def cluster_kube_def)
  from reconcile_spec [OF Inr this assms]
  have "fst (reconcile_workflow ?k obs tasks name namespace status) = fst (create_all ?k ?rs obs 0)"
    by (auto simp: publish_def cluster_kube_def split: prod.split sum.split option.split)
  moreover obtain extra where "fst (create_all ?k ?rs obs 0) = obs @ extra" "obj_res ` set extra \<subseteq> set ?rs"
    using create_all_cluster by blast
  moreover have "valid_tasks tasks" using Inr by (simp add: build_workflow_graph_iff)
  ultimately show ?thesis by (intro exI [of _ extra]) auto
qed

lemma launched_justified:
  assumes t: "t \<in> set tasks" and v: "valid_tasks tasks"
    and l: "launchable (task_states_loop l []) recorded t"
    and backed: "\<And>i n. i \<in> set l \<Longrightarrow> map_of (item_labels i) workflow_task_label = Some n \<Longrightarrow>
      item_phase i = Some Succeeded \<Longrightarrow> done_with obs n (item_result i)"
  shows "justified tasks name namespace obs (launched_task name namespace (task_states_loop l []) t)"
proof -
  let ?st = "task_states_loop l []"
  have d: "\<exists>s. map_of ?st d = Some s \<and> done_with obs d (st_result s)" if dd: "d \<in> set (task_depends_on t)" for d
  proof -
    obtain s where s: "map_of ?st d = Some s" "st_phase s = Succeeded"
      using l dd by (auto simp: launchable_def list_all_iff)
    then show ?thesis using task_states_loop_origin [OF s(1)] backed by (auto split: option.splits)
  qed
  have "done_with obs s (Some (the (result_of ?st s)))" if s: "s \<in> set (task_sources t)" for s
  proof -
    have "s \<in> set (task_depends_on t)" using s v t by (auto simp: valid_tasks_def valid_task_def)
    moreover have "result_of ?st s \<noteq> None" using l s by (auto simp: launchable_def list_all_iff)
    ultimately show ?thesis using d [of s] by (auto simp: result_of_def)
  qed
  then show ?thesis unfolding justified_def launched_task_def resolved_prompt_def
    using t d by (intro bexI [of _ t] exI [of _ "\<lambda>s. the (result_of ?st s)"]) auto
qed

lemma cluster_invariant:
  assumes "cluster_reachable tasks name namespace obs ls"
  shows "(\<forall>ob \<in> set obs. justified tasks name namespace obs (obj_res ob)) \<and>
    (\<forall>l \<in> set ls. \<forall>i \<in> set l. \<forall>n. map_of (item_labels i) workflow_task_label = Some n \<longrightarrow>
       item_phase i = Some Succeeded \<longrightarrow> done_with obs n (item_result i))"
  using assms
proof (induction rule: cluster_reachable.induct)
  case start
  then show ?case by simp
next
  case (listing obs ls)
  then show ?case by (auto simp: item_of_def done_with_def node_label_def)
next
  case (progress obs ls i r ph)
  let ?new = "obs[i := (obs ! i)\<lparr>obj_phase := ph, obj_result := r\<rparr>]"
  have keep: "done_with obs n q \<Longrightarrow> done_with ?new n q" for n q
    by (rule done_with_progress [OF _ progress.hyps(3)])
  have "obj_res ob \<in> obj_res ` set obs" if "ob \<in> set ?new" for ob
    using that progress.hyps(2) set_update_subset_insert [of obs i] by force
  then have "\<forall>ob \<in> set ?new. justified tasks name namespace ?new (obj_res ob)"
    using progress.IH justified_mono [OF _ keep] by (metis imageE)
  then show ?case using progress.IH keep by blast
next
  case (reconcile obs ls l status refused lost patched)
  obtain extra where m: "fst (reconcile_workflow (cluster_kube (Some l) refused lost patched) obs tasks name namespace status)
      = obs @ extra" and new: "\<forall>ob \<in> set extra. \<exists>t \<in> set tasks.
        obj_res ob = launched_task name namespace (task_states_loop l []) t \<and> valid_tasks tasks \<and>
        launchable (task_states_loop l []) (ws_tasks status) t"
    using reconcile_cluster [OF reconcile.hyps(3)] by blast
  have keep: "done_with obs n q \<Longrightarrow> done_with (obs @ extra) n q" for n q by (rule done_with_append)
  have "justified tasks name namespace obs (obj_res ob)" if "ob \<in> set extra" for ob
    using new that launched_justified [of _ tasks l] reconcile.IH reconcile.hyps(2) by metis
  then have "\<forall>ob \<in> set (obs @ extra). justified tasks name namespace (obs @ extra) (obj_res ob)"
    using reconcile.IH justified_mono [OF _ keep] by (metis Un_iff set_append)
  then show ?case unfolding m using reconcile.IH keep by blast
qed

subsection \<open>The status patch\<close>

text \<open>
  The reply of the API server to a JSON merge patch, as RFC 7386 documents it: a key with a null
  value is removed, an object is merged key by key, and a key the patch does not name is kept.
\<close>

definition keep_field :: "'a option \<Rightarrow> 'a option \<Rightarrow> 'a option" where
  "keep_field old v = (case v of None \<Rightarrow> old | Some x \<Rightarrow> Some x)"

definition merged_node :: "node_status option \<Rightarrow> node_status \<Rightarrow> node_status" where
  "merged_node old s = (case old of None \<Rightarrow> s | Some c \<Rightarrow>
     \<lparr>ns_phase = keep_field (ns_phase c) (ns_phase s),
      ns_task_ref = keep_field (ns_task_ref c) (ns_task_ref s),
      ns_reason = keep_field (ns_reason c) (ns_reason s),
      ns_message = keep_field (ns_message c) (ns_message s)\<rparr>)"

definition merge_patched :: "workflow_status \<Rightarrow> status_patch \<Rightarrow> workflow_status \<Rightarrow> bool" where
  "merge_patched cur p st \<longleftrightarrow> ws_phase st = Some (sp_phase p) \<and> ws_task_count st = Some (sp_task_count p) \<and>
     (\<forall>n. map_of (ws_tasks st) n = (case map_of (sp_tasks p) n of
        None \<Rightarrow> map_of (ws_tasks cur) n
      | Some None \<Rightarrow> None
      | Some (Some s) \<Rightarrow> Some (merged_node (map_of (ws_tasks cur) n) s)))"

text \<open>A field of the recorded node that the desired node no longer has.\<close>

definition stale_field :: "node_status option \<Rightarrow> node_status \<Rightarrow> bool" where
  "stale_field old s \<longleftrightarrow> merged_node old s \<noteq> s"

lemma stale_field_iff:
  "stale_field old s \<longleftrightarrow> (\<exists>c. old = Some c \<and>
     (ns_phase c \<noteq> None \<and> ns_phase s = None \<or> ns_task_ref c \<noteq> None \<and> ns_task_ref s = None \<or>
      ns_reason c \<noteq> None \<and> ns_reason s = None \<or> ns_message c \<noteq> None \<and> ns_message s = None))"
  by (cases s; cases old) (auto simp: stale_field_def merged_node_def keep_field_def split: option.splits)

lemma dict_eq_iff: "dict_eq a b \<longleftrightarrow> map_of a = map_of b"
proof
  assume e: "dict_eq a b"
  show "map_of a = map_of b"
  proof (rule ext)
    fix k show "map_of a k = map_of b k"
      using e by (cases "k \<in> dom (map_of a) \<union> dom (map_of b)")
        (auto simp: dict_eq_def list_all_iff domIff)
  qed
qed (simp add: dict_eq_def list_all_iff)

lemma map_of_status_patch:
  "patch_workflow_status cur ph c desired = Some p \<Longrightarrow>
   map_of (sp_tasks p) n = (case map_of desired n of Some s \<Rightarrow> Some (Some s)
     | None \<Rightarrow> if n \<in> dom (map_of (ws_tasks cur)) then Some None else None)"
  by (auto simp: patch_workflow_status_def map_add_def map_of_map_snd map_of_map_key [where f = "\<lambda>_. None"]
      split: if_splits option.splits)

lemma merged_tasks:
  assumes "patch_workflow_status cur ph c desired = Some p" and "merge_patched cur p st"
  shows "map_of (ws_tasks st) n = map_option (merged_node (map_of (ws_tasks cur) n)) (map_of desired n)"
  using assms(2) map_of_status_patch [OF assms(1), of n]
  by (auto simp: merge_patched_def split: option.splits if_splits)

lemma patch_settles_iff:
  assumes p: "patch_workflow_status cur ph c desired = Some p" and m: "merge_patched cur p st"
  shows "patch_workflow_status st ph c desired = None \<longleftrightarrow>
    (\<forall>n s. map_of desired n = Some s \<longrightarrow> \<not> stale_field (map_of (ws_tasks cur) n) s)"
proof -
  have "ws_phase st = Some ph" and "ws_task_count st = Some c"
    using m p by (auto simp: merge_patched_def patch_workflow_status_def split: if_splits)
  then have "patch_workflow_status st ph c desired = None \<longleftrightarrow> map_of (ws_tasks st) = map_of desired"
    by (simp add: patch_workflow_status_def dict_eq_iff)
  also have "\<dots> \<longleftrightarrow> (\<forall>n. map_of (ws_tasks st) n = map_of desired n)" by (rule fun_eq_iff)
  also have "\<dots> \<longleftrightarrow> (\<forall>n s. map_of desired n = Some s \<longrightarrow> \<not> stale_field (map_of (ws_tasks cur) n) s)"
  proof (rule iff_allI)
    fix n
    show "map_of (ws_tasks st) n = map_of desired n \<longleftrightarrow>
        (\<forall>s. map_of desired n = Some s \<longrightarrow> \<not> stale_field (map_of (ws_tasks cur) n) s)"
      unfolding merged_tasks [OF p m] stale_field_def by (cases "map_of desired n") simp_all
  qed
  finally show ?thesis .
qed

subsection \<open>Properties\<close>

text \<open>
  C7: a reconciliation of a valid Workflow creates exactly the Tasks of the declared nodes that
  have no Task yet, are not recorded as skipped, whose dependencies all have a listed Task that
  succeeded and whose result sources all have a result; in declaration order, with the results
  of the sources appended to the prompt; it stops at the first create call that fails and
  publishes at most one status patch afterwards.
\<close>

theorem reconcile_launches_exactly:
  assumes "build_workflow_graph tasks = Inr g"
    and "list_workflow_task_states k w name namespace = Inr states"
    and "distinct (dict_keys (ws_tasks status))"
  shows "\<exists>p. reconcile_workflow k w tasks name namespace status =
      (case create_all k (map (launched_task name namespace states)
          (filter (launchable states (ws_tasks status)) tasks)) w 0 of
         (w', Inl e) \<Rightarrow> (w', Inl e)
       | (w', Inr c) \<Rightarrow> publish k w' name namespace p c)"
  using reconcile_spec [OF assms] by blast

definition example_kube :: "task_item list \<Rightarrow> task_resource list kube" where
  "example_kube items = \<lparr>list_tasks = (\<lambda>_ _ _. Some items), create_object = (\<lambda>w r. (w @ [r], CreatedReply)),
     patch_status = (\<lambda>w _ _ _. (w, True)), adopt = (\<lambda>r. r)\<rparr>"

definition example_status :: workflow_status where
  "example_status = \<lparr>ws_phase = None, ws_task_count = None, ws_tasks = []\<rparr>"

definition example_item :: "string \<Rightarrow> phase \<Rightarrow> string \<Rightarrow> task_item" where
  "example_item n p r = \<lparr>item_labels = [(workflow_task_label, n)], item_phase = Some p, item_result = Some r\<rparr>"

theorem reconcile_launches_exactly_witness:
  "\<exists>p. reconcile_workflow (example_kube [example_item ''build'' Succeeded ''ok'']) [] example_tasks
      ''wf'' ''ns'' example_status =
    publish (example_kube [example_item ''build'' Succeeded ''ok''])
      [build_workflow_task ''wf'' ''ns'' (mk_task ''test'' [''build''] [])] ''wf'' ''ns'' p 1"
proof -
  let ?k = "example_kube [example_item ''build'' Succeeded ''ok'']"
  let ?st = "[(''build'', \<lparr>st_phase = Succeeded, st_result = Some ''ok''\<rparr>)]"
  have l: "list_workflow_task_states ?k [] ''wf'' ''ns'' = Inr ?st" by code_simp
  have d: "distinct (dict_keys (ws_tasks example_status))" by (simp add: example_status_def)
  have "filter (launchable ?st (ws_tasks example_status)) example_tasks = [mk_task ''test'' [''build''] []]"
    by code_simp
  moreover have "launched_task ''wf'' ''ns'' ?st (mk_task ''test'' [''build''] [])
      = build_workflow_task ''wf'' ''ns'' (mk_task ''test'' [''build''] [])"
    by code_simp
  ultimately show ?thesis
    using reconcile_launches_exactly [OF example_built l d] by (simp add: example_kube_def)
qed

text \<open>
  The phase a reconciliation publishes: \<open>Succeeded\<close> exactly when every declared node has a
  listed Task that succeeded; \<open>Failed\<close> when every node is terminal, counting a node without a
  Task as terminal when it is recorded as skipped or blocked by the listed phases, and some node
  did not succeed; \<open>Running\<close> otherwise.
\<close>

theorem reconcile_publishes_phase:
  assumes "build_workflow_graph tasks = Inr g"
    and "list_workflow_task_states k w name namespace = Inr states"
    and "distinct (dict_keys (ws_tasks status))"
    and "create_all k (map (launched_task name namespace states)
          (filter (launchable states (ws_tasks status)) tasks)) w 0 = (w', Inr c)"
  shows "\<exists>eff. reconcile_workflow k w tasks name namespace status =
      publish k w' name namespace (patch_workflow_status status
        (if \<forall>t \<in> set tasks. map_option st_phase (map_of states (task_name t)) = Some Succeeded then Succeeded
         else if \<forall>t \<in> set tasks. terminal_phase (effective_phase g states (ws_tasks status) (task_name t))
           then Failed else Running)
        (int (length tasks)) eff) c \<and>
      node_phases eff = map (\<lambda>t. (task_name t, effective_phase g states (ws_tasks status) (task_name t))) tasks"
proof -
  have ne: "tasks \<noteq> []" and n: "task_names g = map task_name tasks"
    using assms(1) by (auto simp: build_workflow_graph_iff valid_tasks_def graph_of_def)
  let ?f = "effective_phase g states (ws_tasks status)"
  let ?ph = "if \<forall>t \<in> set tasks. map_option st_phase (map_of states (task_name t)) = Some Succeeded
    then Succeeded else if \<forall>t \<in> set tasks. terminal_phase (?f (task_name t)) then Failed else Running"
  have agg: "aggregate_workflow_phase (task_names g) (map (\<lambda>t. (t, ?f t)) (task_names g)) = ?ph"
    using aggregate_of_map [of "task_names g" ?f] ne unfolding n effective_succeeded by simp
  obtain eff where e: "node_phases eff = map (\<lambda>t. (t, ?f t)) (task_names g)"
    and r: "reconcile_workflow k w tasks name namespace status = publish k w' name namespace
      (patch_workflow_status status (aggregate_workflow_phase (task_names g) (node_phases eff))
        (int (length tasks)) eff) c"
    using reconcile_spec [OF assms(1,2,3)] unfolding assms(4) prod.case sum.case by blast
  have "node_phases eff = map (\<lambda>t. (task_name t, ?f (task_name t))) tasks" unfolding e n by simp
  with r [unfolded e agg] show ?thesis by (intro exI [of _ eff] conjI)
qed

theorem reconcile_publishes_phase_witness:
  "\<exists>eff. reconcile_workflow (example_kube [example_item ''build'' Failed ''no'']) [] example_tasks
      ''wf'' ''ns'' example_status =
    publish (example_kube [example_item ''build'' Failed ''no'']) [] ''wf'' ''ns''
      (patch_workflow_status example_status Failed 3 eff) 0"
proof -
  let ?k = "example_kube [example_item ''build'' Failed ''no'']"
  let ?st = "[(''build'', \<lparr>st_phase = Failed, st_result = Some ''no''\<rparr>)]"
  let ?f = "effective_phase example_graph ?st (ws_tasks example_status)"
  have l: "list_workflow_task_states ?k [] ''wf'' ''ns'' = Inr ?st" by code_simp
  have d: "distinct (dict_keys (ws_tasks example_status))" by (simp add: example_status_def)
  have "filter (launchable ?st (ws_tasks example_status)) example_tasks = []" by code_simp
  then have c: "create_all ?k (map (launched_task ''wf'' ''ns'' ?st)
      (filter (launchable ?st (ws_tasks example_status)) example_tasks)) [] 0 = ([], Inr 0)" by simp
  have lp: "listed_phases ?st (ws_tasks example_status) = [(''build'', Failed)]" by code_simp
  have ba: "blocked (task_names example_graph) (deps_of example_graph) [(''build'', Failed)] ''test''"
    by (rule blocked.direct [of _ _ _ "''build''"])
      (simp_all add: example_graph_def deps_of_def TERMINAL_UNSUCCESSFUL_PHASES_def)
  have bb: "blocked (task_names example_graph) (deps_of example_graph) [(''build'', Failed)] ''ship''"
    by (rule blocked.inherited [OF _ _ _ ba]) (simp_all add: example_graph_def deps_of_def)
  have "?f ''build'' = Failed" "?f ''test'' = Skipped" "?f ''ship'' = Skipped"
    using ba bb lp by (simp_all add: effective_phase_def)
  then show ?thesis using reconcile_publishes_phase [OF example_built l d c]
    by (auto simp: example_tasks_def mk_task_def terminal_phase_def)
qed

text \<open>
  C14: in every run of concurrent reconciliations against a cluster whose terminal Tasks no longer
  change, with create calls that fail or lose their reply, listings that are out of date and any
  recorded status, every Task that exists is a declared node, all its dependencies have a Task
  that succeeded, and its prompt carries the final results of its declared sources.
\<close>

theorem tasks_start_after_their_inputs:
  assumes "cluster_reachable tasks name namespace obs ls" and "ob \<in> set obs"
  shows "\<exists>t \<in> set tasks. \<exists>f.
     obj_res ob = build_workflow_task name namespace (t\<lparr>input_prompt := prompt_with f t\<rparr>) \<and>
     (\<forall>d \<in> set (task_depends_on t). \<exists>r. done_with obs d r) \<and>
     (\<forall>s \<in> set (task_sources t). done_with obs s (Some (f s)))"
  using cluster_invariant [OF assms(1)] assms(2) unfolding justified_def by blast

theorem tasks_start_after_their_inputs_witness:
  "\<exists>obs ls. cluster_reachable example_tasks ''wf'' ''ns'' obs ls \<and> length obs = 1 \<and>
     (\<exists>t \<in> set example_tasks. obj_res (obs ! 0) = build_workflow_task ''wf'' ''ns'' t)"
proof -
  let ?ob = "\<lparr>obj_res = build_workflow_task ''wf'' ''ns'' (mk_task ''build'' [] []), obj_phase = None,
    obj_result = None\<rparr>"
  have "cluster_reachable example_tasks ''wf'' ''ns'' [] [[]]"
    using cluster_reachable.listing [OF cluster_reachable.start] by simp
  then have "cluster_reachable example_tasks ''wf'' ''ns''
      (fst (reconcile_workflow (cluster_kube (Some []) {} {} True) [] example_tasks ''wf'' ''ns'' example_status)) [[]]"
    by (rule cluster_reachable.reconcile) (simp_all add: example_status_def)
  moreover have "fst (reconcile_workflow (cluster_kube (Some []) {} {} True) [] example_tasks ''wf'' ''ns''
      example_status) = [?ob]" by code_simp
  ultimately have r: "cluster_reachable example_tasks ''wf'' ''ns'' [?ob] [[]]" by simp
  obtain t f where "t \<in> set example_tasks"
    "obj_res ?ob = build_workflow_task ''wf'' ''ns'' (t\<lparr>input_prompt := prompt_with f t\<rparr>)"
    using tasks_start_after_their_inputs [OF r] by auto
  then have "task_name t = ''build''" by (simp add: build_workflow_task_def mk_task_def)
  then show ?thesis using r by (intro exI [of _ "[?ob]"] exI [of _ "[[]]"]) (simp add: example_tasks_def)
qed

text \<open>
  The status patch: when the API server applies it as a JSON merge patch, the recorded nodes
  are exactly the desired ones, and the next call with the same desired status writes nothing
  exactly when no desired node drops a field that the recorded node had. A node that goes back
  to \<open>Pending\<close> drops \<open>taskRef\<close>, so its stale reference stays and the status is written again by
  every reconciliation.
\<close>

theorem status_patch_settles_iff_no_stale_field:
  assumes "patch_workflow_status cur ph c desired = Some p" and "merge_patched cur p st"
  shows "dom (map_of (ws_tasks st)) = dom (map_of desired) \<and>
    (patch_workflow_status st ph c desired = None \<longleftrightarrow>
      (\<forall>n s. map_of desired n = Some s \<longrightarrow> \<not> stale_field (map_of (ws_tasks cur) n) s))"
  using patch_settles_iff [OF assms] merged_tasks [OF assms] by (auto simp: dom_def)

theorem status_patch_settles_iff_no_stale_field_witness:
  "let pending = \<lparr>ns_phase = Some Pending, ns_task_ref = None, ns_reason = None, ns_message = None\<rparr>;
       running = \<lparr>ns_phase = Some Running, ns_task_ref = Some ''wf-a'', ns_reason = None, ns_message = None\<rparr>;
       stale = running\<lparr>ns_phase := Some Pending\<rparr>;
       st = \<lparr>ws_phase = Some Running, ws_task_count = Some 1, ws_tasks = [(''a'', stale)]\<rparr>
   in patch_workflow_status st Running 1 [(''a'', pending)] \<noteq> None"
proof -
  let ?pending = "\<lparr>ns_phase = Some Pending, ns_task_ref = None, ns_reason = None, ns_message = None\<rparr>"
  let ?running = "\<lparr>ns_phase = Some Running, ns_task_ref = Some ''wf-a'', ns_reason = None, ns_message = None\<rparr>"
  let ?cur = "\<lparr>ws_phase = Some Running, ws_task_count = Some 1, ws_tasks = [(''a'', ?running)]\<rparr>"
  let ?st = "\<lparr>ws_phase = Some Running, ws_task_count = Some 1,
    ws_tasks = [(''a'', ?running\<lparr>ns_phase := Some Pending\<rparr>)]\<rparr>"
  let ?p = "\<lparr>sp_phase = Running, sp_task_count = 1, sp_tasks = [(''a'', Some ?pending)]\<rparr>"
  have "patch_workflow_status ?cur Running 1 [(''a'', ?pending)] = Some ?p" by code_simp
  moreover have "merge_patched ?cur ?p ?st" by (simp add: merge_patched_def merged_node_def keep_field_def)
  ultimately have "patch_workflow_status ?st Running 1 [(''a'', ?pending)] = None \<longleftrightarrow>
      \<not> stale_field (Some ?running) ?pending"
    using status_patch_settles_iff_no_stale_field [of ?cur Running 1 "[(''a'', ?pending)]" ?p ?st] by simp
  then show ?thesis by (simp add: stale_field_iff Let_def)
qed

end
