(* ===== verification/Execution_Contract.thy ===== *)
theory Execution_Contract
  imports Prelude "HOL-Library.Multiset"
begin

text \<open>
  The values of the execution-authority contract: \<open>core/src/agent_core/execution_contract.py\<close>.

  Each dataclass is a record; its \<open>__post_init__\<close> is a function from the raw record to the
  validated and normalized one, and an \<open>ExecutionContractError\<close> is its code. The checks that a
  field has its declared class are the types of the record fields. Identifiers of every kind are
  strings; a timestamp is the number of microseconds since the epoch, in UTC.

  The lemmas show that a constructed value is a fixed point of its validation, that requirement codes have one
  canonical form, and how the identities of attempts and workflow runs form a lineage.
\<close>

subsection \<open>Text\<close>

definition MAX_ID_BYTES :: nat where "MAX_ID_BYTES = 200"
definition MAX_SCOPE_BYTES :: nat where "MAX_SCOPE_BYTES = 128"
definition MAX_VALUE_BYTES :: nat where "MAX_VALUE_BYTES = 512"
definition MAX_COLLECTION_ITEMS :: nat where "MAX_COLLECTION_ITEMS = 64"

type_synonym contract_error = string
type_synonym time = int

definition utf8_length :: "string \<Rightarrow> nat" where
  "utf8_length s = sum_list (map (\<lambda>c. if of_char c < (128::nat) then 1 else 2) s)"

definition normalized_text :: "contract_error \<Rightarrow> nat \<Rightarrow> string \<Rightarrow> (contract_error, string) result" where
  "normalized_text code maximum s =
     (let n = strip s in if n = [] \<or> maximum < utf8_length n then Inl code else Inr n)"

definition opaque_id :: "string \<Rightarrow> (contract_error, string) result" where
  "opaque_id s = normalized_text ''INVALID_PRODUCT_ID'' MAX_ID_BYTES s"

definition reference :: "contract_error \<Rightarrow> string \<Rightarrow> (contract_error, string) result" where
  "reference code s = normalized_text code MAX_VALUE_BYTES s"

fun reference_all :: "contract_error \<Rightarrow> string list \<Rightarrow> (contract_error, string list) result" where
  "reference_all code [] = Inr []"
| "reference_all code (s # ss) = rbind (reference code s) (\<lambda>t. rbind (reference_all code ss) (\<lambda>ts. Inr (t # ts)))"

definition codes :: "contract_error \<Rightarrow> string list \<Rightarrow> (contract_error, string list) result" where
  "codes code ss =
     (if MAX_COLLECTION_ITEMS < length ss then Inl code
      else rbind (reference_all code ss) (\<lambda>ns. if distinct ns then Inr (sort ns) else Inl code))"

definition generation :: "int \<Rightarrow> (contract_error, int) result" where
  "generation v = (if v < 1 then Inl ''INVALID_GENERATION'' else Inr v)"

definition generation_successor :: "int \<Rightarrow> (contract_error, int) result" where
  "generation_successor g = generation (g + 1)"

record scope_identity =
  namespace :: string
  security_domain :: string

definition scope_identity_init :: "scope_identity \<Rightarrow> (contract_error, scope_identity) result" where
  "scope_identity_init s =
     rbind (normalized_text ''INVALID_SCOPE_IDENTITY'' MAX_SCOPE_BYTES (namespace s)) (\<lambda>n.
     rbind (normalized_text ''INVALID_SCOPE_IDENTITY'' MAX_SCOPE_BYTES (security_domain s)) (\<lambda>d.
     Inr \<lparr>namespace = n, security_domain = d\<rparr>))"

subsection \<open>Native dispatch values\<close>

datatype dispatch_state = QUEUED | CLAIMED | EFFECT_STARTED | SUCCEEDED | FAILED | UNKNOWN | RECOVERY_REQUIRED

datatype terminal_kind = T_SUCCEEDED | T_FAILED | T_UNKNOWN | T_RECOVERY_REQUIRED

definition kind_state :: "terminal_kind \<Rightarrow> dispatch_state" where
  "kind_state k = (case k of T_SUCCEEDED \<Rightarrow> SUCCEEDED | T_FAILED \<Rightarrow> FAILED
     | T_UNKNOWN \<Rightarrow> UNKNOWN | T_RECOVERY_REQUIRED \<Rightarrow> RECOVERY_REQUIRED)"

record dispatch_command =
  command_id :: string
  scope :: scope_identity
  attempt_id :: string
  assignment_id :: string
  approved_plan_revision_id :: string
  approved_plan_digest :: string
  placement_id :: string
  placement_digest :: string
  runtime_instance_id :: string
  runtime_generation :: int
  agent_instance_id :: string
  principal_id :: string
  credential_id :: string
  authentication_source :: string
  authority_generation :: int
  recovery_epoch :: int
  authorization_owner :: string
  authorization_action :: string
  authorization_resource :: string
  agent_name :: string
  input_text :: string
  timeout_seconds :: int
  queued_at :: time

definition hex_chars :: string where
  "hex_chars = ''0123456789abcdef''"

definition is_digest :: "string \<Rightarrow> bool" where
  "is_digest s = (length s = 64 \<and> list_all (\<lambda>c. c \<in> set hex_chars) s)"

definition dispatch_command_init :: "dispatch_command \<Rightarrow> (contract_error, dispatch_command) result" where
  "dispatch_command_init c =
     (let ref = reference ''INVALID_DISPATCH_IDENTITY'' in
      rbind (ref (principal_id c)) (\<lambda>p.
      rbind (ref (credential_id c)) (\<lambda>cr.
      rbind (ref (authentication_source c)) (\<lambda>au.
      rbind (ref (approved_plan_revision_id c)) (\<lambda>rv.
      rbind (ref (authorization_owner c)) (\<lambda>ow.
      rbind (ref (authorization_action c)) (\<lambda>ac.
      rbind (ref (authorization_resource c)) (\<lambda>rs.
      rbind (ref (agent_name c)) (\<lambda>an.
      if au \<notin> {''BROWSER_SESSION'', ''SERVICE_CREDENTIAL''} then Inl ''INVALID_DISPATCH_AUTHENTICATION_SOURCE''
      else if \<not> is_digest (approved_plan_digest c) \<or> \<not> is_digest (placement_digest c)
        then Inl ''INVALID_DISPATCH_DIGEST''
      else rbind (normalized_text ''INVALID_DISPATCH_INPUT'' (32 * 1024) (input_text c)) (\<lambda>tx.
      if timeout_seconds c < 1 \<or> 3600 < timeout_seconds c then Inl ''INVALID_DISPATCH_TIMEOUT''
      else Inr (c\<lparr>principal_id := p, credential_id := cr, authentication_source := au,
        approved_plan_revision_id := rv, authorization_owner := ow, authorization_action := ac,
        authorization_resource := rs, agent_name := an, input_text := tx\<rparr>)))))))))))"

record dispatch_claim =
  claim_command :: dispatch_command
  claim_generation :: int
  claim_token :: string
  claim_worker :: string
  claim_lease :: time

definition dispatch_claim_init :: "dispatch_claim \<Rightarrow> (contract_error, dispatch_claim) result" where
  "dispatch_claim_init c =
     rbind (reference ''INVALID_DISPATCH_CLAIM'' (claim_token c)) (\<lambda>t.
     rbind (reference ''INVALID_DISPATCH_CLAIM'' (claim_worker c)) (\<lambda>w.
     Inr (c\<lparr>claim_token := t, claim_worker := w\<rparr>)))"

record terminal_observation =
  obs_command_id :: string
  obs_kind :: terminal_kind
  obs_task_name :: string
  obs_task_uid :: "string option"
  obs_output :: "string option"
  obs_reason :: "string option"
  obs_at :: time

definition opt_init :: "('a \<Rightarrow> ('e, 'b) result) \<Rightarrow> 'a option \<Rightarrow> ('e, 'b option) result" where
  "opt_init f x = (case x of None \<Rightarrow> Inr None | Some a \<Rightarrow> rbind (f a) (\<lambda>b. Inr (Some b)))"

definition terminal_observation_init ::
  "terminal_observation \<Rightarrow> (contract_error, terminal_observation) result" where
  "terminal_observation_init ob =
     rbind (reference ''INVALID_TASK_CORRELATION'' (obs_task_name ob)) (\<lambda>n.
     rbind (opt_init (reference ''INVALID_TASK_CORRELATION'') (obs_task_uid ob)) (\<lambda>u.
     rbind (opt_init (normalized_text ''INVALID_TERMINAL_OBSERVATION'' (32 * 1024)) (obs_output ob)) (\<lambda>out.
     rbind (opt_init (normalized_text ''INVALID_TERMINAL_OBSERVATION'' (32 * 1024)) (obs_reason ob)) (\<lambda>r.
     if obs_kind ob = T_SUCCEEDED \<and> (out = None \<or> u = None) then Inl ''SUCCESS_OBSERVATION_INCOMPLETE''
     else if obs_kind ob \<noteq> T_SUCCEEDED \<and> r = None then Inl ''TERMINAL_REASON_REQUIRED''
     else Inr (ob\<lparr>obs_task_name := n, obs_task_uid := u, obs_output := out, obs_reason := r\<rparr>)))))"

subsection \<open>Identities\<close>

record assignment_identity =
  as_assignment_id :: string
  as_employee_id :: string

record workflow_run_identity =
  wr_id :: string
  wr_assignment_id :: string
  wr_plan_revision :: string
  wr_predecessor :: "string option"
  wr_correction_of :: "string option"

definition workflow_run_init ::
  "workflow_run_identity \<Rightarrow> (contract_error, workflow_run_identity) result" where
  "workflow_run_init w =
     rbind (reference ''INVALID_PLAN_REVISION'' (wr_plan_revision w)) (\<lambda>r.
     if wr_predecessor w = Some (wr_id w) \<or> wr_correction_of w = Some (wr_id w)
       then Inl ''WORKFLOW_RUN_CANNOT_SUCCEED_ITSELF''
     else if wr_correction_of w \<noteq> None \<and> wr_predecessor w \<noteq> wr_correction_of w
       then Inl ''CORRECTION_REQUIRES_PREDECESSOR_RUN''
     else Inr (w\<lparr>wr_plan_revision := r\<rparr>))"

record task_run_identity =
  tr_id :: string
  tr_workflow_run_id :: string

record attempt_identity =
  at_id :: string
  at_task_run_id :: string
  at_predecessor :: "string option"

definition attempt_init :: "attempt_identity \<Rightarrow> (contract_error, attempt_identity) result" where
  "attempt_init a = (if at_predecessor a = Some (at_id a) then Inl ''ATTEMPT_CANNOT_RETRY_ITSELF'' else Inr a)"

record execution_identity_aggregate =
  ag_scope :: scope_identity
  ag_assignment :: assignment_identity
  ag_workflow_run :: workflow_run_identity
  ag_task_run :: task_run_identity
  ag_attempt :: attempt_identity

definition aggregate_init ::
  "execution_identity_aggregate \<Rightarrow> (contract_error, execution_identity_aggregate) result" where
  "aggregate_init a =
     (if wr_assignment_id (ag_workflow_run a) \<noteq> as_assignment_id (ag_assignment a)
        then Inl ''WORKFLOW_ASSIGNMENT_MISMATCH''
      else if tr_workflow_run_id (ag_task_run a) \<noteq> wr_id (ag_workflow_run a) then Inl ''TASK_WORKFLOW_MISMATCH''
      else if at_task_run_id (ag_attempt a) \<noteq> tr_id (ag_task_run a) then Inl ''ATTEMPT_TASK_MISMATCH''
      else Inr a)"

definition retry_attempt :: "attempt_identity \<Rightarrow> string \<Rightarrow> (contract_error, attempt_identity) result" where
  "retry_attempt previous new_id =
     (if new_id = at_id previous then Inl ''RETRY_REQUIRES_NEW_ATTEMPT''
      else attempt_init \<lparr>at_id = new_id, at_task_run_id = at_task_run_id previous,
        at_predecessor = Some (at_id previous)\<rparr>)"

definition rerun_workflow ::
  "workflow_run_identity \<Rightarrow> string \<Rightarrow> (contract_error, workflow_run_identity) result" where
  "rerun_workflow previous new_id =
     workflow_run_init \<lparr>wr_id = new_id, wr_assignment_id = wr_assignment_id previous,
       wr_plan_revision = wr_plan_revision previous, wr_predecessor = Some (wr_id previous),
       wr_correction_of = None\<rparr>"

definition correct_workflow ::
  "workflow_run_identity \<Rightarrow> string \<Rightarrow> string \<Rightarrow> (contract_error, workflow_run_identity) result" where
  "correct_workflow previous new_id successor_revision =
     rbind (reference ''INVALID_PLAN_REVISION'' successor_revision) (\<lambda>r.
     if r = wr_plan_revision previous then Inl ''CORRECTION_REQUIRES_SUCCESSOR_PLAN_REVISION''
     else workflow_run_init \<lparr>wr_id = new_id, wr_assignment_id = wr_assignment_id previous,
       wr_plan_revision = r, wr_predecessor = Some (wr_id previous),
       wr_correction_of = Some (wr_id previous)\<rparr>)"

subsection \<open>Placement\<close>

datatype placement_kind = PLACED | REJECTED_PLACEMENT

record placement_request =
  pr_request_id :: string
  pr_scope :: scope_identity
  pr_workflow_run_id :: string
  pr_task_run_id :: string
  pr_attempt_id :: string
  pr_agent_instance_id :: string
  pr_agent_revision_id :: string
  pr_runtime_profile_revision_id :: string
  pr_capabilities :: "string list"
  pr_resources :: "string list"
  pr_isolation :: "string list"
  pr_state :: "string list"
  pr_requested_at :: time

definition placement_request_init :: "placement_request \<Rightarrow> (contract_error, placement_request) result" where
  "placement_request_init r =
     rbind (reference ''INVALID_REVISION'' (pr_agent_revision_id r)) (\<lambda>a.
     rbind (reference ''INVALID_REVISION'' (pr_runtime_profile_revision_id r)) (\<lambda>p.
     rbind (codes ''INVALID_REQUIREMENTS'' (pr_capabilities r)) (\<lambda>c.
     rbind (codes ''INVALID_REQUIREMENTS'' (pr_resources r)) (\<lambda>rs.
     rbind (codes ''INVALID_REQUIREMENTS'' (pr_isolation r)) (\<lambda>i.
     rbind (codes ''INVALID_REQUIREMENTS'' (pr_state r)) (\<lambda>s.
     Inr (r\<lparr>pr_agent_revision_id := a, pr_runtime_profile_revision_id := p, pr_capabilities := c,
       pr_resources := rs, pr_isolation := i, pr_state := s\<rparr>)))))))"

record placement_decision =
  pd_placement_id :: string
  pd_request_id :: string
  pd_decision :: placement_kind
  pd_runtime_instance_id :: "string option"
  pd_policy_version :: string
  pd_compatibility_facts :: "string list"
  pd_limitation_codes :: "string list"
  pd_decided_at :: time
  pd_digest :: string

text \<open>
  What \<open>int(s, 16)\<close> accepts: surrounding white space, a sign, a prefix \<open>0x\<close>, and single
  underscores between digits or after the prefix.
\<close>

definition is_hex_digit :: "char \<Rightarrow> bool" where
  "is_hex_digit c = (c \<in> set ''0123456789abcdefABCDEF'')"

fun hex_tail :: "string \<Rightarrow> bool" where
  "hex_tail [] = True"
| "hex_tail [c] = is_hex_digit c"
| "hex_tail (c # d # s) = (if c = CHR ''_'' then is_hex_digit d \<and> hex_tail s else is_hex_digit c \<and> hex_tail (d # s))"

definition hex_digits :: "string \<Rightarrow> bool" where
  "hex_digits s = (case s of [] \<Rightarrow> False | c # r \<Rightarrow> is_hex_digit c \<and> hex_tail r)"

definition drop_sign :: "string \<Rightarrow> string" where
  "drop_sign s = (case s of [] \<Rightarrow> [] | c # r \<Rightarrow> if c = CHR ''+'' \<or> c = CHR ''-'' then r else s)"

definition py_int16_ok :: "string \<Rightarrow> bool" where
  "py_int16_ok s = (let u = drop_sign (strip s) in
     if take 2 u = ''0x'' \<or> take 2 u = ''0X''
     then (let v = drop 2 u in hex_digits v \<or> (take 1 v = ''_'' \<and> hex_digits (drop 1 v)))
     else hex_digits u)"

text \<open>\<open>s == s.lower()\<close> on the code points up to 255.\<close>

definition is_lower_text :: "string \<Rightarrow> bool" where
  "is_lower_text s = list_all (\<lambda>c. let n = of_char c in
     \<not> (65 \<le> n \<and> n \<le> (90::nat)) \<and> \<not> (192 \<le> n \<and> n \<le> 222 \<and> n \<noteq> 215)) s"

definition placement_decision_init :: "placement_decision \<Rightarrow> (contract_error, placement_decision) result" where
  "placement_decision_init d =
     (if pd_decision d = PLACED \<and> pd_runtime_instance_id d = None then Inl ''PLACED_REQUIRES_RUNTIME_INSTANCE''
      else if pd_decision d \<noteq> PLACED \<and> pd_runtime_instance_id d \<noteq> None
        then Inl ''REJECTED_PROHIBITS_RUNTIME_INSTANCE''
      else rbind (reference ''INVALID_POLICY_VERSION'' (pd_policy_version d)) (\<lambda>v.
        rbind (codes ''INVALID_COMPATIBILITY_FACTS'' (pd_compatibility_facts d)) (\<lambda>f.
        rbind (codes ''INVALID_LIMITATION_CODES'' (pd_limitation_codes d)) (\<lambda>l.
        if length (pd_digest d) \<noteq> 64 \<or> \<not> py_int16_ok (pd_digest d) \<or> \<not> is_lower_text (pd_digest d)
          then Inl ''INVALID_DECISION_DIGEST''
        else Inr (d\<lparr>pd_policy_version := v, pd_compatibility_facts := f, pd_limitation_codes := l\<rparr>)))))"

text \<open>\<open>digest\<close> is \<open>canonical_digest\<close> of the decision without its digest field.\<close>

definition verify_digest :: "(placement_decision \<Rightarrow> string) \<Rightarrow> placement_decision \<Rightarrow> (contract_error, unit) result" where
  "verify_digest digest d =
     (if pd_digest d \<noteq> digest (d\<lparr>pd_digest := []\<rparr>) then Inl ''DECISION_DIGEST_MISMATCH'' else Inr ())"

definition placement_decision_create ::
  "(placement_decision \<Rightarrow> string) \<Rightarrow> placement_decision \<Rightarrow> (contract_error, placement_decision) result" where
  "placement_decision_create digest d =
     rbind (reference ''INVALID_POLICY_VERSION'' (pd_policy_version d)) (\<lambda>v.
     rbind (codes ''INVALID_COMPATIBILITY_FACTS'' (pd_compatibility_facts d)) (\<lambda>f.
     rbind (codes ''INVALID_LIMITATION_CODES'' (pd_limitation_codes d)) (\<lambda>l.
     let e = d\<lparr>pd_policy_version := v, pd_compatibility_facts := f, pd_limitation_codes := l, pd_digest := []\<rparr>
     in placement_decision_init (e\<lparr>pd_digest := digest e\<rparr>))))"

definition assert_request_replay ::
  "(placement_request \<Rightarrow> string) \<Rightarrow> placement_request \<Rightarrow> placement_request \<Rightarrow> (contract_error, unit) result" where
  "assert_request_replay bytes stored candidate =
     (if pr_request_id stored \<noteq> pr_request_id candidate then Inl ''PLACEMENT_REQUEST_ID_MISMATCH''
      else if bytes stored \<noteq> bytes candidate then Inl ''PLACEMENT_REQUEST_CONFLICT'' else Inr ())"

subsection \<open>Desired and observed runtime state\<close>

datatype desired_kind = D_RUNNING | D_STOPPED | D_CANCELLED | D_REPLACED | D_OBSERVE

datatype observed_kind = O_PENDING | O_RUNNING | O_STOPPED | O_TERMINATED | O_FAILED | O_UNKNOWN | O_STALE

datatype runtime_health = H_HEALTHY | H_DEGRADED | H_UNHEALTHY | H_UNKNOWN

datatype runtime_readiness = R_READY | R_NOT_READY | R_UNKNOWN

datatype command_result =
    C_REQUESTED | C_APPLIED | C_OBSERVED | C_REJECTED | C_UNKNOWN | C_STALE | C_RECOVERY_REQUIRED

definition AMBIGUOUS_COMMAND_RESULTS :: "command_result list" where
  "AMBIGUOUS_COMMAND_RESULTS = [C_UNKNOWN, C_STALE, C_RECOVERY_REQUIRED]"

definition may_reissue_command :: "command_result \<Rightarrow> bool" where
  "may_reissue_command r = (r \<in> {C_REQUESTED, C_REJECTED})"

record desired_state =
  ds_runtime_instance_id :: string
  ds_generation :: int
  ds_state :: desired_kind
  ds_command_id :: string
  ds_requested_by :: string
  ds_requested_at :: time
  ds_deadline :: time
  ds_reason :: string

definition desired_state_init :: "desired_state \<Rightarrow> (contract_error, desired_state) result" where
  "desired_state_init d =
     rbind (reference ''INVALID_REQUESTED_BY'' (ds_requested_by d)) (\<lambda>b.
     rbind (reference ''INVALID_REASON_CLASSIFICATION'' (ds_reason d)) (\<lambda>r.
     if ds_deadline d \<le> ds_requested_at d then Inl ''DEADLINE_MUST_FOLLOW_REQUEST''
     else Inr (d\<lparr>ds_requested_by := b, ds_reason := r\<rparr>)))"

record external_correlation =
  ec_system :: string
  ec_kind :: string
  ec_handle :: string

definition external_correlation_init ::
  "external_correlation \<Rightarrow> (contract_error, external_correlation) result" where
  "external_correlation_init e =
     rbind (reference ''INVALID_EXTERNAL_CORRELATION'' (ec_system e)) (\<lambda>s.
     rbind (reference ''INVALID_EXTERNAL_CORRELATION'' (ec_kind e)) (\<lambda>k.
     rbind (reference ''INVALID_EXTERNAL_CORRELATION'' (ec_handle e)) (\<lambda>h.
     Inr \<lparr>ec_system = s, ec_kind = k, ec_handle = h\<rparr>)))"

record runtime_observation =
  ro_observation_id :: string
  ro_runtime_instance_id :: string
  ro_generation :: int
  ro_state :: observed_kind
  ro_health :: runtime_health
  ro_readiness :: runtime_readiness
  ro_observed_at :: time
  ro_freshness_deadline :: time
  ro_provider_correlation :: "external_correlation option"
  ro_kubernetes_correlation :: "external_correlation option"
  ro_limitation_codes :: "string list"

definition runtime_observation_init ::
  "runtime_observation \<Rightarrow> (contract_error, runtime_observation) result" where
  "runtime_observation_init ob =
     (if ro_freshness_deadline ob \<le> ro_observed_at ob then Inl ''FRESHNESS_DEADLINE_MUST_FOLLOW_OBSERVATION''
      else rbind (codes ''INVALID_LIMITATION_CODES'' (ro_limitation_codes ob)) (\<lambda>l.
        Inr (ob\<lparr>ro_limitation_codes := l\<rparr>)))"

definition current_observed_state :: "runtime_observation option \<Rightarrow> time \<Rightarrow> observed_kind" where
  "current_observed_state ob at = (case ob of
     None \<Rightarrow> O_UNKNOWN
   | Some r \<Rightarrow> if ro_freshness_deadline r < at then O_STALE else ro_state r)"

definition assert_monotonic_generation :: "int \<Rightarrow> int \<Rightarrow> (contract_error, unit) result" where
  "assert_monotonic_generation previous successor =
     (if successor \<le> previous then Inl ''GENERATION_MUST_INCREASE'' else Inr ())"

subsection \<open>Normalization\<close>

lemma strip_eq_dropWhile: "strip s = rev (dropWhile py_space (rev (dropWhile py_space s)))"
  by (simp add: strip_def lstrip_def rstrip_def)

lemma strip_ends:
  assumes "strip s \<noteq> []"
  shows "\<not> py_space (hd (strip s))" and "\<not> py_space (last (strip s))"
proof -
  let ?l = "dropWhile py_space s"
  have l: "\<not> py_space (last (strip s))"
    using assms hd_dropWhile [of py_space "rev ?l"] by (simp add: strip_eq_dropWhile last_rev)
  then show "\<not> py_space (last (strip s))" .
  have "\<exists>t. ?l = strip s @ t"
    by (metis rev_append rev_rev_ident strip_eq_dropWhile takeWhile_dropWhile_id)
  then obtain t where t: "?l = strip s @ t" by blast
  then have "hd ?l = hd (strip s)" and "?l \<noteq> []" using assms by auto
  then show "\<not> py_space (hd (strip s))" using hd_dropWhile [of py_space s] by simp
qed

lemma strip_idem [simp]: "strip (strip s) = strip s"
proof (cases "strip s = []")
  case True
  have "strip [] = []" by (simp add: strip_def lstrip_def rstrip_def)
  then show ?thesis using True by simp
next
  case False
  have "dropWhile py_space (strip s) = strip s"
    using strip_ends(1) [OF False] False by (cases "strip s") auto
  moreover have "dropWhile py_space (rev (strip s)) = rev (strip s)"
    using strip_ends(2) [OF False] False
    by (cases "rev (strip s)") (auto simp: last_rev hd_rev [symmetric])
  ultimately show ?thesis by (simp add: strip_eq_dropWhile [of "strip s"])
qed

lemma normalized_text_idem:
  "normalized_text c m s = Inr t \<Longrightarrow> normalized_text c' m t = Inr t"
  by (auto simp: normalized_text_def Let_def split: if_splits)

lemma reference_idem: "reference c s = Inr t \<Longrightarrow> reference c' t = Inr t"
  unfolding reference_def by (rule normalized_text_idem)

lemma opt_init_idem:
  "(\<And>a b. f a = Inr b \<Longrightarrow> g b = Inr b) \<Longrightarrow> opt_init f x = Inr y \<Longrightarrow> opt_init g y = Inr y"
  by (cases x) (auto simp: opt_init_def)

lemma reference_all_idem: "reference_all c ss = Inr ts \<Longrightarrow> reference_all c' ts = Inr ts"
  by (induction ss arbitrary: ts) (auto simp: reference_idem)

lemma reference_all_sorted:
  "(\<forall>t \<in> set ts. reference c t = Inr t) \<Longrightarrow> reference_all c ts = Inr ts"
  by (induction ts) auto

lemma reference_all_fixed: "reference_all c ss = Inr ts \<Longrightarrow> \<forall>t \<in> set ts. reference c' t = Inr t"
  by (induction ss arbitrary: ts) (auto simp: reference_idem)

lemma reference_all_length: "reference_all c ss = Inr ts \<Longrightarrow> length ts = length ss"
  by (induction ss arbitrary: ts) auto

lemma codes_idem:
  assumes "codes c ss = Inr ts"
  shows "codes c' ts = Inr ts"
proof -
  from assms obtain ns where ns: "reference_all c ss = Inr ns" "distinct ns" "ts = sort ns"
    "length ss \<le> MAX_COLLECTION_ITEMS"
    by (auto simp: codes_def split: if_splits)
  have "reference_all c' ts = Inr ts"
    using reference_all_fixed [OF ns(1), of c'] ns(3) by (intro reference_all_sorted) auto
  moreover have "length ts \<le> MAX_COLLECTION_ITEMS" using ns reference_all_length by fastforce
  ultimately show ?thesis using ns by (simp add: codes_def sort_key_id_if_sorted)
qed

lemmas init_idem_rules = reference_idem normalized_text_idem codes_idem

lemma dispatch_command_init_idem:
  "dispatch_command_init c = Inr d \<Longrightarrow> dispatch_command_init d = Inr d"
  by (auto simp: dispatch_command_init_def Let_def reference_idem normalized_text_idem split: if_splits)

lemma dispatch_claim_init_idem: "dispatch_claim_init c = Inr d \<Longrightarrow> dispatch_claim_init d = Inr d"
  by (auto simp: dispatch_claim_init_def reference_idem)

lemma terminal_observation_init_idem:
  assumes "terminal_observation_init c = Inr d"
  shows "terminal_observation_init d = Inr d"
proof -
  from assms obtain n u out r where
    i: "reference ''INVALID_TASK_CORRELATION'' (obs_task_name c) = Inr n"
    "opt_init (reference ''INVALID_TASK_CORRELATION'') (obs_task_uid c) = Inr u"
    "opt_init (normalized_text ''INVALID_TERMINAL_OBSERVATION'' (32 * 1024)) (obs_output c) = Inr out"
    "opt_init (normalized_text ''INVALID_TERMINAL_OBSERVATION'' (32 * 1024)) (obs_reason c) = Inr r"
    and d: "d = c\<lparr>obs_task_name := n, obs_task_uid := u, obs_output := out, obs_reason := r\<rparr>"
    and k: "\<not> (obs_kind c = T_SUCCEEDED \<and> (out = None \<or> u = None))"
    "\<not> (obs_kind c \<noteq> T_SUCCEEDED \<and> r = None)"
    by (auto simp: terminal_observation_init_def split: if_splits)
  note f = reference_idem [OF i(1)] opt_init_idem [OF reference_idem i(2)]
    opt_init_idem [OF normalized_text_idem i(3)] opt_init_idem [OF normalized_text_idem i(4)]
  show ?thesis using f k d by (simp add: terminal_observation_init_def)
qed

lemma placement_request_init_idem:
  assumes "placement_request_init c = Inr d"
  shows "placement_request_init d = Inr d"
  using assms by (auto simp: placement_request_init_def init_idem_rules)

lemma runtime_observation_init_idem:
  "runtime_observation_init c = Inr d \<Longrightarrow> runtime_observation_init d = Inr d"
  by (auto simp: runtime_observation_init_def codes_idem split: if_splits)

subsection \<open>Canonical codes\<close>

lemma reference_all_map: "reference_all c ss = Inr ts \<Longrightarrow> ts = map strip ss"
  by (induction ss arbitrary: ts)
    (auto simp: reference_def normalized_text_def Let_def split: if_splits)

lemma reference_all_ok_iff:
  "is_ok (reference_all c ss) \<longleftrightarrow> (\<forall>s \<in> set ss. is_ok (reference c s))"
  by (induction ss) (auto simp: is_ok_iff rbind_Inr_iff)

lemma codes_iff:
  "codes c ss = Inr ts \<longleftrightarrow> length ss \<le> MAX_COLLECTION_ITEMS \<and> (\<forall>s \<in> set ss. is_ok (reference c s)) \<and>
     distinct (map strip ss) \<and> ts = sort (map strip ss)"
proof -
  have "reference_all c ss = Inr (map strip ss) \<longleftrightarrow> (\<forall>s \<in> set ss. is_ok (reference c s))"
    using reference_all_ok_iff [of c ss] reference_all_map [of c ss] by (auto simp: is_ok_iff)
  then show ?thesis
    using reference_all_map [of c ss] by (auto simp: codes_def split: if_splits)
qed

subsection \<open>Properties\<close>

definition example_observation :: terminal_observation where
  "example_observation = \<lparr>obs_command_id = ''c1'', obs_kind = T_FAILED, obs_task_name = ''native-1'',
     obs_task_uid = Some ''uid-1'', obs_output = None, obs_reason = Some '' boom '', obs_at = 5\<rparr>"

lemma codes_error: "codes c ss = Inl e \<Longrightarrow> e = c"
proof -
  have "reference_all c ss = Inl e \<Longrightarrow> e = c"
    by (induction ss) (auto simp: reference_def normalized_text_def Let_def rbind_def split: sum.splits if_splits)
  then show "codes c ss = Inl e \<Longrightarrow> e = c" by (auto simp: codes_def rbind_def split: if_splits sum.splits)
qed

lemma codes_order:
  assumes m: "mset ss' = mset ss"
  shows "codes c ss' = codes c ss"
proof -
  have l: "length ss' = length ss" and s: "set ss' = set ss" using m by (metis size_mset, metis set_mset_mset)
  have ms: "mset (map strip ss') = mset (map strip ss)" using m by simp
  then have so: "sort (map strip ss') = sort (map strip ss)" by (intro properties_for_sort) simp_all
  have d: "distinct (map strip ss') = distinct (map strip ss)" using ms by (rule mset_eq_imp_distinct_iff)
  have inr: "codes c ss' = Inr x \<longleftrightarrow> codes c ss = Inr x" for x unfolding codes_iff l s so d ..
  show ?thesis using inr by (cases "codes c ss"; cases "codes c ss'") (auto dest: codes_error)
qed

lemma utf8_length_pos: "1 \<le> utf8_length s \<longleftrightarrow> s \<noteq> []"
  by (cases s) (simp_all add: utf8_length_def)

lemma reference_ok: "is_ok (reference c s) \<longleftrightarrow> 1 \<le> utf8_length (strip s) \<and> utf8_length (strip s) \<le> 512"
  using utf8_length_pos [of "strip s"] by (auto simp: reference_def normalized_text_def Let_def MAX_VALUE_BYTES_def is_ok_iff)

text \<open>
  C36: \<open>_codes\<close> returns the one canonical form of a collection of requirement codes. It accepts at most 64 codes, each of 1 to 512
  bytes once the surrounding white space is gone, that are pairwise different then, and returns the stripped codes, sorted;
  everything else is the error of the field. So a placement request does not depend on the order in which its four
  collections of codes are given.
\<close>

theorem codes_canonical:
  "(codes c ss = Inr ts \<longleftrightarrow> length ss \<le> 64 \<and> (\<forall>s \<in> set ss. 1 \<le> utf8_length (strip s) \<and> utf8_length (strip s) \<le> 512) \<and>
      distinct (map strip ss) \<and> sorted ts \<and> distinct ts \<and> set ts = strip ` set ss) \<and>
   (codes c ss = Inl e \<longrightarrow> e = c) \<and>
   (mset (pr_capabilities r') = mset (pr_capabilities r) \<and> mset (pr_resources r') = mset (pr_resources r) \<and>
      mset (pr_isolation r') = mset (pr_isolation r) \<and> mset (pr_state r') = mset (pr_state r) \<and>
      r'\<lparr>pr_capabilities := [], pr_resources := [], pr_isolation := [], pr_state := []\<rparr> =
        r\<lparr>pr_capabilities := [], pr_resources := [], pr_isolation := [], pr_state := []\<rparr> \<longrightarrow>
    placement_request_init r' = placement_request_init r)"
proof (intro conjI impI)
  show "codes c ss = Inr ts \<longleftrightarrow> length ss \<le> 64 \<and> (\<forall>s \<in> set ss. 1 \<le> utf8_length (strip s) \<and> utf8_length (strip s) \<le> 512) \<and>
      distinct (map strip ss) \<and> sorted ts \<and> distinct ts \<and> set ts = strip ` set ss"
    using sorted_distinct_set_unique [of ts "sort (map strip ss)"] by (auto simp: codes_iff reference_ok MAX_COLLECTION_ITEMS_def)
next
  show "codes c ss = Inl e \<Longrightarrow> e = c" by (rule codes_error)
next
  assume *: "mset (pr_capabilities r') = mset (pr_capabilities r) \<and> mset (pr_resources r') = mset (pr_resources r) \<and>
      mset (pr_isolation r') = mset (pr_isolation r) \<and> mset (pr_state r') = mset (pr_state r) \<and>
      r'\<lparr>pr_capabilities := [], pr_resources := [], pr_isolation := [], pr_state := []\<rparr> =
        r\<lparr>pr_capabilities := [], pr_resources := [], pr_isolation := [], pr_state := []\<rparr>"
  have "codes d (pr_capabilities r') = codes d (pr_capabilities r)" "codes d (pr_resources r') = codes d (pr_resources r)"
    "codes d (pr_isolation r') = codes d (pr_isolation r)" "codes d (pr_state r') = codes d (pr_state r)" for d
    using * by (intro codes_order; simp)+
  then show "placement_request_init r' = placement_request_init r"
    using * by (cases r; cases r') (simp add: placement_request_init_def)
qed

definition example_request :: "string list \<Rightarrow> placement_request" where
  "example_request cs = \<lparr>pr_request_id = ''r'', pr_scope = \<lparr>namespace = ''n'', security_domain = ''d''\<rparr>, pr_workflow_run_id = ''w'',
     pr_task_run_id = ''t'', pr_attempt_id = ''a'', pr_agent_instance_id = ''i'', pr_agent_revision_id = ''v'',
     pr_runtime_profile_revision_id = ''p'', pr_capabilities = cs, pr_resources = [], pr_isolation = [], pr_state = [], pr_requested_at = 0\<rparr>"

theorem codes_canonical_witness:
  "codes ''E'' ['' b'', ''a''] = Inr [''a'', ''b''] \<and> codes ''E'' [''a'', ''a ''] = Inl ''E'' \<and>
   placement_request_init (example_request ['' b'', ''a'']) = placement_request_init (example_request [''a'', '' b''])"
proof (intro conjI)
  have s: "strip '' b'' = ''b''" "strip ''a'' = ''a''" "utf8_length ''b'' = 1" "utf8_length ''a'' = 1" by code_simp+
  have o': "sorted [''a'', ''b'']" "''a'' \<noteq> ''b''" by (code_simp, simp)
  then show "codes ''E'' ['' b'', ''a''] = Inr [''a'', ''b'']"
    using codes_canonical [of "''E''" "['' b'', ''a'']" "[''a'', ''b'']"] s by auto
  have "strip ''a '' = ''a''" by code_simp
  then have "codes ''E'' [''a'', ''a ''] \<noteq> Inr ts" for ts using codes_canonical [of "''E''" "[''a'', ''a '']" ts] s by auto
  then obtain e where "codes ''E'' [''a'', ''a ''] = Inl e" by (cases "codes ''E'' [''a'', ''a '']") auto
  then show "codes ''E'' [''a'', ''a ''] = Inl ''E''" using codes_canonical [of "''E''" "[''a'', ''a '']"] by blast
  show "placement_request_init (example_request ['' b'', ''a'']) = placement_request_init (example_request [''a'', '' b''])"
    using codes_canonical [of _ _ _ _ "example_request ['' b'', ''a'']" "example_request [''a'', '' b'']"] by (simp add: example_request_def)
qed

text \<open>
  A retry keeps the lineage: it fails exactly when the new attempt reuses the identity of the
  previous one; otherwise the new attempt belongs to the same task run, names the previous attempt
  as its predecessor, and replaces it in every valid execution identity without invalidating it.
\<close>

theorem retry_keeps_lineage:
  assumes "aggregate_init a = Inr a"
  shows "case retry_attempt (ag_attempt a) new_id of
     Inl e \<Rightarrow> new_id = at_id (ag_attempt a) \<and> e = ''RETRY_REQUIRES_NEW_ATTEMPT''
   | Inr b \<Rightarrow> new_id \<noteq> at_id (ag_attempt a) \<and> at_id b = new_id \<and>
       at_predecessor b = Some (at_id (ag_attempt a)) \<and> aggregate_init (a\<lparr>ag_attempt := b\<rparr>) = Inr (a\<lparr>ag_attempt := b\<rparr>)"
  using assms by (auto simp: retry_attempt_def attempt_init_def aggregate_init_def split: if_splits)

definition example_aggregate :: execution_identity_aggregate where
  "example_aggregate = \<lparr>ag_scope = \<lparr>namespace = ''n'', security_domain = ''d''\<rparr>,
     ag_assignment = \<lparr>as_assignment_id = ''as'', as_employee_id = ''e''\<rparr>,
     ag_workflow_run = \<lparr>wr_id = ''w'', wr_assignment_id = ''as'', wr_plan_revision = ''p'',
       wr_predecessor = None, wr_correction_of = None\<rparr>,
     ag_task_run = \<lparr>tr_id = ''t'', tr_workflow_run_id = ''w''\<rparr>,
     ag_attempt = \<lparr>at_id = ''a1'', at_task_run_id = ''t'', at_predecessor = None\<rparr>\<rparr>"

theorem retry_keeps_lineage_witness:
  "\<exists>b. retry_attempt (ag_attempt example_aggregate) ''a2'' = Inr b \<and> at_predecessor b = Some ''a1'' \<and>
     aggregate_init (example_aggregate\<lparr>ag_attempt := b\<rparr>) = Inr (example_aggregate\<lparr>ag_attempt := b\<rparr>)"
proof -
  have v: "aggregate_init example_aggregate = Inr example_aggregate" by code_simp
  have "retry_attempt (ag_attempt example_aggregate) ''a2''
      = Inr \<lparr>at_id = ''a2'', at_task_run_id = ''t'', at_predecessor = Some ''a1''\<rparr>" by code_simp
  then show ?thesis using retry_keeps_lineage [OF v, of "''a2''"] by auto
qed

end
