(* ===== verification/Dispatch_Repository.thy ===== *)
theory Dispatch_Repository
  imports Execution_Contract "HOL-Library.Product_Lexorder"
begin

text \<open>
  The native dispatch repository: the dispatch operations of
  \<open>console/backend/src/agent_console/execution_postgres.py\<close> and the completion writer of
  \<open>execution_application.py\<close>.

  The database is a record of tables, each an association list from the primary key to the
  columns the operations read or write; the column \<open>updated_at\<close>, which nothing reads, is left
  out. A transaction is a function from the database to an error code, which rolls it back, or
  to the new database and a reply; the unique constraints of migration 0022 that a statement can
  violate are checked by the statement. Rows that another transaction has locked, which
  \<open>SKIP LOCKED\<close> passes over, are an argument. Digests are the functions of the record \<open>hashes\<close>:
  SHA-256 over the canonical form. \<open>schema_ok\<close> is the conjunction of the CHECK constraints.

  The lemmas show that every operation keeps the constraints of the schema, exactly when an
  effect is permitted, that a claim that was taken over is fenced off, and that a terminal
  command is never changed again.
\<close>

subsection \<open>Tables\<close>

type_synonym key = "scope_identity \<times> string"

record decision_row =
  dr_request_id :: string
  dr_decision :: placement_kind
  dr_digest :: string
  dr_runtime_instance_id :: "string option"

record request_row =
  rq_attempt_id :: string
  rq_agent_instance_id :: string

record attempt_row =
  ar_task_run_id :: string
  ar_control_state :: string
  ar_version :: int

record workflow_run_row =
  wfr_assignment_id :: string
  wfr_plan_revision :: string
  wfr_plan :: "string \<times> int"

record plan_row =
  pl_digest :: string
  pl_status :: string

record dispatch_row =
  row_command :: dispatch_command
  row_command_digest :: string
  row_state :: dispatch_state
  row_generation :: int
  row_token :: "string option"
  row_worker :: "string option"
  row_lease :: "time option"
  row_task_name :: "string option"
  row_task_uid :: "string option"
  row_terminal_digest :: "string option"
  row_terminal :: "terminal_observation option"
  row_effect_at :: "time option"
  row_terminal_at :: "time option"

datatype fact_record =
    QueuedFact string
  | ClaimedFact int string time
  | EffectFact int string
  | CorrelatedFact string string
  | TerminalFact terminal_observation

datatype fact_kind = F_QUEUED | F_CLAIMED | F_EFFECT_STARTED | F_CORRELATED | F_TERMINAL terminal_kind

record dispatch_fact =
  fact_ordinal :: int
  fact_kind :: fact_kind
  fact_digest :: string
  fact_body :: fact_record

record database =
  decisions :: "(key, decision_row) dict"
  requests :: "(key, request_row) dict"
  runtimes :: "(key, int) dict"
  attempts :: "(key, attempt_row) dict"
  task_runs :: "(key, string) dict"
  workflow_runs :: "(key, workflow_run_row) dict"
  plans :: "(scope_identity \<times> string \<times> int, plan_row) dict"
  commands :: "(key, dispatch_row) dict"
  facts :: "(key, dispatch_fact list) dict"
  cutover :: "(string \<times> string) option"
  evidence :: "(string, string \<times> string) dict"
  outcomes :: "(key, string \<times> string) dict"

record hashes =
  command_hash :: "dispatch_command \<Rightarrow> string"
  observation_hash :: "terminal_observation \<Rightarrow> string"
  fact_hash :: "fact_record \<Rightarrow> string"

datatype disposition = APPENDED | REPLAYED

type_synonym dispatch_error = string
type_synonym 'a tx = "(dispatch_error, database \<times> 'a) result"

definition key_of :: "dispatch_command \<Rightarrow> key" where
  "key_of c = (scope c, command_id c)"

definition set_row :: "key \<Rightarrow> dispatch_row \<Rightarrow> database \<Rightarrow> database" where
  "set_row k r db = db\<lparr>commands := AList.update k r (commands db)\<rparr>"

subsection \<open>Facts\<close>

definition facts_of :: "database \<Rightarrow> key \<Rightarrow> dispatch_fact list" where
  "facts_of db k = (case map_of (facts db) k of None \<Rightarrow> [] | Some fs \<Rightarrow> fs)"

definition next_ordinal :: "dispatch_fact list \<Rightarrow> int" where
  "next_ordinal fs = foldr (\<lambda>f m. max (fact_ordinal f) m) fs 0 + 1"

definition dispatch_fact_insert ::
  "hashes \<Rightarrow> database \<Rightarrow> key \<Rightarrow> fact_kind \<Rightarrow> fact_record \<Rightarrow> (dispatch_error, database) result" where
  "dispatch_fact_insert h db k kind body =
     (let fs = facts_of db k in
      if list_ex (\<lambda>f. fact_kind f = kind \<and> fact_digest f = fact_hash h body) fs then Inl ''EXECUTION_CONFLICT''
      else Inr (db\<lparr>facts := AList.update k (fs @ [\<lparr>fact_ordinal = next_ordinal fs, fact_kind = kind,
        fact_digest = fact_hash h body, fact_body = body\<rparr>]) (facts db)\<rparr>))"

subsection \<open>The approved binding of a command\<close>

record binding =
  b_decision :: placement_kind
  b_placement_digest :: string
  b_runtime_instance_id :: "string option"
  b_generation :: int
  b_attempt_id :: string
  b_agent_instance_id :: string
  b_assignment_id :: string
  b_plan_revision :: string
  b_plan_digest :: string
  b_status :: string
  b_control_state :: string

definition obind :: "'a option \<Rightarrow> ('a \<Rightarrow> 'b option) \<Rightarrow> 'b option" where
  "obind x f = (case x of None \<Rightarrow> None | Some a \<Rightarrow> f a)"

text \<open>
  The join of both queries; they differ in the runtime instance and the attempt they join on:
  those of the decision and the request when a command is queued, those of the command row
  when its effect is permitted.
\<close>

definition binding_join ::
  "database \<Rightarrow> scope_identity \<Rightarrow> string \<Rightarrow> string option \<Rightarrow> string option \<Rightarrow> binding option" where
  "binding_join db s pid runtime attempt =
     obind (map_of (decisions db) (s, pid)) (\<lambda>d.
     obind (map_of (requests db) (s, dr_request_id d)) (\<lambda>q.
     obind (case runtime of None \<Rightarrow> dr_runtime_instance_id d | Some r \<Rightarrow> Some r) (\<lambda>rid.
     obind (map_of (runtimes db) (s, rid)) (\<lambda>gen.
     obind (map_of (attempts db) (s, case attempt of None \<Rightarrow> rq_attempt_id q | Some a \<Rightarrow> a)) (\<lambda>a.
     obind (map_of (task_runs db) (s, ar_task_run_id a)) (\<lambda>wid.
     obind (map_of (workflow_runs db) (s, wid)) (\<lambda>w.
     obind (map_of (plans db) (s, wfr_plan w)) (\<lambda>p.
     Some \<lparr>b_decision = dr_decision d, b_placement_digest = dr_digest d,
       b_runtime_instance_id = dr_runtime_instance_id d, b_generation = gen,
       b_attempt_id = rq_attempt_id q, b_agent_instance_id = rq_agent_instance_id q,
       b_assignment_id = wfr_assignment_id w, b_plan_revision = wfr_plan_revision w,
       b_plan_digest = pl_digest p, b_status = pl_status p, b_control_state = ar_control_state a\<rparr>))))))))"

definition expected_binding :: "dispatch_command \<Rightarrow> binding" where
  "expected_binding c =
     \<lparr>b_decision = PLACED, b_placement_digest = placement_digest c,
      b_runtime_instance_id = Some (runtime_instance_id c), b_generation = runtime_generation c,
      b_attempt_id = attempt_id c, b_agent_instance_id = agent_instance_id c,
      b_assignment_id = assignment_id c, b_plan_revision = approved_plan_revision_id c,
      b_plan_digest = approved_plan_digest c, b_status = ''APPROVED'', b_control_state = ''PENDING''\<rparr>"

subsection \<open>Queueing\<close>

definition queued_row :: "hashes \<Rightarrow> dispatch_command \<Rightarrow> dispatch_row" where
  "queued_row h c =
     \<lparr>row_command = c, row_command_digest = command_hash h c, row_state = QUEUED, row_generation = 0,
      row_token = None, row_worker = None, row_lease = None, row_task_name = None, row_task_uid = None,
      row_terminal_digest = None, row_terminal = None, row_effect_at = None, row_terminal_at = None\<rparr>"

definition enqueue :: "hashes \<Rightarrow> database \<Rightarrow> dispatch_command \<Rightarrow> disposition tx" where
  "enqueue h db c =
     (if binding_join db (scope c) (placement_id c) None None \<noteq> Some (expected_binding c)
        then Inl ''NATIVE_DISPATCH_BINDING_MISMATCH''
      else case map_of (commands db) (key_of c) of
        Some r \<Rightarrow> if row_command_digest r \<noteq> command_hash h c then Inl ''NATIVE_DISPATCH_COMMAND_CONFLICT''
          else Inr (db, REPLAYED)
      | None \<Rightarrow>
          if list_ex (\<lambda>(k, r). fst k = scope c \<and> attempt_id (row_command r) = attempt_id c) (commands db)
          then Inl ''EXECUTION_CONFLICT''
          else rbind (dispatch_fact_insert h (set_row (key_of c) (queued_row h c) db) (key_of c)
              F_QUEUED (QueuedFact (command_hash h c)))
            (\<lambda>db'. Inr (db', APPENDED)))"

definition get_dispatch :: "database \<Rightarrow> key \<Rightarrow> dispatch_command option" where
  "get_dispatch db k = map_option row_command (map_of (commands db) k)"

definition dispatch_status :: "database \<Rightarrow> key \<Rightarrow> dispatch_row option" where
  "dispatch_status db k = map_of (commands db) k"

subsection \<open>Claims\<close>

definition claimable :: "time \<Rightarrow> dispatch_row \<Rightarrow> bool" where
  "claimable now r = (row_state r = QUEUED \<or>
     (row_state r = CLAIMED \<and> (case row_lease r of None \<Rightarrow> False | Some l \<Rightarrow> l \<le> now)))"

definition first_unlocked ::
  "key set \<Rightarrow> (dispatch_row \<Rightarrow> bool) \<Rightarrow> (dispatch_row \<Rightarrow> time) \<Rightarrow> database \<Rightarrow> (key \<times> dispatch_row) option" where
  "first_unlocked locked p t db =
     (case sort_key (\<lambda>(k, r). (t r, snd k)) (filter (\<lambda>(k, r). k \<notin> locked \<and> p r) (commands db)) of
        [] \<Rightarrow> None | x # _ \<Rightarrow> Some x)"

text \<open>One second in microseconds.\<close>

definition second :: time where
  "second = 1000000"

definition claim_next ::
  "hashes \<Rightarrow> database \<Rightarrow> string \<Rightarrow> string \<Rightarrow> time \<Rightarrow> int \<Rightarrow> key set \<Rightarrow> dispatch_claim option tx" where
  "claim_next h db worker token now lease_seconds locked =
     (if worker = [] \<or> lease_seconds < 1 \<or> 300 < lease_seconds then Inl ''NATIVE_DISPATCH_CLAIM_INVALID''
      else case first_unlocked locked (claimable now) (\<lambda>r. queued_at (row_command r)) db of
        None \<Rightarrow> Inr (db, None)
      | Some (k, r) \<Rightarrow>
          (let lease = now + lease_seconds * second;
               r' = r\<lparr>row_state := CLAIMED, row_generation := row_generation r + 1, row_token := Some token,
                 row_worker := Some worker, row_lease := Some lease\<rparr> in
           rbind (dispatch_command_init (row_command r)) (\<lambda>c.
           rbind (generation (row_generation r + 1)) (\<lambda>g.
           rbind (dispatch_claim_init \<lparr>claim_command = c, claim_generation = g, claim_token = token,
               claim_worker = worker, claim_lease = lease\<rparr>) (\<lambda>cl.
           rbind (dispatch_fact_insert h (set_row k r' db) k F_CLAIMED (ClaimedFact g worker lease))
             (\<lambda>db'. Inr (db', Some cl)))))))"

definition resume_effect_started ::
  "database \<Rightarrow> string \<Rightarrow> key set \<Rightarrow> (dispatch_error, dispatch_claim option) result" where
  "resume_effect_started db worker locked =
     (if worker = [] then Inl ''NATIVE_DISPATCH_CLAIM_INVALID''
      else case first_unlocked locked (\<lambda>r. row_state r = EFFECT_STARTED \<and> row_worker r = Some worker)
          (\<lambda>r. the (row_effect_at r)) db of
        None \<Rightarrow> Inr None
      | Some (k, r) \<Rightarrow>
          rbind (dispatch_command_init (row_command r)) (\<lambda>c.
          rbind (generation (row_generation r)) (\<lambda>g.
          rbind (dispatch_claim_init \<lparr>claim_command = c, claim_generation = g, claim_token = the (row_token r),
              claim_worker = the (row_worker r), claim_lease = the (row_effect_at r)\<rparr>)
            (\<lambda>cl. Inr (Some cl)))))"

definition locked_claim :: "database \<Rightarrow> dispatch_claim \<Rightarrow> (dispatch_error, dispatch_row) result" where
  "locked_claim db cl =
     (case map_of (commands db) (key_of (claim_command cl)) of
        None \<Rightarrow> Inl ''NATIVE_DISPATCH_CLAIM_STALE''
      | Some r \<Rightarrow> if row_generation r \<noteq> claim_generation cl \<or> row_token r \<noteq> Some (claim_token cl) \<or>
            row_worker r \<noteq> Some (claim_worker cl) then Inl ''NATIVE_DISPATCH_CLAIM_STALE'' else Inr r)"

subsection \<open>The effect\<close>

definition set_attempt :: "key \<Rightarrow> string \<Rightarrow> database \<Rightarrow> database" where
  "set_attempt k st db = (case map_of (attempts db) k of
     None \<Rightarrow> db
   | Some a \<Rightarrow> db\<lparr>attempts := AList.update k (a\<lparr>ar_control_state := st, ar_version := ar_version a + 1\<rparr>) (attempts db)\<rparr>)"

definition task_name_taken :: "database \<Rightarrow> key \<Rightarrow> string \<Rightarrow> bool" where
  "task_name_taken db k n =
     list_ex (\<lambda>(k', r). k' \<noteq> k \<and> fst k' = fst k \<and> row_task_name r = Some n) (commands db)"

definition permit_effect ::
  "hashes \<Rightarrow> (database \<Rightarrow> dispatch_command \<Rightarrow> bool) \<Rightarrow> database \<Rightarrow> dispatch_claim \<Rightarrow> string \<Rightarrow> time
   \<Rightarrow> disposition tx" where
  "permit_effect h authorization_check db cl task_name now =
     (let c = claim_command cl; k = key_of c in
      rbind (locked_claim db cl) (\<lambda>r.
      if row_state r = EFFECT_STARTED then
        (if row_task_name r \<noteq> Some task_name then Inl ''NATIVE_DISPATCH_EFFECT_CONFLICT'' else Inr (db, REPLAYED))
      else if row_state r \<noteq> CLAIMED \<or> (case row_lease r of None \<Rightarrow> True | Some l \<Rightarrow> l \<le> now)
        then Inl ''NATIVE_DISPATCH_CLAIM_STALE''
      else if binding_join db (scope c) (placement_id (row_command r)) (Some (runtime_instance_id (row_command r)))
            (Some (attempt_id (row_command r))) \<noteq> Some (expected_binding c) \<or> \<not> authorization_check db c
        then Inl ''NATIVE_DISPATCH_EFFECT_NOT_AUTHORIZED''
      else if task_name_taken db k task_name then Inl ''EXECUTION_CONFLICT''
      else rbind (dispatch_fact_insert h
          (set_attempt (scope c, attempt_id c) ''RUNNING''
            (set_row k (r\<lparr>row_state := EFFECT_STARTED, row_lease := None, row_task_name := Some task_name,
               row_effect_at := Some now\<rparr>) db))
          k F_EFFECT_STARTED (EffectFact (claim_generation cl) task_name))
        (\<lambda>db'. Inr (db', APPENDED))))"

definition record_kubernetes_correlation ::
  "hashes \<Rightarrow> database \<Rightarrow> dispatch_claim \<Rightarrow> string \<Rightarrow> string \<Rightarrow> disposition tx" where
  "record_kubernetes_correlation h db cl task_name task_uid =
     (if task_name = [] \<or> task_uid = [] then Inl ''NATIVE_DISPATCH_CORRELATION_CONFLICT''
      else rbind (locked_claim db cl) (\<lambda>r.
      if row_state r \<noteq> EFFECT_STARTED then Inl ''NATIVE_DISPATCH_EFFECT_NOT_STARTED''
      else if row_task_name r \<noteq> Some task_name then Inl ''NATIVE_DISPATCH_CORRELATION_CONFLICT''
      else case row_task_uid r of
        Some u \<Rightarrow> if u \<noteq> task_uid then Inl ''NATIVE_DISPATCH_CORRELATION_CONFLICT'' else Inr (db, REPLAYED)
      | None \<Rightarrow> rbind (dispatch_fact_insert h
            (set_row (key_of (claim_command cl)) (r\<lparr>row_task_uid := Some task_uid\<rparr>) db)
            (key_of (claim_command cl)) F_CORRELATED (CorrelatedFact task_name task_uid))
          (\<lambda>db'. Inr (db', APPENDED))))"

definition kind_text :: "terminal_kind \<Rightarrow> string" where
  "kind_text k = (case k of T_SUCCEEDED \<Rightarrow> ''SUCCEEDED'' | T_FAILED \<Rightarrow> ''FAILED''
     | T_UNKNOWN \<Rightarrow> ''UNKNOWN'' | T_RECOVERY_REQUIRED \<Rightarrow> ''RECOVERY_REQUIRED'')"

definition terminal_row :: "hashes \<Rightarrow> terminal_observation \<Rightarrow> dispatch_row \<Rightarrow> dispatch_row" where
  "terminal_row h ob r = r\<lparr>row_state := kind_state (obs_kind ob),
     row_terminal_digest := Some (observation_hash h ob), row_terminal := Some ob, row_terminal_at := Some (obs_at ob)\<rparr>"

definition record_uncertain ::
  "hashes \<Rightarrow> database \<Rightarrow> dispatch_claim \<Rightarrow> terminal_observation \<Rightarrow> disposition tx" where
  "record_uncertain h db cl ob =
     (let c = claim_command cl in
      if obs_kind ob \<notin> {T_UNKNOWN, T_RECOVERY_REQUIRED} then Inl ''NATIVE_DISPATCH_UNCERTAIN_STATE_REQUIRED''
      else if obs_command_id ob \<noteq> command_id c then Inl ''NATIVE_DISPATCH_CORRELATION_CONFLICT''
      else rbind (locked_claim db cl) (\<lambda>r.
      if row_task_name r \<noteq> Some (obs_task_name ob) then Inl ''NATIVE_DISPATCH_CORRELATION_CONFLICT''
      else case row_terminal_digest r of
        Some d \<Rightarrow> if d \<noteq> observation_hash h ob then Inl ''NATIVE_DISPATCH_TERMINAL_CONFLICT'' else Inr (db, REPLAYED)
      | None \<Rightarrow>
          if row_state r \<noteq> EFFECT_STARTED then Inl ''NATIVE_DISPATCH_EFFECT_NOT_STARTED''
          else if row_task_uid r \<noteq> None \<and> obs_task_uid ob \<noteq> row_task_uid r
            then Inl ''NATIVE_DISPATCH_CORRELATION_CONFLICT''
          else rbind (dispatch_fact_insert h
              (set_attempt (scope c, attempt_id c) (kind_text (obs_kind ob))
                (set_row (key_of c) (terminal_row h ob r) db))
              (key_of c) (F_TERMINAL (obs_kind ob)) (TerminalFact ob))
            (\<lambda>db'. Inr (db', APPENDED))))"

subsection \<open>Completion\<close>

record evidence_item =
  ev_id :: string
  ev_digest :: string
  ev_bytes :: string

definition append_evidence ::
  "database \<Rightarrow> evidence_item \<Rightarrow> (dispatch_error, database \<times> bool) result" where
  "append_evidence db item =
     (case map_of (evidence db) (ev_id item) of
        None \<Rightarrow> Inr (db\<lparr>evidence := evidence db @ [(ev_id item, (ev_digest item, ev_bytes item))]\<rparr>, True)
      | Some (d, b) \<Rightarrow> if d \<noteq> ev_digest item \<or> b \<noteq> ev_bytes item then Inl ''EVIDENCE_DIGEST_CONFLICT''
          else Inr (db, False))"

fun append_all_evidence ::
  "database \<Rightarrow> evidence_item list \<Rightarrow> bool \<Rightarrow> (dispatch_error, database \<times> bool) result" where
  "append_all_evidence db [] replayed = Inr (db, replayed)"
| "append_all_evidence db (i # is) replayed =
     rbind (append_evidence db i) (\<lambda>(db', fresh). append_all_evidence db' is (if fresh then False else replayed))"

definition append_outcome ::
  "database \<Rightarrow> key \<Rightarrow> string \<Rightarrow> string \<Rightarrow> bool \<Rightarrow> (dispatch_error, database \<times> bool) result" where
  "append_outcome db k workflow_run_id digest replayed =
     (case map_of (outcomes db) k of
        None \<Rightarrow> Inr (db\<lparr>outcomes := outcomes db @ [(k, (digest, workflow_run_id))]\<rparr>, False)
      | Some (d, w) \<Rightarrow> if d \<noteq> digest \<or> w \<noteq> workflow_run_id then Inl ''OUTCOME_CONFLICT'' else Inr (db, replayed))"

definition terminal_fact :: "hashes \<Rightarrow> database \<Rightarrow> key \<Rightarrow> terminal_observation \<Rightarrow> database" where
  "terminal_fact h db k ob =
     (case dispatch_fact_insert h db k (F_TERMINAL (obs_kind ob)) (TerminalFact ob) of Inl _ \<Rightarrow> db | Inr db' \<Rightarrow> db')"

definition mark_terminal ::
  "hashes \<Rightarrow> database \<Rightarrow> dispatch_claim \<Rightarrow> terminal_observation \<Rightarrow> (dispatch_error, database \<times> bool) result" where
  "mark_terminal h db cl ob =
     (let c = claim_command cl in
      case map_of (commands db) (key_of c) of
        None \<Rightarrow> Inl ''NATIVE_DISPATCH_CLAIM_STALE''
      | Some r \<Rightarrow>
          if row_generation r \<noteq> claim_generation cl \<or> row_token r \<noteq> Some (claim_token cl) \<or>
             row_worker r \<noteq> Some (claim_worker cl) \<or> row_task_name r \<noteq> Some (obs_task_name ob) \<or>
             row_task_uid r \<noteq> obs_task_uid ob then Inl ''NATIVE_DISPATCH_CLAIM_STALE''
          else case row_terminal_digest r of
            Some d \<Rightarrow> if d \<noteq> observation_hash h ob then Inl ''NATIVE_DISPATCH_TERMINAL_CONFLICT'' else Inr (db, True)
          | None \<Rightarrow>
              if row_state r \<noteq> EFFECT_STARTED then Inl ''NATIVE_DISPATCH_EFFECT_NOT_STARTED''
              else Inr (set_attempt (scope c, attempt_id c) (kind_text (obs_kind ob))
                (set_row (key_of c) (terminal_row h ob r) db), False))"

definition append_native_completion ::
  "hashes \<Rightarrow> database \<Rightarrow> dispatch_claim \<Rightarrow> terminal_observation \<Rightarrow> evidence_item list \<Rightarrow> string \<Rightarrow> string
   \<Rightarrow> string \<Rightarrow> disposition tx" where
  "append_native_completion h db cl ob items outcome_id workflow_run_id outcome_digest =
     rbind (mark_terminal h db cl ob) (\<lambda>(db1, rep1).
     if cutover db1 \<noteq> Some (''POSTGRES_ACTIVE'', ''POSTGRES'') then Inl ''POSTGRES_EVIDENCE_WRITER_NOT_ACTIVE''
     else rbind (append_all_evidence db1 items rep1) (\<lambda>(db2, rep2).
     rbind (append_outcome db2 (scope (claim_command cl), outcome_id) workflow_run_id outcome_digest rep2)
       (\<lambda>(db3, rep3). Inr (terminal_fact h db3 (key_of (claim_command cl)) ob, if rep3 then REPLAYED else APPENDED))))"

subsection \<open>Constraints of the schema\<close>

definition effect_state :: "dispatch_state \<Rightarrow> bool" where
  "effect_state s = (s \<notin> {QUEUED, CLAIMED})"

definition terminal_state :: "dispatch_state \<Rightarrow> bool" where
  "terminal_state s = (s \<notin> {QUEUED, CLAIMED, EFFECT_STARTED})"

definition row_ok :: "dispatch_row \<Rightarrow> bool" where
  "row_ok r \<longleftrightarrow>
     (row_state r = QUEUED \<and> row_generation r = 0 \<and> row_token r = None \<and> row_worker r = None \<and> row_lease r = None \<or>
      row_state r = CLAIMED \<and> 0 < row_generation r \<and> row_token r \<noteq> None \<and> row_worker r \<noteq> None \<and> row_lease r \<noteq> None \<or>
      effect_state (row_state r) \<and> 0 < row_generation r \<and> row_token r \<noteq> None \<and> row_worker r \<noteq> None \<and> row_lease r = None) \<and>
     (effect_state (row_state r) \<longleftrightarrow> row_effect_at r \<noteq> None) \<and>
     (terminal_state (row_state r) \<longleftrightarrow>
        row_terminal_digest r \<noteq> None \<and> row_terminal r \<noteq> None \<and> row_terminal_at r \<noteq> None) \<and>
     (effect_state (row_state r) \<longrightarrow> row_task_name r \<noteq> None)"

text \<open>
  The constraints together with what the operations keep beside them: the key of a row is
  unique and is that of its command, and a terminal digest is present only with a terminal state.
\<close>

definition schema_ok :: "database \<Rightarrow> bool" where
  "schema_ok db \<longleftrightarrow> distinct (map fst (commands db)) \<and> (\<forall>k r. map_of (commands db) k = Some r \<longrightarrow> row_ok r \<and> key_of (row_command r) = k \<and>
     (row_terminal_digest r \<noteq> None \<longrightarrow> terminal_state (row_state r)))"

lemma commands_fact_insert:
  "dispatch_fact_insert h db k kind body = Inr db' \<Longrightarrow>
   commands db' = commands db \<and> attempts db' = attempts db \<and>
   facts_of db' k' = (if k' = k then facts_of db k @ [\<lparr>fact_ordinal = next_ordinal (facts_of db k),
     fact_kind = kind, fact_digest = fact_hash h body, fact_body = body\<rparr>] else facts_of db k')"
  by (auto simp: dispatch_fact_insert_def Let_def facts_of_def split: if_splits)

lemma commands_set_attempt [simp]:
  "commands (set_attempt k s db) = commands db" "facts (set_attempt k s db) = facts db"
  by (simp_all add: set_attempt_def split: option.split)

lemma commands_set_row [simp]:
  "commands (set_row k r db) = AList.update k r (commands db)" "facts (set_row k r db) = facts db"
  by (simp_all add: set_row_def)

lemma locked_claim_iff:
  "locked_claim db cl = Inr r \<longleftrightarrow> map_of (commands db) (key_of (claim_command cl)) = Some r \<and>
     row_generation r = claim_generation cl \<and> row_token r = Some (claim_token cl) \<and>
     row_worker r = Some (claim_worker cl)"
  by (auto simp: locked_claim_def split: option.splits if_splits)

lemma first_unlocked_member:
  assumes "first_unlocked locked p t db = Some (k, r)"
  shows "(k, r) \<in> set (commands db)" and "p r" and "k \<notin> locked"
proof -
  obtain xs where "sort_key (\<lambda>(k, r). (t r, snd k)) (filter (\<lambda>(k, r). k \<notin> locked \<and> p r) (commands db)) = (k, r) # xs"
    using assms unfolding first_unlocked_def by (auto split: list.splits simp del: set_sort set_filter)
  then have "(k, r) \<in> set (sort_key (\<lambda>(k, r). (t r, snd k)) (filter (\<lambda>(k, r). k \<notin> locked \<and> p r) (commands db)))"
    by (simp del: set_sort)
  then show "(k, r) \<in> set (commands db)" and "p r" and "k \<notin> locked" by auto
qed


lemma schema_set_row:
  assumes "schema_ok db" and "commands db' = AList.update k r (commands db)" and "row_ok r"
    and "key_of (row_command r) = k" and "row_terminal_digest r \<noteq> None \<Longrightarrow> terminal_state (row_state r)"
  shows "schema_ok db'"
  using assms by (auto simp: schema_ok_def distinct_update)

lemma schema_same: "schema_ok db \<Longrightarrow> commands db' = commands db \<Longrightarrow> schema_ok db'"
  by (simp add: schema_ok_def)

lemma schema_row:
  "schema_ok db \<Longrightarrow> map_of (commands db) k = Some r \<Longrightarrow> row_ok r \<and> key_of (row_command r) = k"
  unfolding schema_ok_def by blast

lemma schema_digest:
  "schema_ok db \<Longrightarrow> map_of (commands db) k = Some r \<Longrightarrow> row_terminal_digest r \<noteq> None \<Longrightarrow> terminal_state (row_state r)"
  unfolding schema_ok_def by blast

lemma schema_member:
  "schema_ok db \<Longrightarrow> (k, r) \<in> set (commands db) \<Longrightarrow> map_of (commands db) k = Some r"
  by (simp add: schema_ok_def map_of_is_SomeI)

lemmas row_ok_defs = row_ok_def effect_state_def terminal_state_def

subsection \<open>What each operation does to the command table\<close>

text \<open>Every successful operation leaves the table alone or moves one row along an edge below.\<close>

definition claim_edge :: "dispatch_row \<Rightarrow> dispatch_row \<Rightarrow> bool" where
  "claim_edge r r' \<longleftrightarrow> row_state r \<in> {QUEUED, CLAIMED} \<and> row_state r' = CLAIMED \<and>
     row_generation r' = row_generation r + 1 \<and> row_command r' = row_command r"

definition effect_edge :: "dispatch_row \<Rightarrow> dispatch_row \<Rightarrow> bool" where
  "effect_edge r r' \<longleftrightarrow> row_state r = CLAIMED \<and> row_state r' = EFFECT_STARTED \<and>
     row_generation r' = row_generation r \<and> row_token r' = row_token r \<and> row_worker r' = row_worker r \<and>
     row_command r' = row_command r"

definition same_state_edge :: "dispatch_row \<Rightarrow> dispatch_row \<Rightarrow> bool" where
  "same_state_edge r r' \<longleftrightarrow> row_state r = EFFECT_STARTED \<and> row_task_uid r = None \<and>
     (\<exists>u. r' = r\<lparr>row_task_uid := Some u\<rparr>)"

definition terminal_edge :: "dispatch_row \<Rightarrow> dispatch_row \<Rightarrow> bool" where
  "terminal_edge r r' \<longleftrightarrow> row_state r = EFFECT_STARTED \<and> row_terminal_digest r = None \<and>
     (\<exists>h ob. r' = terminal_row h ob r)"

lemma claim_next_cases:
  assumes s: "schema_ok db" and c: "claim_next h db worker token now ls locked = Inr (db', x)"
  shows "x = None \<and> db' = db \<or>
    (\<exists>cl k r. x = Some cl \<and> map_of (commands db) k = Some r \<and> claimable now r \<and> k \<notin> locked \<and>
       key_of (claim_command cl) = k \<and> claim_generation cl = row_generation r + 1 \<and>
       claim_token cl = strip token \<and> claim_worker cl = strip worker \<and>
       commands db' = AList.update k (r\<lparr>row_state := CLAIMED, row_generation := row_generation r + 1,
         row_token := Some token, row_worker := Some worker, row_lease := Some (now + ls * second)\<rparr>) (commands db))"
proof (cases "first_unlocked locked (claimable now) (\<lambda>r. queued_at (row_command r)) db")
  case None
  then show ?thesis using c by (auto simp: claim_next_def split: if_splits)
next
  case (Some kr)
  obtain k r where kr: "kr = (k, r)" by (cases kr)
  have m: "map_of (commands db) k = Some r" and p: "claimable now r" and l: "k \<notin> locked"
    using first_unlocked_member Some kr schema_member [OF s] by blast+
  let ?r = "r\<lparr>row_state := CLAIMED, row_generation := row_generation r + 1, row_token := Some token,
    row_worker := Some worker, row_lease := Some (now + ls * second)\<rparr>"
  obtain cmd g cl where
    i: "dispatch_command_init (row_command r) = Inr cmd" "generation (row_generation r + 1) = Inr g"
      "dispatch_claim_init \<lparr>claim_command = cmd, claim_generation = g, claim_token = token,
        claim_worker = worker, claim_lease = now + ls * second\<rparr> = Inr cl"
      "dispatch_fact_insert h (set_row k ?r db) k F_CLAIMED (ClaimedFact g worker (now + ls * second)) = Inr db'"
    and x: "x = Some cl"
    using c Some kr by (auto simp: claim_next_def Let_def split: if_splits)
  have g: "g = row_generation r + 1" using i(2) by (auto simp: generation_def split: if_splits)
  have cmd: "key_of cmd = key_of (row_command r)"
    using i(1) by (auto simp: dispatch_command_init_def key_of_def Let_def split: if_splits)
  have cl: "claim_command cl = cmd" "claim_generation cl = g" "claim_token cl = strip token"
    "claim_worker cl = strip worker"
    using i(3) by (auto simp: dispatch_claim_init_def reference_def normalized_text_def Let_def split: if_splits)
  have "key_of (row_command r) = k" using schema_row [OF s m] by simp
  then have "key_of (claim_command cl) = k" using cl cmd by simp
  moreover have "commands db' = AList.update k ?r (commands db)"
    using commands_fact_insert [OF i(4)] by simp
  ultimately show ?thesis using m p l x cl g by blast
qed

definition effect_row :: "string \<Rightarrow> time \<Rightarrow> dispatch_row \<Rightarrow> dispatch_row" where
  "effect_row n now r = r\<lparr>row_state := EFFECT_STARTED, row_lease := None, row_task_name := Some n,
     row_effect_at := Some now\<rparr>"

text \<open>The guards that a first permission has passed, as the code evaluates them.\<close>

definition effect_permitted ::
  "(database \<Rightarrow> dispatch_command \<Rightarrow> bool) \<Rightarrow> database \<Rightarrow> dispatch_claim \<Rightarrow> string \<Rightarrow> time \<Rightarrow> dispatch_row \<Rightarrow> bool" where
  "effect_permitted auth db cl n now r \<longleftrightarrow> locked_claim db cl = Inr r \<and> row_state r = CLAIMED \<and>
     (\<exists>l. row_lease r = Some l \<and> now < l) \<and>
     binding_join db (scope (claim_command cl)) (placement_id (row_command r)) (Some (runtime_instance_id (row_command r)))
       (Some (attempt_id (row_command r))) = Some (expected_binding (claim_command cl)) \<and>
     auth db (claim_command cl) \<and> \<not> task_name_taken db (key_of (claim_command cl)) n"

lemma permit_effect_cases:
  assumes "permit_effect h auth db cl n now = Inr (db', d)"
  shows "d = REPLAYED \<and> db' = db \<and> (\<exists>r. locked_claim db cl = Inr r \<and> row_state r = EFFECT_STARTED \<and> row_task_name r = Some n) \<or>
    d = APPENDED \<and> (\<exists>r. effect_permitted auth db cl n now r \<and>
      commands db' = AList.update (key_of (claim_command cl)) (effect_row n now r) (commands db) \<and>
      (\<forall>k. facts_of db' k = facts_of db k @ (if k = key_of (claim_command cl) then
         [\<lparr>fact_ordinal = next_ordinal (facts_of db k), fact_kind = F_EFFECT_STARTED,
           fact_digest = fact_hash h (EffectFact (claim_generation cl) n), fact_body = EffectFact (claim_generation cl) n\<rparr>] else [])))"
proof -
  let ?k = "key_of (claim_command cl)"
  obtain r where r: "locked_claim db cl = Inr r"
    using assms by (cases "locked_claim db cl") (auto simp: permit_effect_def Let_def)
  show ?thesis
  proof (cases "row_state r = EFFECT_STARTED")
    case True
    then show ?thesis using assms r by (auto simp: permit_effect_def Let_def split: if_splits)
  next
    case False
    define mid where "mid = set_attempt (scope (claim_command cl), attempt_id (claim_command cl)) ''RUNNING''
      (set_row ?k (effect_row n now r) db)"
    have p: "effect_permitted auth db cl n now r"
      and i: "dispatch_fact_insert h mid ?k F_EFFECT_STARTED (EffectFact (claim_generation cl) n) = Inr db'"
      and d: "d = APPENDED"
      using assms r False unfolding mid_def
      by (auto simp: permit_effect_def Let_def effect_permitted_def effect_row_def split: if_splits option.splits)
    have f: "facts_of mid k = facts_of db k" and c: "commands mid = AList.update ?k (effect_row n now r) (commands db)" for k
      by (simp_all add: mid_def facts_of_def)
    show ?thesis using p d commands_fact_insert [OF i] c by (auto simp: f)
  qed
qed

lemma permit_effect_ok:
  assumes "effect_permitted auth db cl n now r"
    and "\<forall>f \<in> set (facts_of db (key_of (claim_command cl))). \<not> (fact_kind f = F_EFFECT_STARTED \<and>
      fact_digest f = fact_hash h (EffectFact (claim_generation cl) n))"
  shows "\<exists>db'. permit_effect h auth db cl n now = Inr (db', APPENDED)"
proof -
  let ?k = "key_of (claim_command cl)"
  define mid where "mid = set_attempt (scope (claim_command cl), attempt_id (claim_command cl)) ''RUNNING''
      (set_row ?k (effect_row n now r) db)"
  have "facts_of mid ?k = facts_of db ?k" by (simp add: mid_def facts_of_def)
  then have "is_ok (dispatch_fact_insert h mid ?k F_EFFECT_STARTED (EffectFact (claim_generation cl) n))"
    using assms(2) by (auto simp: dispatch_fact_insert_def Let_def list_ex_iff)
  then obtain db' where "dispatch_fact_insert h mid ?k F_EFFECT_STARTED (EffectFact (claim_generation cl) n) = Inr db'"
    by (auto simp: is_ok_iff)
  then show ?thesis using assms(1) unfolding mid_def effect_row_def
    by (auto simp: permit_effect_def Let_def effect_permitted_def)
qed

lemma enqueue_cases:
  assumes "enqueue h db c = Inr (db', d)"
  shows "d = REPLAYED \<and> db' = db \<or> d = APPENDED \<and> map_of (commands db) (key_of c) = None \<and>
    commands db' = AList.update (key_of c) (queued_row h c) (commands db) \<and>
    (\<forall>k. facts_of db' k = facts_of db k @ (if k = key_of c then
       [\<lparr>fact_ordinal = next_ordinal (facts_of db k), fact_kind = F_QUEUED,
         fact_digest = fact_hash h (QueuedFact (command_hash h c)), fact_body = QueuedFact (command_hash h c)\<rparr>] else []))"
proof (cases "map_of (commands db) (key_of c)")
  case None
  define mid where "mid = set_row (key_of c) (queued_row h c) db"
  have i: "dispatch_fact_insert h mid (key_of c) F_QUEUED (QueuedFact (command_hash h c)) = Inr db'" and "d = APPENDED"
    using assms None unfolding mid_def by (auto simp: enqueue_def split: if_splits)
  moreover have "facts_of mid k = facts_of db k" for k by (simp add: mid_def facts_of_def)
  ultimately show ?thesis using None commands_fact_insert [OF i] by (auto simp: mid_def)
next
  case (Some r)
  then show ?thesis using assms by (auto simp: enqueue_def split: if_splits)
qed

lemma correlation_cases:
  assumes "record_kubernetes_correlation h db cl n u = Inr (db', d)"
  shows "db' = db \<or> (\<exists>r. locked_claim db cl = Inr r \<and> row_state r = EFFECT_STARTED \<and> row_task_name r = Some n \<and>
    row_task_uid r = None \<and>
    commands db' = AList.update (key_of (claim_command cl)) (r\<lparr>row_task_uid := Some u\<rparr>) (commands db))"
proof -
  obtain r where r: "locked_claim db cl = Inr r"
    using assms by (cases "locked_claim db cl") (auto simp: record_kubernetes_correlation_def split: if_splits)
  show ?thesis
    using assms r by (auto simp: record_kubernetes_correlation_def split: if_splits option.splits
        dest!: commands_fact_insert)
qed

lemma uncertain_cases:
  assumes "record_uncertain h db cl ob = Inr (db', d)"
  shows "db' = db \<or> (\<exists>r. locked_claim db cl = Inr r \<and> row_state r = EFFECT_STARTED \<and> row_terminal_digest r = None \<and>
    commands db' = AList.update (key_of (claim_command cl)) (terminal_row h ob r) (commands db))"
proof -
  obtain r where r: "locked_claim db cl = Inr r"
    using assms by (cases "locked_claim db cl") (auto simp: record_uncertain_def Let_def split: if_splits)
  show ?thesis
    using assms r by (auto simp: record_uncertain_def Let_def split: if_splits option.splits
        dest!: commands_fact_insert)
qed

lemma commands_append_all_evidence:
  "append_all_evidence db items rep = Inr (db', rep') \<Longrightarrow> commands db' = commands db"
  by (induction items arbitrary: db rep)
    (fastforce simp: append_evidence_def split: option.splits if_splits)+

lemma commands_append_outcome:
  "append_outcome db k w g rep = Inr (db', rep') \<Longrightarrow> commands db' = commands db"
  by (auto simp: append_outcome_def split: option.splits if_splits)

lemma commands_terminal_fact [simp]: "commands (terminal_fact h db k ob) = commands db"
  by (auto simp: terminal_fact_def split: sum.splits dest: commands_fact_insert)

lemma mark_terminal_cases:
  assumes "mark_terminal h db cl ob = Inr (db', rep)"
  shows "db' = db \<or> (\<exists>r. locked_claim db cl = Inr r \<and> row_state r = EFFECT_STARTED \<and> row_terminal_digest r = None \<and>
    commands db' = AList.update (key_of (claim_command cl)) (terminal_row h ob r) (commands db))"
  using assms by (auto simp: mark_terminal_def Let_def locked_claim_iff split: option.splits if_splits)

lemma completion_cases:
  assumes "append_native_completion h db cl ob items oid w g = Inr (db', d)"
  shows "commands db' = commands db \<or>
    (\<exists>r. locked_claim db cl = Inr r \<and> row_state r = EFFECT_STARTED \<and> row_terminal_digest r = None \<and>
    commands db' = AList.update (key_of (claim_command cl)) (terminal_row h ob r) (commands db))"
proof -
  obtain db1 rep where m: "mark_terminal h db cl ob = Inr (db1, rep)" and "commands db' = commands db1"
    using assms by (auto simp: append_native_completion_def split: if_splits
        dest!: commands_append_all_evidence commands_append_outcome)
  then show ?thesis using mark_terminal_cases [OF m] by auto
qed

subsection \<open>Facts of the effect\<close>

definition effect_facts :: "database \<Rightarrow> key \<Rightarrow> dispatch_fact list" where
  "effect_facts db k = filter (\<lambda>f. fact_kind f = F_EFFECT_STARTED) (facts_of db k)"

lemma effect_facts_insert:
  assumes "dispatch_fact_insert h db k kind body = Inr db'" and "kind \<noteq> F_EFFECT_STARTED"
  shows "effect_facts db' k' = effect_facts db k'"
  using commands_fact_insert [OF assms(1), of k'] assms(2) by (simp add: effect_facts_def)

lemma effect_facts_simps [simp]:
  "effect_facts (set_row k r db) = effect_facts db"
  "effect_facts (set_attempt k s db) = effect_facts db"
  by (intro ext, simp add: effect_facts_def facts_of_def)+

lemma effect_facts_claim:
  "claim_next h db worker token now ls locked = Inr (db', x) \<Longrightarrow> effect_facts db' k = effect_facts db k"
  by (auto simp: claim_next_def Let_def split: if_splits option.splits prod.splits dest!: effect_facts_insert)

lemma effect_facts_enqueue: "enqueue h db c = Inr (db', d) \<Longrightarrow> effect_facts db' k = effect_facts db k"
  by (auto simp: enqueue_def split: if_splits option.splits dest!: effect_facts_insert)

lemma effect_facts_correlation:
  "record_kubernetes_correlation h db cl n u = Inr (db', d) \<Longrightarrow> effect_facts db' k = effect_facts db k"
  by (auto simp: record_kubernetes_correlation_def split: if_splits option.splits dest!: effect_facts_insert)

lemma effect_facts_uncertain:
  "record_uncertain h db cl ob = Inr (db', d) \<Longrightarrow> effect_facts db' k = effect_facts db k"
  by (auto simp: record_uncertain_def Let_def split: if_splits option.splits dest!: effect_facts_insert)

lemma effect_facts_append_all_evidence:
  "append_all_evidence db items rep = Inr (db', rep') \<Longrightarrow> effect_facts db' k = effect_facts db k"
proof (induction items arbitrary: db rep)
  case (Cons i items)
  from Cons.prems obtain db1 fr where "append_evidence db i = Inr (db1, fr)"
    and r: "append_all_evidence db1 items (if fr then False else rep) = Inr (db', rep')" by auto
  then have "effect_facts db1 k = effect_facts db k"
    by (auto simp: append_evidence_def effect_facts_def facts_of_def split: option.splits if_splits)
  then show ?case using Cons.IH [OF r] by simp
qed simp

lemma effect_facts_completion:
  assumes "append_native_completion h db cl ob items oid w g = Inr (db', d)"
  shows "effect_facts db' k = effect_facts db k"
proof -
  obtain db1 r1 db2 r2 db3 r3 where s: "mark_terminal h db cl ob = Inr (db1, r1)"
    "append_all_evidence db1 items r1 = Inr (db2, r2)"
    "append_outcome db2 (scope (claim_command cl), oid) w g r2 = Inr (db3, r3)"
    "db' = terminal_fact h db3 (key_of (claim_command cl)) ob"
    using assms by (auto simp: append_native_completion_def split: if_splits)
  have "effect_facts db1 k = effect_facts db k"
    using s(1) by (auto simp: mark_terminal_def Let_def split: option.splits if_splits)
  moreover have "effect_facts db2 k = effect_facts db1 k" using effect_facts_append_all_evidence [OF s(2)] .
  moreover have "effect_facts db3 k = effect_facts db2 k"
    using s(3) by (auto simp: append_outcome_def effect_facts_def facts_of_def split: option.splits if_splits)
  moreover have "effect_facts db' k = effect_facts db3 k"
    unfolding s(4) terminal_fact_def by (auto split: sum.splits dest!: effect_facts_insert)
  ultimately show ?thesis by simp
qed

subsection \<open>Transactions\<close>

text \<open>
  The committed transactions on a dispatch database: the operations above with any arguments, and
  any change that other components make to the tables they own.
\<close>

inductive dispatch_tx ::
  "hashes \<Rightarrow> (database \<Rightarrow> dispatch_command \<Rightarrow> bool) \<Rightarrow> database \<Rightarrow> database \<Rightarrow> bool"
  for h auth where
  tx_enqueue: "enqueue h db c = Inr (db', d) \<Longrightarrow> dispatch_tx h auth db db'"
| tx_claim: "claim_next h db worker token now ls locked = Inr (db', x) \<Longrightarrow> dispatch_tx h auth db db'"
| tx_permit: "permit_effect h auth db cl n now = Inr (db', d) \<Longrightarrow> dispatch_tx h auth db db'"
| tx_correlate: "record_kubernetes_correlation h db cl n u = Inr (db', d) \<Longrightarrow> dispatch_tx h auth db db'"
| tx_uncertain: "record_uncertain h db cl ob = Inr (db', d) \<Longrightarrow> dispatch_tx h auth db db'"
| tx_complete: "append_native_completion h db cl ob items oid w g = Inr (db', d) \<Longrightarrow> dispatch_tx h auth db db'"
| tx_other: "commands db' = commands db \<Longrightarrow> facts db' = facts db \<Longrightarrow> dispatch_tx h auth db db'"

inductive_cases dispatch_txE: "dispatch_tx h auth db db'"

definition row_moves :: "dispatch_row \<Rightarrow> dispatch_row \<Rightarrow> bool" where
  "row_moves r r' \<longleftrightarrow> r' = r \<or> claim_edge r r' \<or> effect_edge r r' \<or> same_state_edge r r' \<or> terminal_edge r r'"

definition dispatch_inv :: "database \<Rightarrow> bool" where
  "dispatch_inv db \<longleftrightarrow> schema_ok db \<and> (\<forall>k. length (effect_facts db k) =
     (case map_of (commands db) k of None \<Rightarrow> 0 | Some r \<Rightarrow> if effect_state (row_state r) then 1 else 0))"

lemma kind_state_terminal [simp]: "terminal_state (kind_state k)" "effect_state (kind_state k)"
  "kind_state k \<noteq> QUEUED" "kind_state k \<noteq> CLAIMED" "kind_state k \<noteq> EFFECT_STARTED"
  by (cases k; simp add: kind_state_def terminal_state_def effect_state_def)+

lemma row_ok_claimed:
  "row_ok r \<Longrightarrow> row_state r \<in> {QUEUED, CLAIMED} \<Longrightarrow>
   row_ok (r\<lparr>row_state := CLAIMED, row_generation := row_generation r + 1, row_token := Some token,
     row_worker := Some worker, row_lease := Some l\<rparr>)"
  by (auto simp: row_ok_defs)

lemma row_ok_effect: "row_ok r \<Longrightarrow> row_state r = CLAIMED \<Longrightarrow> row_ok (effect_row n now r)"
  by (auto simp: row_ok_defs effect_row_def)

lemma row_ok_terminal: "row_ok r \<Longrightarrow> row_state r = EFFECT_STARTED \<Longrightarrow> row_ok (terminal_row h ob r)"
  by (auto simp: row_ok_def terminal_row_def)

text \<open>Replacing one row along an edge keeps the invariant of the schema and moves only that row.\<close>

lemma edge_step:
  assumes s: "schema_ok db" and m: "map_of (commands db) k = Some r"
    and c: "commands db' = AList.update k r' (commands db)"
    and ok: "row_ok r'" and same: "row_command r' = row_command r"
    and dig: "row_terminal_digest r' \<noteq> None \<Longrightarrow> terminal_state (row_state r')"
    and mv: "row_moves r r'"
  shows "schema_ok db' \<and> (\<forall>k q. map_of (commands db) k = Some q \<longrightarrow>
    (\<exists>q'. map_of (commands db') k = Some q' \<and> row_moves q q'))"
proof -
  have "key_of (row_command r') = k" using schema_row [OF s m] same by simp
  then have "schema_ok db'" using schema_set_row [OF s c ok _ dig] by blast
  moreover have "\<exists>q'. map_of (commands db') j = Some q' \<and> row_moves q q'"
    if "map_of (commands db) j = Some q" for j q
    using that m mv c by (cases "j = k") (auto simp: row_moves_def)
  ultimately show ?thesis by blast
qed

lemma same_step:
  assumes "schema_ok db" and "commands db' = commands db"
  shows "schema_ok db' \<and> (\<forall>k q. map_of (commands db) k = Some q \<longrightarrow>
    (\<exists>q'. map_of (commands db') k = Some q' \<and> row_moves q q'))"
  using assms schema_same by (auto simp: row_moves_def)

lemma terminal_step:
  assumes s: "schema_ok db" and l: "locked_claim db cl = Inr r" and e: "row_state r = EFFECT_STARTED"
    and n: "row_terminal_digest r = None"
    and c: "commands db' = AList.update (key_of (claim_command cl)) (terminal_row h ob r) (commands db)"
  shows "schema_ok db' \<and> (\<forall>k q. map_of (commands db) k = Some q \<longrightarrow>
    (\<exists>q'. map_of (commands db') k = Some q' \<and> row_moves q q'))"
proof -
  have m: "map_of (commands db) (key_of (claim_command cl)) = Some r" using l by (simp add: locked_claim_iff)
  have "row_ok (terminal_row h ob r)" using schema_row [OF s m] e by (intro row_ok_terminal) auto
  then show ?thesis using edge_step [OF s m c] e n
    by (auto simp: terminal_row_def row_moves_def terminal_edge_def)
qed

lemma dispatch_tx_step:
  assumes "dispatch_tx h auth db db'" and s: "schema_ok db"
  shows "schema_ok db' \<and> (\<forall>k q. map_of (commands db) k = Some q \<longrightarrow>
    (\<exists>q'. map_of (commands db') k = Some q' \<and> row_moves q q'))"
  using assms(1)
proof (cases rule: dispatch_tx.cases)
  case (tx_enqueue c d)
  show ?thesis
  proof (cases "commands db' = commands db")
    case True
    then show ?thesis using same_step [OF s] by blast
  next
    case False
    then have n: "map_of (commands db) (key_of c) = None"
      and u: "commands db' = AList.update (key_of c) (queued_row h c) (commands db)"
      using enqueue_cases [OF tx_enqueue] by auto
    have "schema_ok db'"
      using s u by (rule schema_set_row) (simp_all add: queued_row_def row_ok_defs)
    then show ?thesis using n u by (auto simp: row_moves_def)
  qed
next
  case (tx_claim worker token now ls locked x)
  show ?thesis
  proof (cases "db' = db")
    case True
    then show ?thesis using same_step [OF s] by blast
  next
    case False
    then obtain k r where m: "map_of (commands db) k = Some r" and cl: "claimable now r"
      and c: "commands db' = AList.update k (r\<lparr>row_state := CLAIMED, row_generation := row_generation r + 1,
         row_token := Some token, row_worker := Some worker, row_lease := Some (now + ls * second)\<rparr>) (commands db)"
      using claim_next_cases [OF s tx_claim] by blast
    have st: "row_state r \<in> {QUEUED, CLAIMED}" using cl by (auto simp: claimable_def)
    have d: "row_terminal_digest r = None"
      using schema_digest [OF s m] st by (cases "row_terminal_digest r") (auto simp: terminal_state_def)
    show ?thesis using edge_step [OF s m c row_ok_claimed] schema_row [OF s m] st d
      by (auto simp: row_moves_def claim_edge_def)
  qed
next
  case (tx_permit cl n now d)
  show ?thesis
  proof (cases "d = REPLAYED")
    case True
    then show ?thesis using permit_effect_cases [OF tx_permit] same_step [OF s] by auto
  next
    case False
    then obtain r where p: "effect_permitted auth db cl n now r"
      and c: "commands db' = AList.update (key_of (claim_command cl)) (effect_row n now r) (commands db)"
      using permit_effect_cases [OF tx_permit] by auto
    have m: "map_of (commands db) (key_of (claim_command cl)) = Some r" and st: "row_state r = CLAIMED"
      using p by (auto simp: effect_permitted_def locked_claim_iff)
    have d: "row_terminal_digest r = None"
      using schema_digest [OF s m] st by (cases "row_terminal_digest r") (auto simp: terminal_state_def)
    show ?thesis using edge_step [OF s m c row_ok_effect] schema_row [OF s m] st d
      by (auto simp: row_moves_def effect_edge_def effect_row_def)
  qed
next
  case (tx_correlate cl n u d)
  show ?thesis
  proof (cases "db' = db")
    case True
    then show ?thesis using same_step [OF s] by blast
  next
    case False
    then obtain r where l: "locked_claim db cl = Inr r" and st: "row_state r = EFFECT_STARTED"
      and n: "row_task_uid r = None"
      and c: "commands db' = AList.update (key_of (claim_command cl)) (r\<lparr>row_task_uid := Some u\<rparr>) (commands db)"
      using correlation_cases [OF tx_correlate] by blast
    have m: "map_of (commands db) (key_of (claim_command cl)) = Some r" using l by (simp add: locked_claim_iff)
    have "row_ok (r\<lparr>row_task_uid := Some u\<rparr>)" using schema_row [OF s m] by (auto simp: row_ok_def)
    then show ?thesis using edge_step [OF s m c] st n schema_digest [OF s m]
      by (auto simp: row_moves_def same_state_edge_def)
  qed
next
  case (tx_uncertain cl ob d)
  then show ?thesis using uncertain_cases [OF tx_uncertain] same_step [OF s] terminal_step [OF s] by blast
next
  case (tx_complete cl ob items oid w g d)
  then show ?thesis using completion_cases [OF tx_complete] same_step [OF s] terminal_step [OF s] by blast
next
  case tx_other
  then show ?thesis using same_step [OF s] by blast
qed

subsection \<open>Started effects\<close>

definition started :: "database \<Rightarrow> key \<Rightarrow> bool" where
  "started db k \<longleftrightarrow> (\<exists>r. map_of (commands db) k = Some r \<and> effect_state (row_state r))"

lemma started_update:
  assumes "commands db' = AList.update k r (commands db)"
  shows "started db' j \<longleftrightarrow> (if j = k then effect_state (row_state r) else started db j)"
  using assms by (auto simp: started_def)

lemma started_same: "commands db' = commands db \<Longrightarrow> started db' k \<longleftrightarrow> started db k"
  by (simp add: started_def)

lemma started_enqueue: "enqueue h db c = Inr (db', d) \<Longrightarrow> started db' k \<longleftrightarrow> started db k"
  using enqueue_cases [of h db c db' d] started_update [of db' "key_of c" "queued_row h c" db k]
  by (auto simp: queued_row_def effect_state_def started_def split: if_splits)

lemma started_claim:
  assumes "schema_ok db" and "claim_next h db worker token now ls locked = Inr (db', x)"
  shows "started db' k \<longleftrightarrow> started db k"
proof (cases "db' = db")
  case False
  then obtain j r where m: "map_of (commands db) j = Some r" and c: "claimable now r"
    and u: "commands db' = AList.update j (r\<lparr>row_state := CLAIMED, row_generation := row_generation r + 1,
         row_token := Some token, row_worker := Some worker, row_lease := Some (now + ls * second)\<rparr>) (commands db)"
    using claim_next_cases [OF assms] by blast
  show ?thesis using started_update [OF u, of k] m c
    by (auto simp: started_def claimable_def effect_state_def)
qed simp

lemma started_locked:
  assumes "locked_claim db cl = Inr r" and "row_state r = EFFECT_STARTED" and "effect_state (row_state r')"
    and "commands db' = AList.update (key_of (claim_command cl)) r' (commands db)"
  shows "started db' k \<longleftrightarrow> started db k"
  using started_update [OF assms(4)] assms(1,2,3) by (auto simp: started_def locked_claim_iff effect_state_def)

lemma started_correlate:
  "record_kubernetes_correlation h db cl n u = Inr (db', d) \<Longrightarrow> started db' k \<longleftrightarrow> started db k"
proof (cases "db' = db")
  case False
  assume "record_kubernetes_correlation h db cl n u = Inr (db', d)"
  then obtain r where "locked_claim db cl = Inr r" and "row_state r = EFFECT_STARTED"
    and "commands db' = AList.update (key_of (claim_command cl)) (r\<lparr>row_task_uid := Some u\<rparr>) (commands db)"
    using correlation_cases False by blast
  then show ?thesis by (elim started_locked) (simp_all add: effect_state_def)
qed simp

lemma started_terminal:
  assumes "locked_claim db cl = Inr r" and "row_state r = EFFECT_STARTED"
    and "commands db' = AList.update (key_of (claim_command cl)) (terminal_row h ob r) (commands db)"
  shows "started db' k \<longleftrightarrow> started db k"
  using started_locked [OF assms(1,2) _ assms(3)] by (simp add: terminal_row_def)

lemma started_uncertain: "record_uncertain h db cl ob = Inr (db', d) \<Longrightarrow> started db' k \<longleftrightarrow> started db k"
  using uncertain_cases [of h db cl ob db' d] started_terminal [where k = k] by blast

lemma started_complete:
  "append_native_completion h db cl ob items oid w g = Inr (db', d) \<Longrightarrow> started db' k \<longleftrightarrow> started db k"
  using completion_cases [of h db cl ob items oid w g db' d] started_terminal [where k = k] started_same [of db' db k]
  by blast

lemma started_permit_replayed:
  "permit_effect h auth db cl n now = Inr (db', REPLAYED) \<Longrightarrow> db' = db \<and> started db (key_of (claim_command cl))"
  using permit_effect_cases [of h auth db cl n now db' REPLAYED]
  by (auto simp: started_def locked_claim_iff effect_state_def)

lemma started_permit_appended:
  assumes "permit_effect h auth db cl n now = Inr (db', APPENDED)"
  shows "\<not> started db (key_of (claim_command cl))"
    and "started db' k \<longleftrightarrow> k = key_of (claim_command cl) \<or> started db k"
proof -
  obtain r where p: "effect_permitted auth db cl n now r"
    and c: "commands db' = AList.update (key_of (claim_command cl)) (effect_row n now r) (commands db)"
    using permit_effect_cases [OF assms] by auto
  show "\<not> started db (key_of (claim_command cl))"
    using p by (auto simp: effect_permitted_def started_def locked_claim_iff effect_state_def)
  show "started db' k \<longleftrightarrow> k = key_of (claim_command cl) \<or> started db k"
    using started_update [OF c, of k] by (auto simp: effect_row_def effect_state_def)
qed

lemma effect_facts_permit_appended:
  assumes "permit_effect h auth db cl n now = Inr (db', APPENDED)"
  shows "length (effect_facts db' k) = length (effect_facts db k) + (if k = key_of (claim_command cl) then 1 else 0)"
proof -
  have f: "facts_of db' k = facts_of db k @ (if k = key_of (claim_command cl) then
         [\<lparr>fact_ordinal = next_ordinal (facts_of db k), fact_kind = F_EFFECT_STARTED,
           fact_digest = fact_hash h (EffectFact (claim_generation cl) n), fact_body = EffectFact (claim_generation cl) n\<rparr>] else [])"
    using permit_effect_cases [OF assms] by blast
  show ?thesis unfolding effect_facts_def f by simp
qed

lemma dispatch_inv_alt:
  "dispatch_inv db \<longleftrightarrow> schema_ok db \<and> (\<forall>k. length (effect_facts db k) = (if started db k then 1 else 0))"
proof -
  have "(case map_of (commands db) k of None \<Rightarrow> 0 | Some r \<Rightarrow> if effect_state (row_state r) then 1 else 0)
      = (if started db k then 1 else (0::nat))" for k
    by (simp add: started_def split: option.split)
  then show ?thesis by (simp add: dispatch_inv_def)
qed

lemma dispatch_inv_step:
  assumes "dispatch_tx h auth db db'" and i: "dispatch_inv db"
  shows "dispatch_inv db'"
proof -
  have s: "schema_ok db" and f: "\<And>k. length (effect_facts db k) = (if started db k then 1 else 0)"
    using i unfolding dispatch_inv_alt by blast+
  have s': "schema_ok db'" using dispatch_tx_step [OF assms(1) s] by blast
  have "length (effect_facts db' k) = (if started db' k then 1 else 0)" for k
    using assms(1)
  proof (cases rule: dispatch_tx.cases)
    case (tx_enqueue c d)
    then show ?thesis using f by (simp add: effect_facts_enqueue started_enqueue)
  next
    case (tx_claim worker token now ls locked x)
    then show ?thesis using f started_claim [OF s] by (simp add: effect_facts_claim)
  next
    case (tx_permit cl n now d)
    show ?thesis
    proof (cases d)
      case APPENDED
      show ?thesis
        using f [of k] started_permit_appended [OF tx_permit [unfolded APPENDED]]
          effect_facts_permit_appended [OF tx_permit [unfolded APPENDED], of k] by auto
    next
      case REPLAYED
      have "db' = db" using started_permit_replayed [OF tx_permit [unfolded REPLAYED]] by blast
      then show ?thesis using f [of k] by simp
    qed
  next
    case (tx_correlate cl n u d)
    then show ?thesis using f by (simp add: effect_facts_correlation started_correlate)
  next
    case (tx_uncertain cl ob d)
    then show ?thesis using f by (simp add: effect_facts_uncertain started_uncertain)
  next
    case (tx_complete cl ob items oid w g d)
    then show ?thesis using f by (simp add: effect_facts_completion started_complete)
  next
    case tx_other
    then show ?thesis using f started_same [of db' db k] by (simp add: effect_facts_def facts_of_def)
  qed
  then show ?thesis using s' unfolding dispatch_inv_alt by blast
qed

subsection \<open>What a command keeps\<close>

lemma row_moves_terminal: "row_moves r r' \<Longrightarrow> terminal_state (row_state r) \<Longrightarrow> r' = r"
  by (auto simp: row_moves_def claim_edge_def effect_edge_def same_state_edge_def terminal_edge_def terminal_state_def)

lemma row_moves_generation: "row_moves r r' \<Longrightarrow> row_generation r \<le> row_generation r'"
  by (auto simp: row_moves_def claim_edge_def effect_edge_def same_state_edge_def terminal_edge_def terminal_row_def)

lemma dispatch_run:
  assumes "(dispatch_tx h auth)\<^sup>*\<^sup>* db db'" and "schema_ok db"
    and "map_of (commands db) k = Some r"
    and keep: "\<And>q q'. row_moves q q' \<Longrightarrow> P q \<Longrightarrow> P q'" and "P r"
  shows "schema_ok db' \<and> (\<exists>r'. map_of (commands db') k = Some r' \<and> P r')"
  using assms(1)
proof (induction rule: rtranclp_induct)
  case base
  then show ?case using assms by blast
next
  case (step db1 db2)
  then show ?case using dispatch_tx_step [OF step.hyps(2)] keep by blast
qed

lemma dispatch_inv_run:
  assumes "(dispatch_tx h auth)\<^sup>*\<^sup>* db db'" and "dispatch_inv db"
  shows "dispatch_inv db'"
  using assms by (induction rule: rtranclp_induct) (auto intro: dispatch_inv_step)

lemma empty_dispatch_inv: "commands db = [] \<Longrightarrow> facts db = [] \<Longrightarrow> dispatch_inv db"
  by (simp add: dispatch_inv_def schema_ok_def effect_facts_def facts_of_def)

lemma stale_claim_rejected:
  assumes "map_of (commands db) (key_of (claim_command cl)) = Some r" and "claim_generation cl < row_generation r"
  shows "\<not> is_ok (permit_effect h auth db cl n now)"
    and "\<not> is_ok (record_kubernetes_correlation h db cl n u)"
    and "\<not> is_ok (record_uncertain h db cl ob)"
    and "\<not> is_ok (append_native_completion h db cl ob items oid w g)"
proof -
  have l: "locked_claim db cl = Inl ''NATIVE_DISPATCH_CLAIM_STALE''"
    and m: "mark_terminal h db cl ob = Inl ''NATIVE_DISPATCH_CLAIM_STALE''"
    using assms by (auto simp: locked_claim_def mark_terminal_def Let_def)
  show "\<not> is_ok (permit_effect h auth db cl n now)" by (simp add: permit_effect_def Let_def l)
  show "\<not> is_ok (record_kubernetes_correlation h db cl n u)" by (simp add: record_kubernetes_correlation_def l)
  show "\<not> is_ok (record_uncertain h db cl ob)" by (simp add: record_uncertain_def Let_def l)
  show "\<not> is_ok (append_native_completion h db cl ob items oid w g)" by (simp add: append_native_completion_def m)
qed

subsection \<open>An example database\<close>

definition example_scope :: scope_identity where
  "example_scope = \<lparr>namespace = ''n'', security_domain = ''d''\<rparr>"

definition example_command :: dispatch_command where
  "example_command = \<lparr>command_id = ''c1'', scope = example_scope, attempt_id = ''a1'', assignment_id = ''as'',
     approved_plan_revision_id = ''rev'', approved_plan_digest = replicate 64 CHR ''a'', placement_id = ''p1'',
     placement_digest = replicate 64 CHR ''b'', runtime_instance_id = ''r1'', runtime_generation = 1,
     agent_instance_id = ''ag'', principal_id = ''u'', credential_id = ''cr'',
     authentication_source = ''SERVICE_CREDENTIAL'', authority_generation = 1, recovery_epoch = 1,
     authorization_owner = ''o'', authorization_action = ''run'', authorization_resource = ''x'',
     agent_name = ''agent'', input_text = ''go'', timeout_seconds = 30, queued_at = 0\<rparr>"

definition example_db :: database where
  "example_db = \<lparr>
     decisions = [((example_scope, ''p1''), \<lparr>dr_request_id = ''q1'', dr_decision = PLACED,
       dr_digest = replicate 64 CHR ''b'', dr_runtime_instance_id = Some ''r1''\<rparr>)],
     requests = [((example_scope, ''q1''), \<lparr>rq_attempt_id = ''a1'', rq_agent_instance_id = ''ag''\<rparr>)],
     runtimes = [((example_scope, ''r1''), 1)],
     attempts = [((example_scope, ''a1''), \<lparr>ar_task_run_id = ''t1'', ar_control_state = ''PENDING'', ar_version = 1\<rparr>)],
     task_runs = [((example_scope, ''t1''), ''w1'')],
     workflow_runs = [((example_scope, ''w1''), \<lparr>wfr_assignment_id = ''as'', wfr_plan_revision = ''rev'', wfr_plan = (''pl'', 1)\<rparr>)],
     plans = [((example_scope, ''pl'', 1), \<lparr>pl_digest = replicate 64 CHR ''a'', pl_status = ''APPROVED''\<rparr>)],
     commands = [], facts = [], cutover = Some (''POSTGRES_ACTIVE'', ''POSTGRES''), evidence = [], outcomes = []\<rparr>"

text \<open>Digests of an example: a tag for the kind of value.\<close>

definition example_hashes :: hashes where
  "example_hashes = \<lparr>command_hash = (\<lambda>c. command_id c), observation_hash = (\<lambda>ob. obs_task_name ob),
     fact_hash = (\<lambda>f. case f of QueuedFact _ \<Rightarrow> ''q'' | ClaimedFact g _ _ \<Rightarrow> ''c'' @ replicate (nat g) CHR ''1''
       | EffectFact _ _ \<Rightarrow> ''e'' | CorrelatedFact _ _ \<Rightarrow> ''k'' | TerminalFact _ \<Rightarrow> ''t'')\<rparr>"

definition example_fact :: "int \<Rightarrow> fact_kind \<Rightarrow> fact_record \<Rightarrow> dispatch_fact" where
  "example_fact i kind body = \<lparr>fact_ordinal = i, fact_kind = kind, fact_digest = fact_hash example_hashes body, fact_body = body\<rparr>"

definition example_row :: dispatch_row where
  "example_row = queued_row example_hashes example_command"

definition example_claimed_row :: "int \<Rightarrow> string \<Rightarrow> time \<Rightarrow> dispatch_row" where
  "example_claimed_row g worker lease = example_row\<lparr>row_state := CLAIMED, row_generation := g, row_token := Some ''tok'',
     row_worker := Some worker, row_lease := Some lease\<rparr>"

definition example_with :: "dispatch_row \<Rightarrow> dispatch_fact list \<Rightarrow> database" where
  "example_with r fs = example_db\<lparr>commands := [((example_scope, ''c1''), r)], facts := [((example_scope, ''c1''), fs)]\<rparr>"

definition example_claim :: "int \<Rightarrow> string \<Rightarrow> dispatch_claim" where
  "example_claim g worker = \<lparr>claim_command = example_command, claim_generation = g, claim_token = ''tok'',
     claim_worker = worker, claim_lease = 30000000\<rparr>"

definition example_queued :: database where
  "example_queued = example_with example_row [example_fact 1 F_QUEUED (QueuedFact ''c1'')]"

definition example_claimed :: database where
  "example_claimed = example_with (example_claimed_row 1 ''w1'' 30000000)
     [example_fact 1 F_QUEUED (QueuedFact ''c1''), example_fact 2 F_CLAIMED (ClaimedFact 1 ''w1'' 30000000)]"

definition example_reclaimed :: database where
  "example_reclaimed = example_with (example_claimed_row 2 ''w2'' 70000000)
     [example_fact 1 F_QUEUED (QueuedFact ''c1''), example_fact 2 F_CLAIMED (ClaimedFact 1 ''w1'' 30000000),
      example_fact 3 F_CLAIMED (ClaimedFact 2 ''w2'' 70000000)]"

definition example_started :: database where
  "example_started = (example_with (effect_row ''native-1'' 1 (example_claimed_row 1 ''w1'' 30000000))
     [example_fact 1 F_QUEUED (QueuedFact ''c1''), example_fact 2 F_CLAIMED (ClaimedFact 1 ''w1'' 30000000),
      example_fact 3 F_EFFECT_STARTED (EffectFact 1 ''native-1'')])
     \<lparr>attempts := [((example_scope, ''a1''), \<lparr>ar_task_run_id = ''t1'', ar_control_state = ''RUNNING'', ar_version = 2\<rparr>)]\<rparr>"

definition example_correlated :: database where
  "example_correlated = example_with
     ((effect_row ''native-1'' 1 (example_claimed_row 1 ''w1'' 30000000))\<lparr>row_task_uid := Some ''uid-1''\<rparr>) []"

lemmas example_defs = example_with_def example_queued_def example_claimed_def example_reclaimed_def
  example_started_def example_correlated_def example_claimed_row_def example_row_def example_fact_def
  example_claim_def key_of_def example_command_def queued_row_def effect_row_def

lemma example_enqueue: "enqueue example_hashes example_db example_command = Inr (example_queued, APPENDED)"
  by code_simp

lemma example_claim_next:
  "claim_next example_hashes example_queued ''w1'' ''tok'' 0 30 {} = Inr (example_claimed, Some (example_claim 1 ''w1''))"
  by code_simp

lemma example_reclaim:
  "is_ok (claim_next example_hashes example_claimed ''w2'' ''tok'' 40000000 30 {}) \<and>
   fst (projr (claim_next example_hashes example_claimed ''w2'' ''tok'' 40000000 30 {})) = example_reclaimed"
  by code_simp

lemma example_permit:
  "permit_effect example_hashes (\<lambda>_ _. True) example_claimed (example_claim 1 ''w1'') ''native-1'' 1
     = Inr (example_started, APPENDED)"
  by code_simp

lemma example_reach_claimed: "(dispatch_tx example_hashes auth)\<^sup>*\<^sup>* example_db example_claimed"
  using tx_enqueue [OF example_enqueue] tx_claim [OF example_claim_next]
  by (meson rtranclp.rtrancl_into_rtrancl rtranclp.rtrancl_refl)

lemma example_run: "(dispatch_tx example_hashes (\<lambda>_ _. True))\<^sup>*\<^sup>* example_db example_started"
  using example_reach_claimed tx_permit [OF example_permit] by (rule rtranclp.rtrancl_into_rtrancl)

lemma example_empty: "commands example_db = []" "facts example_db = []"
  by (simp_all add: example_db_def)

lemma example_claimed_inv: "dispatch_inv example_claimed"
  by (rule dispatch_inv_run [OF example_reach_claimed empty_dispatch_inv]) (rule example_empty)+

subsection \<open>Properties\<close>

text \<open>
  No sequence of transactions, starting without commands, ever violates the constraints of the
  schema, so no update of an operation is rejected by them; and the audit trail has exactly one
  \<open>EFFECT_STARTED\<close> fact for a command whose effect was started and none for any other.
\<close>

theorem dispatch_constraints_kept:
  assumes "commands db = []" and "facts db = []" and "(dispatch_tx h auth)\<^sup>*\<^sup>* db db'"
  shows "(\<forall>k r. map_of (commands db') k = Some r \<longrightarrow> row_ok r \<and> key_of (row_command r) = k) \<and>
    (\<forall>k. length (effect_facts db' k) = (if started db' k then 1 else 0))"
proof -
  have "dispatch_inv db'" using dispatch_inv_run [OF assms(3) empty_dispatch_inv [OF assms(1,2)]] .
  then show ?thesis unfolding dispatch_inv_alt using schema_row by blast
qed

theorem dispatch_constraints_kept_witness:
  "length (effect_facts example_started (example_scope, ''c1'')) = 1"
proof -
  have "length (effect_facts example_started (example_scope, ''c1'')) =
      (if started example_started (example_scope, ''c1'') then 1 else 0)"
    using dispatch_constraints_kept [OF example_empty example_run] by blast
  moreover have "started example_started (example_scope, ''c1'')"
    using started_permit_appended(2) [OF example_permit, of "(example_scope, ''c1'')"] by (simp add: example_defs)
  ultimately show ?thesis by simp
qed

text \<open>
  What has to be in the tables for an effect to start, row by row: the claim holds the row of the command, the placement the row names is made for the attempt and
  the agent of the command, its runtime is in the generation the command was approved for, the attempt is still pending, its run belongs to the
  assignment, and the plan of the run is approved, with the digest the command carries.
\<close>

definition claim_holds :: "database \<Rightarrow> dispatch_claim \<Rightarrow> time \<Rightarrow> dispatch_row \<Rightarrow> bool" where
  "claim_holds db cl now r \<longleftrightarrow> map_of (commands db) (scope (claim_command cl), command_id (claim_command cl)) = Some r \<and>
     row_generation r = claim_generation cl \<and> row_token r = Some (claim_token cl) \<and> row_worker r = Some (claim_worker cl) \<and>
     row_state r = CLAIMED \<and> (\<exists>lease. row_lease r = Some lease \<and> now < lease)"

definition placed_as_approved :: "database \<Rightarrow> dispatch_command \<Rightarrow> dispatch_command \<Rightarrow> bool" where
  "placed_as_approved db c stored \<longleftrightarrow>
     (\<exists>d q a run w p. map_of (decisions db) (scope c, placement_id stored) = Some d \<and> dr_decision d = PLACED \<and>
        dr_digest d = placement_digest c \<and> dr_runtime_instance_id d = Some (runtime_instance_id c) \<and>
      map_of (requests db) (scope c, dr_request_id d) = Some q \<and> rq_attempt_id q = attempt_id c \<and> rq_agent_instance_id q = agent_instance_id c \<and>
      map_of (runtimes db) (scope c, runtime_instance_id stored) = Some (runtime_generation c) \<and>
      map_of (attempts db) (scope c, attempt_id stored) = Some a \<and> ar_control_state a = ''PENDING'' \<and>
      map_of (task_runs db) (scope c, ar_task_run_id a) = Some run \<and>
      map_of (workflow_runs db) (scope c, run) = Some w \<and> wfr_assignment_id w = assignment_id c \<and> wfr_plan_revision w = approved_plan_revision_id c \<and>
      map_of (plans db) (scope c, wfr_plan w) = Some p \<and> pl_status p = ''APPROVED'' \<and> pl_digest p = approved_plan_digest c)"

definition name_is_free :: "database \<Rightarrow> dispatch_command \<Rightarrow> string \<Rightarrow> bool" where
  "name_is_free db c n \<longleftrightarrow> (\<forall>i r. ((scope c, i), r) \<in> set (commands db) \<and> row_task_name r = Some n \<longrightarrow> i = command_id c)"

lemma obind_Some: "obind x f = Some y \<longleftrightarrow> (\<exists>a. x = Some a \<and> f a = Some y)"
  by (cases x) (simp_all add: obind_def)

lemma placed_as_approved_iff:
  "binding_join db (scope c) (placement_id stored) (Some (runtime_instance_id stored)) (Some (attempt_id stored)) = Some (expected_binding c) \<longleftrightarrow>
     placed_as_approved db c stored"
  unfolding binding_join_def obind_Some placed_as_approved_def expected_binding_def option.case option.inject binding.ext_inject by blast

lemma name_is_free_iff: "task_name_taken db (key_of c) n \<longleftrightarrow> \<not> name_is_free db c n"
  by (force simp: task_name_taken_def name_is_free_def key_of_def list_ex_iff)

lemma effect_permitted_iff:
  "effect_permitted auth db cl n now r \<longleftrightarrow> claim_holds db cl now r \<and> placed_as_approved db (claim_command cl) (row_command r) \<and>
     auth db (claim_command cl) \<and> name_is_free db (claim_command cl) n"
  using name_is_free_iff [of db "claim_command cl" n]
  unfolding effect_permitted_def placed_as_approved_iff locked_claim_iff claim_holds_def key_of_def by blast

lemma permit_effect_attempts:
  assumes "permit_effect h auth db cl n now = Inr (db', APPENDED)" and "map_of (attempts db) (scope (claim_command cl), attempt_id (claim_command cl)) = Some a"
  shows "map_of (attempts db') = (map_of (attempts db))((scope (claim_command cl), attempt_id (claim_command cl)) \<mapsto>
    a\<lparr>ar_control_state := ''RUNNING'', ar_version := ar_version a + 1\<rparr>)"
proof -
  obtain r where r: "locked_claim db cl = Inr r" using assms by (cases "locked_claim db cl") (auto simp: permit_effect_def Let_def)
  define mid where "mid = set_attempt (scope (claim_command cl), attempt_id (claim_command cl)) ''RUNNING'' (set_row (key_of (claim_command cl)) (effect_row n now r) db)"
  have "dispatch_fact_insert h mid (key_of (claim_command cl)) F_EFFECT_STARTED (EffectFact (claim_generation cl) n) = Inr db'"
    using assms(1) r unfolding mid_def by (auto simp: permit_effect_def Let_def effect_row_def split: if_splits option.splits)
  then have "attempts db' = attempts mid" using commands_fact_insert by blast
  then show ?thesis using assms(2) by (simp add: mid_def set_attempt_def set_row_def)
qed

text \<open>
  C8: \<open>permit_effect\<close> is the linearization point of the effect. It starts the effect exactly when the claim still holds the row of its command with a
  lease that has not expired, the placement, the runtime generation, the pending attempt and the approved plan in the tables are the ones
  the command was approved with, the current grant is valid, and no other command of the scope has the name of the Task. Then it changes the row of this command
  and the attempt of the command, which is running from then on, and no other row or attempt.
\<close>

theorem effect_started_iff_permitted:
  assumes "dispatch_inv db"
  shows "((\<exists>db'. permit_effect h auth db cl n now = Inr (db', APPENDED)) \<longleftrightarrow>
      (\<exists>r. claim_holds db cl now r \<and> placed_as_approved db (claim_command cl) (row_command r)) \<and>
      auth db (claim_command cl) \<and> name_is_free db (claim_command cl) n) \<and>
    (permit_effect h auth db cl n now = Inr (db', APPENDED) \<longrightarrow>
      (\<exists>r. claim_holds db cl now r \<and> map_of (commands db') = (map_of (commands db))((scope (claim_command cl), command_id (claim_command cl)) \<mapsto>
         r\<lparr>row_state := EFFECT_STARTED, row_lease := None, row_task_name := Some n, row_effect_at := Some now\<rparr>)) \<and>
      (\<forall>a. map_of (attempts db) (scope (claim_command cl), attempt_id (claim_command cl)) = Some a \<longrightarrow>
         map_of (attempts db') = (map_of (attempts db))((scope (claim_command cl), attempt_id (claim_command cl)) \<mapsto>
           a\<lparr>ar_control_state := ''RUNNING'', ar_version := ar_version a + 1\<rparr>)))"
proof (intro conjI impI)
  show "(\<exists>db'. permit_effect h auth db cl n now = Inr (db', APPENDED)) \<longleftrightarrow>
      (\<exists>r. claim_holds db cl now r \<and> placed_as_approved db (claim_command cl) (row_command r)) \<and>
      auth db (claim_command cl) \<and> name_is_free db (claim_command cl) n" (is "?l \<longleftrightarrow> ?r")
  proof
    assume ?l
    then show ?r using permit_effect_cases by (fastforce simp: effect_permitted_iff)
  next
    assume ?r
    then obtain r where p: "effect_permitted auth db cl n now r" by (auto simp: effect_permitted_iff)
    then have "\<not> started db (key_of (claim_command cl))"
      by (auto simp: effect_permitted_def started_def locked_claim_iff effect_state_def)
    then have "length (effect_facts db (key_of (claim_command cl))) = 0"
      using assms unfolding dispatch_inv_alt by (metis (full_types))
    then show ?l using permit_effect_ok [OF p] by (auto simp: effect_facts_def filter_empty_conv)
  qed
next
  assume "permit_effect h auth db cl n now = Inr (db', APPENDED)"
  from permit_effect_cases [OF this] obtain r where "effect_permitted auth db cl n now r"
    "commands db' = AList.update (key_of (claim_command cl)) (effect_row n now r) (commands db)" by auto
  then show "\<exists>r. claim_holds db cl now r \<and> map_of (commands db') = (map_of (commands db))((scope (claim_command cl), command_id (claim_command cl)) \<mapsto>
      r\<lparr>row_state := EFFECT_STARTED, row_lease := None, row_task_name := Some n, row_effect_at := Some now\<rparr>)"
    by (intro exI [of _ r]) (simp add: effect_permitted_iff effect_row_def key_of_def)
next
  assume "permit_effect h auth db cl n now = Inr (db', APPENDED)"
  then show "\<forall>a. map_of (attempts db) (scope (claim_command cl), attempt_id (claim_command cl)) = Some a \<longrightarrow>
      map_of (attempts db') = (map_of (attempts db))((scope (claim_command cl), attempt_id (claim_command cl)) \<mapsto>
        a\<lparr>ar_control_state := ''RUNNING'', ar_version := ar_version a + 1\<rparr>)"
    using permit_effect_attempts by blast
qed

theorem effect_started_iff_permitted_witness:
  "placed_as_approved example_claimed example_command example_command \<and>
   \<not> (\<exists>db'. permit_effect example_hashes (\<lambda>_ _. True) (example_claimed\<lparr>plans := []\<rparr>) (example_claim 1 ''w1'') ''native-1'' 1 = Inr (db', APPENDED))"
proof -
  note iff = effect_started_iff_permitted [THEN conjunct1]
  have c: "claim_command (example_claim 1 ''w1'') = example_command" by (simp add: example_claim_def)
  obtain r where r: "claim_holds example_claimed (example_claim 1 ''w1'') 1 r" "placed_as_approved example_claimed example_command (row_command r)"
    using iff [OF example_claimed_inv, of example_hashes "\<lambda>_ _. True" "example_claim 1 ''w1''" "''native-1''" 1] example_permit c by auto
  have "row_command r = example_command" using r(1) by (auto simp: claim_holds_def example_defs)
  moreover have "dispatch_inv (example_claimed\<lparr>plans := []\<rparr>)" using example_claimed_inv
    by (simp add: dispatch_inv_alt schema_ok_def started_def effect_facts_def facts_of_def)
  moreover have "\<not> placed_as_approved (example_claimed\<lparr>plans := []\<rparr>) c s" for c s by (simp add: placed_as_approved_def)
  ultimately show ?thesis using r(2) iff [of "example_claimed\<lparr>plans := []\<rparr>"] by auto
qed

text \<open>
  C9: fencing: once a command was claimed again with a higher generation, the earlier claim can
  never permit an effect, record a correlation, an uncertain outcome or a completion, whatever
  transactions follow.
\<close>

theorem stale_claims_are_fenced:
  assumes "schema_ok db" and "map_of (commands db) (key_of (claim_command cl)) = Some r"
    and "claim_generation cl < row_generation r" and "(dispatch_tx h auth)\<^sup>*\<^sup>* db db'"
  shows "\<not> is_ok (permit_effect h auth db' cl n now) \<and> \<not> is_ok (record_kubernetes_correlation h db' cl n u) \<and>
    \<not> is_ok (record_uncertain h db' cl ob) \<and> \<not> is_ok (append_native_completion h db' cl ob items oid w g)"
proof -
  have "\<exists>r'. map_of (commands db') (key_of (claim_command cl)) = Some r' \<and> claim_generation cl < row_generation r'"
    using dispatch_run [OF assms(4,1,2), of "\<lambda>q. claim_generation cl < row_generation q"] assms(3)
      row_moves_generation by fastforce
  then obtain r' where r': "map_of (commands db') (key_of (claim_command cl)) = Some r'"
    "claim_generation cl < row_generation r'" by blast
  note rejected = stale_claim_rejected [OF r']
  show ?thesis by (intro conjI rejected)
qed

theorem stale_claims_are_fenced_witness:
  "\<not> is_ok (permit_effect example_hashes (\<lambda>_ _. True) example_reclaimed (example_claim 1 ''w1'') ''native-1'' 1)"
proof -
  obtain p where "claim_next example_hashes example_claimed ''w2'' ''tok'' 40000000 30 {} = Inr p"
    using example_reclaim by (auto simp: is_ok_iff)
  then have "dispatch_tx example_hashes (\<lambda>_ _. True) example_claimed example_reclaimed"
    using example_reclaim by (cases p) (auto intro: tx_claim)
  then have s: "schema_ok example_reclaimed"
    using dispatch_inv_step example_claimed_inv unfolding dispatch_inv_def by blast
  have m: "map_of (commands example_reclaimed) (key_of (claim_command (example_claim 1 ''w1''))) =
      Some (example_claimed_row 2 ''w2'' 70000000)" by (simp add: example_defs)
  have g: "claim_generation (example_claim 1 ''w1'') < row_generation (example_claimed_row 2 ''w2'' 70000000)"
    by (simp add: example_defs)
  show ?thesis using stale_claims_are_fenced [OF s m g rtranclp.rtrancl_refl] by blast
qed

text \<open>
  A terminal command is final: no transaction changes its row again, so its state, its terminal
  observation and its claim stay as recorded.
\<close>

theorem terminal_commands_are_final:
  assumes "schema_ok db" and "map_of (commands db) k = Some r" and "terminal_state (row_state r)"
    and "(dispatch_tx h auth)\<^sup>*\<^sup>* db db'"
  shows "map_of (commands db') k = Some r"
  using dispatch_run [OF assms(4,1,2), of "\<lambda>q. q = r"] row_moves_terminal assms(3) by blast

theorem terminal_commands_are_final_witness:
  "map_of (commands (example_db\<lparr>commands := [((example_scope, ''c1''), terminal_row example_hashes example_observation
      (effect_row ''native-1'' 1 (example_claimed_row 1 ''w1'' 30000000)))], outcomes := []\<rparr>))
     (example_scope, ''c1'') = Some (terminal_row example_hashes example_observation
      (effect_row ''native-1'' 1 (example_claimed_row 1 ''w1'' 30000000)))"
proof -
  define r where "r = terminal_row example_hashes example_observation
      (effect_row ''native-1'' 1 (example_claimed_row 1 ''w1'' 30000000))"
  let ?db = "example_db\<lparr>commands := [((example_scope, ''c1''), r)]\<rparr>"
  have ok: "row_ok r" and t: "terminal_state (row_state r)" unfolding r_def by code_simp+
  have "key_of (row_command r) = (example_scope, ''c1'')" by (simp add: r_def terminal_row_def example_defs)
  then have s: "schema_ok ?db" using ok t by (simp add: schema_ok_def)
  have m: "map_of (commands ?db) (example_scope, ''c1'') = Some r" by simp
  have "(dispatch_tx example_hashes (\<lambda>_ _. True))\<^sup>*\<^sup>* ?db (?db\<lparr>outcomes := []\<rparr>)"
    by (rule r_into_rtranclp, rule tx_other) simp_all
  from terminal_commands_are_final [OF s m t this] show ?thesis by (simp add: r_def)
qed

text \<open>
  A Task that disappears after it was correlated cannot be recorded: the observation of the
  missing Task carries no UID, the row does, and both ways to record a terminal state reject it
  in every state in which the command is started and correlated; the command stays
  \<open>EFFECT_STARTED\<close>.
\<close>

theorem missing_task_is_never_recorded:
  assumes "locked_claim db cl = Inr r" and "row_state r = EFFECT_STARTED" and "row_terminal_digest r = None"
    and "row_task_uid r = Some u" and "obs_task_uid ob = None" and "obs_kind ob = T_RECOVERY_REQUIRED"
  shows "record_uncertain h db cl ob = Inl ''NATIVE_DISPATCH_CORRELATION_CONFLICT'' \<and>
    append_native_completion h db cl ob items oid w g = Inl ''NATIVE_DISPATCH_CLAIM_STALE''"
proof -
  have m: "map_of (commands db) (key_of (claim_command cl)) = Some r" using assms(1) by (simp add: locked_claim_iff)
  have "mark_terminal h db cl ob = Inl ''NATIVE_DISPATCH_CLAIM_STALE''"
    using m assms by (simp add: mark_terminal_def Let_def)
  then show ?thesis using assms by (simp add: record_uncertain_def append_native_completion_def Let_def)
qed

definition example_missing :: terminal_observation where
  "example_missing = \<lparr>obs_command_id = ''c1'', obs_kind = T_RECOVERY_REQUIRED, obs_task_name = ''native-1'',
     obs_task_uid = None, obs_output = None, obs_reason = Some ''KUBERNETES_TASK_MISSING'', obs_at = 5\<rparr>"

theorem missing_task_is_never_recorded_witness:
  "record_uncertain example_hashes example_correlated (example_claim 1 ''w1'') example_missing
     = Inl ''NATIVE_DISPATCH_CORRELATION_CONFLICT''"
proof -
  define r where "r = (effect_row ''native-1'' 1 (example_claimed_row 1 ''w1'' 30000000))\<lparr>row_task_uid := Some ''uid-1''\<rparr>"
  have "locked_claim example_correlated (example_claim 1 ''w1'') = Inr r"
    by (simp add: r_def locked_claim_iff example_defs)
  moreover have "row_state r = EFFECT_STARTED" "row_terminal_digest r = None" "row_task_uid r = Some ''uid-1''"
    by (simp_all add: r_def example_defs)
  ultimately show ?thesis
    using missing_task_is_never_recorded [of example_correlated "example_claim 1 ''w1''" r "''uid-1''" example_missing]
    by (simp add: example_missing_def)
qed

end
