(* ===== verification/Task_Execution.thy ===== *)
theory Task_Execution
  imports Prelude Complex_Main
begin

text \<open>
  Task execution errors and retries: \<open>operator/src/agent_operator/errors.py\<close>, \<open>retry.py\<close> and the
  Agent Runtime invocation of \<open>task_controller.py\<close>.

  The exceptions of the HTTP client are a datatype with the client's documented class hierarchy.
  The clock, \<open>time.sleep\<close> and the retried operation are functions over an arbitrary world \<open>'w\<close>;
  a clock reading may itself take time. Times are real numbers, without the rounding of floats.

  The lemmas show which failures are retried, that the retry loop stops, how often it calls the
  operation, with which time budget, and what it reports.
\<close>

subsection \<open>Errors\<close>

record task_execution_error =
  reason :: string
  message :: string
  retryable :: bool

definition execution_timeout_error :: task_execution_error where
  "execution_timeout_error = \<lparr>reason = ''ExecutionTimeout'',
     message = ''task execution deadline exceeded'', retryable = False\<rparr>"

datatype http_error =
    ConnectTimeout string | ReadTimeout string | WriteTimeout string | PoolTimeout string
  | ConnectError string | ReadError string | WriteError string | CloseError string
  | RemoteProtocolError string | OtherHTTPError string
  | HTTPStatusError int string

definition is_timeout :: "http_error \<Rightarrow> bool" where
  "is_timeout e = (case e of ConnectTimeout _ \<Rightarrow> True | ReadTimeout _ \<Rightarrow> True
     | WriteTimeout _ \<Rightarrow> True | PoolTimeout _ \<Rightarrow> True | _ \<Rightarrow> False)"

definition is_network :: "http_error \<Rightarrow> bool" where
  "is_network e = (case e of ConnectError _ \<Rightarrow> True | ReadError _ \<Rightarrow> True
     | WriteError _ \<Rightarrow> True | CloseError _ \<Rightarrow> True | _ \<Rightarrow> False)"

fun error_text :: "http_error \<Rightarrow> string" where
  "error_text (ConnectTimeout m) = m"
| "error_text (ReadTimeout m) = m"
| "error_text (WriteTimeout m) = m"
| "error_text (PoolTimeout m) = m"
| "error_text (ConnectError m) = m"
| "error_text (ReadError m) = m"
| "error_text (WriteError m) = m"
| "error_text (CloseError m) = m"
| "error_text (RemoteProtocolError m) = m"
| "error_text (OtherHTTPError m) = m"
| "error_text (HTTPStatusError _ m) = m"

definition status_of :: "http_error \<Rightarrow> int option" where
  "status_of e = (case e of HTTPStatusError c _ \<Rightarrow> Some c | _ \<Rightarrow> None)"

definition classify_http_error :: "http_error \<Rightarrow> task_execution_error" where
  "classify_http_error e =
     (let err = (\<lambda>r b. \<lparr>reason = r, message = error_text e, retryable = b\<rparr>) in
      if is_timeout e then err ''UpstreamTimeout'' True
      else if is_network e then err ''NetworkError'' True
      else case status_of e of
        None \<Rightarrow> err ''InternalError'' False
      | Some c \<Rightarrow>
          if c = 429 then err ''RateLimited'' True
          else if c = 502 \<or> c = 503 \<or> c = 504 then err ''UpstreamUnavailable'' True
          else if c = 400 then err ''InvalidRequest'' False
          else if c = 401 then err ''AuthenticationError'' False
          else if c = 403 then err ''AuthorizationError'' False
          else if c = 404 then err ''AgentNotFound'' False
          else err ''InternalError'' False)"

subsection \<open>Invocation of the Agent Runtime\<close>

record http_request =
  req_url :: string
  req_input :: string
  req_timeout :: real
  req_identity :: "string option"

datatype invoke_error =
    TaskFailure task_execution_error
  | AttributeFailure

definition build_agent_service_url :: "string \<Rightarrow> string \<Rightarrow> string" where
  "build_agent_service_url agent_name namespace =
     ''http://'' @ agent_name @ ''.'' @ namespace @ ''.svc.cluster.local:8080/v1/invoke''"

definition outcome_unknown :: "http_error \<Rightarrow> bool" where
  "outcome_unknown e = (case e of ReadError _ \<Rightarrow> True | ReadTimeout _ \<Rightarrow> True
     | RemoteProtocolError _ \<Rightarrow> True | WriteError _ \<Rightarrow> True | WriteTimeout _ \<Rightarrow> True | _ \<Rightarrow> False)"

text \<open>
  \<open>invalid_response\<close> carries the text of the exception that was caught: \<open>KeyError\<close> prints the
  quoted key; the texts of the decoder and of a failing subscript belong to the interpreter.
\<close>

definition invalid_response :: "string \<Rightarrow> task_execution_error" where
  "invalid_response detail = \<lparr>reason = ''InvalidResponse'',
     message = ''invalid Agent Runtime response: '' @ detail, retryable = False\<rparr>"

definition read_payload ::
  "string \<Rightarrow> string \<Rightarrow> string option \<Rightarrow> json option \<Rightarrow> (invoke_error, json) result" where
  "read_payload decode_text subscript_text ident body =
     (case body of
        None \<Rightarrow> Inl (TaskFailure (invalid_response decode_text))
      | Some payload \<Rightarrow>
          if ident \<noteq> None \<and> \<not> is_obj payload then Inl AttributeFailure
          else if ident \<noteq> None \<and> jget payload ''platform_execution_identity'' \<noteq> map_option JStr ident
            then Inl (TaskFailure \<lparr>reason = ''InvalidResponse'',
              message = ''Runtime response execution identity mismatch'', retryable = False\<rparr>)
          else if \<not> is_obj payload then Inl (TaskFailure (invalid_response subscript_text))
          else case jget payload ''output'' of
            None \<Rightarrow> Inl (TaskFailure (invalid_response (py_repr ''output'')))
          | Some v \<Rightarrow> Inr v)"

text \<open>
  \<open>post\<close> is the HTTP exchange including \<open>raise_for_status\<close>: the error of the client, or the
  decoded body (\<open>None\<close> when it is not JSON).
\<close>

definition invoke_agent ::
  "('w \<Rightarrow> http_request \<Rightarrow> 'w \<times> (http_error, json option) result) \<Rightarrow> string \<Rightarrow> string
   \<Rightarrow> string \<Rightarrow> string \<Rightarrow> string \<Rightarrow> real \<Rightarrow> string option \<Rightarrow> 'w \<Rightarrow> 'w \<times> (invoke_error, json) result" where
  "invoke_agent post decode_text subscript_text agent_name namespace prompt timeout ident w =
     (case post w \<lparr>req_url = build_agent_service_url agent_name namespace, req_input = prompt,
         req_timeout = timeout, req_identity = ident\<rparr> of
        (w', Inl e) \<Rightarrow> (w', Inl (TaskFailure
          (if outcome_unknown e then \<lparr>reason = ''ExecutionOutcomeUnknown'',
             message = ''Runtime transport failed after invocation may have started; automatic retry was suppressed'',
             retryable = False\<rparr>
           else classify_http_error e)))
      | (w', Inr body) \<Rightarrow> (w', read_payload decode_text subscript_text ident body))"

subsection \<open>Retries\<close>

definition DEFAULT_MAX_ATTEMPTS :: int where
  "DEFAULT_MAX_ATTEMPTS = 3"

definition DEFAULT_INITIAL_BACKOFF_SECONDS :: real where
  "DEFAULT_INITIAL_BACKOFF_SECONDS = 1"

definition RATE_LIMIT_INITIAL_BACKOFF_SECONDS :: real where
  "RATE_LIMIT_INITIAL_BACKOFF_SECONDS = 5"

definition calculate_backoff_seconds :: "task_execution_error \<Rightarrow> int \<Rightarrow> real \<Rightarrow> real" where
  "calculate_backoff_seconds err attempt initial =
     (if reason err = ''RateLimited'' then max initial RATE_LIMIT_INITIAL_BACKOFF_SECONDS else initial)
       * 2 ^ nat (attempt - 1)"

datatype 'x retry_error =
    ValueFailure
  | RetryExhausted task_execution_error int
  | OtherFailure 'x
  | RuntimeFailure

datatype ('x, 'a) op_outcome =
    OpReturned 'a
  | OpTaskError task_execution_error
  | OpRaised 'x

record ('w, 'x, 'a) retry_env =
  monotonic :: "'w \<Rightarrow> 'w \<times> real"
  sleep :: "'w \<Rightarrow> real \<Rightarrow> 'w"
  operation :: "'w \<Rightarrow> real \<Rightarrow> 'w \<times> ('x, 'a) op_outcome"

text \<open>The body of the loop for the attempts that are left, \<open>range(attempt, max_attempts + 1)\<close>.\<close>

fun retry_loop ::
  "('w, 'x, 'a) retry_env \<Rightarrow> real \<Rightarrow> int \<Rightarrow> real \<Rightarrow> nat \<Rightarrow> int \<Rightarrow> 'w
   \<Rightarrow> 'w \<times> ('x retry_error, 'a \<times> int) result" where
  "retry_loop env deadline max_attempts initial 0 attempt w = (w, Inl RuntimeFailure)"
| "retry_loop env deadline max_attempts initial (Suc n) attempt w =
     (case monotonic env w of (w1, t1) \<Rightarrow>
        if deadline - t1 \<le> 0 then (w1, Inl (RetryExhausted execution_timeout_error (attempt - 1)))
        else case operation env w1 (deadline - t1) of
          (w2, OpReturned r) \<Rightarrow> (w2, Inr (r, attempt))
        | (w2, OpRaised x) \<Rightarrow> (w2, Inl (OtherFailure x))
        | (w2, OpTaskError err) \<Rightarrow>
            if \<not> retryable err \<or> attempt = max_attempts then (w2, Inl (RetryExhausted err attempt))
            else let backoff = calculate_backoff_seconds err attempt initial in
              (case monotonic env w2 of (w3, t3) \<Rightarrow>
                 if deadline - t3 \<le> backoff
                 then (w3, Inl (RetryExhausted execution_timeout_error attempt))
                 else retry_loop env deadline max_attempts initial n (attempt + 1)
                   (sleep env w3 backoff)))"

definition execute_with_retry ::
  "('w, 'x, 'a) retry_env \<Rightarrow> real \<Rightarrow> int \<Rightarrow> real \<Rightarrow> 'w \<Rightarrow> 'w \<times> ('x retry_error, 'a \<times> int) result" where
  "execute_with_retry env timeout max_attempts initial w =
     (if max_attempts < 1 then (w, Inl ValueFailure)
      else if timeout \<le> 0 then (w, Inl ValueFailure)
      else case monotonic env w of (w', t) \<Rightarrow>
        retry_loop env (t + timeout) max_attempts initial (nat max_attempts) 1 w')"

subsection \<open>The protocol of the retry loop\<close>

text \<open>What an observer of the operation and of \<open>time.sleep\<close> sees.\<close>

datatype ('x, 'a) retry_event =
    Called real "('x, 'a) op_outcome"
  | Slept real

definition logged ::
  "('w, 'x, 'a) retry_env \<Rightarrow> ('w \<times> ('x, 'a) retry_event list, 'x, 'a) retry_env" where
  "logged env = \<lparr>
     monotonic = (\<lambda>(w, es). case monotonic env w of (w', t) \<Rightarrow> ((w', es), t)),
     sleep = (\<lambda>(w, es) s. (sleep env w s, es @ [Slept s])),
     operation = (\<lambda>(w, es) b. case operation env w b of (w', out) \<Rightarrow> ((w', es @ [Called b out]), out))\<rparr>"

fun retry_protocol ::
  "int \<Rightarrow> real \<Rightarrow> int \<Rightarrow> ('x, 'a) retry_event list \<Rightarrow> ('x retry_error, 'a \<times> int) result \<Rightarrow> bool" where
  "retry_protocol mx ini k [] res \<longleftrightarrow> res = Inl (RetryExhausted execution_timeout_error (k - 1))"
| "retry_protocol mx ini k [Called b out] res \<longleftrightarrow> 0 < b \<and> k \<le> mx \<and>
     (case out of
        OpReturned r \<Rightarrow> res = Inr (r, k)
      | OpRaised x \<Rightarrow> res = Inl (OtherFailure x)
      | OpTaskError e \<Rightarrow> if \<not> retryable e \<or> k = mx then res = Inl (RetryExhausted e k)
          else res = Inl (RetryExhausted execution_timeout_error k))"
| "retry_protocol mx ini k (Called b (OpTaskError e) # Slept s # es) res \<longleftrightarrow> 0 < b \<and> k < mx \<and>
     retryable e \<and> s = calculate_backoff_seconds e k ini \<and> retry_protocol mx ini (k + 1) es res"
| "retry_protocol mx ini k es res \<longleftrightarrow> False"

definition calls :: "('x, 'a) retry_event list \<Rightarrow> ('x, 'a) retry_event list" where
  "calls es = filter (\<lambda>e. case e of Called _ _ \<Rightarrow> True | Slept _ \<Rightarrow> False) es"

lemma calls_simps [simp]:
  "calls [] = []"
  "calls (Called b out # es) = Called b out # calls es"
  "calls (Slept s # es) = calls es"
  by (simp_all add: calls_def)

lemma protocol_calls:
  "retry_protocol mx ini k es res \<Longrightarrow> k \<le> mx + 1 \<Longrightarrow>
   int (length (calls es)) \<le> mx + 1 - k \<and>
   (case res of Inr (r, n) \<Rightarrow> n = k - 1 + int (length (calls es))
    | Inl (RetryExhausted e n) \<Rightarrow> n = k - 1 + int (length (calls es))
    | Inl (OtherFailure x) \<Rightarrow> True
    | Inl _ \<Rightarrow> False)"
proof (induction mx ini k es res rule: retry_protocol.induct)
  case (2 mx ini k b out res)
  then show ?case by (auto split: op_outcome.splits if_splits)
next
  case (3 mx ini k b e s es res)
  then show ?case by (auto split: sum.splits retry_error.splits)
qed auto

lemma retry_loop_protocol:
  assumes "int n = mx + 1 - k" and "0 < n"
  shows "\<exists>w' es'. \<exists>res. retry_loop (logged env) d mx ini n k (w, es) = ((w', es @ es'), res) \<and>
    retry_protocol mx ini k es' res"
  using assms
proof (induction n arbitrary: k w es)
  case (Suc n)
  obtain w1 t1 where m1: "monotonic env w = (w1, t1)" by fastforce
  then have l1: "monotonic (logged env) (w, es) = ((w1, es), t1)" by (simp add: logged_def)
  show ?case
  proof (cases "d - t1 \<le> 0")
    case True
    then show ?thesis using l1 by (intro exI [of _ w1] exI [of _ "[]"]) simp
  next
    case False
    let ?b = "d - t1"
    obtain w2 out where o2: "operation env w1 ?b = (w2, out)" by fastforce
    then have l2: "operation (logged env) (w1, es) ?b = ((w2, es @ [Called ?b out]), out)"
      by (simp add: logged_def)
    have k: "k \<le> mx" using Suc.prems by simp
    show ?thesis
    proof (cases out)
      case (OpReturned r)
      then show ?thesis using l1 l2 False k
        by (intro exI [of _ w2] exI [of _ "[Called ?b out]"]) simp
    next
      case (OpRaised x)
      then show ?thesis using l1 l2 False k
        by (intro exI [of _ w2] exI [of _ "[Called ?b out]"]) simp
    next
      case (OpTaskError e)
      obtain w3 t3 where m3: "monotonic env w2 = (w3, t3)" by fastforce
      let ?s = "calculate_backoff_seconds e k ini"
      let ?es = "es @ [Called ?b out]"
      have l3: "monotonic (logged env) (w2, ?es) = ((w3, ?es), t3)"
        using m3 by (simp add: logged_def)
      consider "\<not> retryable e \<or> k = mx" | "retryable e" "k \<noteq> mx" "d - t3 \<le> ?s"
        | "retryable e" "k \<noteq> mx" "\<not> d - t3 \<le> ?s" by blast
      then show ?thesis
      proof cases
        case 1
        then show ?thesis using l1 l2 False k OpTaskError
          by (intro exI [of _ w2] exI [of _ "[Called ?b out]"]) auto
      next
        case 2
        then show ?thesis using l1 l2 l3 False k OpTaskError
          by (intro exI [of _ w3] exI [of _ "[Called ?b out]"]) auto
      next
        case 3
        then have "int n = mx + 1 - (k + 1)" and "0 < n" using Suc.prems k by auto
        from Suc.IH [OF this, of "sleep env w3 ?s" "?es @ [Slept ?s]"]
        obtain w' es' res where ih: "retry_loop (logged env) d mx ini n (k + 1)
            (sleep env w3 ?s, ?es @ [Slept ?s]) = ((w', (?es @ [Slept ?s]) @ es'), res)"
          "retry_protocol mx ini (k + 1) es' res" by blast
        moreover have "sleep (logged env) (w3, ?es) ?s = (sleep env w3 ?s, ?es @ [Slept ?s])"
          by (simp add: logged_def)
        ultimately show ?thesis using 3 l1 l2 l3 False k OpTaskError
          by (intro exI [of _ w'] exI [of _ "Called ?b out # Slept ?s # es'"] exI [of _ res])
            (simp add: Let_def)
      qed
    qed
  qed
qed simp

text \<open>Logging does not change the run.\<close>

lemma retry_loop_logged:
  "\<exists>es'. retry_loop (logged env) d mx ini n k (w, es) =
     ((fst (retry_loop env d mx ini n k w), es'), snd (retry_loop env d mx ini n k w))"
proof (induction n arbitrary: k w es)
  case (Suc n)
  obtain w1 t1 where m1: "monotonic env w = (w1, t1)" by fastforce
  obtain w2 out where o2: "operation env w1 (d - t1) = (w2, out)" by fastforce
  obtain w3 t3 where m3: "monotonic env w2 = (w3, t3)" by fastforce
  note defs = logged_def m1 o2 m3 Let_def
  show ?case
  proof (cases "d - t1 \<le> 0 \<or> (\<forall>e. out = OpTaskError e \<longrightarrow> \<not> retryable e \<or> k = mx \<or>
      d - t3 \<le> calculate_backoff_seconds e k ini)")
    case True
    then show ?thesis by (cases out) (auto simp: defs)
  next
    case False
    then obtain e where e: "out = OpTaskError e" "retryable e" "k \<noteq> mx" "\<not> d - t1 \<le> 0"
      "\<not> d - t3 \<le> calculate_backoff_seconds e k ini" by auto
    then show ?thesis
      using Suc.IH [of "k + 1" "sleep env w3 (calculate_backoff_seconds e k ini)"] by (simp add: defs)
  qed
qed simp

lemma retry_loop_log_prefix:
  "retry_loop (logged env) d mx ini n k (w, es) = ((w', es2), res) \<Longrightarrow> \<exists>rest. es2 = es @ rest"
proof (induction n arbitrary: k w es)
  case (Suc n)
  obtain w1 t1 where m1: "monotonic env w = (w1, t1)" by fastforce
  obtain w2 out where o2: "operation env w1 (d - t1) = (w2, out)" by fastforce
  obtain w3 t3 where m3: "monotonic env w2 = (w3, t3)" by fastforce
  show ?case using Suc.prems
    by (auto simp: logged_def m1 o2 m3 Let_def split: if_splits op_outcome.splits
        dest!: Suc.IH [unfolded logged_def])
qed simp

subsection \<open>The time budget\<close>

text \<open>
  \<open>time.monotonic\<close> does not go backwards and \<open>time.sleep\<close> sleeps at least as long as asked.
\<close>

definition clock_laws :: "('w \<Rightarrow> real) \<Rightarrow> ('w, 'x, 'a) retry_env \<Rightarrow> bool" where
  "clock_laws clock env \<longleftrightarrow>
     (\<forall>w. clock w \<le> snd (monotonic env w) \<and> snd (monotonic env w) \<le> clock (fst (monotonic env w))) \<and>
     (\<forall>w s. clock w + s \<le> clock (sleep env w s)) \<and>
     (\<forall>w b. clock w \<le> clock (fst (operation env w b)))"

fun slept :: "('x, 'a) retry_event list \<Rightarrow> real" where
  "slept [] = 0"
| "slept (Slept s # es) = s + slept es"
| "slept (Called b out # es) = slept es"

fun within_budget :: "real \<Rightarrow> ('x, 'a) retry_event list \<Rightarrow> bool" where
  "within_budget left [] \<longleftrightarrow> True"
| "within_budget left (Called b out # es) \<longleftrightarrow> 0 < b \<and> b \<le> left \<and> within_budget left es"
| "within_budget left (Slept s # es) \<longleftrightarrow> s < left \<and> within_budget (left - s) es"

lemma within_budget_mono: "within_budget l es \<Longrightarrow> l \<le> l' \<Longrightarrow> within_budget l' es"
  by (induction l es arbitrary: l' rule: within_budget.induct) auto

lemma retry_loop_budget:
  assumes c: "clock_laws clock env"
  shows "retry_loop (logged env) d mx ini n k (w, es) = ((w', es @ es'), res) \<Longrightarrow>
    within_budget (d - clock w) es'"
proof (induction n arbitrary: k w es es')
  case (Suc n)
  obtain w1 t1 where m1: "monotonic env w = (w1, t1)" by fastforce
  obtain w2 out where o2: "operation env w1 (d - t1) = (w2, out)" by fastforce
  obtain w3 t3 where m3: "monotonic env w2 = (w3, t3)" by fastforce
  have t: "clock w \<le> t1" "t1 \<le> clock w1" "clock w1 \<le> clock w2" "clock w2 \<le> t3" "t3 \<le> clock w3"
    using c m1 o2 m3 unfolding clock_laws_def by (metis fst_conv snd_conv)+
  note defs = logged_def m1 o2 m3 Let_def
  show ?case
  proof (cases "d - t1 \<le> 0 \<or> (\<forall>e. out = OpTaskError e \<longrightarrow> \<not> retryable e \<or> k = mx \<or>
      d - t3 \<le> calculate_backoff_seconds e k ini)")
    case True
    then show ?thesis using Suc.prems t by (cases out) (auto simp: defs split: if_splits)
  next
    case False
    then obtain e where e: "out = OpTaskError e" "retryable e" "k \<noteq> mx" "\<not> d - t1 \<le> 0"
      "\<not> d - t3 \<le> calculate_backoff_seconds e k ini" by auto
    let ?s = "calculate_backoff_seconds e k ini"
    let ?w = "sleep env w3 ?s"
    let ?es = "es @ [Called (d - t1) out, Slept ?s]"
    have run: "retry_loop (logged env) d mx ini n (k + 1) (?w, ?es) = ((w', es @ es'), res)"
      using Suc.prems e by (simp add: defs)
    then obtain rest where r: "es' = [Called (d - t1) out, Slept ?s] @ rest"
      using retry_loop_log_prefix [OF run] by auto
    have "within_budget (d - clock ?w) rest" using Suc.IH [of "k + 1" ?w ?es rest] run r by simp
    moreover have "clock w3 + ?s \<le> clock ?w" using c unfolding clock_laws_def by blast
    ultimately have "within_budget (d - clock w - ?s) rest"
      using t by (elim within_budget_mono) linarith
    then show ?thesis using r e t by simp
  qed
qed simp

subsection \<open>Properties\<close>

lemma execute_logged:
  "\<exists>es. execute_with_retry (logged env) timeout mx ini (w, []) =
     ((fst (execute_with_retry env timeout mx ini w), es), snd (execute_with_retry env timeout mx ini w))"
proof -
  obtain w1 t1 where "monotonic env w = (w1, t1)" by fastforce
  then show ?thesis
    using retry_loop_logged [of env "t1 + timeout" mx ini "nat mx" 1 w1 "[]"]
    by (simp add: execute_with_retry_def logged_def)
qed

lemma execute_protocol:
  assumes "1 \<le> mx" and "0 < timeout"
    and "execute_with_retry (logged env) timeout mx ini (w, []) = ((w', es), res)"
  shows "retry_protocol mx ini 1 es res"
proof -
  obtain w1 t1 where m: "monotonic env w = (w1, t1)" by fastforce
  have "int (nat mx) = mx + 1 - 1" and "0 < nat mx" using assms(1) by auto
  from retry_loop_protocol [OF this, of env "t1 + timeout" ini w1 "[]"]
  show ?thesis using assms m by (auto simp: execute_with_retry_def logged_def)
qed

text \<open>
  C27: \<open>execute_with_retry\<close> follows its protocol whatever the clock and the operation do: it calls
  the operation at most \<open>max_attempts\<close> times and always with a positive budget, calls it again
  only after a retryable error and after sleeping exactly the exponential backoff of that
  attempt, reports the number of calls it made, and never leaves its loop without an answer.
\<close>

theorem retry_follows_protocol:
  assumes "1 \<le> mx" and "0 < timeout"
  shows "\<exists>es. execute_with_retry (logged env) timeout mx ini (w, []) =
      ((fst (execute_with_retry env timeout mx ini w), es), snd (execute_with_retry env timeout mx ini w)) \<and>
    retry_protocol mx ini 1 es (snd (execute_with_retry env timeout mx ini w)) \<and>
    int (length (calls es)) \<le> mx \<and>
    (case snd (execute_with_retry env timeout mx ini w) of
       Inr (r, n) \<Rightarrow> n = int (length (calls es))
     | Inl (RetryExhausted e n) \<Rightarrow> n = int (length (calls es))
     | Inl (OtherFailure x) \<Rightarrow> True
     | Inl _ \<Rightarrow> False)"
proof -
  obtain es where es: "execute_with_retry (logged env) timeout mx ini (w, []) =
      ((fst (execute_with_retry env timeout mx ini w), es), snd (execute_with_retry env timeout mx ini w))"
    using execute_logged [of env timeout mx ini w] by (elim exE)
  have p: "retry_protocol mx ini 1 es (snd (execute_with_retry env timeout mx ini w))"
    by (rule execute_protocol [OF assms es])
  show ?thesis using es p protocol_calls [OF p] assms(1)
    by (intro exI [of _ es]) (auto split: sum.splits retry_error.splits)
qed

text \<open>An environment whose clock is the world and whose operation answers 503 after one second.\<close>

definition example_env :: "(real, unit, string) retry_env" where
  "example_env = \<lparr>monotonic = (\<lambda>w. (w, w)), sleep = (\<lambda>w s. w + s),
     operation = (\<lambda>w b. (w + 1, OpTaskError (classify_http_error (HTTPStatusError 503 ''busy''))))\<rparr>"

theorem retry_follows_protocol_witness:
  "\<exists>es. retry_protocol 3 1 1 es (snd (execute_with_retry example_env 300 3 1 0)) \<and>
     int (length (calls es)) \<le> 3"
proof -
  have "(1::int) \<le> 3" and "(0::real) < 300" by simp_all
  from retry_follows_protocol [OF this, of example_env 1 0] show ?thesis by blast
qed

text \<open>
  With a clock that does not go backwards and a sleep that is not cut short, every call gets
  a positive budget of at most the time that the sleeps before it have left of
  \<open>timeout_seconds\<close>, and the loop never sleeps past the deadline.
\<close>

theorem retry_within_deadline:
  assumes "clock_laws clock env"
    and "execute_with_retry (logged env) timeout mx ini (w, []) = ((w', es), res)"
  shows "within_budget timeout es"
proof (cases "mx < 1 \<or> timeout \<le> 0")
  case True
  then show ?thesis using assms(2) by (auto simp: execute_with_retry_def split: if_splits)
next
  case False
  obtain w1 t1 where m: "monotonic env w = (w1, t1)" by fastforce
  then have "retry_loop (logged env) (t1 + timeout) mx ini (nat mx) 1 (w1, []) = ((w', [] @ es), res)"
    using assms(2) False by (simp add: execute_with_retry_def logged_def)
  from retry_loop_budget [OF assms(1) this] have "within_budget (t1 + timeout - clock w1) es" .
  moreover have "t1 \<le> clock w1" using assms(1) m unfolding clock_laws_def by (metis fst_conv snd_conv)
  ultimately show ?thesis by (elim within_budget_mono) simp
qed

theorem retry_within_deadline_witness:
  "\<exists>w es res. execute_with_retry (logged example_env) 300 3 1 (0, []) = ((w, es), res) \<and>
     within_budget 300 es"
proof -
  have c: "clock_laws (\<lambda>w. w) example_env" by (simp add: clock_laws_def example_env_def)
  obtain w es res where "execute_with_retry (logged example_env) 300 3 1 (0, []) = ((w, es), res)"
    by (metis surj_pair)
  then show ?thesis using retry_within_deadline [OF c] by blast
qed

text \<open>
  \<open>invoke_agent\<close> reports a failure as retryable exactly for the connection-level failures and
  for the answers 429, 502, 503 and 504; a failure while writing the request or reading the
  reply is never retryable, and neither is any answer that was received.
\<close>

theorem invoke_agent_retryable_iff:
  assumes "invoke_agent post dt st agent ns prompt timeout ident w = (w', Inl (TaskFailure err))"
  shows "retryable err \<longleftrightarrow> (\<exists>e. snd (post w \<lparr>req_url = build_agent_service_url agent ns, req_input = prompt,
         req_timeout = timeout, req_identity = ident\<rparr>) = Inl e \<and>
      ((\<exists>m. e \<in> {ConnectTimeout m, PoolTimeout m, ConnectError m, CloseError m}) \<or>
       (\<exists>c m. e = HTTPStatusError c m \<and> c \<in> {429, 502, 503, 504})))"
proof -
  obtain w1 r where p: "post w \<lparr>req_url = build_agent_service_url agent ns, req_input = prompt,
      req_timeout = timeout, req_identity = ident\<rparr> = (w1, r)" by fastforce
  show ?thesis
  proof (cases r)
    case (Inl e)
    then show ?thesis using assms p
      by (cases e) (auto simp: invoke_agent_def outcome_unknown_def classify_http_error_def
          is_timeout_def is_network_def status_of_def Let_def split: if_splits)
  next
    case (Inr body)
    then show ?thesis using assms p
      by (auto simp: invoke_agent_def read_payload_def invalid_response_def
          split: option.splits if_splits)
  qed
qed

theorem invoke_agent_retryable_iff_witness:
  "\<not> retryable \<lparr>reason = ''ExecutionOutcomeUnknown'',
     message = ''Runtime transport failed after invocation may have started; automatic retry was suppressed'',
     retryable = False\<rparr> \<and>
   snd (invoke_agent (\<lambda>w _. (w, Inl (ReadTimeout ''t''))) [] [] ''a'' ''n'' ''p'' 3 None ()) =
     Inl (TaskFailure \<lparr>reason = ''ExecutionOutcomeUnknown'',
       message = ''Runtime transport failed after invocation may have started; automatic retry was suppressed'',
       retryable = False\<rparr>)"
proof -
  let ?post = "\<lambda>w (_::http_request). (w, Inl (ReadTimeout ''t'')) :: unit \<times> (http_error, json option) result"
  have i: "invoke_agent ?post [] [] ''a'' ''n'' ''p'' 3 None () = ((), Inl (TaskFailure
      \<lparr>reason = ''ExecutionOutcomeUnknown'',
       message = ''Runtime transport failed after invocation may have started; automatic retry was suppressed'',
       retryable = False\<rparr>))"
    by (simp add: invoke_agent_def outcome_unknown_def)
  then show ?thesis using invoke_agent_retryable_iff [OF i] by simp
qed

end
