(* ===== verification/Dispatch_Worker.thy ===== *)
theory Dispatch_Worker
  imports Dispatch_Repository Task_Execution
begin

text \<open>
  The native dispatch worker: \<open>operator/src/agent_operator/native_dispatch_reconciler.py\<close>.

  The Task port builds, creates and reads the Kubernetes Task of a claim. The worker is the small
  step function \<open>worker_step\<close>: \<open>run_once\<close> and \<open>run_claim\<close> cut at every call that leaves the
  process, so that crashes and other processes can come between any two calls. A step consumes an
  event with the answer of the outside world; the process is at a program counter \<open>wpc\<close>, and
  every exception and every crash sends it back to \<open>Idle\<close>, where the next \<open>run_once\<close> starts.
  The repository the worker is given is the record \<open>repository\<close>, with the operations of the
  protocol class \<open>DispatchRepository\<close> and the completion callback.

  The lemmas show in the locale of the repository contract that the Runtime is invoked at most
  once for a command, in every run of any number of processes with crashes; and that a Task is
  accepted only by the claim that created it.
\<close>

subsection \<open>The Kubernetes Task port\<close>

record task_body =
  tb_labels :: "(string, string) dict"
  tb_annotations :: "(string, string) dict"
  tb_uid :: "string option"
  tb_phase :: "string option"
  tb_result :: "string option"
  tb_reason :: "string option"

record task_manifest =
  tm_name :: string
  tm_namespace :: string
  tm_labels :: "(string, string) dict"
  tm_annotations :: "(string, string) dict"
  tm_agent :: string
  tm_prompt :: string
  tm_timeout :: int

datatype 'a api_reply = ApiOk 'a | ApiError int

record 'w task_api =
  api_create :: "'w \<Rightarrow> task_manifest \<Rightarrow> 'w \<times> task_body api_reply"
  api_get :: "'w \<Rightarrow> string \<Rightarrow> string \<Rightarrow> task_body api_reply"

datatype port_error = ApiException int | TaskCorrelationConflict

text \<open>\<open>sha\<close> is the hexadecimal SHA-256 digest of a text.\<close>

definition task_labels :: "(string \<Rightarrow> string) \<Rightarrow> dispatch_command \<Rightarrow> (string, string) dict" where
  "task_labels sha c = [(''agentos.io/native-dispatch-managed'', ''true''),
     (''agentos.io/native-dispatch-command'', take 40 (sha (command_id c)))]"

definition task_annotations :: "(string \<Rightarrow> string) \<Rightarrow> dispatch_claim \<Rightarrow> (string, string) dict" where
  "task_annotations sha cl = (let c = claim_command cl in
     [(''agentos.io/attempt-id'', attempt_id c), (''agentos.io/placement-id'', placement_id c),
      (''agentos.io/runtime-instance-id'', runtime_instance_id c),
      (''agentos.io/runtime-generation'', show_int (runtime_generation c)),
      (''agentos.io/claim-generation'', show_int (claim_generation cl)),
      (''agentos.io/fencing-token-digest'', sha (claim_token cl))])"

definition task_matches :: "(string \<Rightarrow> string) \<Rightarrow> dispatch_claim \<Rightarrow> task_body \<Rightarrow> bool" where
  "task_matches sha cl body =
     (list_all (\<lambda>(k, v). map_of (tb_labels body) k = Some v) (task_labels sha (claim_command cl)) \<and>
      list_all (\<lambda>(k, v). map_of (tb_annotations body) k = Some v) (task_annotations sha cl))"

definition task_manifest_of :: "(string \<Rightarrow> string) \<Rightarrow> dispatch_claim \<Rightarrow> string \<Rightarrow> task_manifest" where
  "task_manifest_of sha cl name = (let c = claim_command cl in
     \<lparr>tm_name = name, tm_namespace = namespace (scope c), tm_labels = task_labels sha c,
      tm_annotations = task_annotations sha cl, tm_agent = agent_name c, tm_prompt = input_text c,
      tm_timeout = timeout_seconds c\<rparr>)"

definition port_read ::
  "'w task_api \<Rightarrow> (string \<Rightarrow> string) \<Rightarrow> 'w \<Rightarrow> dispatch_claim \<Rightarrow> string \<Rightarrow> (port_error, task_body option) result" where
  "port_read api sha w cl name =
     (case api_get api w (namespace (scope (claim_command cl))) name of
        ApiError code \<Rightarrow> if code = 404 then Inr None else Inl (ApiException code)
      | ApiOk body \<Rightarrow> if task_matches sha cl body then Inr (Some body) else Inl TaskCorrelationConflict)"

definition port_create ::
  "'w task_api \<Rightarrow> (string \<Rightarrow> string) \<Rightarrow> 'w \<Rightarrow> dispatch_claim \<Rightarrow> string \<Rightarrow> 'w \<times> (port_error, task_body) result" where
  "port_create api sha w cl name =
     (case api_create api w (task_manifest_of sha cl name) of
        (w', ApiOk body) \<Rightarrow> (w', Inr body)
      | (w', ApiError code) \<Rightarrow>
          if code \<noteq> 409 then (w', Inl (ApiException code))
          else case port_read api sha w' cl name of
            Inl e \<Rightarrow> (w', Inl e)
          | Inr None \<Rightarrow> (w', Inl TaskCorrelationConflict)
          | Inr (Some body) \<Rightarrow> (w', Inr body))"

subsection \<open>Configuration and observations\<close>

definition prefix_char :: "char \<Rightarrow> bool" where
  "prefix_char c = (let n = of_char c in (97 \<le> n \<and> n \<le> (122::nat)) \<or> (48 \<le> n \<and> n \<le> 57))"

text \<open>The pattern \<open>[a-z0-9](?:[-a-z0-9]{0,28}[a-z0-9])?\<close>.\<close>

definition task_prefix_ok :: "string \<Rightarrow> bool" where
  "task_prefix_ok s = (s \<noteq> [] \<and> length s \<le> 30 \<and> prefix_char (hd s) \<and> prefix_char (last s) \<and>
     list_all (\<lambda>c. prefix_char c \<or> c = CHR ''-'') s)"

definition task_name_of :: "(string \<Rightarrow> string) \<Rightarrow> string \<Rightarrow> dispatch_command \<Rightarrow> string" where
  "task_name_of sha prefix c = prefix @ ''-'' @ take 32 (sha (command_id c))"

definition uncertain_observation ::
  "dispatch_command \<Rightarrow> string \<Rightarrow> string option \<Rightarrow> terminal_kind \<Rightarrow> string \<Rightarrow> time
   \<Rightarrow> (contract_error, terminal_observation) result" where
  "uncertain_observation c name uid kind why now =
     terminal_observation_init \<lparr>obs_command_id = command_id c, obs_kind = kind, obs_task_name = name,
       obs_task_uid = uid, obs_output = None, obs_reason = Some why, obs_at = now\<rparr>"

definition terminal_observation_of ::
  "dispatch_command \<Rightarrow> string \<Rightarrow> task_body option \<Rightarrow> time \<Rightarrow> (contract_error, terminal_observation) result" where
  "terminal_observation_of c name body now =
     (case body of
        None \<Rightarrow> uncertain_observation c name None T_RECOVERY_REQUIRED ''KUBERNETES_TASK_MISSING'' now
      | Some b \<Rightarrow>
          if tb_phase b = Some ''Succeeded'' \<and> tb_result b \<noteq> None then
            terminal_observation_init \<lparr>obs_command_id = command_id c, obs_kind = T_SUCCEEDED, obs_task_name = name,
              obs_task_uid = tb_uid b, obs_output = tb_result b, obs_reason = None, obs_at = now\<rparr>
          else if tb_phase b = Some ''Failed'' \<or> tb_phase b = Some ''TimedOut'' then
            terminal_observation_init \<lparr>obs_command_id = command_id c, obs_kind = T_FAILED, obs_task_name = name,
              obs_task_uid = tb_uid b, obs_output = None,
              obs_reason = Some (case tb_reason b of None \<Rightarrow> ''RUNTIME_FAILED''
                | Some r \<Rightarrow> if r = [] then ''RUNTIME_FAILED'' else r), obs_at = now\<rparr>
          else uncertain_observation c name (tb_uid b) T_UNKNOWN ''TERMINAL_OBSERVATION_UNAVAILABLE'' now)"

subsection \<open>The worker\<close>

record 'db repository =
  repo_resume :: "'db \<Rightarrow> string \<Rightarrow> key set \<Rightarrow> (dispatch_error, dispatch_claim option) result"
  repo_claim :: "'db \<Rightarrow> string \<Rightarrow> string \<Rightarrow> time \<Rightarrow> key set \<Rightarrow> (dispatch_error, 'db \<times> dispatch_claim option) result"
  repo_permit :: "'db \<Rightarrow> dispatch_claim \<Rightarrow> string \<Rightarrow> time \<Rightarrow> (dispatch_error, 'db \<times> disposition) result"
  repo_correlate :: "'db \<Rightarrow> dispatch_claim \<Rightarrow> string \<Rightarrow> string \<Rightarrow> (dispatch_error, 'db \<times> disposition) result"
  repo_uncertain :: "'db \<Rightarrow> dispatch_claim \<Rightarrow> terminal_observation \<Rightarrow> (dispatch_error, 'db \<times> disposition) result"
  repo_complete :: "'db \<Rightarrow> dispatch_claim \<Rightarrow> terminal_observation \<Rightarrow> (dispatch_error, 'db \<times> disposition) result"

record worker_config =
  cfg_worker_id :: string
  cfg_task_name :: "dispatch_command \<Rightarrow> string"

text \<open>The status the worker writes to the Task; its timestamps are left out.\<close>

record status_update =
  su_phase :: string
  su_result :: "json option"
  su_reason :: "string option"
  su_message :: "string option"
  su_retryable :: "bool option"
  su_attempts :: int

definition running_status :: status_update where
  "running_status = \<lparr>su_phase = ''Running'', su_result = None, su_reason = None, su_message = None,
     su_retryable = None, su_attempts = 1\<rparr>"

definition succeeded_status :: "json \<Rightarrow> status_update" where
  "succeeded_status out = \<lparr>su_phase = ''Succeeded'', su_result = Some out, su_reason = None, su_message = None,
     su_retryable = None, su_attempts = 1\<rparr>"

definition failed_status :: "task_execution_error \<Rightarrow> status_update" where
  "failed_status err = \<lparr>su_phase = ''Failed'', su_result = None, su_reason = Some (reason err),
     su_message = Some (message err), su_retryable = Some False, su_attempts = 1\<rparr>"

datatype waction = Invoked dispatch_command | Patched string status_update

datatype wpc =
    Idle
  | Polled
  | HasClaim dispatch_claim
  | CreateTask dispatch_claim
  | Correlate dispatch_claim string
  | PatchRunning dispatch_claim string
  | Invoke dispatch_claim string
  | PatchFinal dispatch_claim status_update
  | ReadTask dispatch_claim
  | Finish dispatch_claim terminal_observation
  | Uncertain dispatch_claim terminal_observation

datatype invoke_reply =
    InvokeReturned json
  | InvokeTaskError task_execution_error
  | InvokeRaised

text \<open>
  The answers of the outside world. \<open>InvokeAnswer None\<close> is a process that dies during the call;
  \<open>CreateAnswer None\<close>, \<open>PatchAnswer False\<close> and \<open>ReadAnswer None\<close> are exceptions of the client.
\<close>

datatype wevent =
    ResumeCall "key set"
  | ClaimCall string time "key set"
  | PermitCall time
  | CreateAnswer "task_body option" time
  | CorrelateCall
  | PatchAnswer bool
  | InvokeAnswer "invoke_reply option" time
  | ReadAnswer "task_body option option" time
  | RecordCall
  | Crash

definition after_observation :: "dispatch_claim \<Rightarrow> (contract_error, terminal_observation) result \<Rightarrow> wpc" where
  "after_observation cl ob = (case ob of Inl _ \<Rightarrow> Idle | Inr x \<Rightarrow> Finish cl x)"

definition after_uncertain :: "dispatch_claim \<Rightarrow> (contract_error, terminal_observation) result \<Rightarrow> wpc" where
  "after_uncertain cl ob = (case ob of Inl _ \<Rightarrow> Idle | Inr x \<Rightarrow> Uncertain cl x)"

definition commit :: "'db \<Rightarrow> (dispatch_error, 'db \<times> 'a) result \<Rightarrow> ('a \<Rightarrow> wpc) \<Rightarrow> 'db \<times> wpc" where
  "commit db r f = (case r of Inl _ \<Rightarrow> (db, Idle) | Inr (db', x) \<Rightarrow> (db', f x))"

text \<open>
  One step of a process: the new database, the new program counter and the call it made to the
  Runtime or to patch the Task status; \<open>None\<close> when the event does not belong to the program counter.
\<close>

fun worker_step ::
  "'db repository \<Rightarrow> worker_config \<Rightarrow> 'db \<Rightarrow> wpc \<Rightarrow> wevent \<Rightarrow> ('db \<times> wpc \<times> waction option) option" where
  "worker_step repo cfg db pc Crash = Some (db, Idle, None)"
| "worker_step repo cfg db Idle (ResumeCall locked) =
     (case repo_resume repo db (cfg_worker_id cfg) locked of
        Inl _ \<Rightarrow> Some (db, Idle, None)
      | Inr None \<Rightarrow> Some (db, Polled, None)
      | Inr (Some cl) \<Rightarrow> Some (db, HasClaim cl, None))"
| "worker_step repo cfg db Polled (ClaimCall token now locked) =
     (case commit db (repo_claim repo db (cfg_worker_id cfg) token now locked)
         (\<lambda>x. case x of None \<Rightarrow> Idle | Some cl \<Rightarrow> HasClaim cl) of (db', pc) \<Rightarrow> Some (db', pc, None))"
| "worker_step repo cfg db (HasClaim cl) (PermitCall now) =
     (case commit db (repo_permit repo db cl (cfg_task_name cfg (claim_command cl)) now)
         (\<lambda>d. case d of REPLAYED \<Rightarrow> ReadTask cl | APPENDED \<Rightarrow> CreateTask cl) of (db', pc) \<Rightarrow> Some (db', pc, None))"
| "worker_step repo cfg db (CreateTask cl) (CreateAnswer answer now) =
     (case answer of
        None \<Rightarrow> Some (db, Idle, None)
      | Some body \<Rightarrow> (case tb_uid body of
          None \<Rightarrow> Some (db, after_uncertain cl (uncertain_observation (claim_command cl)
            (cfg_task_name cfg (claim_command cl)) None T_RECOVERY_REQUIRED ''KUBERNETES_TASK_UID_MISSING'' now), None)
        | Some u \<Rightarrow> if u = [] then Some (db, after_uncertain cl (uncertain_observation (claim_command cl)
            (cfg_task_name cfg (claim_command cl)) None T_RECOVERY_REQUIRED ''KUBERNETES_TASK_UID_MISSING'' now), None)
            else Some (db, Correlate cl u, None)))"
| "worker_step repo cfg db (Correlate cl u) CorrelateCall =
     (case commit db (repo_correlate repo db cl (cfg_task_name cfg (claim_command cl)) u) (\<lambda>_. PatchRunning cl u)
      of (db', pc) \<Rightarrow> Some (db', pc, None))"
| "worker_step repo cfg db (PatchRunning cl u) (PatchAnswer ok) =
     Some (db, if ok then Invoke cl u else Idle, Some (Patched (cfg_task_name cfg (claim_command cl)) running_status))"
| "worker_step repo cfg db (Invoke cl u) (InvokeAnswer answer now) =
     (case answer of
        None \<Rightarrow> Some (db, Idle, Some (Invoked (claim_command cl)))
      | Some InvokeRaised \<Rightarrow> Some (db, Idle, Some (Invoked (claim_command cl)))
      | Some (InvokeReturned out) \<Rightarrow> Some (db, PatchFinal cl (succeeded_status out), Some (Invoked (claim_command cl)))
      | Some (InvokeTaskError err) \<Rightarrow>
          if reason err = ''ExecutionOutcomeUnknown'' \<or> reason err = ''ExecutionTimeout''
          then Some (db, after_uncertain cl (uncertain_observation (claim_command cl)
            (cfg_task_name cfg (claim_command cl)) (Some u) T_UNKNOWN (reason err) now), Some (Invoked (claim_command cl)))
          else Some (db, PatchFinal cl (failed_status err), Some (Invoked (claim_command cl))))"
| "worker_step repo cfg db (PatchFinal cl st) (PatchAnswer ok) =
     Some (db, if ok then ReadTask cl else Idle, Some (Patched (cfg_task_name cfg (claim_command cl)) st))"
| "worker_step repo cfg db (ReadTask cl) (ReadAnswer answer now) =
     (case answer of
        None \<Rightarrow> Some (db, Idle, None)
      | Some body \<Rightarrow> Some (db, after_observation cl (terminal_observation_of (claim_command cl)
          (cfg_task_name cfg (claim_command cl)) body now), None))"
| "worker_step repo cfg db (Finish cl ob) RecordCall =
     (case commit db (if obs_kind ob \<in> {T_UNKNOWN, T_RECOVERY_REQUIRED} then repo_uncertain repo db cl ob
         else repo_complete repo db cl ob) (\<lambda>_. Idle) of (db', pc) \<Rightarrow> Some (db', pc, None))"
| "worker_step repo cfg db (Uncertain cl ob) RecordCall =
     (case commit db (repo_uncertain repo db cl ob) (\<lambda>_. Idle) of (db', pc) \<Rightarrow> Some (db', pc, None))"
| "worker_step repo cfg db pc e = None"


subsection \<open>At most one invocation\<close>

text \<open>The commands whose Runtime invocation a process may still make.\<close>

fun pending_key :: "wpc \<Rightarrow> key option" where
  "pending_key (CreateTask cl) = Some (key_of (claim_command cl))"
| "pending_key (Correlate cl u) = Some (key_of (claim_command cl))"
| "pending_key (PatchRunning cl u) = Some (key_of (claim_command cl))"
| "pending_key (Invoke cl u) = Some (key_of (claim_command cl))"
| "pending_key _ = None"

definition invoked_key :: "waction option \<Rightarrow> key option" where
  "invoked_key a = (case a of Some (Invoked c) \<Rightarrow> Some (key_of c) | _ \<Rightarrow> None)"

text \<open>
  A system of processes over one database: each process has its own configuration, any process may
  take a step, and other clients of the database may change it in the meantime.
\<close>

record 'db system =
  sys_db :: 'db
  sys_procs :: "wpc list"
  sys_log :: "key list"

definition system_step ::
  "'db repository \<Rightarrow> (nat \<Rightarrow> worker_config) \<Rightarrow> nat \<Rightarrow> wevent \<Rightarrow> 'db system \<Rightarrow> 'db system option" where
  "system_step repo cfg i e s =
     (if i < length (sys_procs s) then
        (case worker_step repo (cfg i) (sys_db s) (sys_procs s ! i) e of
           None \<Rightarrow> None
         | Some (db, pc, a) \<Rightarrow> Some \<lparr>sys_db = db, sys_procs = (sys_procs s)[i := pc],
             sys_log = (case invoked_key a of None \<Rightarrow> sys_log s | Some k \<Rightarrow> sys_log s @ [k])\<rparr>)
      else None)"

inductive system_reachable ::
  "'db repository \<Rightarrow> ('db \<Rightarrow> 'db \<Rightarrow> bool) \<Rightarrow> (nat \<Rightarrow> worker_config) \<Rightarrow> 'db \<Rightarrow> nat \<Rightarrow> 'db system \<Rightarrow> bool"
  for repo other cfg db0 n where
  sys_start: "system_reachable repo other cfg db0 n \<lparr>sys_db = db0, sys_procs = replicate n Idle, sys_log = []\<rparr>"
| sys_step: "system_reachable repo other cfg db0 n s \<Longrightarrow> system_step repo cfg i e s = Some s' \<Longrightarrow>
    system_reachable repo other cfg db0 n s'"
| sys_other: "system_reachable repo other cfg db0 n s \<Longrightarrow> other (sys_db s) db' \<Longrightarrow>
    system_reachable repo other cfg db0 n (s\<lparr>sys_db := db'\<rparr>)"

locale dispatch_repository =
  fixes repo :: "'db repository"
    and other :: "'db \<Rightarrow> 'db \<Rightarrow> bool"
    and inv :: "'db \<Rightarrow> bool"
    and begun :: "'db \<Rightarrow> key \<Rightarrow> bool"
  assumes claim_law: "inv db \<Longrightarrow> repo_claim repo db w tok now l = Inr (db', x) \<Longrightarrow> inv db' \<and> begun db' = begun db"
    and permit_appended: "inv db \<Longrightarrow> repo_permit repo db cl nm now = Inr (db', APPENDED) \<Longrightarrow>
      inv db' \<and> \<not> begun db (key_of (claim_command cl)) \<and> begun db' = (begun db)(key_of (claim_command cl) := True)"
    and permit_replayed: "inv db \<Longrightarrow> repo_permit repo db cl nm now = Inr (db', REPLAYED) \<Longrightarrow> inv db' \<and> begun db' = begun db"
    and correlate_law: "inv db \<Longrightarrow> repo_correlate repo db cl nm u = Inr (db', d) \<Longrightarrow> inv db' \<and> begun db' = begun db"
    and uncertain_law: "inv db \<Longrightarrow> repo_uncertain repo db cl ob = Inr (db', d) \<Longrightarrow> inv db' \<and> begun db' = begun db"
    and complete_law: "inv db \<Longrightarrow> repo_complete repo db cl ob = Inr (db', d) \<Longrightarrow> inv db' \<and> begun db' = begun db"
    and other_law: "inv db \<Longrightarrow> other db db' \<Longrightarrow> inv db' \<and> (\<forall>k. begun db k \<longrightarrow> begun db' k)"
begin

lemma commit_keeps:
  assumes "commit db r f = (db', pc)" and "inv db"
    and "\<And>db1 x. r = Inr (db1, x) \<Longrightarrow> inv db1 \<and> begun db1 = begun db"
    and "\<And>x. pending_key (f x) = q"
  shows "inv db' \<and> begun db' = begun db \<and> (pending_key pc = None \<or> pending_key pc = q)"
  using assms by (auto simp: commit_def split: sum.splits)

text \<open>The credit of a process: an invocation it still may make or has just made.\<close>

definition credit :: "wpc \<Rightarrow> key \<Rightarrow> nat" where
  "credit pc k = (if pending_key pc = Some k then 1 else 0)"

definition spent :: "waction option \<Rightarrow> key \<Rightarrow> nat" where
  "spent a k = (if invoked_key a = Some k then 1 else 0)"

definition budget :: "'db \<Rightarrow> key \<Rightarrow> nat" where
  "budget db k = (if begun db k then 1 else 0)"

lemma after_credit [simp]:
  "credit (after_observation cl ob) k = 0" "credit (after_uncertain cl ob) k = 0" "credit Idle k = 0"
  "pending_key (after_observation cl ob) = None" "pending_key (after_uncertain cl ob) = None"
  by (simp_all add: credit_def after_observation_def after_uncertain_def split: sum.split)

lemma spent_simps [simp]:
  "spent None k = 0" "spent (Some (Patched n st)) k = 0"
  "spent (Some (Invoked c)) k = (if key_of c = k then 1 else 0)"
  by (simp_all add: spent_def invoked_key_def)

lemma commit_cases:
  assumes "commit db r f = (db', pc)"
  obtains "db' = db" and "pc = Idle" | x where "r = Inr (db', x)" and "pc = f x"
  using assms by (auto simp: commit_def split: sum.splits)

definition accounted :: "'db \<Rightarrow> wpc \<Rightarrow> 'db \<times> wpc \<times> waction option \<Rightarrow> bool" where
  "accounted db pc res \<longleftrightarrow> (case res of (db', pc', a) \<Rightarrow> inv db' \<and> (\<forall>k. begun db k \<longrightarrow> begun db' k) \<and>
     (\<forall>k. spent a k + credit pc' k + budget db k \<le> credit pc k + budget db' k))"

lemma accounted_same:
  "inv db' \<Longrightarrow> begun db' = begun db \<Longrightarrow> (\<And>k. spent a k + credit pc' k \<le> credit pc k) \<Longrightarrow> accounted db pc (db', pc', a)"
  by (simp add: accounted_def budget_def)

lemma accounted_commit:
  assumes "inv db" and "\<And>db1 x. r = Inr (db1, x) \<Longrightarrow> inv db1 \<and> begun db1 = begun db"
    and "\<And>x k. credit (f x) k \<le> credit pc k"
  shows "accounted db pc (case commit db r f of (db', pc') \<Rightarrow> (db', pc', None))"
proof -
  obtain db' pc' where c: "commit db r f = (db', pc')" by fastforce
  then show ?thesis
  proof (cases rule: commit_cases)
    case 1
    then show ?thesis using c assms(1) by (simp add: accounted_same)
  next
    case (2 x)
    then show ?thesis using c assms(2) [OF 2(1)] assms(3) by (simp add: accounted_same)
  qed
qed

lemma accounted_permit:
  assumes "inv db"
  shows "accounted db (HasClaim cl) (case commit db (repo_permit repo db cl nm now)
     (\<lambda>d. case d of REPLAYED \<Rightarrow> ReadTask cl | APPENDED \<Rightarrow> CreateTask cl) of (db', pc') \<Rightarrow> (db', pc', None))"
proof -
  let ?f = "\<lambda>d. case d of REPLAYED \<Rightarrow> ReadTask cl | APPENDED \<Rightarrow> CreateTask cl"
  obtain db' pc' where c: "commit db (repo_permit repo db cl nm now) ?f = (db', pc')" by fastforce
  then show ?thesis
  proof (cases rule: commit_cases)
    case 1
    then show ?thesis using c assms by (simp add: accounted_same)
  next
    case (2 d)
    show ?thesis
    proof (cases d)
      case APPENDED
      have "repo_permit repo db cl nm now = Inr (db', APPENDED)" using 2 APPENDED by simp
      from permit_appended [OF assms this] show ?thesis
        using c 2 APPENDED by (auto simp: accounted_def budget_def credit_def)
    next
      case REPLAYED
      have "repo_permit repo db cl nm now = Inr (db', REPLAYED)" using 2 REPLAYED by simp
      from permit_replayed [OF assms this] show ?thesis
        using c 2 REPLAYED by (simp add: accounted_same credit_def)
    qed
  qed
qed

lemma worker_step_accounted:
  assumes i: "inv db" and s: "worker_step repo cfg db pc e = Some res"
  shows "accounted db pc res"
proof (cases pc)
  case Idle
  then show ?thesis using s i by (cases e) (auto intro!: accounted_same simp: credit_def split: sum.splits option.splits)
next
  case Polled
  show ?thesis
  proof (cases e)
    case (ClaimCall tok now l)
    have "accounted db pc (case commit db (repo_claim repo db (cfg_worker_id cfg) tok now l)
         (\<lambda>x. case x of None \<Rightarrow> Idle | Some cl \<Rightarrow> HasClaim cl) of (db', pc') \<Rightarrow> (db', pc', None))"
      using i by (rule accounted_commit) (auto dest: claim_law [OF i] simp: credit_def split: option.splits)
    then show ?thesis using s Polled ClaimCall by (simp split: prod.splits)
  qed (use s Polled i in \<open>auto intro!: accounted_same\<close>)
next
  case (HasClaim cl)
  show ?thesis
  proof (cases e)
    case (PermitCall now)
    then show ?thesis using s HasClaim accounted_permit [OF i, of cl "cfg_task_name cfg (claim_command cl)" now]
      by (simp split: prod.splits)
  qed (use s HasClaim i in \<open>auto intro!: accounted_same\<close>)
next
  case (CreateTask cl)
  then show ?thesis using s i by (cases e) (auto intro!: accounted_same simp: credit_def split: option.splits if_splits)
next
  case (Correlate cl u)
  show ?thesis
  proof (cases e)
    case CorrelateCall
    have "accounted db pc (case commit db (repo_correlate repo db cl (cfg_task_name cfg (claim_command cl)) u)
         (\<lambda>_. PatchRunning cl u) of (db', pc') \<Rightarrow> (db', pc', None))"
      using i by (rule accounted_commit) (auto dest: correlate_law [OF i] simp: credit_def Correlate)
    then show ?thesis using s Correlate CorrelateCall by (simp split: prod.splits)
  qed (use s Correlate i in \<open>auto intro!: accounted_same\<close>)
next
  case (PatchRunning cl u)
  then show ?thesis using s i by (cases e) (auto intro!: accounted_same simp: credit_def)
next
  case (Invoke cl u)
  then show ?thesis using s i
    by (cases e) (auto intro!: accounted_same simp: credit_def [of "Invoke cl u"] credit_def [of "PatchFinal _ _"]
        split: option.splits if_splits invoke_reply.splits)
next
  case (PatchFinal cl st)
  then show ?thesis using s i by (cases e) (auto intro!: accounted_same simp: credit_def)
next
  case (ReadTask cl)
  then show ?thesis using s i by (cases e) (auto intro!: accounted_same split: option.splits)
next
  case (Finish cl ob)
  show ?thesis
  proof (cases e)
    case RecordCall
    have "accounted db pc (case commit db (if obs_kind ob \<in> {T_UNKNOWN, T_RECOVERY_REQUIRED}
        then repo_uncertain repo db cl ob else repo_complete repo db cl ob) (\<lambda>_. Idle) of (db', pc') \<Rightarrow> (db', pc', None))"
      using i by (rule accounted_commit) (auto dest: uncertain_law [OF i] complete_law [OF i] split: if_splits)
    then show ?thesis using s Finish RecordCall by (simp split: prod.splits)
  qed (use s Finish i in \<open>auto intro!: accounted_same\<close>)
next
  case (Uncertain cl ob)
  show ?thesis
  proof (cases e)
    case RecordCall
    have "accounted db pc (case commit db (repo_uncertain repo db cl ob) (\<lambda>_. Idle) of (db', pc') \<Rightarrow> (db', pc', None))"
      using i by (rule accounted_commit) (auto dest: uncertain_law [OF i])
    then show ?thesis using s Uncertain RecordCall by (simp split: prod.splits)
  qed (use s Uncertain i in \<open>auto intro!: accounted_same\<close>)
qed

definition invocations :: "'db system \<Rightarrow> key \<Rightarrow> nat" where
  "invocations s k = length (filter (\<lambda>j. j = k) (sys_log s))"

definition pending :: "'db system \<Rightarrow> key \<Rightarrow> nat" where
  "pending s k = length (filter (\<lambda>pc. pending_key pc = Some k) (sys_procs s))"

lemma system_accounted:
  assumes "system_reachable repo other cfg db0 n s" and "inv db0"
  shows "inv (sys_db s) \<and> (\<forall>k. invocations s k + pending s k \<le> budget (sys_db s) k)"
  using assms(1)
proof (induction rule: system_reachable.induct)
  case sys_start
  then show ?case using assms(2) by (simp add: invocations_def pending_def)
next
  case (sys_step s i e s')
  obtain db pc a where i: "i < length (sys_procs s)"
    and w: "worker_step repo (cfg i) (sys_db s) (sys_procs s ! i) e = Some (db, pc, a)"
    and s': "s' = \<lparr>sys_db = db, sys_procs = (sys_procs s)[i := pc],
       sys_log = (case invoked_key a of None \<Rightarrow> sys_log s | Some k \<Rightarrow> sys_log s @ [k])\<rparr>"
    using sys_step.hyps(2) by (auto simp: system_step_def split: if_splits option.splits)
  have acc: "accounted (sys_db s) (sys_procs s ! i) (db, pc, a)"
    using worker_step_accounted [OF _ w] sys_step.IH by blast
  have "invocations s' k + pending s' k \<le> budget db k" for k
  proof -
    have "invocations s' k = invocations s k + spent a k"
      by (simp add: s' invocations_def spent_def split: option.split)
    moreover have "pending s' k + credit (sys_procs s ! i) k = pending s k + credit pc k"
      using length_filter_update [OF i, of "\<lambda>pc. pending_key pc = Some k" pc]
      by (simp add: s' pending_def credit_def)
    moreover have "spent a k + credit pc k + budget (sys_db s) k \<le> credit (sys_procs s ! i) k + budget db k"
      using acc unfolding accounted_def prod.case by blast
    moreover have "invocations s k + pending s k \<le> budget (sys_db s) k" using sys_step.IH by blast
    ultimately show ?thesis by linarith
  qed
  then show ?case using acc s' by (auto simp: accounted_def)
next
  case (sys_other s db')
  have o: "inv db'" "\<forall>k. begun (sys_db s) k \<longrightarrow> begun db' k"
    using other_law [OF _ sys_other.hyps(2)] sys_other.IH by blast+
  have "invocations s k + pending s k \<le> budget db' k" for k
  proof -
    have "budget (sys_db s) k \<le> budget db' k" using o(2) [rule_format, of k] by (simp add: budget_def)
    moreover have "invocations s k + pending s k \<le> budget (sys_db s) k" using sys_other.IH by blast
    ultimately show ?thesis by (rule le_trans [rotated])
  qed
  then show ?case using o(1) by (simp add: invocations_def pending_def)
qed

lemma at_most_once:
  assumes "system_reachable repo other cfg db0 n s" and "inv db0"
  shows "length (filter (\<lambda>j. j = k) (sys_log s)) \<le> 1 \<and> (k \<in> set (sys_log s) \<longrightarrow> begun (sys_db s) k)"
proof -
  have le: "invocations s k \<le> budget (sys_db s) k" using system_accounted [OF assms] add_leD1 by blast
  moreover have "0 < invocations s k" if "k \<in> set (sys_log s)"
    using that by (auto simp: invocations_def filter_empty_conv)
  ultimately show ?thesis by (auto simp: budget_def invocations_def split: if_splits)
qed

end

subsection \<open>The PostgreSQL repository\<close>

text \<open>
  The repository the worker is composed with. \<open>args\<close> stands for the evidence and outcome the
  completion callback builds for an observation, or its failure to find the attempt.
\<close>

definition postgres_repository ::
  "hashes \<Rightarrow> (database \<Rightarrow> dispatch_command \<Rightarrow> bool)
   \<Rightarrow> (dispatch_claim \<Rightarrow> terminal_observation \<Rightarrow> (evidence_item list \<times> string \<times> string \<times> string) option)
   \<Rightarrow> database repository" where
  "postgres_repository h auth args =
     \<lparr>repo_resume = resume_effect_started,
      repo_claim = (\<lambda>db worker token now locked. claim_next h db worker token now 30 locked),
      repo_permit = permit_effect h auth,
      repo_correlate = record_kubernetes_correlation h,
      repo_uncertain = record_uncertain h,
      repo_complete = (\<lambda>db cl ob. case args cl ob of None \<Rightarrow> Inl ''NATIVE_DISPATCH_ATTEMPT_NOT_FOUND''
        | Some (items, oid, w, g) \<Rightarrow> append_native_completion h db cl ob items oid w g)\<rparr>"

lemma dispatch_tx_started_mono:
  assumes "dispatch_tx h auth db db'" and "dispatch_inv db" and "started db k"
  shows "started db' k"
  using assms(1)
proof (cases rule: dispatch_tx.cases)
  case (tx_enqueue c d)
  then show ?thesis using started_enqueue assms(3) by blast
next
  case (tx_claim worker token now ls locked x)
  then show ?thesis using started_claim [OF _ tx_claim] assms(2,3) unfolding dispatch_inv_def by blast
next
  case (tx_permit cl n now d)
  show ?thesis
  proof (cases d)
    case APPENDED
    show ?thesis using started_permit_appended(2) [OF tx_permit [unfolded APPENDED]] assms(3) by blast
  next
    case REPLAYED
    show ?thesis using started_permit_replayed [OF tx_permit [unfolded REPLAYED]] assms(3) by simp
  qed
next
  case (tx_correlate cl n u d)
  then show ?thesis using started_correlate assms(3) by blast
next
  case (tx_uncertain cl ob d)
  then show ?thesis using started_uncertain assms(3) by blast
next
  case (tx_complete cl ob items oid w g d)
  then show ?thesis using started_complete assms(3) by blast
next
  case tx_other
  then show ?thesis using started_same assms(3) by blast
qed

interpretation pg: dispatch_repository "postgres_repository h auth args" "dispatch_tx h auth" dispatch_inv started
  for h auth args
proof (unfold_locales, goal_cases)
  case (1 db w tok now l db' x)
  then have c: "claim_next h db w tok now 30 l = Inr (db', x)" by (simp add: postgres_repository_def)
  have "started db' k = started db k" for k using started_claim [OF _ c] 1(1) by (simp add: dispatch_inv_def)
  then show ?case using dispatch_inv_step [OF tx_claim [OF c] 1(1)] by blast
next
  case (2 db cl nm now db')
  then have c: "permit_effect h auth db cl nm now = Inr (db', APPENDED)" by (simp add: postgres_repository_def)
  have "started db' = (started db)(key_of (claim_command cl) := True)"
    using started_permit_appended(2) [OF c] by (intro ext) simp
  then show ?case using dispatch_inv_step [OF tx_permit [OF c] 2(1)] started_permit_appended(1) [OF c] by simp
next
  case (3 db cl nm now db')
  then have "permit_effect h auth db cl nm now = Inr (db', REPLAYED)" by (simp add: postgres_repository_def)
  from started_permit_replayed [OF this] show ?case using 3(1) by simp
next
  case (4 db cl nm u db' d)
  then have c: "record_kubernetes_correlation h db cl nm u = Inr (db', d)" by (simp add: postgres_repository_def)
  have "started db' = started db" using started_correlate [OF c] by (intro ext) simp
  then show ?case using dispatch_inv_step [OF tx_correlate [OF c] 4(1)] by simp
next
  case (5 db cl ob db' d)
  then have c: "record_uncertain h db cl ob = Inr (db', d)" by (simp add: postgres_repository_def)
  have "started db' = started db" using started_uncertain [OF c] by (intro ext) simp
  then show ?case using dispatch_inv_step [OF tx_uncertain [OF c] 5(1)] by simp
next
  case (6 db cl ob db' d)
  then obtain items oid w g where c: "append_native_completion h db cl ob items oid w g = Inr (db', d)"
    by (auto simp: postgres_repository_def split: option.splits)
  have "started db' = started db" using started_complete [OF c] by (intro ext) simp
  then show ?case using dispatch_inv_step [OF tx_complete [OF c] 6(1)] by simp
next
  case (7 db db')
  then show ?case using dispatch_inv_step dispatch_tx_started_mono by blast
qed

subsection \<open>An example run\<close>

definition example_args ::
  "dispatch_claim \<Rightarrow> terminal_observation \<Rightarrow> (evidence_item list \<times> string \<times> string \<times> string) option" where
  "example_args cl ob = Some ([], ''out'', ''w1'', ''dig'')"

definition example_repo :: "database repository" where
  "example_repo = postgres_repository example_hashes (\<lambda>_ _. True) example_args"

definition example_cfg :: "nat \<Rightarrow> worker_config" where
  "example_cfg i = \<lparr>cfg_worker_id = ''w1'', cfg_task_name = (\<lambda>_. ''native-1'')\<rparr>"

definition example_body :: task_body where
  "example_body = \<lparr>tb_labels = [], tb_annotations = [], tb_uid = Some ''uid-1'', tb_phase = None, tb_result = None,
     tb_reason = None\<rparr>"

definition example_sys :: "database \<Rightarrow> wpc \<Rightarrow> key list \<Rightarrow> database system" where
  "example_sys db pc ks = \<lparr>sys_db = db, sys_procs = [pc], sys_log = ks\<rparr>"

definition example_linked :: database where
  "example_linked = (example_with ((effect_row ''native-1'' 1 (example_claimed_row 1 ''w1'' 30000000))\<lparr>row_task_uid := Some ''uid-1''\<rparr>)
     [example_fact 1 F_QUEUED (QueuedFact ''c1''), example_fact 2 F_CLAIMED (ClaimedFact 1 ''w1'' 30000000),
      example_fact 3 F_EFFECT_STARTED (EffectFact 1 ''native-1''),
      example_fact 4 F_CORRELATED (CorrelatedFact ''native-1'' ''uid-1'')])
     \<lparr>attempts := [((example_scope, ''a1''), \<lparr>ar_task_run_id = ''t1'', ar_control_state = ''RUNNING'', ar_version = 2\<rparr>)]\<rparr>"

lemma example_resume: "resume_effect_started example_queued ''w1'' {} = Inr None"
  by code_simp

lemma example_correlate:
  "record_kubernetes_correlation example_hashes example_started (example_claim 1 ''w1'') ''native-1'' ''uid-1''
     = Inr (example_linked, APPENDED)"
  by code_simp

lemma example_system_step:
  "worker_step example_repo (example_cfg 0) db pc e = Some (db', pc', a) \<Longrightarrow>
   system_step example_repo example_cfg 0 e (example_sys db pc ks) =
     Some (example_sys db' pc' (case invoked_key a of None \<Rightarrow> ks | Some k \<Rightarrow> ks @ [k]))"
  by (simp add: system_step_def example_sys_def split: option.split)

lemma example_invocation:
  "system_reachable example_repo (dispatch_tx example_hashes (\<lambda>_ _. True)) example_cfg example_db 1
     (example_sys example_linked Idle [(example_scope, ''c1'')])"
proof -
  let ?R = "system_reachable example_repo (dispatch_tx example_hashes (\<lambda>_ _. True)) example_cfg example_db 1"
  let ?cl = "example_claim 1 ''w1''"
  have step: "?R (example_sys db' pc' (case invoked_key a of None \<Rightarrow> ks | Some k \<Rightarrow> ks @ [k]))"
    if "?R (example_sys db pc ks)" "worker_step example_repo (example_cfg 0) db pc e = Some (db', pc', a)"
    for db pc ks e db' pc' a
    using system_reachable.sys_step [OF that(1) example_system_step [OF that(2)]] .
  have "?R (example_sys example_db Idle [])"
    using system_reachable.sys_start [of example_repo "dispatch_tx example_hashes (\<lambda>_ _. True)" example_cfg example_db 1]
    by (simp add: example_sys_def)
  then have "?R ((example_sys example_db Idle [])\<lparr>sys_db := example_queued\<rparr>)"
    by (rule system_reachable.sys_other) (use tx_enqueue [OF example_enqueue] in \<open>simp add: example_sys_def\<close>)
  then have r0: "?R (example_sys example_queued Idle [])" by (simp add: example_sys_def)
  note defs = example_repo_def postgres_repository_def example_cfg_def commit_def invoked_key_def
  have r1: "?R (example_sys example_queued Polled [])"
    using step [OF r0, of "ResumeCall {}" example_queued Polled None] by (simp add: defs example_resume)
  have r2: "?R (example_sys example_claimed (HasClaim ?cl) [])"
    using step [OF r1, of "ClaimCall ''tok'' 0 {}" example_claimed "HasClaim ?cl" None]
    by (simp add: defs example_claim_next)
  have r3: "?R (example_sys example_started (CreateTask ?cl) [])"
    using step [OF r2, of "PermitCall 1" example_started "CreateTask ?cl" None] by (simp add: defs example_permit)
  have r4: "?R (example_sys example_started (Correlate ?cl ''uid-1'') [])"
    using step [OF r3, of "CreateAnswer (Some example_body) 2" example_started "Correlate ?cl ''uid-1''" None]
    by (simp add: defs example_body_def)
  have r5: "?R (example_sys example_linked (PatchRunning ?cl ''uid-1'') [])"
    using step [OF r4, of CorrelateCall example_linked "PatchRunning ?cl ''uid-1''" None]
    by (simp add: defs example_correlate)
  have r6: "?R (example_sys example_linked (Invoke ?cl ''uid-1'') [])"
    using step [OF r5, of "PatchAnswer True" example_linked "Invoke ?cl ''uid-1''" "Some (Patched ''native-1'' running_status)"]
    by (simp add: defs)
  show ?thesis
    using step [OF r6, of "InvokeAnswer None 3" example_linked Idle "Some (Invoked (claim_command ?cl))"]
    by (simp add: defs example_claim_def key_of_def example_command_def)
qed

subsection \<open>Properties\<close>

text \<open>
  C3: in every run of any number of worker processes over one dispatch database, with crashes at
  any point, lost answers, workers that share an identity, clocks that disagree and other
  transactions in between, the Runtime is invoked at most once for a command, and only for a
  command whose effect was permitted.
\<close>

theorem runtime_invoked_at_most_once:
  assumes "commands db0 = []" and "facts db0 = []"
    and "system_reachable (postgres_repository h auth args) (dispatch_tx h auth) cfg db0 n s"
  shows "length (filter (\<lambda>j. j = k) (sys_log s)) \<le> 1 \<and> (k \<in> set (sys_log s) \<longrightarrow> started (sys_db s) k)"
  using pg.at_most_once [OF assms(3) empty_dispatch_inv [OF assms(1,2)]] by blast

theorem runtime_invoked_at_most_once_witness:
  "started example_linked (example_scope, ''c1'')"
  using runtime_invoked_at_most_once [OF example_empty example_invocation [unfolded example_repo_def],
      of "(example_scope, ''c1'')"]
  by (simp add: example_sys_def)

text \<open>
  A Task is accepted only by its own claim: if a Task that was created for a claim is read with
  another claim and accepted, both claims have the same generation, attempt, placement, runtime
  instance and runtime generation, the same token digest and the same command label; and the claim
  that created a Task accepts it.
\<close>

theorem tasks_belong_to_their_claim:
  assumes "tb_labels body = task_labels sha (claim_command cl')" and "tb_annotations body = task_annotations sha cl'"
    and "api_get api w (namespace (scope (claim_command cl))) name = ApiOk body"
  shows "(port_read api sha w cl name = Inr (Some body) \<longrightarrow>
      claim_generation cl = claim_generation cl' \<and> sha (claim_token cl) = sha (claim_token cl') \<and>
      attempt_id (claim_command cl) = attempt_id (claim_command cl') \<and>
      placement_id (claim_command cl) = placement_id (claim_command cl') \<and>
      runtime_instance_id (claim_command cl) = runtime_instance_id (claim_command cl') \<and>
      runtime_generation (claim_command cl) = runtime_generation (claim_command cl') \<and>
      take 40 (sha (command_id (claim_command cl))) = take 40 (sha (command_id (claim_command cl')))) \<and>
    (cl = cl' \<longrightarrow> port_read api sha w cl name = Inr (Some body))"
  using assms by (auto simp: port_read_def task_matches_def task_labels_def task_annotations_def Let_def
      show_int_inject split: if_splits)

theorem tasks_belong_to_their_claim_witness:
  "let body = \<lparr>tb_labels = task_labels id example_command, tb_annotations = task_annotations id (example_claim 1 ''w1''),
         tb_uid = Some ''uid-1'', tb_phase = None, tb_result = None, tb_reason = None\<rparr>;
       api = \<lparr>api_create = (\<lambda>w m. (w, ApiError 409)), api_get = (\<lambda>w ns n. ApiOk body)\<rparr> :: unit task_api
   in port_read api id () (example_claim 1 ''w1'') ''native-1'' = Inr (Some body) \<and>
      port_read api id () (example_claim 2 ''w1'') ''native-1'' \<noteq> Inr (Some body)"
proof -
  let ?body = "\<lparr>tb_labels = task_labels id example_command, tb_annotations = task_annotations id (example_claim 1 ''w1''),
         tb_uid = Some ''uid-1'', tb_phase = None, tb_result = None, tb_reason = None\<rparr>"
  let ?api = "\<lparr>api_create = (\<lambda>w m. (w, ApiError 409)), api_get = (\<lambda>w ns n. ApiOk ?body)\<rparr> :: unit task_api"
  have "port_read ?api id () (example_claim 1 ''w1'') ''native-1'' = Inr (Some ?body)"
    using tasks_belong_to_their_claim [of ?body id "example_claim 1 ''w1''" ?api "()" "example_claim 1 ''w1''" "''native-1''"]
    by (simp add: example_claim_def)
  moreover have "port_read ?api id () (example_claim 2 ''w1'') ''native-1'' \<noteq> Inr (Some ?body)"
    using tasks_belong_to_their_claim [of ?body id "example_claim 1 ''w1''" ?api "()" "example_claim 2 ''w1''" "''native-1''"]
    by (simp add: example_claim_def)
  ultimately show ?thesis unfolding Let_def by blast
qed

text \<open>
  A Task that succeeded with a blank result cannot be completed: the observation of the result is
  rejected by its own contract, so the step that reads the Task fails before it records anything
  and the command stays as it was, at every attempt.
\<close>

theorem blank_result_is_never_recorded:
  assumes "tb_phase body = Some ''Succeeded''" and "tb_result body = Some out" and "\<not> nonblank out"
  shows "worker_step repo cfg db (ReadTask cl) (ReadAnswer (Some (Some body)) now) = Some (db, Idle, None)"
proof -
  have "opt_init (normalized_text ''INVALID_TERMINAL_OBSERVATION'' (32 * 1024)) (Some out) =
      Inl ''INVALID_TERMINAL_OBSERVATION''"
    using assms(3) by (simp add: opt_init_def normalized_text_def nonblank_def)
  then have "\<not> is_ok (terminal_observation_of (claim_command cl) (cfg_task_name cfg (claim_command cl)) (Some body) now)"
    using assms(1,2) by (auto simp: terminal_observation_of_def terminal_observation_init_def is_ok_iff)
  then show ?thesis by (auto simp: after_observation_def is_ok_iff split: sum.splits)
qed

theorem blank_result_is_never_recorded_witness:
  "worker_step example_repo (example_cfg 0) example_linked (ReadTask (example_claim 1 ''w1''))
     (ReadAnswer (Some (Some (example_body\<lparr>tb_phase := Some ''Succeeded'', tb_result := Some ''  ''\<rparr>))) 4)
   = Some (example_linked, Idle, None)"
proof (rule blank_result_is_never_recorded)
  show "\<not> nonblank ''  ''" by code_simp
qed (simp_all add: example_body_def)

end
