(* ===== verification/Runtime_Manager.thy ===== *)
theory Runtime_Manager
  imports Execution_Contract
begin

text \<open>
  The Runtime Manager: \<open>core/src/agent_core/runtime_control.py\<close>,
  \<open>operator/src/agent_operator/runtime_manager.py\<close>, the adapter \<open>native_runtime_adapter.py\<close> with
  \<open>runtime_identity_translation.py\<close>, the Pod observation of \<open>runtime_kubernetes_observer.py\<close>, and
  the lifecycle operations of \<open>runtime/src/agent_runtime/providers/native/provider.py\<close>.

  The repository is the record \<open>control_repository\<close> of the operations of the protocol class; the
  in-memory repository implements it. The provider is the record \<open>lifecycle_port\<close> of functions
  over an arbitrary world \<open>'w\<close>; a call that raises is \<open>Inl ()\<close>. An operation returns the world and
  the repository together with its result, so that effects made before an exception are kept.

  The lemmas are proved in the locale of the repository contract. They show that an effect is only
  issued for a persisted and authorized command, that an ambiguous effect is not issued again by
  reconciling, and the two ways in which it is issued again.
\<close>

subsection \<open>Reconciliation policy\<close>

datatype runtime_operation = START | STOP | CANCEL | REPLACE | OBSERVE

record runtime_command =
  rc_scope :: scope_identity
  rc_desired :: desired_state
  rc_operation :: runtime_operation
  rc_authorization :: string
  rc_placement :: string

definition operation_desired :: "runtime_operation \<Rightarrow> desired_kind" where
  "operation_desired op = (case op of START \<Rightarrow> D_RUNNING | STOP \<Rightarrow> D_STOPPED | CANCEL \<Rightarrow> D_CANCELLED
     | REPLACE \<Rightarrow> D_REPLACED | OBSERVE \<Rightarrow> D_OBSERVE)"

definition runtime_command_init :: "runtime_command \<Rightarrow> (string, runtime_command) result" where
  "runtime_command_init c =
     (if ds_state (rc_desired c) \<noteq> operation_desired (rc_operation c) then Inl ''OPERATION_DESIRED_STATE_MISMATCH''
      else if \<not> nonblank (rc_authorization c) \<or> \<not> nonblank (rc_placement c) then Inl ''AUTHORITY_REFERENCE_REQUIRED''
      else Inr c)"

record reconciliation_fact =
  rf_command :: runtime_command
  rf_result :: command_result
  rf_recorded_at :: time
  rf_observation :: "runtime_observation option"
  rf_reason :: string

definition reconciliation_fact_init :: "reconciliation_fact \<Rightarrow> (string, reconciliation_fact) result" where
  "reconciliation_fact_init f = (case rf_observation f of
     None \<Rightarrow> Inr f
   | Some ob \<Rightarrow>
       if ro_runtime_instance_id ob \<noteq> ds_runtime_instance_id (rc_desired (rf_command f)) then Inl ''OBSERVATION_RUNTIME_MISMATCH''
       else if ro_generation ob \<noteq> ds_generation (rc_desired (rf_command f)) then Inl ''OBSERVATION_GENERATION_MISMATCH''
       else Inr f)"

definition next_desired_generation :: "desired_state option \<Rightarrow> (string, int) result" where
  "next_desired_generation previous = (case previous of None \<Rightarrow> generation 1
     | Some d \<Rightarrow> generation_successor (ds_generation d))"

definition accepted_states :: "desired_kind \<Rightarrow> observed_kind list" where
  "accepted_states d = (case d of
     D_RUNNING \<Rightarrow> [O_RUNNING] | D_STOPPED \<Rightarrow> [O_STOPPED, O_TERMINATED] | D_CANCELLED \<Rightarrow> [O_TERMINATED]
   | D_REPLACED \<Rightarrow> [O_PENDING, O_RUNNING]
   | D_OBSERVE \<Rightarrow> [O_PENDING, O_RUNNING, O_STOPPED, O_TERMINATED, O_FAILED, O_UNKNOWN])"

definition observation_matches_desired :: "desired_state \<Rightarrow> runtime_observation \<Rightarrow> time \<Rightarrow> bool" where
  "observation_matches_desired d ob at =
     (ro_runtime_instance_id ob = ds_runtime_instance_id d \<and> ro_generation ob = ds_generation d \<and>
      current_observed_state (Some ob) at \<in> set (accepted_states (ds_state d)))"

definition classify_reconciliation ::
  "desired_state \<Rightarrow> runtime_observation option \<Rightarrow> time \<Rightarrow> bool \<Rightarrow> command_result" where
  "classify_reconciliation d ob at ambiguous =
     (if ambiguous then C_RECOVERY_REQUIRED
      else case current_observed_state ob at of
        O_UNKNOWN \<Rightarrow> C_UNKNOWN
      | O_STALE \<Rightarrow> C_STALE
      | _ \<Rightarrow> if observation_matches_desired d (the ob) at then C_OBSERVED else C_APPLIED)"

definition accepts_new_assignment :: "desired_state \<Rightarrow> runtime_observation option \<Rightarrow> time \<Rightarrow> bool" where
  "accepts_new_assignment d ob at =
     (ds_state d = D_RUNNING \<and> (case ob of None \<Rightarrow> False
       | Some r \<Rightarrow> current_observed_state ob at = O_RUNNING \<and> ro_readiness r = R_READY))"

subsection \<open>The repository\<close>

record 'r control_repository =
  repo_append_desired :: "'r \<Rightarrow> runtime_command \<Rightarrow> (string, 'r) result"
  repo_desired :: "'r \<Rightarrow> string \<Rightarrow> runtime_command option"
  repo_append_fact :: "'r \<Rightarrow> reconciliation_fact \<Rightarrow> 'r"
  repo_facts :: "'r \<Rightarrow> string \<Rightarrow> reconciliation_fact list"

definition command_runtime :: "runtime_command \<Rightarrow> string" where
  "command_runtime c = ds_runtime_instance_id (rc_desired c)"

record memory_repository =
  mem_desired :: "(string, runtime_command) dict"
  mem_facts :: "(string, reconciliation_fact list) dict"

definition memory_append_desired ::
  "memory_repository \<Rightarrow> runtime_command \<Rightarrow> (string, memory_repository) result" where
  "memory_append_desired m c =
     (case map_of (mem_desired m) (command_runtime c) of
        Some existing \<Rightarrow>
          if c = existing then Inr m
          else if ds_generation (rc_desired c) \<le> ds_generation (rc_desired existing)
            then Inl ''DESIRED_GENERATION_NOT_MONOTONIC''
          else Inr (m\<lparr>mem_desired := AList.update (command_runtime c) c (mem_desired m)\<rparr>)
      | None \<Rightarrow> Inr (m\<lparr>mem_desired := AList.update (command_runtime c) c (mem_desired m)\<rparr>))"

definition memory_desired :: "memory_repository \<Rightarrow> string \<Rightarrow> runtime_command option" where
  "memory_desired m rid = map_of (mem_desired m) rid"

definition memory_facts :: "memory_repository \<Rightarrow> string \<Rightarrow> reconciliation_fact list" where
  "memory_facts m rid = dict_get (mem_facts m) rid []"

definition memory_append_fact :: "memory_repository \<Rightarrow> reconciliation_fact \<Rightarrow> memory_repository" where
  "memory_append_fact m f = (let rid = command_runtime (rf_command f) in
     m\<lparr>mem_facts := AList.update rid (memory_facts m rid @ [f]) (mem_facts m)\<rparr>)"

definition memory_control :: "memory_repository control_repository" where
  "memory_control = \<lparr>repo_append_desired = memory_append_desired, repo_desired = memory_desired,
     repo_append_fact = memory_append_fact, repo_facts = memory_facts\<rparr>"

subsection \<open>The provider\<close>

datatype native_state = N_PENDING | N_RUNNING | N_STOPPED | N_TERMINATED | N_FAILED | N_UNKNOWN

record native_observation =
  no_identity :: string
  no_state :: native_state
  no_correlation :: "string option"
  no_reason :: string

datatype support_state = SUPPORTED | NOT_SUPPORTED | NOT_YET_PROVEN

record lifecycle_result =
  lr_operation :: string
  lr_state :: support_state
  lr_identity :: string
  lr_reason :: string
  lr_correlation :: "string option"

type_synonym ('w, 'a) call = "'w \<times> (unit, 'a) result"

record 'w lifecycle_driver =
  drv_start :: "'w \<Rightarrow> string \<Rightarrow> ('w, native_observation) call"
  drv_stop :: "'w \<Rightarrow> string \<Rightarrow> ('w, native_observation) call"
  drv_replace :: "'w \<Rightarrow> string \<Rightarrow> ('w, native_observation) call"
  drv_observe :: "'w \<Rightarrow> string \<Rightarrow> ('w, native_observation option) call"

record 'w lifecycle_port =
  port_start :: "'w \<Rightarrow> string \<Rightarrow> ('w, lifecycle_result) call"
  port_stop :: "'w \<Rightarrow> string \<Rightarrow> ('w, lifecycle_result) call"
  port_replace :: "'w \<Rightarrow> string \<Rightarrow> ('w, lifecycle_result) call"
  port_observe :: "'w \<Rightarrow> string \<Rightarrow> ('w, native_observation option) call"

definition lifecycle_unsupported :: "string \<Rightarrow> string \<Rightarrow> lifecycle_result" where
  "lifecycle_unsupported op ident = \<lparr>lr_operation = op, lr_state = NOT_YET_PROVEN, lr_identity = ident,
     lr_reason = ''OPERATION_NOT_SUPPORTED'', lr_correlation = None\<rparr>"

definition lifecycle_applied :: "string \<Rightarrow> string \<Rightarrow> string \<Rightarrow> string option \<Rightarrow> lifecycle_result" where
  "lifecycle_applied op ident why corr = \<lparr>lr_operation = op, lr_state = SUPPORTED, lr_identity = ident,
     lr_reason = why, lr_correlation = corr\<rparr>"

definition applied_call ::
  "string \<Rightarrow> string \<Rightarrow> ('w, native_observation) call \<Rightarrow> ('w, lifecycle_result) call" where
  "applied_call op ident c = (case c of (w, Inl e) \<Rightarrow> (w, Inl e)
     | (w, Inr ob) \<Rightarrow> (w, Inr (lifecycle_applied op ident ''LIFECYCLE_APPLIED'' (no_correlation ob))))"

definition start_runtime :: "'w lifecycle_driver option \<Rightarrow> 'w \<Rightarrow> string \<Rightarrow> ('w, lifecycle_result) call" where
  "start_runtime drv w ident = (case drv of
     None \<Rightarrow> (w, Inr (lifecycle_unsupported ''start'' ident))
   | Some d \<Rightarrow> (case drv_observe d w ident of
       (w1, Inl e) \<Rightarrow> (w1, Inl e)
     | (w1, Inr existing) \<Rightarrow>
         (case existing of
            Some ob \<Rightarrow> if no_state ob = N_RUNNING
              then (w1, Inr (lifecycle_applied ''start'' ident ''LIFECYCLE_OBSERVED'' (no_correlation ob)))
              else applied_call ''start'' ident (drv_start d w1 ident)
          | None \<Rightarrow> applied_call ''start'' ident (drv_start d w1 ident))))"

definition stop_runtime :: "'w lifecycle_driver option \<Rightarrow> 'w \<Rightarrow> string \<Rightarrow> ('w, lifecycle_result) call" where
  "stop_runtime drv w ident = (case drv of
     None \<Rightarrow> (w, Inr (lifecycle_unsupported ''stop'' ident))
   | Some d \<Rightarrow> applied_call ''stop'' ident (drv_stop d w ident))"

definition replace_runtime :: "'w lifecycle_driver option \<Rightarrow> 'w \<Rightarrow> string \<Rightarrow> ('w, lifecycle_result) call" where
  "replace_runtime drv w ident = (case drv of
     None \<Rightarrow> (w, Inr (lifecycle_unsupported ''replace'' ident))
   | Some d \<Rightarrow> applied_call ''replace'' ident (drv_replace d w ident))"

definition observe_runtime ::
  "'w lifecycle_driver option \<Rightarrow> 'w \<Rightarrow> string \<Rightarrow> ('w, native_observation option) call" where
  "observe_runtime drv w ident = (case drv of None \<Rightarrow> (w, Inr None) | Some d \<Rightarrow> drv_observe d w ident)"

definition native_port :: "'w lifecycle_driver option \<Rightarrow> 'w lifecycle_port" where
  "native_port drv = \<lparr>port_start = start_runtime drv, port_stop = stop_runtime drv,
     port_replace = replace_runtime drv, port_observe = observe_runtime drv\<rparr>"

subsection \<open>The manager\<close>

definition native_state_kind :: "native_state \<Rightarrow> observed_kind" where
  "native_state_kind s = (case s of N_PENDING \<Rightarrow> O_PENDING | N_RUNNING \<Rightarrow> O_RUNNING | N_STOPPED \<Rightarrow> O_STOPPED
     | N_TERMINATED \<Rightarrow> O_TERMINATED | N_FAILED \<Rightarrow> O_FAILED | N_UNKNOWN \<Rightarrow> O_UNKNOWN)"

definition native_correlation :: "string option \<Rightarrow> (string, external_correlation option) result" where
  "native_correlation corr = (case corr of
     None \<Rightarrow> Inr None
   | Some h \<Rightarrow> if h = [] then Inr None
       else rbind (external_correlation_init \<lparr>ec_system = ''native'', ec_kind = ''runtime'', ec_handle = h\<rparr>)
         (\<lambda>e. Inr (Some e)))"

definition normalize_observation ::
  "'r control_repository \<Rightarrow> time \<Rightarrow> 'r \<Rightarrow> runtime_command \<Rightarrow> native_observation option \<Rightarrow> time
   \<Rightarrow> (string, runtime_observation option) result" where
  "normalize_observation repo freshness r c native now = (case native of
     None \<Rightarrow> Inr None
   | Some n \<Rightarrow>
       (let st = native_state_kind (no_state n); d = rc_desired c in
        rbind (native_correlation (no_correlation n)) (\<lambda>corr.
        rbind (opaque_id (ds_command_id d @ ''-'' @
            show_int (int (length (repo_facts repo r (ds_runtime_instance_id d))) + 1))) (\<lambda>oid.
        rbind (runtime_observation_init \<lparr>ro_observation_id = oid, ro_runtime_instance_id = ds_runtime_instance_id d,
          ro_generation = ds_generation d, ro_state = st,
          ro_health = (if st = O_RUNNING then H_HEALTHY else H_UNKNOWN),
          ro_readiness = (if st = O_RUNNING then R_READY else R_NOT_READY),
          ro_observed_at = now, ro_freshness_deadline = now + freshness, ro_provider_correlation = corr,
          ro_kubernetes_correlation = None, ro_limitation_codes = [''NATIVE_PROVIDER_OBSERVATION'']\<rparr>)
        (\<lambda>ob. Inr (Some ob))))))"

definition append_result ::
  "'r control_repository \<Rightarrow> 'r \<Rightarrow> runtime_command \<Rightarrow> command_result \<Rightarrow> time \<Rightarrow> runtime_observation option
   \<Rightarrow> string \<Rightarrow> 'r \<times> (string, reconciliation_fact) result" where
  "append_result repo r c res now ob why =
     (case reconciliation_fact_init \<lparr>rf_command = c, rf_result = res, rf_recorded_at = now, rf_observation = ob,
         rf_reason = why\<rparr> of
        Inl e \<Rightarrow> (r, Inl e)
      | Inr f \<Rightarrow> (repo_append_fact repo r f, Inr f))"

definition manager_request ::
  "'r control_repository \<Rightarrow> 'r \<Rightarrow> runtime_command \<Rightarrow> scope_identity \<Rightarrow> time
   \<Rightarrow> 'r \<times> (string, reconciliation_fact) result" where
  "manager_request repo r c authorized now =
     (if rc_scope c \<noteq> authorized then (r, Inl ''COMMAND_SCOPE_MISMATCH'')
      else case repo_append_desired repo r c of
        Inl e \<Rightarrow> (r, Inl e)
      | Inr r' \<Rightarrow> append_result repo r' c C_REQUESTED now None ''DESIRED_PERSISTED'')"

definition replacement_issued :: "runtime_command \<Rightarrow> reconciliation_fact list \<Rightarrow> bool" where
  "replacement_issued c prior = list_ex (\<lambda>f. ds_command_id (rc_desired (rf_command f)) = ds_command_id (rc_desired c) \<and>
     rf_result f \<in> {C_APPLIED, C_OBSERVED}) prior"

definition converged ::
  "runtime_command \<Rightarrow> runtime_observation option \<Rightarrow> reconciliation_fact list \<Rightarrow> time \<Rightarrow> bool" where
  "converged c ob prior now = (ob \<noteq> None \<and> (rc_operation c \<noteq> REPLACE \<or> replacement_issued c prior) \<and>
     classify_reconciliation (rc_desired c) ob now False = C_OBSERVED)"

definition ambiguous_last :: "reconciliation_fact list \<Rightarrow> bool" where
  "ambiguous_last prior = (prior \<noteq> [] \<and> rf_result (last prior) \<in> {C_UNKNOWN, C_STALE, C_RECOVERY_REQUIRED})"

definition issue_effect :: "'w lifecycle_port \<Rightarrow> runtime_operation \<Rightarrow> 'w \<Rightarrow> string \<Rightarrow> 'w \<times> bool" where
  "issue_effect p op w rid = (case op of
     START \<Rightarrow> (case port_start p w rid of (w', res) \<Rightarrow> (w', is_ok res))
   | STOP \<Rightarrow> (case port_stop p w rid of (w', res) \<Rightarrow> (w', is_ok res))
   | CANCEL \<Rightarrow> (case port_stop p w rid of (w', res) \<Rightarrow> (w', is_ok res))
   | REPLACE \<Rightarrow> (case port_replace p w rid of (w', res) \<Rightarrow> (w', is_ok res))
   | OBSERVE \<Rightarrow> (w, True))"

definition reconcile_runtime ::
  "'r control_repository \<Rightarrow> 'w lifecycle_port \<Rightarrow> time \<Rightarrow> 'w \<Rightarrow> 'r \<Rightarrow> string \<Rightarrow> scope_identity \<Rightarrow> time
   \<Rightarrow> 'w \<times> 'r \<times> (string, reconciliation_fact) result" where
  "reconcile_runtime repo p freshness w r rid authorized now =
     (case repo_desired repo r rid of
        None \<Rightarrow> (w, r, Inl ''DESIRED_COMMAND_NOT_FOUND'')
      | Some c \<Rightarrow>
     (if rc_scope c \<noteq> authorized then (w, r, Inl ''COMMAND_SCOPE_MISMATCH'')
      else case port_observe p w rid of
        (w1, Inl _) \<Rightarrow> (w1, r, Inl ''PROVIDER_RAISED'')
      | (w1, Inr observed) \<Rightarrow>
     (case normalize_observation repo freshness r c observed now of
        Inl e \<Rightarrow> (w1, r, Inl e)
      | Inr ob \<Rightarrow>
     (let prior = repo_facts repo r rid in
      if converged c ob prior now then (w1, append_result repo r c C_OBSERVED now ob ''EXTERNAL_STATE_OBSERVED'')
      else if ambiguous_last prior
        then (w1, append_result repo r c C_RECOVERY_REQUIRED now ob ''AMBIGUOUS_EFFECT_NOT_REISSUED'')
      else case issue_effect p (rc_operation c) w1 rid of
        (w2, False) \<Rightarrow> (w2, append_result repo r c C_RECOVERY_REQUIRED now ob ''PROVIDER_EFFECT_AMBIGUOUS'')
      | (w2, True) \<Rightarrow>
          (case port_observe p w2 rid of
             (w3, Inl _) \<Rightarrow> (w3, r, Inl ''PROVIDER_RAISED'')
           | (w3, Inr observed2) \<Rightarrow>
          (case normalize_observation repo freshness r c observed2 now of
             Inl e \<Rightarrow> (w3, r, Inl e)
           | Inr ob2 \<Rightarrow> (w3, append_result repo r c (classify_reconciliation (rc_desired c) ob2 now False) now ob2
               ''EFFECT_APPLIED_AND_OBSERVED'')))))))"

subsection \<open>The application adapter\<close>

record native_identity =
  ni_scope :: scope_identity
  ni_runtime_instance_id :: string
  ni_placement_id :: string
  ni_attempt_id :: string
  ni_agent_instance_id :: string

definition translate_native_identity ::
  "(placement_decision \<Rightarrow> string) \<Rightarrow> placement_request \<Rightarrow> placement_decision \<Rightarrow> scope_identity
   \<Rightarrow> (string, native_identity) result" where
  "translate_native_identity digest q d authorized =
     (if pr_scope q \<noteq> authorized then Inl ''PLACEMENT_SCOPE_MISMATCH''
      else if pd_request_id d \<noteq> pr_request_id q then Inl ''PLACEMENT_REQUEST_MISMATCH''
      else if pd_decision d \<noteq> PLACED then Inl ''PLACEMENT_NOT_AUTHORIZED''
      else rbind (verify_digest digest d) (\<lambda>_. case pd_runtime_instance_id d of
        None \<Rightarrow> Inl ''RUNTIME_INSTANCE_REQUIRED''
      | Some rid \<Rightarrow> Inr \<lparr>ni_scope = pr_scope q, ni_runtime_instance_id = rid, ni_placement_id = pd_placement_id d,
          ni_attempt_id = pr_attempt_id q, ni_agent_instance_id = pr_agent_instance_id q\<rparr>))"

record native_assembly =
  na_selected_instance :: string
  na_request :: placement_request
  na_decision :: placement_decision
  na_command :: runtime_command

definition native_apply ::
  "'r control_repository \<Rightarrow> 'w lifecycle_port \<Rightarrow> time \<Rightarrow> (placement_decision \<Rightarrow> string) \<Rightarrow> 'w \<Rightarrow> 'r
   \<Rightarrow> native_assembly \<Rightarrow> time \<Rightarrow> time \<Rightarrow> 'w \<times> 'r \<times> (string, reconciliation_fact) result" where
  "native_apply repo p freshness digest w r v now1 now2 =
     (case translate_native_identity digest (na_request v) (na_decision v) (rc_scope (na_command v)) of
        Inl e \<Rightarrow> (w, r, Inl e)
      | Inr i \<Rightarrow>
          if na_selected_instance v \<noteq> ni_agent_instance_id i then (w, r, Inl ''AGENT_INSTANCE_IDENTITY_MISMATCH'')
          else if command_runtime (na_command v) \<noteq> ni_runtime_instance_id i
            then (w, r, Inl ''RUNTIME_INSTANCE_IDENTITY_MISMATCH'')
          else if rc_placement (na_command v) \<noteq> ni_placement_id i then (w, r, Inl ''PLACEMENT_IDENTITY_MISMATCH'')
          else case manager_request repo r (na_command v) (ni_scope i) now1 of
            (r', Inl e) \<Rightarrow> (w, r', Inl e)
          | (r', Inr _) \<Rightarrow> reconcile_runtime repo p freshness w r' (ni_runtime_instance_id i) (ni_scope i) now2)"

subsection \<open>Pod observations\<close>

text \<open>The fields of a Pod that are read, in the shape the API server gives them.\<close>

record pod =
  pod_uid :: "string option"
  pod_name :: "string option"
  pod_namespace :: "string option"
  pod_deleting :: bool
  pod_phase :: "string option"
  pod_conditions :: "(string \<times> string) list"

definition pod_state :: "pod \<Rightarrow> observed_kind" where
  "pod_state p = (if pod_deleting p \<or> pod_phase p = Some ''Succeeded'' then O_TERMINATED
     else if pod_phase p = Some ''Running'' then O_RUNNING
     else if pod_phase p = Some ''Failed'' then O_FAILED
     else if pod_phase p = Some ''Pending'' then O_PENDING else O_UNKNOWN)"

definition normalize_pod_observation ::
  "pod \<Rightarrow> string \<Rightarrow> int \<Rightarrow> time \<Rightarrow> time \<Rightarrow> string \<Rightarrow> (string, runtime_observation) result" where
  "normalize_pod_observation p rid gen at freshness oid =
     (case (pod_uid p, pod_name p, pod_namespace p) of
        (Some u, Some n, Some ns) \<Rightarrow>
          if u = [] \<or> n = [] \<or> ns = [] then Inl ''POD_CORRELATION_REQUIRED''
          else if freshness \<le> 0 then Inl ''INVALID_OBSERVATION_TIME''
          else (let ready = ((''Ready'', ''True'') \<in> set (pod_conditions p)); st = pod_state p in
            rbind (external_correlation_init \<lparr>ec_system = ''kubernetes'', ec_kind = ''Pod'',
                ec_handle = ns @ ''/'' @ n @ ''/'' @ u\<rparr>) (\<lambda>k.
            runtime_observation_init \<lparr>ro_observation_id = oid, ro_runtime_instance_id = rid, ro_generation = gen,
              ro_state = st,
              ro_health = (if st = O_RUNNING \<and> ready then H_HEALTHY else if st = O_FAILED then H_UNHEALTHY else H_UNKNOWN),
              ro_readiness = (if ready \<and> \<not> pod_deleting p then R_READY else R_NOT_READY),
              ro_observed_at = at, ro_freshness_deadline = at + freshness, ro_provider_correlation = None,
              ro_kubernetes_correlation = Some k, ro_limitation_codes = [''POD_PHASE_NOT_BUSINESS_SUCCESS'']\<rparr>))
      | _ \<Rightarrow> Inl ''POD_CORRELATION_REQUIRED'')"

subsection \<open>Effects and runs\<close>

text \<open>
  A port that also records the effects asked of the provider: observations are not effects.
\<close>

datatype runtime_effect = E_START | E_STOP | E_REPLACE

type_synonym effect_log = "(runtime_effect \<times> string) list"

definition log_call ::
  "runtime_effect \<Rightarrow> ('w \<Rightarrow> string \<Rightarrow> ('w, 'a) call) \<Rightarrow> 'w \<times> effect_log \<Rightarrow> string \<Rightarrow> ('w \<times> effect_log, 'a) call" where
  "log_call e f s ident = (case f (fst s) ident of (w, res) \<Rightarrow> ((w, snd s @ [(e, ident)]), res))"

definition logged_port :: "'w lifecycle_port \<Rightarrow> ('w \<times> effect_log) lifecycle_port" where
  "logged_port p = \<lparr>port_start = log_call E_START (port_start p), port_stop = log_call E_STOP (port_stop p),
     port_replace = log_call E_REPLACE (port_replace p),
     port_observe = (\<lambda>s ident. case port_observe p (fst s) ident of (w, res) \<Rightarrow> ((w, snd s), res))\<rparr>"

definition operation_effect :: "runtime_operation \<Rightarrow> runtime_effect option" where
  "operation_effect op = (case op of START \<Rightarrow> Some E_START | STOP \<Rightarrow> Some E_STOP | CANCEL \<Rightarrow> Some E_STOP
     | REPLACE \<Rightarrow> Some E_REPLACE | OBSERVE \<Rightarrow> None)"

definition effect_entries :: "runtime_operation \<Rightarrow> string \<Rightarrow> effect_log" where
  "effect_entries op rid = (case operation_effect op of None \<Rightarrow> [] | Some e \<Rightarrow> [(e, rid)])"

datatype manager_event = Request runtime_command scope_identity time | Reconcile string scope_identity time

fun manager_step ::
  "'r control_repository \<Rightarrow> 'w lifecycle_port \<Rightarrow> time \<Rightarrow> 'w \<times> 'r \<Rightarrow> manager_event \<Rightarrow> 'w \<times> 'r" where
  "manager_step repo p freshness (w, r) (Request c authorized now) = (w, fst (manager_request repo r c authorized now))"
| "manager_step repo p freshness (w, r) (Reconcile rid authorized now) =
     (case reconcile_runtime repo p freshness w r rid authorized now of (w', r', _) \<Rightarrow> (w', r'))"

definition manager_run ::
  "'r control_repository \<Rightarrow> 'w lifecycle_port \<Rightarrow> time \<Rightarrow> 'w \<times> 'r \<Rightarrow> manager_event list \<Rightarrow> 'w \<times> 'r" where
  "manager_run repo p freshness s evs = foldl (manager_step repo p freshness) s evs"

definition requests_runtime :: "string \<Rightarrow> manager_event \<Rightarrow> bool" where
  "requests_runtime rid ev = (case ev of Request c _ _ \<Rightarrow> command_runtime c = rid | Reconcile _ _ _ \<Rightarrow> False)"

text \<open>What a reconcile decides before it may touch the provider.\<close>

datatype reconcile_decision = Refused | Converged | Held | Issue

definition reconcile_decides ::
  "'r control_repository \<Rightarrow> 'w lifecycle_port \<Rightarrow> time \<Rightarrow> 'w \<Rightarrow> 'r \<Rightarrow> string \<Rightarrow> scope_identity \<Rightarrow> time
   \<Rightarrow> runtime_command \<Rightarrow> reconcile_decision" where
  "reconcile_decides repo p freshness w r rid authorized now c =
     (if repo_desired repo r rid \<noteq> Some c \<or> rc_scope c \<noteq> authorized then Refused
      else case snd (port_observe p w rid) of Inl _ \<Rightarrow> Refused
      | Inr observed \<Rightarrow> (case normalize_observation repo freshness r c observed now of Inl _ \<Rightarrow> Refused
        | Inr ob \<Rightarrow> if converged c ob (repo_facts repo r rid) now then Converged
            else if ambiguous_last (repo_facts repo r rid) then Held else Issue))"

lemma logged_port_observe [simp]:
  "port_observe (logged_port p) (w, l) rid = (case port_observe p w rid of (w', res) \<Rightarrow> ((w', l), res))"
  by (simp add: logged_port_def)

lemma issue_effect_logged:
  "issue_effect (logged_port p) op (w, l) rid =
     (case issue_effect p op w rid of (w', ok) \<Rightarrow> ((w', l @ effect_entries op rid), ok))"
  by (cases op) (simp_all add: issue_effect_def logged_port_def log_call_def effect_entries_def
    operation_effect_def split: prod.splits)

lemma append_result_cases:
  "append_result repo r c res now ob why = (r', x) \<Longrightarrow>
     (r' = r \<and> (\<exists>e. x = Inl e)) \<or>
     (\<exists>f. r' = repo_append_fact repo r f \<and> x = Inr f \<and> rf_command f = c \<and> rf_result f = res)"
  by (auto simp: append_result_def reconciliation_fact_init_def split: sum.splits option.splits if_splits)

lemma reconcile_logged:
  "reconcile_runtime repo (logged_port p) freshness (w, l) r rid authorized now =
     (case reconcile_runtime repo p freshness w r rid authorized now of (w', r', res) \<Rightarrow>
       ((w', l @ (case repo_desired repo r rid of None \<Rightarrow> []
          | Some c \<Rightarrow> if reconcile_decides repo p freshness w r rid authorized now c = Issue
              then effect_entries (rc_operation c) rid else [])), r', res))"
  by (simp add: reconcile_runtime_def reconcile_decides_def issue_effect_logged Let_def
    split: option.splits prod.splits sum.splits bool.splits)

subsection \<open>The contract of the repository\<close>

locale runtime_control_repository =
  fixes repo :: "'r control_repository"
    and invar :: "'r \<Rightarrow> bool"
  assumes desired_after_append:
      "repo_append_desired repo r c = Inr r' \<Longrightarrow> invar r \<Longrightarrow>
         repo_desired repo r' rid = (if rid = command_runtime c then Some c else repo_desired repo r rid)"
    and append_monotone:
      "repo_append_desired repo r c = Inr r' \<Longrightarrow> invar r \<Longrightarrow> repo_desired repo r (command_runtime c) = Some d \<Longrightarrow>
         c = d \<or> ds_generation (rc_desired d) < ds_generation (rc_desired c)"
    and append_replay: "invar r \<Longrightarrow> repo_desired repo r (command_runtime c) = Some c \<Longrightarrow> repo_append_desired repo r c = Inr r"
    and facts_after_desired: "repo_append_desired repo r c = Inr r' \<Longrightarrow> repo_facts repo r' rid = repo_facts repo r rid"
    and facts_after_fact:
      "repo_facts repo (repo_append_fact repo r f) rid =
         (if rid = command_runtime (rf_command f) then repo_facts repo r rid @ [f] else repo_facts repo r rid)"
    and desired_after_fact: "repo_desired repo (repo_append_fact repo r f) rid = repo_desired repo r rid"
    and desired_key: "invar r \<Longrightarrow> repo_desired repo r rid = Some c \<Longrightarrow> command_runtime c = rid"
    and invar_append_desired: "repo_append_desired repo r c = Inr r' \<Longrightarrow> invar r \<Longrightarrow> invar r'"
    and invar_append_fact: "invar r \<Longrightarrow> invar (repo_append_fact repo r f)"
begin

lemma reconcile_appends:
  assumes "reconcile_runtime repo p freshness w r rid authorized now = (w', r', res)"
  shows "(r' = r \<and> (\<exists>e. res = Inl e)) \<or>
    (\<exists>c f. repo_desired repo r rid = Some c \<and> rc_scope c = authorized \<and> r' = repo_append_fact repo r f \<and> res = Inr f
      \<and> rf_command f = c)"
  using assms
  by (auto simp: reconcile_runtime_def Let_def split: option.splits if_splits prod.splits sum.splits bool.splits
    dest!: append_result_cases)

lemma reconcile_holds:
  assumes "reconcile_runtime repo p freshness w r rid authorized now = (w', r', Inr f)"
    and "ambiguous_last (repo_facts repo r rid)"
  shows "rf_result f = C_OBSERVED \<or> rf_result f = C_RECOVERY_REQUIRED"
  using assms
  by (auto simp: reconcile_runtime_def Let_def split: option.splits if_splits prod.splits sum.splits bool.splits
    dest!: append_result_cases)

lemma request_appends:
  assumes "manager_request repo r c authorized now = (r', res)"
  shows "(r' = r \<and> (\<exists>e. res = Inl e)) \<or>
    (\<exists>r1 f. rc_scope c = authorized \<and> repo_append_desired repo r c = Inr r1 \<and> r' = repo_append_fact repo r1 f
       \<and> res = Inr f \<and> rf_command f = c \<and> rf_result f = C_REQUESTED)"
  using assms
  by (auto simp: manager_request_def append_result_def reconciliation_fact_init_def split: if_splits sum.splits)

lemma step_cases:
  assumes "manager_step repo p freshness (w, r) ev = (w', r')"
  obtains (same) "r' = r"
  | (fact) c f rid authorized now where "ev = Reconcile rid authorized now" "repo_desired repo r rid = Some c"
      "r' = repo_append_fact repo r f" "rf_command f = c"
  | (asked) c r1 f authorized now where "ev = Request c authorized now" "repo_append_desired repo r c = Inr r1"
      "r' = repo_append_fact repo r1 f" "rf_command f = c"
proof (cases ev)
  case (Request c a n)
  then have "manager_request repo r c a n = (r', snd (manager_request repo r c a n))" using assms by auto
  from request_appends [OF this] show ?thesis using same asked Request by blast
next
  case (Reconcile i a n)
  then obtain x where "reconcile_runtime repo p freshness w r i a n = (w', r', x)"
    using assms by (auto split: prod.splits)
  from reconcile_appends [OF this] show ?thesis using same fact Reconcile by blast
qed

lemma step_invar: "manager_step repo p freshness (w, r) ev = (w', r') \<Longrightarrow> invar r \<Longrightarrow> invar r'"
  by (erule step_cases) (auto intro: invar_append_desired invar_append_fact)

lemma step_history:
  assumes step: "manager_step repo p freshness (w, r) ev = (w', r')" and ok: "invar r"
  shows "(\<exists>new. repo_facts repo r' rid = repo_facts repo r rid @ new \<and>
      (\<forall>f \<in> set new. repo_desired repo r' rid = Some (rf_command f)))
    \<and> (\<forall>d. repo_desired repo r rid = Some d \<longrightarrow> (\<exists>d'. repo_desired repo r' rid = Some d' \<and>
        (d' = d \<or> ds_generation (rc_desired d) < ds_generation (rc_desired d'))))"
  using step
proof (cases rule: step_cases)
  case (fact c f i a n)
  then have "command_runtime c = i" using ok desired_key by simp
  then show ?thesis using fact by (auto simp: facts_after_fact desired_after_fact)
next
  case (asked c r1 f a n)
  show ?thesis
  proof (cases "rid = command_runtime c")
    case True
    then show ?thesis using asked ok append_monotone [OF asked(2) ok]
      by (auto simp: facts_after_fact desired_after_fact facts_after_desired desired_after_append)
  next
    case False
    then show ?thesis using asked ok
      by (auto simp: facts_after_fact desired_after_fact facts_after_desired desired_after_append)
  qed
qed auto

lemma run_preserves:
  assumes run: "manager_run repo p freshness (w, r) evs = (w', r')" and "invar r" and "P r"
    and step: "\<And>w r ev w' r'. manager_step repo p freshness (w, r) ev = (w', r') \<Longrightarrow> invar r \<Longrightarrow> P r \<Longrightarrow> P r'"
  shows "invar r' \<and> P r'"
  using run assms(2,3)
proof (induction evs arbitrary: w r)
  case (Cons ev evs)
  obtain w1 r1 where s: "manager_step repo p freshness (w, r) ev = (w1, r1)" by (metis surj_pair)
  show ?case
    using Cons.IH [of w1 r1] step_invar [OF s Cons.prems(2)] step [OF s Cons.prems(2,3)] Cons.prems s
    by (simp add: manager_run_def)
qed (simp add: manager_run_def)

text \<open>Facts of one runtime are about the commands persisted for it, in the order of their generations.\<close>

definition command_history :: "'r \<Rightarrow> string \<Rightarrow> bool" where
  "command_history r rid =
     (sorted (map (\<lambda>f. ds_generation (rc_desired (rf_command f))) (repo_facts repo r rid)) \<and>
      (\<forall>f \<in> set (repo_facts repo r rid). \<exists>d. repo_desired repo r rid = Some d \<and>
         (rf_command f = d \<or> ds_generation (rc_desired (rf_command f)) < ds_generation (rc_desired d))) \<and>
      (\<forall>f \<in> set (repo_facts repo r rid). \<forall>g \<in> set (repo_facts repo r rid).
         ds_generation (rc_desired (rf_command f)) = ds_generation (rc_desired (rf_command g)) \<longrightarrow>
           rf_command f = rf_command g))"

lemma step_command_history:
  assumes step: "manager_step repo p freshness (w, r) ev = (w', r')" and ok: "invar r" and h: "command_history r rid"
  shows "command_history r' rid"
proof -
  let ?g = "\<lambda>f. ds_generation (rc_desired (rf_command f))"
  obtain new where n: "repo_facts repo r' rid = repo_facts repo r rid @ new"
    and nd: "\<forall>f \<in> set new. repo_desired repo r' rid = Some (rf_command f)"
    using step_history [OF step ok] by blast
  have old: "\<exists>d. repo_desired repo r' rid = Some d \<and> (rf_command f = d \<or> ?g f < ds_generation (rc_desired d))"
    if "f \<in> set (repo_facts repo r rid)" for f
    using h that step_history [OF step ok, of rid] unfolding command_history_def by fastforce
  have le: "?g f \<le> ?g g" if "f \<in> set (repo_facts repo r rid)" "g \<in> set new" for f g
    using old [OF that(1)] nd that(2) by auto
  have eq: "rf_command f = rf_command g" if "f \<in> set (repo_facts repo r rid)" "g \<in> set new" "?g f = ?g g" for f g
    using old [OF that(1)] nd that(2,3) by auto
  have same: "rf_command f = rf_command g" if "f \<in> set new" "g \<in> set new" for f g
    using nd that by (metis option.inject)
  then have "?g f \<le> ?g g" if "f \<in> set new" "g \<in> set new" for f g using that by (metis order_refl)
  then have "sorted (map ?g new)" by (induction new) auto
  then have "sorted (map ?g (repo_facts repo r' rid))"
    using h le by (auto simp: n sorted_append command_history_def)
  moreover have "\<forall>f \<in> set (repo_facts repo r' rid). \<exists>d. repo_desired repo r' rid = Some d \<and>
      (rf_command f = d \<or> ?g f < ds_generation (rc_desired d))" using n nd old by auto
  moreover have "rf_command f = rf_command g" if m: "f \<in> set (repo_facts repo r' rid)" "g \<in> set (repo_facts repo r' rid)"
      and e: "?g f = ?g g" for f g
  proof -
    consider "f \<in> set (repo_facts repo r rid)" "g \<in> set (repo_facts repo r rid)" | "f \<in> set (repo_facts repo r rid)" "g \<in> set new"
      | "f \<in> set new" "g \<in> set (repo_facts repo r rid)" | "f \<in> set new" "g \<in> set new"
      using m n by auto
    then show ?thesis
    proof cases
      case 1 then show ?thesis using h e unfolding command_history_def by blast
    next
      case 2 then show ?thesis using eq e by blast
    next
      case 3 then show ?thesis using eq [of g f] e by simp
    next
      case 4 then show ?thesis by (rule same)
    qed
  qed
  ultimately show ?thesis unfolding command_history_def by blast
qed

lemma run_command_history:
  "manager_run repo p freshness (w, r) evs = (w', r') \<Longrightarrow> invar r \<Longrightarrow> command_history r rid \<Longrightarrow> command_history r' rid"
  using run_preserves [of p freshness w r evs w' r' "\<lambda>r. command_history r rid"] step_command_history by metis

lemma run_facts_grow:
  assumes "manager_run repo p freshness (w, r) evs = (w', r')" and "invar r"
  shows "invar r' \<and> (\<exists>new. repo_facts repo r' rid = repo_facts repo r rid @ new)"
proof (rule run_preserves [OF assms])
  show "\<exists>new. repo_facts repo r2 rid = repo_facts repo r rid @ new"
    if s: "manager_step repo p freshness (w1, r1) ev = (w2, r2)" and "invar r1"
      and o: "\<exists>new. repo_facts repo r1 rid = repo_facts repo r rid @ new" for w1 r1 ev w2 r2
    using step_history [OF s \<open>invar r1\<close>, of rid] o by auto
qed simp

lemma step_held:
  assumes step: "manager_step repo (logged_port p) freshness ((w, l), r) ev = ((w', l'), r')" and ok: "invar r"
    and amb: "ambiguous_last (repo_facts repo r rid)" and no: "\<not> requests_runtime rid ev"
  shows "filter (\<lambda>e. snd e = rid) l' = filter (\<lambda>e. snd e = rid) l \<and>
    (\<exists>new. repo_facts repo r' rid = repo_facts repo r rid @ new \<and>
      (\<forall>f \<in> set new. rf_result f = C_OBSERVED \<or> rf_result f = C_RECOVERY_REQUIRED))"
proof (cases ev)
  case (Request c a n)
  then have o: "command_runtime c \<noteq> rid" using no by (simp add: requests_runtime_def)
  have "manager_request repo r c a n = (r', snd (manager_request repo r c a n))" and "l' = l" using step Request by auto
  then show ?thesis using o request_appends [of r c a n r' "snd (manager_request repo r c a n)"]
    by (auto simp: facts_after_fact facts_after_desired)
next
  case (Reconcile i a n)
  obtain w1 r1 x where run: "reconcile_runtime repo p freshness w r i a n = (w1, r1, x)" by (metis prod_cases3)
  then have r1: "r1 = r'" using step Reconcile by (simp add: reconcile_logged)
  have "filter (\<lambda>e. snd e = rid) l' = filter (\<lambda>e. snd e = rid) l"
    using step Reconcile run amb
    by (cases "i = rid") (auto simp: reconcile_logged reconcile_decides_def effect_entries_def
      split: option.splits if_splits sum.splits)
  moreover consider "r' = r" | c f where "repo_desired repo r i = Some c" "r' = repo_append_fact repo r f" "x = Inr f"
      "rf_command f = c"
    using reconcile_appends [OF run] r1 by blast
  then have "\<exists>new. repo_facts repo r' rid = repo_facts repo r rid @ new \<and>
      (\<forall>f \<in> set new. rf_result f = C_OBSERVED \<or> rf_result f = C_RECOVERY_REQUIRED)"
  proof cases
    case (2 c f)
    then have "command_runtime c = i" using ok desired_key by simp
    then show ?thesis using 2 amb run reconcile_holds [of p freshness w r i a n w1 r1 f]
      by (auto simp: facts_after_fact)
  qed simp
  ultimately show ?thesis by simp
qed

lemma run_held:
  assumes "manager_run repo (logged_port p) freshness ((w, l), r) evs = ((w', l'), r')" and "invar r"
    and "ambiguous_last (repo_facts repo r rid)" and "\<forall>ev \<in> set evs. \<not> requests_runtime rid ev"
  shows "\<exists>new. repo_facts repo r' rid = repo_facts repo r rid @ new \<and>
    ((\<exists>f \<in> set new. rf_result f = C_OBSERVED) \<or> filter (\<lambda>e. snd e = rid) l' = filter (\<lambda>e. snd e = rid) l)"
  using assms
proof (induction evs arbitrary: w l r)
  case (Cons ev evs)
  obtain w1 l1 r1 where s: "manager_step repo (logged_port p) freshness ((w, l), r) ev = ((w1, l1), r1)"
    by (metis surj_pair)
  then have rest: "manager_run repo (logged_port p) freshness ((w1, l1), r1) evs = ((w', l'), r')"
    using Cons.prems(1) by (simp add: manager_run_def)
  obtain new where l1: "filter (\<lambda>e. snd e = rid) l1 = filter (\<lambda>e. snd e = rid) l"
    and new: "repo_facts repo r1 rid = repo_facts repo r rid @ new"
    and res: "\<forall>f \<in> set new. rf_result f = C_OBSERVED \<or> rf_result f = C_RECOVERY_REQUIRED"
    using step_held [OF s Cons.prems(2,3)] Cons.prems(4) by auto
  have ok: "invar r1" by (rule step_invar [OF s Cons.prems(2)])
  show ?case
  proof (cases "\<exists>f \<in> set new. rf_result f = C_OBSERVED")
    case True
    then show ?thesis using run_facts_grow [OF rest ok, of rid] new by auto
  next
    case False
    then have "ambiguous_last (repo_facts repo r1 rid)"
      using Cons.prems(3) new res by (cases new rule: rev_cases) (auto simp: ambiguous_last_def)
    then show ?thesis using Cons.IH [OF rest ok] Cons.prems(4) new l1 by auto
  qed
qed (simp add: manager_run_def)

text \<open>Requesting the persisted command again makes its effect eligible again.\<close>

lemma replay_clears:
  assumes "invar r" and "repo_desired repo r (command_runtime c) = Some c"
  obtains r' f where "manager_request repo r c (rc_scope c) now = (r', Inr f)"
    and "repo_desired repo r' (command_runtime c) = Some c"
    and "\<not> ambiguous_last (repo_facts repo r' (command_runtime c))"
  using that assms append_replay [OF assms]
  by (simp add: manager_request_def append_result_def reconciliation_fact_init_def facts_after_fact
    desired_after_fact ambiguous_last_def)

lemma unseen_effect_issued:
  assumes "repo_desired repo r rid = Some c" and "\<not> ambiguous_last (repo_facts repo r rid)"
    and "port_observe p w rid = (w1, Inr None)"
  shows "reconcile_decides repo p freshness w r rid (rc_scope c) now c = Issue"
  using assms by (simp add: reconcile_decides_def normalize_observation_def converged_def)

end

subsection \<open>The in-memory repository keeps the contract\<close>

definition memory_empty :: memory_repository where
  "memory_empty = \<lparr>mem_desired = [], mem_facts = []\<rparr>"

definition memory_ok :: "memory_repository \<Rightarrow> bool" where
  "memory_ok m = list_all (\<lambda>(k, c). command_runtime c = k) (mem_desired m)"

lemma memory_ok_lookup: "memory_ok m \<Longrightarrow> map_of (mem_desired m) rid = Some c \<Longrightarrow> command_runtime c = rid"
  by (auto simp: memory_ok_def list_all_iff dest: map_of_SomeD)

lemma list_all_dict_update:
  "list_all (\<lambda>(k, v). P k v) d \<Longrightarrow> P k v \<Longrightarrow> list_all (\<lambda>(k, v). P k v) (AList.update k v d)"
  by (induction d) auto

lemma memory_ok_update: "memory_ok m \<Longrightarrow> memory_ok (m\<lparr>mem_desired := AList.update (command_runtime c) c (mem_desired m)\<rparr>)"
  by (simp add: memory_ok_def list_all_dict_update)

lemmas memory_control_simps =
  memory_control_def memory_append_desired_def memory_desired_def memory_append_fact_def memory_facts_def dict_get_def

lemma memory_append_desired_cases:
  "memory_append_desired m c = Inr m' \<Longrightarrow>
     (m' = m \<and> map_of (mem_desired m) (command_runtime c) = Some c) \<or>
     (m' = m\<lparr>mem_desired := AList.update (command_runtime c) c (mem_desired m)\<rparr> \<and>
      (\<forall>d. map_of (mem_desired m) (command_runtime c) = Some d \<longrightarrow> ds_generation (rc_desired d) < ds_generation (rc_desired c)))"
  by (auto simp: memory_append_desired_def split: option.splits if_splits)

interpretation mem: runtime_control_repository memory_control memory_ok
proof (unfold_locales, goal_cases)
  case 1 then show ?case by (auto simp: memory_control_def memory_desired_def dest!: memory_append_desired_cases)
next
  case 2 then show ?case by (auto simp: memory_control_def memory_desired_def dest!: memory_append_desired_cases)
next
  case 3 then show ?case by (simp add: memory_control_simps)
next
  case 4 then show ?case by (auto simp: memory_control_def memory_facts_def dest!: memory_append_desired_cases)
next
  case 5 then show ?case by (simp add: memory_control_simps Let_def)
next
  case 6 then show ?case by (simp add: memory_control_simps Let_def)
next
  case 7 then show ?case by (auto simp: memory_control_def memory_desired_def intro: memory_ok_lookup)
next
  case 8 then show ?case by (auto simp: memory_control_def dest!: memory_append_desired_cases intro: memory_ok_update)
next
  case 9 then show ?case by (simp add: memory_control_simps Let_def memory_ok_def)
qed

lemma memory_control_sel [simp]:
  "repo_append_desired memory_control = memory_append_desired" "repo_desired memory_control = memory_desired"
  "repo_append_fact memory_control = memory_append_fact" "repo_facts memory_control = memory_facts"
  by (simp_all add: memory_control_def)

subsection \<open>Properties\<close>

text \<open>
  C19: in every run of requests and reconciles from the empty repository, with any provider, the
  facts of a runtime are ordered by the generation of their commands, a fact is about the command
  now desired or about one of a smaller generation, and a generation names one command only.
\<close>

theorem generations_identify_commands:
  assumes "manager_run memory_control p freshness (w, memory_empty) evs = (w', m)"
  shows "sorted (map (\<lambda>f. ds_generation (rc_desired (rf_command f))) (memory_facts m rid)) \<and>
    (\<forall>f \<in> set (memory_facts m rid). \<exists>d. memory_desired m rid = Some d \<and>
       (rf_command f = d \<or> ds_generation (rc_desired (rf_command f)) < ds_generation (rc_desired d))) \<and>
    (\<forall>f \<in> set (memory_facts m rid). \<forall>g \<in> set (memory_facts m rid).
       ds_generation (rc_desired (rf_command f)) = ds_generation (rc_desired (rf_command g)) \<longrightarrow>
         rf_command f = rf_command g)"
proof -
  have "memory_ok memory_empty" by (simp add: memory_ok_def memory_empty_def)
  moreover have "mem.command_history memory_empty rid"
    by (simp add: mem.command_history_def memory_empty_def memory_facts_def dict_get_def)
  ultimately have "mem.command_history m rid" by (rule mem.run_command_history [OF assms])
  then show ?thesis by (simp add: mem.command_history_def)
qed

text \<open>
  When an effect is due, said of what the provider reports and of what is stored, without the normalized observation:
  which native states show the state that is wanted; a replacement counts only when it was issued before; and which reports can be
  turned into an observation at all, given \<open>k\<close> earlier facts.
\<close>

definition wanted_states :: "desired_kind \<Rightarrow> native_state set" where
  "wanted_states d = (case d of D_RUNNING \<Rightarrow> {N_RUNNING} | D_STOPPED \<Rightarrow> {N_STOPPED, N_TERMINATED} | D_CANCELLED \<Rightarrow> {N_TERMINATED}
     | D_REPLACED \<Rightarrow> {N_PENDING, N_RUNNING} | D_OBSERVE \<Rightarrow> {N_PENDING, N_RUNNING, N_STOPPED, N_TERMINATED, N_FAILED})"

definition already_replaced :: "runtime_command \<Rightarrow> reconciliation_fact list \<Rightarrow> bool" where
  "already_replaced c fs = (\<exists>f \<in> set fs. ds_command_id (rc_desired (rf_command f)) = ds_command_id (rc_desired c) \<and>
     (rf_result f = C_APPLIED \<or> rf_result f = C_OBSERVED))"

definition reportable :: "time \<Rightarrow> runtime_command \<Rightarrow> nat \<Rightarrow> native_observation \<Rightarrow> bool" where
  "reportable freshness c k n = (0 < freshness \<and>
     utf8_length (strip (ds_command_id (rc_desired c) @ ''-'' @ show_int (int k + 1))) \<in> {1..200} \<and>
     (\<forall>h. no_correlation n = Some h \<and> h \<noteq> [] \<longrightarrow> utf8_length (strip h) \<in> {1..512}))"

definition effect_due :: "time \<Rightarrow> runtime_command \<Rightarrow> reconciliation_fact list \<Rightarrow> native_observation option \<Rightarrow> bool" where
  "effect_due freshness c fs seen = ((fs = [] \<or> rf_result (last fs) \<notin> {C_UNKNOWN, C_STALE, C_RECOVERY_REQUIRED}) \<and>
     (\<forall>n. seen = Some n \<longrightarrow> reportable freshness c (length fs) n \<and>
       (no_state n \<in> wanted_states (ds_state (rc_desired c)) \<longrightarrow> rc_operation c = REPLACE \<and> \<not> already_replaced c fs)))"

lemma text_length: "is_ok (normalized_text e k s) \<longleftrightarrow> utf8_length (strip s) \<in> {1..k}"
  using utf8_length_pos [of "strip s"] by (auto simp: normalized_text_def Let_def is_ok_iff)

lemma native_correlation_ok:
  "is_ok (native_correlation v) \<longleftrightarrow> (\<forall>h. v = Some h \<and> h \<noteq> [] \<longrightarrow> utf8_length (strip h) \<in> {1..512})"
proof (cases v)
  case (Some h)
  have fixed: "reference ''INVALID_EXTERNAL_CORRELATION'' ''native'' = Inr ''native''" "reference ''INVALID_EXTERNAL_CORRELATION'' ''runtime'' = Inr ''runtime''"
    by code_simp+
  have "is_ok (native_correlation (Some h)) \<longleftrightarrow> h = [] \<or> is_ok (reference ''INVALID_EXTERNAL_CORRELATION'' h)"
    by (simp add: native_correlation_def external_correlation_init_def fixed is_ok_iff rbind_Inr_iff)
  then show ?thesis by (auto simp: Some reference_ok)
qed (simp add: native_correlation_def is_ok_iff)

lemma normalized_reportable:
  assumes "command_runtime c = rid"
  shows "is_ok (normalize_observation memory_control freshness m c (Some n) now) \<longleftrightarrow> reportable freshness c (length (memory_facts m rid)) n"
proof -
  have lim: "is_ok (codes ''INVALID_LIMITATION_CODES'' [''NATIVE_PROVIDER_OBSERVATION''])" by code_simp
  show ?thesis unfolding reportable_def native_correlation_ok [symmetric] text_length [of "''INVALID_PRODUCT_ID''" 200, symmetric]
    using lim assms
    by (auto simp: normalize_observation_def Let_def runtime_observation_init_def opaque_id_def MAX_ID_BYTES_def command_runtime_def
      memory_control_def is_ok_iff rbind_Inr_iff split: if_splits)
qed

lemma normalized_converged:
  assumes "normalize_observation memory_control freshness m c (Some n) now = Inr ob"
  shows "converged c ob fs now \<longleftrightarrow> no_state n \<in> wanted_states (ds_state (rc_desired c)) \<and> (rc_operation c \<noteq> REPLACE \<or> already_replaced c fs)"
proof -
  obtain o' where "ob = Some o'" "ro_state o' = native_state_kind (no_state n)" "ro_runtime_instance_id o' = ds_runtime_instance_id (rc_desired c)"
      "ro_generation o' = ds_generation (rc_desired c)" "now < ro_freshness_deadline o'"
    using assms by (auto simp: normalize_observation_def Let_def runtime_observation_init_def split: if_splits)
  moreover have "replacement_issued c fs \<longleftrightarrow> already_replaced c fs" by (auto simp: replacement_issued_def already_replaced_def list_ex_iff)
  ultimately show ?thesis
    by (cases "no_state n"; cases "ds_state (rc_desired c)") (auto simp: converged_def classify_reconciliation_def observation_matches_desired_def
      current_observed_state_def native_state_kind_def accepted_states_def wanted_states_def)
qed

text \<open>
  C25: a reconcile asks the provider for an effect exactly when the persisted command is authorized for the scope, the provider
  answers the observation, the report is well formed and does not show a state that fulfils the command, and the last recorded result is none of
  unknown, stale and recovery required. The effect is the one of the persisted operation on that runtime: start, stop for both stop and cancel, replace, none for
  observe; there is at most one. An absent runtime counts as not in the wanted state; a replacement is due in any state until the command was
  applied or observed once.
\<close>

theorem reconcile_effects_exactly:
  assumes "memory_ok m"
  shows "snd (fst (reconcile_runtime memory_control (logged_port p) freshness (w, l) m rid authorized now)) =
    (case memory_desired m rid of
       None \<Rightarrow> l
     | Some c \<Rightarrow>
         if rc_scope c = authorized \<and> (\<exists>seen. snd (port_observe p w rid) = Inr seen \<and> effect_due freshness c (memory_facts m rid) seen)
         then l @ (case rc_operation c of START \<Rightarrow> [(E_START, rid)] | STOP \<Rightarrow> [(E_STOP, rid)] | CANCEL \<Rightarrow> [(E_STOP, rid)]
           | REPLACE \<Rightarrow> [(E_REPLACE, rid)] | OBSERVE \<Rightarrow> [])
         else l)"
proof (cases "memory_desired m rid")
  case (Some c)
  let ?fs = "memory_facts m rid"
  have rid: "command_runtime c = rid" using Some assms by (auto simp: memory_desired_def dest: memory_ok_lookup)
  have due: "effect_due freshness c ?fs seen \<longleftrightarrow> (\<exists>ob. normalize_observation memory_control freshness m c seen now = Inr ob \<and>
      \<not> converged c ob ?fs now \<and> \<not> ambiguous_last ?fs)" for seen
  proof (cases seen)
    case None
    then show ?thesis by (auto simp: effect_due_def normalize_observation_def converged_def ambiguous_last_def)
  next
    case (Some n)
    then show ?thesis using normalized_reportable [OF rid, of freshness m n now] normalized_converged [of freshness m c n now _ ?fs]
      by (auto simp: effect_due_def ambiguous_last_def is_ok_iff)
  qed
  have "effect_entries (rc_operation c) rid = (case rc_operation c of START \<Rightarrow> [(E_START, rid)] | STOP \<Rightarrow> [(E_STOP, rid)] | CANCEL \<Rightarrow> [(E_STOP, rid)]
      | REPLACE \<Rightarrow> [(E_REPLACE, rid)] | OBSERVE \<Rightarrow> [])"
    by (simp add: effect_entries_def operation_effect_def split: runtime_operation.splits)
  then show ?thesis using Some
    by (auto simp: due reconcile_logged reconcile_decides_def split: prod.splits option.splits sum.splits)
qed (simp add: reconcile_logged split: prod.splits)

text \<open>
  Once the last result recorded for a runtime is ambiguous (unknown, stale or recovery
  required), no sequence of reconciles, of this or of other runtimes and mixed with requests for
  other runtimes, asks for another effect on it before the desired state has been observed.
\<close>

theorem ambiguous_effect_not_reissued:
  assumes "manager_run memory_control (logged_port p) freshness ((w, l), m) evs = ((w', l'), m')" and "memory_ok m"
    and "ambiguous_last (memory_facts m rid)" and "\<forall>ev \<in> set evs. \<not> requests_runtime rid ev"
  shows "\<exists>new. memory_facts m' rid = memory_facts m rid @ new \<and>
    ((\<exists>f \<in> set new. rf_result f = C_OBSERVED) \<or> filter (\<lambda>e. snd e = rid) l' = filter (\<lambda>e. snd e = rid) l)"
  using mem.run_held [OF assms(1,2) _ assms(4)] assms(3) by simp

text \<open>
  Applying the command of a placed assembly again, whose effect is ambiguous and whose runtime
  the provider does not see, asks for the effect again, while a reconcile alone does not: the
  request of an already persisted command appends a fact \<open>REQUESTED\<close>, which hides the ambiguous one.
\<close>

theorem replay_reissues_ambiguous_effect:
  assumes ok: "memory_ok m" and des: "memory_desired m rid = Some (na_command v)"
    and amb: "ambiguous_last (memory_facts m rid)" and obs: "port_observe p w rid = (w1, Inr None)"
    and tr: "translate_native_identity digest (na_request v) (na_decision v) (rc_scope (na_command v)) = Inr i"
    and ids: "na_selected_instance v = ni_agent_instance_id i" "ni_runtime_instance_id i = rid"
      "rc_placement (na_command v) = ni_placement_id i"
  shows "snd (fst (reconcile_runtime memory_control (logged_port p) freshness (w, l) m rid authorized now)) = l \<and>
    snd (fst (native_apply memory_control (logged_port p) freshness digest (w, l) m v now1 now2)) =
      l @ effect_entries (rc_operation (na_command v)) rid"
proof
  show "snd (fst (reconcile_runtime memory_control (logged_port p) freshness (w, l) m rid authorized now)) = l"
    using amb des obs by (simp add: reconcile_logged reconcile_decides_def split: prod.splits sum.splits)
  have rid: "command_runtime (na_command v) = rid" using mem.desired_key ok des by simp
  have sc: "ni_scope i = rc_scope (na_command v)"
    using tr by (auto simp: translate_native_identity_def split: if_splits option.splits)
  obtain m' f where "manager_request memory_control m (na_command v) (rc_scope (na_command v)) now1 = (m', Inr f)"
    and "memory_desired m' rid = Some (na_command v)" and "\<not> ambiguous_last (memory_facts m' rid)"
    using mem.replay_clears [of m "na_command v" now1] ok des rid by auto
  then show "snd (fst (native_apply memory_control (logged_port p) freshness digest (w, l) m v now1 now2)) =
      l @ effect_entries (rc_operation (na_command v)) rid"
    using tr ids rid sc mem.unseen_effect_issued [of m' rid "na_command v" p w w1 freshness now2] obs
    by (simp add: native_apply_def reconcile_logged split: prod.splits)
qed

text \<open>
  When the provider fails to be observed right after an effect was issued, the reconcile
  raises and records nothing, so that the next reconcile that does not see the runtime issues the
  effect a second time.
\<close>

theorem unrecorded_effect_is_reissued:
  assumes "memory_desired m rid = Some c" and "\<not> ambiguous_last (memory_facts m rid)"
    and "port_observe p w rid = (w1, Inr None)" and "issue_effect p (rc_operation c) w1 rid = (w2, True)"
    and "port_observe p w2 rid = (w3, Inl ())" and "port_observe p w3 rid = (w4, Inr None)"
  shows "reconcile_runtime memory_control (logged_port p) freshness (w, l) m rid (rc_scope c) now =
      ((w3, l @ effect_entries (rc_operation c) rid), m, Inl ''PROVIDER_RAISED'') \<and>
    snd (fst (reconcile_runtime memory_control (logged_port p) freshness (w3, l @ effect_entries (rc_operation c) rid)
      m rid (rc_scope c) now')) = l @ effect_entries (rc_operation c) rid @ effect_entries (rc_operation c) rid"
proof -
  have "reconcile_runtime memory_control p freshness w m rid (rc_scope c) now = (w3, m, Inl ''PROVIDER_RAISED'')"
    using assms by (simp add: reconcile_runtime_def normalize_observation_def converged_def)
  then show ?thesis
    using assms mem.unseen_effect_issued [of m rid c p w w1 freshness now]
      mem.unseen_effect_issued [of m rid c p w3 w4 freshness now']
    by (simp add: reconcile_logged split: prod.splits)
qed

subsection \<open>Witnesses\<close>

definition example_desired :: "int \<Rightarrow> desired_state" where
  "example_desired g = \<lparr>ds_runtime_instance_id = ''rt-1'', ds_generation = g, ds_state = D_RUNNING,
     ds_command_id = ''cmd'', ds_requested_by = ''op'', ds_requested_at = 0, ds_deadline = 100, ds_reason = ''start''\<rparr>"

definition example_runtime_command :: "int \<Rightarrow> runtime_command" where
  "example_runtime_command g = \<lparr>rc_scope = \<lparr>namespace = ''ns'', security_domain = ''dom''\<rparr>, rc_desired = example_desired g,
     rc_operation = START, rc_authorization = ''auth'', rc_placement = ''pl-1''\<rparr>"

text \<open>A provider whose start raises and that never sees the runtime.\<close>

definition failing_port :: "nat lifecycle_port" where
  "failing_port = \<lparr>port_start = (\<lambda>w ident. (Suc w, Inl ())), port_stop = (\<lambda>w ident. (Suc w, Inl ())),
     port_replace = (\<lambda>w ident. (Suc w, Inl ())), port_observe = (\<lambda>w ident. (w, Inr None))\<rparr>"

text \<open>A provider that starts the runtime but cannot be observed once after it.\<close>

definition flaky_port :: "nat lifecycle_port" where
  "flaky_port = \<lparr>port_start = (\<lambda>w ident. (1, Inr (lifecycle_unsupported ''start'' ident))),
     port_stop = (\<lambda>w ident. (w, Inl ())), port_replace = (\<lambda>w ident. (w, Inl ())),
     port_observe = (\<lambda>w ident. if w = 1 then (2, Inl ()) else (w, Inr None))\<rparr>"

definition example_recovery :: reconciliation_fact where
  "example_recovery = \<lparr>rf_command = example_runtime_command 1, rf_result = C_RECOVERY_REQUIRED, rf_recorded_at = 5,
     rf_observation = None, rf_reason = ''PROVIDER_EFFECT_AMBIGUOUS''\<rparr>"

definition example_memory :: memory_repository where
  "example_memory = \<lparr>mem_desired = [(''rt-1'', example_runtime_command 1)], mem_facts = [(''rt-1'', [example_recovery])]\<rparr>"

definition example_assembly :: native_assembly where
  "example_assembly = \<lparr>na_selected_instance = ''agent-1'',
     na_request = \<lparr>pr_request_id = ''req'', pr_scope = \<lparr>namespace = ''ns'', security_domain = ''dom''\<rparr>,
       pr_workflow_run_id = ''wr'', pr_task_run_id = ''tr'', pr_attempt_id = ''at'', pr_agent_instance_id = ''agent-1'',
       pr_agent_revision_id = ''rev'', pr_runtime_profile_revision_id = ''prof'', pr_capabilities = [], pr_resources = [],
       pr_isolation = [], pr_state = [], pr_requested_at = 0\<rparr>,
     na_decision = \<lparr>pd_placement_id = ''pl-1'', pd_request_id = ''req'', pd_decision = PLACED,
       pd_runtime_instance_id = Some ''rt-1'', pd_policy_version = ''v1'', pd_compatibility_facts = [],
       pd_limitation_codes = [], pd_decided_at = 1, pd_digest = ''d''\<rparr>,
     na_command = example_runtime_command 1\<rparr>"

lemmas example_runtime_simps =
  example_memory_def example_recovery_def example_runtime_command_def example_desired_def command_runtime_def
  memory_ok_def memory_desired_def memory_facts_def dict_get_def ambiguous_last_def failing_port_def flaky_port_def

theorem generations_identify_commands_witness:
  "manager_run memory_control failing_port 30 (0, memory_empty)
     [Request (example_runtime_command 1) \<lparr>namespace = ''ns'', security_domain = ''dom''\<rparr> 1] =
     (0, \<lparr>mem_desired = [(''rt-1'', example_runtime_command 1)],
          mem_facts = [(''rt-1'', [\<lparr>rf_command = example_runtime_command 1, rf_result = C_REQUESTED, rf_recorded_at = 1,
            rf_observation = None, rf_reason = ''DESIRED_PERSISTED''\<rparr>])]\<rparr>)
   \<and> sorted (map (\<lambda>f. ds_generation (rc_desired (rf_command f)))
       (memory_facts (snd (manager_run memory_control failing_port 30 (0, memory_empty)
         [Request (example_runtime_command 1) \<lparr>namespace = ''ns'', security_domain = ''dom''\<rparr> 1])) ''rt-1''))"
proof
  show "manager_run memory_control failing_port 30 (0, memory_empty)
     [Request (example_runtime_command 1) \<lparr>namespace = ''ns'', security_domain = ''dom''\<rparr> 1] =
     (0, \<lparr>mem_desired = [(''rt-1'', example_runtime_command 1)],
          mem_facts = [(''rt-1'', [\<lparr>rf_command = example_runtime_command 1, rf_result = C_REQUESTED, rf_recorded_at = 1,
            rf_observation = None, rf_reason = ''DESIRED_PERSISTED''\<rparr>])]\<rparr>)"
    by (simp add: manager_run_def manager_request_def append_result_def reconciliation_fact_init_def memory_empty_def
      memory_append_desired_def memory_append_fact_def example_runtime_simps Let_def)
qed (rule generations_identify_commands [OF surjective_pairing, THEN conjunct1])

theorem reconcile_effects_exactly_witness:
  "snd (fst (reconcile_runtime memory_control (logged_port flaky_port) 30 (0, [])
      \<lparr>mem_desired = [(''rt-1'', example_runtime_command 1)], mem_facts = []\<rparr> ''rt-1'' \<lparr>namespace = ''ns'', security_domain = ''dom''\<rparr> 9)) = [(E_START, ''rt-1'')] \<and>
   snd (fst (reconcile_runtime memory_control (logged_port flaky_port) 30 (0, []) example_memory ''rt-1''
      \<lparr>namespace = ''ns'', security_domain = ''dom''\<rparr> 9)) = []"
proof -
  have ok: "memory_ok \<lparr>mem_desired = [(''rt-1'', example_runtime_command 1)], mem_facts = []\<rparr>" "memory_ok example_memory"
    by (simp_all add: example_runtime_simps)
  show ?thesis unfolding reconcile_effects_exactly [OF ok(1)] reconcile_effects_exactly [OF ok(2)]
    by (simp add: effect_due_def example_runtime_simps)
qed

theorem ambiguous_effect_not_reissued_witness:
  "\<exists>new. memory_facts (snd (manager_run memory_control (logged_port failing_port) 30 ((0, []), example_memory)
       [Reconcile ''rt-1'' \<lparr>namespace = ''ns'', security_domain = ''dom''\<rparr> 9])) ''rt-1'' = memory_facts example_memory ''rt-1'' @ new \<and>
     ((\<exists>f \<in> set new. rf_result f = C_OBSERVED) \<or> filter (\<lambda>e. snd e = ''rt-1'')
       (snd (fst (manager_run memory_control (logged_port failing_port) 30 ((0, []), example_memory)
       [Reconcile ''rt-1'' \<lparr>namespace = ''ns'', security_domain = ''dom''\<rparr> 9]))) = filter (\<lambda>e. snd e = ''rt-1'') [])"
  by (rule ambiguous_effect_not_reissued [where w' = "fst (fst (manager_run memory_control (logged_port failing_port) 30
      ((0, []), example_memory) [Reconcile ''rt-1'' \<lparr>namespace = ''ns'', security_domain = ''dom''\<rparr> 9]))"
      and p = failing_port and freshness = 30 and w = 0 and m = example_memory and evs = "[Reconcile ''rt-1'' \<lparr>namespace = ''ns'', security_domain = ''dom''\<rparr> 9]"])
    (simp_all add: requests_runtime_def example_runtime_simps)

theorem replay_reissues_ambiguous_effect_witness:
  "snd (fst (native_apply memory_control (logged_port failing_port) 30 (\<lambda>d. ''d'') (0, []) example_memory example_assembly 9 10))
     = [(E_START, ''rt-1'')]"
  using replay_reissues_ambiguous_effect [of example_memory "''rt-1''" example_assembly failing_port 0 0 "\<lambda>d. ''d''"
    "\<lparr>ni_scope = \<lparr>namespace = ''ns'', security_domain = ''dom''\<rparr>, ni_runtime_instance_id = ''rt-1'', ni_placement_id = ''pl-1'',
       ni_attempt_id = ''at'', ni_agent_instance_id = ''agent-1''\<rparr>" 30 "[]"]
  by (simp add: example_assembly_def translate_native_identity_def verify_digest_def effect_entries_def
    operation_effect_def example_runtime_simps)

theorem unrecorded_effect_is_reissued_witness:
  "snd (fst (reconcile_runtime memory_control (logged_port flaky_port) 30 (2, [(E_START, ''rt-1'')])
     \<lparr>mem_desired = [(''rt-1'', example_runtime_command 1)], mem_facts = []\<rparr> ''rt-1''
     \<lparr>namespace = ''ns'', security_domain = ''dom''\<rparr> 10)) = [(E_START, ''rt-1''), (E_START, ''rt-1'')]"
  using unrecorded_effect_is_reissued [of "\<lparr>mem_desired = [(''rt-1'', example_runtime_command 1)], mem_facts = []\<rparr>" "''rt-1''"
    "example_runtime_command 1" flaky_port 0 0 1 2 2 30 "[]" 9 10]
  by (simp add: effect_entries_def issue_effect_def operation_effect_def lifecycle_unsupported_def example_runtime_simps)

end
