(* ===== verification/Py_Objects.thy ===== *)
theory Py_Objects
  imports Prelude
begin

text \<open>
  Python values whose identity matters, and the regular expressions of the secret scanners.

  \<^item> A heap is the list of the live objects; the address of an object is its \<open>id\<close>. Containers hold
    addresses, so that the same object may occur twice and a container may contain itself.
    A mapping lists its items in insertion order. A number, a truth value or \<open>None\<close> is a scalar, given
    by its JSON text, as a value and as a key; \<open>KOther\<close> is any other key, \<open>OOpaque\<close> any other object.
  \<^item> A regular expression is matched by the list of the positions at which a match that starts at a
    given position may end. Only the existence of a match is used, never a group, so greediness
    plays no role. On the code points up to 255 ignoring case is ignoring the case of ASCII letters.

  The lemmas characterize reachability of objects, which the scanners are proved against.
\<close>

subsection \<open>Objects\<close>

type_synonym addr = nat

datatype pykey = KStr string | KScalar string | KOther

datatype pyobj = OStr string | OScalar string | OBytes | OOpaque
  | OMap "(pykey \<times> addr) list" | OList "addr list" | OTuple "addr list"

type_synonym pyheap = "pyobj list"

definition deref :: "pyheap \<Rightarrow> addr \<Rightarrow> pyobj" where
  "deref h a = (if a < length h then h ! a else OOpaque)"

definition children :: "pyobj \<Rightarrow> addr list" where
  "children ob = (case ob of OMap items \<Rightarrow> map snd items | OList xs \<Rightarrow> xs | OTuple xs \<Rightarrow> xs | _ \<Rightarrow> [])"

definition string_keys :: "pyobj \<Rightarrow> string list" where
  "string_keys ob = (case ob of OMap items \<Rightarrow> concat (map (\<lambda>(k, _). case k of KStr s \<Rightarrow> [s] | _ \<Rightarrow> []) items) | _ \<Rightarrow> [])"

text \<open>The objects that a value reaches through containers.\<close>

inductive reaches :: "pyheap \<Rightarrow> addr \<Rightarrow> addr \<Rightarrow> bool" for h where
  reaches_self: "reaches h a a"
| reaches_child: "reaches h a b \<Longrightarrow> c \<in> set (children (deref h b)) \<Longrightarrow> reaches h a c"

lemma reaches_closed:
  assumes "reaches h a b" and "a \<in> S" and "\<And>x y. x \<in> S \<Longrightarrow> y \<in> set (children (deref h x)) \<Longrightarrow> y \<in> S"
  shows "b \<in> S"
  using assms by induction auto

lemma string_keys_map [simp]: "string_keys (OMap items) = concat (map (\<lambda>(k, _). case k of KStr s \<Rightarrow> [s] | _ \<Rightarrow> []) items)"
  and string_keys_other [simp]: "string_keys (OList xs) = []" "string_keys (OTuple xs) = []" "string_keys (OStr s) = []"
  and children_simps [simp]: "children (OMap items) = map snd items" "children (OList xs) = xs" "children (OTuple xs) = xs"
    "children (OStr s) = []" "children (OScalar t) = []" "children OBytes = []" "children OOpaque = []"
  by (simp_all add: string_keys_def children_def)

subsection \<open>Regular expressions\<close>

datatype regex = RChar "char \<Rightarrow> bool" | REps | RSeq regex regex | RAlt regex regex | RStar regex
  | RBegin | REnd | RAhead regex

fun star_ends :: "(nat \<Rightarrow> nat list) \<Rightarrow> nat \<Rightarrow> nat \<Rightarrow> nat list" where
  "star_ends f 0 i = [i]"
| "star_ends f (Suc n) i = i # concat (map (star_ends f n) (filter (\<lambda>j. i < j) (f i)))"

text \<open>\<open>$\<close> matches at the end and before a line feed that ends the string.\<close>

primrec ends :: "regex \<Rightarrow> string \<Rightarrow> nat \<Rightarrow> nat list" where
  "ends (RChar p) s i = (if i < length s \<and> p (s ! i) then [Suc i] else [])"
| "ends REps s i = [i]"
| "ends (RSeq a b) s i = concat (map (ends b s) (ends a s i))"
| "ends (RAlt a b) s i = ends a s i @ ends b s i"
| "ends (RStar a) s i = star_ends (ends a s) (length s - i) i"
| "ends RBegin s i = (if i = 0 then [i] else [])"
| "ends REnd s i = (if i = length s \<or> (Suc i = length s \<and> s ! i = CHR 0x0A) then [i] else [])"
| "ends (RAhead a) s i = (if ends a s i = [] then [] else [i])"

definition re_search :: "regex \<Rightarrow> string \<Rightarrow> bool" where
  "re_search r s = list_ex (\<lambda>i. ends r s i \<noteq> []) [0..<Suc (length s)]"

fun re_repeat :: "nat \<Rightarrow> regex \<Rightarrow> regex" where
  "re_repeat 0 r = REps"
| "re_repeat (Suc n) r = RSeq r (re_repeat n r)"

definition re_at_least :: "nat \<Rightarrow> regex \<Rightarrow> regex" where
  "re_at_least n r = RSeq (re_repeat n r) (RStar r)"

definition re_opt :: "regex \<Rightarrow> regex" where
  "re_opt r = RAlt r REps"

fun re_any :: "regex list \<Rightarrow> regex" where
  "re_any [] = RChar (\<lambda>_. False)"
| "re_any [r] = r"
| "re_any (r # rs) = RAlt r (re_any rs)"

definition ascii_lower :: "char \<Rightarrow> bool" where
  "ascii_lower c = (let n = of_char c in 97 \<le> n \<and> n \<le> (122::nat))"

definition ascii_upper :: "char \<Rightarrow> bool" where
  "ascii_upper c = (let n = of_char c in 65 \<le> n \<and> n \<le> (90::nat))"

definition ascii_digit :: "char \<Rightarrow> bool" where
  "ascii_digit c = (let n = of_char c in 48 \<le> n \<and> n \<le> (57::nat))"

definition to_lower :: "char \<Rightarrow> char" where
  "to_lower c = (if ascii_upper c then char_of (of_char c + (32::nat)) else c)"

text \<open>
  \<open>str.casefold\<close> of one code point up to 255. The micro sign folds to a code point above 255, which
  is kept as itself: no marker contains either.
\<close>

definition casefold_char :: "char \<Rightarrow> string" where
  "casefold_char c = (let n = of_char c in
     if n = (223::nat) then ''ss''
     else if 192 \<le> n \<and> n \<le> 222 \<and> n \<noteq> 215 then [char_of (n + 32)]
     else [to_lower c])"

definition re_literal :: "string \<Rightarrow> regex" where
  "re_literal s = foldr (\<lambda>c r. RSeq (RChar (\<lambda>x. x = c)) r) s REps"

text \<open>The literal with case ignored, for a pattern in lower case.\<close>

definition re_literal_i :: "string \<Rightarrow> regex" where
  "re_literal_i s = foldr (\<lambda>c r. RSeq (RChar (\<lambda>x. to_lower x = c)) r) s REps"

definition re_one_of :: "string \<Rightarrow> regex" where
  "re_one_of cs = RChar (\<lambda>c. c \<in> set cs)"

definition re_space :: regex where
  "re_space = RChar py_space"

definition alnum_i :: "char \<Rightarrow> bool" where
  "alnum_i c = (ascii_lower (to_lower c) \<or> ascii_digit c)"

text \<open>The class \<open>[a-z0-9._~+/=-]\<close> with case ignored.\<close>

definition token_char :: "char \<Rightarrow> bool" where
  "token_char c = (alnum_i c \<or> c \<in> set ''._~+/=-'')"

text \<open>A match is at least as long as the shortest word of the expression.\<close>

primrec re_min :: "regex \<Rightarrow> nat" where
  "re_min (RChar p) = 1"
| "re_min REps = 0"
| "re_min (RSeq a b) = re_min a + re_min b"
| "re_min (RAlt a b) = min (re_min a) (re_min b)"
| "re_min (RStar a) = 0"
| "re_min RBegin = 0"
| "re_min REnd = 0"
| "re_min (RAhead a) = 0"

lemma star_ends_bounds:
  "(\<And>i j. i \<le> m \<Longrightarrow> j \<in> set (f i) \<Longrightarrow> j \<le> m) \<Longrightarrow> i \<le> m \<Longrightarrow> j \<in> set (star_ends f n i) \<Longrightarrow> i \<le> j \<and> j \<le> m"
proof (induction n arbitrary: i)
  case (Suc n)
  from Suc.prems(3) consider "j = i" | k where "k \<in> set (f i)" "i < k" "j \<in> set (star_ends f n k)" by auto
  then show ?case
  proof cases
    case 2
    then show ?thesis using Suc.IH [of k] Suc.prems(1) Suc.prems(1) [OF Suc.prems(2) 2(1)] by fastforce
  qed (use Suc.prems in simp)
qed simp

lemma ends_bounds: "i \<le> length s \<Longrightarrow> j \<in> set (ends r s i) \<Longrightarrow> i + re_min r \<le> j \<and> j \<le> length s"
proof (induction r arbitrary: i j)
  case (RSeq a b)
  from RSeq.prems(2) obtain k where "k \<in> set (ends a s i)" "j \<in> set (ends b s k)" by auto
  then show ?case using RSeq.IH(1) [of i k] RSeq.IH(2) [of k j] RSeq.prems(1) by simp
next
  case (RAlt a b)
  from RAlt.prems(2) consider "j \<in> set (ends a s i)" | "j \<in> set (ends b s i)" by auto
  then show ?case using RAlt.IH(1) [of i j] RAlt.IH(2) [of i j] RAlt.prems(1)
    by cases (simp_all add: min_def)
next
  case (RStar a)
  have "k \<le> length s" if "i \<le> length s" "k \<in> set (ends a s i)" for i k using RStar.IH [OF that] by simp
  then show ?case using star_ends_bounds [of "length s" "ends a s" i j "length s - i"] RStar.prems by simp
qed (auto split: if_splits)

lemma re_search_min: "re_search r s \<Longrightarrow> re_min r \<le> length s"
proof -
  assume "re_search r s"
  then obtain i where i: "i \<le> length s" "ends r s i \<noteq> []" 
    unfolding re_search_def list_ex_iff set_upt by (auto simp: less_Suc_eq_le)
  then obtain j where "j \<in> set (ends r s i)" by (cases "ends r s i") auto
  then show ?thesis using ends_bounds [of i s j r] i(1) by simp
qed

text \<open>\<open>marker in text\<close>\<close>

definition substring_of :: "string \<Rightarrow> string \<Rightarrow> bool" where
  "substring_of m s = list_ex (\<lambda>i. take (length m) (drop i s) = m) [0..<Suc (length s)]"

lemma substring_of_iff: "substring_of m s \<longleftrightarrow> (\<exists>p q. s = p @ m @ q)"
proof
  assume "substring_of m s"
  then obtain i where "take (length m) (drop i s) = m" by (auto simp: substring_of_def list_ex_iff)
  then have "s = take i s @ m @ drop (length m) (drop i s)"
    by (metis append_take_drop_id)
  then show "\<exists>p q. s = p @ m @ q" by blast
next
  assume "\<exists>p q. s = p @ m @ q"
  then obtain p q where "s = p @ m @ q" by blast
  then have "take (length m) (drop (length p) s) = m" "length p < Suc (length s)" by simp_all
  then show "substring_of m s" unfolding substring_of_def list_ex_iff by (intro bexI [of _ "length p"]) auto
qed

end
