(* ===== verification/Native_Provider.thy ===== *)
theory Native_Provider
  imports Runtime_Manager Py_Objects
begin

text \<open>
  The Native runtime provider: \<open>runtime/src/agent_runtime/providers/native/\<close> \<open>compatibility.py\<close>,
  \<open>binding.py\<close> and the invocation half of \<open>provider.py\<close> (its lifecycle half is in the theory of the
  Runtime Manager).

  The configuration of a binding is an object of the Python heap, as the scanner tells objects apart
  by \<open>id\<close>. The scanner is the loop of the source over an explicit stack; it ends because it counts
  the nodes it visits. The invoker is a parameter, a function over a world \<open>'w\<close> that returns an
  invocation or one of the exceptions the provider distinguishes.

  The lemmas show what the answer of the scanner means for everything reachable from the
  configuration, when the invoker is called, and that stored results never share a native identity.
\<close>

subsection \<open>Values\<close>

record package_identity =
  pi_distribution :: string
  pi_version :: string
  pi_module :: string

record target_identity =
  ti_name :: string
  ti_exact_version :: "string option"
  ti_profile :: string

definition target_text :: "target_identity \<Rightarrow> string" where
  "target_text t = ti_name t @ '':'' @ (case ti_exact_version t of None \<Rightarrow> ''None'' | Some v \<Rightarrow> v) @ '':'' @ ti_profile t"

datatype compatibility_mode = M_EXACT_MATCH | M_DEGRADED | M_REJECTED

record compatibility_request =
  cr_package :: package_identity
  cr_target :: target_identity
  cr_core_version :: string
  cr_identity :: string
  cr_degraded_requested :: bool
  cr_degraded_evidence :: "string list"

record compatibility_decision =
  cd_accepted :: bool
  cd_may_invoke :: bool
  cd_mode :: compatibility_mode
  cd_reason :: string
  cd_identity :: string
  cd_requested :: target_identity
  cd_effective :: "target_identity option"
  cd_limitations :: "string list"

record desired_binding =
  db_target :: target_identity
  db_configuration :: addr

record effective_binding =
  eb_target :: target_identity
  eb_configuration :: "(string \<times> string) list"

record binding_evidence =
  be_desired_target :: target_identity
  be_desired_configuration :: "(string, string) dict"
  be_effective :: effective_binding
  be_redacted :: "(string \<times> string) list"

subsection \<open>Compatibility\<close>

definition PROVIDER_PACKAGE :: package_identity where
  "PROVIDER_PACKAGE = \<lparr>pi_distribution = ''cloud-native-agent-platform'', pi_version = ''0.1.0'', pi_module = ''agent_runtime''\<rparr>"

definition RUNTIME_TARGET :: target_identity where
  "RUNTIME_TARGET = \<lparr>ti_name = ''native'', ti_exact_version = Some ''0.1.0+e6a162f'',
     ti_profile = ''managed-kubernetes-deterministic-mock''\<rparr>"

definition CORE_EXACT_VERSIONS :: "string list" where
  "CORE_EXACT_VERSIONS = [''0.1.0'']"

definition DEGRADED_REQUIRED_EVIDENCE :: "string list" where
  "DEGRADED_REQUIRED_EVIDENCE = [''deterministic mock label'', ''normalized outcome'']"

definition compatibility_reject :: "compatibility_request \<Rightarrow> string \<Rightarrow> compatibility_decision" where
  "compatibility_reject q why = \<lparr>cd_accepted = False, cd_may_invoke = False, cd_mode = M_REJECTED, cd_reason = why,
     cd_identity = cr_identity q, cd_requested = cr_target q, cd_effective = None, cd_limitations = []\<rparr>"

definition validate_compatibility :: "compatibility_request \<Rightarrow> compatibility_decision" where
  "validate_compatibility q =
     (if \<not> nonblank (cr_identity q) then compatibility_reject q ''PLATFORM_EXECUTION_IDENTITY_MISSING''
      else if \<not> nonblank (ti_name (cr_target q)) then compatibility_reject q ''RUNTIME_IDENTITY_MISSING''
      else if ti_exact_version (cr_target q) = None \<or> ti_exact_version (cr_target q) = Some []
        then compatibility_reject q ''RUNTIME_VERSION_MISSING''
      else if ti_name (cr_target q) \<noteq> ti_name RUNTIME_TARGET then compatibility_reject q ''RUNTIME_TARGET_UNSUPPORTED''
      else if ti_exact_version (cr_target q) \<noteq> ti_exact_version RUNTIME_TARGET
        then compatibility_reject q ''RUNTIME_VERSION_UNSUPPORTED''
      else if ti_profile (cr_target q) \<noteq> ti_profile RUNTIME_TARGET
        then compatibility_reject q ''RUNTIME_PROFILE_UNSUPPORTED''
      else if cr_package q \<noteq> PROVIDER_PACKAGE then compatibility_reject q ''PROVIDER_PACKAGE_MISMATCH''
      else if cr_core_version q \<notin> set CORE_EXACT_VERSIONS then compatibility_reject q ''CORE_VERSION_INCOMPATIBLE''
      else if cr_degraded_evidence q \<noteq> [] \<and> \<not> cr_degraded_requested q
        then compatibility_reject q ''IMPLICIT_DEGRADED_MODE_REJECTED''
      else if cr_degraded_requested q then
        (if \<not> set DEGRADED_REQUIRED_EVIDENCE \<subseteq> set (cr_degraded_evidence q)
           then compatibility_reject q ''DEGRADED_MODE_NOT_EVIDENCED''
         else \<lparr>cd_accepted = True, cd_may_invoke = True, cd_mode = M_DEGRADED,
           cd_reason = ''EXPLICIT_DEGRADED_MODE_ACCEPTED'', cd_identity = cr_identity q, cd_requested = cr_target q,
           cd_effective = Some RUNTIME_TARGET, cd_limitations = [''deterministic mock execution only'']\<rparr>)
      else \<lparr>cd_accepted = True, cd_may_invoke = True, cd_mode = M_EXACT_MATCH,
        cd_reason = ''EXACT_COMPATIBILITY_MATCH'', cd_identity = cr_identity q, cd_requested = cr_target q,
        cd_effective = Some RUNTIME_TARGET, cd_limitations = []\<rparr>)"

subsection \<open>The secret scanner\<close>

definition SUPPORTED_CONFIGURATION :: "string list" where
  "SUPPORTED_CONFIGURATION = [''AGENT_DISPLAY_NAME'', ''AGENT_NAME'', ''AGENT_NAMESPACE'', ''AGENT_ROLE'', ''MODEL_NAME'',
     ''MODEL_PROVIDER'']"

definition SECRET_MARKERS :: "string list" where
  "SECRET_MARKERS = [''apikey'', ''credential'', ''password'', ''secret'', ''token'']"

definition re_private_key :: regex where
  "re_private_key = RSeq (re_literal ''-----BEGIN '') (RSeq
     (re_opt (RSeq (re_at_least 1 (RChar (\<lambda>c. ascii_upper c \<or> ascii_digit c \<or> c = CHR '' ''))) (re_literal '' '')))
     (re_literal ''PRIVATE KEY-----''))"

definition re_bearer :: regex where
  "re_bearer = RSeq (RAlt RBegin re_space) (RSeq (re_literal_i ''bearer'') (RSeq (re_at_least 1 re_space) (RSeq
     (RAhead (RSeq (RStar (RChar token_char)) (RChar (\<lambda>c. ascii_digit c \<or> c \<in> set ''._~+/=-''))))
     (RSeq (re_at_least 8 (RChar token_char)) (RAlt REnd re_space)))))"

definition re_assignment :: regex where
  "re_assignment = RSeq (re_any [RSeq (re_literal_i ''api'') (RSeq (re_opt (re_one_of ''-_ '')) (re_literal_i ''key'')),
       re_literal_i ''credential'', re_literal_i ''password'', re_literal_i ''secret'', re_literal_i ''token''])
     (RSeq (RStar re_space) (RSeq (re_one_of '':='') (RSeq (RStar re_space)
     (RSeq (re_opt (re_one_of [CHR 0x27, CHR 0x22])) (re_at_least 8 (RChar token_char))))))"

definition re_prefixed_key :: regex where
  "re_prefixed_key = RSeq (RAlt RBegin (RChar (\<lambda>c. \<not> alnum_i c))) (RSeq
     (re_any [re_literal_i ''sk'', re_literal_i ''rk'', re_literal_i ''pk'']) (RSeq (re_one_of ''-_'')
     (RSeq (re_opt (RSeq (re_literal_i ''test'') (re_one_of ''-_''))) (re_at_least 16 (RChar alnum_i)))))"

definition SECRET_VALUE_PATTERNS :: "regex list" where
  "SECRET_VALUE_PATTERNS = [re_private_key, re_bearer, re_assignment, re_prefixed_key]"

definition MAX_CONFIGURATION_DEPTH :: nat where "MAX_CONFIGURATION_DEPTH = 32"
definition MAX_CONFIGURATION_NODES :: nat where "MAX_CONFIGURATION_NODES = 4096"
definition MAX_CONFIGURATION_STRING_LENGTH :: nat where "MAX_CONFIGURATION_STRING_LENGTH = 65536"
definition MAX_CONFIGURATION_TOTAL_CHARACTERS :: nat where "MAX_CONFIGURATION_TOTAL_CHARACTERS = 262144"

text \<open>
  \<open>casefold\<close> followed by the removal of what is not in \<open>[a-z0-9]\<close>: of the code points up to 255 only
  ASCII letters, digits and the sharp s, which folds to two letters, leave something.
\<close>

definition fold_key :: "string \<Rightarrow> string" where
  "fold_key key = concat (map (\<lambda>c. if c = CHR 0xDF then ''ss'' else if alnum_i c then [to_lower c] else []) key)"

definition is_secret_key :: "string \<Rightarrow> bool" where
  "is_secret_key key = list_ex (\<lambda>m. substring_of m (fold_key key)) SECRET_MARKERS"

definition is_secret_value :: "string \<Rightarrow> bool" where
  "is_secret_value s = list_ex (\<lambda>r. re_search r s) SECRET_VALUE_PATTERNS"

datatype scan_result = CLEAN | SECRET | UNSUPPORTED

text \<open>The stack has its top first; a loop over items ends early with a result or leaves the new state.\<close>

type_synonym scan_stack = "(addr \<times> nat) list"

fun scan_items ::
  "(pykey \<times> addr) list \<Rightarrow> nat \<Rightarrow> nat \<Rightarrow> scan_stack \<Rightarrow> nat \<Rightarrow> bool \<Rightarrow> scan_result + scan_stack \<times> nat \<times> bool" where
  "scan_items [] depth nodes stack chars u = Inr (stack, chars, u)"
| "scan_items ((k, a) # items) depth nodes stack chars u =
     (case k of
        KStr s \<Rightarrow>
          if length s > MAX_CONFIGURATION_STRING_LENGTH \<or> chars + length s > MAX_CONFIGURATION_TOTAL_CHARACTERS
            then Inl UNSUPPORTED
          else if is_secret_key s then Inl SECRET
          else if length ((a, depth) # stack) + nodes > MAX_CONFIGURATION_NODES then Inl UNSUPPORTED
          else scan_items items depth nodes ((a, depth) # stack) (chars + length s) u
      | _ \<Rightarrow>
          if length ((a, depth) # stack) + nodes > MAX_CONFIGURATION_NODES then Inl UNSUPPORTED
          else scan_items items depth nodes ((a, depth) # stack) chars True)"

fun scan_elements :: "addr list \<Rightarrow> nat \<Rightarrow> nat \<Rightarrow> scan_stack \<Rightarrow> scan_result + scan_stack" where
  "scan_elements [] depth nodes stack = Inr stack"
| "scan_elements (a # xs) depth nodes stack =
     (if length ((a, depth) # stack) + nodes > MAX_CONFIGURATION_NODES then Inl UNSUPPORTED
      else scan_elements xs depth nodes ((a, depth) # stack))"

text \<open>What the loop does with the object it pops, whose number is \<open>nodes\<close>.\<close>

definition scan_object ::
  "pyheap \<Rightarrow> addr \<Rightarrow> nat \<Rightarrow> scan_stack \<Rightarrow> addr list \<Rightarrow> nat \<Rightarrow> nat \<Rightarrow> bool
   \<Rightarrow> scan_result + scan_stack \<times> addr list \<times> nat \<times> bool" where
  "scan_object h a depth stack seen nodes chars u =
     (let enter = (\<lambda>res. if a \<in> set seen \<or> depth \<ge> MAX_CONFIGURATION_DEPTH then Inr (stack, seen, chars, True)
        else case res of Inl x \<Rightarrow> Inl x | Inr (stack', chars', u') \<Rightarrow> Inr (stack', a # seen, chars', u')) in
      case deref h a of
        OStr s \<Rightarrow>
          if length s > MAX_CONFIGURATION_STRING_LENGTH \<or> chars + length s > MAX_CONFIGURATION_TOTAL_CHARACTERS
            then Inl UNSUPPORTED
          else if is_secret_value s then Inl SECRET
          else Inr (stack, seen, chars + length s, u)
      | OMap items \<Rightarrow> enter (scan_items items (Suc depth) nodes stack chars u)
      | OList xs \<Rightarrow> enter (rbind (scan_elements xs (Suc depth) nodes stack) (\<lambda>stack'. Inr (stack', chars, u)))
      | OTuple xs \<Rightarrow> enter (rbind (scan_elements xs (Suc depth) nodes stack) (\<lambda>stack'. Inr (stack', chars, u)))
      | _ \<Rightarrow> Inr (stack, seen, chars, True))"

function (sequential) scan_loop :: "pyheap \<Rightarrow> scan_stack \<Rightarrow> addr list \<Rightarrow> nat \<Rightarrow> nat \<Rightarrow> bool \<Rightarrow> scan_result" where
  "scan_loop h [] seen nodes chars u = (if u then UNSUPPORTED else CLEAN)"
| "scan_loop h ((a, depth) # stack) seen nodes chars u =
     (if Suc nodes > MAX_CONFIGURATION_NODES then UNSUPPORTED
      else case scan_object h a depth stack seen (Suc nodes) chars u of
        Inl res \<Rightarrow> res
      | Inr (stack', seen', chars', u') \<Rightarrow> scan_loop h stack' seen' (Suc nodes) chars' u')"
  by pat_completeness auto

termination
  by (relation "measure (\<lambda>(h, stack, seen, nodes, chars, u). Suc MAX_CONFIGURATION_NODES - nodes)") auto

definition scan_secret_boundary :: "pyheap \<Rightarrow> addr \<Rightarrow> scan_result" where
  "scan_secret_boundary h a = scan_loop h [(a, 0)] [] 0 0 False"

subsection \<open>Binding translation\<close>

text \<open>
  \<open>dict(value)\<close> of a mapping, or of a sequence of pairs, as far as strings, lists, tuples and
  mappings are pairs. Keys that are not strings make the translation fail like a raised exception.
\<close>

definition key_object :: "pykey \<Rightarrow> pyobj" where
  "key_object k = (case k of KStr s \<Rightarrow> OStr s | KScalar t \<Rightarrow> OScalar t | KOther \<Rightarrow> OOpaque)"

definition pair_of :: "pyheap \<Rightarrow> pyobj \<Rightarrow> (pyobj \<times> pyobj) option" where
  "pair_of h ob = (case ob of
     OList [x, y] \<Rightarrow> Some (deref h x, deref h y)
   | OTuple [x, y] \<Rightarrow> Some (deref h x, deref h y)
   | OStr [c, d] \<Rightarrow> Some (OStr [c], OStr [d])
   | OMap [(k, _), (k', _)] \<Rightarrow> Some (key_object k, key_object k')
   | _ \<Rightarrow> None)"

definition dict_items :: "pyheap \<Rightarrow> addr \<Rightarrow> (pyobj \<times> pyobj) list option" where
  "dict_items h a = (case deref h a of
     OMap items \<Rightarrow> Some (map (\<lambda>(k, v). (key_object k, deref h v)) items)
   | OList xs \<Rightarrow> those (map (\<lambda>x. pair_of h (deref h x)) xs)
   | OTuple xs \<Rightarrow> those (map (\<lambda>x. pair_of h (deref h x)) xs)
   | OStr [] \<Rightarrow> Some []
   | _ \<Rightarrow> None)"

definition str_of :: "pyobj \<Rightarrow> string option" where
  "str_of ob = (case ob of OStr s \<Rightarrow> Some s | _ \<Rightarrow> None)"

definition string_keyed :: "(pyobj \<times> pyobj) list \<Rightarrow> (string, pyobj) dict option" where
  "string_keyed items = map_option (foldl (\<lambda>d (k, v). AList.update k v d) [])
     (those (map (\<lambda>(k, v). map_option (\<lambda>s. (s, v)) (str_of k)) items))"

definition string_valued :: "(string, pyobj) dict \<Rightarrow> (string, string) dict option" where
  "string_valued d = those (map (\<lambda>(k, v). map_option (\<lambda>s. (k, s)) (str_of v)) d)"

definition copied_configuration :: "pyheap \<Rightarrow> addr \<Rightarrow> (string, string) dict option" where
  "copied_configuration h a = Option.bind (dict_items h a) (\<lambda>items. Option.bind (string_keyed items) string_valued)"

definition effective_configuration :: "(string, string) dict \<Rightarrow> (string, string) dict" where
  "effective_configuration d =
     [(''AGENT_NAME'', dict_get d ''AGENT_NAME'' ''unknown''), (''AGENT_NAMESPACE'', dict_get d ''AGENT_NAMESPACE'' ''unknown''),
      (''MODEL_NAME'', dict_get d ''MODEL_NAME'' ''mock-model''), (''MODEL_PROVIDER'', ''mock'')] @
     concat (map (\<lambda>k. case map_of d k of None \<Rightarrow> [] | Some v \<Rightarrow> [(k, v)]) [''AGENT_DISPLAY_NAME'', ''AGENT_ROLE''])"

definition translate_binding :: "pyheap \<Rightarrow> desired_binding \<Rightarrow> (string, binding_evidence) result" where
  "translate_binding h b =
     (if db_target b \<noteq> RUNTIME_TARGET then Inl ''BINDING_CONFIGURATION_UNSUPPORTED''
      else case scan_secret_boundary h (db_configuration b) of
        SECRET \<Rightarrow> Inl ''BINDING_SECRET_VALUE_PROHIBITED''
      | UNSUPPORTED \<Rightarrow> Inl ''BINDING_CONFIGURATION_UNSUPPORTED''
      | CLEAN \<Rightarrow> (case copied_configuration h (db_configuration b) of
          None \<Rightarrow> Inl ''BINDING_CONFIGURATION_UNSUPPORTED''
        | Some copied \<Rightarrow>
            if \<not> set (dict_keys copied) \<subseteq> set SUPPORTED_CONFIGURATION then Inl ''BINDING_CONFIGURATION_UNSUPPORTED''
            else if dict_get copied ''MODEL_PROVIDER'' ''mock'' \<noteq> ''mock'' then Inl ''BINDING_CONFIGURATION_UNSUPPORTED''
            else Inr \<lparr>be_desired_target = db_target b, be_desired_configuration = copied,
              be_effective = \<lparr>eb_target = RUNTIME_TARGET,
                eb_configuration = sort_key fst (effective_configuration copied)\<rparr>,
              be_redacted = sort_key fst copied\<rparr>))"

subsection \<open>Invocation\<close>

record provider_request =
  vr_identity :: string
  vr_input :: string
  vr_compatibility :: compatibility_request
  vr_binding :: desired_binding
  vr_claimed :: "string option"

datatype execution_state = X_SUCCEEDED | X_FAILED | X_UNKNOWN

record execution_evidence =
  xe_state :: execution_state
  xe_identity :: string
  xe_native_id :: "string option"
  xe_compatibility :: compatibility_decision
  xe_binding :: "binding_evidence option"
  xe_output :: "string option"
  xe_reason :: string
  xe_diagnostic :: string

datatype invocation = Invoked string "string option" | AmbiguousTimeout | InvocationFailure | InvokerRaised

type_synonym 'w invoker = "'w \<Rightarrow> string \<Rightarrow> string \<Rightarrow> (string \<times> string) list \<Rightarrow> 'w \<times> invocation"

definition pair_repr :: "string \<times> string \<Rightarrow> string" where
  "pair_repr p = ''('' @ py_repr (fst p) @ '', '' @ py_repr (snd p) @ '')''"

definition tuple_repr :: "(string \<times> string) list \<Rightarrow> string" where
  "tuple_repr ps = (case ps of [p] \<Rightarrow> ''('' @ pair_repr p @ '',)'' | _ \<Rightarrow> ''('' @ py_join '', '' (map pair_repr ps) @ '')'')"

definition deterministic_mock_invoker :: "(string \<Rightarrow> string) \<Rightarrow> 'w invoker" where
  "deterministic_mock_invoker sha w ident inp conf =
     (w, Invoked (''mock response: '' @ inp)
       (Some (''native-'' @ take 24 (sha (ident @ [CHR 0x00] @ inp @ [CHR 0x00] @ tuple_repr conf)))))"

record provider_state =
  ps_results :: "(string, execution_evidence) dict"
  ps_native_ids :: "string set"

definition provider_empty :: provider_state where
  "provider_empty = \<lparr>ps_results = [], ps_native_ids = {}\<rparr>"

definition execution_failure ::
  "string \<Rightarrow> string option \<Rightarrow> compatibility_decision \<Rightarrow> string \<Rightarrow> execution_state \<Rightarrow> binding_evidence option
   \<Rightarrow> execution_evidence" where
  "execution_failure ident nid decision why st binding = \<lparr>xe_state = st, xe_identity = ident, xe_native_id = nid,
     xe_compatibility = decision, xe_binding = binding, xe_output = None, xe_reason = why, xe_diagnostic = why\<rparr>"

definition provider_record ::
  "provider_state \<Rightarrow> provider_request \<Rightarrow> compatibility_decision \<Rightarrow> binding_evidence \<Rightarrow> string \<Rightarrow> string option
   \<Rightarrow> provider_state \<times> execution_evidence" where
  "provider_record ps q decision binding out nid =
     (let e = \<lparr>xe_state = X_SUCCEEDED, xe_identity = vr_identity q, xe_native_id = nid, xe_compatibility = decision,
        xe_binding = Some binding, xe_output = Some out, xe_reason = cd_reason decision,
        xe_diagnostic = ''native invocation normalized: '' @ cd_reason decision\<rparr> in
      (ps\<lparr>ps_native_ids := (case nid of None \<Rightarrow> ps_native_ids ps | Some n \<Rightarrow> insert n (ps_native_ids ps)),
          ps_results := AList.update (vr_identity q) e (ps_results ps)\<rparr>, e))"

definition provider_invoke ::
  "'w invoker \<Rightarrow> pyheap \<Rightarrow> 'w \<Rightarrow> provider_state \<Rightarrow> provider_request
   \<Rightarrow> 'w \<times> provider_state \<times> (unit, execution_evidence) result" where
  "provider_invoke ivk h w ps q =
     (let decision = validate_compatibility (vr_compatibility q);
          fail = (\<lambda>nid why st binding. execution_failure (vr_identity q) nid decision why st binding) in
      if vr_identity q \<noteq> cd_identity decision
        then (w, ps, Inr (fail None ''NATIVE_ID_SUBSTITUTION_REJECTED'' X_FAILED None))
      else if vr_claimed q \<noteq> None then (w, ps, Inr (fail None ''NATIVE_ID_SUBSTITUTION_REJECTED'' X_FAILED None))
      else if \<not> cd_may_invoke decision then (w, ps, Inr (fail None (cd_reason decision) X_FAILED None))
      else case translate_binding h (vr_binding q) of
        Inl why \<Rightarrow> (w, ps, Inr (fail None why X_FAILED None))
      | Inr binding \<Rightarrow>
          (case ivk w (vr_identity q) (vr_input q) (eb_configuration (be_effective binding)) of
             (w', AmbiguousTimeout) \<Rightarrow> (w', ps, Inr (fail None ''INVOCATION_TIMEOUT_AMBIGUOUS'' X_UNKNOWN (Some binding)))
           | (w', InvocationFailure) \<Rightarrow> (w', ps, Inr (fail None ''INVOCATION_FAILED'' X_FAILED (Some binding)))
           | (w', InvokerRaised) \<Rightarrow> (w', ps, Inl ())
           | (w', Invoked out nid) \<Rightarrow>
               if nid = Some (vr_identity q)
                 then (w', ps, Inr (fail None ''NATIVE_ID_SUBSTITUTION_REJECTED'' X_FAILED (Some binding)))
               else if (case nid of None \<Rightarrow> False | Some n \<Rightarrow> n \<in> ps_native_ids ps)
                 then (w', ps, Inr (fail nid ''NATIVE_INVOCATION_ID_DUPLICATE'' X_FAILED (Some binding)))
               else (case provider_record ps q decision binding out nid of (ps', e) \<Rightarrow> (w', ps', Inr e))))"

definition provider_observe :: "provider_state \<Rightarrow> string \<Rightarrow> execution_evidence option" where
  "provider_observe ps ident = map_of (ps_results ps) ident"

record cleanup_result =
  cl_state :: support_state
  cl_identity :: string
  cl_reason :: string

definition provider_cleanup :: "provider_state \<Rightarrow> string \<Rightarrow> provider_state \<times> cleanup_result" where
  "provider_cleanup ps ident = (case map_of (ps_results ps) ident of
     None \<Rightarrow> (ps, \<lparr>cl_state = NOT_SUPPORTED, cl_identity = ident, cl_reason = ''CLEANUP_FAILED''\<rparr>)
   | Some e \<Rightarrow>
       (ps\<lparr>ps_results := AList.delete ident (ps_results ps),
           ps_native_ids := (case xe_native_id e of None \<Rightarrow> ps_native_ids ps | Some n \<Rightarrow> ps_native_ids ps - {n})\<rparr>,
        \<lparr>cl_state = SUPPORTED, cl_identity = ident, cl_reason = ''CLEANUP_COMPLETED''\<rparr>))"

subsection \<open>What the scanner's answer means\<close>

definition clean_object :: "pyobj \<Rightarrow> bool" where
  "clean_object ob = (case ob of OStr s \<Rightarrow> \<not> is_secret_value s
     | OMap items \<Rightarrow> list_all (\<lambda>(k, _). case k of KStr s \<Rightarrow> \<not> is_secret_key s | _ \<Rightarrow> False) items
     | OList _ \<Rightarrow> True | OTuple _ \<Rightarrow> True | _ \<Rightarrow> False)"

definition secret_object :: "pyobj \<Rightarrow> bool" where
  "secret_object ob = (case ob of OStr s \<Rightarrow> is_secret_value s | _ \<Rightarrow> list_ex is_secret_key (string_keys ob))"

lemma clean_not_secret: "clean_object ob \<Longrightarrow> \<not> secret_object ob"
  by (cases ob) (fastforce simp: clean_object_def secret_object_def list_all_iff list_ex_iff split: pykey.splits)+

lemma scan_items_continue:
  "scan_items items depth nodes stack chars u = Inr (stack', chars', u') \<Longrightarrow>
     fst ` set stack' = fst ` set stack \<union> snd ` set items \<and>
     (\<not> u' \<longrightarrow> \<not> u \<and> clean_object (OMap items))"
proof (induction items arbitrary: stack chars u)
  case (Cons p items)
  obtain k a where p: "p = (k, a)" by (cases p)
  show ?case
  proof (cases k)
    case (KStr s)
    then have "\<not> is_secret_key s" "scan_items items depth nodes ((a, depth) # stack) (chars + length s) u = Inr (stack', chars', u')"
      using Cons.prems p by (simp_all split: if_splits)
    then show ?thesis using Cons.IH p KStr by (auto simp: clean_object_def)
  next
    case (KScalar t)
    then have "scan_items items depth nodes ((a, depth) # stack) chars True = Inr (stack', chars', u')"
      using Cons.prems p by (simp split: if_splits)
    then show ?thesis using Cons.IH p by auto
  next
    case KOther
    then have "scan_items items depth nodes ((a, depth) # stack) chars True = Inr (stack', chars', u')"
      using Cons.prems p by (simp split: if_splits)
    then show ?thesis using Cons.IH p by auto
  qed
qed (simp add: clean_object_def)

lemma scan_items_secret:
  "scan_items items depth nodes stack chars u = Inl SECRET \<Longrightarrow> secret_object (OMap items)"
  by (induction items depth nodes stack chars u rule: scan_items.induct)
    (auto simp: secret_object_def list_ex_iff split: if_splits pykey.splits)

lemma scan_items_not_clean: "scan_items items depth nodes stack chars u \<noteq> Inl CLEAN"
  by (induction items depth nodes stack chars u rule: scan_items.induct) (auto split: pykey.splits)

lemma scan_elements_continue:
  "scan_elements xs depth nodes stack = Inr stack' \<Longrightarrow> fst ` set stack' = fst ` set stack \<union> set xs"
  by (induction xs depth nodes stack rule: scan_elements.induct) (auto split: if_splits)

lemma scan_elements_result: "scan_elements xs depth nodes stack = Inl res \<Longrightarrow> res = UNSUPPORTED"
  by (induction xs depth nodes stack rule: scan_elements.induct) (auto split: if_splits)

lemma scan_object_continue:
  "scan_object h a depth stack seen nodes chars u = Inr (stack', seen', chars', u') \<Longrightarrow>
     fst ` set stack' \<subseteq> fst ` set stack \<union> set (children (deref h a)) \<and>
     (\<not> u' \<longrightarrow> \<not> u \<and> clean_object (deref h a) \<and> fst ` set stack' = fst ` set stack \<union> set (children (deref h a)))"
  by (cases "deref h a")
    (auto simp: scan_object_def Let_def clean_object_def split: if_splits sum.splits
      dest!: scan_items_continue [unfolded clean_object_def, simplified] scan_elements_continue)

lemma scan_object_result:
  "scan_object h a depth stack seen nodes chars u = Inl res \<Longrightarrow> res \<noteq> CLEAN \<and> (res = SECRET \<longrightarrow> secret_object (deref h a))"
  by (cases "deref h a")
    (auto simp: scan_object_def Let_def secret_object_def [of "OStr _"] scan_items_not_clean rbind_def
      split: if_splits sum.splits dest: scan_items_secret scan_elements_result)

text \<open>A clean answer comes with a set of clean objects that is closed under containment.\<close>

lemma scan_loop_clean:
  "scan_loop h stack seen nodes chars u = CLEAN \<Longrightarrow>
     \<not> u \<and> (\<exists>V. fst ` set stack \<subseteq> V \<and>
       (\<forall>x \<in> V. clean_object (deref h x) \<and> set (children (deref h x)) \<subseteq> V))"
proof (induction h stack seen nodes chars u rule: scan_loop.induct)
  case (1 h seen nodes chars u)
  then show ?case by (auto split: if_splits intro: exI [of _ "{}"])
next
  case (2 h a depth stack seen nodes chars u)
  have n: "\<not> Suc nodes > MAX_CONFIGURATION_NODES" using "2.prems" by (auto split: if_splits)
  obtain stack' seen' chars' u' where
    ob: "scan_object h a depth stack seen (Suc nodes) chars u = Inr (stack', seen', chars', u')"
    using "2.prems" n by (auto split: sum.splits dest: scan_object_result)
  then have "scan_loop h stack' seen' (Suc nodes) chars' u' = CLEAN" using "2.prems" n by simp
  then obtain V where V: "\<not> u'" "fst ` set stack' \<subseteq> V"
      "\<forall>x \<in> V. clean_object (deref h x) \<and> set (children (deref h x)) \<subseteq> V"
    using "2.IH" [OF n ob refl refl refl] by blast
  then have "\<not> u" "clean_object (deref h a)" "fst ` set stack \<union> set (children (deref h a)) \<subseteq> V"
    using scan_object_continue [OF ob] by simp_all
  then show ?case using V(3) by (intro conjI exI [of _ "insert a V"]) auto
qed

text \<open>A secret answer names something secret that the value reaches.\<close>

lemma scan_loop_secret:
  "scan_loop h stack seen nodes chars u = SECRET \<Longrightarrow> (\<forall>x \<in> fst ` set stack. reaches h r x) \<Longrightarrow>
     \<exists>b. reaches h r b \<and> secret_object (deref h b)"
proof (induction h stack seen nodes chars u rule: scan_loop.induct)
  case (2 h a depth stack seen nodes chars u)
  have n: "\<not> Suc nodes > MAX_CONFIGURATION_NODES" using "2.prems" by (auto split: if_splits)
  have a: "reaches h r a" and st: "\<forall>x \<in> fst ` set stack. reaches h r x" using "2.prems"(2) by auto
  show ?case
  proof (cases "scan_object h a depth stack seen (Suc nodes) chars u")
    case (Inl res)
    then show ?thesis using "2.prems"(1) n a scan_object_result by fastforce
  next
    case (Inr p)
    obtain stack' seen' chars' u' where
      ob: "scan_object h a depth stack seen (Suc nodes) chars u = Inr (stack', seen', chars', u')"
      using Inr by (metis surj_pair)
    then have l: "scan_loop h stack' seen' (Suc nodes) chars' u' = SECRET" using "2.prems"(1) n by simp
    have "\<forall>x \<in> fst ` set stack'. reaches h r x"
      using scan_object_continue [OF ob] st reaches_child [OF a] by blast
    then show ?thesis using "2.IH" [OF n ob refl refl refl l] by blast
  qed
qed (simp split: if_splits)

lemma scan_clean: "scan_secret_boundary h a = CLEAN \<Longrightarrow> reaches h a b \<Longrightarrow> clean_object (deref h b)"
proof -
  assume c: "scan_secret_boundary h a = CLEAN" and r: "reaches h a b"
  obtain V where "a \<in> V" "\<forall>x \<in> V. clean_object (deref h x) \<and> set (children (deref h x)) \<subseteq> V"
    using scan_loop_clean [OF c [unfolded scan_secret_boundary_def]] by auto
  then show ?thesis using reaches_closed [OF r, of V] by blast
qed

lemma scan_secret: "scan_secret_boundary h a = SECRET \<Longrightarrow> \<exists>b. reaches h a b \<and> secret_object (deref h b)"
  using scan_loop_secret [of h "[(a, 0)]" "[]" 0 0 False a] by (simp add: scan_secret_boundary_def reaches_self)

text \<open>
  C28: when the scanner accepts a configuration, nothing that the configuration reaches through
  mappings, lists and tuples, however nested, shared or cyclic, is a secret value, has a secret key,
  or is of another type; when it reports a secret, one is reachable.
\<close>

theorem scan_answers_are_right:
  "(scan_secret_boundary h a = CLEAN \<longrightarrow>
      (\<forall>b. reaches h a b \<longrightarrow> clean_object (deref h b) \<and> \<not> secret_object (deref h b))) \<and>
   (scan_secret_boundary h a = SECRET \<longrightarrow> (\<exists>b. reaches h a b \<and> secret_object (deref h b)))"
  using scan_clean clean_not_secret scan_secret by blast

subsection \<open>Configurations that reach the invoker\<close>

lemma those_SomeD: "those xs = Some ys \<Longrightarrow> xs = map Some ys"
  by (induction xs arbitrary: ys) (auto split: option.splits)

lemma foldl_update_values:
  "(k, v) \<in> set (foldl (\<lambda>d (k, v). AList.update k v d) d ps) \<Longrightarrow> (k, v) \<in> set d \<union> set ps"
proof (induction ps arbitrary: d)
  case (Cons p ps)
  obtain a b where p: "p = (a, b)" by (cases p)
  have "set (AList.update a b d) \<subseteq> insert (a, b) (set d)" by (induction d) auto
  then show ?case using Cons.IH [of "AList.update a b d"] Cons.prems p by auto
qed simp

lemma copied_mapping_values:
  assumes "deref h a = OMap items" and "copied_configuration h a = Some copied" and "(k, v) \<in> set copied"
  shows "\<exists>x. (KStr k, x) \<in> set items \<and> deref h x = OStr v"
proof -
  obtain d where d: "string_keyed (map (\<lambda>(k, v). (key_object k, deref h v)) items) = Some d" and c: "string_valued d = Some copied"
    using assms(1,2) by (auto simp: copied_configuration_def dict_items_def bind_eq_Some_conv)
  have "Some (k, v) \<in> set (map (\<lambda>(k, v). map_option (\<lambda>s. (k, s)) (str_of v)) d)"
    using those_SomeD [OF c [unfolded string_valued_def]] assms(3) by simp
  then obtain ob where ob: "(k, ob) \<in> set d" "str_of ob = Some v"
    by (auto simp: eq_commute [of "Some _"])
  obtain ps where ps: "those (map (\<lambda>(k, v). map_option (\<lambda>s. (s, v)) (str_of k)) (map (\<lambda>(k, v). (key_object k, deref h v)) items)) = Some ps"
    and "d = foldl (\<lambda>d (k, v). AList.update k v d) [] ps" using d by (auto simp: string_keyed_def)
  then have "(k, ob) \<in> set ps" using foldl_update_values ob(1) by fastforce
  then have "Some (k, ob) \<in> set (map (\<lambda>(k, v). map_option (\<lambda>s. (s, v)) (str_of k)) (map (\<lambda>(k, v). (key_object k, deref h v)) items))"
    using those_SomeD [OF ps] by simp
  then obtain key x where "(key, x) \<in> set items" "str_of (key_object key) = Some k" "deref h x = ob"
    by (auto simp: eq_commute [of "Some _"])
  then show ?thesis using ob(2) by (auto simp: str_of_def key_object_def split: pyobj.splits pykey.splits)
qed

lemma short_values_clean: "length s < 14 \<Longrightarrow> \<not> is_secret_value s"
proof
  assume l: "length s < 14" and "is_secret_value s"
  then obtain r where "r \<in> set SECRET_VALUE_PATTERNS" "re_min r \<le> length s"
    by (auto simp: is_secret_value_def list_ex_iff dest: re_search_min)
  moreover have "\<forall>r \<in> set SECRET_VALUE_PATTERNS. 14 \<le> re_min r"
    by (simp add: SECRET_VALUE_PATTERNS_def re_private_key_def re_bearer_def re_assignment_def re_prefixed_key_def
      re_literal_def re_literal_i_def re_opt_def re_at_least_def re_one_of_def re_space_def numeral_eq_Suc)
  ultimately show False using l by fastforce
qed

lemma effective_configuration_values:
  assumes "(k, v) \<in> set (effective_configuration d)"
  shows "v \<in> {''unknown'', ''mock-model'', ''mock''} \<or> (k, v) \<in> set d"
  using assms by (auto simp: effective_configuration_def dict_get_def split: option.splits dest: map_of_SomeD sym [of "Some _"])

lemma translated_configuration_clean:
  assumes t: "translate_binding h b = Inr be" and m: "deref h (db_configuration b) = OMap items"
    and kv: "(k, v) \<in> set (eb_configuration (be_effective be))"
  shows "k \<in> set SUPPORTED_CONFIGURATION \<and> \<not> is_secret_value v"
proof -
  obtain copied where c: "copied_configuration h (db_configuration b) = Some copied"
    and scan: "scan_secret_boundary h (db_configuration b) = CLEAN"
    and ev: "eb_configuration (be_effective be) = sort_key fst (effective_configuration copied)"
    using t by (auto simp: translate_binding_def split: if_splits scan_result.splits option.splits)
  have "k \<in> set SUPPORTED_CONFIGURATION" using kv ev
    by (auto simp: effective_configuration_def SUPPORTED_CONFIGURATION_def split: option.splits)
  moreover have "\<not> is_secret_value v"
  proof (cases "v \<in> {''unknown'', ''mock-model'', ''mock''}")
    case False
    then have "(k, v) \<in> set copied" using effective_configuration_values kv ev by fastforce
    then obtain x where x: "(KStr k, x) \<in> set items" "deref h x = OStr v" using copied_mapping_values [OF m c] by blast
    then have "reaches h (db_configuration b) x" using m by (intro reaches_child [OF reaches_self]) force
    then show ?thesis using scan_clean [OF scan] x(2) by (force simp: clean_object_def)
  qed (use short_values_clean [of v] in auto)
  ultimately show ?thesis by blast
qed

subsection \<open>Runs of the provider\<close>

definition logged_invoker :: "'w invoker \<Rightarrow> ('w \<times> (string \<times> string \<times> (string \<times> string) list) list) invoker" where
  "logged_invoker ivk s ident inp conf = (case ivk (fst s) ident inp conf of (w, res) \<Rightarrow> ((w, snd s @ [(ident, inp, conf)]), res))"

definition may_call_invoker :: "pyheap \<Rightarrow> provider_request \<Rightarrow> bool" where
  "may_call_invoker h q = (vr_identity q = cr_identity (vr_compatibility q) \<and> vr_claimed q = None \<and>
     cd_may_invoke (validate_compatibility (vr_compatibility q)) \<and> is_ok (translate_binding h (vr_binding q)))"

lemma compatibility_identity [simp]: "cd_identity (validate_compatibility q) = cr_identity q"
  by (simp add: validate_compatibility_def compatibility_reject_def)

lemma may_invoke_iff:
  "cd_may_invoke (validate_compatibility q) \<longleftrightarrow>
     nonblank (cr_identity q) \<and> cr_target q = RUNTIME_TARGET \<and> cr_package q = PROVIDER_PACKAGE \<and>
     cr_core_version q = ''0.1.0'' \<and>
     (if cr_degraded_requested q then set DEGRADED_REQUIRED_EVIDENCE \<subseteq> set (cr_degraded_evidence q)
      else cr_degraded_evidence q = [])"
proof -
  have "nonblank ''native''" by code_simp
  then show ?thesis
    by (cases "cr_target q")
      (auto simp: validate_compatibility_def compatibility_reject_def RUNTIME_TARGET_def CORE_EXACT_VERSIONS_def)
qed

datatype provider_call = PInvoke provider_request pyheap | PCleanup string

fun provider_step :: "'w invoker \<Rightarrow> 'w \<times> provider_state \<Rightarrow> provider_call \<Rightarrow> 'w \<times> provider_state" where
  "provider_step ivk (w, ps) (PInvoke q h) = (case provider_invoke ivk h w ps q of (w', ps', _) \<Rightarrow> (w', ps'))"
| "provider_step ivk (w, ps) (PCleanup ident) = (w, fst (provider_cleanup ps ident))"

definition results_ok :: "provider_state \<Rightarrow> bool" where
  "results_ok ps \<longleftrightarrow>
     (\<forall>ident e. map_of (ps_results ps) ident = Some e \<longrightarrow>
        xe_state e = X_SUCCEEDED \<and> xe_identity e = ident \<and> xe_native_id e \<noteq> Some ident \<and>
        (\<forall>n. xe_native_id e = Some n \<longrightarrow> n \<in> ps_native_ids ps)) \<and>
     (\<forall>i j e f n. map_of (ps_results ps) i = Some e \<and> map_of (ps_results ps) j = Some f \<and>
        xe_native_id e = Some n \<and> xe_native_id f = Some n \<longrightarrow> i = j)"

lemma results_okI:
  assumes "\<And>ident e. map_of (ps_results ps) ident = Some e \<Longrightarrow> xe_state e = X_SUCCEEDED \<and> xe_identity e = ident \<and>
      xe_native_id e \<noteq> Some ident \<and> (\<forall>n. xe_native_id e = Some n \<longrightarrow> n \<in> ps_native_ids ps)"
    and "\<And>i j e f n. map_of (ps_results ps) i = Some e \<Longrightarrow> map_of (ps_results ps) j = Some f \<Longrightarrow>
      xe_native_id e = Some n \<Longrightarrow> xe_native_id f = Some n \<Longrightarrow> i = j"
  shows "results_ok ps"
  unfolding results_ok_def using assms by blast

lemma results_okD:
  assumes "results_ok ps" and "map_of (ps_results ps) i = Some e"
  shows "xe_state e = X_SUCCEEDED" and "xe_identity e = i" and "xe_native_id e \<noteq> Some i"
    and "xe_native_id e = Some n \<Longrightarrow> n \<in> ps_native_ids ps"
    and "map_of (ps_results ps) j = Some f \<Longrightarrow> xe_native_id e = Some n \<Longrightarrow> xe_native_id f = Some n \<Longrightarrow> i = j"
  using assms unfolding results_ok_def by blast+

lemma provider_record_ok:
  assumes ok: "results_ok ps" and sub: "nid \<noteq> Some (vr_identity q)" and new: "\<forall>n. nid = Some n \<longrightarrow> n \<notin> ps_native_ids ps"
    and rec: "provider_record ps q decision binding out nid = (ps', e)"
  shows "results_ok ps'"
proof -
  have e: "xe_state e = X_SUCCEEDED" "xe_identity e = vr_identity q" "xe_native_id e = nid"
    and r: "map_of (ps_results ps') = (map_of (ps_results ps))(vr_identity q \<mapsto> e)"
    and n: "ps_native_ids ps' = ps_native_ids ps \<union> set_option nid"
    using rec by (auto simp: provider_record_def Let_def split: option.splits)
  show ?thesis
  proof (rule results_okI, goal_cases)
    case (1 ident f)
    then show ?case using r e n sub results_okD [OF ok, of ident f] by (auto split: if_splits)
  next
    case (2 i j f g m)
    then show ?case using r e new results_okD(4) [OF ok] results_okD(5) [OF ok] by (metis fun_upd_apply option.inject)
  qed
qed

lemma provider_invoke_cases:
  assumes "provider_invoke ivk h w ps q = (w', ps', res)"
  obtains (kept) "ps' = ps"
  | (recorded) decision binding out nid e where "provider_record ps q decision binding out nid = (ps', e)"
      "nid \<noteq> Some (vr_identity q)" "\<forall>n. nid = Some n \<longrightarrow> n \<notin> ps_native_ids ps" "res = Inr e"
  using assms
  by (auto simp: provider_invoke_def Let_def split: if_splits sum.splits prod.splits invocation.splits option.splits)

lemma provider_invoke_ok:
  "results_ok ps \<Longrightarrow> provider_invoke ivk h w ps q = (w', ps', res) \<Longrightarrow> results_ok ps'"
  by (erule provider_invoke_cases) (simp, rule provider_record_ok)

lemma provider_cleanup_ok: "results_ok ps \<Longrightarrow> results_ok (fst (provider_cleanup ps ident))"
proof (cases "map_of (ps_results ps) ident")
  case (Some e)
  assume ok: "results_ok ps"
  let ?ps = "fst (provider_cleanup ps ident)"
  have r: "map_of (ps_results ?ps) = (map_of (ps_results ps))(ident := None)"
    and n: "ps_native_ids ?ps = ps_native_ids ps - set_option (xe_native_id e)"
    using Some by (auto simp: provider_cleanup_def delete_conv' split: option.splits)
  have keep: "i \<noteq> ident" "map_of (ps_results ps) i = Some f" if "map_of (ps_results ?ps) i = Some f" for i f
    using that r by (auto split: if_splits)
  show ?thesis
  proof (rule results_okI, goal_cases)
    case (1 i f)
    note k = keep [OF 1]
    have "m \<notin> set_option (xe_native_id e)" if "xe_native_id f = Some m" for m
      using results_okD(5) [OF ok Some k(2)] k(1) that by auto
    then show ?case using n results_okD [OF ok k(2)] by auto
  next
    case (2 i j f g m)
    show ?case by (rule results_okD(5) [OF ok keep(2) [OF 2(1)] keep(2) [OF 2(2)] 2(3,4)])
  qed
qed (simp add: provider_cleanup_def)

lemma provider_run_ok: "results_ok ps \<Longrightarrow> results_ok (snd (foldl (provider_step ivk) (w, ps) calls))"
proof (induction calls arbitrary: w ps)
  case (Cons c calls)
  obtain w' ps' where s: "provider_step ivk (w, ps) c = (w', ps')" by (metis surj_pair)
  have "results_ok ps'"
  proof (cases c)
    case (PInvoke q h)
    then show ?thesis using s Cons.prems provider_invoke_ok by (auto split: prod.splits)
  next
    case (PCleanup i)
    then show ?thesis using s Cons.prems provider_cleanup_ok by auto
  qed
  then show ?case using Cons.IH [of ps' w'] s by simp
qed simp

lemma provider_invoke_logged:
  "snd (fst (provider_invoke (logged_invoker ivk) h (w, l) ps q)) =
     l @ (case translate_binding h (vr_binding q) of Inl _ \<Rightarrow> []
        | Inr b \<Rightarrow> if vr_identity q = cr_identity (vr_compatibility q) \<and> vr_claimed q = None \<and>
              cd_may_invoke (validate_compatibility (vr_compatibility q))
            then [(vr_identity q, vr_input q, eb_configuration (be_effective b))] else [])"
  by (auto simp: provider_invoke_def Let_def logged_invoker_def split: sum.splits prod.splits invocation.splits option.splits)

text \<open>
  For a configuration that is a mapping, the invoker is called at most once, exactly when the
  compatibility request names the invocation's identity, no native identity is claimed, the target,
  package and core version are the exact ones, degraded mode is explicit and evidenced, and the
  binding translates; and no value it receives is a secret, no key is outside the supported ones.
\<close>

theorem invoker_receives_no_secret:
  assumes "deref h (db_configuration (vr_binding q)) = OMap items"
  shows "snd (fst (provider_invoke (logged_invoker ivk) h (w, l) ps q)) =
      l @ (case translate_binding h (vr_binding q) of Inl _ \<Rightarrow> []
         | Inr b \<Rightarrow>
             if vr_identity q = cr_identity (vr_compatibility q) \<and> vr_claimed q = None \<and> nonblank (vr_identity q) \<and>
               cr_target (vr_compatibility q) = RUNTIME_TARGET \<and> cr_package (vr_compatibility q) = PROVIDER_PACKAGE \<and>
               cr_core_version (vr_compatibility q) = ''0.1.0'' \<and>
               (if cr_degraded_requested (vr_compatibility q)
                then set DEGRADED_REQUIRED_EVIDENCE \<subseteq> set (cr_degraded_evidence (vr_compatibility q))
                else cr_degraded_evidence (vr_compatibility q) = [])
             then [(vr_identity q, vr_input q, eb_configuration (be_effective b))] else [])
    \<and> (\<forall>b. translate_binding h (vr_binding q) = Inr b \<longrightarrow>
        (\<forall>(k, v) \<in> set (eb_configuration (be_effective b)). k \<in> set SUPPORTED_CONFIGURATION \<and> \<not> is_secret_value v))"
  using translated_configuration_clean [OF _ assms]
  by (auto simp: provider_invoke_logged may_invoke_iff split: sum.splits)

text \<open>
  After any sequence of invocations and cleanups, whatever the invoker does, the provider stores
  only successful results, each under its own platform identity and with a different native identity,
  and no two results share a native identity.
\<close>

theorem native_identities_are_never_shared:
  fixes ivk :: "'w invoker"
  assumes "foldl (provider_step ivk) (w, provider_empty) calls = (w', ps)"
  shows "(\<forall>ident e. provider_observe ps ident = Some e \<longrightarrow>
      xe_state e = X_SUCCEEDED \<and> xe_identity e = ident \<and> xe_native_id e \<noteq> Some ident) \<and>
    (\<forall>i j e f n. provider_observe ps i = Some e \<and> provider_observe ps j = Some f \<and>
      xe_native_id e = Some n \<and> xe_native_id f = Some n \<longrightarrow> i = j)"
proof -
  have "results_ok provider_empty" by (simp add: results_ok_def provider_empty_def)
  then have "results_ok ps" using provider_run_ok [of provider_empty ivk w calls] assms by simp
  then show ?thesis unfolding results_ok_def provider_observe_def by blast
qed

subsection \<open>Witnesses\<close>

theorem scan_answers_are_right_witness:
  "scan_secret_boundary [OList [1], OStr ''mock''] 0 = CLEAN \<and> reaches [OList [1], OStr ''mock''] 0 1 \<and>
   clean_object (deref [OList [1], OStr ''mock''] 1) \<and> \<not> secret_object (deref [OList [1], OStr ''mock''] 1)"
proof -
  have c: "scan_secret_boundary [OList [1], OStr ''mock''] 0 = CLEAN"
    by (simp add: scan_secret_boundary_def scan_object_def deref_def short_values_clean MAX_CONFIGURATION_NODES_def
      MAX_CONFIGURATION_DEPTH_def MAX_CONFIGURATION_STRING_LENGTH_def MAX_CONFIGURATION_TOTAL_CHARACTERS_def)
  moreover have "reaches [OList [1], OStr ''mock''] 0 1" by (rule reaches_child [OF reaches_self]) (simp add: deref_def)
  ultimately show ?thesis using scan_answers_are_right [of "[OList [1], OStr ''mock'']" 0] by blast
qed

definition example_provider_request :: provider_request where
  "example_provider_request = \<lparr>vr_identity = ''exec-1'', vr_input = ''hi'',
     vr_compatibility = \<lparr>cr_package = PROVIDER_PACKAGE, cr_target = RUNTIME_TARGET, cr_core_version = ''0.1.0'',
       cr_identity = ''exec-1'', cr_degraded_requested = False, cr_degraded_evidence = []\<rparr>,
     vr_binding = \<lparr>db_target = RUNTIME_TARGET, db_configuration = 0\<rparr>, vr_claimed = None\<rparr>"

lemma example_binding: "is_ok (translate_binding [OMap []] \<lparr>db_target = RUNTIME_TARGET, db_configuration = 0\<rparr>)"
  by (simp add: translate_binding_def scan_secret_boundary_def scan_object_def deref_def MAX_CONFIGURATION_NODES_def
    MAX_CONFIGURATION_DEPTH_def copied_configuration_def dict_items_def string_keyed_def string_valued_def
    SUPPORTED_CONFIGURATION_def dict_get_def)

theorem invoker_receives_no_secret_witness:
  "length (snd (fst (provider_invoke (logged_invoker (deterministic_mock_invoker (\<lambda>s. s))) [OMap []] ((), []) provider_empty
     example_provider_request))) = 1"
proof -
  obtain b where "translate_binding [OMap []] (vr_binding example_provider_request) = Inr b"
    using example_binding by (auto simp: is_ok_iff example_provider_request_def)
  moreover have "nonblank ''exec-1''" by code_simp
  moreover have "deref [OMap []] (db_configuration (vr_binding example_provider_request)) = OMap []"
    by (simp add: deref_def example_provider_request_def)
  ultimately show ?thesis
    using invoker_receives_no_secret [of "[OMap []]" example_provider_request "[]" "deterministic_mock_invoker (\<lambda>s. s)" "()" "[]" provider_empty]
    by (simp add: example_provider_request_def)
qed

theorem native_identities_are_never_shared_witness:
  "\<exists>e. provider_observe (snd (foldl (provider_step (deterministic_mock_invoker (\<lambda>s. s))) ((), provider_empty)
       [PInvoke example_provider_request [OMap []]])) ''exec-1'' = Some e \<and> xe_state e = X_SUCCEEDED \<and> xe_native_id e \<noteq> Some ''exec-1''"
proof -
  obtain b where b: "translate_binding [OMap []] (vr_binding example_provider_request) = Inr b"
    using example_binding by (auto simp: is_ok_iff example_provider_request_def)
  have "nonblank ''exec-1''" by code_simp
  then have may: "cd_may_invoke (validate_compatibility (vr_compatibility example_provider_request))"
    by (simp add: may_invoke_iff example_provider_request_def)
  then have "\<exists>e. provider_observe (snd (foldl (provider_step (deterministic_mock_invoker (\<lambda>s. s))) ((), provider_empty)
      [PInvoke example_provider_request [OMap []]])) ''exec-1'' = Some e"
    using b by (simp add: provider_invoke_def Let_def deterministic_mock_invoker_def provider_record_def provider_observe_def provider_empty_def)
      (simp add: example_provider_request_def)
  then show ?thesis
    using native_identities_are_never_shared [OF surjective_pairing, of "deterministic_mock_invoker (\<lambda>s. s)" "()"
      "[PInvoke example_provider_request [OMap []]]"] by blast
qed

end
