(* ===== verification/Capability_Gateway.thy ===== *)
theory Capability_Gateway
  imports Py_Objects
begin

text \<open>
  The Capability Gateway: \<open>gateway/src/agent_gateway/capability/\<close> \<open>models.py\<close>, \<open>gateway.py\<close> and the
  REST provider of \<open>rest.py\<close>.

  Arguments, bodies and results are objects of a Python heap, as the secret scanner of the models
  tells objects apart by \<open>id\<close>. The scanner has no bound of its own and is a partial function; it is
  proved to return on every heap, cyclic ones included. The authorization port, the provider and
  the transport are parameters over a world \<open>'w\<close>, whose answers are the values and exceptions the
  code distinguishes. An error carries the message of the \<open>CapabilityModelError\<close>.

  The URL checks of \<open>RestProviderConfiguration\<close> are not modelled: a configuration is a record whose
  target has passed them.

  The lemmas about the gateway are proved in the locale of the provider contract, which the REST
  provider is shown to keep.
\<close>

subsection \<open>Secret scanning\<close>

definition MAX_REQUEST_BYTES :: nat where "MAX_REQUEST_BYTES = 65536"
definition MAX_EVIDENCE_BYTES :: nat where "MAX_EVIDENCE_BYTES = 65536"
definition MAX_HEADERS :: nat where "MAX_HEADERS = 32"
definition MAX_HEADER_LENGTH :: nat where "MAX_HEADER_LENGTH = 1024"

definition GATEWAY_SECRET_MARKERS :: "string list" where
  "GATEWAY_SECRET_MARKERS = [''authorization'', ''credential'', ''password'', ''secret'', ''token'', ''apikey'']"

definition re_gateway_private_key :: regex where
  "re_gateway_private_key = RSeq (re_literal ''-----BEGIN '') (RSeq
     (re_opt (RSeq (re_at_least 1 (RChar (\<lambda>c. ascii_upper c \<or> ascii_digit c \<or> c = CHR '' ''))) (re_literal '' '')))
     (re_literal ''PRIVATE KEY-----''))"

definition re_gateway_bearer :: regex where
  "re_gateway_bearer = RSeq RBegin (RSeq (re_literal_i ''bearer'') (RSeq (re_at_least 1 re_space)
     (RSeq (re_at_least 8 (RChar token_char)) REnd)))"

definition re_gateway_key :: regex where
  "re_gateway_key = RSeq RBegin (RSeq (re_any [re_literal_i ''sk'', re_literal_i ''rk'', re_literal_i ''pk''])
     (RSeq (re_one_of ''-_'') (RSeq (re_opt (RSeq (re_literal_i ''test'') (re_one_of ''-_'')))
     (RSeq (re_at_least 16 (RChar alnum_i)) REnd))))"

definition GATEWAY_SECRET_PATTERNS :: "regex list" where
  "GATEWAY_SECRET_PATTERNS = [re_gateway_private_key, re_gateway_bearer, re_gateway_key]"

text \<open>\<open>str.isalnum\<close> of one code point up to 255.\<close>

definition latin_alnum :: "char \<Rightarrow> bool" where
  "latin_alnum c = (let n = of_char c in ascii_digit c \<or> ascii_upper c \<or> ascii_lower c \<or>
     n \<in> {170::nat, 178, 179, 181, 185, 186, 188, 189, 190} \<or> (192 \<le> n \<and> n \<noteq> 215 \<and> n \<noteq> 247))"

definition gateway_secret_key :: "string \<Rightarrow> bool" where
  "gateway_secret_key key = list_ex (\<lambda>m. substring_of m (filter latin_alnum (concat (map casefold_char key))))
     GATEWAY_SECRET_MARKERS"

definition gateway_secret_value :: "string \<Rightarrow> bool" where
  "gateway_secret_value s = list_ex (\<lambda>r. re_search r s) GATEWAY_SECRET_PATTERNS"

text \<open>
  What the loop does with the object it pops: an answer, or what is pushed, top first, and the
  containers seen. \<open>extend\<close> leaves the last element on top.
\<close>

definition contains_object :: "pyheap \<Rightarrow> addr \<Rightarrow> addr list \<Rightarrow> (string, bool) result + addr list \<times> addr list" where
  "contains_object h a seen = (case deref h a of
     OStr s \<Rightarrow> if gateway_secret_value s then Inl (Inr True) else Inr ([], seen)
   | OMap items \<Rightarrow>
       if a \<in> set seen then Inl (Inl ''cyclic mappings are unsupported'')
       else if list_ex gateway_secret_key (string_keys (OMap items)) then Inl (Inr True)
       else Inr (rev (map snd items), a # seen)
   | OList xs \<Rightarrow> if a \<in> set seen then Inl (Inl ''cyclic sequences are unsupported'') else Inr (rev xs, a # seen)
   | OTuple xs \<Rightarrow> if a \<in> set seen then Inl (Inl ''cyclic sequences are unsupported'') else Inr (rev xs, a # seen)
   | _ \<Rightarrow> Inr ([], seen))"

partial_function (option) contains_loop :: "pyheap \<Rightarrow> addr list \<Rightarrow> addr list \<Rightarrow> (string, bool) result option" where
  "contains_loop h stack seen = (case stack of
     [] \<Rightarrow> Some (Inr False)
   | a # rest \<Rightarrow> (case contains_object h a seen of
       Inl answer \<Rightarrow> Some answer
     | Inr (pushed, seen') \<Rightarrow> contains_loop h (pushed @ rest) seen'))"

text \<open>The last case does not arise: the loop returns.\<close>

definition contains_secret :: "pyheap \<Rightarrow> addr \<Rightarrow> (string, bool) result" where
  "contains_secret h a = (case contains_loop h [a] [] of Some r \<Rightarrow> r | None \<Rightarrow> Inl ''no answer'')"

subsection \<open>JSON size\<close>

text \<open>
  The length of \<open>json.dumps(value, separators=(",", ":"), sort_keys=True)\<close>, or \<open>None\<close> where it raises.
  Its text is ASCII. Keys are sorted, which needs keys that can be compared: strings with strings,
  and numbers with numbers. The fuel bounds the nesting; the number of objects suffices for a value
  that is not cyclic, and a cyclic value raises.
\<close>

definition json_char_size :: "char \<Rightarrow> nat" where
  "json_char_size c = (let n = of_char c in
     if n \<in> {34::nat, 92, 8, 9, 10, 12, 13} then 2 else if n < 32 \<or> 126 < n then 6 else 1)"

definition json_string_size :: "string \<Rightarrow> nat" where
  "json_string_size s = 2 + sum_list (map json_char_size s)"

definition json_key_size :: "pykey \<Rightarrow> nat option" where
  "json_key_size k = (case k of KStr s \<Rightarrow> Some (json_string_size s) | KScalar t \<Rightarrow> Some (2 + length t) | KOther \<Rightarrow> None)"

definition sortable_keys :: "pykey list \<Rightarrow> bool" where
  "sortable_keys ks = (length ks \<le> 1 \<or> list_all (\<lambda>k. case k of KStr _ \<Rightarrow> True | _ \<Rightarrow> False) ks \<or>
     list_all (\<lambda>k. case k of KScalar t \<Rightarrow> t \<noteq> ''null'' | _ \<Rightarrow> False) ks)"

fun json_size :: "pyheap \<Rightarrow> nat \<Rightarrow> addr \<Rightarrow> nat option" where
  "json_size h 0 a = None"
| "json_size h (Suc n) a = (case deref h a of
     OStr s \<Rightarrow> Some (json_string_size s)
   | OScalar t \<Rightarrow> Some (length t)
   | OMap items \<Rightarrow>
       if \<not> sortable_keys (map fst items) then None
       else map_option (\<lambda>ns. 2 + sum_list ns + (length ns - 1))
         (those (map (\<lambda>(k, b). Option.bind (json_key_size k) (\<lambda>x. map_option (\<lambda>y. x + 1 + y) (json_size h n b))) items))
   | OList xs \<Rightarrow> map_option (\<lambda>ns. 2 + sum_list ns + (length ns - 1)) (those (map (json_size h n) xs))
   | OTuple xs \<Rightarrow> map_option (\<lambda>ns. 2 + sum_list ns + (length ns - 1)) (those (map (json_size h n) xs))
   | _ \<Rightarrow> None)"

definition string_keyed_mapping :: "pyobj \<Rightarrow> bool" where
  "string_keyed_mapping ob = (case ob of
     OMap items \<Rightarrow> list_all (\<lambda>(k, _). case k of KStr _ \<Rightarrow> True | _ \<Rightarrow> False) items | _ \<Rightarrow> False)"

definition frozen_json_mapping :: "pyheap \<Rightarrow> addr \<Rightarrow> string \<Rightarrow> nat \<Rightarrow> (string, unit) result" where
  "frozen_json_mapping h a name max_bytes =
     (if \<not> string_keyed_mapping (deref h a) then Inl (name @ '' must be a string-keyed mapping'')
      else rbind (contains_secret h a) (\<lambda>secret.
        if secret then Inl (name @ '' contains a secret-like key'')
        else case json_size h (length h) a of
          None \<Rightarrow> Inl (name @ '' must contain bounded JSON values'')
        | Some n \<Rightarrow> if n > max_bytes then Inl (name @ '' exceeds the size boundary'') else Inr ()))"

definition required :: "string \<Rightarrow> string \<Rightarrow> (string, unit) result" where
  "required v name = (if \<not> nonblank v then Inl (name @ '' is required'')
     else if length v > 256 then Inl (name @ '' exceeds the size boundary'') else Inr ())"

subsection \<open>Values\<close>

text \<open>\<open>[A-Z][A-Z0-9_]{0,n}\<close> in full.\<close>

definition stable_code :: "nat \<Rightarrow> string \<Rightarrow> bool" where
  "stable_code n s = (case s of [] \<Rightarrow> False
     | c # cs \<Rightarrow> ascii_upper c \<and> length cs \<le> n \<and> list_all (\<lambda>x. ascii_upper x \<or> ascii_digit x \<or> x = CHR ''_'') cs)"

definition native_request_id_init :: "string \<Rightarrow> (string, string) result" where
  "native_request_id_init v = rbind (required v ''provider-native request ID'') (\<lambda>_.
     if gateway_secret_value v then Inl ''provider-native request ID is secret-like'' else Inr v)"

record capability_request =
  cq_capability :: string
  cq_operation :: string
  cq_identity :: string
  cq_arguments :: addr

definition capability_request_init :: "pyheap \<Rightarrow> capability_request \<Rightarrow> (string, capability_request) result" where
  "capability_request_init h q = rbind (required (cq_operation q) ''capability operation'') (\<lambda>_.
     rbind (frozen_json_mapping h (cq_arguments q) ''capability arguments'' MAX_REQUEST_BYTES) (\<lambda>_. Inr q))"

record authorization_context =
  ac_subject :: string
  ac_tenant :: string
  ac_identity :: string
  ac_attributes :: addr

definition authorization_context_init :: "pyheap \<Rightarrow> authorization_context \<Rightarrow> (string, authorization_context) result" where
  "authorization_context_init h c = rbind (required (ac_subject c) ''authorization subject'') (\<lambda>_.
     rbind (required (ac_tenant c) ''authorization tenant'') (\<lambda>_.
     rbind (frozen_json_mapping h (ac_attributes c) ''authorization attributes'' MAX_REQUEST_BYTES) (\<lambda>_. Inr c)))"

datatype authorization_decision = ALLOW | DENY

definition decision_reason_init :: "string \<Rightarrow> (string, string) result" where
  "decision_reason_init code = rbind (required code ''decision reason'') (\<lambda>_.
     if \<not> stable_code 63 code then Inl ''decision reason must be a stable code'' else Inr code)"

text \<open>
  What the authorization port does: it raises, returns nothing, something else, or a result whose
  decisions are members of the enumeration or not.
\<close>

datatype authorization_answer = AuthRaised | AuthMissing | AuthMalformed
  | AuthResult "authorization_decision option list" string

datatype capability_status = S_SUCCEEDED | S_FAILED | S_DENIED | S_INDETERMINATE

datatype ambiguity = A_NONE | A_TIMEOUT_EFFECT_UNKNOWN | A_TRANSPORT_EFFECT_UNKNOWN

record invocation_evidence =
  ie_attempts :: nat
  ie_http_status :: "int option"
  ie_result :: "(pyheap \<times> addr) option"

definition invocation_evidence_init :: "invocation_evidence \<Rightarrow> (string, invocation_evidence) result" where
  "invocation_evidence_init e =
     (if ie_attempts e \<notin> {0, 1} then Inl ''invocation evidence must contain zero or one attempt''
      else case ie_result e of None \<Rightarrow> Inr e
        | Some (h, a) \<Rightarrow> rbind (frozen_json_mapping h a ''result evidence'' MAX_EVIDENCE_BYTES) (\<lambda>_. Inr e))"

record capability_outcome =
  co_identity :: string
  co_capability :: string
  co_provider :: string
  co_authorization :: authorization_decision
  co_status :: capability_status
  co_diagnostic :: string
  co_invocation :: invocation_evidence
  co_ambiguity :: ambiguity
  co_native_request_id :: "string option"
  co_retry_safe :: bool

definition capability_outcome_init :: "capability_outcome \<Rightarrow> (string, capability_outcome) result" where
  "capability_outcome_init x = rbind (required (co_diagnostic x) ''stable diagnostic'') (\<lambda>_.
     if \<not> stable_code 127 (co_diagnostic x) then Inl ''diagnostic must be a stable bounded code''
     else if co_native_request_id x = Some (co_identity x) then Inl ''native request ID cannot replace Platform identity''
     else Inr x)"

definition plain_evidence :: "nat \<Rightarrow> invocation_evidence" where
  "plain_evidence n = \<lparr>ie_attempts = n, ie_http_status = None, ie_result = None\<rparr>"

subsection \<open>The gateway\<close>

datatype provider_answer = ProviderRaised | NotAnOutcome | Outcome capability_outcome

type_synonym 'w capability_provider = "'w \<Rightarrow> pyheap \<Rightarrow> capability_request \<Rightarrow> 'w \<times> provider_answer"

type_synonym authorization_port = "capability_request \<Rightarrow> authorization_context \<Rightarrow> authorization_answer"

definition gateway_denied :: "string \<Rightarrow> capability_request \<Rightarrow> string \<Rightarrow> (string, capability_outcome) result" where
  "gateway_denied provider q diagnostic = capability_outcome_init \<lparr>co_identity = cq_identity q,
     co_capability = cq_capability q, co_provider = provider, co_authorization = DENY, co_status = S_DENIED,
     co_diagnostic = diagnostic, co_invocation = plain_evidence 0, co_ambiguity = A_NONE,
     co_native_request_id = None, co_retry_safe = False\<rparr>"

definition gateway_failed :: "string \<Rightarrow> capability_request \<Rightarrow> string \<Rightarrow> (string, capability_outcome) result" where
  "gateway_failed provider q diagnostic = capability_outcome_init \<lparr>co_identity = cq_identity q,
     co_capability = cq_capability q, co_provider = provider, co_authorization = ALLOW, co_status = S_FAILED,
     co_diagnostic = diagnostic, co_invocation = plain_evidence 1, co_ambiguity = A_NONE,
     co_native_request_id = None, co_retry_safe = False\<rparr>"

definition gateway_execute ::
  "authorization_port \<Rightarrow> string \<Rightarrow> 'w capability_provider \<Rightarrow> pyheap \<Rightarrow> 'w \<Rightarrow> capability_request
   \<Rightarrow> authorization_context \<Rightarrow> 'w \<times> (string, capability_outcome) result" where
  "gateway_execute decide provider invoke h w q ctx =
     (if ac_identity ctx \<noteq> cq_identity q then (w, gateway_denied provider q ''AUTHORIZATION_CONTEXT_INVALID'')
      else case decide q ctx of
        AuthRaised \<Rightarrow> (w, gateway_denied provider q ''AUTHORIZATION_DECISION_UNAVAILABLE'')
      | AuthMissing \<Rightarrow> (w, gateway_denied provider q ''AUTHORIZATION_DECISION_MISSING'')
      | AuthMalformed \<Rightarrow> (w, gateway_denied provider q ''AUTHORIZATION_DECISION_MALFORMED'')
      | AuthResult decisions code \<Rightarrow>
          if length decisions \<noteq> 1 then (w, gateway_denied provider q ''AUTHORIZATION_DECISION_AMBIGUOUS'')
          else case hd decisions of
            None \<Rightarrow> (w, gateway_denied provider q ''AUTHORIZATION_DECISION_UNKNOWN'')
          | Some DENY \<Rightarrow> (w, gateway_denied provider q (''DENIED_'' @ code))
          | Some ALLOW \<Rightarrow> (case invoke w h q of
              (w', ProviderRaised) \<Rightarrow> (w', gateway_failed provider q ''PROVIDER_INVOCATION_FAILED_REDACTED'')
            | (w', NotAnOutcome) \<Rightarrow> (w', gateway_failed provider q ''PROVIDER_EVIDENCE_INVALID'')
            | (w', Outcome x) \<Rightarrow>
                if co_identity x \<noteq> cq_identity q \<or> co_capability x \<noteq> cq_capability q \<or> co_provider x \<noteq> provider \<or>
                   co_authorization x \<noteq> ALLOW
                then (w', gateway_failed provider q ''PROVIDER_EVIDENCE_INVALID'') else (w', Inr x)))"

subsection \<open>The REST provider\<close>

record rest_configuration =
  rp_provider :: string
  rp_target :: string
  rp_allowed_operations :: "string list"
  rp_method :: string
  rp_headers :: "(string, string) dict"

record rest_request =
  rr_provider :: string
  rr_identity :: string
  rr_method :: string
  rr_target :: string
  rr_headers :: "(string, string) dict"
  rr_body :: "pyheap \<times> addr"

definition headers_secret :: "(string, string) dict \<Rightarrow> bool" where
  "headers_secret hs = list_ex (\<lambda>(k, v). gateway_secret_key k \<or> gateway_secret_value v) hs"

definition rest_request_init :: "rest_request \<Rightarrow> (string, rest_request) result" where
  "rest_request_init r =
     (if rr_method r \<notin> {''GET'', ''POST'', ''PUT'', ''PATCH'', ''DELETE''} then Inl ''REST method is unsupported''
      else rbind (required (rr_target r) ''REST target'') (\<lambda>_.
        if length (rr_headers r) > MAX_HEADERS \<or>
           list_ex (\<lambda>(k, v). length k > MAX_HEADER_LENGTH \<or> length v > MAX_HEADER_LENGTH) (rr_headers r) \<or>
           headers_secret (rr_headers r)
        then Inl ''REST headers are invalid or secret-like''
        else rbind (frozen_json_mapping (fst (rr_body r)) (snd (rr_body r)) ''REST body'' MAX_REQUEST_BYTES) (\<lambda>_. Inr r)))"

record rest_response =
  rs_status_code :: int
  rs_body :: "pyheap \<times> addr"
  rs_native_request_id :: "string option"
  rs_content_type :: string

datatype transport_answer = Responded rest_response | NotAResponse | TransportTimeout | TransportAmbiguity | TransportRaised

type_synonym 'w rest_transport = "'w \<Rightarrow> rest_request \<Rightarrow> 'w \<times> transport_answer"

text \<open>The body \<open>{"operation": ..., "arguments": dict(arguments)}\<close> is made of new objects.\<close>

definition rest_body :: "pyheap \<Rightarrow> capability_request \<Rightarrow> pyheap \<times> addr" where
  "rest_body h q = (let n = length h in
     (h @ [OStr (cq_operation q), deref h (cq_arguments q), OMap [(KStr ''operation'', n), (KStr ''arguments'', n + 1)]], n + 2))"

definition rest_answer :: "capability_outcome \<Rightarrow> provider_answer" where
  "rest_answer x = (case capability_outcome_init x of Inl _ \<Rightarrow> ProviderRaised | Inr y \<Rightarrow> Outcome y)"

definition rest_outcome ::
  "rest_configuration \<Rightarrow> capability_request \<Rightarrow> capability_status \<Rightarrow> string \<Rightarrow> ambiguity \<Rightarrow> nat \<Rightarrow> provider_answer" where
  "rest_outcome conf q st diagnostic amb attempts = rest_answer \<lparr>co_identity = cq_identity q,
     co_capability = cq_capability q, co_provider = rp_provider conf, co_authorization = ALLOW, co_status = st,
     co_diagnostic = diagnostic, co_invocation = plain_evidence attempts, co_ambiguity = amb,
     co_native_request_id = None, co_retry_safe = False\<rparr>"

definition rest_classify :: "int \<Rightarrow> capability_status \<times> string" where
  "rest_classify code = (if 200 \<le> code \<and> code < 300 then (S_SUCCEEDED, ''CAPABILITY_INVOCATION_SUCCEEDED'')
     else if 400 \<le> code \<and> code < 500 then (S_FAILED, ''PROVIDER_CLIENT_ERROR'')
     else if 500 \<le> code \<and> code < 600 then (S_FAILED, ''PROVIDER_SERVER_ERROR'')
     else (S_FAILED, ''PROVIDER_RESPONSE_MALFORMED''))"

definition rest_respond :: "rest_configuration \<Rightarrow> capability_request \<Rightarrow> rest_response \<Rightarrow> provider_answer" where
  "rest_respond conf q rs =
     (if \<not> is_ok (frozen_json_mapping (fst (rs_body rs)) (snd (rs_body rs)) ''REST response'' MAX_EVIDENCE_BYTES)
        then rest_outcome conf q S_FAILED ''PROVIDER_RESPONSE_MALFORMED'' A_NONE 1
      else if rs_native_request_id rs = Some (cq_identity q)
        then rest_outcome conf q S_FAILED ''PROVIDER_NATIVE_ID_INVALID'' A_NONE 1
      else if rs_content_type rs \<noteq> ''application/json''
        then rest_outcome conf q S_FAILED ''PROVIDER_CONTENT_UNSUPPORTED'' A_NONE 1
      else case invocation_evidence_init \<lparr>ie_attempts = 1, ie_http_status = Some (rs_status_code rs),
          ie_result = (if 200 \<le> rs_status_code rs \<and> rs_status_code rs < 300 then Some (rs_body rs) else None)\<rparr> of
        Inl _ \<Rightarrow> rest_outcome conf q S_FAILED ''PROVIDER_RESPONSE_MALFORMED'' A_NONE 1
      | Inr evidence \<Rightarrow> (case rest_classify (rs_status_code rs) of (st, diagnostic) \<Rightarrow>
          rest_answer \<lparr>co_identity = cq_identity q, co_capability = cq_capability q, co_provider = rp_provider conf,
            co_authorization = ALLOW, co_status = st, co_diagnostic = diagnostic, co_invocation = evidence,
            co_ambiguity = A_NONE, co_native_request_id = rs_native_request_id rs, co_retry_safe = False\<rparr>))"

definition rest_invoke :: "rest_configuration \<Rightarrow> 'w rest_transport \<Rightarrow> 'w capability_provider" where
  "rest_invoke conf send w h q =
     (if cq_operation q \<notin> set (rp_allowed_operations conf)
        then (w, rest_outcome conf q S_FAILED ''REST_OPERATION_UNAUTHORIZED'' A_NONE 0)
      else case rest_request_init \<lparr>rr_provider = rp_provider conf, rr_identity = cq_identity q, rr_method = rp_method conf,
          rr_target = rp_target conf, rr_headers = rp_headers conf, rr_body = rest_body h q\<rparr> of
        Inl _ \<Rightarrow> (w, ProviderRaised)
      | Inr r \<Rightarrow> (case send w r of
          (w', TransportTimeout) \<Rightarrow>
            (w', rest_outcome conf q S_INDETERMINATE ''PROVIDER_TIMEOUT_EFFECT_UNKNOWN'' A_TIMEOUT_EFFECT_UNKNOWN 1)
        | (w', TransportAmbiguity) \<Rightarrow>
            (w', rest_outcome conf q S_INDETERMINATE ''PROVIDER_TRANSPORT_EFFECT_UNKNOWN'' A_TRANSPORT_EFFECT_UNKNOWN 1)
        | (w', TransportRaised) \<Rightarrow> (w', rest_outcome conf q S_FAILED ''PROVIDER_TRANSPORT_FAILED_REDACTED'' A_NONE 1)
        | (w', NotAResponse) \<Rightarrow> (w', rest_outcome conf q S_FAILED ''PROVIDER_RESPONSE_MALFORMED'' A_NONE 1)
        | (w', Responded rs) \<Rightarrow> (w', rest_respond conf q rs)))"

subsection \<open>The scanner returns, and what it returns\<close>

definition gateway_secret :: "pyobj \<Rightarrow> bool" where
  "gateway_secret ob = (case ob of OStr s \<Rightarrow> gateway_secret_value s | _ \<Rightarrow> list_ex gateway_secret_key (string_keys ob))"

lemma gateway_secret_simps [simp]:
  "gateway_secret (OStr s) = gateway_secret_value s" "gateway_secret (OList xs) = False" "gateway_secret (OTuple xs) = False"
  "gateway_secret (OMap items) = list_ex gateway_secret_key (string_keys (OMap items))"
  "gateway_secret (OScalar t) = False" "gateway_secret OBytes = False" "gateway_secret OOpaque = False"
  by (simp_all add: gateway_secret_def string_keys_def)

lemma deref_live: "deref h a \<noteq> OOpaque \<Longrightarrow> a < length h"
  by (auto simp: deref_def split: if_splits)

lemma contains_object_continue:
  "contains_object h a seen = Inr (pushed, seen') \<Longrightarrow>
     \<not> gateway_secret (deref h a) \<and> set pushed = set (children (deref h a)) \<and>
     ((pushed = [] \<and> seen' = seen) \<or> (a < length h \<and> a \<notin> set seen \<and> seen' = a # seen))"
  using deref_live [of h a]
  by (cases "deref h a") (simp_all add: contains_object_def split: if_splits, auto, force)

lemma contains_object_answer:
  "contains_object h a seen = Inl ans \<Longrightarrow> ans \<noteq> Inr False \<and> (ans = Inr True \<longrightarrow> gateway_secret (deref h a))"
  by (cases "deref h a") (auto simp: contains_object_def split: if_splits)

lemma contains_loop_simps [simp]:
  "contains_loop h [] seen = Some (Inr False)"
  "contains_loop h (a # rest) seen = (case contains_object h a seen of Inl answer \<Rightarrow> Some answer
     | Inr (pushed, seen') \<Rightarrow> contains_loop h (pushed @ rest) seen')"
  by (subst contains_loop.simps, simp)+

text \<open>Each turn removes a container from those not seen, or shortens the stack.\<close>

lemma contains_loop_returns: "\<exists>ans. contains_loop h stack seen = Some ans"
proof (induction "(stack, seen)" arbitrary: stack seen rule: wf_induct_rule [OF wf_measures
    [of "[\<lambda>(stack, seen). card ({..<length h} - set seen), \<lambda>(stack, seen). length stack]"]])
  case 1
  show ?case
  proof (cases stack)
    case (Cons a rest)
    show ?thesis
    proof (cases "contains_object h a seen")
      case (Inr p)
      obtain pushed seen' where p: "p = (pushed, seen')" by (cases p)
      consider "pushed = []" "seen' = seen" | "a < length h" "a \<notin> set seen" "seen' = a # seen"
        using contains_object_continue [OF Inr [unfolded p]] by blast
      then have "((pushed @ rest, seen'), (stack, seen)) \<in> measures [\<lambda>(stack, seen). card ({..<length h} - set seen), \<lambda>(stack, seen). length stack]"
      proof cases
        case 2
        have "card ({..<length h} - insert a (set seen)) < card ({..<length h} - set seen)"
          by (rule psubset_card_mono) (use 2 in auto)
        then show ?thesis using 2 by simp
      qed (use Cons in simp)
      then have "\<exists>ans. contains_loop h (pushed @ rest) seen' = Some ans" by (rule 1)
      then show ?thesis using Cons Inr p by simp
    qed (use Cons in simp)
  qed simp
qed

definition closed_clean :: "pyheap \<Rightarrow> addr set \<Rightarrow> bool" where
  "closed_clean h V = (\<forall>x \<in> V. \<not> gateway_secret (deref h x) \<and> set (children (deref h x)) \<subseteq> V)"

lemma contains_loop_false:
  assumes "contains_loop h stack seen = Some (Inr False)"
  shows "\<exists>V. set stack \<subseteq> V \<and> closed_clean h V"
proof -
  have "ans = Inr False \<longrightarrow> (\<exists>V. set stack \<subseteq> V \<and> closed_clean h V)" if "contains_loop h stack seen = Some ans" for ans
  proof (rule contains_loop.raw_induct [where P = "\<lambda>h stack seen ans. ans = Inr False \<longrightarrow> (\<exists>V. set stack \<subseteq> V \<and> closed_clean h V)",
      OF _ that], intro impI)
    fix loop h stack seen ans
    assume IH: "\<And>h stack seen ans. loop h stack seen = Some ans \<Longrightarrow> ans = Inr False \<longrightarrow> (\<exists>V. set stack \<subseteq> V \<and> closed_clean h V)"
      and body: "(case stack of [] \<Rightarrow> Some (Inr False) | a # rest \<Rightarrow> (case contains_object h a seen of Inl answer \<Rightarrow> Some answer
        | Inr (pushed, seen') \<Rightarrow> loop h (pushed @ rest) seen')) = Some ans" and "ans = Inr False"
    show "\<exists>V. set stack \<subseteq> V \<and> closed_clean h V"
    proof (cases stack)
      case (Cons a rest)
      then obtain pushed seen' where ob: "contains_object h a seen = Inr (pushed, seen')"
          and l: "loop h (pushed @ rest) seen' = Some (Inr False)"
        using body \<open>ans = Inr False\<close> by (auto split: sum.splits dest: contains_object_answer)
      obtain V where "set (pushed @ rest) \<subseteq> V" "closed_clean h V" using IH [OF l] by blast
      then show ?thesis using contains_object_continue [OF ob] Cons
        by (intro exI [of _ "insert a V"]) (auto simp: closed_clean_def)
    qed (auto simp: closed_clean_def)
  qed
  then show ?thesis using assms by blast
qed

lemma contains_loop_true:
  assumes "contains_loop h stack seen = Some (Inr True)" and "\<forall>x \<in> set stack. reaches h r x"
  shows "\<exists>b. reaches h r b \<and> gateway_secret (deref h b)"
proof -
  let ?P = "\<lambda>h stack ans. ans = Inr True \<longrightarrow> (\<forall>x \<in> set stack. reaches h r x) \<longrightarrow> (\<exists>b. reaches h r b \<and> gateway_secret (deref h b))"
  have "?P h stack ans" if "contains_loop h stack seen = Some ans" for ans
  proof (rule contains_loop.raw_induct [where P = "\<lambda>h stack seen ans. ?P h stack ans", OF _ that], intro impI)
    fix loop h stack seen ans
    assume IH: "\<And>h stack seen ans. loop h stack seen = Some ans \<Longrightarrow> ?P h stack ans"
      and body: "(case stack of [] \<Rightarrow> Some (Inr False) | a # rest \<Rightarrow> (case contains_object h a seen of Inl answer \<Rightarrow> Some answer
        | Inr (pushed, seen') \<Rightarrow> loop h (pushed @ rest) seen')) = Some ans"
      and t: "ans = Inr True" and st: "\<forall>x \<in> set stack. reaches h r x"
    then obtain a rest where Cons: "stack = a # rest" by (cases stack) auto
    have a: "reaches h r a" using st Cons by simp
    show "\<exists>b. reaches h r b \<and> gateway_secret (deref h b)"
    proof (cases "contains_object h a seen")
      case (Inl x)
      then show ?thesis using body t Cons a contains_object_answer by fastforce
    next
      case (Inr p)
      obtain pushed seen' where p: "p = (pushed, seen')" by (cases p)
      then have "\<forall>x \<in> set (pushed @ rest). reaches h r x"
        using contains_object_continue [OF Inr [unfolded p]] st Cons reaches_child [OF a] by auto
      moreover have "loop h (pushed @ rest) seen' = Some ans" using body Cons Inr p by simp
      ultimately show ?thesis using IH t by blast
    qed
  qed
  then show ?thesis using assms by blast
qed

text \<open>
  C33: the scanner of the models returns for every value, also for one that contains itself; when it
  answers false, nothing the value reaches is secret-like, and when it answers true, something is.
\<close>

theorem contains_secret_returns:
  "\<exists>ans. contains_loop h [a] [] = Some ans \<and> contains_secret h a = ans \<and>
     (ans = Inr False \<longrightarrow> (\<forall>b. reaches h a b \<longrightarrow> \<not> gateway_secret (deref h b))) \<and>
     (ans = Inr True \<longrightarrow> (\<exists>b. reaches h a b \<and> gateway_secret (deref h b)))"
proof -
  obtain ans where ans: "contains_loop h [a] [] = Some ans" using contains_loop_returns by blast
  have "\<not> gateway_secret (deref h b)" if "ans = Inr False" "reaches h a b" for b
  proof -
    obtain V where "a \<in> V" "closed_clean h V" using contains_loop_false [of h "[a]" "[]"] ans \<open>ans = Inr False\<close> by auto
    then show ?thesis using reaches_closed [OF that(2), of V] by (auto simp: closed_clean_def)
  qed
  moreover have "\<exists>b. reaches h a b \<and> gateway_secret (deref h b)" if "ans = Inr True"
    using contains_loop_true [of h "[a]" "[]" a] ans that by (simp add: reaches_self)
  ultimately show ?thesis using ans by (auto simp: contains_secret_def)
qed

subsection \<open>Outcomes that are constructed\<close>

lemma upper_not_space: "ascii_upper c \<Longrightarrow> \<not> py_space c"
  by (auto simp: ascii_upper_def py_space_def Let_def)

lemma stable_code_outcome:
  assumes "stable_code 127 (co_diagnostic x)" and "co_native_request_id x \<noteq> Some (co_identity x)"
  shows "capability_outcome_init x = Inr x"
proof -
  obtain c cs where "co_diagnostic x = c # cs" "ascii_upper c" "length cs \<le> 127"
    using assms(1) by (auto simp: stable_code_def split: list.splits)
  then show ?thesis using assms upper_not_space
    by (auto simp: capability_outcome_init_def required_def nonblank_iff)
qed

lemma capability_outcome_init_same: "capability_outcome_init x = Inr y \<Longrightarrow> y = x"
  by (auto simp: capability_outcome_init_def split: if_splits)

lemma denied_code_stable: "stable_code 63 code \<Longrightarrow> stable_code 127 (''DENIED_'' @ code)"
  by (auto simp: stable_code_def ascii_upper_def ascii_digit_def list_all_iff split: list.splits)

lemma gateway_codes_stable:
  "list_all (stable_code 127) [''AUTHORIZATION_CONTEXT_INVALID'', ''AUTHORIZATION_DECISION_UNAVAILABLE'',
     ''AUTHORIZATION_DECISION_MISSING'', ''AUTHORIZATION_DECISION_MALFORMED'', ''AUTHORIZATION_DECISION_AMBIGUOUS'',
     ''AUTHORIZATION_DECISION_UNKNOWN'', ''PROVIDER_INVOCATION_FAILED_REDACTED'', ''PROVIDER_EVIDENCE_INVALID'',
     ''REST_OPERATION_UNAUTHORIZED'', ''PROVIDER_TIMEOUT_EFFECT_UNKNOWN'', ''PROVIDER_TRANSPORT_EFFECT_UNKNOWN'',
     ''PROVIDER_TRANSPORT_FAILED_REDACTED'', ''PROVIDER_RESPONSE_MALFORMED'', ''PROVIDER_NATIVE_ID_INVALID'',
     ''PROVIDER_CONTENT_UNSUPPORTED'', ''CAPABILITY_INVOCATION_SUCCEEDED'', ''PROVIDER_CLIENT_ERROR'', ''PROVIDER_SERVER_ERROR'']"
  by (simp add: stable_code_def ascii_upper_def ascii_digit_def)

lemmas stable_codes = gateway_codes_stable [simplified]

lemma gateway_denied_constructs:
  assumes "stable_code 127 diagnostic"
  shows "\<exists>x. gateway_denied provider q diagnostic = Inr x \<and> co_identity x = cq_identity q \<and> co_capability x = cq_capability q \<and>
    co_provider x = provider \<and> co_authorization x = DENY \<and> co_status x = S_DENIED \<and> ie_attempts (co_invocation x) = 0 \<and>
    \<not> co_retry_safe x"
  using assms by (simp add: gateway_denied_def stable_code_outcome plain_evidence_def)

lemma gateway_failed_constructs:
  assumes "stable_code 127 diagnostic"
  shows "\<exists>x. gateway_failed provider q diagnostic = Inr x \<and> co_identity x = cq_identity q \<and> co_capability x = cq_capability q \<and>
    co_provider x = provider \<and> co_authorization x = ALLOW \<and> co_status x = S_FAILED \<and> ie_attempts (co_invocation x) = 1 \<and>
    \<not> co_retry_safe x"
  using assms by (simp add: gateway_failed_def stable_code_outcome plain_evidence_def)

subsection \<open>The contract of a provider\<close>

text \<open>
  The trace is what the provider has sent so far. A provider sends at most one request for an
  invocation, reports in its outcome exactly how many it sent, does not ask for a retry, and an
  outcome that succeeded was sent.
\<close>

locale provider_contract =
  fixes invoke :: "'w capability_provider"
    and trace :: "'w \<Rightarrow> 'e list"
    and sendable :: "capability_request \<Rightarrow> 'e \<Rightarrow> bool"
  assumes sends_at_most_one: "invoke w h q = (w', ans) \<Longrightarrow> \<exists>sent. trace w' = trace w @ sent \<and> length sent \<le> 1 \<and> list_all (sendable q) sent"
    and reports_attempts: "invoke w h q = (w', Outcome x) \<Longrightarrow> length (trace w') = length (trace w) + ie_attempts (co_invocation x)"
    and never_retry_safe: "invoke w h q = (w', Outcome x) \<Longrightarrow> \<not> co_retry_safe x"
    and success_was_sent: "invoke w h q = (w', Outcome x) \<Longrightarrow> co_status x = S_SUCCEEDED \<Longrightarrow> ie_attempts (co_invocation x) = 1"
    and never_denies: "invoke w h q = (w', Outcome x) \<Longrightarrow> co_status x \<noteq> S_DENIED"
begin

definition allowed :: "authorization_port \<Rightarrow> capability_request \<Rightarrow> authorization_context \<Rightarrow> bool" where
  "allowed decide q ctx = (ac_identity ctx = cq_identity q \<and> (\<exists>code. decide q ctx = AuthResult [Some ALLOW] code))"

lemma execute_not_allowed:
  assumes "\<not> allowed decide q ctx" and "\<And>ds code. decide q ctx = AuthResult ds code \<Longrightarrow> stable_code 63 code"
  shows "\<exists>x. gateway_execute decide provider invoke h w q ctx = (w, Inr x) \<and> co_identity x = cq_identity q \<and>
    co_capability x = cq_capability q \<and> co_provider x = provider \<and>
    co_authorization x = DENY \<and> co_status x = S_DENIED \<and> ie_attempts (co_invocation x) = 0 \<and> \<not> co_retry_safe x"
proof (cases "ac_identity ctx = cq_identity q")
  case False
  then show ?thesis using gateway_denied_constructs stable_codes by (simp add: gateway_execute_def)
next
  case True
  show ?thesis
  proof (cases "decide q ctx")
    case (AuthResult ds code)
    show ?thesis
    proof (cases "length ds = 1")
      case one: True
      then obtain d where d: "ds = [d]" by (auto simp: length_Suc_conv)
      then have "d = None \<or> d = Some DENY" using assms(1) True AuthResult by (cases d; auto simp: allowed_def intro: authorization_decision.exhaust)
      then show ?thesis using True AuthResult d assms(2) [OF AuthResult] gateway_denied_constructs stable_codes denied_code_stable
        by (auto simp: gateway_execute_def)
    qed (use True AuthResult gateway_denied_constructs stable_codes in \<open>simp add: gateway_execute_def\<close>)
  qed (use True gateway_denied_constructs stable_codes in \<open>simp_all add: gateway_execute_def\<close>)
qed

lemma execute_allowed:
  assumes "allowed decide q ctx" and inv: "invoke w h q = (w', ans)"
  shows "\<exists>x. gateway_execute decide provider invoke h w q ctx = (w', Inr x) \<and> co_identity x = cq_identity q \<and>
    co_capability x = cq_capability q \<and> co_provider x = provider \<and>
    co_authorization x = ALLOW \<and> co_status x \<noteq> S_DENIED \<and> \<not> co_retry_safe x \<and>
    length (trace w') \<le> length (trace w) + ie_attempts (co_invocation x) \<and> ie_attempts (co_invocation x) \<le> 1 \<and>
    (co_status x = S_SUCCEEDED \<longrightarrow> length (trace w') = length (trace w) + 1)"
proof -
  obtain code where d: "ac_identity ctx = cq_identity q" "decide q ctx = AuthResult [Some ALLOW] code"
    using assms(1) by (auto simp: allowed_def)
  have one: "length (trace w') \<le> length (trace w) + 1" using sends_at_most_one [OF inv] by auto
  have failed: ?thesis if "gateway_execute decide provider invoke h w q ctx = (w', gateway_failed provider q diagnostic)"
    and "stable_code 127 diagnostic" for diagnostic
    using gateway_failed_constructs [OF that(2), of provider q] that(1) one by fastforce
  show ?thesis
  proof (cases ans)
    case (Outcome x)
    then have o: "invoke w h q = (w', Outcome x)" using inv by simp
    have "ie_attempts (co_invocation x) \<le> 1" using reports_attempts [OF o] sends_at_most_one [OF o] by auto
    then show ?thesis
      using failed [of "''PROVIDER_EVIDENCE_INVALID''"] d o stable_codes reports_attempts [OF o] never_retry_safe [OF o]
        success_was_sent [OF o] never_denies [OF o]
      by (cases "co_identity x \<noteq> cq_identity q \<or> co_capability x \<noteq> cq_capability q \<or> co_provider x \<noteq> provider \<or> co_authorization x \<noteq> ALLOW")
        (auto simp: gateway_execute_def)
  qed (use failed d inv stable_codes in \<open>auto simp: gateway_execute_def\<close>)
qed

end

subsection \<open>The REST provider keeps the contract\<close>

definition logged_transport :: "'w rest_transport \<Rightarrow> ('w \<times> rest_request list) rest_transport" where
  "logged_transport send s r = (case send (fst s) r of (w, ans) \<Rightarrow> ((w, snd s @ [r]), ans))"

definition rest_sendable :: "rest_configuration \<Rightarrow> capability_request \<Rightarrow> rest_request \<Rightarrow> bool" where
  "rest_sendable conf q r = (cq_operation q \<in> set (rp_allowed_operations conf) \<and> rr_provider r = rp_provider conf \<and>
     rr_identity r = cq_identity q \<and> rr_target r = rp_target conf \<and> rest_request_init r = Inr r)"

lemma rest_request_init_same: "rest_request_init r = Inr r' \<Longrightarrow> r' = r"
  by (auto simp: rest_request_init_def split: if_splits)

lemma rest_answer_outcome: "rest_answer x = Outcome y \<Longrightarrow> y = x"
  by (auto simp: rest_answer_def dest: capability_outcome_init_same split: sum.splits)

lemma rest_outcome_outcome:
  "rest_outcome conf q st diagnostic amb n = Outcome x \<Longrightarrow>
     ie_attempts (co_invocation x) = n \<and> \<not> co_retry_safe x \<and> co_status x = st"
  by (auto simp: rest_outcome_def plain_evidence_def dest!: rest_answer_outcome)

lemma rest_respond_outcome:
  "rest_respond conf q rs = Outcome x \<Longrightarrow>
     ie_attempts (co_invocation x) = 1 \<and> \<not> co_retry_safe x \<and> co_status x \<noteq> S_DENIED"
  by (auto simp: rest_respond_def rest_classify_def invocation_evidence_init_def
    split: if_splits sum.splits option.splits prod.splits dest!: rest_outcome_outcome rest_answer_outcome)

lemma rest_invoke_cases:
  assumes "rest_invoke conf (logged_transport send) (w, l) h q = (s', ans)"
  obtains (kept) "s' = (w, l)" "\<And>x. ans = Outcome x \<Longrightarrow> ie_attempts (co_invocation x) = 0 \<and> \<not> co_retry_safe x \<and> co_status x = S_FAILED"
  | (sent) w' r where "s' = (w', l @ [r])" "rest_sendable conf q r"
      "\<And>x. ans = Outcome x \<Longrightarrow> ie_attempts (co_invocation x) = 1 \<and> \<not> co_retry_safe x \<and> co_status x \<noteq> S_DENIED"
proof (cases "cq_operation q \<in> set (rp_allowed_operations conf)")
  case False
  then show ?thesis using assms kept rest_outcome_outcome by (auto simp: rest_invoke_def)
next
  case op: True
  let ?r = "\<lparr>rr_provider = rp_provider conf, rr_identity = cq_identity q, rr_method = rp_method conf,
    rr_target = rp_target conf, rr_headers = rp_headers conf, rr_body = rest_body h q\<rparr>"
  show ?thesis
  proof (cases "rest_request_init ?r")
    case (Inl e)
    then show ?thesis using assms op kept by (simp add: rest_invoke_def)
  next
    case (Inr r)
    then have r: "r = ?r" by (rule rest_request_init_same)
    then have "rest_sendable conf q r" using Inr op by (simp add: rest_sendable_def)
    moreover obtain w' t where t: "send w r = (w', t)" by (cases "send w r")
    moreover have "s' = (w', l @ [r])" "\<And>x. ans = Outcome x \<Longrightarrow>
        ie_attempts (co_invocation x) = 1 \<and> \<not> co_retry_safe x \<and> co_status x \<noteq> S_DENIED"
      using assms op Inr t rest_respond_outcome
      by (auto simp: rest_invoke_def logged_transport_def split: transport_answer.splits dest!: rest_outcome_outcome)
    ultimately show ?thesis using sent by blast
  qed
qed

interpretation rest: provider_contract "rest_invoke conf (logged_transport send)" snd "rest_sendable conf"
  for conf and send :: "'w rest_transport"
proof
  fix w w' :: "'w \<times> rest_request list" and h q ans x
  obtain u l where w: "w = (u, l)" by (cases w)
  show "\<exists>sent. snd w' = snd w @ sent \<and> length sent \<le> 1 \<and> list_all (rest_sendable conf q) sent"
    if "rest_invoke conf (logged_transport send) w h q = (w', ans)"
    using that unfolding w by (cases rule: rest_invoke_cases) auto
  assume "rest_invoke conf (logged_transport send) w h q = (w', Outcome x)"
  then show "length (snd w') = length (snd w) + ie_attempts (co_invocation x)" "\<not> co_retry_safe x"
    "co_status x = S_SUCCEEDED \<Longrightarrow> ie_attempts (co_invocation x) = 1" "co_status x \<noteq> S_DENIED"
    unfolding w by (cases rule: rest_invoke_cases; force)+
qed

lemma rest_execution_authorized:
  fixes send :: "'w rest_transport"
  assumes reason: "\<And>ds code. decide q ctx = AuthResult ds code \<Longrightarrow> is_ok (decision_reason_init code)"
  shows "\<exists>s' x sent. gateway_execute decide (rp_provider conf) (rest_invoke conf (logged_transport send)) h (w, l) q ctx = (s', Inr x) \<and>
    co_identity x = cq_identity q \<and> co_capability x = cq_capability q \<and> co_provider x = rp_provider conf \<and> \<not> co_retry_safe x \<and>
    snd s' = l @ sent \<and> list_all (rest_sendable conf q) sent \<and> length sent \<le> ie_attempts (co_invocation x) \<and> ie_attempts (co_invocation x) \<le> 1 \<and>
    (if ac_identity ctx = cq_identity q \<and> (\<exists>code. decide q ctx = AuthResult [Some ALLOW] code)
     then co_authorization x = ALLOW \<and> co_status x \<noteq> S_DENIED \<and> (co_status x = S_SUCCEEDED \<longrightarrow> length sent = 1)
     else s' = (w, l) \<and> co_authorization x = DENY \<and> co_status x = S_DENIED \<and> ie_attempts (co_invocation x) = 0)"
proof (cases "rest.allowed decide q ctx")
  case False
  have "stable_code 63 code" if "decide q ctx = AuthResult ds code" for ds code
    using reason [OF that] by (auto simp: decision_reason_init_def is_ok_def split: sum.splits if_splits)
  then obtain x where "gateway_execute decide (rp_provider conf) (rest_invoke conf (logged_transport send)) h (w, l) q ctx = ((w, l), Inr x)"
    "co_identity x = cq_identity q" "co_capability x = cq_capability q" "co_provider x = rp_provider conf" "co_authorization x = DENY"
    "co_status x = S_DENIED" "ie_attempts (co_invocation x) = 0" "\<not> co_retry_safe x"
    using rest.execute_not_allowed [OF False, where provider = "rp_provider conf" and conf = conf and send = send and h = h and w = "(w, l)"]
    by blast
  then show ?thesis using False by (auto simp: rest.allowed_def)
next
  case True
  obtain s' ans where inv: "rest_invoke conf (logged_transport send) (w, l) h q = (s', ans)" by (metis surj_pair)
  obtain sent where "snd s' = l @ sent" "length sent \<le> 1" "list_all (rest_sendable conf q) sent"
    using rest.sends_at_most_one [OF inv] by auto
  with rest.execute_allowed [OF True inv, of "rp_provider conf"] True
  show ?thesis by (cases s') (auto simp: rest.allowed_def)
qed

text \<open>
  C12: Whatever the authorization port and the transport do, a capability execution over the REST
  provider returns an outcome for its request; when the port did not answer exactly one \<open>ALLOW\<close> for
  the execution identity of the context, nothing is sent and the outcome is a denial without attempts;
  otherwise at most one request is sent, only for an allowed operation and only one that passed the
  checks against secrets and sizes, the attempts recorded are at least those made, a success was
  sent exactly once, and no outcome invites a retry.
\<close>

theorem capability_execution_is_authorized:
  fixes send :: "'w rest_transport"
  assumes reason: "\<And>ds code. decide q ctx = AuthResult ds code \<Longrightarrow> is_ok (decision_reason_init code)"
  shows "\<exists>s' x sent. gateway_execute decide (rp_provider conf) (rest_invoke conf (logged_transport send)) h (w, l) q ctx = (s', Inr x) \<and>
    co_identity x = cq_identity q \<and> co_capability x = cq_capability q \<and> co_provider x = rp_provider conf \<and> \<not> co_retry_safe x \<and>
    snd s' = l @ sent \<and> list_all (rest_sendable conf q) sent \<and> length sent \<le> ie_attempts (co_invocation x) \<and> ie_attempts (co_invocation x) \<le> 1 \<and>
    (if ac_identity ctx = cq_identity q \<and> (\<exists>code. decide q ctx = AuthResult [Some ALLOW] code)
     then co_authorization x = ALLOW \<and> co_status x \<noteq> S_DENIED \<and> (co_status x = S_SUCCEEDED \<longrightarrow> length sent = 1)
     else s' = (w, l) \<and> co_authorization x = DENY \<and> co_status x = S_DENIED \<and> ie_attempts (co_invocation x) = 0)"
  by (rule rest_execution_authorized [OF reason])

subsection \<open>Witnesses\<close>

text \<open>A list that contains itself.\<close>

theorem contains_secret_returns_witness:
  "contains_secret [OList [0]] 0 = Inl ''cyclic sequences are unsupported'' \<and>
   (\<exists>ans. contains_loop [OList [0]] [0] [] = Some ans \<and> contains_secret [OList [0]] 0 = ans)"
  using contains_secret_returns [of "[OList [0]]" 0]
  by (auto simp: contains_secret_def contains_object_def deref_def)

theorem capability_execution_is_authorized_witness:
  "\<exists>s' x sent. gateway_execute (\<lambda>q c. AuthResult [Some ALLOW] ''POLICY'') ''rest'' (rest_invoke
      \<lparr>rp_provider = ''rest'', rp_target = ''https://synthetic.invalid/'', rp_allowed_operations = [''invoke''], rp_method = ''POST'',
        rp_headers = []\<rparr> (logged_transport (\<lambda>w r. ((), TransportTimeout)))) [OMap []] ((), [])
      \<lparr>cq_capability = ''echo'', cq_operation = ''invoke'', cq_identity = ''exec-1'', cq_arguments = 0\<rparr>
      \<lparr>ac_subject = ''agent'', ac_tenant = ''ns'', ac_identity = ''exec-1'', ac_attributes = 0\<rparr> = (s', Inr x) \<and>
    snd s' = [] @ sent \<and> co_authorization x = ALLOW \<and> length sent \<le> 1"
proof -
  have "is_ok (decision_reason_init ''POLICY'')"
    by (simp add: decision_reason_init_def required_def stable_code_def ascii_upper_def nonblank_iff py_space_def)
  then show ?thesis
    using capability_execution_is_authorized [of "\<lambda>q c. AuthResult [Some ALLOW] ''POLICY''"
      "\<lparr>cq_capability = ''echo'', cq_operation = ''invoke'', cq_identity = ''exec-1'', cq_arguments = 0\<rparr>"
      "\<lparr>ac_subject = ''agent'', ac_tenant = ''ns'', ac_identity = ''exec-1'', ac_attributes = 0\<rparr>"
      "\<lparr>rp_provider = ''rest'', rp_target = ''https://synthetic.invalid/'', rp_allowed_operations = [''invoke''], rp_method = ''POST'', rp_headers = []\<rparr>"
      "\<lambda>w r. ((), TransportTimeout)" "[OMap []]" "()" "[]"]
    by fastforce
qed

end
