(* ===== verification/Canonical_Json.thy ===== *)
theory Canonical_Json
  imports Py_Objects
begin

text \<open>
  The canonical JSON text that the digests of the platform are taken of:
  \<open>json.dumps(value, ensure_ascii=False, sort_keys=True, separators=(",", ":"))\<close>
  (\<open>core/src/agent_core/execution_evidence/domain.py\<close>, \<open>execution_contract.py\<close>).

  A value is canonical when it has no float and the keys of its objects are sorted and distinct; every
  value without floats has the same text as a canonical one. The lemmas show that the text determines
  a canonical value, by unique decodability of strings, numbers and lists.
\<close>

subsection \<open>The text\<close>

definition json_escape :: "char \<Rightarrow> string" where
  "json_escape c = (let n = of_char c in
     if n = (34::nat) \<or> n = 92 then [CHR 0x5C, c]
     else if n = 8 then [CHR 0x5C, CHR ''b'']
     else if n = 12 then [CHR 0x5C, CHR ''f'']
     else if n = 10 then [CHR 0x5C, CHR ''n'']
     else if n = 13 then [CHR 0x5C, CHR ''r'']
     else if n = 9 then [CHR 0x5C, CHR ''t'']
     else if n < 32 then [CHR 0x5C, CHR ''u'', CHR ''0'', CHR ''0'', hex_digit (n div 16), hex_digit (n mod 16)]
     else [c])"

definition json_quote :: "string \<Rightarrow> string" where
  "json_quote s = CHR 0x22 # concat (map json_escape s) @ [CHR 0x22]"

fun comma_join :: "string list \<Rightarrow> string" where
  "comma_join [] = []"
| "comma_join (s # ss) = s @ concat (map (\<lambda>t. CHR '','' # t) ss)"

fun canonical_json :: "json \<Rightarrow> string" where
  "canonical_json JNull = ''null''"
| "canonical_json (JBool b) = (if b then ''true'' else ''false'')"
| "canonical_json (JInt i) = show_int i"
| "canonical_json (JFloat t) = t"
| "canonical_json (JStr s) = json_quote s"
| "canonical_json (JList xs) = ''['' @ comma_join (map canonical_json xs) @ '']''"
| "canonical_json (JObj d) = ''{'' @ comma_join (map (\<lambda>(k, t). json_quote k @ CHR '':'' # t)
     (sort_key fst (map (\<lambda>(k, v). (k, canonical_json v)) d))) @ ''}''"

text \<open>Canonical values, and the canonical form of a value without floats.\<close>

fun canonical :: "json \<Rightarrow> bool" where
  "canonical (JFloat t) = False"
| "canonical (JList xs) = list_all canonical xs"
| "canonical (JObj d) = (sorted (map fst d) \<and> distinct (map fst d) \<and> list_all (\<lambda>(k, v). canonical v) d)"
| "canonical j = True"

text \<open>A Python value: no float, and an object has each key once.\<close>

fun exact_json :: "json \<Rightarrow> bool" where
  "exact_json (JFloat t) = False"
| "exact_json (JList xs) = list_all exact_json xs"
| "exact_json (JObj d) = (distinct (map fst d) \<and> list_all (\<lambda>(k, v). exact_json v) d)"
| "exact_json j = True"

text \<open>The same value with the keys of every object sorted.\<close>

fun sorted_form :: "json \<Rightarrow> json" where
  "sorted_form (JList xs) = JList (map sorted_form xs)"
| "sorted_form (JObj d) = JObj (sort_key fst (map (\<lambda>(k, v). (k, sorted_form v)) d))"
| "sorted_form j = j"

subsection \<open>Strings\<close>

definition hex_value :: "char \<Rightarrow> nat" where
  "hex_value c = (if of_char c < (58::nat) then of_char c - 48 else of_char c - 87)"

fun json_unescape :: "string \<Rightarrow> char \<times> string" where
  "json_unescape (c # s) =
     (if c \<noteq> CHR 0x5C then (c, s)
      else case s of
        [] \<Rightarrow> (c, s)
      | e # r \<Rightarrow>
          if e = CHR ''b'' then (char_of (8::nat), r) else if e = CHR ''f'' then (char_of (12::nat), r)
          else if e = CHR ''n'' then (char_of (10::nat), r) else if e = CHR ''r'' then (char_of (13::nat), r)
          else if e = CHR ''t'' then (char_of (9::nat), r)
          else if e = CHR ''u'' then (case r of _ # _ # a # b # t \<Rightarrow> (char_of (16 * hex_value a + hex_value b), t) | _ \<Rightarrow> (e, r))
          else (e, r))"
| "json_unescape [] = (CHR 0x5C, [])"

lemma hex_value_digit: "n < 16 \<Longrightarrow> hex_value (hex_digit n) = n"
  by (auto simp: hex_value_def hex_digit_def)

lemma of_char_eqD: "of_char c = (n::nat) \<Longrightarrow> c = char_of n"
  by (metis char_of_char)

lemma char_constants: "char_of (34::nat) = CHR 0x22" "char_of (92::nat) = CHR 0x5C"
  by (simp_all add: char_of_def bit_0)

lemma unescape_escape: "json_unescape (json_escape c @ s) = (c, s)"
proof -
  consider "of_char c = (34::nat)" | "of_char c = (92::nat)" | "of_char c = (8::nat)" | "of_char c = (12::nat)"
    | "of_char c = (10::nat)" | "of_char c = (13::nat)" | "of_char c = (9::nat)"
    | "of_char c < (32::nat)" "of_char c \<notin> {8::nat, 9, 10, 12, 13}" | "(32::nat) \<le> of_char c" "of_char c \<notin> {34::nat, 92}"
    by fastforce
  then show ?thesis
  proof cases
    case 8
    then have e: "json_escape c = [CHR 0x5C, CHR ''u'', CHR ''0'', CHR ''0'', hex_digit (of_char c div 16), hex_digit (of_char c mod 16)]"
      by (simp add: json_escape_def Let_def)
    have "hex_value (hex_digit (of_char c div 16)) = of_char c div 16" "hex_value (hex_digit (of_char c mod 16)) = of_char c mod 16"
      using 8 by (simp_all add: hex_value_digit)
    then have "char_of (16 * hex_value (hex_digit (of_char c div 16)) + hex_value (hex_digit (of_char c mod 16))) = c"
      by (simp only: mult_div_mod_eq char_of_char)
    then show ?thesis by (simp add: e)
  next
    case 9
    then have "c \<noteq> CHR 0x5C" by auto
    then show ?thesis using 9 by (simp add: json_escape_def)
  qed (auto dest!: of_char_eqD simp: json_escape_def char_constants)
qed

lemma json_escape_inject: "json_escape c @ x = json_escape d @ y \<Longrightarrow> c = d \<and> x = y"
  by (metis prod.inject unescape_escape)

lemma json_escape_head: "\<exists>a t. json_escape c = a # t \<and> a \<noteq> CHR 0x22"
  by (cases "c = CHR 0x22") (auto simp: json_escape_def Let_def dest!: of_char_eqD)

lemma json_quote_inject: "json_quote s @ x = json_quote t @ y \<Longrightarrow> s = t \<and> x = y"
proof (induction s arbitrary: t)
  case Nil
  then show ?case using json_escape_head [of "hd t"] by (cases t) (auto simp: json_quote_def)
next
  case (Cons c s)
  show ?case
  proof (cases t)
    case Nil
    then show ?thesis using Cons.prems json_escape_head [of c] by (fastforce simp: json_quote_def)
  next
    case (Cons d t')
    then have "json_escape c @ (concat (map json_escape s) @ CHR 0x22 # x) = json_escape d @ (concat (map json_escape t') @ CHR 0x22 # y)"
      using Cons.prems by (simp add: json_quote_def)
    from json_escape_inject [OF this] have "c = d" "json_quote s @ x = json_quote t' @ y" by (simp_all add: json_quote_def)
    then show ?thesis using Cons.IH Cons by simp
  qed
qed

subsection \<open>Numbers\<close>

text \<open>What may follow a number in canonical text.\<close>

definition delimited :: "string \<Rightarrow> bool" where
  "delimited x = (case x of [] \<Rightarrow> True | c # _ \<Rightarrow> \<not> ascii_digit c)"

lemma delimited_simps [simp]: "delimited []" "delimited (c # x) = (\<not> ascii_digit c)"
  by (simp_all add: delimited_def)

lemma takeWhile_digits: "delimited x \<Longrightarrow> takeWhile ascii_digit (show_nat n @ x) = show_nat n"
  using show_nat_digits [of _ n] by (cases x) (auto simp: takeWhile_append ascii_digit_def Let_def)

lemma show_nat_append: "delimited x \<Longrightarrow> delimited y \<Longrightarrow> show_nat m @ x = show_nat n @ y \<Longrightarrow> m = n \<and> x = y"
  by (metis append_same_eq same_append_eq show_nat_inject takeWhile_digits)

lemma show_nat_head: "\<exists>c t. show_nat n = c # t \<and> ascii_digit c"
proof (cases "show_nat n")
  case Nil
  then show ?thesis using read_show_nat [of n] by (simp add: show_nat.simps [of n] split: if_splits)
next
  case (Cons c t)
  then show ?thesis using show_nat_digits [of c n] by (simp add: ascii_digit_def)
qed

lemma show_int_append: "delimited x \<Longrightarrow> delimited y \<Longrightarrow> show_int i @ x = show_int j @ y \<Longrightarrow> i = j \<and> x = y"
proof -
  assume d: "delimited x" "delimited y" and e: "show_int i @ x = show_int j @ y"
  have m: "hd (show_nat n @ z) \<noteq> CHR ''-''" for n z using show_nat_head [of n] by (auto simp: ascii_digit_def)
  show ?thesis
  proof (cases "i < 0"; cases "j < 0")
    assume "i < 0" "\<not> j < 0" then show ?thesis using e m [of "nat j" y] by (auto simp: show_int_def dest: sym)
  next
    assume "\<not> i < 0" "j < 0" then show ?thesis using e m [of "nat i" x] by (auto simp: show_int_def)
  next
    assume n: "i < 0" "j < 0"
    then have "show_nat (nat (- i)) @ x = show_nat (nat (- j)) @ y" using e by (simp add: show_int_def)
    then have "nat (- i) = nat (- j) \<and> x = y" by (rule show_nat_append [OF d])
    then show ?thesis using n by linarith
  next
    assume n: "\<not> i < 0" "\<not> j < 0"
    then have "show_nat (nat i) @ x = show_nat (nat j) @ y" using e by (simp add: show_int_def)
    then have "nat i = nat j \<and> x = y" by (rule show_nat_append [OF d])
    then show ?thesis using n by linarith
  qed
qed

subsection \<open>Values\<close>

text \<open>Texts of a set of items that can be told apart in front of any continuation.\<close>

definition decodable :: "('a \<Rightarrow> string) \<Rightarrow> 'a \<Rightarrow> ('a \<Rightarrow> bool) \<Rightarrow> bool" where
  "decodable f a ok = (\<forall>b x y. ok b \<longrightarrow> delimited x \<longrightarrow> delimited y \<longrightarrow> f a @ x = f b @ y \<longrightarrow> a = b \<and> x = y)"

lemma decodableD: "decodable f a ok \<Longrightarrow> ok b \<Longrightarrow> delimited x \<Longrightarrow> delimited y \<Longrightarrow> f a @ x = f b @ y \<Longrightarrow> a = b \<and> x = y"
  unfolding decodable_def by blast

definition comma_tail :: "('a \<Rightarrow> string) \<Rightarrow> 'a list \<Rightarrow> string" where
  "comma_tail f vs = concat (map (\<lambda>v. CHR '','' # f v) vs)"

lemma comma_tail_simps [simp]:
  "comma_tail f [] = []" "comma_tail f (v # vs) = CHR '','' # f v @ comma_tail f vs"
  by (simp_all add: comma_tail_def)

lemma comma_tail_delimited: "\<not> ascii_digit e \<Longrightarrow> delimited (comma_tail f vs @ e # x)"
  by (cases vs) (simp_all add: ascii_digit_def)

lemma comma_tail_inject:
  assumes "e \<noteq> CHR '',''" and "\<not> ascii_digit e" and "\<forall>v \<in> set vs. decodable f v ok" and "\<forall>w \<in> set ws. ok w"
    and "comma_tail f vs @ e # x = comma_tail f ws @ e # y"
  shows "vs = ws \<and> x = y"
  using assms(3-)
proof (induction vs arbitrary: ws)
  case Nil
  then show ?case using assms(1) by (cases ws) auto
next
  case (Cons v vs)
  then obtain w ws' where ws: "ws = w # ws'" using assms(1) by (cases ws) auto
  have "v = w \<and> comma_tail f vs @ e # x = comma_tail f ws' @ e # y"
    by (rule decodableD [of f v ok]) (use Cons.prems ws comma_tail_delimited [OF assms(2)] in auto)
  then show ?case using Cons.IH [of ws'] Cons.prems(1,2) ws by simp
qed

lemma comma_join_inject:
  assumes e: "e \<noteq> CHR '',''" "\<not> ascii_digit e" and vs: "\<forall>v \<in> set vs. decodable f v ok" and ws: "\<forall>w \<in> set ws. ok w"
    and head: "\<forall>v \<in> set vs \<union> set ws. f v \<noteq> [] \<and> hd (f v) \<noteq> e"
    and eq: "comma_join (map f vs) @ e # x = comma_join (map f ws) @ e # y"
  shows "vs = ws \<and> x = y"
proof (cases vs; cases ws)
  fix v vs' w ws'
  assume c: "vs = v # vs'" "ws = w # ws'"
  then have "f v @ (comma_tail f vs' @ e # x) = f w @ (comma_tail f ws' @ e # y)"
    using eq by (simp add: comma_tail_def comp_def)
  then have "v = w \<and> comma_tail f vs' @ e # x = comma_tail f ws' @ e # y"
    by (rule decodableD [of f v ok, rotated 4]) (use c vs ws comma_tail_delimited [OF e(2)] in auto)
  then show ?thesis using comma_tail_inject [OF e, of vs' f ok ws' x y] vs ws c by auto
next
  fix w ws'
  assume "vs = []" "ws = w # ws'"
  then show ?thesis using eq head by (cases "f w") auto
next
  fix v vs'
  assume "vs = v # vs'" "ws = []"
  then show ?thesis using eq head by (cases "f v") auto
qed (use eq in simp)

definition member_text :: "string \<times> json \<Rightarrow> string" where
  "member_text p = json_quote (fst p) @ CHR '':'' # canonical_json (snd p)"

lemma canonical_object_text:
  assumes "sorted (map fst d)"
  shows "canonical_json (JObj d) = ''{'' @ comma_join (map member_text d) @ ''}''"
proof -
  have "sort_key fst (map (\<lambda>(k, v). (k, canonical_json v)) d) = map (\<lambda>(k, v). (k, canonical_json v)) d"
    using assms by (intro sort_key_id_if_sorted) (simp add: comp_def case_prod_beta)
  moreover have "member_text = (\<lambda>p. json_quote (fst p) @ CHR '':'' # canonical_json (snd p))" by (simp add: fun_eq_iff member_text_def)
  ultimately show ?thesis by (simp add: comp_def case_prod_beta)
qed

lemma member_text_head: "hd (member_text p) = CHR 0x22" "member_text p \<noteq> []"
  by (simp_all add: member_text_def json_quote_def)

text \<open>The first character tells the constructor.\<close>

definition value_start :: "json \<Rightarrow> char set" where
  "value_start j = (case j of JNull \<Rightarrow> {CHR ''n''} | JBool _ \<Rightarrow> {CHR ''t'', CHR ''f''} | JInt _ \<Rightarrow> {c. ascii_digit c} \<union> {CHR ''-''}
     | JFloat _ \<Rightarrow> {} | JStr _ \<Rightarrow> {CHR 0x22} | JList _ \<Rightarrow> {CHR ''[''} | JObj _ \<Rightarrow> {CHR ''{''})"

lemma canonical_start: "canonical j \<Longrightarrow> canonical_json j \<noteq> [] \<and> hd (canonical_json j) \<in> value_start j"
  using show_nat_head by (cases j) (auto simp: value_start_def json_quote_def show_int_def, (metis list.distinct(1) list.sel(1))+)

lemma same_start:
  assumes "canonical a" and "canonical b" and "canonical_json a @ x = canonical_json b @ y"
  shows "value_start a \<inter> value_start b \<noteq> {}"
proof -
  have "hd (canonical_json a) = hd (canonical_json b)"
    using canonical_start [OF assms(1)] canonical_start [OF assms(2)] assms(3) by (metis hd_append2)
  then show ?thesis using canonical_start [OF assms(1)] canonical_start [OF assms(2)] by auto
qed

lemma no_digit: "\<not> ascii_digit CHR '']''" "\<not> ascii_digit CHR ''}''" "\<not> ascii_digit CHR ''n''" "\<not> ascii_digit CHR ''t''"
    "\<not> ascii_digit CHR ''f''" "\<not> ascii_digit CHR 0x22" "\<not> ascii_digit CHR ''[''" "\<not> ascii_digit CHR ''{''"
  by (simp_all add: ascii_digit_def)

lemma start_not_bracket: "canonical j \<Longrightarrow> hd (canonical_json j) \<noteq> CHR '']''"
  using canonical_start [of j] no_digit by (cases j) (auto simp: value_start_def)

lemma member_decodable:
  assumes "decodable canonical_json v canonical"
  shows "decodable member_text (k, v) (\<lambda>p. canonical (snd p))"
  unfolding decodable_def
proof (intro allI impI)
  fix b x y
  assume b: "canonical (snd b)" and d: "delimited x" "delimited y" and e: "member_text (k, v) @ x = member_text b @ y"
  then have "json_quote k @ CHR '':'' # canonical_json v @ x = json_quote (fst b) @ CHR '':'' # canonical_json (snd b) @ y"
    by (simp add: member_text_def)
  from json_quote_inject [OF this] have "k = fst b" "canonical_json v @ x = canonical_json (snd b) @ y" by simp_all
  then show "(k, v) = b \<and> x = y" using decodableD [OF assms b d] by (cases b) simp
qed

lemma canonical_decodable: "canonical a \<Longrightarrow> decodable canonical_json a canonical"
proof (induction a)
  case (JList xs)
  show ?case unfolding decodable_def
  proof (intro allI impI)
    fix b x y
    assume b: "canonical b" and e: "canonical_json (JList xs) @ x = canonical_json b @ y"
    then obtain ys where ys: "b = JList ys" using same_start [OF JList.prems b e] no_digit by (cases b) (auto simp: value_start_def)
    have "xs = ys \<and> x = y"
    proof (rule comma_join_inject [of "CHR '']''" xs canonical_json canonical ys x y])
      show "\<forall>v \<in> set xs. decodable canonical_json v canonical" using JList by (simp add: list_all_iff)
    qed (use e JList.prems no_digit ys b start_not_bracket canonical_start in \<open>auto simp: list_all_iff\<close>)
    then show "JList xs = b \<and> x = y" using ys by simp
  qed
next
  case (JObj d)
  show ?case unfolding decodable_def
  proof (intro allI impI)
    fix b x y
    assume b: "canonical b" and e: "canonical_json (JObj d) @ x = canonical_json b @ y"
    then obtain f where f: "b = JObj f" using same_start [OF JObj.prems b e] no_digit by (cases b) (auto simp: value_start_def)
    have "d = f \<and> x = y"
    proof (rule comma_join_inject [of "CHR ''}''" d member_text "\<lambda>p. canonical (snd p)" f x y])
      show "\<forall>p \<in> set d. decodable member_text p (\<lambda>p. canonical (snd p))"
        using JObj by (auto simp: list_all_iff intro!: member_decodable)
      show "comma_join (map member_text d) @ CHR ''}'' # x = comma_join (map member_text f) @ CHR ''}'' # y"
        using e f b JObj.prems canonical_object_text [of d] canonical_object_text [of f] by (simp del: canonical_json.simps)
    qed (use no_digit f b member_text_head in \<open>auto simp: list_all_iff\<close>)
    then show "JObj d = b \<and> x = y" using f by simp
  qed
next
  case JNull
  show ?case unfolding decodable_def
  proof (intro allI impI)
    fix b x y
    assume b: "canonical b" and e: "canonical_json JNull @ x = canonical_json b @ y"
    then have "b = JNull" using same_start [OF JNull b e] no_digit by (cases b) (auto simp: value_start_def)
    then show "JNull = b \<and> x = y" using e by simp
  qed
next
  case (JBool p)
  show ?case unfolding decodable_def
  proof (intro allI impI)
    fix b x y
    assume b: "canonical b" and e: "canonical_json (JBool p) @ x = canonical_json b @ y"
    then obtain q where "b = JBool q" using same_start [OF JBool b e] no_digit by (cases b) (auto simp: value_start_def)
    then show "JBool p = b \<and> x = y" using e by (auto split: if_splits)
  qed
next
  case (JInt i)
  show ?case unfolding decodable_def
  proof (intro allI impI)
    fix b x y
    assume b: "canonical b" and d: "delimited x" "delimited y" and e: "canonical_json (JInt i) @ x = canonical_json b @ y"
    then obtain j where "b = JInt j" using same_start [OF JInt b e] no_digit by (cases b) (auto simp: value_start_def)
    then show "JInt i = b \<and> x = y" using e show_int_append [OF d, of i j] by simp
  qed
next
  case (JStr s)
  show ?case unfolding decodable_def
  proof (intro allI impI)
    fix b x y
    assume b: "canonical b" and e: "canonical_json (JStr s) @ x = canonical_json b @ y"
    then obtain t where "b = JStr t" using same_start [OF JStr b e] no_digit by (cases b) (auto simp: value_start_def)
    then show "JStr s = b \<and> x = y" using e json_quote_inject [of s x t y] by simp
  qed
qed simp

lemma canonical_json_inject: "canonical a \<Longrightarrow> canonical b \<Longrightarrow> canonical_json a = canonical_json b \<Longrightarrow> a = b"
  using decodableD [OF canonical_decodable [of a], of b "[]" "[]"] by simp

subsection \<open>Objects in any order\<close>

lemma insort_key_map: "insort_key f (g x) (map g ys) = map g (insort_key (\<lambda>y. f (g y)) x ys)"
  by (induction ys) simp_all

lemma sort_key_map: "sort_key f (map g xs) = map g (sort_key (\<lambda>y. f (g y)) xs)"
  by (induction xs) (simp_all add: insort_key_map)

lemma sorted_form_text: "canonical_json (sorted_form j) = canonical_json j"
proof (induction j)
  case (JList xs)
  then have "map canonical_json (map sorted_form xs) = map canonical_json xs" by simp
  then show ?case by (simp only: sorted_form.simps canonical_json.simps)
next
  case (JObj d)
  have "map (\<lambda>(k, v). (k, canonical_json v)) (sort_key fst (map (\<lambda>(k, v). (k, sorted_form v)) d)) =
      sort_key fst (map (\<lambda>(k, v). (k, canonical_json (sorted_form v))) d)"
    by (simp add: sort_key_map case_prod_beta comp_def)
  also have "map (\<lambda>(k, v). (k, canonical_json (sorted_form v))) d = map (\<lambda>(k, v). (k, canonical_json v)) d"
    using JObj by (auto simp: case_prod_beta)
  finally show ?case by (simp add: sort_key_id_if_sorted)
qed simp_all

lemma sorted_form_canonical: "exact_json j \<Longrightarrow> canonical (sorted_form j)"
proof (induction j)
  case (JObj d)
  define e where "e = map (\<lambda>(k, v). (k, sorted_form v)) d"
  have "distinct (map fst e)" using JObj.prems by (simp add: e_def comp_def case_prod_beta)
  then have "distinct (map fst (sort_key fst e))" by (simp add: distinct_map)
  moreover have "list_all (\<lambda>(k, v). canonical v) e" using JObj by (force simp: e_def list_all_iff)
  ultimately have "canonical (JObj (sort_key fst e))" by (simp add: list_all_iff)
  then show ?case by (simp add: e_def)
qed (auto simp: list_all_iff)

text \<open>
  C31: two values without floats have the same canonical text exactly when they are equal up to the
  order in which their objects list the keys.
\<close>

theorem canonical_text_identifies_values:
  assumes "exact_json a" and "exact_json b"
  shows "canonical_json a = canonical_json b \<longleftrightarrow> sorted_form a = sorted_form b"
  using canonical_json_inject [OF sorted_form_canonical [OF assms(1)] sorted_form_canonical [OF assms(2)]]
  by (metis sorted_form_text)

theorem canonical_text_identifies_values_witness:
  "canonical_json (JObj [(''b'', JInt 1), (''a'', JNull)]) = canonical_json (JObj [(''a'', JNull), (''b'', JInt 1)])"
  by (subst canonical_text_identifies_values) simp_all

end
