(* ===== verification/Execution_Evidence.thy ===== *)
theory Execution_Evidence
  imports Canonical_Json "HOL-Library.Product_Lexorder"
begin

text \<open>
  Execution evidence: \<open>core/src/agent_core/execution_evidence/\<close> \<open>domain.py\<close>, \<open>ports.py\<close> and the SQLite
  repository \<open>sqlite.py\<close>.

  An instant is a number of microseconds. Its ISO text is given by a parameter \<open>isofmt\<close>, the
  \<open>datetime.isoformat\<close> of the standard library, of which only injectivity is used; text that is no
  instant is not represented. The hash is a parameter \<open>sha\<close>. A table is the list of its rows with the
  next value of the \<open>AUTOINCREMENT\<close> key; a database error is the argument \<open>available = False\<close> of an
  operation. A repository error is the \<open>reason_code\<close> of its class. The column of the references holds the
  JSON value whose text is stored.

  The lemmas show that a row determines its record, that an append is idempotent by content, and that
  reading through a fixed high-water mark is not affected by later appends.
\<close>

type_synonym instant = int

subsection \<open>Domain\<close>

datatype evidence_decision = E_ALLOW | E_DENY | E_NOT_APPLICABLE
datatype event_type = RUNTIME_OUTCOME | CAPABILITY_OUTCOME | EXECUTION_OUTCOME
datatype outcome_classification = OC_SUCCEEDED | OC_FAILED | OC_DENIED | OC_UNKNOWN
datatype reference_type = T_EVIDENCE | T_CITATION
datatype reference_visibility = V_PRODUCT | V_TECHNICAL | V_BOTH | V_DETAIL_ONLY

definition decision_text :: "evidence_decision \<Rightarrow> string" where
  "decision_text d = (case d of E_ALLOW \<Rightarrow> ''ALLOW'' | E_DENY \<Rightarrow> ''DENY'' | E_NOT_APPLICABLE \<Rightarrow> ''NOT_APPLICABLE'')"

definition event_text :: "event_type \<Rightarrow> string" where
  "event_text e = (case e of RUNTIME_OUTCOME \<Rightarrow> ''RUNTIME_OUTCOME'' | CAPABILITY_OUTCOME \<Rightarrow> ''CAPABILITY_OUTCOME''
     | EXECUTION_OUTCOME \<Rightarrow> ''EXECUTION_OUTCOME'')"

definition classification_text :: "outcome_classification \<Rightarrow> string" where
  "classification_text c = (case c of OC_SUCCEEDED \<Rightarrow> ''SUCCEEDED'' | OC_FAILED \<Rightarrow> ''FAILED'' | OC_DENIED \<Rightarrow> ''DENIED''
     | OC_UNKNOWN \<Rightarrow> ''UNKNOWN'')"

definition reference_type_text :: "reference_type \<Rightarrow> string" where
  "reference_type_text t = (case t of T_EVIDENCE \<Rightarrow> ''EVIDENCE'' | T_CITATION \<Rightarrow> ''CITATION'')"

definition visibility_text :: "reference_visibility \<Rightarrow> string" where
  "visibility_text v = (case v of V_PRODUCT \<Rightarrow> ''PRODUCT'' | V_TECHNICAL \<Rightarrow> ''TECHNICAL'' | V_BOTH \<Rightarrow> ''BOTH''
     | V_DETAIL_ONLY \<Rightarrow> ''DETAIL_ONLY'')"

text \<open>Construction of an enumeration member from its text.\<close>

definition enum_of :: "('a \<Rightarrow> string) \<Rightarrow> 'a list \<Rightarrow> string \<Rightarrow> (string, 'a) result" where
  "enum_of f xs s = (case find (\<lambda>x. f x = s) xs of None \<Rightarrow> Inl ''VALUE_ERROR'' | Some x \<Rightarrow> Inr x)"

definition decision_of :: "string \<Rightarrow> (string, evidence_decision) result" where
  "decision_of = enum_of decision_text [E_ALLOW, E_DENY, E_NOT_APPLICABLE]"
definition event_of :: "string \<Rightarrow> (string, event_type) result" where
  "event_of = enum_of event_text [RUNTIME_OUTCOME, CAPABILITY_OUTCOME, EXECUTION_OUTCOME]"
definition classification_of :: "string \<Rightarrow> (string, outcome_classification) result" where
  "classification_of = enum_of classification_text [OC_SUCCEEDED, OC_FAILED, OC_DENIED, OC_UNKNOWN]"
definition reference_type_of :: "string \<Rightarrow> (string, reference_type) result" where
  "reference_type_of = enum_of reference_type_text [T_EVIDENCE, T_CITATION]"
definition visibility_of :: "string \<Rightarrow> (string, reference_visibility) result" where
  "visibility_of = enum_of visibility_text [V_PRODUCT, V_TECHNICAL, V_BOTH, V_DETAIL_ONLY]"

definition MAX_TEXT :: nat where "MAX_TEXT = 512"
definition MAX_REFS :: nat where "MAX_REFS = 32"

definition evidence_code :: "string \<Rightarrow> bool" where
  "evidence_code s = (case s of [] \<Rightarrow> False
     | c # cs \<Rightarrow> ascii_upper c \<and> length cs \<le> 127 \<and> list_all (\<lambda>x. ascii_upper x \<or> ascii_digit x \<or> x = CHR ''_'') cs)"

definition evidence_identity :: "string \<Rightarrow> bool" where
  "evidence_identity s = (case s of [] \<Rightarrow> False
     | c # cs \<Rightarrow> alnum_i c \<and> length cs \<le> 255 \<and> list_all (\<lambda>x. alnum_i x \<or> x \<in> set ''._:@/-'') cs)"

definition re_sep_opt :: regex where
  "re_sep_opt = re_opt (re_one_of ''_-'')"

definition re_sensitive :: regex where
  "re_sensitive = re_any [RSeq (re_literal_i ''api'') (RSeq re_sep_opt (re_literal_i ''key'')),
     re_literal_i ''authorization'', re_literal_i ''bearer'', re_literal_i ''credential'', re_literal_i ''password'',
     re_literal_i ''secret'', re_literal_i ''token'',
     RSeq (re_literal_i ''raw'') (RSeq re_sep_opt (re_any [re_literal_i ''prompt'', re_literal_i ''input'',
       re_literal_i ''output'', re_literal_i ''request'', re_literal_i ''response'',
       RSeq (re_literal_i ''argument'') (re_opt (re_literal_i ''s''))])),
     RSeq (re_literal_i ''stack'') (RSeq re_sep_opt (re_literal_i ''trace'')),
     RSeq (re_literal_i ''environment'') (RSeq re_sep_opt (re_literal_i ''dump'')),
     RSeq (re_literal_i ''host'') (RSeq re_sep_opt (re_literal_i ''path''))]"

definition re_host_path :: regex where
  "re_host_path = RSeq (RAlt RBegin re_space) (re_any [re_literal ''/Users/'', re_literal ''/home/'', re_literal ''/private/'',
     RSeq (RChar (\<lambda>c. ascii_lower (to_lower c))) (RSeq (re_literal '':'') (RChar (\<lambda>c. c = CHR 0x5C)))])"

definition prohibited_text :: "string \<Rightarrow> bool" where
  "prohibited_text s = (re_search re_sensitive s \<or> re_search re_host_path s)"

definition evidence_text :: "bool \<Rightarrow> string \<Rightarrow> string \<Rightarrow> (string, string) result" where
  "evidence_text as_code v code =
     (if \<not> nonblank v \<or> length v > MAX_TEXT then Inl code
      else if prohibited_text v then Inl ''PROHIBITED_EVIDENCE_CONTENT''
      else if \<not> (if as_code then evidence_code v else evidence_identity v) then Inl code
      else Inr v)"

definition optional_text :: "bool \<Rightarrow> string option \<Rightarrow> string \<Rightarrow> (string, string option) result" where
  "optional_text as_code v code = (case v of None \<Rightarrow> Inr None | Some s \<Rightarrow> rbind (evidence_text as_code s code) (\<lambda>t. Inr (Some t)))"

fun check_texts :: "string list \<Rightarrow> string \<Rightarrow> (string, unit) result" where
  "check_texts [] code = Inr ()"
| "check_texts (s # ss) code = rbind (evidence_text False s code) (\<lambda>_. check_texts ss code)"

record authorized_reference =
  ar_identity :: string
  ar_type :: reference_type
  ar_namespace :: string
  ar_security_domain :: string
  ar_decision :: evidence_decision
  ar_reason :: string
  ar_visibility :: reference_visibility
  ar_source :: string
  ar_provenance :: string

definition authorized_reference_init :: "authorized_reference \<Rightarrow> (string, authorized_reference) result" where
  "authorized_reference_init r =
     rbind (check_texts [ar_identity r, ar_namespace r, ar_security_domain r, ar_source r, ar_provenance r] ''INVALID_REFERENCE'') (\<lambda>_.
     rbind (evidence_text True (ar_reason r) ''INVALID_REFERENCE_REASON'') (\<lambda>_.
     if ar_decision r \<notin> {E_ALLOW, E_DENY} then Inl ''INVALID_REFERENCE_AUTHORIZATION'' else Inr r))"

definition reference_payload :: "authorized_reference \<Rightarrow> json" where
  "reference_payload r = JObj [(''reference_identity'', JStr (ar_identity r)), (''reference_type'', JStr (reference_type_text (ar_type r))),
     (''namespace'', JStr (ar_namespace r)), (''security_domain'', JStr (ar_security_domain r)),
     (''authorization_decision'', JStr (decision_text (ar_decision r))), (''reason_code'', JStr (ar_reason r)),
     (''visibility'', JStr (visibility_text (ar_visibility r))), (''source_identity'', JStr (ar_source r)),
     (''provenance'', JStr (ar_provenance r))]"

record evidence_record =
  er_id :: string
  er_namespace :: string
  er_security_domain :: string
  er_execution :: string
  er_workflow :: string
  er_task :: string
  er_attempt :: int
  er_event :: int
  er_event_type :: event_type
  er_occurred_at :: instant
  er_runtime :: string
  er_instance :: string
  er_capability :: "string option"
  er_decision :: evidence_decision
  er_reason :: string
  er_correlation :: "string option"
  er_calls :: int
  er_outcome :: outcome_classification
  er_outcome_reference :: "string option"
  er_references :: "authorized_reference list"
  er_limitation :: "string option"
  er_supersedes :: "string option"
  er_schema_version :: int
  er_sequence :: "int option"
  er_recorded_at :: "instant option"

definition reference_key :: "authorized_reference \<Rightarrow> string \<times> string" where
  "reference_key r = (reference_type_text (ar_type r), ar_identity r)"

definition evidence_checks :: "evidence_record \<Rightarrow> (string, unit) result" where
  "evidence_checks r =
     rbind (check_texts [er_id r, er_namespace r, er_security_domain r, er_execution r, er_workflow r, er_task r, er_runtime r,
       er_instance r] ''INVALID_EVIDENCE'') (\<lambda>_.
     if er_attempt r < 1 \<or> er_event r < 1 \<or> er_calls r < 0 then Inl ''INVALID_EVIDENCE_ORDINAL''
     else if er_schema_version r \<noteq> 1 then Inl ''UNSUPPORTED_EVIDENCE_SCHEMA''
     else rbind (evidence_text True (er_reason r) ''INVALID_REASON_CODE'') (\<lambda>_.
     rbind (optional_text False (er_capability r) ''INVALID_CAPABILITY_IDENTITY'') (\<lambda>_.
     rbind (optional_text False (er_correlation r) ''INVALID_PROVIDER_CORRELATION'') (\<lambda>_.
     rbind (optional_text False (er_outcome_reference r) ''INVALID_OUTCOME_REFERENCE'') (\<lambda>_.
     rbind (optional_text False (er_supersedes r) ''INVALID_SUPERSESSION'') (\<lambda>_.
     rbind (optional_text True (er_limitation r) ''INVALID_LIMITATION_CODE'') (\<lambda>_.
     if length (er_references r) > MAX_REFS then Inl ''INVALID_REFERENCE_AUTHORIZATION''
     else if \<not> distinct (map (\<lambda>x. (ar_type x, ar_identity x)) (er_references r)) then Inl ''DUPLICATE_REFERENCE_AUTHORIZATION''
     else if er_decision r = E_DENY \<and> (er_calls r \<noteq> 0 \<or> (\<exists>x \<in> set (er_references r). ar_decision x = E_ALLOW))
       then Inl ''DENY_REQUIRES_ZERO_PROVIDER_EFFECTS''
     else Inr ())))))))"

definition evidence_record_init :: "evidence_record \<Rightarrow> (string, evidence_record) result" where
  "evidence_record_init r = rbind (evidence_checks r) (\<lambda>_.
     if (case er_sequence r of None \<Rightarrow> False | Some n \<Rightarrow> n < 1) then Inl ''INVALID_STORAGE_SEQUENCE''
     else Inr (r\<lparr>er_references := sort_key reference_key (er_references r)\<rparr>))"

definition json_option :: "string option \<Rightarrow> json" where
  "json_option v = (case v of None \<Rightarrow> JNull | Some s \<Rightarrow> JStr s)"

definition evidence_payload :: "(instant \<Rightarrow> string) \<Rightarrow> evidence_record \<Rightarrow> json" where
  "evidence_payload isofmt r = JObj [(''schema_version'', JInt (er_schema_version r)), (''evidence_record_id'', JStr (er_id r)),
     (''namespace'', JStr (er_namespace r)), (''security_domain'', JStr (er_security_domain r)),
     (''platform_execution_identity'', JStr (er_execution r)), (''workflow_identity'', JStr (er_workflow r)),
     (''task_identity'', JStr (er_task r)), (''attempt_ordinal'', JInt (er_attempt r)), (''event_ordinal'', JInt (er_event r)),
     (''event_type'', JStr (event_text (er_event_type r))), (''occurred_at'', JStr (isofmt (er_occurred_at r))),
     (''runtime_classification'', JStr (er_runtime r)), (''selected_instance_identity'', JStr (er_instance r)),
     (''capability_identity'', json_option (er_capability r)), (''authorization_decision'', JStr (decision_text (er_decision r))),
     (''reason_code'', JStr (er_reason r)), (''provider_correlation_id'', json_option (er_correlation r)),
     (''provider_call_count'', JInt (er_calls r)), (''outcome_classification'', JStr (classification_text (er_outcome r))),
     (''outcome_reference'', json_option (er_outcome_reference r)), (''references'', JList (map reference_payload (er_references r))),
     (''limitation_code'', json_option (er_limitation r)), (''supersedes_record_id'', json_option (er_supersedes r))]"

definition payload_digest :: "(string \<Rightarrow> string) \<Rightarrow> (instant \<Rightarrow> string) \<Rightarrow> evidence_record \<Rightarrow> string" where
  "payload_digest sha isofmt r = sha (canonical_json (evidence_payload isofmt r))"

definition with_repository_metadata :: "evidence_record \<Rightarrow> int \<Rightarrow> instant \<Rightarrow> (string, evidence_record) result" where
  "with_repository_metadata r n t = evidence_record_init (r\<lparr>er_sequence := Some n, er_recorded_at := Some t\<rparr>)"

subsection \<open>The SQLite repository\<close>

record evidence_row =
  ew_sequence :: int
  ew_id :: string
  ew_schema_version :: int
  ew_namespace :: string
  ew_security_domain :: string
  ew_execution :: string
  ew_workflow :: string
  ew_task :: string
  ew_attempt :: int
  ew_event :: int
  ew_event_type :: string
  ew_occurred_at :: instant
  ew_recorded_at :: instant
  ew_digest :: string
  ew_runtime :: string
  ew_instance :: string
  ew_capability :: "string option"
  ew_decision :: string
  ew_reason :: string
  ew_correlation :: "string option"
  ew_calls :: int
  ew_outcome :: string
  ew_outcome_reference :: "string option"
  ew_references :: json
  ew_limitation :: "string option"
  ew_supersedes :: "string option"

record evidence_db =
  ed_rows :: "evidence_row list"
  ed_next :: int

definition evidence_db_empty :: evidence_db where
  "evidence_db_empty = \<lparr>ed_rows = [], ed_next = 1\<rparr>"

definition to_values ::
  "(string \<Rightarrow> string) \<Rightarrow> (instant \<Rightarrow> string) \<Rightarrow> evidence_record \<Rightarrow> int \<Rightarrow> instant \<Rightarrow> evidence_row" where
  "to_values sha isofmt r n t = \<lparr>ew_sequence = n, ew_id = er_id r, ew_schema_version = er_schema_version r,
     ew_namespace = er_namespace r, ew_security_domain = er_security_domain r, ew_execution = er_execution r,
     ew_workflow = er_workflow r, ew_task = er_task r, ew_attempt = er_attempt r, ew_event = er_event r,
     ew_event_type = event_text (er_event_type r), ew_occurred_at = er_occurred_at r, ew_recorded_at = t,
     ew_digest = payload_digest sha isofmt r, ew_runtime = er_runtime r, ew_instance = er_instance r,
     ew_capability = er_capability r, ew_decision = decision_text (er_decision r), ew_reason = er_reason r,
     ew_correlation = er_correlation r, ew_calls = er_calls r, ew_outcome = classification_text (er_outcome r),
     ew_outcome_reference = er_outcome_reference r, ew_references = JList (map reference_payload (er_references r)),
     ew_limitation = er_limitation r, ew_supersedes = er_supersedes r\<rparr>"

definition json_str :: "json \<Rightarrow> string \<Rightarrow> (string, string) result" where
  "json_str j k = (case jget j k of Some (JStr s) \<Rightarrow> Inr s | _ \<Rightarrow> Inl ''VALUE_ERROR'')"

definition reference_of :: "json \<Rightarrow> (string, authorized_reference) result" where
  "reference_of j =
     rbind (json_str j ''reference_identity'') (\<lambda>i. rbind (rbind (json_str j ''reference_type'') reference_type_of) (\<lambda>ty.
     rbind (json_str j ''namespace'') (\<lambda>ns. rbind (json_str j ''security_domain'') (\<lambda>sd.
     rbind (rbind (json_str j ''authorization_decision'') decision_of) (\<lambda>d. rbind (json_str j ''reason_code'') (\<lambda>rc.
     rbind (rbind (json_str j ''visibility'') visibility_of) (\<lambda>v. rbind (json_str j ''source_identity'') (\<lambda>so.
     rbind (json_str j ''provenance'') (\<lambda>pv.
     authorized_reference_init \<lparr>ar_identity = i, ar_type = ty, ar_namespace = ns, ar_security_domain = sd, ar_decision = d,
       ar_reason = rc, ar_visibility = v, ar_source = so, ar_provenance = pv\<rparr>)))))))))"

fun references_of :: "json list \<Rightarrow> (string, authorized_reference list) result" where
  "references_of [] = Inr []"
| "references_of (j # js) = rbind (reference_of j) (\<lambda>r. rbind (references_of js) (\<lambda>rs. Inr (r # rs)))"

definition from_row :: "evidence_row \<Rightarrow> (string, evidence_record) result" where
  "from_row w =
     rbind (event_of (ew_event_type w)) (\<lambda>e. rbind (decision_of (ew_decision w)) (\<lambda>d.
     rbind (classification_of (ew_outcome w)) (\<lambda>c.
     rbind (case ew_references w of JList js \<Rightarrow> references_of js | _ \<Rightarrow> Inl ''VALUE_ERROR'') (\<lambda>rs.
     evidence_record_init \<lparr>er_id = ew_id w, er_namespace = ew_namespace w, er_security_domain = ew_security_domain w,
       er_execution = ew_execution w, er_workflow = ew_workflow w, er_task = ew_task w, er_attempt = ew_attempt w,
       er_event = ew_event w, er_event_type = e, er_occurred_at = ew_occurred_at w, er_runtime = ew_runtime w,
       er_instance = ew_instance w, er_capability = ew_capability w, er_decision = d, er_reason = ew_reason w,
       er_correlation = ew_correlation w, er_calls = ew_calls w, er_outcome = c,
       er_outcome_reference = ew_outcome_reference w, er_references = rs, er_limitation = ew_limitation w,
       er_supersedes = ew_supersedes w, er_schema_version = ew_schema_version w, er_sequence = Some (ew_sequence w),
       er_recorded_at = Some (ew_recorded_at w)\<rparr>))))"

datatype append_disposition = APPENDED | REPLAYED

definition evidence_append ::
  "(string \<Rightarrow> string) \<Rightarrow> (instant \<Rightarrow> string) \<Rightarrow> bool \<Rightarrow> instant \<Rightarrow> evidence_db \<Rightarrow> evidence_record
   \<Rightarrow> evidence_db \<times> (string, append_disposition \<times> evidence_record) result" where
  "evidence_append sha isofmt available now db r =
     (if \<not> available then (db, Inl ''EVIDENCE_REPOSITORY_UNAVAILABLE'')
      else case find (\<lambda>w. ew_id w = er_id r) (ed_rows db) of
        Some w \<Rightarrow>
          if ew_digest w \<noteq> payload_digest sha isofmt r then (db, Inl ''EVIDENCE_DIGEST_CONFLICT'')
          else (db, rbind (with_repository_metadata r (ew_sequence w) (ew_recorded_at w)) (\<lambda>x. Inr (REPLAYED, x)))
      | None \<Rightarrow>
          (\<lparr>ed_rows = ed_rows db @ [to_values sha isofmt r (ed_next db) now], ed_next = ed_next db + 1\<rparr>,
           rbind (with_repository_metadata r (ed_next db) now) (\<lambda>x. Inr (APPENDED, x))))"

record evidence_scope =
  es_namespace :: string
  es_security_domain :: string

definition evidence_scope_init :: "evidence_scope \<Rightarrow> (string, evidence_scope) result" where
  "evidence_scope_init s = (if \<not> nonblank (es_namespace s) \<or> \<not> nonblank (es_security_domain s)
     then Inl ''AUTHORIZED_EVIDENCE_SCOPE_REQUIRED'' else Inr s)"

definition in_scope :: "evidence_scope \<Rightarrow> evidence_row \<Rightarrow> bool" where
  "in_scope s w = (ew_namespace w = es_namespace s \<and> ew_security_domain w = es_security_domain s)"

definition high_water_mark :: "bool \<Rightarrow> evidence_db \<Rightarrow> evidence_scope \<Rightarrow> (string, int) result" where
  "high_water_mark available db s =
     (if \<not> available then Inl ''EVIDENCE_REPOSITORY_UNAVAILABLE''
      else Inr (foldl max 0 (map ew_sequence (filter (in_scope s) (ed_rows db)))))"

fun rows_of :: "evidence_row list \<Rightarrow> (string, evidence_record list) result" where
  "rows_of [] = Inr []"
| "rows_of (w # ws) = rbind (from_row w) (\<lambda>r. rbind (rows_of ws) (\<lambda>rs. Inr (r # rs)))"

definition event_order :: "(instant \<Rightarrow> string) \<Rightarrow> evidence_row \<Rightarrow> int \<times> int \<times> string \<times> string \<times> string" where
  "event_order isofmt w = (ew_attempt w, ew_event w, isofmt (ew_occurred_at w), isofmt (ew_recorded_at w), ew_id w)"

definition read_execution ::
  "(instant \<Rightarrow> string) \<Rightarrow> bool \<Rightarrow> evidence_db \<Rightarrow> evidence_scope \<Rightarrow> string \<Rightarrow> int \<Rightarrow> (string, evidence_record list) result" where
  "read_execution isofmt available db s execution through =
     (if \<not> available then Inl ''EVIDENCE_REPOSITORY_UNAVAILABLE''
      else case rows_of (sort_key (event_order isofmt)
          (filter (\<lambda>w. in_scope s w \<and> ew_execution w = execution \<and> ew_sequence w \<le> through) (ed_rows db))) of
        Inl _ \<Rightarrow> Inl ''EVIDENCE_REPOSITORY_UNAVAILABLE''
      | Inr rs \<Rightarrow> Inr rs)"

definition read_subject ::
  "(instant \<Rightarrow> string) \<Rightarrow> bool \<Rightarrow> evidence_db \<Rightarrow> evidence_scope \<Rightarrow> string \<Rightarrow> string \<Rightarrow> int
   \<Rightarrow> (string, evidence_record list) result" where
  "read_subject isofmt available db s workflow task through =
     (if \<not> available then Inl ''EVIDENCE_REPOSITORY_UNAVAILABLE''
      else rows_of (sort_key (\<lambda>w. (ew_execution w, event_order isofmt w))
        (filter (\<lambda>w. in_scope s w \<and> ew_workflow w = workflow \<and> ew_task w = task \<and> ew_sequence w \<le> through) (ed_rows db))))"

subsection \<open>A row determines its record\<close>

lemma decision_round_trip [simp]: "decision_of (decision_text d) = Inr d"
  by (cases d) (simp_all add: decision_of_def decision_text_def enum_of_def)

lemma event_round_trip [simp]: "event_of (event_text e) = Inr e"
  by (cases e) (simp_all add: event_of_def event_text_def enum_of_def)

lemma classification_round_trip [simp]: "classification_of (classification_text c) = Inr c"
  by (cases c) (simp_all add: classification_of_def classification_text_def enum_of_def)

lemma reference_type_round_trip [simp]: "reference_type_of (reference_type_text t) = Inr t"
  by (cases t) (simp_all add: reference_type_of_def reference_type_text_def enum_of_def)

lemma visibility_round_trip [simp]: "visibility_of (visibility_text v) = Inr v"
  by (cases v) (simp_all add: visibility_of_def visibility_text_def enum_of_def)

lemmas enum_round_trips = decision_round_trip event_round_trip classification_round_trip reference_type_round_trip
  visibility_round_trip

lemma enum_text_inject [simp]:
  "decision_text d = decision_text d' \<longleftrightarrow> d = d'" "event_text e = event_text e' \<longleftrightarrow> e = e'"
  "classification_text c = classification_text c' \<longleftrightarrow> c = c'" "reference_type_text t = reference_type_text t' \<longleftrightarrow> t = t'"
  "visibility_text v = visibility_text v' \<longleftrightarrow> v = v'"
  by (metis enum_round_trips sum.inject(2))+

lemma reference_init_same: "authorized_reference_init r = Inr r' \<Longrightarrow> r' = r"
  by (auto simp: authorized_reference_init_def split: if_splits)

lemma reference_of_payload: "reference_of (reference_payload r) = authorized_reference_init r"
  by (cases r) (simp add: reference_of_def reference_payload_def json_str_def)

lemma references_of_payload:
  "\<forall>x \<in> set rs. authorized_reference_init x = Inr x \<Longrightarrow> references_of (map reference_payload rs) = Inr rs"
  by (induction rs) (simp_all add: reference_of_payload)

definition valid_evidence :: "evidence_record \<Rightarrow> bool" where
  "valid_evidence r = (evidence_record_init r = Inr r \<and> list_all (\<lambda>x. authorized_reference_init x = Inr x) (er_references r))"

definition stamped :: "evidence_record \<Rightarrow> int \<Rightarrow> instant \<Rightarrow> evidence_record" where
  "stamped r n t = r\<lparr>er_sequence := Some n, er_recorded_at := Some t\<rparr>"

lemma valid_iff:
  "valid_evidence r \<longleftrightarrow> evidence_checks r = Inr () \<and> (case er_sequence r of None \<Rightarrow> True | Some n \<Rightarrow> 1 \<le> n) \<and>
     sort_key reference_key (er_references r) = er_references r \<and>
     list_all (\<lambda>x. authorized_reference_init x = Inr x) (er_references r)"
proof -
  have "r\<lparr>er_references := xs\<rparr> = r \<longleftrightarrow> xs = er_references r" for xs by (cases r) auto
  then show ?thesis
    by (cases "evidence_checks r") (auto simp: valid_evidence_def evidence_record_init_def split: option.splits)
qed

lemma checks_stamped [simp]: "evidence_checks (stamped r n t) = evidence_checks r"
  by (simp add: evidence_checks_def stamped_def)

lemma stamped_valid: "valid_evidence r \<Longrightarrow> 1 \<le> n \<Longrightarrow> valid_evidence (stamped r n t)"
  unfolding valid_iff by (simp add: stamped_def [of r n t] flip: checks_stamped [of r n t])

lemma with_metadata_stamped: "valid_evidence r \<Longrightarrow> 1 \<le> n \<Longrightarrow> with_repository_metadata r n t = Inr (stamped r n t)"
  using stamped_valid [of r n t] by (simp add: valid_evidence_def with_repository_metadata_def stamped_def)

lemma from_row_to_values:
  assumes "valid_evidence r" and "1 \<le> n"
  shows "from_row (to_values sha isofmt r n t) = Inr (stamped r n t)"
proof -
  have "references_of (map reference_payload (er_references r)) = Inr (er_references r)"
    using assms(1) by (intro references_of_payload) (simp add: valid_evidence_def list_all_iff)
  moreover have "evidence_record_init (stamped r n t) = Inr (stamped r n t)"
    using stamped_valid [OF assms] by (simp add: valid_evidence_def)
  ultimately show ?thesis by (cases r) (simp add: from_row_def to_values_def stamped_def)
qed

text \<open>A constructed record with constructed references is valid.\<close>

lemma checks_sorted [simp]: "evidence_checks (r\<lparr>er_references := sort_key f (er_references r)\<rparr>) = evidence_checks r"
  by (simp add: evidence_checks_def distinct_map)

lemma constructed_valid:
  assumes "evidence_record_init r = Inr r'" and "list_all (\<lambda>x. authorized_reference_init x = Inr x) (er_references r)"
  shows "valid_evidence r'"
proof -
  have c: "evidence_checks r = Inr ()" "case er_sequence r of None \<Rightarrow> True | Some n \<Rightarrow> 1 \<le> n"
    and r': "r' = r\<lparr>er_references := sort_key reference_key (er_references r)\<rparr>"
    using assms(1) by (auto simp: evidence_record_init_def split: if_splits option.splits)
  then show ?thesis using assms(2) by (simp add: valid_iff list_all_iff sort_key_id_if_sorted)
qed

subsection \<open>The digest identifies the content\<close>

lemma same_keys_same_list:
  assumes "map fst xs = map fst ys" and "distinct (map fst xs)" and "set xs = set ys"
  shows "xs = ys"
proof (rule nth_equalityI)
  show l: "length xs = length ys" using assms(1) by (metis length_map)
  fix i assume i: "i < length xs"
  then obtain j where j: "j < length ys" "ys ! j = xs ! i" using assms(3) by (metis in_set_conv_nth nth_mem)
  then have "map fst xs ! j = map fst xs ! i" using assms(1) l i by (metis length_map nth_map)
  then have "j = i" using assms(2) i j(1) l by (metis length_map nth_eq_iff_index_eq)
  then show "xs ! i = ys ! i" using j(2) by simp
qed

lemma sorted_object_inject:
  assumes "sorted_form (JObj d) = sorted_form (JObj e)" and "map fst d = map fst e" and "distinct (map fst d)"
  shows "map (\<lambda>p. sorted_form (snd p)) d = map (\<lambda>p. sorted_form (snd p)) e"
proof -
  let ?f = "map (\<lambda>(k, v). (k, sorted_form v))"
  have "sort_key fst (?f d) = sort_key fst (?f e)" using assms(1) by (simp only: sorted_form.simps json.inject)
  then have "set (?f d) = set (?f e)" using set_sort [of fst "?f d"] set_sort [of fst "?f e"] by (simp only:)
  moreover have m: "map fst (?f d) = map fst d" "map fst (?f e) = map fst e" by (simp_all add: comp_def case_prod_beta)
  moreover have "map fst (?f d) = map fst (?f e)" "distinct (map fst (?f d))"
    using assms(2,3) by (simp_all only: m)
  ultimately have "?f d = ?f e" by (intro same_keys_same_list)
  then have "map snd (?f d) = map snd (?f e)" by simp
  then show ?thesis by (simp add: comp_def case_prod_beta)
qed

lemma reference_payload_inject:
  assumes "sorted_form (reference_payload a) = sorted_form (reference_payload b)"
  shows "a = b"
  using sorted_object_inject [OF assms [unfolded reference_payload_def]] by (cases a; cases b) simp

lemma references_payload_inject:
  "map (sorted_form \<circ> reference_payload) rs = map (sorted_form \<circ> reference_payload) rs' \<Longrightarrow> rs = rs'"
proof (induction rs arbitrary: rs')
  case (Cons r rs)
  then show ?case using reference_payload_inject by (cases rs') auto
qed simp

lemma json_option_inject [simp]: "json_option a = json_option b \<longleftrightarrow> a = b"
  by (cases a; cases b) (simp_all add: json_option_def)

lemma sorted_json_option [simp]: "sorted_form (json_option a) = json_option a"
  by (cases a) (simp_all add: json_option_def)

definition same_content :: "evidence_record \<Rightarrow> evidence_record \<Rightarrow> bool" where
  "same_content a b = (a\<lparr>er_sequence := None, er_recorded_at := None\<rparr> = b\<lparr>er_sequence := None, er_recorded_at := None\<rparr>)"

lemma payload_identifies_content:
  assumes "inj isofmt"
  shows "canonical_json (evidence_payload isofmt a) = canonical_json (evidence_payload isofmt b) \<longleftrightarrow> same_content a b"
proof
  have ex: "exact_json (evidence_payload isofmt r)" for r
    by (simp add: evidence_payload_def reference_payload_def json_option_def list_all_iff split: option.splits)
  assume "canonical_json (evidence_payload isofmt a) = canonical_json (evidence_payload isofmt b)"
  then have "sorted_form (evidence_payload isofmt a) = sorted_form (evidence_payload isofmt b)"
    using canonical_json_inject [OF sorted_form_canonical [OF ex] sorted_form_canonical [OF ex]] sorted_form_text by metis
  from sorted_object_inject [OF this [unfolded evidence_payload_def]]
  show "same_content a b" using references_payload_inject [of "er_references a" "er_references b"] assms
    by (cases a; cases b) (simp add: same_content_def inj_eq)
next
  assume "same_content a b"
  then have "evidence_payload isofmt a = evidence_payload isofmt b"
    by (cases a; cases b) (simp add: same_content_def evidence_payload_def)
  then show "canonical_json (evidence_payload isofmt a) = canonical_json (evidence_payload isofmt b)" by simp
qed

subsection \<open>The append log\<close>

type_synonym evidence_op = "bool \<times> instant \<times> evidence_record"

definition evidence_run ::
  "(string \<Rightarrow> string) \<Rightarrow> (instant \<Rightarrow> string) \<Rightarrow> evidence_db \<Rightarrow> evidence_op list \<Rightarrow> evidence_db" where
  "evidence_run sha isofmt db ops = foldl (\<lambda>db (available, now, r). fst (evidence_append sha isofmt available now db r)) db ops"

text \<open>The records a database holds, in the order they were appended.\<close>

definition stored_records :: "evidence_db \<Rightarrow> evidence_record list" where
  "stored_records db = (case rows_of (ed_rows db) of Inl _ \<Rightarrow> [] | Inr rs \<Rightarrow> rs)"

text \<open>Every row is the image of a valid record, and the keys increase.\<close>

definition evidence_db_ok :: "(string \<Rightarrow> string) \<Rightarrow> (instant \<Rightarrow> string) \<Rightarrow> evidence_db \<Rightarrow> bool" where
  "evidence_db_ok sha isofmt db \<longleftrightarrow>
     (\<forall>w \<in> set (ed_rows db). \<exists>r. valid_evidence r \<and> 1 \<le> ew_sequence w \<and> w = to_values sha isofmt r (ew_sequence w) (ew_recorded_at w)) \<and>
     sorted_wrt (<) (map ew_sequence (ed_rows db)) \<and> (\<forall>w \<in> set (ed_rows db). ew_sequence w < ed_next db) \<and> 1 \<le> ed_next db \<and>
     distinct (map ew_id (ed_rows db))"

lemma evidence_db_ok_empty: "evidence_db_ok sha isofmt evidence_db_empty"
  by (simp add: evidence_db_ok_def evidence_db_empty_def)

lemma to_values_sel [simp]:
  "ew_sequence (to_values sha isofmt r n t) = n" "ew_recorded_at (to_values sha isofmt r n t) = t"
  "ew_id (to_values sha isofmt r n t) = er_id r" "ew_digest (to_values sha isofmt r n t) = payload_digest sha isofmt r"
  "ew_namespace (to_values sha isofmt r n t) = er_namespace r" "ew_security_domain (to_values sha isofmt r n t) = er_security_domain r"
  "ew_execution (to_values sha isofmt r n t) = er_execution r"
  by (simp_all add: to_values_def)

lemma append_cases:
  assumes "evidence_append sha isofmt available now db r = (db', res)"
  obtains (kept) "db' = db" | (added) "available" "find (\<lambda>w. ew_id w = er_id r) (ed_rows db) = None"
    "ed_rows db' = ed_rows db @ [to_values sha isofmt r (ed_next db) now]" "ed_next db' = ed_next db + 1"
  using assms by (auto simp: evidence_append_def split: if_splits option.splits)

lemma evidence_append_ok:
  assumes "evidence_append sha isofmt available now db r = (db', res)" and "evidence_db_ok sha isofmt db" and "valid_evidence r"
  shows "evidence_db_ok sha isofmt db'"
  using assms(1)
proof (cases rule: append_cases)
  case added
  then show ?thesis using assms(2,3)
    by (fastforce simp: evidence_db_ok_def find_None_iff sorted_wrt_append)
qed (use assms in simp)

lemma evidence_run_ok:
  "evidence_db_ok sha isofmt db \<Longrightarrow> \<forall>(a, n, r) \<in> set ops. valid_evidence r \<Longrightarrow> evidence_db_ok sha isofmt (evidence_run sha isofmt db ops)"
proof (induction ops arbitrary: db)
  case (Cons x ops)
  obtain a n r where x: "x = (a, n, r)" by (cases x) auto
  obtain db' res where s: "evidence_append sha isofmt a n db r = (db', res)" by (metis surj_pair)
  then have "evidence_db_ok sha isofmt db'" using Cons.prems x by (intro evidence_append_ok [OF s]) auto
  then show ?case using Cons.IH [of db'] Cons.prems x s by (simp add: evidence_run_def)
qed (simp add: evidence_run_def)

lemma evidence_run_grows:
  "evidence_db_ok sha isofmt db \<Longrightarrow> \<forall>(a, n, r) \<in> set ops. valid_evidence r \<Longrightarrow>
     \<exists>new. ed_rows (evidence_run sha isofmt db ops) = ed_rows db @ new \<and> (\<forall>w \<in> set new. ed_next db \<le> ew_sequence w)
       \<and> ed_next db \<le> ed_next (evidence_run sha isofmt db ops)"
proof (induction ops arbitrary: db)
  case (Cons x ops)
  obtain a n r where x: "x = (a, n, r)" by (cases x) auto
  obtain db' res where s: "evidence_append sha isofmt a n db r = (db', res)" by (metis surj_pair)
  then have "evidence_db_ok sha isofmt db'" using Cons.prems x by (intro evidence_append_ok [OF s]) auto
  then obtain new where new: "ed_rows (evidence_run sha isofmt db' ops) = ed_rows db' @ new" "\<forall>w \<in> set new. ed_next db' \<le> ew_sequence w"
      "ed_next db' \<le> ed_next (evidence_run sha isofmt db' ops)"
    using Cons.IH [of db'] Cons.prems(2) by auto
  have run: "evidence_run sha isofmt db (x # ops) = evidence_run sha isofmt db' ops" using s x by (simp add: evidence_run_def)
  show ?case using s
  proof (cases rule: append_cases)
    case kept
    then show ?thesis using new run by auto
  next
    case added
    then show ?thesis using new run by (intro exI [of _ "to_values sha isofmt r (ed_next db) n # new"]) auto
  qed
qed (simp add: evidence_run_def)

definition row_ok :: "(string \<Rightarrow> string) \<Rightarrow> (instant \<Rightarrow> string) \<Rightarrow> evidence_row \<Rightarrow> bool" where
  "row_ok sha isofmt w \<longleftrightarrow> (\<exists>r. valid_evidence r \<and> 1 \<le> ew_sequence w \<and> w = to_values sha isofmt r (ew_sequence w) (ew_recorded_at w))"

definition row_record :: "evidence_row \<Rightarrow> evidence_record" where
  "row_record w = projr (from_row w)"

lemma payload_stamped [simp]: "payload_digest sha isofmt (stamped r n t) = payload_digest sha isofmt r"
  by (simp add: payload_digest_def evidence_payload_def stamped_def)

lemma same_content_stamped [simp]: "same_content (stamped r n t) r' = same_content r r'"
  by (simp add: same_content_def stamped_def)

lemma row_ok_record:
  assumes "row_ok sha isofmt w"
  shows "from_row w = Inr (row_record w)" "er_id (row_record w) = ew_id w" "er_namespace (row_record w) = ew_namespace w"
    "er_security_domain (row_record w) = ew_security_domain w" "er_execution (row_record w) = ew_execution w"
    "payload_digest sha isofmt (row_record w) = ew_digest w" "er_attempt (row_record w) = ew_attempt w"
    "er_event (row_record w) = ew_event w" "er_occurred_at (row_record w) = ew_occurred_at w"
    "er_sequence (row_record w) = Some (ew_sequence w)" "er_recorded_at (row_record w) = Some (ew_recorded_at w)"
proof -
  obtain r where r: "valid_evidence r" "1 \<le> ew_sequence w" and w: "w = to_values sha isofmt r (ew_sequence w) (ew_recorded_at w)"
    using assms by (auto simp: row_ok_def)
  have f: "from_row w = Inr (stamped r (ew_sequence w) (ew_recorded_at w))" using from_row_to_values [OF r] w by metis
  then have e: "row_record w = stamped r (ew_sequence w) (ew_recorded_at w)" by (simp add: row_record_def)
  show "from_row w = Inr (row_record w)" using f e by simp
  have "ew_attempt w = er_attempt r" "ew_event w = er_event r" "ew_occurred_at w = er_occurred_at r"
    by (subst w, simp add: to_values_def)+
  moreover have "er_id r = ew_id w" "er_namespace r = ew_namespace w" "er_security_domain r = ew_security_domain w"
    "er_execution r = ew_execution w" "payload_digest sha isofmt r = ew_digest w"
    using arg_cong [OF w, of ew_id] arg_cong [OF w, of ew_namespace] arg_cong [OF w, of ew_security_domain]
      arg_cong [OF w, of ew_execution] arg_cong [OF w, of ew_digest] by simp_all
  ultimately show "er_id (row_record w) = ew_id w" "er_namespace (row_record w) = ew_namespace w"
    "er_security_domain (row_record w) = ew_security_domain w" "er_execution (row_record w) = ew_execution w"
    "payload_digest sha isofmt (row_record w) = ew_digest w" "er_attempt (row_record w) = ew_attempt w"
    "er_event (row_record w) = ew_event w" "er_occurred_at (row_record w) = ew_occurred_at w"
    "er_sequence (row_record w) = Some (ew_sequence w)" "er_recorded_at (row_record w) = Some (ew_recorded_at w)"
    unfolding e by (simp_all add: stamped_def payload_stamped [unfolded stamped_def])
qed

lemma rows_of_ok: "\<forall>w \<in> set ws. row_ok sha isofmt w \<Longrightarrow> rows_of ws = Inr (map row_record ws)"
  by (induction ws) (auto simp: row_ok_record(1))

lemma db_rows_ok: "evidence_db_ok sha isofmt db \<Longrightarrow> \<forall>w \<in> set (ed_rows db). row_ok sha isofmt w"
  by (simp add: evidence_db_ok_def row_ok_def)

lemma stored_records_rows: "evidence_db_ok sha isofmt db \<Longrightarrow> stored_records db = map row_record (ed_rows db)"
  using rows_of_ok [OF db_rows_ok] by (simp add: stored_records_def)

subsection \<open>Append refines an append-only log keyed by record identity\<close>

text \<open>The abstract log: the stamped records and the next storage sequence. Nothing of rows, columns or digests is left.\<close>

type_synonym evidence_log = "evidence_record list \<times> int"

definition log_append ::
  "bool \<Rightarrow> instant \<Rightarrow> evidence_log \<Rightarrow> evidence_record \<Rightarrow> evidence_log \<times> (string, append_disposition \<times> evidence_record) result" where
  "log_append available now l r =
     (if \<not> available then (l, Inl ''EVIDENCE_REPOSITORY_UNAVAILABLE'')
      else case find (\<lambda>x. er_id x = er_id r) (fst l) of
        Some x \<Rightarrow> (l, if same_content x r then Inr (REPLAYED, x) else Inl ''EVIDENCE_DIGEST_CONFLICT'')
      | None \<Rightarrow> ((fst l @ [stamped r (snd l) now], snd l + 1), Inr (APPENDED, stamped r (snd l) now)))"

definition evidence_abs :: "evidence_db \<Rightarrow> evidence_log" where
  "evidence_abs db = (stored_records db, ed_next db)"

fun evidence_trace ::
  "(string \<Rightarrow> string) \<Rightarrow> (instant \<Rightarrow> string) \<Rightarrow> evidence_db \<Rightarrow> evidence_op list
   \<Rightarrow> evidence_db \<times> (string, append_disposition \<times> evidence_record) result list" where
  "evidence_trace sha isofmt db [] = (db, [])"
| "evidence_trace sha isofmt db ((available, now, r) # ops) =
     (let (db', x) = evidence_append sha isofmt available now db r; (db'', xs) = evidence_trace sha isofmt db' ops in (db'', x # xs))"

fun log_trace :: "evidence_log \<Rightarrow> evidence_op list \<Rightarrow> evidence_log \<times> (string, append_disposition \<times> evidence_record) result list" where
  "log_trace l [] = (l, [])"
| "log_trace l ((available, now, r) # ops) =
     (let (l', x) = log_append available now l r; (l'', xs) = log_trace l' ops in (l'', x # xs))"

abbreviation evidence_canonical :: "(instant \<Rightarrow> string) \<Rightarrow> evidence_record \<Rightarrow> string" where
  "evidence_canonical isofmt r \<equiv> canonical_json (evidence_payload isofmt r)"

lemma find_map_option: "find P (map f xs) = map_option f (find (\<lambda>x. P (f x)) xs)"
  by (induction xs) simp_all

lemma same_content_stamp:
  "same_content x r \<Longrightarrow> er_sequence x = Some n \<Longrightarrow> er_recorded_at x = Some t \<Longrightarrow> stamped r n t = x"
  by (cases x; cases r) (simp add: same_content_def stamped_def)

lemma row_record_values: "valid_evidence r \<Longrightarrow> 1 \<le> n \<Longrightarrow> row_record (to_values sha isofmt r n t) = stamped r n t"
  by (simp add: row_record_def from_row_to_values)

lemma canonical_stamped [simp]: "evidence_canonical isofmt (stamped r n t) = evidence_canonical isofmt r"
  by (simp add: evidence_payload_def stamped_def)

lemma find_row_record:
  assumes "evidence_db_ok sha isofmt db"
  shows "find (\<lambda>x. er_id x = i) (stored_records db) = map_option row_record (find (\<lambda>w. ew_id w = i) (ed_rows db))"
proof -
  have "find (\<lambda>w. er_id (row_record w) = i) (ed_rows db) = find (\<lambda>w. ew_id w = i) (ed_rows db)"
    using db_rows_ok [OF assms] by (intro find_cong) (auto simp: row_ok_record(2))
  then show ?thesis by (simp add: stored_records_rows [OF assms] find_map_option)
qed

lemma append_refines:
  assumes ok: "evidence_db_ok sha isofmt db" and v: "valid_evidence r" and "inj isofmt"
    and sha: "\<forall>x \<in> set (stored_records db). payload_digest sha isofmt x = payload_digest sha isofmt r \<longrightarrow>
      evidence_canonical isofmt x = evidence_canonical isofmt r"
    and s: "evidence_append sha isofmt available now db r = (db', res)"
  shows "log_append available now (evidence_abs db) r = (evidence_abs db', res)"
proof (cases "\<not> available")
  case False
  have fr: "find (\<lambda>x. er_id x = er_id r) (stored_records db) = map_option row_record (find (\<lambda>w. ew_id w = er_id r) (ed_rows db))"
    by (rule find_row_record [OF ok])
  show ?thesis
  proof (cases "find (\<lambda>w. ew_id w = er_id r) (ed_rows db)")
    case None
    have n: "1 \<le> ed_next db" using ok by (simp add: evidence_db_ok_def)
    have db': "db' = \<lparr>ed_rows = ed_rows db @ [to_values sha isofmt r (ed_next db) now], ed_next = ed_next db + 1\<rparr>"
      and res: "res = Inr (APPENDED, stamped r (ed_next db) now)"
      using s False None by (auto simp: evidence_append_def with_metadata_stamped [OF v n])
    have "stored_records db' = stored_records db @ [stamped r (ed_next db) now]"
      using stored_records_rows [OF evidence_append_ok [OF s ok v]] stored_records_rows [OF ok] row_record_values [OF v n]
      by (simp add: db')
    then show ?thesis using fr None False res by (simp add: log_append_def evidence_abs_def db')
  next
    case (Some w)
    then have w: "w \<in> set (ed_rows db)" by (auto simp: find_Some_iff)
    then have row: "row_ok sha isofmt w" using db_rows_ok [OF ok] by simp
    then have n: "1 \<le> ew_sequence w" by (auto simp: row_ok_def)
    have "row_record w \<in> set (stored_records db)" using w by (simp add: stored_records_rows [OF ok])
    then have "ew_digest w = payload_digest sha isofmt r \<longleftrightarrow> same_content (row_record w) r"
      using sha row_ok_record(6) [OF row] payload_identifies_content [OF assms(3), of "row_record w" r] by (metis payload_digest_def)
    then show ?thesis using fr s Some False same_content_stamp [OF _ row_ok_record(10,11) [OF row], of r]
      by (auto simp: log_append_def evidence_abs_def evidence_append_def with_metadata_stamped [OF v n] split: if_splits)
  qed
qed (use s in \<open>auto simp: log_append_def evidence_append_def\<close>)

lemma append_canonical:
  assumes "evidence_db_ok sha isofmt db" and "valid_evidence r" and "evidence_append sha isofmt available now db r = (db', res)"
    and "evidence_canonical isofmt ` set (stored_records db) \<subseteq> T" and "evidence_canonical isofmt r \<in> T"
  shows "evidence_canonical isofmt ` set (stored_records db') \<subseteq> T"
  using assms(3)
proof (cases rule: append_cases)
  case added
  have n: "1 \<le> ed_next db" using assms(1) by (simp add: evidence_db_ok_def)
  have "stored_records db' = stored_records db @ [stamped r (ed_next db) now]"
    using stored_records_rows [OF evidence_append_ok [OF assms(3,1,2)]] stored_records_rows [OF assms(1)]
      row_record_values [OF assms(2) n] by (simp add: added(3))
  then show ?thesis using assms(4,5) by simp
qed (use assms in simp)

lemma trace_refines:
  assumes "evidence_db_ok sha isofmt db" and "\<forall>(a, n, r) \<in> set ops. valid_evidence r \<and> evidence_canonical isofmt r \<in> T"
    and "inj isofmt" and "inj_on sha T" and "evidence_canonical isofmt ` set (stored_records db) \<subseteq> T"
    and "evidence_trace sha isofmt db ops = (db', res)"
  shows "log_trace (evidence_abs db) ops = (evidence_abs db', res)"
  using assms
proof (induction ops arbitrary: db res)
  case (Cons x ops)
  obtain a n r where x: "x = (a, n, r)" by (cases x) auto
  obtain db1 y where s: "evidence_append sha isofmt a n db r = (db1, y)" by (metis surj_pair)
  obtain ys where t: "evidence_trace sha isofmt db1 ops = (db', ys)" "res = y # ys"
    using Cons.prems(6) s x by (auto split: prod.splits)
  have v: "valid_evidence r" "evidence_canonical isofmt r \<in> T" using Cons.prems(2) x by auto
  have "\<forall>z \<in> set (stored_records db). payload_digest sha isofmt z = payload_digest sha isofmt r \<longrightarrow>
      evidence_canonical isofmt z = evidence_canonical isofmt r"
    using Cons.prems(4,5) v(2) by (auto simp: payload_digest_def inj_on_def)
  then have "log_append a n (evidence_abs db) r = (evidence_abs db1, y)"
    by (rule append_refines [OF Cons.prems(1) v(1) Cons.prems(3) _ s])
  moreover have "log_trace (evidence_abs db1) ops = (evidence_abs db', ys)"
    using Cons.prems(2) append_canonical [OF Cons.prems(1) v(1) s Cons.prems(5) v(2)]
    by (intro Cons.IH [OF evidence_append_ok [OF s Cons.prems(1) v(1)] _ Cons.prems(3,4) _ t(1)]) auto
  ultimately show ?case using x t(2) by simp
qed simp

text \<open>
  C15: The SQLite evidence repository refines an append-only log keyed by record identity: over any sequence of appends of
  valid records, available or not, its results and its stored records are those of the log. A record whose identity is
  already stored leaves the store unchanged and is answered with the stored record when the content is the same and with
  a digest conflict when it differs; any other record is appended with the next storage sequence. The hash is injective on
  the canonical texts that occur.
\<close>
theorem evidence_append_refines_log:
  assumes "\<forall>(a, n, r) \<in> set ops. valid_evidence r" and "inj isofmt"
    and "inj_on sha ((\<lambda>(a, n, r). canonical_json (evidence_payload isofmt r)) ` set ops)"
    and "evidence_trace sha isofmt evidence_db_empty ops = (db, res)"
  shows "log_trace ([], 1) ops = (evidence_abs db, res)"
proof -
  have "evidence_abs evidence_db_empty = ([], 1)" by (simp add: evidence_abs_def stored_records_def evidence_db_empty_def)
  moreover have "\<forall>(a, n, r) \<in> set ops. valid_evidence r \<and>
      evidence_canonical isofmt r \<in> (\<lambda>(a, n, r). canonical_json (evidence_payload isofmt r)) ` set ops"
    using assms(1) by force
  ultimately show ?thesis using trace_refines [OF evidence_db_ok_empty _ assms(2,3) _ assms(4)]
    by (simp add: stored_records_def evidence_db_empty_def)
qed

subsection \<open>Reading through a high-water mark\<close>

lemma foldl_max_start: "(x::int) \<le> foldl max x xs"
  by (induction xs arbitrary: x) (simp, metis foldl_Cons max.bounded_iff)

lemma foldl_max_le: "y \<in> set xs \<Longrightarrow> (y::int) \<le> foldl max x xs"
proof (induction xs arbitrary: x)
  case (Cons z xs)
  then show ?case using foldl_max_start [of "max x z" xs] by auto
qed simp

lemma foldl_max_less: "\<forall>y \<in> set xs. y < b \<Longrightarrow> (x::int) < b \<Longrightarrow> foldl max x xs < b"
  by (induction xs arbitrary: x) simp_all

text \<open>The key by which the records of an execution are ordered.\<close>

definition record_order :: "(instant \<Rightarrow> string) \<Rightarrow> evidence_record \<Rightarrow> int \<times> int \<times> string \<times> string \<times> string" where
  "record_order isofmt r = (er_attempt r, er_event r, isofmt (er_occurred_at r), isofmt (the (er_recorded_at r)), er_id r)"

lemma filter_row_record:
  assumes "\<forall>w \<in> set ws. P (row_record w) = Q w"
  shows "map row_record (filter Q ws) = filter P (map row_record ws)"
  using assms by (induction ws) simp_all

lemma sort_key_cong: "\<forall>x \<in> set xs. f x = g x \<Longrightarrow> sort_key f xs = sort_key g xs"
proof (induction xs)
  case (Cons x xs)
  have "\<forall>y \<in> set ys. f y = g y \<Longrightarrow> f x = g x \<Longrightarrow> insort_key f x ys = insort_key g x ys" for ys by (induction ys) simp_all
  then show ?case using Cons by simp
qed simp

lemma read_execution_rows:
  assumes "evidence_db_ok sha isofmt db"
  shows "read_execution isofmt True db s e m = Inr (sort_key (record_order isofmt)
    (filter (\<lambda>r. er_namespace r = es_namespace s \<and> er_security_domain r = es_security_domain s \<and> er_execution r = e \<and>
      the (er_sequence r) \<le> m) (stored_records db)))"
proof -
  let ?ws = "filter (\<lambda>w. in_scope s w \<and> ew_execution w = e \<and> ew_sequence w \<le> m) (ed_rows db)"
  have ok: "\<forall>w \<in> set (ed_rows db). row_ok sha isofmt w" by (rule db_rows_ok [OF assms])
  have "rows_of (sort_key (event_order isofmt) ?ws) = Inr (map row_record (sort_key (event_order isofmt) ?ws))"
    using ok by (intro rows_of_ok) auto
  moreover have "sort_key (event_order isofmt) ?ws = sort_key (\<lambda>w. record_order isofmt (row_record w)) ?ws"
    using ok by (intro sort_key_cong) (auto simp: event_order_def record_order_def row_ok_record)
  moreover have "map row_record ?ws = filter (\<lambda>r. er_namespace r = es_namespace s \<and> er_security_domain r = es_security_domain s \<and>
      er_execution r = e \<and> the (er_sequence r) \<le> m) (stored_records db)"
    using ok by (subst stored_records_rows [OF assms], intro filter_row_record) (auto simp: in_scope_def row_ok_record)
  ultimately show ?thesis by (simp add: read_execution_def sort_key_map flip: sort_key_map)
qed

lemma high_water_mark_bounds:
  assumes "evidence_db_ok sha isofmt db" and "high_water_mark True db s = Inr m"
  shows "\<forall>w \<in> set (ed_rows db). in_scope s w \<longrightarrow> ew_sequence w \<le> m" "m < ed_next db"
proof -
  have m: "m = foldl max 0 (map ew_sequence (filter (in_scope s) (ed_rows db)))" using assms(2) by (simp add: high_water_mark_def)
  show "\<forall>w \<in> set (ed_rows db). in_scope s w \<longrightarrow> ew_sequence w \<le> m" unfolding m by (auto intro!: foldl_max_le)
  show "m < ed_next db" unfolding m using assms(1) by (intro foldl_max_less) (auto simp: evidence_db_ok_def)
qed

text \<open>
  C32: Snapshot reads are stable and complete: what is read for an execution through the high-water mark of a database
  reached by appends of valid records is every record of that execution stored in the scope at that moment, with its
  stamps, in the order of attempt, event, times and identity; and it is the same after any further appends.
\<close>
theorem snapshot_reads_are_stable:
  assumes "\<forall>(a, n, r) \<in> set (before @ after). valid_evidence r" and "high_water_mark True db s = Inr m"
    and "db = evidence_run sha isofmt evidence_db_empty before"
  shows "read_execution isofmt True (evidence_run sha isofmt db after) s e m = Inr (sort_key (record_order isofmt)
    (filter (\<lambda>r. er_namespace r = es_namespace s \<and> er_security_domain r = es_security_domain s \<and> er_execution r = e)
      (stored_records db)))"
proof -
  have v: "\<forall>(a, n, r) \<in> set before. valid_evidence r" "\<forall>(a, n, r) \<in> set after. valid_evidence r" using assms(1) by auto
  have ok: "evidence_db_ok sha isofmt db" unfolding assms(3) by (rule evidence_run_ok [OF evidence_db_ok_empty v(1)])
  note bounds = high_water_mark_bounds [OF ok assms(2)]
  have ok': "evidence_db_ok sha isofmt (evidence_run sha isofmt db after)" by (rule evidence_run_ok [OF ok v(2)])
  obtain new where new: "ed_rows (evidence_run sha isofmt db after) = ed_rows db @ new" "\<forall>w \<in> set new. ed_next db \<le> ew_sequence w"
    using evidence_run_grows [OF ok v(2)] by blast
  let ?P = "\<lambda>w. in_scope s w \<and> ew_execution w = e \<and> ew_sequence w \<le> m"
  have "filter ?P new = []" using new(2) bounds(2) by (force simp: filter_empty_conv)
  then have "read_execution isofmt True (evidence_run sha isofmt db after) s e m = read_execution isofmt True db s e m"
    by (simp add: read_execution_def new(1))
  moreover have "filter (\<lambda>r. er_namespace r = es_namespace s \<and> er_security_domain r = es_security_domain s \<and> er_execution r = e \<and>
      the (er_sequence r) \<le> m) (stored_records db) =
    filter (\<lambda>r. er_namespace r = es_namespace s \<and> er_security_domain r = es_security_domain s \<and> er_execution r = e) (stored_records db)"
    unfolding stored_records_rows [OF ok]
    using bounds(1) db_rows_ok [OF ok] by (intro filter_cong) (auto simp: in_scope_def row_ok_record)
  ultimately show ?thesis by (simp add: read_execution_rows [OF ok])
qed

subsection \<open>Concrete runs\<close>

lemma short_text_allowed: "length s < 3 \<Longrightarrow> \<not> prohibited_text s"
proof -
  have "3 \<le> re_min re_sensitive" "3 \<le> re_min re_host_path"
    by (simp_all add: re_sensitive_def re_host_path_def re_literal_i_def re_literal_def re_sep_opt_def re_opt_def re_one_of_def re_space_def)
  then show "length s < 3 \<Longrightarrow> ?thesis" using re_search_min [of _ s] by (force simp: prohibited_text_def)
qed

definition example_iso :: "instant \<Rightarrow> string" where
  "example_iso n = (if 0 \<le> n then replicate (nat n) CHR ''1'' else CHR ''-'' # replicate (nat (- n)) CHR ''1'')"

lemma example_iso_inj: "inj example_iso"
proof (rule injI)
  fix x y assume "example_iso x = example_iso y"
  then have "length (example_iso x) = length (example_iso y)" "hd (example_iso x) = CHR ''-'' \<longleftrightarrow> hd (example_iso y) = CHR ''-''"
    "example_iso x = [] \<longleftrightarrow> example_iso y = []" by simp_all
  then show "x = y" by (auto simp: example_iso_def split: if_splits)
qed

definition example_evidence :: "string \<Rightarrow> string \<Rightarrow> int \<Rightarrow> evidence_record" where
  "example_evidence i outcome event = \<lparr>er_id = i, er_namespace = ''n'', er_security_domain = ''d'', er_execution = ''x'', er_workflow = ''w'',
     er_task = ''t'', er_attempt = 1, er_event = event, er_event_type = CAPABILITY_OUTCOME, er_occurred_at = 3, er_runtime = ''r'',
     er_instance = ''i'', er_capability = Some ''c'', er_decision = E_ALLOW, er_reason = ''OK'', er_correlation = None, er_calls = 1,
     er_outcome = OC_SUCCEEDED, er_outcome_reference = Some outcome, er_references = [], er_limitation = None,
     er_supersedes = None, er_schema_version = 1, er_sequence = None, er_recorded_at = None\<rparr>"

lemma example_evidence_valid:
  assumes "i \<in> {''a'', ''b''}" and "outcome \<in> {''o'', ''p''}" and "1 \<le> event"
  shows "valid_evidence (example_evidence i outcome event)"
proof -
  have chars: "\<forall>c \<in> set ''ndxwtricabop''. alnum_i c \<and> nonblank [c]"
    by (simp add: alnum_i_def ascii_lower_def ascii_upper_def to_lower_def nonblank_iff py_space_def)
  have ok: "evidence_code ''OK'' \<and> nonblank ''OK''"
    by (simp add: evidence_code_def ascii_upper_def nonblank_iff py_space_def)
  have ev: "evidence_text False [c] code = Inr [c]" if "c \<in> set ''ndxwtricabop''" for c code
    using bspec [OF chars that] short_text_allowed [of "[c]"] by (simp add: evidence_text_def MAX_TEXT_def evidence_identity_def)
  have "evidence_text True ''OK'' code = Inr ''OK''" for code
    using ok short_text_allowed [of "''OK''"] by (simp add: evidence_text_def MAX_TEXT_def)
  then show ?thesis using assms
    by (auto simp: valid_iff example_evidence_def evidence_checks_def optional_text_def MAX_REFS_def ev)
qed

theorem evidence_append_refines_log_witness:
  "snd (evidence_trace (\<lambda>s. s) example_iso evidence_db_empty [(True, 5, example_evidence ''a'' ''o'' 1), (False, 6, example_evidence ''b'' ''o'' 2),
      (True, 7, example_evidence ''a'' ''o'' 1), (True, 8, example_evidence ''a'' ''p'' 1), (True, 9, example_evidence ''b'' ''o'' 2)]) =
    [Inr (APPENDED, stamped (example_evidence ''a'' ''o'' 1) 1 5), Inl ''EVIDENCE_REPOSITORY_UNAVAILABLE'',
     Inr (REPLAYED, stamped (example_evidence ''a'' ''o'' 1) 1 5), Inl ''EVIDENCE_DIGEST_CONFLICT'',
     Inr (APPENDED, stamped (example_evidence ''b'' ''o'' 2) 2 9)]"
proof -
  let ?ops = "[(True, 5, example_evidence ''a'' ''o'' 1), (False, 6, example_evidence ''b'' ''o'' 2),
      (True, 7, example_evidence ''a'' ''o'' 1), (True, 8, example_evidence ''a'' ''p'' 1), (True, 9, example_evidence ''b'' ''o'' 2)]"
  obtain db res where t: "evidence_trace (\<lambda>s. s) example_iso evidence_db_empty ?ops = (db, res)" by (metis surj_pair)
  have "\<forall>(a, n, r) \<in> set ?ops. valid_evidence r" using example_evidence_valid by simp
  then have "log_trace ([], 1) ?ops = (evidence_abs db, res)"
    by (rule evidence_append_refines_log [OF _ example_iso_inj _ t]) (simp add: inj_on_def)
  then have "res = snd (log_trace ([], 1) ?ops)" by simp
  also have "\<dots> = [Inr (APPENDED, stamped (example_evidence ''a'' ''o'' 1) 1 5), Inl ''EVIDENCE_REPOSITORY_UNAVAILABLE'',
     Inr (REPLAYED, stamped (example_evidence ''a'' ''o'' 1) 1 5), Inl ''EVIDENCE_DIGEST_CONFLICT'',
     Inr (APPENDED, stamped (example_evidence ''b'' ''o'' 2) 2 9)]"
    by (simp add: log_append_def same_content_def stamped_def example_evidence_def)
  finally show ?thesis using t by simp
qed

theorem snapshot_reads_are_stable_witness:
  "read_execution example_iso True
     (evidence_run (\<lambda>s. s) example_iso evidence_db_empty [(True, 5, example_evidence ''a'' ''o'' 2), (True, 6, example_evidence ''b'' ''o'' 1)])
     \<lparr>es_namespace = ''n'', es_security_domain = ''d''\<rparr> ''x'' 1 = Inr [stamped (example_evidence ''a'' ''o'' 2) 1 5]"
proof -
  let ?s = "\<lparr>es_namespace = ''n'', es_security_domain = ''d''\<rparr>" and ?a = "example_evidence ''a'' ''o'' 2"
  let ?db = "evidence_run (\<lambda>s. s) example_iso evidence_db_empty [(True, 5, ?a)]"
  have v: "\<forall>(a, n, r) \<in> set ([(True, 5, ?a)] @ [(True, 6, example_evidence ''b'' ''o'' 1)]). valid_evidence r"
    using example_evidence_valid by simp
  have rows: "ed_rows ?db = [to_values (\<lambda>s. s) example_iso ?a 1 5]"
    by (simp add: evidence_run_def evidence_append_def evidence_db_empty_def)
  have "stored_records ?db = [stamped ?a 1 5]" using v by (simp add: stored_records_def rows from_row_to_values)
  moreover have "high_water_mark True ?db ?s = Inr 1"
    by (simp add: high_water_mark_def rows in_scope_def) (simp add: example_evidence_def)
  ultimately have "read_execution example_iso True (evidence_run (\<lambda>s. s) example_iso ?db [(True, 6, example_evidence ''b'' ''o'' 1)]) ?s ''x'' 1
      = Inr [stamped ?a 1 5]"
    using snapshot_reads_are_stable [OF v _ refl, where sha = "\<lambda>s. s" and s = ?s and m = 1 and e = "''x''"]
    by (simp add: stamped_def example_evidence_def)
  then show ?thesis by (simp add: evidence_run_def)
qed

end
