(* ===== verification/Py_Datetime.thy ===== *)
theory Py_Datetime
  imports Prelude
begin

text \<open>
  The \<open>datetime\<close> values of the standard library, as far as the program writes and reads them as text.

  The locale states what the serializers rely on: \<open>fromisoformat\<close> undoes \<open>isoformat\<close>. The model of the
  values themselves is that of datetimes in UTC: the calendar fields, written with the fraction of a
  second only when there is one. Of the texts \<open>fromisoformat\<close> accepts, the model accepts those of this form.
\<close>

locale datetime_text =
  fixes isofmt :: "'d \<Rightarrow> string" and parse :: "string \<Rightarrow> 'd option"
  assumes parse_isofmt: "parse (isofmt t) = Some t"
begin

lemma isofmt_inj: "inj isofmt"
  by (metis injI option.inject parse_isofmt)

end

subsection \<open>Numbers of fixed width\<close>

primrec digits :: "nat \<Rightarrow> nat \<Rightarrow> string" where
  "digits 0 n = []"
| "digits (Suc w) n = digits w (n div 10) @ [char_of (48 + n mod 10)]"

definition is_digit :: "char \<Rightarrow> bool" where
  "is_digit c = (48 \<le> (of_char c :: nat) \<and> of_char c \<le> (57 :: nat))"

definition read_digits :: "nat \<Rightarrow> string \<Rightarrow> (nat \<times> string) option" where
  "read_digits w s = (if length (take w s) = w \<and> list_all is_digit (take w s) then Some (read_nat (take w s), drop w s) else None)"

definition expect :: "char \<Rightarrow> string \<Rightarrow> string option" where
  "expect c s = (case s of [] \<Rightarrow> None | x # xs \<Rightarrow> if x = c then Some xs else None)"

lemma length_digits [simp]: "length (digits w n) = w"
  by (induction w arbitrary: n) simp_all

lemma digit_char: "of_char (char_of (48 + n mod 10) :: char) = (48 + n mod 10 :: nat)"
proof -
  have "n mod 10 < 10" by simp
  then have "48 + n mod 10 < 256" by linarith
  then show ?thesis by simp
qed

lemma digits_are_digits: "list_all is_digit (digits w n)"
proof (induction w arbitrary: n)
  case (Suc w)
  have "n mod 10 < 10" by simp
  then have "48 + n mod 10 \<le> 57" by linarith
  then show ?case using Suc.IH [of "n div 10"] by (simp add: is_digit_def digit_char)
qed simp

lemma read_nat_append: "read_nat (s @ [c]) = 10 * read_nat s + (of_char c - 48)"
  by (simp add: read_nat_def)

lemma read_nat_digits: "n < 10 ^ w \<Longrightarrow> read_nat (digits w n) = n"
proof (induction w arbitrary: n)
  case (Suc w)
  have "n div 10 < 10 ^ w" using Suc.prems by (simp add: less_mult_imp_div_less mult.commute)
  then have "read_nat (digits w (n div 10)) = n div 10" by (rule Suc.IH)
  then show ?case by (simp only: digits.simps read_nat_append digit_char) simp
qed (simp add: read_nat_def)

lemma read_digits_append: "n < 10 ^ w \<Longrightarrow> read_digits w (digits w n @ s) = Some (n, s)"
  by (simp add: read_digits_def read_nat_digits digits_are_digits)

subsection \<open>Datetimes in UTC\<close>

record utc_fields =
  dt_year :: nat
  dt_month :: nat
  dt_day :: nat
  dt_hour :: nat
  dt_minute :: nat
  dt_second :: nat
  dt_microsecond :: nat

definition days_in_month :: "nat \<Rightarrow> nat \<Rightarrow> nat" where
  "days_in_month y m = (if m = 2 then (if y mod 4 = 0 \<and> (y mod 100 \<noteq> 0 \<or> y mod 400 = 0) then 29 else 28)
     else if m \<in> {4, 6, 9, 11} then 30 else 31)"

definition utc_valid :: "utc_fields \<Rightarrow> bool" where
  "utc_valid f = (1 \<le> dt_year f \<and> dt_year f \<le> 9999 \<and> 1 \<le> dt_month f \<and> dt_month f \<le> 12 \<and> 1 \<le> dt_day f \<and>
     dt_day f \<le> days_in_month (dt_year f) (dt_month f) \<and> dt_hour f < 24 \<and> dt_minute f < 60 \<and> dt_second f < 60 \<and>
     dt_microsecond f < 1000000)"

typedef datetime = "{f. utc_valid f}"
  by (rule exI [of _ "\<lparr>dt_year = 1, dt_month = 1, dt_day = 1, dt_hour = 0, dt_minute = 0, dt_second = 0, dt_microsecond = 0\<rparr>"])
    (simp add: utc_valid_def days_in_month_def)

definition iso_fields :: "utc_fields \<Rightarrow> string" where
  "iso_fields f = digits 4 (dt_year f) @ CHR ''-'' # digits 2 (dt_month f) @ CHR ''-'' # digits 2 (dt_day f) @ CHR ''T'' #
     digits 2 (dt_hour f) @ CHR '':'' # digits 2 (dt_minute f) @ CHR '':'' # digits 2 (dt_second f) @
     (if dt_microsecond f = 0 then [] else CHR ''.'' # digits 6 (dt_microsecond f)) @ ''+00:00''"

definition read_fraction :: "string \<Rightarrow> (nat \<times> string) option" where
  "read_fraction s = (case expect (CHR ''.'') s of None \<Rightarrow> Some (0, s) | Some rest \<Rightarrow> read_digits 6 rest)"

definition parse_fields :: "string \<Rightarrow> utc_fields option" where
  "parse_fields s0 =
     Option.bind (read_digits 4 s0) (\<lambda>(y, s1). Option.bind (expect (CHR ''-'') s1) (\<lambda>s2.
     Option.bind (read_digits 2 s2) (\<lambda>(mo, s3). Option.bind (expect (CHR ''-'') s3) (\<lambda>s4.
     Option.bind (read_digits 2 s4) (\<lambda>(d, s5). Option.bind (expect (CHR ''T'') s5) (\<lambda>s6.
     Option.bind (read_digits 2 s6) (\<lambda>(h, s7). Option.bind (expect (CHR '':'') s7) (\<lambda>s8.
     Option.bind (read_digits 2 s8) (\<lambda>(mi, s9). Option.bind (expect (CHR '':'') s9) (\<lambda>s10.
     Option.bind (read_digits 2 s10) (\<lambda>(se, s11). Option.bind (read_fraction s11) (\<lambda>(us, s12).
     if s12 = ''+00:00'' then Some \<lparr>dt_year = y, dt_month = mo, dt_day = d, dt_hour = h, dt_minute = mi, dt_second = se,
       dt_microsecond = us\<rparr> else None))))))))))))"

definition isoformat :: "datetime \<Rightarrow> string" where
  "isoformat t = iso_fields (Rep_datetime t)"

definition fromisoformat :: "string \<Rightarrow> datetime option" where
  "fromisoformat s = Option.bind (parse_fields s) (\<lambda>f. if utc_valid f then Some (Abs_datetime f) else None)"

lemma expect_Cons [simp]: "expect c (c # s) = Some s"
  by (simp add: expect_def)

lemma fraction_round_trip:
  "n < 1000000 \<Longrightarrow> read_fraction ((if n = 0 then [] else CHR ''.'' # digits 6 n) @ ''+00:00'') = Some (n, ''+00:00'')"
  by (auto simp: read_fraction_def read_digits_append simp del: digits.simps) (simp add: expect_def)

lemma parse_iso_fields:
  assumes "utc_valid f"
  shows "parse_fields (iso_fields f) = Some f"
proof -
  have "dt_year f < 10 ^ 4" "dt_month f < 10 ^ 2" "dt_hour f < 10 ^ 2" "dt_minute f < 10 ^ 2" "dt_second f < 10 ^ 2"
    using assms by (auto simp: utc_valid_def)
  moreover have "days_in_month (dt_year f) (dt_month f) \<le> 31" by (simp add: days_in_month_def)
  then have "dt_day f \<le> 31" using assms order_trans by (simp add: utc_valid_def)
  then have "dt_day f < 10 ^ 2" by simp
  moreover have "dt_microsecond f < 1000000" using assms by (simp add: utc_valid_def)
  ultimately show ?thesis
    by (simp add: parse_fields_def iso_fields_def read_digits_append fraction_round_trip del: digits.simps)
qed

interpretation utc: datetime_text isoformat fromisoformat
proof
  fix t
  have "utc_valid (Rep_datetime t)" using Rep_datetime by simp
  then show "fromisoformat (isoformat t) = Some t"
    by (simp add: fromisoformat_def isoformat_def parse_iso_fields Rep_datetime_inverse)
qed

end
