(* ===== verification/Agent_Instances.thy ===== *)
theory Agent_Instances
  imports Py_Objects Py_Datetime
begin

text \<open>
  Agent Instances: \<open>core/src/agent_core/representation/v0_2/\<close> \<open>domain.py\<close> and \<open>serialization.py\<close>, and the
  repository port and its in-memory implementation in \<open>core/src/agent_core/repositories/\<close>.

  An error is the pair of the exception class and its message. The classes whose only checks are
  those of the static types of their fields are plain records. A datetime is a value of a type \<open>'d\<close>;
  \<open>isoformat\<close> and \<open>fromisoformat\<close> of the standard library are the parameters \<open>isofmt\<close> and \<open>parse\<close>,
  of which it is used that the second undoes the first. A constructor that the deserializer calls takes
  the JSON values it is given.

  The lemmas show that serialization loses nothing of a well-formed value, and that the in-memory
  repository, which stores serialized records, behaves as a partial map of instances; the latter is the
  interpretation of the locale that states the repository port.
\<close>

subsection \<open>Domain values\<close>

type_synonym core_error = "string \<times> string"

definition required_value :: "json \<Rightarrow> string \<Rightarrow> (core_error, string) result" where
  "required_value v field_name = (case v of
     JStr s \<Rightarrow> if nonblank s then Inr s else Inl (''InvalidDomainValueError'', field_name @ '' must be a non-empty string'')
   | _ \<Rightarrow> Inl (''InvalidDomainValueError'', field_name @ '' must be a non-empty string''))"

definition BLOCKED_FRAGMENTS :: "string list" where
  "BLOCKED_FRAGMENTS = [''secret'', ''token'', ''password'', ''credential'', ''api_key'']"

definition secret_shaped :: "string \<Rightarrow> bool" where
  "secret_shaped key = list_ex (\<lambda>f. substring_of f (concat (map casefold_char key))) BLOCKED_FRAGMENTS"

definition json_scalar :: "json \<Rightarrow> bool" where
  "json_scalar v = (case v of JList _ \<Rightarrow> False | JObj _ \<Rightarrow> False | _ \<Rightarrow> True)"

fun redacted_items :: "(string, json) dict \<Rightarrow> (core_error, (string, json) dict) result" where
  "redacted_items [] = Inr []"
| "redacted_items ((k, v) # items) =
     rbind (required_value (JStr k) ''configuration key'') (\<lambda>_.
     if secret_shaped k then Inl (''InvalidBindingError'', ''configuration contains a secret-shaped key'')
     else if \<not> json_scalar v then Inl (''InvalidBindingError'', ''configuration values must be JSON scalars'')
     else rbind (redacted_items items) (\<lambda>rest. Inr ((k, v) # rest)))"

definition redacted_configuration :: "json \<Rightarrow> (core_error, (string, json) dict) result" where
  "redacted_configuration v = (case v of JObj d \<Rightarrow> redacted_items d
     | _ \<Rightarrow> Inl (''InvalidBindingError'', ''configuration must be a mapping''))"

record definition_ref =
  dr_namespace :: string
  dr_name :: string

definition definition_ref_init :: "json \<Rightarrow> json \<Rightarrow> (core_error, definition_ref) result" where
  "definition_ref_init ns n = rbind (required_value ns ''definition namespace'') (\<lambda>a.
     rbind (required_value n ''definition name'') (\<lambda>b. Inr \<lparr>dr_namespace = a, dr_name = b\<rparr>))"

definition instance_id_init :: "json \<Rightarrow> (core_error, string) result" where
  "instance_id_init v = required_value v ''instance ID''"

definition execution_identity_init :: "json \<Rightarrow> (core_error, string) result" where
  "execution_identity_init v = required_value v ''execution identity''"

definition native_correlation_init :: "json \<Rightarrow> (core_error, string) result" where
  "native_correlation_init v = required_value v ''native correlation ID''"

record runtime_binding =
  rb_id :: string
  rb_provider :: string
  rb_mode :: string
  rb_package :: "string option"
  rb_configuration :: "(string, json) dict"

definition package_ref_init :: "json \<Rightarrow> (core_error, string option) result" where
  "package_ref_init v = (case v of JNull \<Rightarrow> Inr None | _ \<Rightarrow> rbind (required_value v ''package reference'') (\<lambda>s. Inr (Some s)))"

definition runtime_binding_init :: "json \<Rightarrow> json \<Rightarrow> json \<Rightarrow> json \<Rightarrow> json \<Rightarrow> (core_error, runtime_binding) result" where
  "runtime_binding_init i p m pk c =
     rbind (required_value i ''binding ID'') (\<lambda>i'. rbind (required_value p ''provider reference'') (\<lambda>p'.
     rbind (required_value m ''binding mode'') (\<lambda>m'. rbind (package_ref_init pk) (\<lambda>pk'.
     rbind (redacted_configuration c) (\<lambda>c'.
     Inr \<lparr>rb_id = i', rb_provider = p', rb_mode = m', rb_package = pk', rb_configuration = c'\<rparr>)))))"

record 'd effective_runtime_binding =
  ef_value :: runtime_binding
  ef_resolved_at :: 'd

record 'd native_realization =
  nr_system :: string
  nr_kind :: string
  nr_id :: string
  nr_observed_at :: 'd
  nr_active :: bool

definition native_realization_init :: "json \<Rightarrow> json \<Rightarrow> string \<Rightarrow> 'd \<Rightarrow> json \<Rightarrow> (core_error, 'd native_realization) result" where
  "native_realization_init sy k i t ac =
     rbind (required_value sy ''native evidence system'') (\<lambda>sy'. rbind (required_value k ''native evidence kind'') (\<lambda>k'.
     case ac of JBool b \<Rightarrow> Inr \<lparr>nr_system = sy', nr_kind = k', nr_id = i, nr_observed_at = t, nr_active = b\<rparr>
     | _ \<Rightarrow> Inl (''InvalidNativeEvidenceError'', ''active must be a boolean'')))"

record selected_evidence =
  sv_definition :: definition_ref
  sv_instance :: string
  sv_authority :: string
  sv_reason :: "string option"

definition selected_evidence_init :: "selected_evidence \<Rightarrow> (core_error, selected_evidence) result" where
  "selected_evidence_init e = rbind (required_value (JStr (sv_authority e)) ''selection authority'') (\<lambda>_.
     case sv_reason e of None \<Rightarrow> Inr e | Some r \<Rightarrow> rbind (required_value (JStr r) ''selection reason'') (\<lambda>_. Inr e))"

record 'd execution_identity_record =
  ei_execution :: string
  ei_root :: string
  ei_parent :: "string option"
  ei_attempt :: int
  ei_correlations :: "string list"
  ei_created_at :: 'd

definition execution_record_init ::
  "string \<Rightarrow> string \<Rightarrow> string option \<Rightarrow> json \<Rightarrow> string list \<Rightarrow> 'd \<Rightarrow> (core_error, 'd execution_identity_record) result" where
  "execution_record_init x root parent attempt corr t = (case attempt of
     JInt n \<Rightarrow>
       if n < 1 then Inl (''InvalidDomainValueError'', ''execution attempt must be positive'')
       else if x = root \<and> parent \<noteq> None then Inl (''InvalidDomainValueError'', ''root execution cannot have a parent'')
       else if x \<noteq> root \<and> parent = None then Inl (''InvalidDomainValueError'', ''child execution requires a parent'')
       else if parent = Some x then Inl (''InvalidDomainValueError'', ''execution cannot be its own parent'')
       else Inr \<lparr>ei_execution = x, ei_root = root, ei_parent = parent, ei_attempt = n, ei_correlations = corr, ei_created_at = t\<rparr>
   | _ \<Rightarrow> Inl (''InvalidDomainValueError'', ''execution attempt must be an integer''))"

datatype instance_lifecycle = ACTIVE | INACTIVE

record 'd agent_instance =
  ai_id :: string
  ai_definition :: definition_ref
  ai_lifecycle :: instance_lifecycle
  ai_desired :: runtime_binding
  ai_created_at :: 'd
  ai_updated_at :: 'd
  ai_effective :: "'d effective_runtime_binding option"
  ai_realizations :: "'d native_realization list"

definition with_realization :: "'d agent_instance \<Rightarrow> 'd native_realization \<Rightarrow> 'd \<Rightarrow> 'd agent_instance" where
  "with_realization i e t = i\<lparr>ai_realizations := ai_realizations i @ [e], ai_updated_at := t\<rparr>"

definition with_effective_binding :: "'d agent_instance \<Rightarrow> 'd effective_runtime_binding \<Rightarrow> 'd \<Rightarrow> 'd agent_instance" where
  "with_effective_binding i b t = i\<lparr>ai_effective := Some b, ai_updated_at := t\<rparr>"

subsection \<open>Serialization\<close>

definition SCHEMA_VERSION :: string where
  "SCHEMA_VERSION = ''core.agentos.io/prototype-v0.2''"

definition json_opt :: "string option \<Rightarrow> json" where
  "json_opt v = (case v of None \<Rightarrow> JNull | Some s \<Rightarrow> JStr s)"

definition has_keys :: "string list \<Rightarrow> json \<Rightarrow> bool" where
  "has_keys ks v = (case v of JObj d \<Rightarrow> set (dict_keys d) = set ks | _ \<Rightarrow> False)"

definition jfield :: "json \<Rightarrow> string \<Rightarrow> json" where
  "jfield v k = (case jget v k of None \<Rightarrow> JNull | Some x \<Rightarrow> x)"

definition parse_datetime :: "(string \<Rightarrow> 'd option) \<Rightarrow> json \<Rightarrow> (core_error, 'd) result" where
  "parse_datetime parse v = (case v of
     JStr s \<Rightarrow> (case parse s of Some t \<Rightarrow> Inr t | None \<Rightarrow> Inl (''ValueError'', ''Invalid isoformat string: '' @ py_repr s))
   | _ \<Rightarrow> Inl (''TypeError'', ''fromisoformat: argument must be str''))"

definition binding_to_dict :: "runtime_binding \<Rightarrow> json" where
  "binding_to_dict b = JObj [(''bindingId'', JStr (rb_id b)), (''providerRef'', JStr (rb_provider b)), (''mode'', JStr (rb_mode b)),
     (''packageRef'', json_opt (rb_package b)), (''configuration'', JObj (rb_configuration b))]"

definition binding_from_dict :: "json \<Rightarrow> (core_error, runtime_binding) result" where
  "binding_from_dict v =
     (if \<not> has_keys [''bindingId'', ''providerRef'', ''mode'', ''packageRef'', ''configuration''] v
        then Inl (''InvalidDomainValueError'', ''invalid Runtime Binding fixture shape'')
      else runtime_binding_init (jfield v ''bindingId'') (jfield v ''providerRef'') (jfield v ''mode'') (jfield v ''packageRef'')
        (jfield v ''configuration''))"

definition lifecycle_text :: "instance_lifecycle \<Rightarrow> string" where
  "lifecycle_text l = (case l of ACTIVE \<Rightarrow> ''ACTIVE'' | INACTIVE \<Rightarrow> ''INACTIVE'')"

definition lifecycle_of :: "json \<Rightarrow> (core_error, instance_lifecycle) result" where
  "lifecycle_of v = (if v = JStr ''ACTIVE'' then Inr ACTIVE else if v = JStr ''INACTIVE'' then Inr INACTIVE
     else Inl (''ValueError'', (case v of JStr s \<Rightarrow> py_repr s | _ \<Rightarrow> ''value'') @ '' is not a valid AgentInstanceLifecycle''))"

definition realization_to_dict :: "('d \<Rightarrow> string) \<Rightarrow> 'd native_realization \<Rightarrow> json" where
  "realization_to_dict isofmt x = JObj [(''system'', JStr (nr_system x)), (''kind'', JStr (nr_kind x)), (''id'', JStr (nr_id x)),
     (''observedAt'', JStr (isofmt (nr_observed_at x))), (''active'', JBool (nr_active x))]"

definition realization_from_dict :: "(string \<Rightarrow> 'd option) \<Rightarrow> json \<Rightarrow> (core_error, 'd native_realization) result" where
  "realization_from_dict parse v = rbind (native_correlation_init (jfield v ''id'')) (\<lambda>i.
     rbind (parse_datetime parse (jfield v ''observedAt'')) (\<lambda>t.
     native_realization_init (jfield v ''system'') (jfield v ''kind'') i t (jfield v ''active'')))"

fun each_result :: "('a \<Rightarrow> ('e, 'b) result) \<Rightarrow> 'a list \<Rightarrow> ('e, 'b list) result" where
  "each_result f [] = Inr []"
| "each_result f (x # xs) = rbind (f x) (\<lambda>y. rbind (each_result f xs) (\<lambda>ys. Inr (y # ys)))"

definition effective_to_dict :: "('d \<Rightarrow> string) \<Rightarrow> 'd effective_runtime_binding option \<Rightarrow> json" where
  "effective_to_dict isofmt e = (case e of None \<Rightarrow> JNull
     | Some b \<Rightarrow> JObj [(''binding'', binding_to_dict (ef_value b)), (''resolvedAt'', JStr (isofmt (ef_resolved_at b)))])"

definition effective_from_dict ::
  "(string \<Rightarrow> 'd option) \<Rightarrow> json \<Rightarrow> (core_error, 'd effective_runtime_binding option) result" where
  "effective_from_dict parse v =
     (if v = JNull then Inr None
      else if \<not> has_keys [''binding'', ''resolvedAt''] v
        then Inl (''InvalidDomainValueError'', ''invalid effective Runtime Binding fixture'')
      else rbind (binding_from_dict (jfield v ''binding'')) (\<lambda>b. rbind (parse_datetime parse (jfield v ''resolvedAt'')) (\<lambda>t.
        Inr (Some \<lparr>ef_value = b, ef_resolved_at = t\<rparr>))))"

definition agent_instance_to_dict :: "('d \<Rightarrow> string) \<Rightarrow> 'd agent_instance \<Rightarrow> json" where
  "agent_instance_to_dict isofmt i = JObj [(''schemaVersion'', JStr SCHEMA_VERSION), (''instance'', JObj [
     (''instanceId'', JStr (ai_id i)),
     (''definitionRef'', JObj [(''kind'', JStr ''AgentDefinition''), (''namespace'', JStr (dr_namespace (ai_definition i))),
        (''name'', JStr (dr_name (ai_definition i)))]),
     (''lifecycle'', JStr (lifecycle_text (ai_lifecycle i))),
     (''desiredRuntimeBinding'', binding_to_dict (ai_desired i)),
     (''effectiveRuntimeBinding'', effective_to_dict isofmt (ai_effective i)),
     (''realizations'', JList (map (realization_to_dict isofmt) (ai_realizations i))),
     (''createdAt'', JStr (isofmt (ai_created_at i))), (''updatedAt'', JStr (isofmt (ai_updated_at i)))])]"

definition realizations_from :: "(string \<Rightarrow> 'd option) \<Rightarrow> json \<Rightarrow> (core_error, json list) result" where
  "realizations_from parse v = (case v of
     JList items \<Rightarrow> if list_ex (\<lambda>x. \<not> has_keys [''system'', ''kind'', ''id'', ''observedAt'', ''active''] x) items
       then Inl (''InvalidDomainValueError'', ''invalid native realization fixture shape'') else Inr items
   | _ \<Rightarrow> Inl (''InvalidDomainValueError'', ''realizations must be a list''))"

definition agent_instance_from_dict :: "(string \<Rightarrow> 'd option) \<Rightarrow> json \<Rightarrow> (core_error, 'd agent_instance) result" where
  "agent_instance_from_dict parse payload =
     (if \<not> has_keys [''schemaVersion'', ''instance''] payload
        then Inl (''InvalidDomainValueError'', ''invalid Agent Instance fixture envelope'')
      else if jfield payload ''schemaVersion'' \<noteq> JStr SCHEMA_VERSION
        then Inl (''InvalidDomainValueError'', ''unsupported internal fixture schema version'')
      else let v = jfield payload ''instance''; ref = jfield v ''definitionRef'' in
        if \<not> has_keys [''instanceId'', ''definitionRef'', ''lifecycle'', ''desiredRuntimeBinding'', ''effectiveRuntimeBinding'',
             ''realizations'', ''createdAt'', ''updatedAt''] v
          then Inl (''InvalidDomainValueError'', ''invalid Agent Instance fixture shape'')
        else if \<not> has_keys [''kind'', ''namespace'', ''name''] ref
          then Inl (''InvalidDomainValueError'', ''invalid Definition reference fixture shape'')
        else if jfield ref ''kind'' \<noteq> JStr ''AgentDefinition''
          then Inl (''InvalidDomainValueError'', ''Definition reference kind must be AgentDefinition'')
        else rbind (effective_from_dict parse (jfield v ''effectiveRuntimeBinding'')) (\<lambda>effective.
          rbind (realizations_from parse (jfield v ''realizations'')) (\<lambda>items.
          rbind (instance_id_init (jfield v ''instanceId'')) (\<lambda>i.
          rbind (definition_ref_init (jfield ref ''namespace'') (jfield ref ''name'')) (\<lambda>d.
          rbind (lifecycle_of (jfield v ''lifecycle'')) (\<lambda>l.
          rbind (binding_from_dict (jfield v ''desiredRuntimeBinding'')) (\<lambda>b.
          rbind (each_result (realization_from_dict parse) items) (\<lambda>rs.
          rbind (parse_datetime parse (jfield v ''createdAt'')) (\<lambda>c.
          rbind (parse_datetime parse (jfield v ''updatedAt'')) (\<lambda>u.
          Inr \<lparr>ai_id = i, ai_definition = d, ai_lifecycle = l, ai_desired = b, ai_created_at = c, ai_updated_at = u,
            ai_effective = effective, ai_realizations = rs\<rparr>))))))))))"

definition execution_identity_to_dict :: "('d \<Rightarrow> string) \<Rightarrow> 'd execution_identity_record \<Rightarrow> json" where
  "execution_identity_to_dict isofmt r = JObj [(''schemaVersion'', JStr SCHEMA_VERSION), (''executionIdentity'', JObj [
     (''executionId'', JStr (ei_execution r)), (''rootExecutionId'', JStr (ei_root r)), (''parentExecutionId'', json_opt (ei_parent r)),
     (''attempt'', JInt (ei_attempt r)), (''nativeCorrelations'', JList (map JStr (ei_correlations r))),
     (''createdAt'', JStr (isofmt (ei_created_at r)))])]"

definition execution_identity_from_dict :: "(string \<Rightarrow> 'd option) \<Rightarrow> json \<Rightarrow> (core_error, 'd execution_identity_record) result" where
  "execution_identity_from_dict parse payload =
     (if \<not> has_keys [''schemaVersion'', ''executionIdentity''] payload
        then Inl (''InvalidDomainValueError'', ''invalid execution identity fixture envelope'')
      else if jfield payload ''schemaVersion'' \<noteq> JStr SCHEMA_VERSION
        then Inl (''InvalidDomainValueError'', ''unsupported internal fixture schema version'')
      else let v = jfield payload ''executionIdentity'' in
        if \<not> has_keys [''executionId'', ''rootExecutionId'', ''parentExecutionId'', ''attempt'', ''nativeCorrelations'', ''createdAt''] v
          then Inl (''InvalidDomainValueError'', ''invalid execution identity fixture shape'')
        else case jfield v ''nativeCorrelations'' of
          JList items \<Rightarrow>
            rbind (execution_identity_init (jfield v ''executionId'')) (\<lambda>x.
            rbind (execution_identity_init (jfield v ''rootExecutionId'')) (\<lambda>root.
            rbind (if jfield v ''parentExecutionId'' = JNull then Inr None
              else rbind (execution_identity_init (jfield v ''parentExecutionId'')) (\<lambda>p. Inr (Some p))) (\<lambda>parent.
            rbind (each_result native_correlation_init items) (\<lambda>corr.
            rbind (parse_datetime parse (jfield v ''createdAt'')) (\<lambda>t.
            execution_record_init x root parent (jfield v ''attempt'') corr t)))))
        | _ \<Rightarrow> Inl (''InvalidDomainValueError'', ''native correlations must be a list''))"

subsection \<open>Well-formed values survive serialization\<close>

definition binding_ok :: "runtime_binding \<Rightarrow> bool" where
  "binding_ok b = (nonblank (rb_id b) \<and> nonblank (rb_provider b) \<and> nonblank (rb_mode b) \<and>
     (case rb_package b of None \<Rightarrow> True | Some p \<Rightarrow> nonblank p) \<and>
     list_all (\<lambda>(k, v). nonblank k \<and> \<not> secret_shaped k \<and> json_scalar v) (rb_configuration b))"

definition instance_ok :: "'d agent_instance \<Rightarrow> bool" where
  "instance_ok i = (nonblank (ai_id i) \<and> nonblank (dr_namespace (ai_definition i)) \<and> nonblank (dr_name (ai_definition i)) \<and>
     binding_ok (ai_desired i) \<and> (case ai_effective i of None \<Rightarrow> True | Some e \<Rightarrow> binding_ok (ef_value e)) \<and>
     list_all (\<lambda>x. nonblank (nr_system x) \<and> nonblank (nr_kind x) \<and> nonblank (nr_id x)) (ai_realizations i))"

definition execution_record_ok :: "'d execution_identity_record \<Rightarrow> bool" where
  "execution_record_ok r = (nonblank (ei_execution r) \<and> nonblank (ei_root r) \<and> list_all nonblank (ei_correlations r) \<and> 1 \<le> ei_attempt r \<and>
     (case ei_parent r of None \<Rightarrow> ei_execution r = ei_root r
      | Some p \<Rightarrow> nonblank p \<and> p \<noteq> ei_execution r \<and> ei_execution r \<noteq> ei_root r))"

lemma required_value_ok [simp]: "required_value v f = Inr s \<longleftrightarrow> v = JStr s \<and> nonblank s"
  by (cases v) (auto simp: required_value_def)

lemma required_JStr: "nonblank s \<Longrightarrow> required_value (JStr s) f = Inr s" by simp

lemma redacted_items_ok:
  "redacted_items d = Inr d' \<longleftrightarrow> d' = d \<and> list_all (\<lambda>(k, v). nonblank k \<and> \<not> secret_shaped k \<and> json_scalar v) d"
proof (induction d arbitrary: d')
  case (Cons p d)
  obtain k v where "p = (k, v)" by (cases p)
  then show ?case using Cons.IH by (auto simp: rbind_Inr_iff required_JStr)
qed auto

lemma package_round_trip: "case p of None \<Rightarrow> True | Some s \<Rightarrow> nonblank s \<Longrightarrow> package_ref_init (json_opt p) = Inr p"
  by (cases p) (simp_all add: package_ref_init_def json_opt_def required_JStr)

lemma binding_round_trip: "binding_ok b \<Longrightarrow> binding_from_dict (binding_to_dict b) = Inr b"
  using redacted_items_ok [of "rb_configuration b" "rb_configuration b"]
  by (cases b) (auto simp: binding_ok_def binding_from_dict_def binding_to_dict_def has_keys_def jfield_def runtime_binding_init_def
    redacted_configuration_def package_round_trip required_JStr)

lemma each_result_map: "\<forall>x \<in> set xs. f (g x) = Inr x \<Longrightarrow> each_result f (map g xs) = Inr xs"
  by (induction xs) simp_all

lemma effective_round_trip:
  assumes "\<And>t. parse (isofmt t) = Some t" and "case e of None \<Rightarrow> True | Some x \<Rightarrow> binding_ok (ef_value x)"
  shows "effective_from_dict parse (effective_to_dict isofmt e) = Inr e"
  using assms binding_round_trip
  by (cases e) (auto simp: effective_from_dict_def effective_to_dict_def has_keys_def jfield_def parse_datetime_def)

lemma realization_round_trip:
  assumes "\<And>t. parse (isofmt t) = Some t" and "nonblank (nr_system x)" "nonblank (nr_kind x)" "nonblank (nr_id x)"
  shows "realization_from_dict parse (realization_to_dict isofmt x) = Inr x"
  using assms by (cases x) (simp add: realization_from_dict_def realization_to_dict_def jfield_def native_correlation_init_def
    parse_datetime_def native_realization_init_def required_JStr)

lemma realizations_shape: "realizations_from parse (JList (map (realization_to_dict isofmt) xs)) = Inr (map (realization_to_dict isofmt) xs)"
  by (auto simp: realizations_from_def list_ex_iff has_keys_def realization_to_dict_def)

lemma lifecycle_round_trip: "lifecycle_of (JStr (lifecycle_text l)) = Inr l"
  by (cases l) (simp_all add: lifecycle_of_def lifecycle_text_def)

lemma instance_round_trip:
  assumes "\<And>t. parse (isofmt t) = Some t" and "instance_ok i"
  shows "agent_instance_from_dict parse (agent_instance_to_dict isofmt i) = Inr i"
proof -
  have e: "effective_from_dict parse (effective_to_dict isofmt (ai_effective i)) = Inr (ai_effective i)"
    using assms by (intro effective_round_trip) (auto simp: instance_ok_def)
  have r: "each_result (realization_from_dict parse) (map (realization_to_dict isofmt) (ai_realizations i)) = Inr (ai_realizations i)"
    using assms by (intro each_result_map ballI realization_round_trip) (auto simp: instance_ok_def list_all_iff)
  have b: "binding_from_dict (binding_to_dict (ai_desired i)) = Inr (ai_desired i)"
    using assms(2) by (intro binding_round_trip) (simp add: instance_ok_def)
  have t: "parse_datetime parse (JStr (isofmt t)) = Inr t" for t using assms(1) by (simp add: parse_datetime_def)
  have d: "definition_ref_init (JStr (dr_namespace (ai_definition i))) (JStr (dr_name (ai_definition i))) = Inr (ai_definition i)"
    using assms(2) by (cases "ai_definition i") (simp add: definition_ref_init_def required_JStr instance_ok_def)
  have n: "instance_id_init (JStr (ai_id i)) = Inr (ai_id i)" using assms(2) by (simp add: instance_id_init_def instance_ok_def)
  show ?thesis
    by (simp add: agent_instance_from_dict_def agent_instance_to_dict_def has_keys_def jfield_def Let_def e r b t d n realizations_shape
      lifecycle_round_trip insert_commute)
qed

lemma execution_round_trip:
  assumes "\<And>t. parse (isofmt t) = Some t" and "execution_record_ok r"
  shows "execution_identity_from_dict parse (execution_identity_to_dict isofmt r) = Inr r"
proof -
  have c: "each_result native_correlation_init (map JStr cs) = Inr cs" if "list_all nonblank cs" for cs
    using that by (intro each_result_map) (simp add: native_correlation_init_def list_all_iff)
  have t: "parse_datetime parse (JStr (isofmt t)) = Inr t" for t using assms(1) by (simp add: parse_datetime_def)
  have i: "execution_identity_init (JStr s) = Inr s" if "nonblank s" for s using that by (simp add: execution_identity_init_def)
  show ?thesis using assms(2)
    by (cases r; cases "ei_parent r") (auto simp: execution_identity_from_dict_def execution_identity_to_dict_def has_keys_def jfield_def
      Let_def c t i json_opt_def execution_record_init_def execution_record_ok_def)
qed

text \<open>What the deserializer accepts is well-formed.\<close>

lemma runtime_binding_init_ok: "runtime_binding_init i p m pk c = Inr b \<Longrightarrow> binding_ok b"
  by (auto simp: runtime_binding_init_def package_ref_init_def redacted_configuration_def binding_ok_def
    redacted_items_ok split: json.splits)

lemma binding_from_dict_ok: "binding_from_dict v = Inr b \<Longrightarrow> binding_ok b"
  by (auto simp: binding_from_dict_def dest: runtime_binding_init_ok split: if_splits)

lemma each_result_all: "each_result f xs = Inr ys \<Longrightarrow> (\<And>x y. f x = Inr y \<Longrightarrow> P y) \<Longrightarrow> list_all P ys"
  by (induction xs arbitrary: ys) auto

lemma realization_from_dict_ok:
  "realization_from_dict parse v = Inr x \<Longrightarrow> nonblank (nr_system x) \<and> nonblank (nr_kind x) \<and> nonblank (nr_id x)"
  by (auto simp: realization_from_dict_def native_correlation_init_def native_realization_init_def split: json.splits)

lemma effective_from_dict_ok:
  "effective_from_dict parse v = Inr e \<Longrightarrow> case e of None \<Rightarrow> True | Some x \<Rightarrow> binding_ok (ef_value x)"
  by (auto simp: effective_from_dict_def dest: binding_from_dict_ok split: if_splits)

lemma agent_instance_from_dict_ok:
  assumes "agent_instance_from_dict parse p = Inr i" shows "instance_ok i"
proof -
  obtain v ei items ii d l b rs c u where
    "effective_from_dict parse (jfield v ''effectiveRuntimeBinding'') = Inr ei" "instance_id_init (jfield v ''instanceId'') = Inr ii"
    "definition_ref_init (jfield (jfield v ''definitionRef'') ''namespace'') (jfield (jfield v ''definitionRef'') ''name'') = Inr d"
    "binding_from_dict (jfield v ''desiredRuntimeBinding'') = Inr b" "each_result (realization_from_dict parse) items = Inr rs"
    and i: "i = \<lparr>ai_id = ii, ai_definition = d, ai_lifecycle = l, ai_desired = b, ai_created_at = c, ai_updated_at = u,
            ai_effective = ei, ai_realizations = rs\<rparr>"
    using assms by (auto simp: agent_instance_from_dict_def Let_def split: if_splits)
  then show ?thesis
    using each_result_all [of "realization_from_dict parse" items rs "\<lambda>x. nonblank (nr_system x) \<and> nonblank (nr_kind x) \<and> nonblank (nr_id x)"]
      realization_from_dict_ok effective_from_dict_ok binding_from_dict_ok
    by (auto simp: instance_ok_def instance_id_init_def definition_ref_init_def)
qed

subsection \<open>The in-memory repository\<close>

text \<open>
  Equality of configurations as Python dictionaries: the order does not matter, and a number equals
  a boolean of the same value. A float is compared by its text, where an integral one ends in \<open>.0\<close>.
\<close>

fun scalar_key :: "json \<Rightarrow> json" where
  "scalar_key (JBool b) = JFloat (if b then ''1.0'' else ''0.0'')"
| "scalar_key (JInt n) = JFloat (show_int n @ ''.0'')"
| "scalar_key v = v"

definition configuration_eq :: "(string, json) dict \<Rightarrow> (string, json) dict \<Rightarrow> bool" where
  "configuration_eq c d = (length c = length d \<and>
     list_all (\<lambda>(k, v). case map_of d k of None \<Rightarrow> False | Some w \<Rightarrow> scalar_key v = scalar_key w) c)"

definition binding_eq :: "runtime_binding \<Rightarrow> runtime_binding \<Rightarrow> bool" where
  "binding_eq a b = (a\<lparr>rb_configuration := []\<rparr> = b\<lparr>rb_configuration := []\<rparr> \<and>
     configuration_eq (rb_configuration a) (rb_configuration b))"

definition effective_eq :: "'d effective_runtime_binding option \<Rightarrow> 'd effective_runtime_binding option \<Rightarrow> bool" where
  "effective_eq a b = (case (a, b) of (None, None) \<Rightarrow> True
     | (Some x, Some y) \<Rightarrow> binding_eq (ef_value x) (ef_value y) \<and> ef_resolved_at x = ef_resolved_at y | _ \<Rightarrow> False)"

definition instance_eq :: "'d agent_instance \<Rightarrow> 'd agent_instance \<Rightarrow> bool" where
  "instance_eq a b = (ai_id a = ai_id b \<and> ai_definition a = ai_definition b \<and> ai_lifecycle a = ai_lifecycle b \<and>
     binding_eq (ai_desired a) (ai_desired b) \<and> ai_created_at a = ai_created_at b \<and> ai_updated_at a = ai_updated_at b \<and>
     effective_eq (ai_effective a) (ai_effective b) \<and> ai_realizations a = ai_realizations b)"

type_synonym instance_store = "(string, json) dict"

definition memory_get :: "(string \<Rightarrow> 'd option) \<Rightarrow> instance_store \<Rightarrow> string \<Rightarrow> (core_error, 'd agent_instance) result" where
  "memory_get parse records i = (case map_of records i of
     None \<Rightarrow> Inl (''InstanceNotFoundError'', ''Agent Instance not found'') | Some p \<Rightarrow> agent_instance_from_dict parse p)"

definition memory_save ::
  "('d \<Rightarrow> string) \<Rightarrow> (string \<Rightarrow> 'd option) \<Rightarrow> instance_store \<Rightarrow> 'd agent_instance
   \<Rightarrow> instance_store \<times> (core_error, 'd agent_instance) result" where
  "memory_save isofmt parse records i =
     (case (case map_of records (ai_id i) of None \<Rightarrow> Inr ()
        | Some p \<Rightarrow> rbind (agent_instance_from_dict parse p) (\<lambda>stored.
            if ai_definition stored \<noteq> ai_definition i
              then Inl (''DefinitionOwnershipConflictError'', ''Agent Instance Definition ownership cannot change'')
            else if ai_created_at stored \<noteq> ai_created_at i
              then Inl (''DuplicateInstanceError'', ''Agent Instance ID conflicts with an existing aggregate'')
            else if instance_eq stored i then Inl (''DuplicateInstanceError'', ''duplicate Agent Instance'')
            else Inr ())) of
        Inl e \<Rightarrow> (records, Inl e)
      | Inr _ \<Rightarrow> (let records' = AList.update (ai_id i) (agent_instance_to_dict isofmt i) records in
          (records', memory_get parse records' (ai_id i))))"

definition memory_list_by_definition ::
  "(string \<Rightarrow> 'd option) \<Rightarrow> instance_store \<Rightarrow> definition_ref \<Rightarrow> (core_error, 'd agent_instance list) result" where
  "memory_list_by_definition parse records d =
     rbind (each_result (agent_instance_from_dict parse) (map snd records)) (\<lambda>items.
     Inr (sort_key ai_id (filter (\<lambda>x. ai_definition x = d) items)))"

definition memory_delete :: "instance_store \<Rightarrow> string \<Rightarrow> instance_store \<times> (core_error, unit) result" where
  "memory_delete records i = (case map_of records i of
     None \<Rightarrow> (records, Inl (''InstanceNotFoundError'', ''Agent Instance not found''))
   | Some _ \<Rightarrow> (AList.delete i records, Inr ()))"

text \<open>
  The repository port: a store is seen through a list of instances with different identities. The
  laws are those of a partial map in which an instance keeps its Definition and its creation.
\<close>

definition insert_instance :: "'d agent_instance \<Rightarrow> 'd agent_instance list \<Rightarrow> 'd agent_instance list" where
  "insert_instance i xs = (if ai_id i \<in> ai_id ` set xs then map (\<lambda>x. if ai_id x = ai_id i then i else x) xs else xs @ [i])"

definition save_refused :: "'d agent_instance list \<Rightarrow> 'd agent_instance \<Rightarrow> core_error option" where
  "save_refused xs i = (case find (\<lambda>x. ai_id x = ai_id i) xs of None \<Rightarrow> None | Some x \<Rightarrow>
     if ai_definition x \<noteq> ai_definition i then Some (''DefinitionOwnershipConflictError'', ''Agent Instance Definition ownership cannot change'')
     else if ai_created_at x \<noteq> ai_created_at i then Some (''DuplicateInstanceError'', ''Agent Instance ID conflicts with an existing aggregate'')
     else if instance_eq x i then Some (''DuplicateInstanceError'', ''duplicate Agent Instance'') else None)"

datatype 'd repo_op = OpSave "'d agent_instance" | OpGet string | OpList definition_ref | OpDelete string

datatype 'd repo_answer = AnInstance "(core_error, 'd agent_instance) result" | Instances "(core_error, 'd agent_instance list) result"
  | Done "(core_error, unit) result"

fun catalog_step :: "'d agent_instance list \<Rightarrow> 'd repo_op \<Rightarrow> 'd agent_instance list \<times> 'd repo_answer" where
  "catalog_step xs (OpSave i) = (case save_refused xs i of Some e \<Rightarrow> (xs, AnInstance (Inl e)) | None \<Rightarrow> (insert_instance i xs, AnInstance (Inr i)))"
| "catalog_step xs (OpGet k) = (xs, AnInstance (case find (\<lambda>x. ai_id x = k) xs of
     None \<Rightarrow> Inl (''InstanceNotFoundError'', ''Agent Instance not found'') | Some x \<Rightarrow> Inr x))"
| "catalog_step xs (OpList d) = (xs, Instances (Inr (sort_key ai_id (filter (\<lambda>x. ai_definition x = d) xs))))"
| "catalog_step xs (OpDelete k) = (if k \<in> ai_id ` set xs then (filter (\<lambda>x. ai_id x \<noteq> k) xs, Done (Inr ()))
     else (xs, Done (Inl (''InstanceNotFoundError'', ''Agent Instance not found''))))"

fun memory_step ::
  "('d \<Rightarrow> string) \<Rightarrow> (string \<Rightarrow> 'd option) \<Rightarrow> instance_store \<Rightarrow> 'd repo_op \<Rightarrow> instance_store \<times> 'd repo_answer" where
  "memory_step isofmt parse s (OpSave i) = (case memory_save isofmt parse s i of (s', r) \<Rightarrow> (s', AnInstance r))"
| "memory_step isofmt parse s (OpGet k) = (s, AnInstance (memory_get parse s k))"
| "memory_step isofmt parse s (OpList d) = (s, Instances (memory_list_by_definition parse s d))"
| "memory_step isofmt parse s (OpDelete k) = (case memory_delete s k of (s', r) \<Rightarrow> (s', Done r))"

fun run_ops :: "('s \<Rightarrow> 'o \<Rightarrow> 's \<times> 'r) \<Rightarrow> 's \<Rightarrow> 'o list \<Rightarrow> 's \<times> 'r list" where
  "run_ops f s [] = (s, [])"
| "run_ops f s (op # ops) = (case f s op of (s', r) \<Rightarrow> case run_ops f s' ops of (s'', rs) \<Rightarrow> (s'', r # rs))"

definition saves_ok :: "'d repo_op list \<Rightarrow> bool" where
  "saves_ok ops = list_all (\<lambda>op. case op of OpSave i \<Rightarrow> instance_ok i | _ \<Rightarrow> True) ops"

locale instance_repository =
  fixes empty :: 's
    and save :: "'s \<Rightarrow> 'd agent_instance \<Rightarrow> 's \<times> (core_error, 'd agent_instance) result"
    and get :: "'s \<Rightarrow> string \<Rightarrow> (core_error, 'd agent_instance) result"
    and list_by_definition :: "'s \<Rightarrow> definition_ref \<Rightarrow> (core_error, 'd agent_instance list) result"
    and delete :: "'s \<Rightarrow> string \<Rightarrow> 's \<times> (core_error, unit) result"
    and stored :: "'s \<Rightarrow> 'd agent_instance list"
    and ok :: "'s \<Rightarrow> bool"
  assumes empty_ok: "ok empty" "stored empty = []"
    and save_law: "ok s \<Longrightarrow> instance_ok i \<Longrightarrow> (case save_refused (stored s) i of Some e \<Rightarrow> save s i = (s, Inl e)
      | None \<Rightarrow> \<exists>s'. save s i = (s', Inr i) \<and> ok s' \<and> stored s' = insert_instance i (stored s))"
    and get_law: "ok s \<Longrightarrow> get s k = (case find (\<lambda>x. ai_id x = k) (stored s) of
      None \<Rightarrow> Inl (''InstanceNotFoundError'', ''Agent Instance not found'') | Some x \<Rightarrow> Inr x)"
    and list_law: "ok s \<Longrightarrow> list_by_definition s d = Inr (sort_key ai_id (filter (\<lambda>x. ai_definition x = d) (stored s)))"
    and delete_law: "ok s \<Longrightarrow> (if k \<in> ai_id ` set (stored s)
      then \<exists>s'. delete s k = (s', Inr ()) \<and> ok s' \<and> stored s' = filter (\<lambda>x. ai_id x \<noteq> k) (stored s)
      else delete s k = (s, Inl (''InstanceNotFoundError'', ''Agent Instance not found'')))"
    and distinct_law: "ok s \<Longrightarrow> distinct (map ai_id (stored s)) \<and> list_all instance_ok (stored s)"
begin

lemma save_into_empty: "instance_ok i \<Longrightarrow> \<exists>s'. save empty i = (s', Inr i) \<and> ok s' \<and> stored s' = [i]"
  using save_law [OF empty_ok(1), of i] by (simp add: empty_ok(2) save_refused_def insert_instance_def)

lemma get_after_save:
  assumes "ok s" "instance_ok i" "save s i = (s', Inr i)"
  shows "get s' k = (if k = ai_id i then Inr i else get s k)"
proof -
  have r: "save_refused (stored s) i = None" and s': "ok s'" "stored s' = insert_instance i (stored s)"
    using save_law [OF assms(1,2)] assms(3) by (auto split: option.splits)
  have "find (\<lambda>x. ai_id x = k) (map (\<lambda>x. if ai_id x = ai_id i then i else x) xs) =
      (if k = ai_id i then if k \<in> ai_id ` set xs then Some i else None else find (\<lambda>x. ai_id x = k) xs)" for xs
    by (induction xs) auto
  moreover have "find (\<lambda>x. ai_id x = k) (xs @ [i]) = (if k = ai_id i then Some i else find (\<lambda>x. ai_id x = k) xs)"
    if "ai_id i \<notin> ai_id ` set xs" for xs using that by (induction xs) auto
  ultimately show ?thesis using get_law [OF s'(1)] get_law [OF assms(1)] by (auto simp: s'(2) insert_instance_def)
qed

end

definition memory_ok :: "('d \<Rightarrow> string) \<Rightarrow> instance_store \<Rightarrow> bool" where
  "memory_ok isofmt records = (distinct (map fst records) \<and>
     (\<forall>(k, p) \<in> set records. \<exists>i. p = agent_instance_to_dict isofmt i \<and> instance_ok i \<and> ai_id i = k))"

definition memory_stored :: "(string \<Rightarrow> 'd option) \<Rightarrow> instance_store \<Rightarrow> 'd agent_instance list" where
  "memory_stored parse records = map (\<lambda>p. projr (agent_instance_from_dict parse p)) (map snd records)"

context datetime_text
begin

lemma record_instance:
  assumes "memory_ok isofmt records" and "(k, p) \<in> set records"
  shows "\<exists>i. agent_instance_from_dict parse p = Inr i \<and> instance_ok i \<and> ai_id i = k"
  using assms instance_round_trip [OF parse_isofmt] by (fastforce simp: memory_ok_def)

lemma each_record:
  assumes "memory_ok isofmt records"
  shows "each_result (agent_instance_from_dict parse) (map snd records) = Inr (memory_stored parse records)"
  using assms
proof (induction records)
  case (Cons r records)
  obtain k p where r: "r = (k, p)" by (cases r)
  obtain i where "agent_instance_from_dict parse p = Inr i" using record_instance [OF Cons.prems, of k p] r by auto
  moreover have "memory_ok isofmt records" using Cons.prems by (auto simp: memory_ok_def)
  ultimately show ?case using Cons.IH r by (simp add: memory_stored_def)
qed (simp add: memory_stored_def)

lemma find_record:
  assumes "memory_ok isofmt records"
  shows "find (\<lambda>x. ai_id x = k) (memory_stored parse records) =
    map_option (\<lambda>p. projr (agent_instance_from_dict parse p)) (map_of records k)"
  using assms
proof (induction records)
  case (Cons r records)
  obtain j p where r: "r = (j, p)" by (cases r)
  obtain i where i: "agent_instance_from_dict parse p = Inr i" "ai_id i = j" using record_instance [OF Cons.prems, of j p] r by auto
  have "memory_ok isofmt records" using Cons.prems by (auto simp: memory_ok_def)
  then show ?case using Cons.IH r i by (simp add: memory_stored_def)
qed (simp add: memory_stored_def)

lemma lookup_record:
  assumes "memory_ok isofmt records"
  shows "map_of records k = None \<longleftrightarrow> find (\<lambda>x. ai_id x = k) (memory_stored parse records) = None"
    and "map_of records k = Some p \<Longrightarrow> agent_instance_from_dict parse p = Inr (the (find (\<lambda>x. ai_id x = k) (memory_stored parse records)))"
  using find_record [OF assms, of k] record_instance [OF assms map_of_SomeD, of k p] by (auto simp: memory_ok_def)

lemma stored_ids: "memory_ok isofmt records \<Longrightarrow> map ai_id (memory_stored parse records) = map fst records"
proof (induction records)
  case (Cons r records)
  obtain j p where r: "r = (j, p)" by (cases r)
  obtain i where "agent_instance_from_dict parse p = Inr i" "ai_id i = j" using record_instance [OF Cons.prems, of j p] r by auto
  moreover have "memory_ok isofmt records" using Cons.prems by (auto simp: memory_ok_def)
  ultimately show ?case using Cons.IH r by (simp add: memory_stored_def)
qed (simp add: memory_stored_def)

lemma memory_update_ok:
  assumes "memory_ok isofmt records" and "instance_ok i"
  shows "memory_ok isofmt (AList.update (ai_id i) (agent_instance_to_dict isofmt i) records)"
proof -
  have "set (AList.update (ai_id i) (agent_instance_to_dict isofmt i) records) \<subseteq> insert (ai_id i, agent_instance_to_dict isofmt i) (set records)"
    by (induction records) auto
  moreover have "distinct (map fst (AList.update (ai_id i) (agent_instance_to_dict isofmt i) records))"
    using assms(1) by (simp add: memory_ok_def distinct_update)
  ultimately show ?thesis using assms by (fastforce simp: memory_ok_def)
qed

lemma stored_update:
  assumes "memory_ok isofmt records" and "instance_ok i"
  shows "memory_stored parse (AList.update (ai_id i) (agent_instance_to_dict isofmt i) records) =
    insert_instance i (memory_stored parse records)"
  using assms(1)
proof (induction records)
  case Nil
  then show ?case using instance_round_trip [OF parse_isofmt assms(2)] by (simp add: memory_stored_def insert_instance_def)
next
  case (Cons r records)
  obtain j p where r: "r = (j, p)" by (cases r)
  obtain x where x: "agent_instance_from_dict parse p = Inr x" "ai_id x = j" using record_instance [OF Cons.prems, of j p] r by auto
  have ok: "memory_ok isofmt records" and j: "j \<notin> fst ` set records" using Cons.prems r by (auto simp: memory_ok_def)
  have ids: "ai_id ` set (memory_stored parse records) = fst ` set records"
    using arg_cong [OF stored_ids [OF ok], of set] by simp
  have same: "map (\<lambda>y. if ai_id y = ai_id i then i else y) (memory_stored parse records) = memory_stored parse records" if "ai_id i = j"
    using ids j that by (intro map_idI) (metis image_eqI)
  have st: "memory_stored parse ((j, p) # rs) = x # memory_stored parse rs" for rs using x by (simp add: memory_stored_def)
  have st': "memory_stored parse ((j, agent_instance_to_dict isofmt i) # rs) = i # memory_stored parse rs" for rs
    using instance_round_trip [OF parse_isofmt assms(2)] by (simp add: memory_stored_def)
  show ?case
  proof (cases "ai_id i = j")
    case True
    then show ?thesis using r x same by (simp add: st st' insert_instance_def)
  next
    case False
    then show ?thesis using r x Cons.IH [OF ok] by (simp add: st insert_instance_def)
  qed
qed

lemma stored_delete:
  "memory_ok isofmt records \<Longrightarrow> memory_ok isofmt (AList.delete k records) \<and>
     memory_stored parse (AList.delete k records) = filter (\<lambda>x. ai_id x \<noteq> k) (memory_stored parse records)"
proof (induction records)
  case (Cons r records)
  obtain j p where r: "r = (j, p)" by (cases r)
  obtain x where x: "agent_instance_from_dict parse p = Inr x" "ai_id x = j" using record_instance [OF Cons.prems, of j p] r by auto
  have ok: "memory_ok isofmt records" using Cons.prems by (auto simp: memory_ok_def)
  have st: "memory_stored parse ((j, p) # rs) = x # memory_stored parse rs" for rs using x by (simp add: memory_stored_def)
  have "memory_ok isofmt (AList.delete k (r # records))"
    using Cons.prems distinct_delete [of "r # records" k] by (auto simp: memory_ok_def AList.delete_eq)
  then show ?case using Cons.IH [OF ok] r x by (simp add: st)
qed (simp add: memory_stored_def memory_ok_def)

end

sublocale datetime_text \<subseteq> memory: instance_repository "[]" "memory_save isofmt parse" "memory_get parse"
  "memory_list_by_definition parse" memory_delete "memory_stored parse" "memory_ok isofmt"
proof
  show "memory_ok isofmt []" "memory_stored parse [] = []" by (simp_all add: memory_ok_def memory_stored_def)
next
  fix s k assume ok: "memory_ok isofmt s"
  show g: "memory_get parse s k = (case find (\<lambda>x. ai_id x = k) (memory_stored parse s) of
      None \<Rightarrow> Inl (''InstanceNotFoundError'', ''Agent Instance not found'') | Some x \<Rightarrow> Inr x)"
    using lookup_record [OF ok, of k] by (auto simp: memory_get_def split: option.splits)
  show "memory_list_by_definition parse s d = Inr (sort_key ai_id (filter (\<lambda>x. ai_definition x = d) (memory_stored parse s)))" for d
    by (simp add: memory_list_by_definition_def each_record [OF ok])
  have "distinct (map ai_id (memory_stored parse s))" using ok by (simp add: stored_ids [OF ok] memory_ok_def)
  moreover have "instance_ok (projr (agent_instance_from_dict parse p))" if "(j, p) \<in> set s" for j p
    using record_instance [OF ok that] by auto
  then have "list_all instance_ok (memory_stored parse s)" by (auto simp: list_all_iff memory_stored_def)
  ultimately show "distinct (map ai_id (memory_stored parse s)) \<and> list_all instance_ok (memory_stored parse s)" by simp
  have "k \<in> ai_id ` set (memory_stored parse s) \<longleftrightarrow> map_of s k \<noteq> None"
    using arg_cong [OF stored_ids [OF ok], of set] by (simp add: map_of_eq_None_iff)
  then show "if k \<in> ai_id ` set (memory_stored parse s)
      then \<exists>s'. memory_delete s k = (s', Inr ()) \<and> memory_ok isofmt s' \<and> memory_stored parse s' = filter (\<lambda>x. ai_id x \<noteq> k) (memory_stored parse s)
      else memory_delete s k = (s, Inl (''InstanceNotFoundError'', ''Agent Instance not found''))"
    using stored_delete [OF ok, of k] by (auto simp: memory_delete_def)
next
  fix s and i :: "'d agent_instance" assume ok: "memory_ok isofmt s" and i: "instance_ok i"
  let ?s' = "AList.update (ai_id i) (agent_instance_to_dict isofmt i) s"
  have "memory_get parse ?s' (ai_id i) = Inr i" by (simp add: memory_get_def instance_round_trip [OF parse_isofmt i])
  then show "case save_refused (memory_stored parse s) i of Some e \<Rightarrow> memory_save isofmt parse s i = (s, Inl e)
      | None \<Rightarrow> \<exists>s'. memory_save isofmt parse s i = (s', Inr i) \<and> memory_ok isofmt s' \<and> memory_stored parse s' = insert_instance i (memory_stored parse s)"
    using lookup_record [OF ok, of "ai_id i"] memory_update_ok [OF ok i] stored_update [OF ok i]
    by (auto simp: memory_save_def save_refused_def Let_def split: option.splits)
qed

context datetime_text
begin

lemma memory_step_refines:
  assumes "memory_ok isofmt s" and "saves_ok [op]" and "memory_step isofmt parse s op = (s', r)"
  shows "memory_ok isofmt s' \<and> catalog_step (memory_stored parse s) op = (memory_stored parse s', r)"
proof (cases op)
  case (OpSave i)
  then show ?thesis using assms memory.save_law [OF assms(1), of i] by (auto simp: saves_ok_def split: option.splits)
next
  case (OpDelete k)
  then show ?thesis using assms memory.delete_law [OF assms(1), of k] by (auto split: if_splits)
qed (use assms memory.get_law [OF assms(1)] memory.list_law [OF assms(1)] in auto)

lemma memory_run_refines:
  assumes "memory_ok isofmt s" and "saves_ok ops" and "run_ops (memory_step isofmt parse) s ops = (s', rs)"
  shows "run_ops catalog_step (memory_stored parse s) ops = (memory_stored parse s', rs)"
  using assms
proof (induction ops arbitrary: s rs)
  case (Cons op ops)
  obtain s1 r where s1: "memory_step isofmt parse s op = (s1, r)" by (metis surj_pair)
  have "memory_ok isofmt s1" "catalog_step (memory_stored parse s) op = (memory_stored parse s1, r)"
    using memory_step_refines [OF Cons.prems(1) _ s1] Cons.prems(2) by (auto simp: saves_ok_def)
  then show ?case using Cons.IH [of s1] Cons.prems s1 by (auto simp: saves_ok_def split: prod.splits)
qed simp

end

text \<open>
  C17: the in-memory repository, which keeps every instance as a serialized record and reads it back, refines a
  catalog of instances: over any sequence of operations that saves well-formed instances, every answer is the
  answer of the catalog. In it an identity is bound to at most one instance, a saved instance replaces
  the one of its identity in place, a save that moves an identity to another Definition, changes its creation
  or changes nothing is refused, and the instances of a Definition are listed by identity.
\<close>

theorem memory_repository_refines_catalog:
  assumes "saves_ok ops" and "run_ops (memory_step isoformat fromisoformat) [] ops = (s, rs)"
  shows "run_ops catalog_step [] ops = (memory_stored fromisoformat s, rs)"
  using utc.memory_run_refines [OF utc.memory.empty_ok(1) assms] by (simp add: utc.memory.empty_ok(2))

definition example_binding :: runtime_binding where
  "example_binding = \<lparr>rb_id = ''b'', rb_provider = ''p'', rb_mode = ''native'', rb_package = None, rb_configuration = []\<rparr>"

definition example_instance :: "datetime \<Rightarrow> string \<Rightarrow> datetime agent_instance" where
  "example_instance t n = \<lparr>ai_id = ''i'', ai_definition = \<lparr>dr_namespace = ''ns'', dr_name = n\<rparr>, ai_lifecycle = ACTIVE,
     ai_desired = example_binding, ai_created_at = t, ai_updated_at = t,
     ai_effective = Some \<lparr>ef_value = example_binding, ef_resolved_at = t\<rparr>, ai_realizations = []\<rparr>"

lemma example_instance_ok: "n \<in> {''a'', ''b''} \<Longrightarrow> instance_ok (example_instance t n)"
  by (auto simp: instance_ok_def example_instance_def example_binding_def binding_ok_def nonblank_iff py_space_def)

theorem memory_repository_refines_catalog_witness:
  "\<forall>t. snd (run_ops (memory_step isoformat fromisoformat) [] [OpSave (example_instance t ''a''), OpSave (example_instance t ''a''),
      OpSave (example_instance t ''b''), OpGet ''i'', OpDelete ''i'', OpGet ''i'']) =
    [AnInstance (Inr (example_instance t ''a'')), AnInstance (Inl (''DuplicateInstanceError'', ''duplicate Agent Instance'')),
     AnInstance (Inl (''DefinitionOwnershipConflictError'', ''Agent Instance Definition ownership cannot change'')),
     AnInstance (Inr (example_instance t ''a'')), Done (Inr ()), AnInstance (Inl (''InstanceNotFoundError'', ''Agent Instance not found''))]"
proof
  fix t
  let ?ops = "[OpSave (example_instance t ''a''), OpSave (example_instance t ''a''), OpSave (example_instance t ''b''), OpGet ''i'',
    OpDelete ''i'', OpGet ''i'']"
  obtain s rs where r: "run_ops (memory_step isoformat fromisoformat) [] ?ops = (s, rs)" by (metis surj_pair)
  have "saves_ok ?ops" by (simp add: saves_ok_def example_instance_ok)
  then have "rs = snd (run_ops catalog_step [] ?ops)" using memory_repository_refines_catalog [OF _ r] by simp
  then show "snd (run_ops (memory_step isoformat fromisoformat) [] ?ops) =
    [AnInstance (Inr (example_instance t ''a'')), AnInstance (Inl (''DuplicateInstanceError'', ''duplicate Agent Instance'')),
     AnInstance (Inl (''DefinitionOwnershipConflictError'', ''Agent Instance Definition ownership cannot change'')),
     AnInstance (Inr (example_instance t ''a'')), Done (Inr ()), AnInstance (Inl (''InstanceNotFoundError'', ''Agent Instance not found''))]"
    using r by (simp add: save_refused_def insert_instance_def instance_eq_def effective_eq_def binding_eq_def configuration_eq_def example_instance_def example_binding_def)
qed

end
