(* ===== verification/Identity_Spine.thy ===== *)
theory Identity_Spine
  imports Agent_Instances
begin

text \<open>
  The internal identity spine, \<open>core/src/agent_core/interface_spine/v0_2/\<close> (\<open>projection.py\<close>, \<open>selection.py\<close>,
  \<open>envelope.py\<close>, \<open>builder.py\<close>), and the interpreter of the current Kubernetes resources,
  \<open>operator/src/agent_operator/compatibility_interpreter/interpreter.py\<close>.

  Task and Agent bodies are JSON objects. The name-based UUID of the standard library is a parameter
  \<open>uuid5\<close>, of which only is used that its text is not blank. Checks of the static types of fields have no
  branch here, as the values of the model have these types.

  The interpreter saves the Agent of a Task as an instance into a new in-memory repository, lists and selects
  it there, and builds an envelope from the selection. The theorem shows that all of this amounts to a direct
  construction from the fields of the Task and the Agent.
\<close>

subsection \<open>Projection\<close>

record definition_request =
  dq_namespace :: string
  dq_agent_name :: string
  dq_desired :: runtime_binding
  dq_source_task :: "string option"

definition definition_request_init :: "definition_request \<Rightarrow> (core_error, definition_request) result" where
  "definition_request_init q =
     (if \<not> nonblank (dq_namespace q) then Inl (''InvalidDefinitionProjectionError'', ''Definition namespace must be a non-empty string'')
      else if \<not> nonblank (dq_agent_name q) then Inl (''InvalidDefinitionProjectionError'', ''Definition name must be a non-empty string'')
      else if (case dq_source_task q of None \<Rightarrow> False | Some n \<Rightarrow> \<not> nonblank n)
        then Inl (''InvalidDefinitionProjectionError'', ''source Task name must be a non-empty string'')
      else Inr q)"

record definition_projection =
  dp_definition :: definition_ref
  dp_desired :: runtime_binding
  dp_mode :: string

definition definition_projection_init :: "definition_projection \<Rightarrow> (core_error, definition_projection) result" where
  "definition_projection_init p = rbind (required_value (JStr (dp_mode p)) ''compatibility mode'') (\<lambda>_. Inr p)"

definition project_definition :: "definition_request \<Rightarrow> (core_error, definition_projection) result" where
  "project_definition q = (case definition_ref_init (JStr (dq_namespace q)) (JStr (dq_agent_name q)) of
     Inl (_, text) \<Rightarrow> Inl (''InvalidDefinitionProjectionError'', text)
   | Inr d \<Rightarrow> definition_projection_init \<lparr>dp_definition = d, dp_desired = dq_desired q, dp_mode = ''LEGACY_AGENT_V1ALPHA1''\<rparr>)"

definition adapt_task_target :: "json \<Rightarrow> string \<Rightarrow> string \<Rightarrow> runtime_binding \<Rightarrow> (core_error, definition_request) result" where
  "adapt_task_target task_spec task_name ns binding = (case jfield task_spec ''agentRef'' of
     JObj ref \<Rightarrow> (case jfield (JObj ref) ''name'' of
       JStr n \<Rightarrow> if \<not> nonblank n then Inl (''InvalidDefinitionProjectionError'', ''Task agentRef.name must be a non-empty string'')
         else definition_request_init \<lparr>dq_namespace = ns, dq_agent_name = n, dq_desired = binding, dq_source_task = Some task_name\<rparr>
     | _ \<Rightarrow> Inl (''InvalidDefinitionProjectionError'', ''Task agentRef.name must be a non-empty string''))
   | _ \<Rightarrow> Inl (''InvalidDefinitionProjectionError'', ''Task agentRef must be an object''))"

subsection \<open>Selection\<close>

definition ROUTING_POLICY :: string where
  "ROUTING_POLICY = ''PROTOTYPE_LEXICAL_INSTANCE_ID_NOT_FROZEN''"

record selection_request =
  sq_definition :: definition_ref
  sq_desired :: runtime_binding

record 'd selected_instance =
  si_instance :: string
  si_definition :: definition_ref
  si_desired :: runtime_binding
  si_effective :: "'d effective_runtime_binding"
  si_evidence :: selected_evidence

definition selected_instance_init :: "'d selected_instance \<Rightarrow> (core_error, 'd selected_instance) result" where
  "selected_instance_init r =
     (if sv_definition (si_evidence r) \<noteq> si_definition r
        then Inl (''InvalidSelectedInstanceError'', ''selection evidence Definition mismatch'')
      else if sv_instance (si_evidence r) \<noteq> si_instance r
        then Inl (''InvalidSelectedInstanceError'', ''selection evidence Instance mismatch'')
      else Inr r)"

fun eligible_loop ::
  "definition_ref \<Rightarrow> string list \<Rightarrow> 'd agent_instance list \<Rightarrow> (core_error, 'd agent_instance list) result" where
  "eligible_loop d seen [] = Inr []"
| "eligible_loop d seen (c # cs) =
     (if ai_id c \<in> set seen then Inl (''DuplicateSelectionIdentityError'', ''duplicate Instance identity: '' @ ai_id c)
      else if ai_definition c \<noteq> d
        then Inl (''InvalidSelectedInstanceError'', ''selected Instance does not belong to requested Definition'')
      else rbind (eligible_loop d (ai_id c # seen) cs) (\<lambda>rest. Inr (if ai_lifecycle c = ACTIVE then c # rest else rest)))"

definition select_deterministically ::
  "selection_request \<Rightarrow> 'd agent_instance list \<Rightarrow> (core_error, 'd selected_instance) result" where
  "select_deterministically q candidates = rbind (eligible_loop (sq_definition q) [] candidates) (\<lambda>eligible.
     case sort_key ai_id eligible of
       [] \<Rightarrow> Inl (''NoEligibleInstanceError'', ''no eligible Instance for Definition'')
     | x # _ \<Rightarrow> (case ai_effective x of
         None \<Rightarrow> Inl (''MissingEffectiveBindingError'', ''selected Instance has no effective Runtime Binding'')
       | Some e \<Rightarrow> rbind (selected_evidence_init \<lparr>sv_definition = ai_definition x, sv_instance = ai_id x, sv_authority = ROUTING_POLICY,
             sv_reason = Some ''lowest lexical eligible Instance ID''\<rparr>) (\<lambda>ev.
           selected_instance_init \<lparr>si_instance = ai_id x, si_definition = ai_definition x, si_desired = sq_desired q, si_effective = e,
             si_evidence = ev\<rparr>)))"

type_synonym 'd instance_listing = "definition_ref \<Rightarrow> (core_error, 'd agent_instance list) result"

definition deterministic_select :: "'d instance_listing \<Rightarrow> selection_request \<Rightarrow> (core_error, 'd selected_instance) result" where
  "deterministic_select listing q = rbind (listing (sq_definition q)) (select_deterministically q)"

definition reject_ambiguous_select :: "'d instance_listing \<Rightarrow> selection_request \<Rightarrow> (core_error, 'd selected_instance) result" where
  "reject_ambiguous_select listing q = rbind (listing (sq_definition q)) (\<lambda>candidates.
     if length candidates > 1
       then Inl (''AmbiguousInstanceSelectionError'', ''multiple candidates require an explicit deterministic policy'')
     else select_deterministically q candidates)"

subsection \<open>The envelope and its builder\<close>

record source_task_ref =
  st_namespace :: string
  st_name :: string

definition source_task_ref_init :: "source_task_ref \<Rightarrow> (core_error, source_task_ref) result" where
  "source_task_ref_init r = (if \<not> nonblank (st_namespace r) \<or> \<not> nonblank (st_name r)
     then Inl (''InvalidSelectedInstanceError'', ''source Task reference is incomplete'') else Inr r)"

record 'd execution_envelope =
  en_definition :: definition_ref
  en_instance :: string
  en_identity :: string
  en_desired :: runtime_binding
  en_effective :: "'d effective_runtime_binding"
  en_evidence :: selected_evidence
  en_correlations :: "string list"
  en_source_task :: "source_task_ref option"

definition execution_envelope_init :: "'d execution_envelope \<Rightarrow> (core_error, 'd execution_envelope) result" where
  "execution_envelope_init e =
     (if sv_definition (en_evidence e) \<noteq> en_definition e then Inl (''InvalidSelectedInstanceError'', ''envelope Definition mismatch'')
      else if sv_instance (en_evidence e) \<noteq> en_instance e then Inl (''InvalidSelectedInstanceError'', ''envelope Instance mismatch'')
      else Inr e)"

definition with_native_correlation :: "'d execution_envelope \<Rightarrow> string \<Rightarrow> 'd execution_envelope" where
  "with_native_correlation e c = e\<lparr>en_correlations := en_correlations e @ [c]\<rparr>"

definition build_envelope ::
  "(selection_request \<Rightarrow> (core_error, 'd selected_instance) result) \<Rightarrow> (core_error, string) result \<Rightarrow> definition_request
   \<Rightarrow> (core_error, 'd execution_envelope) result" where
  "build_envelope select minted q = rbind (project_definition q) (\<lambda>p.
     rbind (select \<lparr>sq_definition = dp_definition p, sq_desired = dp_desired p\<rparr>) (\<lambda>selected.
     rbind minted (\<lambda>ident.
     rbind (case dq_source_task q of None \<Rightarrow> Inr None
       | Some n \<Rightarrow> rbind (source_task_ref_init \<lparr>st_namespace = dq_namespace q, st_name = n\<rparr>) (\<lambda>r. Inr (Some r))) (\<lambda>source.
     execution_envelope_init \<lparr>en_definition = dp_definition p, en_instance = si_instance selected, en_identity = ident,
       en_desired = si_desired selected, en_effective = si_effective selected, en_evidence = si_evidence selected,
       en_correlations = [], en_source_task = source\<rparr>))))"

subsection \<open>The interpreter\<close>

definition required_string :: "json \<Rightarrow> string \<Rightarrow> (core_error, string) result" where
  "required_string v field_name = (case v of
     JStr s \<Rightarrow> if \<not> nonblank s then Inl (''InvalidLegacyEvidenceError'', field_name @ '' must be a non-empty string'')
       else if s \<noteq> strip s then Inl (''InvalidLegacyEvidenceError'', field_name @ '' must not contain surrounding whitespace'')
       else Inr s
   | _ \<Rightarrow> Inl (''InvalidLegacyEvidenceError'', field_name @ '' must be a non-empty string''))"

definition mapping_value :: "json \<Rightarrow> string \<Rightarrow> (core_error, json) result" where
  "mapping_value v field_name = (if is_obj v then Inr v else Inl (''InvalidLegacyEvidenceError'', field_name @ '' must be an object''))"

definition replace_z :: "string \<Rightarrow> string" where
  "replace_z s = concat (map (\<lambda>c. if c = CHR ''Z'' then ''+00:00'' else [c]) s)"

definition timestamp_value :: "(string \<Rightarrow> 'd option) \<Rightarrow> json \<Rightarrow> string \<Rightarrow> (core_error, 'd) result" where
  "timestamp_value parse v field_name = rbind (required_string v field_name) (\<lambda>raw. case parse (replace_z raw) of
     None \<Rightarrow> Inl (''InvalidLegacyEvidenceError'', field_name @ '' must be an RFC 3339 timestamp'') | Some t \<Rightarrow> Inr t)"

definition derived_id :: "(string \<Rightarrow> string) \<Rightarrow> string \<Rightarrow> string list \<Rightarrow> string" where
  "derived_id uuid5 kind parts = uuid5 (py_join ''/'' ([''agentos.io'', ''v0.2'', kind] @ parts))"

definition legacy_binding :: "string \<Rightarrow> string \<Rightarrow> string \<Rightarrow> json \<Rightarrow> (core_error, runtime_binding) result" where
  "legacy_binding ns agent_name agent_uid sp = rbind (mapping_value (jfield sp ''runtime'') ''Agent.spec.runtime'') (\<lambda>runtime.
     rbind (required_string (jfield runtime ''type'') ''Agent.spec.runtime.type'') (\<lambda>ty.
     rbind (case jfield runtime ''image'' of JNull \<Rightarrow> Inr JNull
       | v \<Rightarrow> rbind (required_string v ''Agent.spec.runtime.image'') (\<lambda>s. Inr (JStr s))) (\<lambda>image.
     runtime_binding_init (JStr (''legacy-agent:'' @ ns @ '':'' @ agent_uid)) (JStr ''agentos.io/current-agent-service'') (JStr ty) image
       (JObj [(''serviceName'', JStr agent_name)]))))"

definition legacy_instance ::
  "(string \<Rightarrow> 'd option) \<Rightarrow> (string \<Rightarrow> string) \<Rightarrow> string \<Rightarrow> string \<Rightarrow> json \<Rightarrow> (core_error, 'd agent_instance) result" where
  "legacy_instance parse uuid5 ns agent_name body = rbind (mapping_value (jfield body ''metadata'') ''Agent.metadata'') (\<lambda>meta.
     rbind (required_string (jfield meta ''namespace'') ''Agent.metadata.namespace'') (\<lambda>actual_namespace.
     rbind (required_string (jfield meta ''name'') ''Agent.metadata.name'') (\<lambda>actual_name.
     if actual_namespace \<noteq> ns \<or> actual_name \<noteq> agent_name
       then Inl (''ConflictingIdentityEvidenceError'', ''Agent evidence does not match the Task's namespaced Definition reference'')
     else if jfield meta ''deletionTimestamp'' \<noteq> JNull then Inl (''InvalidLegacyEvidenceError'', ''terminating Agent cannot be selected'')
     else rbind (required_string (jfield meta ''uid'') ''Agent.metadata.uid'') (\<lambda>agent_uid.
     rbind (timestamp_value parse (jfield meta ''creationTimestamp'') ''Agent.metadata.creationTimestamp'') (\<lambda>created.
     rbind (mapping_value (jfield body ''spec'') ''Agent.spec'') (\<lambda>sp.
     rbind (legacy_binding ns agent_name agent_uid sp) (\<lambda>binding.
     rbind (instance_id_init (JStr (derived_id uuid5 ''legacy-agent-instance'' [ns, agent_name, agent_uid]))) (\<lambda>i.
     rbind (definition_ref_init (JStr ns) (JStr agent_name)) (\<lambda>d.
     Inr \<lparr>ai_id = i, ai_definition = d, ai_lifecycle = ACTIVE, ai_desired = binding, ai_created_at = created, ai_updated_at = created,
       ai_effective = Some \<lparr>ef_value = binding, ef_resolved_at = created\<rparr>, ai_realizations = []\<rparr>)))))))))"

definition CONFLICTING_FIELDS :: "string list" where
  "CONFLICTING_FIELDS = [''agentInstanceRef'', ''executionId'', ''executionIdentity'', ''instanceRef'', ''nativeId'', ''runtimeId'']"

definition object_keys :: "json \<Rightarrow> string list" where
  "object_keys v = (case v of JObj d \<Rightarrow> dict_keys d | _ \<Rightarrow> [])"

fun save_candidates ::
  "('d \<Rightarrow> string) \<Rightarrow> (string \<Rightarrow> 'd option) \<Rightarrow> (string \<Rightarrow> string) \<Rightarrow> string \<Rightarrow> string \<Rightarrow> instance_store \<Rightarrow> json list
   \<Rightarrow> (core_error, instance_store) result" where
  "save_candidates isofmt parse uuid5 ns agent_name store [] = Inr store"
| "save_candidates isofmt parse uuid5 ns agent_name store (c # cs) =
     rbind (legacy_instance parse uuid5 ns agent_name c) (\<lambda>i. case memory_save isofmt parse store i of
       (_, Inl e) \<Rightarrow> Inl e | (store', Inr _) \<Rightarrow> save_candidates isofmt parse uuid5 ns agent_name store' cs)"

definition interpret_legacy_task ::
  "('d \<Rightarrow> string) \<Rightarrow> (string \<Rightarrow> 'd option) \<Rightarrow> (string \<Rightarrow> string) \<Rightarrow> json \<Rightarrow> json \<Rightarrow> string \<Rightarrow> json list
   \<Rightarrow> (core_error, 'd execution_envelope) result" where
  "interpret_legacy_task isofmt parse uuid5 task_spec meta ns candidates =
     rbind (required_string (jfield meta ''uid'') ''Task.metadata.uid'') (\<lambda>task_uid.
     rbind (required_string (jfield meta ''name'') ''Task.metadata.name'') (\<lambda>task_name.
     rbind (required_string (jfield meta ''namespace'') ''Task.metadata.namespace'') (\<lambda>metadata_namespace.
     if metadata_namespace \<noteq> ns then Inl (''ConflictingIdentityEvidenceError'', ''Task namespace conflicts with handler namespace'')
     else let conflicting = filter (\<lambda>f. f \<in> set (object_keys task_spec)) CONFLICTING_FIELDS in
     if conflicting \<noteq> [] then Inl (''ConflictingIdentityEvidenceError'', ''unsupported mixed identity evidence: '' @ py_join '', '' (sort conflicting))
     else rbind (mapping_value (jfield task_spec ''agentRef'') ''Task.spec.agentRef'') (\<lambda>agent_ref.
     let unexpected = filter (\<lambda>f. f \<noteq> ''name'') (object_keys agent_ref) in
     if unexpected \<noteq> [] then Inl (''ConflictingIdentityEvidenceError'', ''unsupported Agent reference evidence: '' @ py_join '', '' (sort unexpected))
     else rbind (required_string (jfield agent_ref ''name'') ''Task.spec.agentRef.name'') (\<lambda>agent_name.
     if candidates = [] then Inl (''MissingDefinitionError'', ''Agent '' @ ns @ ''/'' @ agent_name @ '' does not exist'')
     else if length candidates > 1
       then Inl (''ConflictingIdentityEvidenceError'', ''multiple Agent objects match one namespaced Definition reference'')
     else rbind (save_candidates isofmt parse uuid5 ns agent_name [] candidates) (\<lambda>store.
     rbind (definition_ref_init (JStr ns) (JStr agent_name)) (\<lambda>d.
     rbind (memory_list_by_definition parse store d) (\<lambda>instances.
     if length instances \<noteq> 1
       then Inl (''ConflictingIdentityEvidenceError'', ''legacy Agent evidence must resolve to exactly one internal Instance'')
     else rbind (definition_request_init \<lparr>dq_namespace = ns, dq_agent_name = agent_name, dq_desired = ai_desired (hd instances),
         dq_source_task = Some task_name\<rparr>) (\<lambda>q.
       build_envelope (reject_ambiguous_select (memory_list_by_definition parse store))
         (execution_identity_init (JStr (derived_id uuid5 ''task-execution'' [ns, task_name, task_uid]))) q)))))))))"

subsection \<open>What the interpreter computes\<close>

definition trimmed :: "string \<Rightarrow> bool" where
  "trimmed s = (nonblank s \<and> strip s = s)"

lemma required_string_iff [simp]: "required_string v f = Inr s \<longleftrightarrow> v = JStr s \<and> trimmed s"
  by (cases v) (auto simp: required_string_def trimmed_def)

lemma mapping_value_iff [simp]: "mapping_value v f = Inr w \<longleftrightarrow> w = v \<and> is_obj v"
  by (auto simp: mapping_value_def)

text \<open>The envelope of a Task whose Agent is the instance \<open>i\<close>.\<close>

definition legacy_envelope ::
  "(string \<Rightarrow> string) \<Rightarrow> string \<Rightarrow> string \<Rightarrow> string \<Rightarrow> 'd agent_instance \<Rightarrow> 'd execution_envelope" where
  "legacy_envelope uuid5 ns task_name task_uid i = \<lparr>en_definition = ai_definition i, en_instance = ai_id i,
     en_identity = derived_id uuid5 ''task-execution'' [ns, task_name, task_uid], en_desired = ai_desired i,
     en_effective = \<lparr>ef_value = ai_desired i, ef_resolved_at = ai_created_at i\<rparr>,
     en_evidence = \<lparr>sv_definition = ai_definition i, sv_instance = ai_id i, sv_authority = ROUTING_POLICY,
       sv_reason = Some ''lowest lexical eligible Instance ID''\<rparr>,
     en_correlations = [], en_source_task = Some \<lparr>st_namespace = ns, st_name = task_name\<rparr>\<rparr>"

definition legacy_evidence_ok :: "json \<Rightarrow> json \<Rightarrow> string \<Rightarrow> string \<Rightarrow> string \<Rightarrow> string \<Rightarrow> bool" where
  "legacy_evidence_ok task_spec meta ns task_name task_uid agent_name =
     (jfield meta ''uid'' = JStr task_uid \<and> trimmed task_uid \<and> jfield meta ''name'' = JStr task_name \<and> trimmed task_name \<and>
      jfield meta ''namespace'' = JStr ns \<and> trimmed ns \<and> set CONFLICTING_FIELDS \<inter> set (object_keys task_spec) = {} \<and>
      is_obj (jfield task_spec ''agentRef'') \<and> set (object_keys (jfield task_spec ''agentRef'')) \<subseteq> {''name''} \<and>
      jfield (jfield task_spec ''agentRef'') ''name'' = JStr agent_name \<and> trimmed agent_name)"

lemma selection_texts [simp]: "nonblank ROUTING_POLICY" "nonblank ''lowest lexical eligible Instance ID''"
  by (auto simp: nonblank_iff ROUTING_POLICY_def py_space_def)

lemma trimmed_nonblank: "trimmed s \<Longrightarrow> nonblank s"
  by (simp add: trimmed_def)

lemma legacy_binding_ok: "legacy_binding ns a u sp = Inr b \<Longrightarrow> binding_ok b"
  by (auto simp: legacy_binding_def dest: runtime_binding_init_ok)

lemma legacy_instance_ok:
  assumes "legacy_instance parse uuid5 ns a body = Inr i"
  shows "instance_ok i" "ai_definition i = \<lparr>dr_namespace = ns, dr_name = a\<rparr>" "ai_lifecycle i = ACTIVE" "nonblank ns" "nonblank a"
    "ai_effective i = Some \<lparr>ef_value = ai_desired i, ef_resolved_at = ai_created_at i\<rparr>"
  using assms legacy_binding_ok
  by (auto simp: legacy_instance_def instance_ok_def instance_id_init_def definition_ref_init_def split: if_splits)

lemma build_legacy_envelope:
  assumes "legacy_instance parse uuid5 ns a body = Inr i" and "\<And>d. listing d = Inr (if ai_definition i = d then [i] else [])"
    and "trimmed n" and "nonblank (derived_id uuid5 ''task-execution'' [ns, n, u])"
  shows "build_envelope (reject_ambiguous_select listing) (execution_identity_init (JStr (derived_id uuid5 ''task-execution'' [ns, n, u])))
    \<lparr>dq_namespace = ns, dq_agent_name = a, dq_desired = ai_desired i, dq_source_task = Some n\<rparr> = Inr (legacy_envelope uuid5 ns n u i)"
proof -
  note ok = legacy_instance_ok [OF assms(1)]
  have "nonblank ''LEGACY_AGENT_V1ALPHA1''" by (simp add: nonblank_iff py_space_def)
  then have "project_definition \<lparr>dq_namespace = ns, dq_agent_name = a, dq_desired = ai_desired i, dq_source_task = Some n\<rparr> =
      Inr \<lparr>dp_definition = ai_definition i, dp_desired = ai_desired i, dp_mode = ''LEGACY_AGENT_V1ALPHA1''\<rparr>"
    using ok by (simp add: project_definition_def definition_ref_init_def definition_projection_init_def required_JStr)
  moreover have "source_task_ref_init \<lparr>st_namespace = ns, st_name = n\<rparr> = Inr \<lparr>st_namespace = ns, st_name = n\<rparr>"
    using ok(4) trimmed_nonblank [OF assms(3)] by (simp add: source_task_ref_init_def)
  ultimately show ?thesis using ok assms(2,4)
    by (simp add: build_envelope_def reject_ambiguous_select_def select_deterministically_def selected_evidence_init_def
      selected_instance_init_def execution_envelope_init_def execution_identity_init_def required_JStr legacy_envelope_def)
qed

context datetime_text
begin

lemma saved_candidate:
  assumes "legacy_instance parse uuid5 ns a body = Inr i"
  shows "\<exists>store. save_candidates isofmt parse uuid5 ns a [] [body] = Inr store \<and>
    (\<forall>d. memory_list_by_definition parse store d = Inr (if ai_definition i = d then [i] else []))"
proof -
  obtain store where "memory_save isofmt parse [] i = (store, Inr i)" "memory_ok isofmt store" "memory_stored parse store = [i]"
    using memory.save_into_empty [OF legacy_instance_ok(1) [OF assms]] by blast
  then show ?thesis using assms memory.list_law by auto
qed

lemma interpret_accepted:
  assumes ev: "legacy_evidence_ok task_spec meta ns n u a" and uuid: "\<And>s. nonblank (uuid5 s)"
  shows "interpret_legacy_task isofmt parse uuid5 task_spec meta ns [body] =
    rbind (legacy_instance parse uuid5 ns a body) (\<lambda>i. Inr (legacy_envelope uuid5 ns n u i))"
proof -
  have f: "filter (\<lambda>f. f \<in> set (object_keys task_spec)) CONFLICTING_FIELDS = []"
    "filter (\<lambda>f. f \<noteq> ''name'') (object_keys (jfield task_spec ''agentRef'')) = []"
    using ev by (auto simp: legacy_evidence_ok_def filter_empty_conv)
  have strings: "required_string (jfield meta ''uid'') f = Inr u" "required_string (jfield meta ''name'') f = Inr n"
    "required_string (jfield meta ''namespace'') f = Inr ns" "required_string (jfield (jfield task_spec ''agentRef'') ''name'') f = Inr a"
    "mapping_value (jfield task_spec ''agentRef'') f = Inr (jfield task_spec ''agentRef'')" for f
    using ev by (auto simp: legacy_evidence_ok_def)
  have nb: "nonblank ns" "nonblank a" "nonblank n" "trimmed n" using ev by (auto simp: legacy_evidence_ok_def trimmed_nonblank)
  note guards = interpret_legacy_task_def strings f Let_def rbind_simps
  show ?thesis
  proof (cases "legacy_instance parse uuid5 ns a body")
    case (Inl e)
    then show ?thesis by (simp add: guards)
  next
    case (Inr i)
    obtain store where store: "save_candidates isofmt parse uuid5 ns a [] [body] = Inr store"
        "\<And>d. memory_list_by_definition parse store d = Inr (if ai_definition i = d then [i] else [])"
      using saved_candidate [OF Inr] by blast
    have d: "definition_ref_init (JStr ns) (JStr a) = Inr (ai_definition i)"
      using nb legacy_instance_ok(2) [OF Inr] by (simp add: definition_ref_init_def required_JStr)
    have q: "definition_request_init \<lparr>dq_namespace = ns, dq_agent_name = a, dq_desired = ai_desired i, dq_source_task = Some n\<rparr> =
        Inr \<lparr>dq_namespace = ns, dq_agent_name = a, dq_desired = ai_desired i, dq_source_task = Some n\<rparr>"
      using nb by (simp add: definition_request_init_def)
    have "nonblank (derived_id uuid5 ''task-execution'' [ns, n, u])" using uuid by (simp add: derived_id_def)
    from build_legacy_envelope [OF Inr store(2) nb(4) this]
    show ?thesis unfolding guards store d Inr by (simp add: q)
  qed
qed

lemma interpret_evidence:
  assumes "interpret_legacy_task isofmt parse uuid5 task_spec meta ns candidates = Inr e"
  shows "\<exists>n u a body. legacy_evidence_ok task_spec meta ns n u a \<and> candidates = [body]"
proof -
  obtain n u a where *: "required_string (jfield meta ''uid'') ''Task.metadata.uid'' = Inr u"
    "required_string (jfield meta ''name'') ''Task.metadata.name'' = Inr n"
    "required_string (jfield meta ''namespace'') ''Task.metadata.namespace'' = Inr ns"
    "filter (\<lambda>f. f \<in> set (object_keys task_spec)) CONFLICTING_FIELDS = []"
    "mapping_value (jfield task_spec ''agentRef'') ''Task.spec.agentRef'' = Inr (jfield task_spec ''agentRef'')"
    "filter (\<lambda>f. f \<noteq> ''name'') (object_keys (jfield task_spec ''agentRef'')) = []"
    "required_string (jfield (jfield task_spec ''agentRef'') ''name'') ''Task.spec.agentRef.name'' = Inr a"
    "candidates \<noteq> []" "\<not> length candidates > 1"
    using assms unfolding interpret_legacy_task_def Let_def by (auto simp del: filter_empty_conv split: if_splits)
  obtain body where "candidates = [body]" using *(8,9) by (cases candidates) (auto simp: not_less)
  moreover have "legacy_evidence_ok task_spec meta ns n u a" using * by (auto simp: legacy_evidence_ok_def filter_empty_conv)
  ultimately show ?thesis by blast
qed

lemma interpret_legacy_task_iff:
  assumes "\<And>s. nonblank (uuid5 s)"
  shows "interpret_legacy_task isofmt parse uuid5 task_spec meta ns candidates = Inr e \<longleftrightarrow>
    (\<exists>n u a body i. legacy_evidence_ok task_spec meta ns n u a \<and> candidates = [body] \<and> legacy_instance parse uuid5 ns a body = Inr i \<and>
      e = legacy_envelope uuid5 ns n u i)" (is "?l \<longleftrightarrow> ?r")
proof
  assume ?l
  then obtain n u a body where ev: "legacy_evidence_ok task_spec meta ns n u a" and c: "candidates = [body]"
    using interpret_evidence by blast
  then obtain i where "legacy_instance parse uuid5 ns a body = Inr i" "legacy_envelope uuid5 ns n u i = e"
    using \<open>?l\<close> interpret_accepted [OF ev assms] by (auto simp: rbind_Inr_iff)
  then show ?r using ev c by blast
next
  assume ?r
  then obtain n u a body i where ev: "legacy_evidence_ok task_spec meta ns n u a" and "candidates = [body]"
    "legacy_instance parse uuid5 ns a body = Inr i" "e = legacy_envelope uuid5 ns n u i" by blast
  then show ?l using interpret_accepted [OF ev assms] by simp
qed

end

subsection \<open>The evidence and the envelope, field by field\<close>

text \<open>
  What a Task object and an Agent object have to say, and the envelope they give, in terms of the fields of the
  objects alone. The lemmas after it connect them with the code.
\<close>

definition task_evidence :: "json \<Rightarrow> json \<Rightarrow> string \<Rightarrow> string \<Rightarrow> string \<Rightarrow> string \<Rightarrow> bool" where
  "task_evidence task_spec meta ns task_name task_uid agent_name \<longleftrightarrow>
     jget meta ''uid'' = Some (JStr task_uid) \<and> trimmed task_uid \<and> jget meta ''name'' = Some (JStr task_name) \<and> trimmed task_name \<and>
     jget meta ''namespace'' = Some (JStr ns) \<and> trimmed ns \<and>
     (\<forall>k \<in> {''agentInstanceRef'', ''executionId'', ''executionIdentity'', ''instanceRef'', ''nativeId'', ''runtimeId''}. jget task_spec k = None) \<and>
     (\<exists>ref. jget task_spec ''agentRef'' = Some (JObj ref) \<and> map_of ref ''name'' = Some (JStr agent_name) \<and> dom (map_of ref) = {''name''}) \<and>
     trimmed agent_name"

definition agent_evidence :: "(string \<Rightarrow> 'd option) \<Rightarrow> json \<Rightarrow> string \<Rightarrow> string \<Rightarrow> string \<Rightarrow> 'd \<Rightarrow> string \<Rightarrow> string option \<Rightarrow> bool" where
  "agent_evidence parse body ns agent_name agent_uid created mode img \<longleftrightarrow>
     (\<exists>meta stamp sp runtime. jget body ''metadata'' = Some (JObj meta) \<and> map_of meta ''namespace'' = Some (JStr ns) \<and>
       map_of meta ''name'' = Some (JStr agent_name) \<and> map_of meta ''deletionTimestamp'' \<in> {None, Some JNull} \<and>
       map_of meta ''uid'' = Some (JStr agent_uid) \<and> trimmed agent_uid \<and>
       map_of meta ''creationTimestamp'' = Some (JStr stamp) \<and> trimmed stamp \<and> parse (replace_z stamp) = Some created \<and>
       jget body ''spec'' = Some (JObj sp) \<and> map_of sp ''runtime'' = Some (JObj runtime) \<and>
       map_of runtime ''type'' = Some (JStr mode) \<and> trimmed mode \<and>
       (case img of None \<Rightarrow> map_of runtime ''image'' \<in> {None, Some JNull} | Some s \<Rightarrow> map_of runtime ''image'' = Some (JStr s) \<and> trimmed s))"

definition agent_binding :: "string \<Rightarrow> string \<Rightarrow> string \<Rightarrow> string \<Rightarrow> string option \<Rightarrow> runtime_binding" where
  "agent_binding ns agent_name agent_uid mode img = \<lparr>rb_id = ''legacy-agent:'' @ ns @ '':'' @ agent_uid,
     rb_provider = ''agentos.io/current-agent-service'', rb_mode = mode, rb_package = img,
     rb_configuration = [(''serviceName'', JStr agent_name)]\<rparr>"

definition task_envelope ::
  "(string \<Rightarrow> string) \<Rightarrow> string \<Rightarrow> string \<Rightarrow> string \<Rightarrow> string \<Rightarrow> string \<Rightarrow> 'd \<Rightarrow> string \<Rightarrow> string option \<Rightarrow> 'd execution_envelope" where
  "task_envelope uuid5 ns task_name task_uid agent_name agent_uid created mode img =
     (let d = \<lparr>dr_namespace = ns, dr_name = agent_name\<rparr>; b = agent_binding ns agent_name agent_uid mode img;
          i = uuid5 (''agentos.io/v0.2/legacy-agent-instance/'' @ ns @ ''/'' @ agent_name @ ''/'' @ agent_uid) in
      \<lparr>en_definition = d, en_instance = i,
       en_identity = uuid5 (''agentos.io/v0.2/task-execution/'' @ ns @ ''/'' @ task_name @ ''/'' @ task_uid),
       en_desired = b, en_effective = \<lparr>ef_value = b, ef_resolved_at = created\<rparr>,
       en_evidence = \<lparr>sv_definition = d, sv_instance = i, sv_authority = ''PROTOTYPE_LEXICAL_INSTANCE_ID_NOT_FROZEN'',
         sv_reason = Some ''lowest lexical eligible Instance ID''\<rparr>,
       en_correlations = [], en_source_task = Some \<lparr>st_namespace = ns, st_name = task_name\<rparr>\<rparr>)"

lemma jfield_JStr: "jfield v k = JStr s \<longleftrightarrow> jget v k = Some (JStr s)"
  by (cases v) (auto simp: jfield_def jget_def split: option.splits)

lemma jfield_obj: "is_obj (jfield v k) \<longleftrightarrow> (\<exists>d. jget v k = Some (JObj d))"
  by (cases v) (auto simp: jfield_def jget_def is_obj_def split: option.splits json.splits)

lemma jfield_JNull: "jfield (JObj d) k = JNull \<longleftrightarrow> map_of d k \<in> {None, Some JNull}"
  by (auto simp: jfield_def jget_def split: option.splits)

lemma task_evidence_iff: "legacy_evidence_ok task_spec meta ns n u a \<longleftrightarrow> task_evidence task_spec meta ns n u a"
proof -
  have keys: "k \<in> set (object_keys v) \<longleftrightarrow> jget v k \<noteq> None" for k v
    by (cases v) (auto simp: object_keys_def jget_def dict_keys_def map_of_eq_None_iff)
  have none: "set CONFLICTING_FIELDS \<inter> set (object_keys task_spec) = {} \<longleftrightarrow>
      (\<forall>k \<in> {''agentInstanceRef'', ''executionId'', ''executionIdentity'', ''instanceRef'', ''nativeId'', ''runtimeId''}. jget task_spec k = None)"
  proof -
    have "set ks \<inter> set (object_keys task_spec) = {} \<longleftrightarrow> (\<forall>k \<in> set ks. jget task_spec k = None)" for ks using keys [of _ task_spec] by blast
    from this [of CONFLICTING_FIELDS] show ?thesis by (simp only: CONFLICTING_FIELDS_def list.set)
  qed
  have obj: "set (object_keys (JObj d)) \<subseteq> {''name''} \<and> map_of d ''name'' = Some (JStr a) \<longleftrightarrow>
      map_of d ''name'' = Some (JStr a) \<and> dom (map_of d) = {''name''}" for d
    using keys [of _ "JObj d"] by (auto simp: subset_iff dom_def)
  have ref: "is_obj (jfield task_spec ''agentRef'') \<and> set (object_keys (jfield task_spec ''agentRef'')) \<subseteq> {''name''} \<and> jfield (jfield task_spec ''agentRef'') ''name'' = JStr a \<longleftrightarrow>
      (\<exists>d. jget task_spec ''agentRef'' = Some (JObj d) \<and> map_of d ''name'' = Some (JStr a) \<and> dom (map_of d) = {''name''})"
  proof (cases "\<exists>d. jget task_spec ''agentRef'' = Some (JObj d)")
    case True
    then obtain d where d: "jget task_spec ''agentRef'' = Some (JObj d)" by blast
    then have "jfield task_spec ''agentRef'' = JObj d" by (simp add: jfield_def)
    then show ?thesis using d obj [of d] by (simp add: jfield_JStr)
  qed (simp add: jfield_obj)
  show ?thesis unfolding legacy_evidence_ok_def task_evidence_def none jfield_JStr [of meta] ref [symmetric] by (simp only: conj_assoc)
qed

lemma legacy_binding_iff:
  assumes "trimmed a"
  shows "legacy_binding ns a u (JObj sp) = Inr b \<longleftrightarrow> (\<exists>runtime mode img. map_of sp ''runtime'' = Some (JObj runtime) \<and>
     map_of runtime ''type'' = Some (JStr mode) \<and> trimmed mode \<and>
     (case img of None \<Rightarrow> map_of runtime ''image'' \<in> {None, Some JNull} | Some s \<Rightarrow> map_of runtime ''image'' = Some (JStr s) \<and> trimmed s) \<and>
     b = agent_binding ns a u mode img)"
proof -
  have "\<not> secret_shaped ''serviceName''" by code_simp
  then have conf: "redacted_items [(''serviceName'', JStr a)] = Inr [(''serviceName'', JStr a)]"
    by (subst redacted_items_ok) (simp add: nonblank_iff py_space_def json_scalar_def)
  have fixed: "nonblank ''agentos.io/current-agent-service''" "nonblank (''legacy-agent:'' @ s)" for s
    by (simp_all add: nonblank_iff py_space_def)
  have init: "runtime_binding_init (JStr (''legacy-agent:'' @ ns @ '':'' @ u)) (JStr ''agentos.io/current-agent-service'') (JStr mode)
      (case img of None \<Rightarrow> JNull | Some s \<Rightarrow> JStr s) (JObj [(''serviceName'', JStr a)]) = Inr (agent_binding ns a u mode img)"
    if "trimmed mode" "\<forall>s. img = Some s \<longrightarrow> trimmed s" for mode img
    using that conf fixed trimmed_nonblank
    by (cases img) (simp_all add: runtime_binding_init_def redacted_configuration_def package_ref_init_def required_JStr agent_binding_def del: redacted_items.simps)
  have opt: "(case v of JNull \<Rightarrow> Inr JNull | v' \<Rightarrow> rbind (required_string v' f) (\<lambda>s. Inr (JStr s))) = Inr w \<longleftrightarrow>
      (\<exists>img. w = (case img of None \<Rightarrow> JNull | Some s \<Rightarrow> JStr s) \<and> v = w \<and> (\<forall>s. img = Some s \<longrightarrow> trimmed s))" for v f w
    by (cases v) (auto simp: rbind_Inr_iff split: option.splits)
  have field: "jfield (JObj d) k = (case img of None \<Rightarrow> JNull | Some s \<Rightarrow> JStr s) \<and> (\<forall>s. img = Some s \<longrightarrow> trimmed s) \<longleftrightarrow>
      (case img of None \<Rightarrow> map_of d k \<in> {None, Some JNull} | Some s \<Rightarrow> map_of d k = Some (JStr s) \<and> trimmed s)" for d k img
    by (cases img) (auto simp: jfield_JNull jfield_JStr)
  show ?thesis (is "?l \<longleftrightarrow> ?r")
  proof
    assume ?l
    then obtain mode w where m: "is_obj (jfield (JObj sp) ''runtime'')" "jfield (jfield (JObj sp) ''runtime'') ''type'' = JStr mode" "trimmed mode"
      "(case jfield (jfield (JObj sp) ''runtime'') ''image'' of JNull \<Rightarrow> Inr JNull | v \<Rightarrow> rbind (required_string v ''Agent.spec.runtime.image'') (\<lambda>s. Inr (JStr s))) = Inr w"
      "runtime_binding_init (JStr (''legacy-agent:'' @ ns @ '':'' @ u)) (JStr ''agentos.io/current-agent-service'') (JStr mode) w (JObj [(''serviceName'', JStr a)]) = Inr b"
      unfolding legacy_binding_def by (auto simp: rbind_Inr_iff)
    obtain runtime where r: "map_of sp ''runtime'' = Some (JObj runtime)" using m(1) by (auto simp: jfield_obj)
    then have f: "jfield (JObj sp) ''runtime'' = JObj runtime" by (simp add: jfield_def)
    obtain img where img: "w = (case img of None \<Rightarrow> JNull | Some s \<Rightarrow> JStr s)" "jfield (JObj runtime) ''image'' = w" "\<forall>s. img = Some s \<longrightarrow> trimmed s"
      using m(4) unfolding opt f by blast
    then have "b = agent_binding ns a u mode img" using m(5) init [OF m(3) img(3)] by simp
    then show ?r using r m(2,3) img field [of runtime "''image''" img] unfolding f jfield_JStr by (intro exI conjI) auto
  next
    assume ?r
    then obtain runtime mode img where r: "map_of sp ''runtime'' = Some (JObj runtime)" "map_of runtime ''type'' = Some (JStr mode)" "trimmed mode"
      "(case img of None \<Rightarrow> map_of runtime ''image'' \<in> {None, Some JNull} | Some s \<Rightarrow> map_of runtime ''image'' = Some (JStr s) \<and> trimmed s)"
      "b = agent_binding ns a u mode img" by blast
    have f: "jfield (JObj sp) ''runtime'' = JObj runtime" "jfield (JObj runtime) ''type'' = JStr mode" using r(1,2) by (simp_all add: jfield_def)
    note i = field [of runtime "''image''" img, THEN iffD2, OF r(4)]
    have c: "(case jfield (JObj runtime) ''image'' of JNull \<Rightarrow> Inr JNull | v \<Rightarrow> rbind (required_string v ''Agent.spec.runtime.image'') (\<lambda>s. Inr (JStr s))) =
        Inr (case img of None \<Rightarrow> JNull | Some s \<Rightarrow> JStr s)" unfolding opt using i by blast
    have "required_string (JStr mode) g = Inr mode" "mapping_value (JObj runtime) g = Inr (JObj runtime)" for g using r(3) by simp_all
    then show ?l unfolding legacy_binding_def f r(5) by (simp only: rbind_simps f c init [OF r(3) conjunct2 [OF i]])
  qed
qed

lemma legacy_instance_iff:
  assumes "trimmed ns" "trimmed a" "\<And>s. nonblank (uuid5 s)"
  shows "legacy_instance parse uuid5 ns a body = Inr i \<longleftrightarrow> (\<exists>uid created mode img. agent_evidence parse body ns a uid created mode img \<and>
    i = \<lparr>ai_id = derived_id uuid5 ''legacy-agent-instance'' [ns, a, uid], ai_definition = \<lparr>dr_namespace = ns, dr_name = a\<rparr>, ai_lifecycle = ACTIVE,
      ai_desired = agent_binding ns a uid mode img, ai_created_at = created, ai_updated_at = created,
      ai_effective = Some \<lparr>ef_value = agent_binding ns a uid mode img, ef_resolved_at = created\<rparr>, ai_realizations = []\<rparr>)"
proof -
  have "legacy_instance parse uuid5 ns a body = Inr i \<longleftrightarrow> (\<exists>meta stamp sp uid created b. jget body ''metadata'' = Some (JObj meta) \<and>
      map_of meta ''namespace'' = Some (JStr ns) \<and> map_of meta ''name'' = Some (JStr a) \<and> map_of meta ''deletionTimestamp'' \<in> {None, Some JNull} \<and>
      map_of meta ''uid'' = Some (JStr uid) \<and> trimmed uid \<and> map_of meta ''creationTimestamp'' = Some (JStr stamp) \<and> trimmed stamp \<and>
      parse (replace_z stamp) = Some created \<and> jget body ''spec'' = Some (JObj sp) \<and> legacy_binding ns a uid (JObj sp) = Inr b \<and>
      i = \<lparr>ai_id = derived_id uuid5 ''legacy-agent-instance'' [ns, a, uid], ai_definition = \<lparr>dr_namespace = ns, dr_name = a\<rparr>, ai_lifecycle = ACTIVE,
        ai_desired = b, ai_created_at = created, ai_updated_at = created, ai_effective = Some \<lparr>ef_value = b, ef_resolved_at = created\<rparr>, ai_realizations = []\<rparr>)"
    (is "_ \<longleftrightarrow> ?r")
  proof (cases "is_obj (jfield body ''metadata'') \<and> is_obj (jfield body ''spec'')")
    case True
    then obtain meta sp where f: "jget body ''metadata'' = Some (JObj meta)" "jget body ''spec'' = Some (JObj sp)" by (auto simp: jfield_obj)
    then have g: "jfield body ''metadata'' = JObj meta" "jfield body ''spec'' = JObj sp" by (simp_all add: jfield_def)
    have nb: "nonblank ns" "nonblank a" using assms(1,2) by (simp_all add: trimmed_nonblank)
    have id: "nonblank (derived_id uuid5 k ps)" for k ps using assms(3) by (simp add: derived_id_def)
    have map: "mapping_value (JObj d) fn = Inr (JObj d)" for d fn by simp
    have req: "required_string (jfield (JObj d) k) fn = Inr s \<longleftrightarrow> map_of d k = Some (JStr s) \<and> trimmed s" for d k fn s by (simp add: jfield_JStr)
    have stamp: "timestamp_value parse (jfield (JObj d) k) fn = Inr c \<longleftrightarrow> (\<exists>s. map_of d k = Some (JStr s) \<and> trimmed s \<and> parse (replace_z s) = Some c)" for d k fn c
      unfolding timestamp_value_def rbind_Inr_iff req by (auto split: option.splits)
    have made: "instance_id_init (JStr (derived_id uuid5 k ps)) = Inr (derived_id uuid5 k ps)" "definition_ref_init (JStr ns) (JStr a) = Inr \<lparr>dr_namespace = ns, dr_name = a\<rparr>" for k ps
      by (simp_all add: instance_id_init_def definition_ref_init_def required_JStr nb id)
    show ?thesis
    proof
      assume l: "legacy_instance parse uuid5 ns a body = Inr i"
      show ?r using l unfolding legacy_instance_def g map rbind_simps made f rbind_Inr_iff req
        by (clarsimp simp: rbind_Inr_iff stamp jfield_JStr jfield_JNull split: if_splits)
    next
      assume ?r
      then show "legacy_instance parse uuid5 ns a body = Inr i" unfolding legacy_instance_def g map rbind_simps made
        using assms(1,2) by (clarsimp simp: f rbind_Inr_iff stamp jfield_JStr jfield_JNull)
    qed
  next
    case False
    then show ?thesis by (auto simp: legacy_instance_def jfield_obj rbind_Inr_iff split: if_splits)
  qed
  then show ?thesis unfolding legacy_binding_iff [OF assms(2)] agent_evidence_def by blast
qed

text \<open>
  C18: the interpreter accepts a Task exactly when its metadata name it in the namespace of the handler, its specification carries no other identity
  than the name of an Agent, and exactly one Agent object is found, of that name and namespace, not terminating, with an identity, a time of creation and a
  valid runtime. The envelope is the one made of these fields. The repository, the serialization, the selection policy and the
  checks of the builder in between neither refuse such a Task nor change anything.
\<close>

theorem interpreter_builds_envelope_directly:
  assumes "\<And>s. nonblank (uuid5 s)"
  shows "interpret_legacy_task isoformat fromisoformat uuid5 task_spec meta ns candidates = Inr e \<longleftrightarrow>
    (\<exists>n u a body uid created mode img. task_evidence task_spec meta ns n u a \<and> candidates = [body] \<and>
      agent_evidence fromisoformat body ns a uid created mode img \<and> e = task_envelope uuid5 ns n u a uid created mode img)"
proof -
  have env: "e = legacy_envelope uuid5 ns n u \<lparr>ai_id = derived_id uuid5 ''legacy-agent-instance'' [ns, a, uid], ai_definition = \<lparr>dr_namespace = ns, dr_name = a\<rparr>,
      ai_lifecycle = ACTIVE, ai_desired = agent_binding ns a uid mode img, ai_created_at = created, ai_updated_at = created,
      ai_effective = Some \<lparr>ef_value = agent_binding ns a uid mode img, ef_resolved_at = created\<rparr>, ai_realizations = []\<rparr> \<longleftrightarrow>
    e = task_envelope uuid5 ns n u a uid created mode img" for n u a uid created mode img
    by (simp add: legacy_envelope_def task_envelope_def derived_id_def ROUTING_POLICY_def Let_def)
  have "(\<exists>i. legacy_instance fromisoformat uuid5 ns a body = Inr i \<and> e = legacy_envelope uuid5 ns n u i) \<longleftrightarrow>
      (\<exists>uid created mode img. agent_evidence fromisoformat body ns a uid created mode img \<and> e = task_envelope uuid5 ns n u a uid created mode img)"
    if "task_evidence task_spec meta ns n u a" for n u a body
  proof -
    have tr: "trimmed ns" "trimmed a" using that by (simp_all add: task_evidence_def)
    show ?thesis unfolding legacy_instance_iff [OF tr assms] env [symmetric] by blast
  qed
  then show ?thesis unfolding utc.interpret_legacy_task_iff [OF assms] task_evidence_iff by blast
qed

subsection \<open>An execution identity belongs to one Task\<close>

lemma append_sep_inject:
  "x \<notin> set a \<Longrightarrow> x \<notin> set b \<Longrightarrow> a @ x # s = b @ x # t \<longleftrightarrow> a = b \<and> s = t"
  by (metis append_Cons append_eq_append_conv2 append_same_eq in_set_conv_decomp list.sel(3) self_append_conv takeWhile_neq_split)

lemma join_slash_inject:
  assumes "CHR ''/'' \<notin> set a" "CHR ''/'' \<notin> set a'" "CHR ''/'' \<notin> set b" "CHR ''/'' \<notin> set b'"
  shows "py_join ''/'' [k1, k2, k3, a, b, c] = py_join ''/'' [k1, k2, k3, a', b', c'] \<longleftrightarrow> a = a' \<and> b = b' \<and> c = c'"
  using assms by (simp add: append_sep_inject)

text \<open>
  A Task is its own execution boundary. Two Tasks the interpreter accepts have the same execution identity
  exactly when namespace, name and UID agree, so a replayed handler recovers the identity of its Task and a Task that is
  deleted and created again gets another one. The names have no slash, as in Kubernetes, and the name-based UUID does
  not collide.
\<close>

theorem execution_identity_is_per_task:
  assumes "\<And>s. nonblank (uuid5 s)" and "inj uuid5"
    and "interpret_legacy_task isoformat fromisoformat uuid5 spec1 meta1 ns1 candidates1 = Inr e1"
    and "interpret_legacy_task isoformat fromisoformat uuid5 spec2 meta2 ns2 candidates2 = Inr e2"
    and "jfield meta1 ''name'' = JStr n1" "jfield meta2 ''name'' = JStr n2"
    and "CHR ''/'' \<notin> set ns1" "CHR ''/'' \<notin> set ns2" "CHR ''/'' \<notin> set n1" "CHR ''/'' \<notin> set n2"
  shows "en_identity e1 = en_identity e2 \<longleftrightarrow> ns1 = ns2 \<and> n1 = n2 \<and> jfield meta1 ''uid'' = jfield meta2 ''uid''"
proof -
  obtain u1 a1 i1 where 1: "legacy_evidence_ok spec1 meta1 ns1 n1 u1 a1" "e1 = legacy_envelope uuid5 ns1 n1 u1 i1"
    using assms(3,5) utc.interpret_legacy_task_iff [OF assms(1)] by (auto simp: legacy_evidence_ok_def)
  obtain u2 a2 i2 where 2: "legacy_evidence_ok spec2 meta2 ns2 n2 u2 a2" "e2 = legacy_envelope uuid5 ns2 n2 u2 i2"
    using assms(4,6) utc.interpret_legacy_task_iff [OF assms(1)] by (auto simp: legacy_evidence_ok_def)
  have "en_identity e1 = en_identity e2 \<longleftrightarrow> ns1 = ns2 \<and> n1 = n2 \<and> u1 = u2"
    using join_slash_inject [OF assms(7,8,9,10), of "''agentos.io''" "''v0.2''" "''task-execution''" u1 u2] assms(2) 1(2) 2(2)
    by (simp add: legacy_envelope_def derived_id_def inj_eq del: py_join.simps)
  then show ?thesis using 1(1) 2(1) by (simp add: legacy_evidence_ok_def)
qed

subsection \<open>A Task and its Agent\<close>

lemma trimmed_plain: "s \<noteq> [] \<Longrightarrow> list_all (\<lambda>c. \<not> py_space c) s \<Longrightarrow> trimmed s"
proof -
  assume s: "s \<noteq> []" "list_all (\<lambda>c. \<not> py_space c) s"
  then have "dropWhile py_space s = s" "dropWhile py_space (rev s) = rev s"
    using list.set_sel(1) [of s] list.set_sel(1) [of "rev s"] by (simp_all add: dropWhile_eq_self_iff list_all_iff)
  moreover have "nonblank s" using s by (cases s) (auto simp: nonblank_iff)
  ultimately show "trimmed s" by (simp add: trimmed_def strip_def lstrip_def rstrip_def)
qed

definition example_uuid :: "string \<Rightarrow> string" where
  "example_uuid s = CHR ''u'' # s"

definition example_agent :: json where
  "example_agent = JObj [(''metadata'', JObj [(''namespace'', JStr ''ns''), (''name'', JStr ''a''), (''uid'', JStr ''x''),
       (''creationTimestamp'', JStr ''2024-01-31T08:15:00Z'')]),
     (''spec'', JObj [(''runtime'', JObj [(''type'', JStr ''native'')])])]"

definition example_task :: json where
  "example_task = JObj [(''agentRef'', JObj [(''name'', JStr ''a'')]), (''input'', JObj [(''prompt'', JStr ''hi'')])]"

definition example_meta :: "string \<Rightarrow> json" where
  "example_meta u = JObj [(''name'', JStr ''t''), (''namespace'', JStr ''ns''), (''uid'', JStr u)]"

lemma example_uuid_ok: "nonblank (example_uuid s)" "inj example_uuid"
  by (auto simp: nonblank_iff example_uuid_def py_space_def inj_def)

lemma example_created: "\<exists>t. fromisoformat ''2024-01-31T08:15:00+00:00'' = Some t"
proof -
  have "parse_fields ''2024-01-31T08:15:00+00:00'' = Some \<lparr>dt_year = 2024, dt_month = 1, dt_day = 31, dt_hour = 8, dt_minute = 15,
      dt_second = 0, dt_microsecond = 0\<rparr>"
    by (simp add: parse_fields_def read_digits_def is_digit_def read_nat_def expect_def read_fraction_def numeral_eq_Suc)
  then show ?thesis by (simp add: fromisoformat_def utc_valid_def days_in_month_def)
qed

lemma example_legacy_instance: "\<exists>i. legacy_instance fromisoformat example_uuid ''ns'' ''a'' example_agent = Inr i"
proof -
  obtain t where t: "fromisoformat ''2024-01-31T08:15:00+00:00'' = Some t" using example_created by blast
  have trim: "trimmed ''ns''" "trimmed ''a''" "trimmed ''x''" "trimmed ''native''" "trimmed ''2024-01-31T08:15:00Z''"
    by (rule trimmed_plain; simp add: py_space_def)+
  have req: "trimmed s \<Longrightarrow> required_string (JStr s) f = Inr s" for s f by simp
  have "\<not> secret_shaped ''serviceName''" by code_simp
  then have "redacted_items [(''serviceName'', JStr ''a'')] = Inr [(''serviceName'', JStr ''a'')]"
    by (subst redacted_items_ok) (simp add: nonblank_iff py_space_def json_scalar_def)
  moreover have "nonblank ''agentos.io/current-agent-service''" "nonblank ''legacy-agent:ns:x''" by (simp_all add: nonblank_iff py_space_def)
  moreover have "timestamp_value fromisoformat (JStr ''2024-01-31T08:15:00Z'') f = Inr t" for f
    using t trim(5) by (simp add: timestamp_value_def req replace_z_def)
  ultimately show ?thesis using trim trimmed_nonblank
    by (simp add: legacy_instance_def legacy_binding_def runtime_binding_init_def redacted_configuration_def package_ref_init_def mapping_value_def
      example_agent_def jfield_def req required_JStr instance_id_init_def definition_ref_init_def derived_id_def example_uuid_ok del: redacted_items.simps)
qed

lemma example_evidence_ok: "u \<in> {''x'', ''y''} \<Longrightarrow> legacy_evidence_ok example_task (example_meta u) ''ns'' ''t'' u ''a''"
  using trimmed_plain [of u] trimmed_plain [of "''ns''"] trimmed_plain [of "''t''"] trimmed_plain [of "''a''"]
  by (auto simp: legacy_evidence_ok_def example_task_def example_meta_def jfield_def object_keys_def CONFLICTING_FIELDS_def py_space_def)

lemma example_interpretation:
  assumes "u \<in> {''x'', ''y''}"
  shows "\<exists>e. interpret_legacy_task isoformat fromisoformat example_uuid example_task (example_meta u) ''ns'' [example_agent] = Inr e"
  using utc.interpret_accepted [OF example_evidence_ok [OF assms] example_uuid_ok(1), where body = example_agent] example_legacy_instance by auto

theorem interpreter_builds_envelope_directly_witness:
  "\<exists>created. interpret_legacy_task isoformat fromisoformat example_uuid example_task (example_meta ''x'') ''ns'' [example_agent] =
       Inr (task_envelope example_uuid ''ns'' ''t'' ''x'' ''a'' ''x'' created ''native'' None) \<and>
     \<not> is_ok (interpret_legacy_task isoformat fromisoformat example_uuid example_task (example_meta ''x'') ''ns'' [JObj []])"
proof -
  obtain t where t: "fromisoformat ''2024-01-31T08:15:00+00:00'' = Some t" using example_created by blast
  have "trimmed ''x''" "trimmed ''native''" "trimmed ''2024-01-31T08:15:00Z''" by (rule trimmed_plain; simp add: py_space_def)+
  then have ag: "agent_evidence fromisoformat example_agent ''ns'' ''a'' ''x'' t ''native'' None"
    using t by (simp add: agent_evidence_def example_agent_def replace_z_def)
  have task: "task_evidence example_task (example_meta ''x'') ''ns'' ''t'' ''x'' ''a''"
    using example_evidence_ok [of "''x''"] by (simp add: task_evidence_iff)
  note iff = interpreter_builds_envelope_directly [OF example_uuid_ok(1)]
  have "interpret_legacy_task isoformat fromisoformat example_uuid example_task (example_meta ''x'') ''ns'' [example_agent] =
      Inr (task_envelope example_uuid ''ns'' ''t'' ''x'' ''a'' ''x'' t ''native'' None)"
    unfolding iff using ag task by blast
  moreover have "\<not> agent_evidence fromisoformat (JObj []) ns a uid c m img" for ns a uid c m img by (simp add: agent_evidence_def)
  then have "\<not> is_ok (interpret_legacy_task isoformat fromisoformat example_uuid example_task (example_meta ''x'') ''ns'' [JObj []])"
    unfolding is_ok_iff iff by blast
  ultimately show ?thesis by blast
qed

theorem execution_identity_is_per_task_witness:
  "\<exists>e1 e2. interpret_legacy_task isoformat fromisoformat example_uuid example_task (example_meta ''x'') ''ns'' [example_agent] = Inr e1 \<and>
     interpret_legacy_task isoformat fromisoformat example_uuid example_task (example_meta ''y'') ''ns'' [example_agent] = Inr e2 \<and>
     en_identity e1 \<noteq> en_identity e2"
proof -
  obtain e1 e2 where e: "interpret_legacy_task isoformat fromisoformat example_uuid example_task (example_meta ''x'') ''ns'' [example_agent] = Inr e1"
    "interpret_legacy_task isoformat fromisoformat example_uuid example_task (example_meta ''y'') ''ns'' [example_agent] = Inr e2"
    using example_interpretation [of "''x''"] example_interpretation [of "''y''"] by auto
  have "en_identity e1 \<noteq> en_identity e2"
    using execution_identity_is_per_task [OF example_uuid_ok e, of "''t''" "''t''"] by (simp add: example_meta_def jfield_def)
  then show ?thesis using e by blast
qed

end
