(* ===== verification/Execution_Coordinator.thy ===== *)
theory Execution_Coordinator
  imports Native_Provider Capability_Gateway Execution_Evidence Identity_Spine
begin

text \<open>
  The Task execution coordinator, \<open>operator/src/agent_operator/execution_coordinator.py\<close>: one logical Task
  execution runs the Native provider, then at most one declared capability through the gateway, and then
  appends a record to the evidence repository.

  The three collaborators are ports over a world \<open>'w\<close>, as in the source, where they are protocols; mappings
  are objects of a Python heap \<open>h\<close> that the whole execution shares. A raised exception is the pair of
  its class and its message. The last part builds the default collaborators from the models of the Native
  provider, of the gateway with its REST provider and synthetic transport, and of the SQLite evidence
  repository; the hash and the time text are parameters as there. The default collaborators keep the
  contract of the ports, which is a locale.
\<close>

subsection \<open>Values\<close>

datatype execution_classification = EX_SUCCEEDED | EX_FAILED | EX_DENIED | EX_UNKNOWN

datatype evidence_availability = EV_AVAILABLE | EV_UNAVAILABLE

record evidence_subject =
  sb_namespace :: string
  sb_workflow :: string
  sb_task :: string

definition evidence_subject_init :: "evidence_subject \<Rightarrow> (core_error, evidence_subject) result" where
  "evidence_subject_init s =
     (if list_all nonblank [sb_namespace s, sb_workflow s, sb_task s] then Inr s
      else Inl (''ValueError'', ''EVIDENCE_SUBJECT_IDENTITY_REQUIRED''))"

record capability_plan =
  pl_capability :: string
  pl_operation :: string
  pl_arguments :: addr
  pl_authorization :: authorization_context

definition capability_plan_init :: "pyheap \<Rightarrow> capability_plan \<Rightarrow> (core_error, capability_plan) result" where
  "capability_plan_init h p = (case deref h (pl_arguments p) of OMap _ \<Rightarrow> Inr p
     | _ \<Rightarrow> Inl (''ValueError'', ''Capability arguments must be a mapping''))"

record 'd task_context =
  tx_envelope :: "'d execution_envelope"
  tx_configuration :: addr
  tx_plan :: "capability_plan option"
  tx_subject :: "evidence_subject option"

definition string_pairs :: "pyheap \<Rightarrow> (pykey \<times> addr) list \<Rightarrow> bool" where
  "string_pairs h items = list_all (\<lambda>(k, a). (case k of KStr _ \<Rightarrow> True | _ \<Rightarrow> False) \<and> (case deref h a of OStr _ \<Rightarrow> True | _ \<Rightarrow> False)) items"

definition task_context_init :: "pyheap \<Rightarrow> 'd task_context \<Rightarrow> (core_error, 'd task_context) result" where
  "task_context_init h c = (case deref h (tx_configuration c) of
     OMap items \<Rightarrow>
       if \<not> string_pairs h items then Inl (''ValueError'', ''Runtime configuration must contain string pairs'')
       else (case tx_subject c of None \<Rightarrow> Inr c
         | Some s \<Rightarrow> if sb_namespace s \<noteq> dr_namespace (en_definition (tx_envelope c))
             then Inl (''ValueError'', ''EVIDENCE_SUBJECT_NAMESPACE_CONFLICT'') else Inr c)
   | _ \<Rightarrow> Inl (''ValueError'', ''Runtime configuration must be a mapping''))"

record execution_outcome =
  xo_classification :: execution_classification
  xo_identity :: string
  xo_requested_runtime :: string
  xo_effective_runtime :: "string option"
  xo_runtime :: execution_evidence
  xo_capability :: "capability_outcome option"
  xo_result :: "string option"
  xo_diagnostic :: string
  xo_retry_safe :: bool
  xo_availability :: evidence_availability
  xo_evidence_reason :: string

subsection \<open>The coordinator\<close>

type_synonym 'w runtime_port = "'w \<Rightarrow> provider_request \<Rightarrow> 'w \<times> (core_error, execution_evidence) result"
type_synonym 'w capability_port =
  "'w \<Rightarrow> capability_request \<Rightarrow> authorization_context \<Rightarrow> 'w \<times> (core_error, capability_outcome) result"
type_synonym 'w evidence_port = "'w \<Rightarrow> evidence_record \<Rightarrow> 'w \<times> (string, append_disposition \<times> evidence_record) result"

record 'w coordinator =
  tc_native :: "'w runtime_port"
  tc_gateway :: "'w capability_port option"
  tc_repository :: "'w evidence_port option"
  tc_security_domain :: string
  tc_clock :: "'w \<Rightarrow> instant"

definition requested_target :: "'d execution_envelope \<Rightarrow> target_identity" where
  "requested_target e =
     (if rb_mode (en_desired e) = rb_mode (ef_value (en_effective e)) \<and> rb_mode (ef_value (en_effective e)) = ti_name RUNTIME_TARGET
      then RUNTIME_TARGET
      else \<lparr>ti_name = rb_mode (en_desired e), ti_exact_version = None, ti_profile = ''unsupported''\<rparr>)"

definition native_request :: "'d task_context \<Rightarrow> string \<Rightarrow> provider_request" where
  "native_request ctx prompt =
     (let ident = en_identity (tx_envelope ctx); target = requested_target (tx_envelope ctx) in
      \<lparr>vr_identity = ident, vr_input = prompt,
       vr_compatibility = \<lparr>cr_package = PROVIDER_PACKAGE, cr_target = target, cr_core_version = ''0.1.0'', cr_identity = ident,
         cr_degraded_requested = False, cr_degraded_evidence = []\<rparr>,
       vr_binding = \<lparr>db_target = target, db_configuration = tx_configuration ctx\<rparr>, vr_claimed = None\<rparr>)"

definition capability_error :: "(string, 'a) result \<Rightarrow> (core_error, 'a) result" where
  "capability_error r = (case r of Inl m \<Rightarrow> Inl (''CapabilityModelError'', m) | Inr x \<Rightarrow> Inr x)"

definition execute_capability ::
  "'w coordinator \<Rightarrow> pyheap \<Rightarrow> 'd task_context \<Rightarrow> 'w \<Rightarrow> 'w \<times> (core_error, capability_outcome option) result" where
  "execute_capability tc h ctx w = (case tx_plan ctx of None \<Rightarrow> (w, Inr None)
     | Some p \<Rightarrow> (case tc_gateway tc of
         None \<Rightarrow> (w, Inl (''ValueError'', ''Capability requested without a configured gateway''))
       | Some gateway \<Rightarrow>
           if ac_identity (pl_authorization p) \<noteq> en_identity (tx_envelope ctx)
             then (w, Inl (''ValueError'', ''Capability authorization identity mismatch''))
           else case capability_error (capability_request_init h \<lparr>cq_capability = pl_capability p, cq_operation = pl_operation p,
               cq_identity = en_identity (tx_envelope ctx), cq_arguments = pl_arguments p\<rparr>) of
             Inl e \<Rightarrow> (w, Inl e)
           | Inr q \<Rightarrow> (case gateway w q (pl_authorization p) of (w', Inl e) \<Rightarrow> (w', Inl e) | (w', Inr x) \<Rightarrow> (w', Inr (Some x)))))"

definition evidence_classification :: "execution_classification \<Rightarrow> outcome_classification" where
  "evidence_classification c = (case c of EX_SUCCEEDED \<Rightarrow> OC_SUCCEEDED | EX_FAILED \<Rightarrow> OC_FAILED | EX_DENIED \<Rightarrow> OC_DENIED | EX_UNKNOWN \<Rightarrow> OC_UNKNOWN)"

definition outcome_evidence ::
  "string \<Rightarrow> instant \<Rightarrow> evidence_subject \<Rightarrow> string \<Rightarrow> execution_outcome \<Rightarrow> evidence_record" where
  "outcome_evidence domain now s inst out = \<lparr>er_id = ''evidence.native.'' @ xo_identity out @ ''.1.1'', er_namespace = sb_namespace s,
     er_security_domain = domain, er_execution = xo_identity out, er_workflow = sb_workflow s, er_task = sb_task s,
     er_attempt = 1, er_event = 1, er_event_type = EXECUTION_OUTCOME, er_occurred_at = now, er_runtime = ''NATIVE'', er_instance = inst,
     er_capability = map_option co_capability (xo_capability out),
     er_decision = (case xo_capability out of None \<Rightarrow> E_NOT_APPLICABLE
       | Some c \<Rightarrow> (case co_authorization c of ALLOW \<Rightarrow> E_ALLOW | DENY \<Rightarrow> E_DENY)),
     er_reason = xo_diagnostic out,
     er_correlation = (case xo_capability out of None \<Rightarrow> xe_native_id (xo_runtime out)
       | Some c \<Rightarrow> (case co_native_request_id c of Some i \<Rightarrow> Some i | None \<Rightarrow> xe_native_id (xo_runtime out))),
     er_calls = (case xo_capability out of None \<Rightarrow> 0 | Some c \<Rightarrow> int (ie_attempts (co_invocation c))),
     er_outcome = evidence_classification (xo_classification out), er_outcome_reference = None, er_references = [],
     er_limitation = None, er_supersedes = None, er_schema_version = 1, er_sequence = None, er_recorded_at = None\<rparr>"

definition with_evidence ::
  "'w coordinator \<Rightarrow> 'd task_context \<Rightarrow> 'w \<Rightarrow> execution_outcome \<Rightarrow> 'w \<times> (core_error, execution_outcome) result" where
  "with_evidence tc ctx w out = (case tc_repository tc of None \<Rightarrow> (w, Inr out)
     | Some repository \<Rightarrow> (case tx_subject ctx of
         None \<Rightarrow> (w, Inr (out\<lparr>xo_availability := EV_UNAVAILABLE, xo_evidence_reason := ''EVIDENCE_SUBJECT_UNAVAILABLE''\<rparr>))
       | Some s \<Rightarrow> (case evidence_record_init (outcome_evidence (tc_security_domain tc) (tc_clock tc w) s (en_instance (tx_envelope ctx)) out) of
           Inl code \<Rightarrow> (w, Inl (''EvidenceValidationError'', code))
         | Inr r \<Rightarrow> (case repository w r of
             (w', Inl code) \<Rightarrow> (w', Inr (out\<lparr>xo_availability := EV_UNAVAILABLE, xo_evidence_reason := code\<rparr>))
           | (w', Inr _) \<Rightarrow> (w', Inr (out\<lparr>xo_availability := EV_AVAILABLE, xo_evidence_reason := ''EVIDENCE_RECORDED''\<rparr>))))))"

definition initial_outcome ::
  "'d task_context \<Rightarrow> execution_evidence \<Rightarrow> execution_classification \<Rightarrow> capability_outcome option \<Rightarrow> string option \<Rightarrow> string \<Rightarrow> bool
   \<Rightarrow> execution_outcome" where
  "initial_outcome ctx e c cap res diagnostic safe = \<lparr>xo_classification = c, xo_identity = en_identity (tx_envelope ctx),
     xo_requested_runtime = target_text (cd_requested (xe_compatibility e)),
     xo_effective_runtime = map_option target_text (cd_effective (xe_compatibility e)), xo_runtime = e, xo_capability = cap,
     xo_result = res, xo_diagnostic = diagnostic, xo_retry_safe = safe, xo_availability = EV_UNAVAILABLE,
     xo_evidence_reason = ''EVIDENCE_REPOSITORY_NOT_CONFIGURED''\<rparr>"

definition capability_classification :: "capability_status \<Rightarrow> execution_classification" where
  "capability_classification s = (case s of S_SUCCEEDED \<Rightarrow> EX_SUCCEEDED | S_DENIED \<Rightarrow> EX_DENIED | S_INDETERMINATE \<Rightarrow> EX_UNKNOWN | S_FAILED \<Rightarrow> EX_FAILED)"

definition coordinator_execute ::
  "'w coordinator \<Rightarrow> pyheap \<Rightarrow> 'd task_context \<Rightarrow> string \<Rightarrow> 'w \<Rightarrow> 'w \<times> (core_error, execution_outcome) result" where
  "coordinator_execute tc h ctx prompt w = (case tc_native tc w (native_request ctx prompt) of
     (w1, Inl e) \<Rightarrow> (w1, Inl e)
   | (w1, Inr e) \<Rightarrow>
       if xe_state e \<noteq> X_SUCCEEDED
         then with_evidence tc ctx w1 (initial_outcome ctx e (if xe_state e = X_UNKNOWN then EX_UNKNOWN else EX_FAILED) None None (xe_reason e) False)
       else (case execute_capability tc h ctx w1 of
         (w2, Inl err) \<Rightarrow> (w2, Inl err)
       | (w2, Inr None) \<Rightarrow> with_evidence tc ctx w2 (initial_outcome ctx e EX_SUCCEEDED None (xe_output e) ''TASK_RUNTIME_SUCCEEDED'' False)
       | (w2, Inr (Some c)) \<Rightarrow> with_evidence tc ctx w2 (initial_outcome ctx e (capability_classification (co_status c)) (Some c)
           (if co_status c = S_SUCCEEDED then xe_output e else None) (co_diagnostic c) (co_retry_safe c))))"

subsection \<open>The default collaborators\<close>

definition declared_decide :: "string \<Rightarrow> authorization_port" where
  "declared_decide allowed q ctx = AuthResult
     [Some (if cq_capability q = allowed \<and> cq_identity q = ac_identity ctx then ALLOW else DENY)] ''DECLARED_CAPABILITY''"

definition synthetic_send :: "(string \<Rightarrow> string) \<Rightarrow> unit rest_transport" where
  "synthetic_send sha w r = (w, Responded \<lparr>rs_status_code = 200, rs_body = ([OScalar ''true'', OMap [(KStr ''accepted'', 0)]], 1),
     rs_native_request_id = Some (''synthetic-capability-'' @ take 24 (sha (rr_identity r @ [CHR 0x00] @ rr_method r @ [CHR 0x00] @ rr_target r))),
     rs_content_type = ''application/json''\<rparr>)"

definition synthetic_configuration :: rest_configuration where
  "synthetic_configuration = \<lparr>rp_provider = ''agentos.synthetic-rest'', rp_target = ''https://synthetic.invalid/capabilities/invoke'',
     rp_allowed_operations = [''invoke''], rp_method = ''POST'', rp_headers = []\<rparr>"

text \<open>Python's \<open>repr\<close> and \<open>str\<close> of a JSON value.\<close>

fun json_repr :: "json \<Rightarrow> string" where
  "json_repr JNull = ''None''"
| "json_repr (JBool b) = (if b then ''True'' else ''False'')"
| "json_repr (JInt n) = show_int n"
| "json_repr (JFloat t) = t"
| "json_repr (JStr s) = py_repr s"
| "json_repr (JList xs) = ''['' @ py_join '', '' (map json_repr xs) @ '']''"
| "json_repr (JObj d) = ''{'' @ py_join '', '' (map (\<lambda>(k, v). py_repr k @ '': '' @ json_repr v) d) @ ''}''"

definition json_text :: "json \<Rightarrow> string" where
  "json_text v = (case v of JStr s \<Rightarrow> s | _ \<Rightarrow> json_repr v)"

definition jget_or :: "json \<Rightarrow> string \<Rightarrow> json \<Rightarrow> json" where
  "jget_or v k d = (case jget v k of None \<Rightarrow> d | Some x \<Rightarrow> x)"

definition build_runtime_configuration :: "json \<Rightarrow> string \<Rightarrow> string \<Rightarrow> (core_error, (string, string) dict) result" where
  "build_runtime_configuration evidence ns agent =
     (let sp = jget_or evidence ''spec'' (JObj []);
          model = (if is_obj sp then jget_or sp ''model'' (JObj []) else JObj []);
          identity = (if is_obj sp then jget_or sp ''identity'' (JObj []) else JObj []) in
      if \<not> is_obj model then Inl (''AttributeError'', ''get'')
      else Inr ([(''AGENT_NAME'', agent), (''AGENT_NAMESPACE'', ns), (''MODEL_PROVIDER'', json_text (jget_or model ''provider'' (JStr ''mock''))),
          (''MODEL_NAME'', json_text (jget_or model ''name'' (JStr ''mock-model'')))] @
        (case jget identity ''displayName'' of Some (JStr s) \<Rightarrow> [(''AGENT_DISPLAY_NAME'', s)] | _ \<Rightarrow> []) @
        (case jget identity ''role'' of Some (JStr s) \<Rightarrow> [(''AGENT_ROLE'', s)] | _ \<Rightarrow> [])))"

definition CapabilityIdentity :: "string \<Rightarrow> (core_error, string) result" where
  "CapabilityIdentity s = capability_error (rbind (required s ''capability identity'') (\<lambda>_. Inr s))"

text \<open>The heap grows by the arguments \<open>{"input": prompt}\<close> and by the empty attributes of the context.\<close>

definition build_capability_plan ::
  "pyheap \<Rightarrow> json \<Rightarrow> 'd execution_envelope \<Rightarrow> string \<Rightarrow> pyheap \<times> (core_error, capability_plan option) result" where
  "build_capability_plan h evidence e prompt =
     (let sp = jget_or evidence ''spec'' (JObj []);
          capabilities = (if is_obj sp then jget_or sp ''capabilities'' (JList []) else JList []) in
      case capabilities of
        JList [] \<Rightarrow> (h, Inr None)
      | JList [JStr selected] \<Rightarrow>
          if \<not> nonblank selected then (h, Inl (''ValueError'', ''Agent capability evidence must contain non-empty names''))
          else (let n = length h; h' = h @ [OStr prompt, OMap [(KStr ''input'', n)], OMap []] in
            (h', rbind (CapabilityIdentity selected) (\<lambda>c.
              rbind (capability_error (authorization_context_init h' \<lparr>ac_subject = dr_name (en_definition e), ac_tenant = dr_namespace (en_definition e),
                ac_identity = en_identity e, ac_attributes = n + 2\<rparr>)) (\<lambda>auth.
              rbind (capability_plan_init h' \<lparr>pl_capability = c, pl_operation = ''invoke'', pl_arguments = n + 1, pl_authorization = auth\<rparr>) (\<lambda>p.
              Inr (Some p))))))
      | JList [_] \<Rightarrow> (h, Inl (''ValueError'', ''Agent capability evidence must contain non-empty names''))
      | JList _ \<Rightarrow> (h, Inl (''ValueError'', ''Agent capability evidence is ambiguous''))
      | _ \<Rightarrow> (h, Inl (''ValueError'', ''Agent capability evidence must be a sequence'')))"

record default_world =
  dw_provider :: provider_state
  dw_sent :: "rest_request list"
  dw_evidence :: evidence_db

definition default_native :: "(string \<Rightarrow> string) \<Rightarrow> pyheap \<Rightarrow> default_world runtime_port" where
  "default_native sha h w q = (case provider_invoke (deterministic_mock_invoker sha) h () (dw_provider w) q of
     (_, ps, Inl _) \<Rightarrow> (w\<lparr>dw_provider := ps\<rparr>, Inl (''Exception'', '''')) | (_, ps, Inr e) \<Rightarrow> (w\<lparr>dw_provider := ps\<rparr>, Inr e))"

definition default_gateway :: "(string \<Rightarrow> string) \<Rightarrow> string \<Rightarrow> pyheap \<Rightarrow> default_world capability_port" where
  "default_gateway sha allowed h w q ctx =
     (case gateway_execute (declared_decide allowed) (rp_provider synthetic_configuration)
         (rest_invoke synthetic_configuration (logged_transport (synthetic_send sha))) h ((), dw_sent w) q ctx of
        (s, r) \<Rightarrow> (w\<lparr>dw_sent := snd s\<rparr>, capability_error r))"

definition default_append :: "(string \<Rightarrow> string) \<Rightarrow> (instant \<Rightarrow> string) \<Rightarrow> bool \<Rightarrow> (default_world \<Rightarrow> instant) \<Rightarrow> default_world evidence_port" where
  "default_append sha isofmt available clock w r =
     (case evidence_append sha isofmt available (clock w) (dw_evidence w) r of (db, a) \<Rightarrow> (w\<lparr>dw_evidence := db\<rparr>, a))"

text \<open>\<open>database\<close> is the configured repository: absent, or present and available or not at the time of the append.\<close>

definition build_default_coordinator ::
  "(string \<Rightarrow> string) \<Rightarrow> (instant \<Rightarrow> string) \<Rightarrow> (default_world \<Rightarrow> instant) \<Rightarrow> pyheap \<Rightarrow> string option \<Rightarrow> bool option \<Rightarrow> string option
   \<Rightarrow> default_world coordinator" where
  "build_default_coordinator sha isofmt clock h capability database domain =
     \<lparr>tc_native = default_native sha h, tc_gateway = map_option (\<lambda>c. default_gateway sha c h) capability,
      tc_repository = map_option (\<lambda>available. default_append sha isofmt available clock) database,
      tc_security_domain = (case domain of None \<Rightarrow> ''default'' | Some d \<Rightarrow> d), tc_clock = clock\<rparr>"

subsection \<open>The contract of the ports\<close>

text \<open>
  What was sent is seen through \<open>sent\<close>. Only the gateway sends, at most one request for an execution, none when it
  denies and one when it succeeds, and it reports at least what it sent. A repository that answers has the record.
\<close>

definition outcome_honest :: "'e list \<Rightarrow> capability_outcome \<Rightarrow> bool" where
  "outcome_honest new x = (length new \<le> ie_attempts (co_invocation x) \<and> \<not> co_retry_safe x \<and>
     (co_status x = S_DENIED \<longrightarrow> new = []) \<and> (co_status x = S_SUCCEEDED \<longrightarrow> length new = 1))"

text \<open>What an outcome says of the execution of \<open>ctx\<close> in which the requests \<open>new\<close> were sent.\<close>

definition outcome_truthful :: "'d task_context \<Rightarrow> 'e list \<Rightarrow> execution_outcome \<Rightarrow> bool" where
  "outcome_truthful ctx new out =
     (xo_identity out = en_identity (tx_envelope ctx) \<and> \<not> xo_retry_safe out \<and>
      (new \<noteq> [] \<longrightarrow> xe_state (xo_runtime out) = X_SUCCEEDED \<and> tx_plan ctx \<noteq> None) \<and>
      (case xo_classification out of
         EX_SUCCEEDED \<Rightarrow> xe_state (xo_runtime out) = X_SUCCEEDED \<and> xo_result out = xe_output (xo_runtime out) \<and>
           length new = (if tx_plan ctx = None then 0 else 1)
       | EX_DENIED \<Rightarrow> xo_result out = None \<and> new = [] | _ \<Rightarrow> xo_result out = None))"

text \<open>An evidence record tells the outcome and at least the requests that were sent.\<close>

definition evidence_truthful :: "'e list \<Rightarrow> execution_outcome \<Rightarrow> evidence_record \<Rightarrow> bool" where
  "evidence_truthful new out r = (er_execution r = xo_identity out \<and> er_outcome r = evidence_classification (xo_classification out) \<and>
     er_reason r = xo_diagnostic out \<and> int (length new) \<le> er_calls r)"

locale coordinator_ports =
  fixes tc :: "'w coordinator"
    and sent :: "'w \<Rightarrow> 'e list"
    and recorded :: "'w \<Rightarrow> evidence_record \<Rightarrow> bool"
  assumes native_silent: "\<And>w q w' r. tc_native tc w q = (w', r) \<Longrightarrow> sent w' = sent w"
    and gateway_law: "\<And>g w q c w' r. tc_gateway tc = Some g \<Longrightarrow> g w q c = (w', r) \<Longrightarrow>
      \<exists>new. sent w' = sent w @ new \<and> length new \<le> 1 \<and> (\<forall>x. r = Inr x \<longrightarrow> outcome_honest new x)"
    and repository_law: "\<And>rep w r w' a. tc_repository tc = Some rep \<Longrightarrow> rep w r = (w', a) \<Longrightarrow> sent w' = sent w \<and> (is_ok a \<longrightarrow> recorded w' r)"
begin

lemma with_evidence_law:
  assumes "with_evidence tc ctx w out = (w', res)"
  shows "sent w' = sent w \<and> (\<forall>out'. res = Inr out' \<longrightarrow>
    out'\<lparr>xo_availability := xo_availability out, xo_evidence_reason := xo_evidence_reason out\<rparr> = out \<and>
    (xo_availability out' = EV_AVAILABLE \<longrightarrow> xo_availability out = EV_AVAILABLE \<or>
      (\<exists>s r now. tx_subject ctx = Some s \<and> recorded w' r \<and>
        evidence_record_init (outcome_evidence (tc_security_domain tc) now s (en_instance (tx_envelope ctx)) out) = Inr r)))"
proof (cases "tc_repository tc")
  case None
  then show ?thesis using assms by (auto simp: with_evidence_def)
next
  case (Some rep)
  show ?thesis
  proof (cases "tx_subject ctx")
    case None
    then show ?thesis using assms Some by (auto simp: with_evidence_def)
  next
    case s: (Some s)
    let ?r = "evidence_record_init (outcome_evidence (tc_security_domain tc) (tc_clock tc w) s (en_instance (tx_envelope ctx)) out)"
    show ?thesis
    proof (cases ?r)
      case (Inr r)
      obtain w1 a where a: "rep w r = (w1, a)" by (metis surj_pair)
      then show ?thesis using assms Some s Inr repository_law [OF Some a] by (cases a) (auto simp: with_evidence_def)
    qed (use assms Some s in \<open>auto simp: with_evidence_def\<close>)
  qed
qed

lemma execute_capability_law:
  assumes "execute_capability tc h ctx w = (w', res)"
  shows "\<exists>new. sent w' = sent w @ new \<and> length new \<le> 1 \<and> (new \<noteq> [] \<longrightarrow> tx_plan ctx \<noteq> None) \<and>
    (res = Inr None \<longrightarrow> new = [] \<and> tx_plan ctx = None) \<and> (\<forall>x. res = Inr (Some x) \<longrightarrow> outcome_honest new x \<and> tx_plan ctx \<noteq> None)"
proof (cases "tx_plan ctx")
  case None
  then show ?thesis using assms by (auto simp: execute_capability_def)
next
  case p: (Some p)
  let ?q = "capability_request_init h \<lparr>cq_capability = pl_capability p, cq_operation = pl_operation p,
    cq_identity = en_identity (tx_envelope ctx), cq_arguments = pl_arguments p\<rparr>"
  show ?thesis
  proof (cases "(\<exists>e. res = Inl e) \<and> w' = w")
    case True
    then show ?thesis by auto
  next
    case False
    then obtain g q where g: "tc_gateway tc = Some g" "?q = Inr q"
      using assms p by (auto simp: execute_capability_def capability_error_def split: option.splits if_splits sum.splits)
    obtain w1 r where r: "g w q (pl_authorization p) = (w1, r)" by (metis surj_pair)
    have "w' = w1 \<and> res = (case r of Inl e \<Rightarrow> Inl e | Inr x \<Rightarrow> Inr (Some x))"
      using False assms p g r by (auto simp: execute_capability_def capability_error_def split: if_splits sum.splits)
    then show ?thesis using gateway_law [OF g(1) r] p by (auto split: sum.splits)
  qed
qed

lemma finish:
  assumes "with_evidence tc ctx w out = (w', res)" and "outcome_truthful ctx new out" and "xo_availability out = EV_UNAVAILABLE"
    and "case xo_capability out of None \<Rightarrow> new = [] | Some c \<Rightarrow> length new \<le> ie_attempts (co_invocation c)"
  shows "sent w' = sent w \<and> (\<forall>out'. res = Inr out' \<longrightarrow> outcome_truthful ctx new out' \<and>
    (xo_availability out' = EV_AVAILABLE \<longrightarrow> (\<exists>r. recorded w' r \<and> evidence_truthful new out' r)))"
proof -
  have law: "sent w' = sent w" and same: "\<And>out'. res = Inr out' \<Longrightarrow>
      out'\<lparr>xo_availability := xo_availability out, xo_evidence_reason := xo_evidence_reason out\<rparr> = out"
    and rec: "\<And>out'. res = Inr out' \<Longrightarrow> xo_availability out' = EV_AVAILABLE \<Longrightarrow> \<exists>s r now. recorded w' r \<and>
        evidence_record_init (outcome_evidence (tc_security_domain tc) now s (en_instance (tx_envelope ctx)) out) = Inr r"
    using with_evidence_law [OF assms(1)] assms(3) by auto
  have "outcome_truthful ctx new out' \<and> (xo_availability out' = EV_AVAILABLE \<longrightarrow> (\<exists>r. recorded w' r \<and> evidence_truthful new out' r))"
    if out': "res = Inr out'" for out'
  proof -
    have eq: "xo_identity out' = xo_identity out" "xo_retry_safe out' = xo_retry_safe out" "xo_runtime out' = xo_runtime out"
      "xo_classification out' = xo_classification out" "xo_result out' = xo_result out" "xo_diagnostic out' = xo_diagnostic out"
      using same [OF out'] by (cases out; cases out'; simp)+
    have "evidence_truthful new out r" if "evidence_record_init (outcome_evidence d now s i out) = Inr r" for d now s i r
      using that assms(4)
      by (auto simp: evidence_record_init_def outcome_evidence_def evidence_truthful_def split: if_splits option.splits)
    then show ?thesis using assms(2) rec [OF out'] unfolding outcome_truthful_def evidence_truthful_def eq by blast
  qed
  then show ?thesis using law by blast
qed

lemma execute_law:
  assumes "coordinator_execute tc h ctx prompt w = (w', res)"
  shows "\<exists>new. sent w' = sent w @ new \<and> length new \<le> 1 \<and> (\<forall>out. res = Inr out \<longrightarrow> outcome_truthful ctx new out \<and>
    (xo_availability out = EV_AVAILABLE \<longrightarrow> (\<exists>r. recorded w' r \<and> evidence_truthful new out r)))"
proof -
  obtain w1 n where n: "tc_native tc w (native_request ctx prompt) = (w1, n)" by (metis surj_pair)
  have w1: "sent w1 = sent w" by (rule native_silent [OF n])
  show ?thesis
  proof (cases n)
    case (Inl err)
    then show ?thesis using assms n w1 by (auto simp: coordinator_execute_def)
  next
    case (Inr e)
    show ?thesis
    proof (cases "xe_state e = X_SUCCEEDED")
      case False
      let ?out = "initial_outcome ctx e (if xe_state e = X_UNKNOWN then EX_UNKNOWN else EX_FAILED) None None (xe_reason e) False"
      have we: "with_evidence tc ctx w1 ?out = (w', res)" using assms n Inr False by (simp add: coordinator_execute_def)
      have "outcome_truthful ctx [] ?out" by (simp add: initial_outcome_def outcome_truthful_def)
      from finish [OF we this] show ?thesis using w1 by (intro exI [of _ "[]"]) (simp add: initial_outcome_def)
    next
      case True
      obtain w2 c where c: "execute_capability tc h ctx w1 = (w2, c)" by (metis surj_pair)
      obtain new where new: "sent w2 = sent w @ new" "length new \<le> 1" "new \<noteq> [] \<longrightarrow> tx_plan ctx \<noteq> None"
          "c = Inr None \<longrightarrow> new = [] \<and> tx_plan ctx = None" "\<forall>x. c = Inr (Some x) \<longrightarrow> outcome_honest new x \<and> tx_plan ctx \<noteq> None"
        using execute_capability_law [OF c] w1 by auto
      consider (raised) err where "c = Inl err" | (none) "c = Inr None" | (some) x where "c = Inr (Some x)"
        by (metis option.exhaust sum.exhaust)
      then show ?thesis
      proof cases
        case raised
        then show ?thesis using assms n Inr True c new by (auto simp: coordinator_execute_def)
      next
        case none
        let ?out = "initial_outcome ctx e EX_SUCCEEDED None (xe_output e) ''TASK_RUNTIME_SUCCEEDED'' False"
        have we: "with_evidence tc ctx w2 ?out = (w', res)" using assms n Inr True c none by (simp add: coordinator_execute_def)
        have "outcome_truthful ctx [] ?out" using new none True by (simp add: initial_outcome_def outcome_truthful_def)
        from finish [OF we this] show ?thesis using new none by (intro exI [of _ "[]"]) (simp add: initial_outcome_def)
      next
        case some
        let ?out = "initial_outcome ctx e (capability_classification (co_status x)) (Some x)
           (if co_status x = S_SUCCEEDED then xe_output e else None) (co_diagnostic x) (co_retry_safe x)"
        have we: "with_evidence tc ctx w2 ?out = (w', res)" using assms n Inr True c some by (simp add: coordinator_execute_def)
        have "outcome_truthful ctx new ?out" using new some True
          by (cases "co_status x") (auto simp: initial_outcome_def outcome_truthful_def outcome_honest_def capability_classification_def)
        from finish [OF we this] show ?thesis using new some by (intro exI [of _ new]) (simp add: initial_outcome_def outcome_honest_def)
      qed
    qed
  qed
qed

end

subsection \<open>The default collaborators keep the contract\<close>

definition has_evidence :: "(string \<Rightarrow> string) \<Rightarrow> (instant \<Rightarrow> string) \<Rightarrow> evidence_db \<Rightarrow> evidence_record \<Rightarrow> bool" where
  "has_evidence sha isofmt db r = (\<exists>row \<in> set (ed_rows db). ew_id row = er_id r \<and> ew_digest row = payload_digest sha isofmt r)"

lemma append_has_evidence:
  "evidence_append sha isofmt available now db r = (db', a) \<Longrightarrow> is_ok a \<Longrightarrow> has_evidence sha isofmt db' r"
  by (fastforce simp: evidence_append_def has_evidence_def find_Some_iff split: if_splits option.splits)

lemma declared_reason_ok: "declared_decide allowed q ctx = AuthResult ds code \<Longrightarrow> is_ok (decision_reason_init code)"
  by (auto simp: declared_decide_def decision_reason_init_def required_def stable_code_def ascii_upper_def nonblank_iff py_space_def)

lemma default_gateway_law:
  assumes "default_gateway sha allowed h w q ctx = (w', r)"
  shows "\<exists>new. dw_sent w' = dw_sent w @ new \<and> length new \<le> 1 \<and> (\<forall>x. r = Inr x \<longrightarrow> outcome_honest new x)"
proof -
  obtain s' x new where x: "gateway_execute (declared_decide allowed) (rp_provider synthetic_configuration)
      (rest_invoke synthetic_configuration (logged_transport (synthetic_send sha))) h ((), dw_sent w) q ctx = (s', Inr x)"
    "snd s' = dw_sent w @ new" "\<not> co_retry_safe x" "length new \<le> ie_attempts (co_invocation x)" "ie_attempts (co_invocation x) \<le> 1"
    "if ac_identity ctx = cq_identity q \<and> (\<exists>code. declared_decide allowed q ctx = AuthResult [Some ALLOW] code)
     then co_authorization x = ALLOW \<and> co_status x \<noteq> S_DENIED \<and> (co_status x = S_SUCCEEDED \<longrightarrow> length new = 1)
     else s' = ((), dw_sent w) \<and> co_authorization x = DENY \<and> co_status x = S_DENIED \<and> ie_attempts (co_invocation x) = 0"
    using rest_execution_authorized [where decide = "declared_decide allowed" and send = "synthetic_send sha" and conf = synthetic_configuration
      and h = h and w = "()" and l = "dw_sent w" and q = q and ctx = ctx] declared_reason_ok by blast
  then have "w' = w\<lparr>dw_sent := snd s'\<rparr>" "r = Inr x" using assms by (simp_all add: default_gateway_def capability_error_def)
  then show ?thesis using x by (intro exI [of _ new]) (auto simp: outcome_honest_def split: if_splits)
qed

interpretation default: coordinator_ports "build_default_coordinator sha isofmt clock h capability database domain" dw_sent
  "\<lambda>w. has_evidence sha isofmt (dw_evidence w)"
  for sha isofmt clock h capability database domain
proof
  fix w q w' r
  assume "tc_native (build_default_coordinator sha isofmt clock h capability database domain) w q = (w', r)"
  then show "dw_sent w' = dw_sent w"
    by (auto simp: build_default_coordinator_def default_native_def split: prod.splits sum.splits)
next
  fix g w q c w' r
  assume "tc_gateway (build_default_coordinator sha isofmt clock h capability database domain) = Some g" "g w q c = (w', r)"
  then show "\<exists>new. dw_sent w' = dw_sent w @ new \<and> length new \<le> 1 \<and> (\<forall>x. r = Inr x \<longrightarrow> outcome_honest new x)"
    using default_gateway_law by (auto simp: build_default_coordinator_def)
next
  fix rep w r w' a
  assume "tc_repository (build_default_coordinator sha isofmt clock h capability database domain) = Some rep" "rep w r = (w', a)"
  then show "dw_sent w' = dw_sent w \<and> (is_ok a \<longrightarrow> has_evidence sha isofmt (dw_evidence w') r)"
    using append_has_evidence by (auto simp: build_default_coordinator_def default_append_def split: prod.splits)
qed

text \<open>
  C13: whatever the Task and its Agent, an execution over the default collaborators sends at most one capability request;
  an outcome it returns never invites a retry and tells the truth of what happened: a request was sent only after the
  Runtime succeeded and only for a declared capability, a success carries the output of the Runtime and means that the
  declared capability was requested exactly once, a denial means that nothing was sent, and no other outcome carries a
  result. When evidence is reported available, a record with the outcome and with at least the requests sent is stored.
\<close>

theorem task_execution_is_truthful:
  assumes "coordinator_execute (build_default_coordinator sha isofmt clock h capability database domain) h ctx prompt w = (w', res)"
  shows "\<exists>new. dw_sent w' = dw_sent w @ new \<and> length new \<le> 1 \<and> (\<forall>out. res = Inr out \<longrightarrow> outcome_truthful ctx new out \<and>
    (xo_availability out = EV_AVAILABLE \<longrightarrow> (\<exists>r. has_evidence sha isofmt (dw_evidence w') r \<and> evidence_truthful new out r)))"
  by (rule default.execute_law [OF assms])

subsection \<open>Evidence that cannot be constructed\<close>

lemma prohibited_capability: "evidence_record_init r = Inr r' \<Longrightarrow> er_capability r = Some c \<Longrightarrow> \<not> prohibited_text c"
  by (auto simp: evidence_record_init_def evidence_checks_def optional_text_def evidence_text_def split: if_splits)

text \<open>
  C37: When an evidence repository and a subject are configured and the capability that ran has a name with a prohibited
  fragment, such as \<open>token\<close>, the execution raises although the Runtime and the capability have completed: the record
  is constructed outside the handler of repository failures, and its outcome is lost.
\<close>

theorem completed_execution_is_lost:
  assumes "tc_native tc w (native_request ctx prompt) = (w1, Inr e)" and "xe_state e = X_SUCCEEDED"
    and "execute_capability tc h ctx w1 = (w2, Inr (Some c))" and "prohibited_text (co_capability c)"
    and "tc_repository tc = Some repository" and "tx_subject ctx = Some s"
  shows "\<exists>code. coordinator_execute tc h ctx prompt w = (w2, Inl (''EvidenceValidationError'', code))"
proof -
  let ?r = "outcome_evidence (tc_security_domain tc) (tc_clock tc w2) s (en_instance (tx_envelope ctx))
    (initial_outcome ctx e (capability_classification (co_status c)) (Some c) (if co_status c = S_SUCCEEDED then xe_output e else None)
      (co_diagnostic c) (co_retry_safe c))"
  have "er_capability ?r = Some (co_capability c)" by (simp add: outcome_evidence_def initial_outcome_def)
  then obtain code where "evidence_record_init ?r = Inl code"
    using prohibited_capability [of ?r _ "co_capability c"] assms(4) by (cases "evidence_record_init ?r") auto
  then show ?thesis using assms by (simp add: coordinator_execute_def with_evidence_def)
qed

subsection \<open>A concrete execution\<close>

definition example_heap :: "string \<Rightarrow> pyheap" where
  "example_heap prompt = [OMap [], OStr prompt, OMap [(KStr ''input'', 1)], OMap []]"

definition example_context :: "string \<Rightarrow> datetime \<Rightarrow> datetime task_context" where
  "example_context cap t = \<lparr>
     tx_envelope = \<lparr>en_definition = \<lparr>dr_namespace = ''n'', dr_name = ''a''\<rparr>, en_instance = ''i'', en_identity = ''exec-1'', en_desired = example_binding,
       en_effective = \<lparr>ef_value = example_binding, ef_resolved_at = t\<rparr>,
       en_evidence = \<lparr>sv_definition = \<lparr>dr_namespace = ''n'', dr_name = ''a''\<rparr>, sv_instance = ''i'', sv_authority = ROUTING_POLICY, sv_reason = None\<rparr>,
       en_correlations = [], en_source_task = None\<rparr>,
     tx_configuration = 0,
     tx_plan = Some \<lparr>pl_capability = cap, pl_operation = ''invoke'', pl_arguments = 2,
       pl_authorization = \<lparr>ac_subject = ''a'', ac_tenant = ''n'', ac_identity = ''exec-1'', ac_attributes = 3\<rparr>\<rparr>,
     tx_subject = Some \<lparr>sb_namespace = ''n'', sb_workflow = ''w'', sb_task = ''t''\<rparr>\<rparr>"

definition example_world :: default_world where
  "example_world = \<lparr>dw_provider = provider_empty, dw_sent = [], dw_evidence = evidence_db_empty\<rparr>"

definition example_coordinator :: "string \<Rightarrow> default_world coordinator" where
  "example_coordinator cap = build_default_coordinator (\<lambda>s. s) example_iso (\<lambda>_. 7) (example_heap ''hi'') (Some cap) (Some True) None"

lemma empty_configuration_ok:
  "deref h a = OMap [] \<Longrightarrow> is_ok (translate_binding h \<lparr>db_target = RUNTIME_TARGET, db_configuration = a\<rparr>)"
  by (simp add: translate_binding_def scan_secret_boundary_def scan_object_def MAX_CONFIGURATION_NODES_def
    MAX_CONFIGURATION_DEPTH_def copied_configuration_def dict_items_def string_keyed_def string_valued_def
    SUPPORTED_CONFIGURATION_def dict_get_def)

lemma example_native:
  "\<exists>w1 e. tc_native (example_coordinator cap) example_world (native_request (example_context cap t) ''hi'') = (w1, Inr e) \<and>
     xe_state e = X_SUCCEEDED \<and> dw_sent w1 = [] \<and> dw_evidence w1 = evidence_db_empty"
proof -
  have q: "native_request (example_context cap t) ''hi'' = example_provider_request"
    by (simp add: native_request_def example_context_def requested_target_def Agent_Instances.example_binding_def RUNTIME_TARGET_def
      example_provider_request_def Let_def)
  obtain b where b: "translate_binding (example_heap ''hi'') (vr_binding example_provider_request) = Inr b"
    using empty_configuration_ok [of "example_heap ''hi''" 0] by (auto simp: is_ok_iff example_provider_request_def example_heap_def deref_def)
  have "nonblank ''exec-1''" by code_simp
  then have "cd_may_invoke (validate_compatibility (vr_compatibility example_provider_request))"
    by (simp add: may_invoke_iff example_provider_request_def)
  then show ?thesis using b unfolding q
    by (simp add: example_coordinator_def build_default_coordinator_def default_native_def provider_invoke_def Let_def deterministic_mock_invoker_def
      provider_record_def example_world_def provider_empty_def) (simp add: example_provider_request_def)
qed

lemma short_gateway_values: "length s < 15 \<Longrightarrow> \<not> gateway_secret_value s"
proof
  assume l: "length s < 15" and "gateway_secret_value s"
  then obtain r where "r \<in> set GATEWAY_SECRET_PATTERNS" "re_min r \<le> length s"
    by (auto simp: gateway_secret_value_def list_ex_iff dest: re_search_min)
  moreover have "\<forall>r \<in> set GATEWAY_SECRET_PATTERNS. 15 \<le> re_min r"
    by (simp add: GATEWAY_SECRET_PATTERNS_def re_gateway_private_key_def re_gateway_bearer_def re_gateway_key_def re_literal_def re_literal_i_def
      re_opt_def re_at_least_def re_one_of_def re_space_def numeral_eq_Suc)
  ultimately show False using l by fastforce
qed

lemma example_keys: "\<not> gateway_secret_key ''input''" "\<not> gateway_secret_key ''operation''" "\<not> gateway_secret_key ''arguments''"
    "\<not> gateway_secret_key ''accepted''"
  by code_simp+

lemma example_arguments: "frozen_json_mapping (example_heap ''hi'') 2 n MAX_REQUEST_BYTES = Inr ()"
  by (simp add: frozen_json_mapping_def example_heap_def deref_def string_keyed_mapping_def contains_secret_def contains_object_def string_keys_def
    example_keys short_gateway_values json_size.simps sortable_keys_def json_key_size_def json_string_size_def json_char_size_def MAX_REQUEST_BYTES_def
    numeral_eq_Suc)

definition example_capability_request :: "string \<Rightarrow> capability_request" where
  "example_capability_request cap = \<lparr>cq_capability = cap, cq_operation = ''invoke'', cq_identity = ''exec-1'', cq_arguments = 2\<rparr>"

lemma example_body: "frozen_json_mapping (fst (rest_body (example_heap ''hi'') (example_capability_request cap)))
    (snd (rest_body (example_heap ''hi'') (example_capability_request cap))) n MAX_REQUEST_BYTES = Inr ()"
  by (simp add: rest_body_def example_capability_request_def Let_def frozen_json_mapping_def example_heap_def deref_def string_keyed_mapping_def
    contains_secret_def contains_object_def example_keys short_gateway_values json_size.simps sortable_keys_def json_key_size_def
    json_string_size_def json_char_size_def MAX_REQUEST_BYTES_def numeral_eq_Suc)

lemma example_request_sent:
  "\<exists>r ans. rest_invoke synthetic_configuration (logged_transport (synthetic_send (\<lambda>s. s))) ((), []) (example_heap ''hi'') (example_capability_request cap)
     = (((), [r]), ans)"
proof -
  have "required ''https://synthetic.invalid/capabilities/invoke'' f = Inr ()" for f by (simp add: required_def nonblank_iff py_space_def)
  then show ?thesis using example_body [of cap]
    by (simp add: rest_invoke_def synthetic_configuration_def rest_request_init_def headers_secret_def MAX_HEADERS_def logged_transport_def synthetic_send_def)
      (simp add: example_capability_request_def)
qed

lemma example_capability:
  assumes "dw_sent w1 = []"
  shows "\<exists>w2 c. execute_capability (example_coordinator cap) (example_heap ''hi'') (example_context cap t) w1 = (w2, Inr (Some c)) \<and>
    co_capability c = cap \<and> length (dw_sent w2) = 1 \<and> dw_evidence w2 = dw_evidence w1"
proof -
  let ?q = "example_capability_request cap" and ?ctx = "\<lparr>ac_subject = ''a'', ac_tenant = ''n'', ac_identity = ''exec-1'', ac_attributes = 3\<rparr>"
  have allow: "declared_decide cap ?q ?ctx = AuthResult [Some ALLOW] ''DECLARED_CAPABILITY''"
    by (simp add: declared_decide_def example_capability_request_def)
  obtain s' x where x: "gateway_execute (declared_decide cap) (rp_provider synthetic_configuration)
      (rest_invoke synthetic_configuration (logged_transport (synthetic_send (\<lambda>s. s)))) (example_heap ''hi'') ((), []) ?q ?ctx = (s', Inr x)"
      "co_capability x = cap"
    using rest_execution_authorized [where decide = "declared_decide cap" and send = "synthetic_send (\<lambda>s. s)" and conf = synthetic_configuration
      and h = "example_heap ''hi''" and w = "()" and l = "[]" and q = ?q and ctx = ?ctx] declared_reason_ok
    by (auto simp: example_capability_request_def)
  obtain r ans where r: "rest_invoke synthetic_configuration (logged_transport (synthetic_send (\<lambda>s. s))) ((), []) (example_heap ''hi'') ?q = (((), [r]), ans)"
    using example_request_sent by blast
  have "s' = ((), [r])"
    using x(1) allow r by (auto simp: gateway_execute_def example_capability_request_def split: provider_answer.splits if_splits)
  moreover have "required ''invoke'' f = Inr ()" for f by (simp add: required_def nonblank_iff py_space_def)
  then have "capability_request_init (example_heap ''hi'') ?q = Inr ?q"
    using example_arguments by (simp add: capability_request_init_def example_capability_request_def)
  ultimately show ?thesis using x assms
    by (simp add: execute_capability_def example_context_def example_coordinator_def build_default_coordinator_def default_gateway_def
      example_capability_request_def capability_error_def)
qed

lemma token_prohibited: "prohibited_text ''token''"
proof -
  have "ends re_sensitive ''token'' 0 \<noteq> []"
    by (simp add: re_sensitive_def re_literal_i_def re_sep_opt_def re_opt_def re_one_of_def to_lower_def ascii_upper_def)
  then show ?thesis by (force simp: prohibited_text_def re_search_def list_ex_iff)
qed

theorem completed_execution_is_lost_witness:
  "\<forall>t. \<exists>w2 code. coordinator_execute (example_coordinator ''token'') (example_heap ''hi'') (example_context ''token'' t) ''hi'' example_world =
     (w2, Inl (''EvidenceValidationError'', code)) \<and> length (dw_sent w2) = 1"
proof
  fix t
  obtain w1 e where n: "tc_native (example_coordinator ''token'') example_world (native_request (example_context ''token'' t) ''hi'') = (w1, Inr e)"
    "xe_state e = X_SUCCEEDED" "dw_sent w1 = []" using example_native by blast
  obtain w2 c where c: "execute_capability (example_coordinator ''token'') (example_heap ''hi'') (example_context ''token'' t) w1 = (w2, Inr (Some c))"
    "co_capability c = ''token''" "length (dw_sent w2) = 1" using example_capability [OF n(3)] by blast
  have "\<exists>code. coordinator_execute (example_coordinator ''token'') (example_heap ''hi'') (example_context ''token'' t) ''hi'' example_world =
      (w2, Inl (''EvidenceValidationError'', code))"
    using c(2) token_prohibited
    by (intro completed_execution_is_lost [OF n(1,2) c(1)]) (simp_all add: example_coordinator_def build_default_coordinator_def example_context_def)
  then show "\<exists>w2 code. coordinator_execute (example_coordinator ''token'') (example_heap ''hi'') (example_context ''token'' t) ''hi'' example_world =
      (w2, Inl (''EvidenceValidationError'', code)) \<and> length (dw_sent w2) = 1" using c(3) by blast
qed

theorem task_execution_is_truthful_witness:
  "\<forall>t. \<exists>w' res new. coordinator_execute (example_coordinator ''echo'') (example_heap ''hi'') (example_context ''echo'' t) ''hi'' example_world = (w', res) \<and>
     dw_sent w' = dw_sent example_world @ new \<and> length new \<le> 1"
proof
  fix t
  obtain w' res where r: "coordinator_execute (example_coordinator ''echo'') (example_heap ''hi'') (example_context ''echo'' t) ''hi'' example_world = (w', res)"
    by (metis surj_pair)
  from task_execution_is_truthful [OF r [unfolded example_coordinator_def]] r
  show "\<exists>w' res new. coordinator_execute (example_coordinator ''echo'') (example_heap ''hi'') (example_context ''echo'' t) ''hi'' example_world = (w', res) \<and>
     dw_sent w' = dw_sent example_world @ new \<and> length new \<le> 1" by blast
qed

end
