(* ===== verification/Task_Controller.thy ===== *)
theory Task_Controller
  imports Execution_Coordinator Task_Execution
begin

text \<open>
  The Task controller, \<open>operator/src/agent_operator/task_controller.py\<close>: the handler \<open>create_task\<close> of a new Task and
  the functions it calls, from the Agent lookup to the status it publishes. The invocation of an Agent Runtime over
  HTTP and the retry loop are in the theory of Task execution.

  The specification, metadata and status of a Task are JSON objects. The Kubernetes API, the clocks and
  \<open>time.sleep\<close> are functions over a world \<open>'k\<close>; the collaborators of the coordinator have their own world. A handler
  changes the world, fills a patch of the status, which is merged after it returned, and returns or raises. As the schema
  of the resource requires, the prompt is a string and the timeout a whole number of seconds.

  The theorem is about the handler being called again and again for one Task, as the framework does after a crash or an
  exception, with the status that the Task has then.
\<close>

subsection \<open>Agent lookup and evidence subject\<close>

datatype agent_reply = ApiObject json | ApiError int string

datatype handler_error = Raised string string | RaisedTask task_execution_error

record 'k task_services =
  ks_get_agent :: "'k \<Rightarrow> json \<Rightarrow> 'k \<times> agent_reply"
  ks_patch_status :: "'k \<Rightarrow> (string, json) dict \<Rightarrow> 'k \<times> (handler_error, unit) result"
  ks_utc_now :: "'k \<Rightarrow> 'k \<times> string"
  ks_monotonic :: "'k \<Rightarrow> 'k \<times> real"
  ks_sleep :: "'k \<Rightarrow> real \<Rightarrow> 'k"

definition load_agent_definition :: "'k task_services \<Rightarrow> 'k \<Rightarrow> json \<Rightarrow> 'k \<times> (handler_error, json list) result" where
  "load_agent_definition sv k agent = (case ks_get_agent sv k agent of
     (k', ApiError code why) \<Rightarrow>
       if code = 404 then (k', Inr [])
       else (k', Inl (RaisedTask \<lparr>reason = ''AgentLookupFailed'', message = ''failed to read Agent evidence: '' @ why, retryable = True\<rparr>))
   | (k', ApiObject body) \<Rightarrow>
       if is_obj body then (k', Inr [body])
       else (k', Inl (RaisedTask \<lparr>reason = ''InvalidLegacyIdentityEvidence'', message = ''Agent API returned invalid evidence'', retryable = False\<rparr>)))"

definition workflow_owner :: "json \<Rightarrow> bool" where
  "workflow_owner x = (jget x ''apiVersion'' = Some (JStr ''agentos.io/v1alpha1'') \<and> jget x ''kind'' = Some (JStr ''Workflow'') \<and>
     jget x ''controller'' = Some (JBool True))"

definition nonblank_value :: "json \<Rightarrow> bool" where
  "nonblank_value v = (case v of JStr s \<Rightarrow> nonblank s | _ \<Rightarrow> False)"

definition task_evidence_subject :: "json \<Rightarrow> string \<Rightarrow> (core_error, evidence_subject option) result" where
  "task_evidence_subject meta ns =
     (let labels = jget_or meta ''labels'' (JObj []);
          workflow_name = (if is_obj labels then jfield labels ''agentos.io/workflow'' else JNull);
          owners = (case jfield meta ''ownerReferences'' of JList xs \<Rightarrow> filter workflow_owner xs | _ \<Rightarrow> []) in
      if workflow_name = JNull \<and> owners = [] then Inr None
      else case (jfield meta ''uid'', owners) of
        (JStr task_uid, [x]) \<Rightarrow>
          (case jfield x ''uid'' of
             JStr workflow_uid \<Rightarrow>
               if \<not> nonblank task_uid \<or> jfield meta ''namespace'' \<noteq> JStr ns \<or> \<not> nonblank_value workflow_name \<or>
                  jfield x ''name'' \<noteq> workflow_name \<or> \<not> nonblank workflow_uid
               then Inl (''ValueError'', ''EVIDENCE_SUBJECT_IDENTITY_CONFLICT'')
               else rbind (evidence_subject_init \<lparr>sb_namespace = ns, sb_workflow = workflow_uid, sb_task = task_uid\<rparr>) (\<lambda>s. Inr (Some s))
           | _ \<Rightarrow> Inl (''ValueError'', ''EVIDENCE_SUBJECT_IDENTITY_CONFLICT''))
      | _ \<Rightarrow> Inl (''ValueError'', ''EVIDENCE_SUBJECT_IDENTITY_CONFLICT''))"

text \<open>
  The invocation of the Agent Runtime for a context of any kind, whose identity has a text \<open>shown\<close>. The native dispatch calls it with the text of an attempt.
\<close>

definition invoke_compatible_agent ::
  "('w \<Rightarrow> http_request \<Rightarrow> 'w \<times> (http_error, json option) result) \<Rightarrow> string \<Rightarrow> string \<Rightarrow> ('i \<Rightarrow> string) \<Rightarrow> definition_ref \<Rightarrow> 'i \<Rightarrow> string \<Rightarrow> real
   \<Rightarrow> 'w \<Rightarrow> 'w \<times> (invoke_error, json) result" where
  "invoke_compatible_agent post decode_text subscript_text shown d i prompt timeout w =
     invoke_agent post decode_text subscript_text (dr_name d) (dr_namespace d) prompt timeout (Some (shown i)) w"

subsection \<open>Preparation of an execution\<close>

text \<open>What the configuration of the process and the standard library supply.\<close>

record 'd task_platform =
  tp_sha :: "string \<Rightarrow> string"
  tp_isofmt :: "instant \<Rightarrow> string"
  tp_clock :: "default_world \<Rightarrow> instant"
  tp_dateformat :: "'d \<Rightarrow> string"
  tp_dateparse :: "string \<Rightarrow> 'd option"
  tp_uuid5 :: "string \<Rightarrow> string"
  tp_database :: "bool option"
  tp_domain :: "string option"

record 'd prepared_task =
  pt_heap :: pyheap
  pt_context :: "'d task_context"
  pt_coordinator :: "default_world coordinator"

text \<open>A new dictionary of strings on the heap.\<close>

definition alloc_strings :: "pyheap \<Rightarrow> (string, string) dict \<Rightarrow> pyheap \<times> addr" where
  "alloc_strings h d = (h @ map (\<lambda>p. OStr (snd p)) d @ [OMap (map (\<lambda>(i, p). (KStr (fst p), length h + i)) (enumerate 0 d))], length h + length d)"

definition prepare_task ::
  "'d task_platform \<Rightarrow> json \<Rightarrow> json \<Rightarrow> string \<Rightarrow> string \<Rightarrow> json \<Rightarrow> json list \<Rightarrow> (core_error, 'd prepared_task) result" where
  "prepare_task tp sp meta ns prompt agent candidates =
     rbind (interpret_legacy_task (tp_dateformat tp) (tp_dateparse tp) (tp_uuid5 tp) sp meta ns candidates) (\<lambda>e.
     let evidence = hd candidates in
     case build_capability_plan [] evidence e prompt of (h, plan) \<Rightarrow>
     rbind plan (\<lambda>p.
     rbind (build_runtime_configuration evidence ns (json_text agent)) (\<lambda>conf.
     rbind (task_evidence_subject meta ns) (\<lambda>subject.
     case alloc_strings h conf of (h', a) \<Rightarrow>
     rbind (task_context_init h' \<lparr>tx_envelope = e, tx_configuration = a, tx_plan = p, tx_subject = subject\<rparr>) (\<lambda>ctx.
     Inr \<lparr>pt_heap = h', pt_context = ctx,
       pt_coordinator = build_default_coordinator (tp_sha tp) (tp_isofmt tp) (tp_clock tp) h' (map_option pl_capability p)
         (tp_database tp) (tp_domain tp)\<rparr>)))))"

text \<open>The classes among the raised ones that are subclasses of \<open>ValueError\<close>.\<close>

definition VALUE_ERRORS :: "string list" where
  "VALUE_ERRORS = [''ValueError'', ''CompatibilityInterpreterError'', ''MissingDefinitionError'', ''ConflictingIdentityEvidenceError'',
     ''InvalidLegacyEvidenceError'', ''InvalidDomainValueError'', ''InvalidBindingError'', ''InvalidNativeEvidenceError'',
     ''DuplicateInstanceError'', ''DefinitionOwnershipConflictError'', ''InvalidDefinitionProjectionError'', ''NoEligibleInstanceError'',
     ''AmbiguousInstanceSelectionError'', ''InvalidSelectedInstanceError'', ''DuplicateSelectionIdentityError'',
     ''MissingEffectiveBindingError'', ''NativeIdentitySubstitutionError'', ''CapabilityModelError'', ''EvidenceValidationError'']"

definition failure_reason :: "string \<Rightarrow> string" where
  "failure_reason cls = (if cls = ''MissingDefinitionError'' then ''AgentDefinitionNotFound''
     else if cls = ''ConflictingIdentityEvidenceError'' then ''ConflictingIdentityEvidence''
     else if cls = ''CompatibilityInterpreterError'' then ''CompatibilityInterpretationFailed''
     else ''InvalidLegacyIdentityEvidence'')"

subsection \<open>The operation and the handler\<close>

text \<open>The world of the handler. \<open>tw_executed\<close> is a ghost: the identities the coordinator was called for.\<close>

record 'k task_world =
  tw_env :: 'k
  tw_default :: default_world
  tw_executed :: "string list"

definition task_operation ::
  "'d prepared_task \<Rightarrow> string \<Rightarrow> 'k task_world \<Rightarrow> real \<Rightarrow> 'k task_world \<times> (core_error, string) op_outcome" where
  "task_operation pt prompt w remaining =
     (case coordinator_execute (pt_coordinator pt) (pt_heap pt) (pt_context pt) prompt (tw_default w) of (dw, res) \<Rightarrow>
        (w\<lparr>tw_default := dw, tw_executed := tw_executed w @ [en_identity (tx_envelope (pt_context pt))]\<rparr>,
         case res of
           Inl e \<Rightarrow> OpRaised e
         | Inr out \<Rightarrow>
             if xo_classification out = EX_SUCCEEDED then
               (case xo_result out of Some r \<Rightarrow> OpReturned r
                | None \<Rightarrow> OpTaskError \<lparr>reason = ''InvalidResponse'', message = ''execution completed without a result'', retryable = False\<rparr>)
             else OpTaskError \<lparr>reason = (case xo_classification out of EX_DENIED \<Rightarrow> ''AuthorizationError''
                  | EX_UNKNOWN \<Rightarrow> ''ExecutionOutcomeUnknown'' | _ \<Rightarrow> ''InvalidRequest''),
                message = ''bounded execution failed: '' @ xo_diagnostic out, retryable = False\<rparr>))"

definition task_retry_env :: "'k task_services \<Rightarrow> 'd prepared_task \<Rightarrow> string \<Rightarrow> ('k task_world, core_error, string) retry_env" where
  "task_retry_env sv pt prompt = \<lparr>
     monotonic = (\<lambda>w. case ks_monotonic sv (tw_env w) of (k, t) \<Rightarrow> (w\<lparr>tw_env := k\<rparr>, t)),
     sleep = (\<lambda>w s. w\<lparr>tw_env := ks_sleep sv (tw_env w) s\<rparr>),
     operation = task_operation pt prompt\<rparr>"

definition utc_now :: "'k task_services \<Rightarrow> 'k task_world \<Rightarrow> 'k task_world \<times> string" where
  "utc_now sv w = (case ks_utc_now sv (tw_env w) of (k, t) \<Rightarrow> (w\<lparr>tw_env := k\<rparr>, t))"

definition patch_task_status ::
  "'k task_services \<Rightarrow> 'k task_world \<Rightarrow> (string, json) dict \<Rightarrow> 'k task_world \<times> (handler_error, unit) result" where
  "patch_task_status sv w st = (case ks_patch_status sv (tw_env w) st of (k, r) \<Rightarrow> (w\<lparr>tw_env := k\<rparr>, r))"

type_synonym task_patch = "(string, json) dict"

definition failed_patch :: "string \<Rightarrow> string \<Rightarrow> string \<Rightarrow> bool \<Rightarrow> json \<Rightarrow> task_patch" where
  "failed_patch phase why text again attempts = [(''phase'', JStr phase), (''result'', JNull), (''reason'', JStr why), (''message'', JStr text),
     (''retryable'', JBool again), (''attempts'', attempts)]"

definition started_status :: "string \<Rightarrow> task_patch" where
  "started_status started = [(''phase'', JStr ''Running''), (''startedAt'', JStr started), (''completedAt'', JNull), (''attempts'', JInt 0),
     (''result'', JNull), (''reason'', JNull), (''message'', JNull), (''retryable'', JNull)]"

definition run_task ::
  "'k task_services \<Rightarrow> 'd prepared_task \<Rightarrow> string \<Rightarrow> int \<Rightarrow> string \<Rightarrow> 'k task_world \<Rightarrow> 'k task_world \<times> task_patch \<times> (handler_error, unit) result" where
  "run_task sv pt prompt timeout started w =
     (case execute_with_retry (task_retry_env sv pt prompt) (of_int timeout) DEFAULT_MAX_ATTEMPTS DEFAULT_INITIAL_BACKOFF_SECONDS w of
        (w1, Inr (out, attempts)) \<Rightarrow> (case utc_now sv w1 of (w2, t) \<Rightarrow>
          (w2, [(''startedAt'', JStr started), (''phase'', JStr ''Succeeded''), (''result'', JStr out), (''reason'', JNull), (''message'', JNull),
             (''retryable'', JNull), (''attempts'', JInt attempts), (''completedAt'', JStr t)], Inr ()))
      | (w1, Inl (RetryExhausted err attempts)) \<Rightarrow> (case utc_now sv w1 of (w2, t) \<Rightarrow>
          (w2, [(''startedAt'', JStr started)] @ failed_patch (if reason err = ''ExecutionTimeout'' then ''TimedOut'' else ''Failed'') (reason err)
             (message err) (retryable err) (JInt attempts) @ [(''completedAt'', JStr t)], Inr ()))
      | (w1, Inl (OtherFailure e)) \<Rightarrow> (w1, [(''startedAt'', JStr started)], Inl (Raised (fst e) (snd e)))
      | (w1, Inl ValueFailure) \<Rightarrow> (w1, [(''startedAt'', JStr started)], Inl (Raised ''ValueError'' ''timeout_seconds must be greater than 0''))
      | (w1, Inl RuntimeFailure) \<Rightarrow> (w1, [(''startedAt'', JStr started)], Inl (Raised ''RuntimeError'' ''retry loop exited unexpectedly'')))"

text \<open>The specification that the schema admits: the prompt, the timeout and the Agent reference.\<close>

definition task_prompt :: "json \<Rightarrow> (handler_error, string) result" where
  "task_prompt sp = (case jget sp ''input'' of None \<Rightarrow> Inl (Raised ''KeyError'' ''input'')
     | Some i \<Rightarrow> (case jget i ''prompt'' of Some (JStr p) \<Rightarrow> Inr p | _ \<Rightarrow> Inl (Raised ''KeyError'' ''prompt'')))"

definition task_timeout :: "json \<Rightarrow> int" where
  "task_timeout sp = (case jget sp ''timeoutSeconds'' of Some (JInt n) \<Rightarrow> n | _ \<Rightarrow> 300)"

definition natively_managed :: "json \<Rightarrow> bool" where
  "natively_managed meta = (jget (jget_or meta ''labels'' (JObj [])) ''agentos.io/native-dispatch-managed'' = Some (JStr ''true''))"

definition create_task ::
  "'d task_platform \<Rightarrow> 'k task_services \<Rightarrow> json \<Rightarrow> string \<Rightarrow> json \<Rightarrow> json \<Rightarrow> 'k task_world
   \<Rightarrow> 'k task_world \<times> task_patch \<times> (handler_error, unit) result" where
  "create_task tp sv sp ns meta status w =
     (if natively_managed meta then (w, [], Inr ())
      else case task_prompt sp of Inl e \<Rightarrow> (w, [], Inl e)
      | Inr prompt \<Rightarrow>
        if jfield status ''phase'' \<in> {JStr ''Succeeded'', JStr ''Failed'', JStr ''TimedOut''} then (w, [], Inr ())
        else if jfield status ''phase'' = JStr ''Running'' then
          (case utc_now sv w of (w1, t) \<Rightarrow>
            (w1, failed_patch ''Failed'' ''ExecutionStateUnknown'' (''Task handler replayed after execution started; Runtime outcome is '' @
               ''unknown and duplicate invocation was prevented'') False (jget_or status ''attempts'' (JInt 0)) @
             [(''startedAt'', jfield status ''startedAt''), (''completedAt'', JStr t)], Inr ()))
        else if \<not> is_obj (jget_or sp ''agentRef'' (JObj [])) then (w, [], Inl (Raised ''AttributeError'' ''get''))
        else let agent = jfield (jget_or sp ''agentRef'' (JObj [])) ''name'' in
          (case load_agent_definition sv (tw_env w) agent of
             (k, Inl e) \<Rightarrow> (w\<lparr>tw_env := k\<rparr>, [], Inl e)
           | (k, Inr candidates) \<Rightarrow>
               (case prepare_task tp sp meta ns prompt agent candidates of
                  Inl (cls, text) \<Rightarrow>
                    if cls \<in> set VALUE_ERRORS then
                      (case utc_now sv (w\<lparr>tw_env := k\<rparr>) of (w1, t) \<Rightarrow>
                        (w1, failed_patch ''Failed'' (failure_reason cls) text False (JInt 0) @
                          [(''startedAt'', JNull), (''completedAt'', JStr t)], Inr ()))
                    else (w\<lparr>tw_env := k\<rparr>, [], Inl (Raised cls text))
                | Inr pt \<Rightarrow>
                    (case utc_now sv (w\<lparr>tw_env := k\<rparr>) of (w1, started) \<Rightarrow>
                      (case patch_task_status sv w1 (started_status started) of
                         (w2, Inl e) \<Rightarrow> (w2, [], Inl e)
                       | (w2, Inr _) \<Rightarrow> run_task sv pt prompt (task_timeout sp) started w2)))))"

subsection \<open>The operation runs at most once for a handler call\<close>

lemma retry_once:
  assumes final: "\<And>w b w' e. operation env w b = (w', OpTaskError e) \<Longrightarrow> \<not> retryable e"
    and quiet: "\<And>w w' t. monotonic env w = (w', t) \<Longrightarrow> f w' = f w"
    and run: "execute_with_retry env timeout mx ini w = (w', res)"
  shows "(f w' = f w \<and> \<not> is_ok res) \<or> (\<exists>w1 b out. f w1 = f w \<and> operation env w1 b = (w', out) \<and>
    (is_ok res \<longrightarrow> (\<exists>r. out = OpReturned r)))"
proof (cases "mx < 1 \<or> timeout \<le> 0")
  case True
  then show ?thesis using run by (auto simp: execute_with_retry_def split: if_splits)
next
  case False
  then obtain n where n: "nat mx = Suc n" by (cases "nat mx") auto
  obtain w0 t0 where 0: "monotonic env w = (w0, t0)" by (metis surj_pair)
  obtain w1 t1 where 1: "monotonic env w0 = (w1, t1)" by (metis surj_pair)
  have f: "f w1 = f w" using quiet [OF 0] quiet [OF 1] by simp
  have loop: "retry_loop env (t0 + timeout) mx ini (Suc n) 1 w0 = (w', res)" using run False n 0 by (simp add: execute_with_retry_def)
  show ?thesis
  proof (cases "t0 + timeout - t1 \<le> 0")
    case True
    then show ?thesis using loop 1 f by auto
  next
    case pos: False
    obtain w2 out where o: "operation env w1 (t0 + timeout - t1) = (w2, out)" by (metis surj_pair)
    have "w' = w2 \<and> (is_ok res \<longrightarrow> (\<exists>r. out = OpReturned r))"
      using loop 1 pos o final by (cases out) auto
    then show ?thesis using f o by blast
  qed
qed

lemma task_operation_final: "task_operation pt prompt w b = (w', OpTaskError e) \<Longrightarrow> \<not> retryable e"
  by (auto simp: task_operation_def split: prod.splits sum.splits if_splits option.splits)

lemma task_operation_executes:
  "task_operation pt prompt w b = (w', out) \<Longrightarrow> tw_env w' = tw_env w \<and> length (tw_executed w') = Suc (length (tw_executed w))"
  by (auto simp: task_operation_def split: prod.splits)

definition patch_phase :: "task_patch \<Rightarrow> json option" where
  "patch_phase p = map_of p ''phase''"

lemma run_task_effects:
  assumes "run_task sv pt prompt timeout started w = (w', patch, res)"
  shows "length (tw_executed w') \<le> Suc (length (tw_executed w)) \<and>
    (patch_phase patch = None \<or> patch_phase patch \<in> {Some (JStr ''Succeeded''), Some (JStr ''Failed''), Some (JStr ''TimedOut'')}) \<and>
    (patch_phase patch = Some (JStr ''Succeeded'') \<longrightarrow> length (tw_executed w') = Suc (length (tw_executed w)))"
proof -
  let ?env = "task_retry_env sv pt prompt" and ?n = "\<lambda>w. length (tw_executed w)"
  obtain w1 r where r: "execute_with_retry ?env (of_int timeout) DEFAULT_MAX_ATTEMPTS DEFAULT_INITIAL_BACKOFF_SECONDS w = (w1, r)" by (metis surj_pair)
  have "(?n w1 = ?n w \<and> \<not> is_ok r) \<or> (\<exists>u b out. ?n u = ?n w \<and> operation ?env u b = (w1, out) \<and> (is_ok r \<longrightarrow> (\<exists>x. out = OpReturned x)))"
    by (rule retry_once [OF _ _ r]) (auto simp: task_retry_env_def task_operation_final split: prod.splits)
  then have w1: "?n w1 \<le> Suc (?n w)" "is_ok r \<longrightarrow> ?n w1 = Suc (?n w)"
    by (auto simp: task_retry_env_def dest: task_operation_executes)
  have "?n w' = ?n w1 \<and> (patch_phase patch = None \<or> patch_phase patch \<in> {Some (JStr ''Succeeded''), Some (JStr ''Failed''), Some (JStr ''TimedOut'')}) \<and>
      (patch_phase patch = Some (JStr ''Succeeded'') \<longrightarrow> is_ok r)"
    using assms r by (auto simp: run_task_def utc_now_def patch_phase_def failed_patch_def
      split: sum.splits prod.splits retry_error.splits if_splits)
  then show ?thesis using w1 by auto
qed

lemma run_task_executes:
  assumes clock: "\<And>k. \<exists>k'. ks_monotonic sv k = (k', 0)" and run: "run_task sv pt prompt 300 started w = (w', patch, res)"
  shows "length (tw_executed w') = Suc (length (tw_executed w))"
proof -
  let ?env = "task_retry_env sv pt prompt" and ?n = "\<lambda>w. length (tw_executed w)"
  have m: "\<exists>u'. monotonic ?env u = (u', 0) \<and> ?n u' = ?n u" for u
    using clock [of "tw_env u"] by (auto simp: task_retry_env_def)
  then obtain w0 w1 where 1: "monotonic ?env w = (w0, 0)" "monotonic ?env w0 = (w1, 0)" "?n w1 = ?n w" by metis
  obtain w2 out where o: "task_operation pt prompt w1 300 = (w2, out)" by (metis surj_pair)
  then have "operation ?env w1 300 = (w2, out)" by (simp add: task_retry_env_def)
  moreover obtain m where "nat DEFAULT_MAX_ATTEMPTS = Suc m" "\<not> DEFAULT_MAX_ATTEMPTS < 1"
    by (cases "nat DEFAULT_MAX_ATTEMPTS") (simp_all add: DEFAULT_MAX_ATTEMPTS_def)
  ultimately have "\<exists>r. execute_with_retry ?env (of_int 300) DEFAULT_MAX_ATTEMPTS DEFAULT_INITIAL_BACKOFF_SECONDS w = (w2, r)"
    using 1 o task_operation_final [of pt prompt w1 300 w2]
    by (cases out) (simp_all add: execute_with_retry_def)
  then have "?n w' = ?n w2" using run by (auto simp: run_task_def utc_now_def split: sum.splits prod.splits retry_error.splits)
  then show ?thesis using task_operation_executes [OF o] 1 by simp
qed

subsection \<open>Replays of the handler\<close>

text \<open>
  A merge patch of the status: a null removes a field. The status subresource is kept beside the environment: an
  accepted patch is merged, and a patch whose call raised is merged or not, as the oracle \<open>applied\<close> says.
\<close>

definition merge_status :: "task_patch \<Rightarrow> task_patch \<Rightarrow> task_patch" where
  "merge_status st p = foldl (\<lambda>d (k, v). if v = JNull then AList.delete k d else AList.update k v d) st p"

definition tracked :: "'k task_services \<Rightarrow> ('k \<Rightarrow> bool) \<Rightarrow> ('k \<times> task_patch) task_services" where
  "tracked sv applied = \<lparr>
     ks_get_agent = (\<lambda>(k, st) a. case ks_get_agent sv k a of (k', r) \<Rightarrow> ((k', st), r)),
     ks_patch_status = (\<lambda>(k, st) p. case ks_patch_status sv k p of
        (k', Inr x) \<Rightarrow> ((k', merge_status st p), Inr x)
      | (k', Inl e) \<Rightarrow> ((k', if applied k then merge_status st p else st), Inl e)),
     ks_utc_now = (\<lambda>(k, st). case ks_utc_now sv k of (k', t) \<Rightarrow> ((k', st), t)),
     ks_monotonic = (\<lambda>(k, st). case ks_monotonic sv k of (k', t) \<Rightarrow> ((k', st), t)),
     ks_sleep = (\<lambda>(k, st) s. (ks_sleep sv k s, st))\<rparr>"

abbreviation task_status :: "('k \<times> task_patch) task_world \<Rightarrow> task_patch" where
  "task_status w \<equiv> snd (tw_env w)"

definition with_status :: "('k \<times> task_patch) task_world \<Rightarrow> task_patch \<Rightarrow> ('k \<times> task_patch) task_world" where
  "with_status w st = w\<lparr>tw_env := (fst (tw_env w), st)\<rparr>"

text \<open>
  The calls of the handler for one Task, each with the status the Task has then. A call completes and its patch is
  merged; or the call ends without its patch, because it raised or the process died after the work; or
  the process dies before the execution, with or without the \<open>Running\<close> status persisted. Between the calls the environment
  changes as it likes.
\<close>

inductive task_calls ::
  "'d task_platform \<Rightarrow> json \<Rightarrow> string \<Rightarrow> json \<Rightarrow> ('k \<times> task_patch) task_world \<Rightarrow> bool" for tp sp ns meta where
  created: "task_calls tp sp ns meta \<lparr>tw_env = (k, []), tw_default = dw, tw_executed = []\<rparr>"
| completed: "task_calls tp sp ns meta w \<Longrightarrow>
    create_task tp (tracked sv applied) sp ns meta (JObj (task_status w)) w = (w', patch, res) \<Longrightarrow>
    task_calls tp sp ns meta (with_status w' (merge_status (task_status w') patch))"
| unpatched: "task_calls tp sp ns meta w \<Longrightarrow>
    create_task tp (tracked sv applied) sp ns meta (JObj (task_status w)) w = (w', patch, res) \<Longrightarrow> task_calls tp sp ns meta w'"
| died: "task_calls tp sp ns meta w \<Longrightarrow>
    create_task tp (tracked sv applied) sp ns meta (JObj (task_status w)) w = (w', patch, res) \<Longrightarrow>
    st \<in> {task_status w, task_status w'} \<Longrightarrow> task_calls tp sp ns meta (with_status w st)"
| environment: "task_calls tp sp ns meta w \<Longrightarrow> task_calls tp sp ns meta (w\<lparr>tw_env := (k, task_status w)\<rparr>)"

definition started_phase :: "task_patch \<Rightarrow> bool" where
  "started_phase st = (map_of st ''phase'' \<in> {Some (JStr ''Running''), Some (JStr ''Succeeded''), Some (JStr ''Failed''), Some (JStr ''TimedOut'')})"

definition task_run_ok :: "task_patch \<Rightarrow> nat \<Rightarrow> bool" where
  "task_run_ok st n = (n \<le> 1 \<and> (n = 1 \<longrightarrow> started_phase st) \<and> (map_of st ''phase'' = Some (JStr ''Succeeded'') \<longrightarrow> n = 1))"

lemma merge_status_phase:
  "distinct (map fst p) \<Longrightarrow> map_of p ''phase'' \<noteq> Some JNull \<Longrightarrow>
   map_of (merge_status st p) ''phase'' = (case map_of p ''phase'' of None \<Rightarrow> map_of st ''phase'' | Some v \<Rightarrow> Some v)"
  unfolding merge_status_def
proof (induction p arbitrary: st)
  case (Cons x p)
  obtain k v where x: "x = (k, v)" by (cases x)
  show ?case
  proof (cases "k = ''phase''")
    case True
    then have "map_of p ''phase'' = None" using Cons.prems x by (simp add: map_of_eq_None_iff)
    then show ?thesis using Cons.IH [of "AList.update ''phase'' v st"] Cons.prems x True by simp
  next
    case False
    then have "map_of (if v = JNull then AList.delete k st else AList.update k v st) ''phase'' = map_of st ''phase''"
      by (simp add: delete_conv')
    then show ?thesis using Cons.IH [of "if v = JNull then AList.delete k st else AList.update k v st"] Cons.prems x False
      by (cases "map_of p ''phase''") (simp_all del: map_of_dict_update split del: if_split)
  qed
qed simp

lemma tracked_silent [simp]:
  "utc_now (tracked sv applied) w = (w', t) \<Longrightarrow> task_status w' = task_status w \<and> tw_executed w' = tw_executed w"
  "load_agent_definition (tracked sv applied) (tw_env w) a = (k, r) \<Longrightarrow> snd k = task_status w"
  by (auto simp: utc_now_def tracked_def load_agent_definition_def split: prod.splits agent_reply.splits if_splits)

lemma tracked_patch:
  assumes "patch_task_status (tracked sv applied) w (started_status t) = (w', r)"
  shows "tw_executed w' = tw_executed w \<and> (is_ok r \<longrightarrow> map_of (task_status w') ''phase'' = Some (JStr ''Running'')) \<and>
    map_of (task_status w') ''phase'' \<in> {map_of (task_status w) ''phase'', Some (JStr ''Running'')}"
proof -
  have "map_of (merge_status st (started_status t)) ''phase'' = Some (JStr ''Running'')" for st
    by (subst merge_status_phase) (simp_all add: started_status_def)
  then show ?thesis using assms by (auto simp: patch_task_status_def tracked_def split: prod.splits sum.splits if_splits)
qed

lemma tracked_operation:
  "execute_with_retry (task_retry_env (tracked sv applied) pt prompt) timeout mx ini w = (w', r) \<Longrightarrow> task_status w' = task_status w"
proof -
  let ?env = "task_retry_env (tracked sv applied) pt prompt"
  assume r: "execute_with_retry ?env timeout mx ini w = (w', r)"
  have op: "operation ?env u b = (u', out) \<Longrightarrow> task_status u' = task_status u" for u b u' out
    using task_operation_executes [of pt prompt u b u' out] by (simp add: task_retry_env_def)
  have "(task_status w' = task_status w \<and> \<not> is_ok r) \<or> (\<exists>u b out. task_status u = task_status w \<and> operation ?env u b = (w', out) \<and>
      (is_ok r \<longrightarrow> (\<exists>x. out = OpReturned x)))"
    by (rule retry_once [OF _ _ r]) (auto simp: task_retry_env_def task_operation_final tracked_def split: prod.splits)
  then show ?thesis using op by metis
qed

lemma run_task_status:
  assumes "run_task (tracked sv applied) pt prompt timeout started w = (w', patch, res)"
  shows "task_status w' = task_status w \<and> distinct (map fst patch)"
  using assms tracked_operation tracked_silent(1)
  by (fastforce simp: run_task_def failed_patch_def split: sum.splits prod.splits retry_error.splits)

text \<open>What one call does to the status and to the executions.\<close>

lemma create_task_effects:
  fixes tp :: "'d task_platform"
  assumes "create_task tp (tracked sv applied) sp ns meta (JObj (task_status w)) w = (w', patch, res)"
  obtains (quiet) "task_status w' = task_status w" "tw_executed w' = tw_executed w" "distinct (map fst patch)" "patch_phase patch \<in> {None, Some (JStr ''Failed'')}"
      "patch_phase patch = None \<or> map_of (task_status w) ''phase'' \<noteq> Some (JStr ''Succeeded'')"
  | (marked) "\<not> started_phase (task_status w)" "tw_executed w' = tw_executed w" "patch = []"
      "map_of (task_status w') ''phase'' \<in> {map_of (task_status w) ''phase'', Some (JStr ''Running'')}"
  | (ran) "\<not> started_phase (task_status w)" "map_of (task_status w') ''phase'' = Some (JStr ''Running'')"
      "length (tw_executed w') \<le> Suc (length (tw_executed w))" "distinct (map fst patch)"
      "patch_phase patch \<in> {None, Some (JStr ''Succeeded''), Some (JStr ''Failed''), Some (JStr ''TimedOut'')}"
      "patch_phase patch = Some (JStr ''Succeeded'') \<longrightarrow> length (tw_executed w') = Suc (length (tw_executed w))"
proof -
  let ?st = "task_status w" and ?sv = "tracked sv applied"
  let ?a = "jfield (jget_or sp ''agentRef'' (JObj [])) ''name''"
  have phase: "jfield (JObj ?st) ''phase'' = (case map_of ?st ''phase'' of None \<Rightarrow> JNull | Some v \<Rightarrow> v)" by (simp add: jfield_def)
  consider (idle) "natively_managed meta \<or> (\<exists>e. task_prompt sp = Inl e) \<or> jfield (JObj ?st) ''phase'' \<in> {JStr ''Succeeded'', JStr ''Failed'', JStr ''TimedOut''}"
    | (replay) "\<not> natively_managed meta" "is_ok (task_prompt sp)" "jfield (JObj ?st) ''phase'' = JStr ''Running''"
    | (fresh) p where "\<not> natively_managed meta" "task_prompt sp = Inr p" "\<not> started_phase ?st"
    by (cases "task_prompt sp"; cases "map_of ?st ''phase''") (auto simp: phase started_phase_def)
  then show ?thesis
  proof cases
    case idle
    then have "w' = w \<and> patch = []" using assms by (cases "natively_managed meta"; cases "task_prompt sp") (auto simp: create_task_def)
    then show ?thesis using quiet by (simp add: patch_phase_def)
  next
    case replay
    then show ?thesis using assms quiet tracked_silent(1) [of sv applied w] phase
      by (fastforce simp: create_task_def failed_patch_def patch_phase_def is_ok_iff split: prod.splits option.splits)
  next
    case fresh
    have ph: "jfield (JObj ?st) ''phase'' \<notin> {JStr ''Succeeded'', JStr ''Failed'', JStr ''TimedOut'', JStr ''Running''}"
      "map_of ?st ''phase'' \<noteq> Some (JStr ''Succeeded'')"
      using fresh(3) by (auto simp: phase started_phase_def split: option.splits)
    obtain k cs where k: "load_agent_definition ?sv (tw_env w) ?a = (k, cs)" by (metis surj_pair)
    let ?w = "w\<lparr>tw_env := k\<rparr>"
    have w: "task_status ?w = ?st" "tw_executed ?w = tw_executed w" using tracked_silent(2) [OF k] by simp_all
    obtain w1 t where t: "utc_now ?sv ?w = (w1, t)" by (metis surj_pair)
    have w1: "task_status w1 = ?st" "tw_executed w1 = tw_executed w" using tracked_silent(1) [OF t] w by simp_all
    obtain w2 r where r: "patch_task_status ?sv w1 (started_status t) = (w2, r)" by (metis surj_pair)
    note r' = tracked_patch [OF r] 
    consider (early) "w' \<in> {w, ?w}" "patch = []" | (invalid) "w' = w1" "distinct (map fst patch)" "patch_phase patch = Some (JStr ''Failed'')"
      | (refused) "w' = w2" "patch = []" | (running) "is_ok r \<and> (\<exists>pt :: 'd prepared_task. run_task ?sv pt p (task_timeout sp) t w2 = (w', patch, res))"
      using assms fresh ph(1) k t r
      by (auto simp: create_task_def Let_def failed_patch_def patch_phase_def is_ok_iff split: sum.splits if_splits)
    then show ?thesis
    proof cases
      case early
      then show ?thesis using quiet w by (auto simp: patch_phase_def)
    next
      case invalid
      then show ?thesis using quiet w1 ph by simp
    next
      case refused
      then show ?thesis using marked fresh(3) r' w1 by simp
    next
      case running
      then obtain pt :: "'d prepared_task" where pt: "is_ok r" "run_task ?sv pt p (task_timeout sp) t w2 = (w', patch, res)" by blast
      then show ?thesis using ran fresh(3) r' w1 run_task_effects [OF pt(2)] run_task_status [OF pt(2)] by auto
    qed
  qed
qed

lemma merge_status_patch:
  "distinct (map fst p) \<Longrightarrow> patch_phase p \<noteq> Some JNull \<Longrightarrow>
   map_of (merge_status st p) ''phase'' = (case patch_phase p of None \<Rightarrow> map_of st ''phase'' | Some v \<Rightarrow> Some v)"
  unfolding patch_phase_def by (rule merge_status_phase)

lemma with_status_simps [simp]:
  "task_status (with_status w st) = st" "tw_executed (with_status w st) = tw_executed w"
  by (simp_all add: with_status_def)

lemma task_run_ok_phase:
  "map_of st' ''phase'' = map_of st ''phase'' \<Longrightarrow> task_run_ok st' n = task_run_ok st n"
  by (simp add: task_run_ok_def started_phase_def)

lemma unstarted_phase: "\<not> started_phase st \<Longrightarrow> task_run_ok st n \<Longrightarrow> n = 0 \<and> map_of st ''phase'' \<noteq> Some (JStr ''Succeeded'')"
  by (auto simp: task_run_ok_def started_phase_def)

lemma create_task_keeps:
  assumes call: "create_task tp (tracked sv applied) sp ns meta (JObj (task_status w)) w = (w', patch, res)"
    and ok: "task_run_ok (task_status w) (length (tw_executed w))"
  shows "task_run_ok (merge_status (task_status w') patch) (length (tw_executed w')) \<and>
    task_run_ok (task_status w') (length (tw_executed w')) \<and> task_run_ok (task_status w') (length (tw_executed w))"
  using call
proof (cases rule: create_task_effects)
  case quiet
  have m: "map_of (merge_status (task_status w) patch) ''phase'' = (case patch_phase patch of None \<Rightarrow> map_of (task_status w) ''phase'' | Some v \<Rightarrow> Some v)"
    using quiet(4) by (intro merge_status_patch quiet(3)) auto
  have "task_run_ok (merge_status (task_status w') patch) (length (tw_executed w'))"
    using quiet(1,2,4,5) m ok by (auto simp: task_run_ok_def started_phase_def)
  then show ?thesis using quiet(1,2) ok by simp
next
  case marked
  then have "task_run_ok (task_status w') (length (tw_executed w))"
    using unstarted_phase [OF marked(1) ok] by (auto simp: task_run_ok_def)
  then show ?thesis using marked by (simp add: merge_status_def)
next
  case ran
  have m: "map_of (merge_status (task_status w') patch) ''phase'' = (case patch_phase patch of None \<Rightarrow> Some (JStr ''Running'') | Some v \<Rightarrow> Some v)"
    using ran(5) by (subst merge_status_patch [OF ran(4)]) (auto simp: ran(2))
  have "task_run_ok (merge_status (task_status w') patch) (length (tw_executed w'))"
    using ran(3,5,6) m unstarted_phase [OF ran(1) ok] by (auto simp: task_run_ok_def started_phase_def)
  moreover have "task_run_ok (task_status w') (length (tw_executed w'))" "task_run_ok (task_status w') (length (tw_executed w))"
    using ran(2,3) unstarted_phase [OF ran(1) ok] by (auto simp: task_run_ok_def started_phase_def)
  ultimately show ?thesis by blast
qed

lemma task_calls_run_ok: "task_calls tp sp ns meta w \<Longrightarrow> task_run_ok (task_status w) (length (tw_executed w))"
proof (induction rule: task_calls.induct)
  case (died w sv applied w' patch res st)
  then show ?case using create_task_keeps [OF died.hyps(2) died.IH] by auto
qed (auto simp: task_run_ok_def started_phase_def dest: create_task_keeps)

text \<open>
  C4: The handler is called for one Task any number of times, each call with the status the Task has then, and calls
  may raise, lose their patch or die before or after they persisted the phase \<open>Running\<close>. The execution is started at most once,
  and a Task whose phase is \<open>Succeeded\<close> was executed exactly once.
\<close>

theorem task_executed_at_most_once:
  assumes "task_calls tp sp ns meta w"
  shows "length (tw_executed w) \<le> 1 \<and> (map_of (task_status w) ''phase'' = Some (JStr ''Succeeded'') \<longrightarrow> length (tw_executed w) = 1)"
  using task_calls_run_ok [OF assms] by (simp add: task_run_ok_def)

subsection \<open>A call that returns settles the Task\<close>

definition settled_phase :: "json option \<Rightarrow> bool" where
  "settled_phase v = (v \<in> {Some (JStr ''Succeeded''), Some (JStr ''Failed''), Some (JStr ''TimedOut'')})"

lemma run_task_returns_terminal: "run_task sv pt prompt timeout started w = (w', patch, Inr ()) \<Longrightarrow> settled_phase (patch_phase patch)"
  by (auto simp: run_task_def utc_now_def settled_phase_def patch_phase_def failed_patch_def split: sum.splits prod.splits retry_error.splits if_splits)

lemma create_task_returns_terminal:
  assumes call: "create_task tp sv sp ns meta (JObj st) w = (w', patch, Inr ())" and "\<not> natively_managed meta"
  shows "settled_phase (patch_phase patch) \<or> (patch = [] \<and> w' = w \<and> settled_phase (map_of st ''phase''))"
proof (cases "jfield (JObj st) ''phase'' \<in> {JStr ''Succeeded'', JStr ''Failed'', JStr ''TimedOut''}")
  case True
  then show ?thesis using assms
    by (auto simp: create_task_def settled_phase_def jfield_def split: sum.splits option.splits)
next
  case False
  have failed: "settled_phase (patch_phase (failed_patch ''Failed'' why m again n @ r))" for why m again n r
    by (simp add: settled_phase_def patch_phase_def failed_patch_def)
  show ?thesis using assms False
    by (auto simp: create_task_def Let_def failed split: sum.splits prod.splits if_splits dest: run_task_returns_terminal)
qed

lemma natively_managed_iff:
  "natively_managed meta \<longleftrightarrow> (\<exists>ls. jget meta ''labels'' = Some ls \<and> jget ls ''agentos.io/native-dispatch-managed'' = Some (JStr ''true''))"
  by (cases "jget meta ''labels''") (simp_all add: natively_managed_def jget_or_def jget_def)

text \<open>
  C34: what a handler call that returns leaves behind. A Task whose label gives it to the native dispatch is left alone: the call sees and changes nothing and
  patches nothing. Every other Task is settled: the status after the patch of the call has been merged is in a terminal phase, \<open>Succeeded\<close>, \<open>Failed\<close>
  or \<open>TimedOut\<close>, so no call that returns leaves such a Task pending or running.
\<close>

theorem returned_call_settles_task:
  assumes call: "create_task tp (tracked sv applied) sp ns meta (JObj (task_status w)) w = (w', patch, Inr ())"
  shows "if \<exists>ls. jget meta ''labels'' = Some ls \<and> jget ls ''agentos.io/native-dispatch-managed'' = Some (JStr ''true'')
    then w' = w \<and> patch = []
    else map_of (merge_status (task_status w') patch) ''phase'' \<in> {Some (JStr ''Succeeded''), Some (JStr ''Failed''), Some (JStr ''TimedOut'')}"
proof (cases "natively_managed meta")
  case True
  then show ?thesis using call by (simp add: natively_managed_iff [symmetric] create_task_def)
next
  case False
  have d: "distinct (map fst patch)" using call by (cases rule: create_task_effects) auto
  from create_task_returns_terminal [OF call False]
  have "map_of (merge_status (task_status w') patch) ''phase'' \<in> {Some (JStr ''Succeeded''), Some (JStr ''Failed''), Some (JStr ''TimedOut'')}"
  proof
    assume "settled_phase (patch_phase patch)"
    then show ?thesis by (subst merge_status_patch [OF d]) (auto simp: settled_phase_def)
  qed (simp add: merge_status_def settled_phase_def)
  then show ?thesis using False by (simp add: natively_managed_iff [symmetric])
qed

subsection \<open>A Task whose handler is called twice\<close>

definition example_services :: "unit task_services" where
  "example_services = \<lparr>ks_get_agent = (\<lambda>k a. (k, ApiObject example_agent)), ks_patch_status = (\<lambda>k p. (k, Inr ())),
     ks_utc_now = (\<lambda>k. (k, ''2024-01-31T08:15:00Z'')), ks_monotonic = (\<lambda>k. (k, 0)), ks_sleep = (\<lambda>k s. k)\<rparr>"

definition example_platform :: "datetime task_platform" where
  "example_platform = \<lparr>tp_sha = (\<lambda>s. s), tp_isofmt = (\<lambda>t. []), tp_clock = (\<lambda>w. 0), tp_dateformat = isoformat, tp_dateparse = fromisoformat,
     tp_uuid5 = example_uuid, tp_database = None, tp_domain = None\<rparr>"

definition example_start :: "(unit \<times> task_patch) task_world" where
  "example_start = \<lparr>tw_env = ((), []), tw_default = example_world, tw_executed = []\<rparr>"

lemma example_prepared: "\<exists>pt. prepare_task example_platform example_task (example_meta ''x'') ''ns'' ''hi'' (JStr ''a'') [example_agent] = Inr pt"
proof -
  obtain e where e: "interpret_legacy_task isoformat fromisoformat example_uuid example_task (example_meta ''x'') ''ns'' [example_agent] = Inr e"
    using example_interpretation [of "''x''"] by auto
  have plan: "build_capability_plan [] example_agent e ''hi'' = ([], Inr None)"
    by (simp add: build_capability_plan_def example_agent_def jget_or_def)
  have conf: "build_runtime_configuration example_agent ''ns'' (json_text (JStr ''a'')) =
      Inr [(''AGENT_NAME'', ''a''), (''AGENT_NAMESPACE'', ''ns''), (''MODEL_PROVIDER'', ''mock''), (''MODEL_NAME'', ''mock-model'')]"
    by (simp add: build_runtime_configuration_def example_agent_def jget_or_def json_text_def)
  have subj: "task_evidence_subject (example_meta ''x'') ''ns'' = Inr None"
    by (simp add: task_evidence_subject_def example_meta_def jget_or_def jfield_def)
  show ?thesis
    by (simp add: prepare_task_def example_platform_def e plan conf subj alloc_strings_def task_context_init_def string_pairs_def deref_def)
qed

lemma example_call:
  "\<exists>w' patch res. create_task example_platform (tracked example_services (\<lambda>k. True)) example_task ''ns'' (example_meta ''x'') (JObj [])
     example_start = (w', patch, res) \<and> length (tw_executed w') = 1"
proof -
  let ?sv = "tracked example_services (\<lambda>k. True)"
  obtain pt where pt: "prepare_task example_platform example_task (example_meta ''x'') ''ns'' ''hi'' (JStr ''a'') [example_agent] = Inr pt"
    using example_prepared by blast
  obtain w2 where w2: "patch_task_status ?sv example_start (started_status ''2024-01-31T08:15:00Z'') = (w2, Inr ())" "tw_executed w2 = []"
    by (simp add: patch_task_status_def tracked_def example_services_def example_start_def)
  obtain w' patch res where r: "run_task ?sv pt ''hi'' 300 ''2024-01-31T08:15:00Z'' w2 = (w', patch, res)" by (metis prod_cases3)
  have "create_task example_platform ?sv example_task ''ns'' (example_meta ''x'') (JObj []) example_start = (w', patch, res)"
    using pt w2 r
    by (simp add: create_task_def natively_managed_def example_meta_def task_prompt_def example_task_def jget_or_def jfield_def load_agent_definition_def
      tracked_def example_services_def example_start_def utc_now_def task_timeout_def example_agent_def)
  moreover have "length (tw_executed w') = 1" using run_task_executes [OF _ r] w2(2)
    by (simp add: tracked_def example_services_def split: prod.splits)
  ultimately show ?thesis by blast
qed

theorem task_executed_at_most_once_witness:
  "\<exists>w. task_calls example_platform example_task ''ns'' (example_meta ''x'') w \<and> task_status w \<noteq> [] \<and> length (tw_executed w) = 1 \<and>
     length (tw_executed (fst (create_task example_platform (tracked example_services (\<lambda>k. True)) example_task ''ns'' (example_meta ''x'')
       (JObj (task_status w)) w))) \<le> 1"
proof -
  let ?sv = "tracked example_services (\<lambda>k. True)" and ?calls = "task_calls example_platform example_task ''ns'' (example_meta ''x'')"
  obtain w patch res where w: "create_task example_platform ?sv example_task ''ns'' (example_meta ''x'') (JObj []) example_start = (w, patch, res)"
    "length (tw_executed w) = 1" using example_call by blast
  have start: "?calls example_start" unfolding example_start_def by (rule created)
  have one: "?calls w" using w(1) by (intro unpatched [OF start, where patch = patch and res = res]) (simp add: example_start_def)
  obtain w' patch' res' where w': "create_task example_platform ?sv example_task ''ns'' (example_meta ''x'') (JObj (task_status w)) w = (w', patch', res')"
    by (metis prod_cases3)
  have two: "?calls w'" by (rule unpatched [OF one w'])
  have "task_status w \<noteq> []" using task_calls_run_ok [OF one] w(2) by (auto simp: task_run_ok_def started_phase_def)
  then show ?thesis using one w(2) w' task_executed_at_most_once [OF two] by auto
qed

theorem returned_call_settles_task_witness:
  "\<exists>w' patch. create_task example_platform (tracked (example_services\<lparr>ks_get_agent := \<lambda>k a. (k, ApiError 404 ''Not Found'')\<rparr>) (\<lambda>k. True))
     example_task ''ns'' (example_meta ''x'') (JObj []) example_start = (w', patch, Inr ()) \<and>
     map_of patch ''reason'' = Some (JStr ''AgentDefinitionNotFound'') \<and>
     map_of (merge_status (task_status w') patch) ''phase'' \<in> {Some (JStr ''Succeeded''), Some (JStr ''Failed''), Some (JStr ''TimedOut'')}"
proof -
  let ?sv = "tracked (example_services\<lparr>ks_get_agent := \<lambda>k a. (k, ApiError 404 ''Not Found'')\<rparr>) (\<lambda>k. True)"
  have trim: "trimmed ''ns''" "trimmed ''a''" "trimmed ''x''" "trimmed ''t''" by (rule trimmed_plain; simp add: py_space_def)+
  have req: "trimmed s \<Longrightarrow> required_string (JStr s) f = Inr s" for s f by simp
  have "\<exists>m. interpret_legacy_task isoformat fromisoformat example_uuid example_task (example_meta ''x'') ''ns'' [] = Inl (''MissingDefinitionError'', m)"
    using trim by (simp add: req interpret_legacy_task_def example_task_def example_meta_def jfield_def object_keys_def CONFLICTING_FIELDS_def mapping_value_def)
  then obtain m where m: "prepare_task example_platform example_task (example_meta ''x'') ''ns'' ''hi'' (JStr ''a'') [] = Inl (''MissingDefinitionError'', m)"
    by (auto simp: prepare_task_def example_platform_def)
  let ?patch = "failed_patch ''Failed'' ''AgentDefinitionNotFound'' m False (JInt 0) @ [(''startedAt'', JNull), (''completedAt'', JStr ''2024-01-31T08:15:00Z'')]"
  have c: "create_task example_platform ?sv example_task ''ns'' (example_meta ''x'') (JObj (task_status example_start)) example_start = (example_start, ?patch, Inr ())"
    using m by (simp add: create_task_def natively_managed_def example_meta_def task_prompt_def example_task_def jget_or_def jfield_def
      load_agent_definition_def tracked_def example_services_def example_start_def utc_now_def VALUE_ERRORS_def failure_reason_def)
  have "\<not> (\<exists>ls. jget (example_meta ''x'') ''labels'' = Some ls \<and> jget ls ''agentos.io/native-dispatch-managed'' = Some (JStr ''true''))"
    by (simp add: example_meta_def)
  from returned_call_settles_task [OF c, unfolded if_not_P [OF this]] c show ?thesis
    by (intro exI [of _ example_start] exI [of _ ?patch]) (simp add: example_start_def failed_patch_def)
qed

end
