(* ===== verification/Workflow_Control.thy ===== *)
theory Workflow_Control
  imports Execution_Contract Canonical_Json "HOL-Library.Product_Lexorder"
begin

text \<open>
  Workflow Control of the console backend: \<open>agent_console/workflow_control_domain.py\<close> and the repository of
  \<open>workflow_control_postgres.py\<close>. An operator requests an intervention in a run, a review and a decision follow, and
  atomic commands approve, correct, retry, cancel or complete what the intervention is about.

  The state is the tables of one scope at schema version 11: every statement of the repository is restricted to the
  namespace and security domain of the operation, so rows of other scopes are never touched. A transaction is a function
  from the tables to an error, after which it is rolled back, or to the new tables and an answer. A statement that violates a
  constraint of the migrations 0008 to 0011 fails with \<open>WORKFLOW_CONTROL_CONFLICT\<close>, as the handlers of the database
  error do. SHA-256, which always has 64 hexadecimal digits, and the ISO text of a time are parameters.
\<close>

subsection \<open>Domain values\<close>

datatype plan_status = DRAFT | PENDING_APPROVAL | APPROVED | REJECTED | CANCELLED | INVALIDATED | SUPERSEDED

datatype intervention_state = I_REQUESTED | I_AUTHORIZED | I_APPLICATION_PENDING | I_APPLIED | I_OBSERVED | I_REJECTED
  | I_EXPIRED | I_CANCELLED | I_FAILED

datatype command_type = APPROVE_AND_CONTINUE | REJECT_PLAN | CORRECT_PLAN | REQUEST_INTERVENTION | REVIEW_INTERVENTION
  | APPLY_INTERVENTION_DECISION | RETRY_ATTEMPT | CREATE_SUCCESSOR_RUN | REPLACE_RUNTIME | CANCEL_CONTROLLED_EXECUTION
  | COMPLETE_EXECUTION_WITH_OUTCOME

definition plan_status_value :: "plan_status \<Rightarrow> string" where
  "plan_status_value s = (case s of DRAFT \<Rightarrow> ''DRAFT'' | PENDING_APPROVAL \<Rightarrow> ''PENDING_APPROVAL'' | APPROVED \<Rightarrow> ''APPROVED''
     | REJECTED \<Rightarrow> ''REJECTED'' | CANCELLED \<Rightarrow> ''CANCELLED'' | INVALIDATED \<Rightarrow> ''INVALIDATED'' | SUPERSEDED \<Rightarrow> ''SUPERSEDED'')"

definition command_value :: "command_type \<Rightarrow> string" where
  "command_value c = (case c of APPROVE_AND_CONTINUE \<Rightarrow> ''APPROVE_AND_CONTINUE'' | REJECT_PLAN \<Rightarrow> ''REJECT_PLAN''
     | CORRECT_PLAN \<Rightarrow> ''CORRECT_PLAN'' | REQUEST_INTERVENTION \<Rightarrow> ''REQUEST_INTERVENTION'' | REVIEW_INTERVENTION \<Rightarrow> ''REVIEW_INTERVENTION''
     | APPLY_INTERVENTION_DECISION \<Rightarrow> ''APPLY_INTERVENTION_DECISION'' | RETRY_ATTEMPT \<Rightarrow> ''RETRY_ATTEMPT''
     | CREATE_SUCCESSOR_RUN \<Rightarrow> ''CREATE_SUCCESSOR_RUN'' | REPLACE_RUNTIME \<Rightarrow> ''REPLACE_RUNTIME''
     | CANCEL_CONTROLLED_EXECUTION \<Rightarrow> ''CANCEL_CONTROLLED_EXECUTION''
     | COMPLETE_EXECUTION_WITH_OUTCOME \<Rightarrow> ''COMPLETE_EXECUTION_WITH_OUTCOME'')"

definition COMMAND_TYPES :: "command_type list" where
  "COMMAND_TYPES = [APPROVE_AND_CONTINUE, REJECT_PLAN, CORRECT_PLAN, REQUEST_INTERVENTION, REVIEW_INTERVENTION, APPLY_INTERVENTION_DECISION,
     RETRY_ATTEMPT, CREATE_SUCCESSOR_RUN, REPLACE_RUNTIME, CANCEL_CONTROLLED_EXECUTION, COMPLETE_EXECUTION_WITH_OUTCOME]"

definition command_of :: "string \<Rightarrow> command_type option" where
  "command_of s = find (\<lambda>c. command_value c = s) COMMAND_TYPES"

record plan_record =
  pn_scope :: scope_identity
  pn_id :: string
  pn_version :: int
  pn_definition :: string
  pn_definition_revision :: string
  pn_definition_digest :: string
  pn_status :: plan_status
  pn_aggregate :: int
  pn_digest :: string
  pn_bytes :: string
  pn_created :: int
  pn_updated :: int
  pn_predecessor :: "string option"
  pn_predecessor_version :: "int option"
  pn_source_revision :: "int option"
  pn_source_digest :: "string option"
  pn_actor :: "string option"
  pn_authority :: "string option"
  pn_correction_reason :: "string option"

record approval_decision =
  ap_id :: string
  ap_plan :: string
  ap_plan_version :: int
  ap_plan_digest :: string
  ap_ordinal :: int
  ap_decision :: string
  ap_actor :: string
  ap_basis :: string
  ap_reason :: string
  ap_digest :: string
  ap_at :: int

record plan_correction =
  cn_id :: string
  cn_predecessor :: string
  cn_predecessor_version :: int
  cn_successor :: string
  cn_successor_version :: int
  cn_actor :: string
  cn_authority :: string
  cn_reason :: string
  cn_correction :: "(string, json) dict"
  cn_at :: int

record intervention_target =
  it_run :: "string option"
  it_task :: "string option"
  it_attempt :: "string option"

definition target_values :: "intervention_target \<Rightarrow> string option list" where
  "target_values t = [it_run t, it_task t, it_attempt t]"

definition intervention_target_init :: "intervention_target \<Rightarrow> (string, intervention_target) result" where
  "intervention_target_init t = (if length (filter (\<lambda>v. v \<noteq> None) (target_values t)) \<noteq> 1
     then Inl ''EXACTLY_ONE_INTERVENTION_TARGET_REQUIRED'' else Inr t)"

record intervention_request =
  iq_id :: string
  iq_action :: string
  iq_reason :: string
  iq_actor :: string
  iq_basis :: string
  iq_expected_version :: int
  iq_target :: intervention_target
  iq_fact :: "(string, json) dict"
  iq_at :: int

record intervention_transition =
  tr_id :: string
  tr_intervention :: string
  tr_ordinal :: int
  tr_from :: "intervention_state option"
  tr_to :: intervention_state
  tr_actor :: string
  tr_basis :: string
  tr_reason :: string
  tr_at :: int

record intervention_review =
  rv_id :: string
  rv_intervention :: string
  rv_actor :: string
  rv_basis :: string
  rv_at :: int

record intervention_decision =
  dn_id :: string
  dn_intervention :: string
  dn_review :: string
  dn_decision :: string
  dn_actor :: string
  dn_basis :: string
  dn_reason :: string
  dn_at :: int

definition intervention_decision_init :: "intervention_decision \<Rightarrow> (string, intervention_decision) result" where
  "intervention_decision_init d = (if dn_decision d \<notin> {''AUTHORIZE'', ''REJECT''} then Inl ''INVALID_INTERVENTION_DECISION'' else Inr d)"

text \<open>The evidence and outcome entries of an operation, with the keys that the repository requires.\<close>

record evidence_entry =
  ey_id :: string
  ey_execution :: string
  ey_workflow :: string
  ey_task :: string
  ey_attempt_ordinal :: int
  ey_event_ordinal :: int
  ey_event_type :: string
  ey_occurred_at :: int
  ey_recorded_at :: int
  ey_digest :: string
  ey_bytes :: string
  ey_record :: "(string, json) dict"

record outcome_entry =
  oy_id :: string
  oy_target :: string
  oy_state :: string
  oy_digest :: string
  oy_record :: "(string, json) dict"

record control_operation =
  op_scope :: scope_identity
  op_command :: command_type
  op_actor :: string
  op_key :: string
  op_payload :: "(string, json) dict"
  op_command_id :: string
  op_requested_at :: int
  op_retain_until :: int
  op_target :: intervention_target
  op_expected_version :: int
  op_intervention :: "string option"
  op_transition :: "string option"
  op_review :: "intervention_review option"
  op_decision :: "intervention_decision option"
  op_plan :: "string option"
  op_plan_version :: "int option"
  op_plan_digest :: "string option"
  op_approval :: "approval_decision option"
  op_successor :: "string option"
  op_placement :: "string option"
  op_runtime_command :: "string option"
  op_affected_attempt :: "string option"
  op_evidence_ids :: "string list"
  op_outcome_ids :: "string list"
  op_request :: "intervention_request option"
  op_successor_plan :: "plan_record option"
  op_correction :: "plan_correction option"
  op_evidence :: "evidence_entry list"
  op_outcomes :: "outcome_entry list"
  op_terminal_state :: "string option"

record operation_result =
  or_replayed :: bool
  or_command :: command_type
  or_command_id :: string
  or_target :: string
  or_version :: int
  or_intervention :: "string option"
  or_transition :: "string option"
  or_approval :: "string option"
  or_attempt :: "string option"
  or_run :: "string option"
  or_runtime_command :: "string option"
  or_plan :: "string option"
  or_plan_version :: "int option"
  or_evidence :: "string list"
  or_outcomes :: "string list"

subsection \<open>Digests and recorded results\<close>

text \<open>\<open>json.dumps\<close> with its default \<open>ensure_ascii=True\<close>: what is not printable ASCII is escaped.\<close>

definition ascii_escape :: "char \<Rightarrow> string" where
  "ascii_escape c = (let n = of_char c in
     if 126 < n then [CHR 0x5C, CHR ''u'', CHR ''0'', CHR ''0'', hex_digit (n div 16), hex_digit (n mod 16)] else [c])"

definition ascii_json :: "json \<Rightarrow> string" where
  "ascii_json v = concat (map ascii_escape (canonical_json v))"

definition canonical_digest :: "(string \<Rightarrow> string) \<Rightarrow> json \<Rightarrow> string" where
  "canonical_digest sha v = sha (ascii_json v)"

definition opt_str :: "string option \<Rightarrow> json" where
  "opt_str v = (case v of None \<Rightarrow> JNull | Some s \<Rightarrow> JStr s)"

definition opt_int :: "int option \<Rightarrow> json" where
  "opt_int v = (case v of None \<Rightarrow> JNull | Some n \<Rightarrow> JInt n)"

definition hex_text :: "string \<Rightarrow> string" where
  "hex_text s = concat (map (\<lambda>c. [hex_digit (of_char c div 16), hex_digit (of_char c mod 16)]) s)"

definition target_json :: "intervention_target \<Rightarrow> json" where
  "target_json t = JObj [(''workflow_run_id'', opt_str (it_run t)), (''task_run_id'', opt_str (it_task t)), (''attempt_id'', opt_str (it_attempt t))]"

definition scope_json :: "scope_identity \<Rightarrow> json" where
  "scope_json s = JObj [(''namespace'', JStr (namespace s)), (''security_domain'', JStr (security_domain s))]"

definition plan_json :: "(int \<Rightarrow> string) \<Rightarrow> plan_record \<Rightarrow> json" where
  "plan_json isofmt p = JObj [(''scope'', scope_json (pn_scope p)), (''plan_id'', JStr (pn_id p)), (''plan_version'', JInt (pn_version p)),
     (''workflow_definition_id'', JStr (pn_definition p)), (''workflow_definition_revision_id'', JStr (pn_definition_revision p)),
     (''workflow_definition_digest'', JStr (pn_definition_digest p)), (''status'', JStr (plan_status_value (pn_status p))),
     (''aggregate_version'', JInt (pn_aggregate p)), (''plan_digest'', JStr (pn_digest p)), (''canonical_bytes'', JStr (hex_text (pn_bytes p))),
     (''created_at'', JStr (isofmt (pn_created p))), (''updated_at'', JStr (isofmt (pn_updated p))),
     (''predecessor_plan_id'', opt_str (pn_predecessor p)), (''predecessor_plan_version'', opt_int (pn_predecessor_version p)),
     (''source_plan_revision'', opt_int (pn_source_revision p)), (''source_plan_digest'', opt_str (pn_source_digest p)),
     (''actor_id'', opt_str (pn_actor p)), (''authority_classification'', opt_str (pn_authority p)),
     (''correction_reason_category'', opt_str (pn_correction_reason p))]"

definition correction_json :: "(int \<Rightarrow> string) \<Rightarrow> plan_correction \<Rightarrow> json" where
  "correction_json isofmt c = JObj [(''correction_id'', JStr (cn_id c)), (''predecessor_plan_id'', JStr (cn_predecessor c)),
     (''predecessor_plan_version'', JInt (cn_predecessor_version c)), (''successor_plan_id'', JStr (cn_successor c)),
     (''successor_plan_version'', JInt (cn_successor_version c)), (''actor_id'', JStr (cn_actor c)),
     (''authority_classification'', JStr (cn_authority c)), (''reason_category'', JStr (cn_reason c)),
     (''normalized_correction'', JObj (cn_correction c)), (''corrected_at'', JStr (isofmt (cn_at c)))]"

definition payload_json :: "(int \<Rightarrow> string) \<Rightarrow> control_operation \<Rightarrow> json" where
  "payload_json isofmt x = JObj [(''payload'', JObj (op_payload x)), (''target'', target_json (op_target x)),
     (''target_expected_version'', JInt (op_expected_version x)),
     (''plan'', JList [opt_str (op_plan x), opt_int (op_plan_version x), opt_str (op_plan_digest x)]), (''successor_id'', opt_str (op_successor x)),
     (''successor_plan'', case op_successor_plan x of None \<Rightarrow> JNull | Some p \<Rightarrow> plan_json isofmt p),
     (''correction'', case op_correction x of None \<Rightarrow> JNull | Some c \<Rightarrow> correction_json isofmt c),
     (''placement_id'', opt_str (op_placement x)), (''runtime_command_id'', opt_str (op_runtime_command x)),
     (''affected_attempt_id'', opt_str (op_affected_attempt x)), (''evidence'', JList (map (\<lambda>y. JStr (ey_digest y)) (op_evidence x))),
     (''outcomes'', JList (map (\<lambda>y. JStr (oy_digest y)) (op_outcomes x))), (''terminal_state'', opt_str (op_terminal_state x))]"

definition operation_digest :: "(string \<Rightarrow> string) \<Rightarrow> (int \<Rightarrow> string) \<Rightarrow> control_operation \<Rightarrow> string" where
  "operation_digest sha isofmt x = canonical_digest sha (payload_json isofmt x)"

definition operation_record :: "operation_result \<Rightarrow> (string, json) dict" where
  "operation_record r = [(''command_type'', JStr (command_value (or_command r))), (''control_command_id'', JStr (or_command_id r)),
     (''target_id'', JStr (or_target r)), (''target_version'', JInt (or_version r)), (''intervention_id'', opt_str (or_intervention r)),
     (''transition_id'', opt_str (or_transition r)), (''approval_decision_id'', opt_str (or_approval r)),
     (''successor_attempt_id'', opt_str (or_attempt r)), (''successor_workflow_run_id'', opt_str (or_run r)),
     (''runtime_command_id'', opt_str (or_runtime_command r)), (''successor_plan_id'', opt_str (or_plan r)),
     (''successor_plan_version'', opt_int (or_plan_version r)), (''evidence_ids'', JList (map JStr (or_evidence r))),
     (''outcome_ids'', JList (map JStr (or_outcomes r)))]"

definition get_str :: "(string, json) dict \<Rightarrow> string \<Rightarrow> string option" where
  "get_str d k = (case map_of d k of Some (JStr s) \<Rightarrow> Some s | _ \<Rightarrow> None)"

definition get_int :: "(string, json) dict \<Rightarrow> string \<Rightarrow> int option" where
  "get_int d k = (case map_of d k of Some (JInt n) \<Rightarrow> Some n | _ \<Rightarrow> None)"

definition get_strs :: "(string, json) dict \<Rightarrow> string \<Rightarrow> string list" where
  "get_strs d k = (case map_of d k of Some (JList xs) \<Rightarrow> map (\<lambda>x. case x of JStr s \<Rightarrow> s | _ \<Rightarrow> []) xs | _ \<Rightarrow> [])"

text \<open>The records of the table are written by \<open>operation_record\<close>; on any other record Python would raise.\<close>

definition operation_result_of :: "(string, json) dict \<Rightarrow> bool \<Rightarrow> (string, operation_result) result" where
  "operation_result_of d replayed = (if d = [] then Inl ''AUTHORITATIVE_READBACK_MISMATCH''
     else case (get_str d ''command_type'', get_str d ''control_command_id'', get_str d ''target_id'', get_int d ''target_version'') of
       (Some ct, Some cid, Some tid, Some v) \<Rightarrow> (case command_of ct of
          None \<Rightarrow> Inl ''ValueError''
        | Some c \<Rightarrow> Inr \<lparr>or_replayed = replayed, or_command = c, or_command_id = cid, or_target = tid, or_version = v,
            or_intervention = get_str d ''intervention_id'', or_transition = get_str d ''transition_id'',
            or_approval = get_str d ''approval_decision_id'', or_attempt = get_str d ''successor_attempt_id'',
            or_run = get_str d ''successor_workflow_run_id'', or_runtime_command = get_str d ''runtime_command_id'',
            or_plan = get_str d ''successor_plan_id'', or_plan_version = get_int d ''successor_plan_version'',
            or_evidence = get_strs d ''evidence_ids'', or_outcomes = get_strs d ''outcome_ids''\<rparr>)
     | _ \<Rightarrow> Inl ''KeyError'')"

lemma command_of_value [simp]: "command_of (command_value c) = Some c"
  by (cases c) (simp_all add: command_of_def COMMAND_TYPES_def command_value_def)

lemma operation_result_round_trip: "operation_result_of (operation_record r) b = Inr (r\<lparr>or_replayed := b\<rparr>)"
proof -
  have o: "(case opt_str v of JStr s \<Rightarrow> Some s | _ \<Rightarrow> None) = v" "(case opt_int n of JInt s \<Rightarrow> Some s | _ \<Rightarrow> None) = n" for v n
    by (cases v; simp add: opt_str_def; fail) (cases n; simp add: opt_int_def)
  show ?thesis
    by (simp add: operation_result_of_def operation_record_def get_str_def get_int_def get_strs_def o comp_def)
qed

subsection \<open>Tables\<close>

datatype target_kind = RUN_TARGET | TASK_TARGET | ATTEMPT_TARGET

record control_row =
  ct_state :: string
  ct_version :: int

record run_row = control_row +
  rn_assignment :: string
  rn_revision :: string
  rn_plan :: "string option"
  rn_plan_version :: "int option"
  rn_plan_digest :: "string option"
  rn_predecessor :: "string option"
  rn_correction :: "string option"
  rn_record :: "(string, json) dict"

record task_run_row = control_row +
  tk_run :: string

record attempt_run_row = control_row +
  at_task :: string
  at_ordinal :: "int option"
  at_predecessor :: "string option"
  at_digest :: string
  at_record :: "(string, json) dict"

record intervention_row =
  iv_request :: intervention_request
  iv_state :: intervention_state
  iv_version :: int

type_synonym claim_key = "string \<times> string \<times> string"

record claim_row =
  cl_digest :: string
  cl_completed :: bool
  cl_command :: "string option"
  cl_intervention :: "string option"
  cl_identity :: "string option"
  cl_result :: "(string, json) dict option"

record command_row =
  cm_type :: string
  cm_intervention :: string
  cm_ordinal :: int
  cm_target :: intervention_target
  cm_expected_version :: int
  cm_plan :: "(string \<times> int) option"
  cm_run :: "string option"
  cm_attempt :: "string option"
  cm_affected :: "string option"
  cm_runtime_command :: "string option"
  cm_placement :: "string option"
  cm_digest :: string
  cm_record :: "(string, json) dict"
  cm_requested_at :: int
  cm_result :: "(string, json) dict option"

record outcome_row =
  oc_run :: string
  oc_task :: "string option"
  oc_attempt :: "string option"
  oc_entry :: outcome_entry

record fact_link =
  fl_intervention :: string
  fl_transition :: int
  fl_command :: string
  fl_ordinal :: nat
  fl_fact :: string

text \<open>
  \<open>wb_placements\<close> joins the placement decisions with their requests: the attempt, and the runtime instance when the decision is \<open>PLACED\<close>.
  \<open>wb_runtime_commands\<close> has the runtime instance of each desired command. Both belong to other repositories.
\<close>

record control_db =
  wb_plans :: "(string \<times> int, plan_record) dict"
  wb_approvals :: "approval_decision list"
  wb_corrections :: "plan_correction list"
  wb_runs :: "(string, run_row) dict"
  wb_tasks :: "(string, task_run_row) dict"
  wb_attempts :: "(string, attempt_run_row) dict"
  wb_interventions :: "(string, intervention_row) dict"
  wb_transitions :: "intervention_transition list"
  wb_reviews :: "intervention_review list"
  wb_decisions :: "intervention_decision list"
  wb_claims :: "(claim_key, claim_row) dict"
  wb_commands :: "(string, command_row) dict"
  wb_evidence :: "(string, evidence_entry) dict"
  wb_outcomes :: "(string, outcome_row) dict"
  wb_evidence_links :: "fact_link list"
  wb_outcome_links :: "fact_link list"
  wb_placements :: "(string, string \<times> string option) dict"
  wb_runtime_commands :: "(string, string) dict"
  wb_definitions :: "string list"
  wb_assignments :: "string list"

type_synonym 'a control_tx = "(string, control_db \<times> 'a) result"

definition guarded :: "bool \<Rightarrow> 'a \<Rightarrow> (string, 'a) result" where
  "guarded b x = (if b then Inr x else Inl ''WORKFLOW_CONTROL_CONFLICT'')"

lemma guarded_Inr [simp]: "guarded b x = Inr y \<longleftrightarrow> b \<and> y = x"
  by (auto simp: guarded_def)

lemma guarded_True [simp]: "guarded True x = Inr x"
  by simp

definition known :: "('k, 'v) dict \<Rightarrow> 'k option \<Rightarrow> bool" where
  "known d k = (case k of None \<Rightarrow> True | Some x \<Rightarrow> map_of d x \<noteq> None)"

definition octets_between :: "nat \<Rightarrow> nat \<Rightarrow> string \<Rightarrow> bool" where
  "octets_between lo hi s = (lo \<le> utf8_length s \<and> utf8_length s \<le> hi)"

subsection \<open>Targets of control\<close>

definition target_of :: "intervention_target \<Rightarrow> (target_kind \<times> string) option" where
  "target_of t = (case (it_run t, it_task t, it_attempt t) of
     (Some i, _, _) \<Rightarrow> Some (RUN_TARGET, i) | (None, Some i, _) \<Rightarrow> Some (TASK_TARGET, i)
   | (None, None, Some i) \<Rightarrow> Some (ATTEMPT_TARGET, i) | _ \<Rightarrow> None)"

definition TRANSITIONS :: "intervention_state option \<Rightarrow> intervention_state list" where
  "TRANSITIONS s = (case s of None \<Rightarrow> [I_REQUESTED]
     | Some I_REQUESTED \<Rightarrow> [I_AUTHORIZED, I_REJECTED, I_EXPIRED, I_CANCELLED]
     | Some I_AUTHORIZED \<Rightarrow> [I_APPLICATION_PENDING, I_CANCELLED, I_EXPIRED]
     | Some I_APPLICATION_PENDING \<Rightarrow> [I_APPLIED, I_FAILED]
     | Some I_APPLIED \<Rightarrow> [I_OBSERVED, I_FAILED]
     | _ \<Rightarrow> [])"

definition TARGET_TRANSITIONS :: "target_kind \<Rightarrow> (string, string list) dict" where
  "TARGET_TRANSITIONS k = (case k of
     RUN_TARGET \<Rightarrow> [(''PENDING'', [''RUNNING'', ''CANCELLATION_PENDING'', ''FAILED'', ''RECOVERY_REQUIRED'']),
       (''RUNNING'', [''PAUSE_REQUESTED'', ''CANCELLATION_PENDING'', ''SUCCEEDED'', ''FAILED'', ''RECOVERY_REQUIRED'']),
       (''PAUSE_REQUESTED'', [''PAUSE_PENDING'', ''FAILED'', ''RECOVERY_REQUIRED'']),
       (''PAUSE_PENDING'', [''PAUSED'', ''FAILED'', ''RECOVERY_REQUIRED'']),
       (''PAUSED'', [''RESUME_REQUESTED'', ''CANCELLATION_PENDING'']),
       (''RESUME_REQUESTED'', [''RUNNING'', ''FAILED'', ''RECOVERY_REQUIRED'']),
       (''CANCELLATION_PENDING'', [''CANCELLED'', ''FAILED'', ''RECOVERY_REQUIRED''])]
   | TASK_TARGET \<Rightarrow> [(''PENDING'', [''READY'', ''BLOCKED'', ''CANCELLATION_PENDING'', ''SKIPPED'']),
       (''READY'', [''RUNNING'', ''BLOCKED'', ''CANCELLATION_PENDING'', ''SKIPPED'']),
       (''RUNNING'', [''BLOCKED'', ''CANCELLATION_PENDING'', ''SUCCEEDED'', ''FAILED'']),
       (''BLOCKED'', [''READY'', ''CANCELLATION_PENDING'', ''SKIPPED'']),
       (''CANCELLATION_PENDING'', [''CANCELLED''])]
   | ATTEMPT_TARGET \<Rightarrow> [(''PENDING'', [''PLACED'', ''CANCELLATION_PENDING'', ''FAILED'', ''UNKNOWN'', ''RECOVERY_REQUIRED'']),
       (''PLACED'', [''RUNNING'', ''CANCELLATION_PENDING'', ''FAILED'', ''UNKNOWN'', ''RECOVERY_REQUIRED'']),
       (''RUNNING'', [''CANCELLATION_PENDING'', ''SUCCEEDED'', ''FAILED'', ''UNKNOWN'', ''RECOVERY_REQUIRED'']),
       (''CANCELLATION_PENDING'', [''CANCELLED'', ''UNKNOWN'', ''RECOVERY_REQUIRED'']),
       (''UNKNOWN'', [''RECOVERY_REQUIRED''])])"

definition target_allows :: "target_kind \<Rightarrow> string \<Rightarrow> string \<Rightarrow> bool" where
  "target_allows k from_state to_state = (to_state \<in> set (dict_get (TARGET_TRANSITIONS k) from_state []))"

text \<open>The check constraints on the states, and the plan binding of a run that is under control.\<close>

definition CONTROL_STATES :: "target_kind \<Rightarrow> string list" where
  "CONTROL_STATES k = (case k of
     RUN_TARGET \<Rightarrow> [''LEGACY_UNBOUND'', ''PENDING'', ''RUNNING'', ''PAUSE_REQUESTED'', ''PAUSE_PENDING'', ''PAUSED'', ''RESUME_REQUESTED'',
       ''CANCELLATION_PENDING'', ''SUCCEEDED'', ''FAILED'', ''CANCELLED'', ''RECOVERY_REQUIRED'']
   | TASK_TARGET \<Rightarrow> [''LEGACY_IMPORTED'', ''PENDING'', ''READY'', ''RUNNING'', ''BLOCKED'', ''CANCELLATION_PENDING'', ''SUCCEEDED'', ''FAILED'',
       ''SKIPPED'', ''CANCELLED'']
   | ATTEMPT_TARGET \<Rightarrow> [''PENDING'', ''PLACED'', ''RUNNING'', ''CANCELLATION_PENDING'', ''SUCCEEDED'', ''FAILED'', ''CANCELLED'', ''UNKNOWN'',
       ''RECOVERY_REQUIRED''])"

definition run_binding_ok :: "run_row \<Rightarrow> bool" where
  "run_binding_ok r = (if ct_state r = ''LEGACY_UNBOUND'' then rn_plan r = None \<and> rn_plan_version r = None \<and> rn_plan_digest r = None
     else rn_plan r \<noteq> None \<and> (case rn_plan_version r of None \<Rightarrow> False | Some v \<Rightarrow> 0 < v) \<and>
       (case rn_plan_digest r of None \<Rightarrow> False | Some d \<Rightarrow> length d = 64))"

definition target_row :: "control_db \<Rightarrow> target_kind \<Rightarrow> string \<Rightarrow> (string \<times> int) option" where
  "target_row db k i = (case k of
     RUN_TARGET \<Rightarrow> map_option (\<lambda>r. (ct_state r, ct_version r)) (map_of (wb_runs db) i)
   | TASK_TARGET \<Rightarrow> map_option (\<lambda>r. (ct_state r, ct_version r)) (map_of (wb_tasks db) i)
   | ATTEMPT_TARGET \<Rightarrow> map_option (\<lambda>r. (ct_state r, ct_version r)) (map_of (wb_attempts db) i))"

text \<open>\<open>UPDATE ... SET control_state, aggregate_version + 1 WHERE aggregate_version = expected RETURNING aggregate_version\<close>.\<close>

definition move_row :: "string \<Rightarrow> ('m control_row_scheme) \<Rightarrow> 'm control_row_scheme" where
  "move_row s r = r\<lparr>ct_state := s, ct_version := ct_version r + 1\<rparr>"

definition move_target :: "control_db \<Rightarrow> target_kind \<Rightarrow> string \<Rightarrow> string \<Rightarrow> int \<Rightarrow> int control_tx" where
  "move_target db k i s expected = (case target_row db k i of
     None \<Rightarrow> Inl ''STALE_AGGREGATE_VERSION''
   | Some (_, v) \<Rightarrow>
       if v \<noteq> expected then Inl ''STALE_AGGREGATE_VERSION''
       else rbind (guarded (s \<in> set (CONTROL_STATES k)) ()) (\<lambda>_. case k of
         RUN_TARGET \<Rightarrow> (case map_of (wb_runs db) i of None \<Rightarrow> Inl ''STALE_AGGREGATE_VERSION''
           | Some r \<Rightarrow> guarded (run_binding_ok (move_row s r)) (db\<lparr>wb_runs := AList.update i (move_row s r) (wb_runs db)\<rparr>, v + 1))
       | TASK_TARGET \<Rightarrow> (case map_of (wb_tasks db) i of None \<Rightarrow> Inl ''STALE_AGGREGATE_VERSION''
           | Some r \<Rightarrow> Inr (db\<lparr>wb_tasks := AList.update i (move_row s r) (wb_tasks db)\<rparr>, v + 1))
       | ATTEMPT_TARGET \<Rightarrow> (case map_of (wb_attempts db) i of None \<Rightarrow> Inl ''STALE_AGGREGATE_VERSION''
           | Some r \<Rightarrow> Inr (db\<lparr>wb_attempts := AList.update i (move_row s r) (wb_attempts db)\<rparr>, v + 1))))"

definition TERMINAL_TARGETS :: "string list" where
  "TERMINAL_TARGETS = [''SUCCEEDED'', ''FAILED'', ''SKIPPED'', ''CANCELLED'', ''RECOVERY_REQUIRED'']"

subsection \<open>Plans\<close>

definition AUTHORITIES :: "string list" where
  "AUTHORITIES = [''BUSINESS_OWNER'', ''AUTHORIZED_OPERATOR'', ''POLICY_AUTHORITY'']"

definition CORRECTION_REASONS :: "string list" where
  "CORRECTION_REASONS = [''BUSINESS_CORRECTION'', ''DEPENDENCY_CORRECTION'', ''POLICY_CORRECTION'', ''SAFETY_CORRECTION'']"

definition APPROVAL_REASONS :: "string list" where
  "APPROVAL_REASONS = [''BUSINESS_APPROVAL'', ''BUSINESS_REJECTION'', ''POLICY_APPROVAL'', ''POLICY_REJECTION'']"

definition plan_key :: "plan_record \<Rightarrow> string \<times> int" where
  "plan_key p = (pn_id p, pn_version p)"

definition predecessor_key :: "plan_record \<Rightarrow> (string \<times> int) option" where
  "predecessor_key p = (case (pn_predecessor p, pn_predecessor_version p) of (Some i, Some v) \<Rightarrow> Some (i, v) | _ \<Rightarrow> None)"

definition in_opt :: "'a list \<Rightarrow> 'a option \<Rightarrow> bool" where
  "in_opt xs v = (case v of None \<Rightarrow> False | Some x \<Rightarrow> x \<in> set xs)"

definition plan_allowed :: "control_db \<Rightarrow> plan_record \<Rightarrow> bool" where
  "plan_allowed db p = (map_of (wb_plans db) (plan_key p) = None \<and> octets_between 1 200 (pn_id p) \<and> 0 < pn_version p \<and>
     length (pn_definition_digest p) = 64 \<and> 0 < pn_aggregate p \<and> length (pn_digest p) = 64 \<and>
     (pn_predecessor p = None) = (pn_predecessor_version p = None) \<and> pn_definition p \<in> set (wb_definitions db) \<and>
     (case predecessor_key p of None \<Rightarrow> True
      | Some k \<Rightarrow> map_of (wb_plans db) k \<noteq> None \<and> list_all (\<lambda>(_, q). predecessor_key q \<noteq> Some k) (wb_plans db)) \<and>
     (pn_predecessor p = None \<or> (case pn_source_revision p of None \<Rightarrow> False | Some n \<Rightarrow> 0 < n) \<and>
       (case pn_source_digest p of None \<Rightarrow> False | Some d \<Rightarrow> length d = 64) \<and>
       (case pn_actor p of None \<Rightarrow> False | Some a \<Rightarrow> octets_between 1 128 a) \<and>
       in_opt AUTHORITIES (pn_authority p) \<and> in_opt CORRECTION_REASONS (pn_correction_reason p)))"

definition insert_plan_row :: "control_db \<Rightarrow> plan_record \<Rightarrow> (string, control_db) result" where
  "insert_plan_row db p = guarded (plan_allowed db p) (db\<lparr>wb_plans := AList.update (plan_key p) p (wb_plans db)\<rparr>)"

text \<open>The statement of \<open>create_plan\<close> names the columns of migration 0009 only.\<close>

definition plan_columns :: "plan_record \<Rightarrow> plan_record" where
  "plan_columns p = p\<lparr>pn_source_revision := None, pn_source_digest := None, pn_actor := None, pn_authority := None, pn_correction_reason := None\<rparr>"

definition create_plan :: "control_db \<Rightarrow> plan_record \<Rightarrow> plan_record control_tx" where
  "create_plan db p = rbind (insert_plan_row db (plan_columns p)) (\<lambda>db'. Inr (db', p))"

definition get_plan :: "control_db \<Rightarrow> string \<Rightarrow> int \<Rightarrow> plan_record option" where
  "get_plan db i v = map_of (wb_plans db) (i, v)"

definition set_plan :: "control_db \<Rightarrow> plan_record \<Rightarrow> plan_status \<Rightarrow> int \<Rightarrow> control_db" where
  "set_plan db p s now = db\<lparr>wb_plans := AList.update (plan_key p) (p\<lparr>pn_status := s, pn_aggregate := pn_aggregate p + 1, pn_updated := now\<rparr>) (wb_plans db)\<rparr>"

definition IMMUTABLE_PLANS :: "plan_status list" where
  "IMMUTABLE_PLANS = [APPROVED, REJECTED, CANCELLED, INVALIDATED, SUPERSEDED]"

definition replace_plan_status :: "control_db \<Rightarrow> string \<Rightarrow> int \<Rightarrow> plan_status \<Rightarrow> int \<Rightarrow> int \<Rightarrow> unit control_tx" where
  "replace_plan_status db i v s expected now = (case map_of (wb_plans db) (i, v) of
     None \<Rightarrow> Inl ''PLAN_IMMUTABLE_OR_MISSING''
   | Some p \<Rightarrow> if pn_status p \<in> set IMMUTABLE_PLANS then Inl ''PLAN_IMMUTABLE_OR_MISSING''
       else if pn_aggregate p \<noteq> expected then Inl ''STALE_AGGREGATE_VERSION''
       else Inr (set_plan db p s now, ()))"

definition approval_allowed :: "control_db \<Rightarrow> approval_decision \<Rightarrow> bool" where
  "approval_allowed db a = (list_all (\<lambda>b. ap_id b \<noteq> ap_id a \<and> (ap_plan b, ap_plan_version b) \<noteq> (ap_plan a, ap_plan_version a)) (wb_approvals db) \<and>
     length (ap_plan_digest a) = 64 \<and> 0 < ap_ordinal a \<and> ap_decision a \<in> {''APPROVE'', ''REJECT''} \<and> octets_between 1 128 (ap_basis a) \<and>
     ap_reason a \<in> set APPROVAL_REASONS \<and> length (ap_digest a) = 64 \<and> map_of (wb_plans db) (ap_plan a, ap_plan_version a) \<noteq> None)"

definition insert_approval :: "control_db \<Rightarrow> approval_decision \<Rightarrow> (string, control_db) result" where
  "insert_approval db a = guarded (approval_allowed db a) (db\<lparr>wb_approvals := wb_approvals db @ [a]\<rparr>)"

definition append_approval :: "control_db \<Rightarrow> approval_decision \<Rightarrow> int \<Rightarrow> approval_decision control_tx" where
  "append_approval db a now = (case map_of (wb_plans db) (ap_plan a, ap_plan_version a) of
     None \<Rightarrow> Inl ''PLAN_NOT_APPROVABLE''
   | Some p \<Rightarrow> if pn_digest p \<noteq> ap_plan_digest a \<or> pn_status p \<noteq> PENDING_APPROVAL then Inl ''PLAN_NOT_APPROVABLE''
       else rbind (insert_approval db a) (\<lambda>db'. Inr (set_plan db' p (if ap_decision a = ''APPROVE'' then APPROVED else REJECTED) now, a)))"

definition prepare_plan_entry :: "(string \<Rightarrow> string) \<Rightarrow> control_db \<Rightarrow> plan_record \<Rightarrow> bool \<Rightarrow> plan_record control_tx" where
  "prepare_plan_entry sha db p authorized = (if \<not> authorized then Inl ''PLAN_NOT_FOUND''
     else if pn_status p \<noteq> PENDING_APPROVAL \<or> pn_aggregate p \<noteq> 1 \<or> pn_version p \<noteq> 1 \<or> sha (pn_bytes p) \<noteq> pn_digest p then Inl ''PLAN_CONTENT_INVALID''
     else create_plan db p)"

definition approve_plan_entry :: "control_db \<Rightarrow> approval_decision \<Rightarrow> int \<Rightarrow> bool \<Rightarrow> int \<Rightarrow> approval_decision control_tx" where
  "approve_plan_entry db a expected authorized now = (if \<not> authorized then Inl ''PLAN_NOT_FOUND''
     else case map_of (wb_plans db) (ap_plan a, ap_plan_version a) of
       None \<Rightarrow> Inl ''STALE_AGGREGATE_VERSION''
     | Some p \<Rightarrow> if pn_aggregate p \<noteq> expected then Inl ''STALE_AGGREGATE_VERSION'' else append_approval db a now)"

definition PLAN_ENTRY_COMMANDS :: "string list" where
  "PLAN_ENTRY_COMMANDS = [''PLAN_ENTRY_PREPARE_V1'', ''PLAN_ENTRY_APPROVE_V1'']"

definition claim_plan_entry ::
  "control_db \<Rightarrow> string \<Rightarrow> string \<Rightarrow> string \<Rightarrow> string \<Rightarrow> bool \<Rightarrow> (string, (string, json) dict option) result" where
  "claim_plan_entry db actor command key digest authorized = (if \<not> authorized then Inl ''PLAN_NOT_FOUND''
     else if command \<notin> set PLAN_ENTRY_COMMANDS then Inl ''PLAN_COMMAND_INVALID''
     else case map_of (wb_claims db) (actor, command, key) of
       None \<Rightarrow> Inr None
     | Some c \<Rightarrow> if cl_digest c \<noteq> digest then Inl ''IDEMPOTENCY_PAYLOAD_MISMATCH''
         else if \<not> cl_completed c \<or> cl_result c = None then Inl ''COMMAND_IN_PROGRESS'' else Inr (cl_result c))"

text \<open>The identity of the plan in an answer is a string, as the plan entry service writes it.\<close>

definition complete_plan_entry ::
  "control_db \<Rightarrow> string \<Rightarrow> string \<Rightarrow> string \<Rightarrow> string \<Rightarrow> (string, json) dict \<Rightarrow> bool \<Rightarrow> unit control_tx" where
  "complete_plan_entry db actor command key digest answer authorized = (if \<not> authorized then Inl ''PLAN_NOT_FOUND''
     else if command \<notin> set PLAN_ENTRY_COMMANDS then Inl ''PLAN_COMMAND_INVALID''
     else case map_of answer ''planId'' of
       Some (JStr i) \<Rightarrow> guarded (map_of (wb_claims db) (actor, command, key) = None \<and> length digest = 64)
         (db\<lparr>wb_claims := AList.update (actor, command, key) \<lparr>cl_digest = digest, cl_completed = True, cl_command = None, cl_intervention = None,
            cl_identity = Some i, cl_result = Some answer\<rparr> (wb_claims db)\<rparr>, ())
     | _ \<Rightarrow> Inl ''KeyError'')"

subsection \<open>Interventions\<close>

definition ACTION_TYPES :: "string list" where
  "ACTION_TYPES = [''PAUSE'', ''APPROVE_AND_CONTINUE'', ''PROVIDE_HUMAN_INPUT'', ''CORRECT_BUSINESS_INTENT'', ''RESUME'', ''RETRY_ATTEMPT'',
     ''RERUN_APPROVED_PLAN'', ''CANCEL'', ''STOP'', ''REQUEST_RUNTIME_REPLACEMENT'']"

definition REASON_CATEGORIES :: "string list" where
  "REASON_CATEGORIES = [''BUSINESS_REQUEST'', ''BUSINESS_CORRECTION'', ''HUMAN_APPROVAL'', ''HUMAN_INPUT'', ''OPERATIONAL_RECOVERY'', ''POLICY'',
     ''SAFETY'', ''RUNTIME_HEALTH'']"

definition target_known :: "control_db \<Rightarrow> intervention_target \<Rightarrow> bool" where
  "target_known db t = (known (wb_runs db) (it_run t) \<and> known (wb_tasks db) (it_task t) \<and> known (wb_attempts db) (it_attempt t))"

definition insert_request :: "control_db \<Rightarrow> intervention_request \<Rightarrow> (string, control_db) result" where
  "insert_request db q = guarded (map_of (wb_interventions db) (iq_id q) = None \<and> is_ok (intervention_target_init (iq_target q)) \<and>
       iq_action q \<in> set ACTION_TYPES \<and> iq_reason q \<in> set REASON_CATEGORIES \<and> 0 < iq_expected_version q \<and> target_known db (iq_target q))
     (db\<lparr>wb_interventions := AList.update (iq_id q) \<lparr>iv_request = q, iv_state = I_REQUESTED, iv_version = 1\<rparr> (wb_interventions db)\<rparr>)"

definition insert_transition :: "control_db \<Rightarrow> intervention_transition \<Rightarrow> (string, control_db) result" where
  "insert_transition db t = guarded (0 < tr_ordinal t \<and> map_of (wb_interventions db) (tr_intervention t) \<noteq> None \<and>
       list_all (\<lambda>u. tr_id u \<noteq> tr_id t \<and> (tr_intervention u, tr_ordinal u) \<noteq> (tr_intervention t, tr_ordinal t)) (wb_transitions db) \<and>
       (tr_ordinal t = 1 \<longrightarrow> tr_from t = None \<and> tr_to t = I_REQUESTED))
     (db\<lparr>wb_transitions := wb_transitions db @ [t]\<rparr>)"

definition set_intervention :: "control_db \<Rightarrow> string \<Rightarrow> intervention_state \<Rightarrow> int \<Rightarrow> control_db" where
  "set_intervention db i s v = (case map_of (wb_interventions db) i of None \<Rightarrow> db
     | Some r \<Rightarrow> db\<lparr>wb_interventions := AList.update i (r\<lparr>iv_state := s, iv_version := v\<rparr>) (wb_interventions db)\<rparr>)"

definition requested_transition :: "string \<Rightarrow> intervention_request \<Rightarrow> intervention_transition" where
  "requested_transition tid q = \<lparr>tr_id = tid, tr_intervention = iq_id q, tr_ordinal = 1, tr_from = None, tr_to = I_REQUESTED,
     tr_actor = iq_actor q, tr_basis = iq_basis q, tr_reason = iq_reason q, tr_at = iq_at q\<rparr>"

definition open_intervention :: "control_db \<Rightarrow> intervention_request \<Rightarrow> string \<Rightarrow> (string, control_db) result" where
  "open_intervention db q tid = rbind (insert_request db q) (\<lambda>db'. insert_transition db' (requested_transition tid q))"

definition request_intervention :: "control_db \<Rightarrow> intervention_request \<Rightarrow> intervention_request control_tx" where
  "request_intervention db q = rbind (open_intervention db q (iq_id q @ '':requested'')) (\<lambda>db'. Inr (db', q))"

text \<open>The transition and the state it leads to.\<close>

definition advance :: "control_db \<Rightarrow> intervention_transition \<Rightarrow> (string, control_db) result" where
  "advance db t = rbind (insert_transition db t) (\<lambda>db'. Inr (set_intervention db' (tr_intervention t) (tr_to t) (tr_ordinal t)))"

definition append_transition :: "control_db \<Rightarrow> intervention_transition \<Rightarrow> int \<Rightarrow> intervention_transition control_tx" where
  "append_transition db t expected = (if tr_to t \<notin> set (TRANSITIONS (tr_from t)) then Inl ''INVALID_INTERVENTION_TRANSITION''
     else case map_of (wb_interventions db) (tr_intervention t) of
       None \<Rightarrow> Inl ''STALE_AGGREGATE_VERSION''
     | Some r \<Rightarrow> if iv_version r \<noteq> expected \<or> Some (iv_state r) \<noteq> tr_from t then Inl ''STALE_AGGREGATE_VERSION''
         else rbind (insert_transition (set_intervention db (tr_intervention t) (tr_to t) (iv_version r + 1)) t) (\<lambda>db'. Inr (db', t)))"

definition insert_review :: "control_db \<Rightarrow> intervention_review \<Rightarrow> (string, control_db) result" where
  "insert_review db v = guarded (list_all (\<lambda>u. rv_id u \<noteq> rv_id v \<and> rv_intervention u \<noteq> rv_intervention v) (wb_reviews db) \<and>
       octets_between 1 128 (rv_basis v) \<and> list_ex (\<lambda>t. tr_intervention t = rv_intervention v \<and> tr_ordinal t = 1) (wb_transitions db))
     (db\<lparr>wb_reviews := wb_reviews db @ [v]\<rparr>)"

definition insert_decision :: "control_db \<Rightarrow> intervention_decision \<Rightarrow> (string, control_db) result" where
  "insert_decision db d = guarded (list_all (\<lambda>u. dn_id u \<noteq> dn_id d \<and> dn_intervention u \<noteq> dn_intervention d) (wb_decisions db) \<and>
       dn_decision d \<in> {''AUTHORIZE'', ''REJECT''} \<and> octets_between 1 128 (dn_basis d) \<and> list_ex (\<lambda>v. rv_id v = dn_review d) (wb_reviews db) \<and>
       map_of (wb_interventions db) (dn_intervention d) \<noteq> None)
     (db\<lparr>wb_decisions := wb_decisions db @ [d]\<rparr>)"

definition append_review :: "control_db \<Rightarrow> intervention_review \<Rightarrow> intervention_review control_tx" where
  "append_review db v = (case map_of (wb_interventions db) (rv_intervention v) of
     None \<Rightarrow> Inl ''INTERVENTION_NOT_REVIEWABLE''
   | Some r \<Rightarrow> if iv_state r \<noteq> I_REQUESTED then Inl ''INTERVENTION_NOT_REVIEWABLE''
       else rbind (insert_review db v) (\<lambda>db'. Inr (db', v)))"

definition decision_state :: "intervention_decision \<Rightarrow> intervention_state" where
  "decision_state d = (if dn_decision d = ''AUTHORIZE'' then I_AUTHORIZED else I_REJECTED)"

definition decision_transition :: "intervention_decision \<Rightarrow> int \<Rightarrow> intervention_transition" where
  "decision_transition d n = \<lparr>tr_id = dn_id d, tr_intervention = dn_intervention d, tr_ordinal = n, tr_from = Some I_REQUESTED, tr_to = decision_state d,
     tr_actor = dn_actor d, tr_basis = dn_basis d, tr_reason = dn_reason d, tr_at = dn_at d\<rparr>"

definition append_decision :: "control_db \<Rightarrow> intervention_decision \<Rightarrow> intervention_decision control_tx" where
  "append_decision db d = (case map_of (wb_interventions db) (dn_intervention d) of
     None \<Rightarrow> Inl ''INTERVENTION_NOT_DECIDABLE''
   | Some r \<Rightarrow> if iv_state r \<noteq> I_REQUESTED \<or> \<not> list_ex (\<lambda>v. rv_id v = dn_review d \<and> rv_intervention v = dn_intervention d) (wb_reviews db)
       then Inl ''INTERVENTION_NOT_DECIDABLE''
       else rbind (insert_decision db d) (\<lambda>db1. rbind (advance db1 (decision_transition d (iv_version r + 1))) (\<lambda>db2. Inr (db2, d))))"

definition read_transitions :: "control_db \<Rightarrow> string \<Rightarrow> intervention_transition list" where
  "read_transitions db i = sort_key tr_ordinal (filter (\<lambda>t. tr_intervention t = i) (wb_transitions db))"

subsection \<open>The commands of an operation\<close>

text \<open>What the branches of an operation have established so far.\<close>

record op_progress =
  pg_ordinal :: int
  pg_transition :: "string option"
  pg_version :: int
  pg_approval :: "string option"
  pg_attempt :: "string option"
  pg_run :: "string option"
  pg_runtime :: "string option"
  pg_plan :: "(string \<times> int) option"

definition either :: "string option \<Rightarrow> string \<Rightarrow> string" where
  "either v d = (case v of None \<Rightarrow> d | Some s \<Rightarrow> if s = [] then d else s)"

definition persist_plan_operation :: "control_db \<Rightarrow> control_operation \<Rightarrow> target_kind \<Rightarrow> string \<Rightarrow> string \<Rightarrow> int \<Rightarrow> (int \<times> string) control_tx" where
  "persist_plan_operation db x kind tid state version =
     (case (op_approval x, op_plan x, op_plan_version x, op_plan_digest x) of
        (Some a, Some i, Some v, Some d) \<Rightarrow>
          if kind \<noteq> RUN_TARGET then Inl ''EXACT_PLAN_APPROVAL_REQUIRED''
          else (case map_of (wb_plans db) (i, v) of
            None \<Rightarrow> Inl ''EXACT_PLAN_APPROVAL_REQUIRED''
          | Some p \<Rightarrow>
              if pn_status p \<noteq> PENDING_APPROVAL \<or> pn_digest p \<noteq> d \<or> ap_plan_digest a \<noteq> d \<or> ap_plan a \<noteq> i \<or> ap_plan_version a \<noteq> v
                then Inl ''EXACT_PLAN_APPROVAL_REQUIRED''
              else let wanted = (if op_command x = APPROVE_AND_CONTINUE then ''APPROVE'' else ''REJECT'') in
                if ap_decision a \<noteq> wanted then Inl ''APPROVAL_DECISION_MISMATCH''
                else rbind (insert_approval db a) (\<lambda>db1.
                  let db2 = set_plan db1 p (if wanted = ''APPROVE'' then APPROVED else REJECTED) (op_requested_at x) in
                  if wanted = ''APPROVE'' then
                    (if state \<noteq> ''PAUSED'' then Inl ''RUN_NOT_CONTINUABLE''
                     else rbind (move_target db2 RUN_TARGET tid ''RESUME_REQUESTED'' (op_expected_version x)) (\<lambda>(db3, n). Inr (db3, n, ap_id a)))
                  else Inr (db2, version, ap_id a)))
      | _ \<Rightarrow> Inl ''EXACT_PLAN_APPROVAL_REQUIRED'')"

definition exact_successor :: "control_operation \<Rightarrow> plan_correction \<Rightarrow> plan_record \<Rightarrow> string \<Rightarrow> int \<Rightarrow> string \<Rightarrow> bool" where
  "exact_successor x c p i v d = (pn_scope p = op_scope x \<and> pn_status p = PENDING_APPROVAL \<and> pn_predecessor p = Some i \<and>
     pn_predecessor_version p = Some v \<and> pn_source_revision p = Some v \<and> pn_source_digest p = Some d \<and> cn_predecessor c = i \<and>
     cn_predecessor_version c = v \<and> cn_successor c = pn_id p \<and> cn_successor_version c = pn_version p \<and> cn_actor c = op_actor x \<and>
     Some (cn_authority c) = pn_authority p \<and> Some (cn_reason c) = pn_correction_reason p)"

definition insert_correction :: "control_db \<Rightarrow> plan_correction \<Rightarrow> (string, control_db) result" where
  "insert_correction db c = guarded (list_all (\<lambda>b. cn_id b \<noteq> cn_id c \<and>
       (cn_predecessor b, cn_predecessor_version b) \<noteq> (cn_predecessor c, cn_predecessor_version c) \<and>
       (cn_successor b, cn_successor_version b) \<noteq> (cn_successor c, cn_successor_version c)) (wb_corrections db) \<and>
       cn_authority c \<in> set AUTHORITIES \<and> cn_reason c \<in> set CORRECTION_REASONS \<and>
       map_of (wb_plans db) (cn_predecessor c, cn_predecessor_version c) \<noteq> None \<and> map_of (wb_plans db) (cn_successor c, cn_successor_version c) \<noteq> None)
     (db\<lparr>wb_corrections := wb_corrections db @ [c]\<rparr>)"

definition persist_correction :: "control_db \<Rightarrow> control_operation \<Rightarrow> (string \<times> int) control_tx" where
  "persist_correction db x =
     (case (op_correction x, op_successor_plan x, op_plan x, op_plan_version x, op_plan_digest x) of
        (Some c, Some p, Some i, Some v, Some d) \<Rightarrow>
          if \<not> exact_successor x c p i v d then Inl ''EXACT_SUCCESSOR_PLAN_REQUIRED''
          else (case map_of (wb_plans db) (i, v) of
            None \<Rightarrow> Inl ''SOURCE_PLAN_NOT_CORRECTABLE''
          | Some q \<Rightarrow>
              if pn_digest q \<noteq> d \<or> map_of (op_payload x) ''expected_plan_aggregate_version'' \<noteq> Some (JInt (pn_aggregate q)) \<or>
                 pn_status q \<in> {SUPERSEDED, REJECTED, CANCELLED, INVALIDATED} \<or> pn_definition p \<noteq> pn_definition q
                then Inl ''SOURCE_PLAN_NOT_CORRECTABLE''
              else rbind (insert_plan_row db p) (\<lambda>db1. rbind (insert_correction db1 c) (\<lambda>db2.
                Inr (set_plan db2 q SUPERSEDED (op_requested_at x), pn_id p, pn_version p))))
      | _ \<Rightarrow> Inl ''EXACT_SUCCESSOR_PLAN_REQUIRED'')"

definition TERMINAL_STATES :: "target_kind \<Rightarrow> string list" where
  "TERMINAL_STATES k = (case k of RUN_TARGET \<Rightarrow> [''SUCCEEDED'', ''FAILED'', ''CANCELLED''] | TASK_TARGET \<Rightarrow> [''SUCCEEDED'', ''FAILED'', ''SKIPPED'', ''CANCELLED'']
     | ATTEMPT_TARGET \<Rightarrow> [''SUCCEEDED'', ''FAILED'', ''CANCELLED''])"

definition complete_terminal_target :: "control_db \<Rightarrow> control_operation \<Rightarrow> target_kind \<Rightarrow> string \<Rightarrow> string \<Rightarrow> int control_tx" where
  "complete_terminal_target db x kind tid state =
     (case op_terminal_state x of None \<Rightarrow> Inl ''ACTUAL_TERMINAL_RESULT_REQUIRED''
      | Some s \<Rightarrow> if s \<notin> set (TERMINAL_STATES kind) \<or> state \<in> set TERMINAL_TARGETS \<or> length (op_outcomes x) \<noteq> 1 \<or> op_evidence x = []
          then Inl ''ACTUAL_TERMINAL_RESULT_REQUIRED'' else move_target db kind tid s (op_expected_version x))"

definition validate_runtime_replacement :: "control_db \<Rightarrow> control_operation \<Rightarrow> target_kind \<Rightarrow> string \<Rightarrow> (string, string) result" where
  "validate_runtime_replacement db x kind tid = (case (op_placement x, op_runtime_command x) of
     (Some pid, Some cid) \<Rightarrow>
       if kind \<noteq> ATTEMPT_TARGET \<or> op_affected_attempt x \<noteq> Some tid then Inl ''RUNTIME_REPLACEMENT_LINKAGE_REQUIRED''
       else (case (map_of (wb_placements db) pid, map_of (wb_runtime_commands db) cid) of
         (Some (att, Some rid), Some rid') \<Rightarrow> if att \<noteq> tid \<or> rid \<noteq> rid' then Inl ''INELIGIBLE_PLACEMENT'' else Inr cid
       | _ \<Rightarrow> Inl ''INELIGIBLE_PLACEMENT'')
   | _ \<Rightarrow> Inl ''RUNTIME_REPLACEMENT_LINKAGE_REQUIRED'')"

text \<open>The execution lineage of a retried attempt, which belongs to \<open>execution_lineage.py\<close>: ordinal, digest and record of the successor, or nothing for an unbound attempt.\<close>

record lineage_port =
  lp_prepare :: "control_operation \<Rightarrow> attempt_run_row \<Rightarrow> (string, (int \<times> string \<times> (string, json) dict) option) result"
  lp_append :: "control_operation \<Rightarrow> (string, unit) result"

definition insert_attempt :: "control_db \<Rightarrow> string \<Rightarrow> attempt_run_row \<Rightarrow> (string, control_db) result" where
  "insert_attempt db i r = guarded (map_of (wb_attempts db) i = None \<and> map_of (wb_tasks db) (at_task r) \<noteq> None \<and> known (wb_attempts db) (at_predecessor r) \<and>
       list_all (\<lambda>(_, q). at_ordinal q = None \<or> (at_task q, at_ordinal q) \<noteq> (at_task r, at_ordinal r)) (wb_attempts db) \<and>
       list_all (\<lambda>(_, q). at_predecessor q = None \<or> at_predecessor q \<noteq> at_predecessor r) (wb_attempts db))
     (db\<lparr>wb_attempts := AList.update i r (wb_attempts db)\<rparr>)"

definition retry_failed_attempt ::
  "(string \<Rightarrow> string) \<Rightarrow> (int \<Rightarrow> string) \<Rightarrow> lineage_port \<Rightarrow> control_db \<Rightarrow> control_operation \<Rightarrow> target_kind \<Rightarrow> string \<Rightarrow> string control_tx" where
  "retry_failed_attempt sha isofmt lp db x kind tid =
     (case (if kind = ATTEMPT_TARGET then map_of (wb_attempts db) tid else None, op_successor x) of
        (Some r, Some new) \<Rightarrow>
          if ct_state r \<noteq> ''FAILED'' then Inl ''ATTEMPT_NOT_RETRYABLE''
          else (case at_ordinal r of None \<Rightarrow> Inl ''ATTEMPT_ORDINAL_REQUIRED''
          | Some n \<Rightarrow> if n = 0 then Inl ''ATTEMPT_ORDINAL_REQUIRED''
            else rbind (lp_prepare lp x r) (\<lambda>l.
              if (case l of None \<Rightarrow> False | Some (m, _) \<Rightarrow> m \<noteq> n + 1) then Inl ''ATTEMPT_ORDINAL_MISMATCH''
              else rbind (insert_attempt db new \<lparr>ct_state = ''PENDING'', ct_version = 1, at_task = at_task r, at_ordinal = Some (n + 1), at_predecessor = Some tid,
                  at_digest = (case l of None \<Rightarrow> operation_digest sha isofmt x | Some (_, dg, _) \<Rightarrow> dg),
                  at_record = (case l of None \<Rightarrow> op_payload x | Some (_, _, rec) \<Rightarrow> rec)\<rparr>) (\<lambda>db1.
                if l = None then Inr (db1, new) else rbind (lp_append lp x) (\<lambda>_. Inr (db1, new)))))
      | _ \<Rightarrow> Inl ''ATTEMPT_NOT_RETRYABLE'')"

definition insert_run :: "control_db \<Rightarrow> string \<Rightarrow> run_row \<Rightarrow> (string, control_db) result" where
  "insert_run db i r = guarded (map_of (wb_runs db) i = None \<and> ct_state r \<in> set (CONTROL_STATES RUN_TARGET) \<and> run_binding_ok r \<and>
       rn_assignment r \<in> set (wb_assignments db) \<and> known (wb_runs db) (rn_predecessor r) \<and> known (wb_runs db) (rn_correction r) \<and>
       (case (rn_plan r, rn_plan_version r) of (Some p, Some v) \<Rightarrow> map_of (wb_plans db) (p, v) \<noteq> None | _ \<Rightarrow> True) \<and>
       list_all (\<lambda>(_, q). rn_predecessor q = None \<or> rn_predecessor q \<noteq> rn_predecessor r) (wb_runs db))
     (db\<lparr>wb_runs := AList.update i r (wb_runs db)\<rparr>)"

definition create_successor_run :: "control_db \<Rightarrow> control_operation \<Rightarrow> target_kind \<Rightarrow> string \<Rightarrow> string control_tx" where
  "create_successor_run db x kind tid =
     (case (if kind = RUN_TARGET then map_of (wb_runs db) tid else None, op_successor x) of
        (Some r, Some new) \<Rightarrow>
          if ct_state r \<notin> {''SUCCEEDED'', ''FAILED'', ''CANCELLED''} then Inl ''RUN_NOT_RERUNNABLE''
          else (case (rn_plan r, rn_plan_version r) of
            (Some i, Some v) \<Rightarrow> (case map_of (wb_plans db) (i, v) of
                None \<Rightarrow> Inl ''EXACT_APPROVED_PLAN_REQUIRED''
              | Some p \<Rightarrow> if pn_status p \<noteq> APPROVED \<or> rn_plan_digest r \<noteq> Some (pn_digest p) then Inl ''EXACT_APPROVED_PLAN_REQUIRED''
                  else rbind (insert_run db new \<lparr>ct_state = ''PENDING'', ct_version = 1, rn_assignment = rn_assignment r, rn_revision = pn_definition_revision p,
                      rn_plan = rn_plan r, rn_plan_version = rn_plan_version r, rn_plan_digest = rn_plan_digest r, rn_predecessor = Some tid, rn_correction = None,
                      rn_record = op_payload x\<rparr>) (\<lambda>db1. Inr (db1, new)))
          | _ \<Rightarrow> Inl ''EXACT_APPROVED_PLAN_REQUIRED'')
      | _ \<Rightarrow> Inl ''RUN_NOT_RERUNNABLE'')"

definition application_transition :: "control_operation \<Rightarrow> string \<Rightarrow> string \<Rightarrow> int \<Rightarrow> intervention_state \<Rightarrow> intervention_state \<Rightarrow> intervention_transition" where
  "application_transition x i tid n s t = \<lparr>tr_id = tid, tr_intervention = i, tr_ordinal = n, tr_from = Some s, tr_to = t, tr_actor = op_actor x,
     tr_basis = ''authorized-decision'', tr_reason = ''OPERATIONAL_RECOVERY'', tr_at = op_requested_at x\<rparr>"

definition apply_decision ::
  "control_db \<Rightarrow> control_operation \<Rightarrow> string \<Rightarrow> intervention_state \<Rightarrow> int \<Rightarrow> target_kind \<Rightarrow> string \<Rightarrow> string \<Rightarrow> (int \<times> int \<times> string) control_tx" where
  "apply_decision db x i current ordinal kind tid state =
     (if current \<noteq> I_AUTHORIZED \<or> \<not> list_ex (\<lambda>d. dn_intervention d = i \<and> dn_decision d = ''AUTHORIZE'') (wb_decisions db)
        then Inl ''APPROVED_DECISION_REQUIRED''
      else rbind (advance db (application_transition x i (either (op_transition x) (op_command_id x @ '':application-pending'')) (ordinal + 1)
          I_AUTHORIZED I_APPLICATION_PENDING)) (\<lambda>db1.
        case map_of (op_payload x) ''target_state'' of
          Some (JStr s) \<Rightarrow>
            if \<not> target_allows kind state s then Inl ''INVALID_TARGET_STATE_TRANSITION''
            else rbind (move_target db1 kind tid s (op_expected_version x)) (\<lambda>(db2, n).
              rbind (advance db2 (application_transition x i (op_command_id x @ '':applied'') (ordinal + 2) I_APPLICATION_PENDING I_APPLIED)) (\<lambda>db3.
              Inr (db3, n, ordinal + 2, op_command_id x @ '':applied'')))
        | _ \<Rightarrow> Inl ''INVALID_TARGET_STATE_TRANSITION''))"

subsection \<open>Facts of an operation\<close>

definition PROHIBITED_KEYS :: "string list" where
  "PROHIBITED_KEYS = [''prompt'', ''credentials'', ''credential'', ''request_body'', ''logs'', ''log'', ''diagnostic_text'', ''secret'', ''token'']"

definition has_substring :: "string \<Rightarrow> string \<Rightarrow> bool" where
  "has_substring t s = list_ex (\<lambda>n. take (length t) (drop n s) = t) [0..<Suc (length s)]"

fun disclosure_safe :: "json \<Rightarrow> bool" where
  "disclosure_safe (JObj d) = (\<not> list_ex (\<lambda>(k, _). list_ex (\<lambda>t. has_substring t (map to_lower k)) PROHIBITED_KEYS) d \<and> list_all (\<lambda>(_, v). disclosure_safe v) d)"
| "disclosure_safe (JList xs) = list_all disclosure_safe xs"
| "disclosure_safe _ = True"

definition insert_evidence :: "(string \<Rightarrow> string) \<Rightarrow> control_db \<Rightarrow> evidence_entry \<Rightarrow> (string, control_db) result" where
  "insert_evidence sha db y =
     (if \<not> disclosure_safe (JObj (ey_record y)) \<or> ey_bytes y \<noteq> ascii_json (JObj (ey_record y)) \<or> ey_digest y \<noteq> sha (ascii_json (JObj (ey_record y)))
        then Inl ''INVALID_MINIMUM_DISCLOSURE_EVIDENCE''
      else guarded (map_of (wb_evidence db) (ey_id y) = None \<and> 0 < ey_attempt_ordinal y \<and> 0 < ey_event_ordinal y)
        (db\<lparr>wb_evidence := AList.update (ey_id y) y (wb_evidence db)\<rparr>))"

text \<open>The run, task run and attempt that an outcome of a target belongs to.\<close>

definition outcome_place :: "control_db \<Rightarrow> target_kind \<Rightarrow> string \<Rightarrow> (string \<times> string option \<times> string option) option" where
  "outcome_place db kind tid = (case kind of
     RUN_TARGET \<Rightarrow> Some (tid, None, None)
   | TASK_TARGET \<Rightarrow> map_option (\<lambda>r. (tk_run r, Some tid, None)) (map_of (wb_tasks db) tid)
   | ATTEMPT_TARGET \<Rightarrow> (case map_of (wb_attempts db) tid of None \<Rightarrow> None
       | Some a \<Rightarrow> map_option (\<lambda>r. (tk_run r, Some (at_task a), Some tid)) (map_of (wb_tasks db) (at_task a))))"

definition insert_outcome ::
  "(string \<Rightarrow> string) \<Rightarrow> control_operation \<Rightarrow> target_kind \<Rightarrow> string \<Rightarrow> control_db \<Rightarrow> outcome_entry \<Rightarrow> (string, control_db) result" where
  "insert_outcome sha x kind tid db y =
     (if \<not> disclosure_safe (JObj (oy_record y)) \<or> oy_digest y \<noteq> canonical_digest sha (JObj (oy_record y))
        then Inl ''INVALID_MINIMUM_DISCLOSURE_OUTCOME''
      else if oy_target y \<noteq> tid \<or> Some (oy_state y) \<noteq> op_terminal_state x then Inl ''ACTUAL_TERMINAL_RESULT_REQUIRED''
      else case outcome_place db kind tid of None \<Rightarrow> Inl ''TypeError''
      | Some (run, task, att) \<Rightarrow> guarded (map_of (wb_outcomes db) (oy_id y) = None \<and> map_of (wb_runs db) run \<noteq> None)
          (db\<lparr>wb_outcomes := AList.update (oy_id y) \<lparr>oc_run = run, oc_task = task, oc_attempt = att, oc_entry = y\<rparr> (wb_outcomes db)\<rparr>))"

fun each_fact :: "(control_db \<Rightarrow> 'y \<Rightarrow> (string, control_db) result) \<Rightarrow> control_db \<Rightarrow> 'y list \<Rightarrow> (string, control_db) result" where
  "each_fact f db [] = Inr db"
| "each_fact f db (y # ys) = rbind (f db y) (\<lambda>db'. each_fact f db' ys)"

definition create_operation_facts ::
  "(string \<Rightarrow> string) \<Rightarrow> control_db \<Rightarrow> control_operation \<Rightarrow> target_kind \<Rightarrow> string \<Rightarrow> (string, control_db) result" where
  "create_operation_facts sha db x kind tid =
     (if op_outcomes x \<noteq> [] \<and> op_command x \<noteq> COMPLETE_EXECUTION_WITH_OUTCOME then Inl ''OUTCOME_ONLY_FOR_TERMINAL_COMPLETION''
      else rbind (each_fact (insert_evidence sha) db (op_evidence x)) (\<lambda>db1. each_fact (insert_outcome sha x kind tid) db1 (op_outcomes x)))"

definition evidence_of :: "control_operation \<Rightarrow> string list" where
  "evidence_of x = op_evidence_ids x @ map ey_id (op_evidence x)"

definition outcomes_of :: "control_operation \<Rightarrow> string list" where
  "outcomes_of x = op_outcome_ids x @ map oy_id (op_outcomes x)"

definition fact_links :: "control_operation \<Rightarrow> string \<Rightarrow> int \<Rightarrow> string list \<Rightarrow> fact_link list" where
  "fact_links x i n ids = map (\<lambda>(k, e). \<lparr>fl_intervention = i, fl_transition = n, fl_command = op_command_id x, fl_ordinal = k, fl_fact = e\<rparr>) (enumerate 1 ids)"

definition link_operation_facts :: "control_db \<Rightarrow> control_operation \<Rightarrow> string \<Rightarrow> int \<Rightarrow> (string, control_db) result" where
  "link_operation_facts db x i n = guarded (list_all (\<lambda>e. map_of (wb_evidence db) e \<noteq> None) (evidence_of x) \<and>
       list_all (\<lambda>e. map_of (wb_outcomes db) e \<noteq> None) (outcomes_of x))
     (db\<lparr>wb_evidence_links := wb_evidence_links db @ fact_links x i n (evidence_of x),
        wb_outcome_links := wb_outcome_links db @ fact_links x i n (outcomes_of x)\<rparr>)"

definition insert_command :: "control_db \<Rightarrow> string \<Rightarrow> command_row \<Rightarrow> (string, control_db) result" where
  "insert_command db i c = guarded (map_of (wb_commands db) i = None \<and>
       list_ex (\<lambda>t. tr_intervention t = cm_intervention c \<and> tr_ordinal t = cm_ordinal c) (wb_transitions db) \<and> 0 < cm_expected_version c \<and>
       target_known db (cm_target c) \<and> known (wb_plans db) (cm_plan c) \<and> known (wb_runs db) (cm_run c) \<and> known (wb_attempts db) (cm_attempt c) \<and>
       known (wb_attempts db) (cm_affected c) \<and> known (wb_runtime_commands db) (cm_runtime_command c) \<and> known (wb_placements db) (cm_placement c))
     (db\<lparr>wb_commands := AList.update i c (wb_commands db)\<rparr>)"

subsection \<open>One operation in one transaction\<close>

definition claim_of :: "control_operation \<Rightarrow> claim_key" where
  "claim_of x = (op_actor x, command_value (op_command x), op_key x)"

definition requested_id :: "control_operation \<Rightarrow> string \<Rightarrow> string" where
  "requested_id x i = either (op_transition x) (i @ '':requested'')"

definition open_requested :: "control_db \<Rightarrow> control_operation \<Rightarrow> string \<Rightarrow> (string, control_db) result" where
  "open_requested db x i =
     (if op_command x \<noteq> REQUEST_INTERVENTION then Inr db
      else case op_request x of None \<Rightarrow> Inl ''EXACT_INTERVENTION_REQUEST_REQUIRED''
      | Some q \<Rightarrow> if iq_id q \<noteq> i \<or> iq_target q \<noteq> op_target x \<or> iq_expected_version q \<noteq> op_expected_version x
          then Inl ''EXACT_INTERVENTION_REQUEST_REQUIRED'' else open_intervention db q (requested_id x i))"

definition review_step :: "control_db \<Rightarrow> control_operation \<Rightarrow> string \<Rightarrow> intervention_row \<Rightarrow> (string, control_db) result" where
  "review_step db x i r = (case op_review x of None \<Rightarrow> Inr db
     | Some v \<Rightarrow> if rv_intervention v \<noteq> i \<or> iv_state r \<noteq> I_REQUESTED then Inl ''INTERVENTION_NOT_REVIEWABLE'' else insert_review db v)"

text \<open>The state of the intervention, the ordinal and the identity of its transition after a decision, if there is one.\<close>

definition decision_step ::
  "control_db \<Rightarrow> control_operation \<Rightarrow> string \<Rightarrow> intervention_row \<Rightarrow> (intervention_state \<times> int \<times> string option) control_tx" where
  "decision_step db x i r = (case op_decision x of
     None \<Rightarrow> Inr (db, iv_state r, iv_version r, op_transition x)
   | Some d \<Rightarrow>
       if (case op_review x of None \<Rightarrow> False | Some v \<Rightarrow> dn_review d \<noteq> rv_id v) \<or> dn_intervention d \<noteq> i \<or> iv_state r \<noteq> I_REQUESTED \<or>
          \<not> list_ex (\<lambda>v. rv_intervention v = i \<and> rv_id v = dn_review d) (wb_reviews db)
         then Inl ''INTERVENTION_NOT_DECIDABLE''
       else rbind (insert_decision db d) (\<lambda>db1. rbind (advance db1 (decision_transition d (iv_version r + 1))) (\<lambda>db2.
         Inr (db2, decision_state d, iv_version r + 1, Some (dn_id d)))))"

definition transition_at :: "control_db \<Rightarrow> string \<Rightarrow> int \<Rightarrow> string option" where
  "transition_at db i n = map_option tr_id (find (\<lambda>t. tr_intervention t = i \<and> tr_ordinal t = n) (wb_transitions db))"

definition latest_transition :: "control_db \<Rightarrow> string \<Rightarrow> (string \<times> int) option" where
  "latest_transition db i = (case rev (read_transitions db i) of [] \<Rightarrow> None | t # _ \<Rightarrow> Some (tr_id t, tr_ordinal t))"

definition run_command ::
  "(string \<Rightarrow> string) \<Rightarrow> (int \<Rightarrow> string) \<Rightarrow> lineage_port \<Rightarrow> control_db \<Rightarrow> control_operation \<Rightarrow> string \<Rightarrow> intervention_row \<Rightarrow> intervention_state
   \<Rightarrow> target_kind \<Rightarrow> string \<Rightarrow> string \<Rightarrow> op_progress \<Rightarrow> op_progress control_tx" where
  "run_command sha isofmt lp db x i r current kind tid state pg =
     (case op_command x of
        APPROVE_AND_CONTINUE \<Rightarrow> rbind (persist_plan_operation db x kind tid state (pg_version pg)) (\<lambda>(db', n, a). Inr (db', pg\<lparr>pg_version := n, pg_approval := Some a\<rparr>))
      | REJECT_PLAN \<Rightarrow> rbind (persist_plan_operation db x kind tid state (pg_version pg)) (\<lambda>(db', n, a). Inr (db', pg\<lparr>pg_version := n, pg_approval := Some a\<rparr>))
      | CORRECT_PLAN \<Rightarrow> rbind (persist_correction db x) (\<lambda>(db', k). Inr (db', pg\<lparr>pg_plan := Some k\<rparr>))
      | REQUEST_INTERVENTION \<Rightarrow>
          if op_request x = None \<or> current \<noteq> I_REQUESTED then Inl ''EXACT_INTERVENTION_REQUEST_REQUIRED''
          else Inr (db, pg\<lparr>pg_ordinal := 1, pg_transition := Some (requested_id x i)\<rparr>)
      | REVIEW_INTERVENTION \<Rightarrow>
          if op_review x = None \<or> current \<noteq> I_REQUESTED then Inl ''INTERVENTION_NOT_REVIEWABLE''
          else (case transition_at db i (iv_version r) of None \<Rightarrow> Inl ''INTERVENTION_TRANSITION_REQUIRED''
            | Some t \<Rightarrow> Inr (db, pg\<lparr>pg_ordinal := iv_version r, pg_transition := Some t\<rparr>))
      | RETRY_ATTEMPT \<Rightarrow> rbind (retry_failed_attempt sha isofmt lp db x kind tid) (\<lambda>(db', a). Inr (db', pg\<lparr>pg_attempt := Some a\<rparr>))
      | CREATE_SUCCESSOR_RUN \<Rightarrow> rbind (create_successor_run db x kind tid) (\<lambda>(db', a). Inr (db', pg\<lparr>pg_run := Some a\<rparr>))
      | REPLACE_RUNTIME \<Rightarrow> rbind (validate_runtime_replacement db x kind tid) (\<lambda>c. Inr (db, pg\<lparr>pg_runtime := Some c\<rparr>))
      | CANCEL_CONTROLLED_EXECUTION \<Rightarrow>
          if state \<in> set TERMINAL_TARGETS then Inl ''TERMINAL_TARGET_IMMUTABLE''
          else rbind (move_target db kind tid ''CANCELLATION_PENDING'' (op_expected_version x)) (\<lambda>(db', n). Inr (db', pg\<lparr>pg_version := n\<rparr>))
      | COMPLETE_EXECUTION_WITH_OUTCOME \<Rightarrow> rbind (complete_terminal_target db x kind tid state) (\<lambda>(db', n). Inr (db', pg\<lparr>pg_version := n\<rparr>))
      | APPLY_INTERVENTION_DECISION \<Rightarrow> rbind (apply_decision db x i current (pg_ordinal pg) kind tid state) (\<lambda>(db', n, o', t).
          Inr (db', pg\<lparr>pg_version := n, pg_ordinal := o', pg_transition := Some t\<rparr>)))"

definition command_entry :: "(string \<Rightarrow> string) \<Rightarrow> (int \<Rightarrow> string) \<Rightarrow> control_operation \<Rightarrow> string \<Rightarrow> target_kind \<Rightarrow> string \<Rightarrow> op_progress \<Rightarrow> (string, json) dict \<Rightarrow> command_row" where
  "command_entry sha isofmt x i kind tid pg rec = \<lparr>cm_type = command_value (op_command x), cm_intervention = i, cm_ordinal = pg_ordinal pg, cm_target = op_target x,
     cm_expected_version = op_expected_version x, cm_plan = pg_plan pg, cm_run = pg_run pg, cm_attempt = pg_attempt pg,
     cm_affected = (case op_affected_attempt x of Some a \<Rightarrow> (if a = [] then (if kind = ATTEMPT_TARGET then Some tid else None) else Some a)
       | None \<Rightarrow> if kind = ATTEMPT_TARGET then Some tid else None),
     cm_runtime_command = pg_runtime pg, cm_placement = op_placement x, cm_digest = operation_digest sha isofmt x, cm_record = op_payload x,
     cm_requested_at = op_requested_at x, cm_result = Some rec\<rparr>"

definition operation_answer :: "control_operation \<Rightarrow> string \<Rightarrow> string \<Rightarrow> op_progress \<Rightarrow> operation_result" where
  "operation_answer x i tid pg = \<lparr>or_replayed = False, or_command = op_command x, or_command_id = op_command_id x, or_target = tid, or_version = pg_version pg,
     or_intervention = Some i, or_transition = pg_transition pg, or_approval = pg_approval pg, or_attempt = pg_attempt pg, or_run = pg_run pg,
     or_runtime_command = pg_runtime pg, or_plan = map_option fst (pg_plan pg), or_plan_version = map_option snd (pg_plan pg),
     or_evidence = evidence_of x, or_outcomes = outcomes_of x\<rparr>"

text \<open>The command with its facts and links, and the completed claim.\<close>

definition record_operation ::
  "(string \<Rightarrow> string) \<Rightarrow> (int \<Rightarrow> string) \<Rightarrow> control_db \<Rightarrow> control_operation \<Rightarrow> string \<Rightarrow> target_kind \<Rightarrow> string \<Rightarrow> op_progress \<Rightarrow> operation_result control_tx" where
  "record_operation sha isofmt db x i kind tid pg =
     rbind (case pg_transition pg of Some t \<Rightarrow> Inr pg
       | None \<Rightarrow> (case latest_transition db i of None \<Rightarrow> Inl ''INTERVENTION_TRANSITION_REQUIRED''
           | Some (t, n) \<Rightarrow> Inr (pg\<lparr>pg_transition := Some t, pg_ordinal := n\<rparr>))) (\<lambda>pg.
     rbind (create_operation_facts sha db x kind tid) (\<lambda>db1.
     let ans = operation_answer x i tid pg; rec = operation_record ans in
     rbind (insert_command db1 (op_command_id x) (command_entry sha isofmt x i kind tid pg rec)) (\<lambda>db2.
     rbind (link_operation_facts db2 x i (pg_ordinal pg)) (\<lambda>db3.
     Inr (db3\<lparr>wb_claims := AList.update (claim_of x) \<lparr>cl_digest = operation_digest sha isofmt x, cl_completed = True,
       cl_command = Some (op_command_id x), cl_intervention = Some i, cl_identity = Some (op_command_id x), cl_result = Some rec\<rparr> (wb_claims db3)\<rparr>, ans)))))"

definition new_operation ::
  "(string \<Rightarrow> string) \<Rightarrow> (int \<Rightarrow> string) \<Rightarrow> lineage_port \<Rightarrow> control_db \<Rightarrow> control_operation \<Rightarrow> target_kind \<Rightarrow> string \<Rightarrow> operation_result control_tx" where
  "new_operation sha isofmt lp db x kind tid =
     (case op_intervention x of None \<Rightarrow> Inl ''INTERVENTION_REQUIRED''
      | Some i \<Rightarrow>
     rbind (open_requested db x i) (\<lambda>db1.
     case map_of (wb_interventions db1) i of None \<Rightarrow> Inl ''INTERVENTION_REQUIRED''
     | Some r \<Rightarrow>
     if target_values (iq_target (iv_request r)) \<noteq> target_values (op_target x) then Inl ''INTERVENTION_TARGET_MISMATCH''
     else rbind (review_step db1 x i r) (\<lambda>db2.
     rbind (decision_step db2 x i r) (\<lambda>(db3, current, ordinal, transition).
     case target_row db3 kind tid of None \<Rightarrow> Inl ''STALE_AGGREGATE_VERSION''
     | Some (state, version) \<Rightarrow>
     if version \<noteq> op_expected_version x then Inl ''STALE_AGGREGATE_VERSION''
     else rbind (run_command sha isofmt lp db3 x i r current kind tid state \<lparr>pg_ordinal = ordinal, pg_transition = transition, pg_version = version,
         pg_approval = None, pg_attempt = None, pg_run = None, pg_runtime = None, pg_plan = None\<rparr>) (\<lambda>(db4, pg).
       record_operation sha isofmt db4 x i kind tid pg)))))"

definition persist_operation ::
  "(string \<Rightarrow> string) \<Rightarrow> (int \<Rightarrow> string) \<Rightarrow> lineage_port \<Rightarrow> control_db \<Rightarrow> control_operation \<Rightarrow> bool \<Rightarrow> operation_result control_tx" where
  "persist_operation sha isofmt lp db x authorized =
     (if \<not> authorized then Inl ''NOT_AUTHORIZED''
      else if op_evidence x = [] then Inl ''OPERATION_EVIDENCE_REQUIRED''
      else case target_of (op_target x) of None \<Rightarrow> Inl ''StopIteration''
      | Some (kind, tid) \<Rightarrow>
          (case map_of (wb_claims db) (claim_of x) of
             Some c \<Rightarrow>
               if cl_digest c \<noteq> operation_digest sha isofmt x then Inl ''IDEMPOTENCY_PAYLOAD_MISMATCH''
               else if \<not> cl_completed c then Inl ''COMMAND_IN_PROGRESS''
               else rbind (operation_result_of (case cl_result c of None \<Rightarrow> [] | Some d \<Rightarrow> d) True) (\<lambda>a. Inr (db, a))
           | None \<Rightarrow> new_operation sha isofmt lp (db\<lparr>wb_claims := AList.update (claim_of x)
               \<lparr>cl_digest = operation_digest sha isofmt x, cl_completed = False, cl_command = None, cl_intervention = None, cl_identity = None, cl_result = None\<rparr>
               (wb_claims db)\<rparr>) x kind tid))"

subsection \<open>The atomic command\<close>

text \<open>
  \<open>persist\<close>, the entry point before operations: it opens an intervention, moves its target and applies it in one transaction. The rows it links evidence and
  outcomes with lack the identity of the command, which migration 0011 requires, so that a command that names any fails. What it stores for a replay is the
  version of the target, as text. A successor plan is one of the scope of the command.
\<close>

record atomic_command =
  ac_type :: string
  ac_key :: string
  ac_digest :: string
  ac_request :: intervention_request
  ac_transition :: intervention_transition
  ac_command_id :: string
  ac_target_state :: string
  ac_record :: "(string, json) dict"
  ac_retain_until :: int
  ac_evidence_ids :: "string list"
  ac_outcome_ids :: "string list"
  ac_evidence :: "evidence_entry list"
  ac_outcomes :: "outcome_entry list"
  ac_plan :: "plan_record option"
  ac_run :: "(string \<times> run_row) option"

record atomic_result =
  ar_replayed :: bool
  ar_intervention :: "string option"
  ar_transition :: string
  ar_command :: "string option"
  ar_version :: int

text \<open>\<open>int(s)\<close>: surrounding white space, a sign, and single underscores between the digits.\<close>

definition is_decimal :: "char \<Rightarrow> bool" where
  "is_decimal c = (c \<in> set ''0123456789'')"

definition decimal_value :: "char \<Rightarrow> int" where
  "decimal_value c = int (of_char c) - 48"

fun decimal_tail :: "int \<Rightarrow> string \<Rightarrow> int option" where
  "decimal_tail n [] = Some n"
| "decimal_tail n [c] = (if is_decimal c then Some (10 * n + decimal_value c) else None)"
| "decimal_tail n (c # d # s) = (if is_decimal c then decimal_tail (10 * n + decimal_value c) (d # s)
     else if c = CHR ''_'' \<and> is_decimal d then decimal_tail (10 * n + decimal_value d) s else None)"

definition py_int :: "string \<Rightarrow> int option" where
  "py_int s = (let u = strip s; v = drop_sign u in
     if v \<noteq> [] \<and> is_decimal (hd v) then map_option (\<lambda>n. if hd u = CHR ''-'' then - n else n) (decimal_tail 0 v) else None)"

definition atomic_key :: "atomic_command \<Rightarrow> claim_key" where
  "atomic_key c = (iq_actor (ac_request c), ac_type c, ac_key c)"

definition replayed_command :: "claim_row \<Rightarrow> atomic_command \<Rightarrow> (string, atomic_result) result" where
  "replayed_command r c =
     (if cl_digest r \<noteq> ac_digest c then Inl ''IDEMPOTENCY_PAYLOAD_MISMATCH''
      else if \<not> cl_completed r then Inl ''COMMAND_IN_PROGRESS''
      else case cl_identity r of None \<Rightarrow> Inl ''TypeError''
      | Some s \<Rightarrow> (case py_int s of None \<Rightarrow> Inl ''ValueError''
        | Some n \<Rightarrow> Inr \<lparr>ar_replayed = True, ar_intervention = cl_intervention r, ar_transition = tr_id (ac_transition c), ar_command = cl_command r,
            ar_version = n\<rparr>))"

definition atomic_requested :: "atomic_command \<Rightarrow> intervention_transition" where
  "atomic_requested c = (ac_transition c)\<lparr>tr_id := iq_id (ac_request c) @ '':requested'', tr_ordinal := 1, tr_from := None, tr_to := I_REQUESTED\<rparr>"

definition atomic_applied :: "atomic_command \<Rightarrow> intervention_transition" where
  "atomic_applied c = (ac_transition c)\<lparr>tr_ordinal := 2, tr_from := Some I_REQUESTED\<rparr>"

definition atomic_entry :: "atomic_command \<Rightarrow> command_row" where
  "atomic_entry c = \<lparr>cm_type = ac_type c, cm_intervention = iq_id (ac_request c), cm_ordinal = 2, cm_target = iq_target (ac_request c),
     cm_expected_version = iq_expected_version (ac_request c), cm_plan = map_option plan_key (ac_plan c), cm_run = map_option fst (ac_run c), cm_attempt = None,
     cm_affected = None, cm_runtime_command = None, cm_placement = None, cm_digest = ac_digest c, cm_record = ac_record c,
     cm_requested_at = iq_at (ac_request c), cm_result = None\<rparr>"

definition atomic_successors :: "control_db \<Rightarrow> atomic_command \<Rightarrow> (string, control_db) result" where
  "atomic_successors db c = rbind (case ac_plan c of None \<Rightarrow> Inr db | Some p \<Rightarrow> insert_plan_row db (plan_columns p)) (\<lambda>db1.
     case ac_run c of None \<Rightarrow> Inr db1 | Some (i, r) \<Rightarrow> insert_run db1 i (r\<lparr>ct_version := 1\<rparr>))"

definition atomic_move :: "control_db \<Rightarrow> atomic_command \<Rightarrow> int control_tx" where
  "atomic_move db c = (let q = ac_request c in case target_of (iq_target q) of
     None \<Rightarrow> Inl ''StopIteration''
   | Some (kind, tid) \<Rightarrow> (case target_row db kind tid of
       None \<Rightarrow> Inl ''STALE_AGGREGATE_VERSION''
     | Some (state, version) \<Rightarrow>
         if version \<noteq> iq_expected_version q then Inl ''STALE_AGGREGATE_VERSION''
         else if \<not> target_allows kind state (ac_target_state c) then Inl ''INVALID_TARGET_STATE_TRANSITION''
         else move_target db kind tid (ac_target_state c) (iq_expected_version q)))"

definition new_command :: "control_db \<Rightarrow> atomic_command \<Rightarrow> atomic_result control_tx" where
  "new_command db c = (let q = ac_request c; i = iq_id q; applied = atomic_applied c in
     rbind (insert_request db q) (\<lambda>db1.
     rbind (insert_transition db1 (atomic_requested c)) (\<lambda>db2.
     rbind (atomic_move db2 c) (\<lambda>(db3, version).
     if tr_to applied \<notin> set (TRANSITIONS (tr_from applied)) then Inl ''INVALID_INTERVENTION_TRANSITION''
     else rbind (insert_transition db3 applied) (\<lambda>db4.
     rbind (atomic_successors (set_intervention db4 i (tr_to applied) 2) c) (\<lambda>db5.
     rbind (guarded (ac_evidence_ids c = [] \<and> ac_evidence c = [] \<and> ac_outcome_ids c = [] \<and> ac_outcomes c = []) db5) (\<lambda>db6.
     rbind (insert_command db6 (ac_command_id c) (atomic_entry c)) (\<lambda>db7.
     case map_of (wb_interventions db7) i of
       None \<Rightarrow> Inl ''AUTHORITATIVE_READBACK_MISMATCH''
     | Some r \<Rightarrow>
         if iv_state r \<noteq> tr_to applied then Inl ''AUTHORITATIVE_READBACK_MISMATCH''
         else Inr (db7\<lparr>wb_claims := AList.update (atomic_key c) \<lparr>cl_digest = ac_digest c, cl_completed = True, cl_command = Some (ac_command_id c),
             cl_intervention = Some i, cl_identity = Some (show_int version), cl_result = None\<rparr> (wb_claims db7)\<rparr>,
           \<lparr>ar_replayed = False, ar_intervention = Some i, ar_transition = tr_id applied, ar_command = Some (ac_command_id c), ar_version = version\<rparr>)))))))))"

definition persist :: "control_db \<Rightarrow> atomic_command \<Rightarrow> bool \<Rightarrow> atomic_result control_tx" where
  "persist db c authorized =
     (if \<not> authorized then Inl ''NOT_AUTHORIZED''
      else case map_of (wb_claims db) (atomic_key c) of
        Some r \<Rightarrow> rbind (replayed_command r c) (\<lambda>a. Inr (db, a))
      | None \<Rightarrow> rbind (guarded (length (ac_digest c) = 64) (db\<lparr>wb_claims := AList.update (atomic_key c) \<lparr>cl_digest = ac_digest c, cl_completed = False, cl_command = None,
            cl_intervention = None, cl_identity = None, cl_result = None\<rparr> (wb_claims db)\<rparr>)) (\<lambda>db'. new_command db' c))"

subsection \<open>Reads\<close>

definition read_approvals :: "control_db \<Rightarrow> string \<Rightarrow> int \<Rightarrow> approval_decision list" where
  "read_approvals db i v = sort_key (\<lambda>a. (ap_ordinal a, ap_id a)) (filter (\<lambda>a. ap_plan a = i \<and> ap_plan_version a = v) (wb_approvals db))"

definition read_successor_plans :: "control_db \<Rightarrow> string \<Rightarrow> int \<Rightarrow> plan_record list" where
  "read_successor_plans db i v = sort_key (\<lambda>p. (pn_version p, pn_id p)) (filter (\<lambda>p. predecessor_key p = Some (i, v)) (map snd (wb_plans db)))"

definition read_linked_evidence :: "control_db \<Rightarrow> string \<Rightarrow> string list" where
  "read_linked_evidence db i = map fl_fact (sort_key (\<lambda>l. (fl_transition l, fl_ordinal l, fl_fact l)) (filter (\<lambda>l. fl_intervention l = i) (wb_evidence_links db)))"

definition read_linked_outcomes :: "control_db \<Rightarrow> string \<Rightarrow> string list" where
  "read_linked_outcomes db i = map fl_fact (sort_key (\<lambda>l. (fl_transition l, fl_ordinal l, fl_fact l)) (filter (\<lambda>l. fl_intervention l = i) (wb_outcome_links db)))"

definition compare_and_swap_target :: "control_db \<Rightarrow> target_kind \<Rightarrow> string \<Rightarrow> string \<Rightarrow> int \<Rightarrow> int control_tx" where
  "compare_and_swap_target db kind i s expected = move_target db kind i s expected"

definition lookup_idempotency :: "control_db \<Rightarrow> string \<Rightarrow> string \<Rightarrow> string \<Rightarrow> claim_row option" where
  "lookup_idempotency db actor command key = map_of (wb_claims db) (actor, command, key)"

definition read_pending_commands :: "control_db \<Rightarrow> (string \<times> command_row) list" where
  "read_pending_commands db = sort_key (\<lambda>(i, c). (cm_requested_at c, i)) (filter (\<lambda>(_, c). cm_runtime_command c = None) (wb_commands db))"

definition read_successor_runs :: "control_db \<Rightarrow> string \<Rightarrow> string list" where
  "read_successor_runs db i = sort (map fst (filter (\<lambda>(_, r). rn_predecessor r = Some i \<or> rn_correction r = Some i) (wb_runs db)))"

definition read_successor_attempts :: "control_db \<Rightarrow> string \<Rightarrow> string list" where
  "read_successor_attempts db i = map snd (sort (map (\<lambda>(a, r). (case at_ordinal r of None \<Rightarrow> 0 | Some n \<Rightarrow> n, a))
     (filter (\<lambda>(_, r). at_predecessor r = Some i) (wb_attempts db))))"

end
