(* ===== verification/Workflow_Control_Safety.thy ===== *)
theory Workflow_Control_Safety
  imports Workflow_Control
begin

text \<open>
  Safety of Workflow Control, over any sequence of transactions of its repository (\<open>control_step\<close>), between which the runs, tasks and
  attempts change as their own repositories like: answers to an idempotency key are stable, the journal of an intervention is a
  chain of allowed transitions of the length of its version, a plan is decided at most once and its status agrees with the decision, and an operation
  moves only its own target and never a terminal one. Over the transactions that the services use (\<open>governed_step\<close>), journals are numbered
  without a gap, and approved and rejected plans have their decision; the last section shows that the repository alone does not enforce these two.
\<close>

subsection \<open>What the statements leave alone\<close>

text \<open>
  The tables whose invariants are at stake. The lemmas say which of them a statement changes; together they carry the
  proofs about whole operations.
\<close>

definition control_tables ::
  "control_db \<Rightarrow> (claim_key, claim_row) dict \<times> (string, intervention_row) dict \<times> intervention_transition list \<times> (string \<times> int, plan_record) dict \<times> approval_decision list" where
  "control_tables db = (wb_claims db, wb_interventions db, wb_transitions db, wb_plans db, wb_approvals db)"

definition target_tables :: "control_db \<Rightarrow> (string, run_row) dict \<times> (string, task_run_row) dict \<times> (string, attempt_run_row) dict" where
  "target_tables db = (wb_runs db, wb_tasks db, wb_attempts db)"

lemmas control_statements = insert_plan_row_def set_plan_def insert_approval_def insert_request_def insert_transition_def
  insert_review_def insert_decision_def insert_correction_def insert_attempt_def insert_run_def insert_evidence_def insert_outcome_def link_operation_facts_def
  insert_command_def

lemma move_target_tables: "move_target db k i s e = Inr (db', n) \<Longrightarrow> control_tables db' = control_tables db"
  by (auto simp: move_target_def control_tables_def split: option.splits prod.splits if_splits target_kind.splits)

lemma each_fact_keeps:
  "each_fact f db ys = Inr db' \<Longrightarrow> (\<And>d y d'. f d y = Inr d' \<Longrightarrow> g d' = g d) \<Longrightarrow> g db' = g db"
proof (induction ys arbitrary: db)
  case (Cons y ys)
  then obtain d where "f db y = Inr d" "each_fact f d ys = Inr db'" by auto
  then show ?case using Cons.IH [of d] Cons.prems(2) by metis
qed simp

lemma create_operation_facts_tables:
  assumes "create_operation_facts sha db x kind tid = Inr db'"
  shows "control_tables db' = control_tables db \<and> target_tables db' = target_tables db"
proof -
  let ?g = "\<lambda>d. (control_tables d, target_tables d)"
  have e: "?g d' = ?g d" if "insert_evidence sha d y = Inr d'" for d y d'
    using that by (auto simp: insert_evidence_def control_tables_def target_tables_def split: if_splits)
  have o: "?g d' = ?g d" if "insert_outcome sha x kind tid d y = Inr d'" for d y d'
    using that by (auto simp: insert_outcome_def control_tables_def target_tables_def split: if_splits option.splits)
  obtain d where d: "each_fact (insert_evidence sha) db (op_evidence x) = Inr d" "each_fact (insert_outcome sha x kind tid) d (op_outcomes x) = Inr db'"
    using assms by (auto simp: create_operation_facts_def split: if_splits)
  have "?g db' = ?g db" using each_fact_keeps [OF d(1), of ?g, OF e] each_fact_keeps [OF d(2), of ?g, OF o] by simp
  then show ?thesis by simp
qed

lemma link_operation_facts_tables:
  "link_operation_facts db x i n = Inr db' \<Longrightarrow> control_tables db' = control_tables db \<and> target_tables db' = target_tables db"
  by (auto simp: link_operation_facts_def control_tables_def target_tables_def)

lemma insert_command_tables:
  "insert_command db i c = Inr db' \<Longrightarrow> control_tables db' = control_tables db \<and> target_tables db' = target_tables db"
  by (auto simp: insert_command_def control_tables_def target_tables_def)

lemma retry_failed_attempt_tables: "retry_failed_attempt sha isofmt lp db x kind tid = Inr (db', a) \<Longrightarrow> control_tables db' = control_tables db"
  by (auto simp: retry_failed_attempt_def insert_attempt_def control_tables_def split: option.splits if_splits prod.splits)

lemma create_successor_run_tables: "create_successor_run db x kind tid = Inr (db', a) \<Longrightarrow> control_tables db' = control_tables db"
  by (auto simp: create_successor_run_def insert_run_def control_tables_def split: option.splits if_splits prod.splits)

lemma complete_terminal_target_tables: "complete_terminal_target db x kind tid state = Inr (db', n) \<Longrightarrow> control_tables db' = control_tables db"
  by (auto simp: complete_terminal_target_def split: option.splits if_splits dest: move_target_tables)

lemma run_command_tables:
  assumes "run_command sha isofmt lp db x i r current kind tid state pg = Inr (db', pg')"
  shows "wb_claims db' = wb_claims db"
    and "op_command x \<noteq> APPLY_INTERVENTION_DECISION \<Longrightarrow> wb_interventions db' = wb_interventions db \<and> wb_transitions db' = wb_transitions db"
    and "op_command x \<notin> {APPROVE_AND_CONTINUE, REJECT_PLAN, CORRECT_PLAN} \<Longrightarrow> wb_plans db' = wb_plans db \<and> wb_approvals db' = wb_approvals db"
proof -
  have plan: "control_tables d' = (wb_claims d, wb_interventions d, wb_transitions d, wb_plans d', wb_approvals d')"
    if "persist_plan_operation d x kind tid state v = Inr (d', n, a)" for d v d' n a
    using that by (auto simp: persist_plan_operation_def control_tables_def insert_approval_def set_plan_def Let_def
      split: option.splits prod.splits if_splits dest!: move_target_tables)
  have corr: "control_tables d' = (wb_claims d, wb_interventions d, wb_transitions d, wb_plans d', wb_approvals d)"
    if "persist_correction d x = Inr (d', k)" for d d' k
    using that by (auto simp: persist_correction_def control_tables_def insert_plan_row_def insert_correction_def set_plan_def
      split: option.splits prod.splits if_splits)
  have adv: "advance d t = Inr d' \<Longrightarrow> wb_claims d' = wb_claims d \<and> wb_plans d' = wb_plans d \<and> wb_approvals d' = wb_approvals d" for d t d'
    by (auto simp: advance_def insert_transition_def set_intervention_def split: option.splits)
  have app: "wb_claims d' = wb_claims d \<and> wb_plans d' = wb_plans d \<and> wb_approvals d' = wb_approvals d"
    if "apply_decision d x i current n kind tid state = Inr (d', m)" for d d' n m
    using that by (auto simp: apply_decision_def control_tables_def split: option.splits json.splits prod.splits if_splits dest!: move_target_tables adv)
  show "wb_claims db' = wb_claims db"
    using assms by (cases "op_command x") (auto simp: run_command_def control_tables_def split: if_splits option.splits
      dest!: plan corr app retry_failed_attempt_tables create_successor_run_tables complete_terminal_target_tables move_target_tables)
  show "wb_interventions db' = wb_interventions db \<and> wb_transitions db' = wb_transitions db" if "op_command x \<noteq> APPLY_INTERVENTION_DECISION"
    using assms that by (cases "op_command x") (auto simp: run_command_def control_tables_def split: if_splits option.splits
      dest!: plan corr retry_failed_attempt_tables create_successor_run_tables complete_terminal_target_tables move_target_tables)
  show "wb_plans db' = wb_plans db \<and> wb_approvals db' = wb_approvals db" if "op_command x \<notin> {APPROVE_AND_CONTINUE, REJECT_PLAN, CORRECT_PLAN}"
    using assms that by (cases "op_command x") (auto simp: run_command_def control_tables_def split: if_splits option.splits
      dest!: app retry_failed_attempt_tables create_successor_run_tables complete_terminal_target_tables move_target_tables)
qed

lemma open_requested_claims: "open_requested db x i = Inr db' \<Longrightarrow> wb_claims db' = wb_claims db"
  by (auto simp: open_requested_def open_intervention_def insert_request_def insert_transition_def split: if_splits option.splits)

lemma review_step_tables: "review_step db x i r = Inr db' \<Longrightarrow> control_tables db' = control_tables db \<and> target_tables db' = target_tables db"
  by (auto simp: review_step_def insert_review_def control_tables_def target_tables_def split: if_splits option.splits)

lemma decision_step_claims: "decision_step db x i r = Inr (db', q) \<Longrightarrow> wb_claims db' = wb_claims db"
  by (auto simp: decision_step_def insert_decision_def advance_def insert_transition_def set_intervention_def split: if_splits option.splits)

text \<open>A successful operation in its steps.\<close>

lemma new_operationE:
  assumes "new_operation sha isofmt lp db x kind tid = Inr (db', a)"
  obtains i db1 r db2 db3 current ordinal transition state db4 pg where
    "op_intervention x = Some i" "open_requested db x i = Inr db1" "map_of (wb_interventions db1) i = Some r"
    "target_values (iq_target (iv_request r)) = target_values (op_target x)"
    "review_step db1 x i r = Inr db2" "decision_step db2 x i r = Inr (db3, current, ordinal, transition)"
    "target_row db3 kind tid = Some (state, op_expected_version x)"
    "run_command sha isofmt lp db3 x i r current kind tid state \<lparr>pg_ordinal = ordinal, pg_transition = transition, pg_version = op_expected_version x,
      pg_approval = None, pg_attempt = None, pg_run = None, pg_runtime = None, pg_plan = None\<rparr> = Inr (db4, pg)"
    "record_operation sha isofmt db4 x i kind tid pg = Inr (db', a)"
  using assms by (fastforce simp: new_operation_def split: option.splits if_splits prod.splits)

lemma record_operation_tables:
  assumes "record_operation sha isofmt db x i kind tid pg = Inr (db', a)"
  shows "control_tables db' = (AList.update (claim_of x) \<lparr>cl_digest = operation_digest sha isofmt x, cl_completed = True, cl_command = Some (op_command_id x),
      cl_intervention = Some i, cl_identity = Some (op_command_id x), cl_result = Some (operation_record a)\<rparr> (wb_claims db), wb_interventions db, wb_transitions db, wb_plans db, wb_approvals db)"
    and "target_tables db' = target_tables db" and "\<not> or_replayed a"
proof -
  obtain pg' db1 db2 db3 where s: "create_operation_facts sha db x kind tid = Inr db1"
    "a = operation_answer x i tid pg'" "insert_command db1 (op_command_id x) (command_entry sha isofmt x i kind tid pg' (operation_record a)) = Inr db2"
    "link_operation_facts db2 x i (pg_ordinal pg') = Inr db3"
    "db' = db3\<lparr>wb_claims := AList.update (claim_of x) \<lparr>cl_digest = operation_digest sha isofmt x, cl_completed = True,
       cl_command = Some (op_command_id x), cl_intervention = Some i, cl_identity = Some (op_command_id x), cl_result = Some (operation_record a)\<rparr> (wb_claims db3)\<rparr>"
    using assms by (auto simp: record_operation_def Let_def)
  show "control_tables db' = (AList.update (claim_of x) \<lparr>cl_digest = operation_digest sha isofmt x, cl_completed = True, cl_command = Some (op_command_id x),
      cl_intervention = Some i, cl_identity = Some (op_command_id x), cl_result = Some (operation_record a)\<rparr> (wb_claims db), wb_interventions db, wb_transitions db, wb_plans db, wb_approvals db)" "target_tables db' = target_tables db"
    using create_operation_facts_tables [OF s(1)] insert_command_tables [OF s(3)] link_operation_facts_tables [OF s(4)] s(5)
    by (simp_all add: control_tables_def target_tables_def)
  show "\<not> or_replayed a" using s(2) by (simp add: operation_answer_def)
qed

text \<open>The atomic command, in its steps.\<close>

lemma atomic_move_tables: "atomic_move db c = Inr (db', n) \<Longrightarrow> control_tables db' = control_tables db"
  by (auto simp: atomic_move_def Let_def split: option.splits prod.splits if_splits dest: move_target_tables)

lemma atomic_successors_tables:
  assumes "atomic_successors db c = Inr db'"
  shows "\<exists>d. (d = db \<or> (\<exists>p. insert_plan_row db p = Inr d)) \<and> control_tables db' = control_tables d"
proof -
  obtain d where d: "(case ac_plan c of None \<Rightarrow> Inr db | Some p \<Rightarrow> insert_plan_row db (plan_columns p)) = Inr d"
      "(case ac_run c of None \<Rightarrow> Inr d | Some (i, r) \<Rightarrow> insert_run d i (r\<lparr>ct_version := 1\<rparr>)) = Inr db'"
    using assms by (auto simp: atomic_successors_def)
  have "control_tables db' = control_tables d" using d(2) by (auto simp: insert_run_def control_tables_def split: option.splits)
  moreover have "d = db \<or> (\<exists>p. insert_plan_row db p = Inr d)" using d(1) by (auto split: option.splits)
  ultimately show ?thesis by blast
qed

lemma persist_cases:
  assumes "persist db c True = Inr (db', a)"
  obtains (replay) r where "map_of (wb_claims db) (atomic_key c) = Some r" "replayed_command r c = Inr a" "db' = db"
  | (fresh) r where "map_of (wb_claims db) (atomic_key c) = None" "new_command (db\<lparr>wb_claims := AList.update (atomic_key c) r (wb_claims db)\<rparr>) c = Inr (db', a)"
  using assms by (auto simp: persist_def split: option.splits)

lemma new_commandE:
  assumes "new_command db c = Inr (db', a)"
  obtains db1 db2 db3 v db4 db5 row where
    "insert_request db (ac_request c) = Inr db1" "insert_transition db1 (atomic_requested c) = Inr db2" "control_tables db3 = control_tables db2"
    "tr_to (atomic_applied c) \<in> set (TRANSITIONS (tr_from (atomic_applied c)))" "insert_transition db3 (atomic_applied c) = Inr db4"
    "atomic_successors (set_intervention db4 (iq_id (ac_request c)) (tr_to (atomic_applied c)) 2) c = Inr db5"
    "control_tables db' = (AList.update (atomic_key c) row (wb_claims db5), wb_interventions db5, wb_transitions db5, wb_plans db5, wb_approvals db5)"
proof -
  obtain db1 db2 db3 v db4 db5 db7 row where s: "insert_request db (ac_request c) = Inr db1" "insert_transition db1 (atomic_requested c) = Inr db2"
    "atomic_move db2 c = Inr (db3, v)" "tr_to (atomic_applied c) \<in> set (TRANSITIONS (tr_from (atomic_applied c)))" "insert_transition db3 (atomic_applied c) = Inr db4"
    "atomic_successors (set_intervention db4 (iq_id (ac_request c)) (tr_to (atomic_applied c)) 2) c = Inr db5"
    "insert_command db5 (ac_command_id c) (atomic_entry c) = Inr db7" "db' = db7\<lparr>wb_claims := AList.update (atomic_key c) row (wb_claims db7)\<rparr>"
    using assms by (auto simp: new_command_def Let_def split: option.splits if_splits prod.splits)
  then show ?thesis using that [OF s(1,2) atomic_move_tables [OF s(3)] s(4,5,6), of row] insert_command_tables [OF s(7)] by (simp add: control_tables_def)
qed

lemma new_command_claims:
  assumes "new_command db c = Inr (db', a)"
  shows "\<exists>row. wb_claims db' = AList.update (atomic_key c) row (wb_claims db)"
proof -
  obtain db1 db2 db3 db4 db5 row where s: "insert_request db (ac_request c) = Inr db1" "insert_transition db1 (atomic_requested c) = Inr db2"
    "control_tables db3 = control_tables db2" "insert_transition db3 (atomic_applied c) = Inr db4"
    "atomic_successors (set_intervention db4 (iq_id (ac_request c)) (tr_to (atomic_applied c)) 2) c = Inr db5"
    "control_tables db' = (AList.update (atomic_key c) row (wb_claims db5), wb_interventions db5, wb_transitions db5, wb_plans db5, wb_approvals db5)"
    using assms by (rule new_commandE)
  have "wb_claims db4 = wb_claims db" using s(1,2,3,4) by (auto simp: insert_request_def insert_transition_def control_tables_def)
  moreover have "wb_claims db5 = wb_claims db4"
    using atomic_successors_tables [OF s(5)] by (auto simp: control_tables_def set_intervention_def insert_plan_row_def split: option.splits)
  ultimately show ?thesis using s(6) by (auto simp: control_tables_def)
qed

subsection \<open>Sequences of transactions\<close>

text \<open>
  The transactions that keep the discipline of the application services: operations, interventions with their reviews and decisions, the plan entry, decisions on
  plans, and transitions that are numbered by the version they produce. Between them other repositories change the tables that are their own.
\<close>

inductive governed_step :: "(string \<Rightarrow> string) \<Rightarrow> (int \<Rightarrow> string) \<Rightarrow> control_db \<Rightarrow> control_db \<Rightarrow> bool" for sha isofmt where
  operation: "persist_operation sha isofmt lp db x True = Inr (db', a) \<Longrightarrow> governed_step sha isofmt db db'"
| requested: "request_intervention db q = Inr (db', a) \<Longrightarrow> governed_step sha isofmt db db'"
| numbered: "append_transition db t (tr_ordinal t - 1) = Inr (db', a) \<Longrightarrow> governed_step sha isofmt db db'"
| reviewed: "append_review db v = Inr (db', a) \<Longrightarrow> governed_step sha isofmt db db'"
| decided: "append_decision db d = Inr (db', a) \<Longrightarrow> governed_step sha isofmt db db'"
| prepared: "prepare_plan_entry sha db p True = Inr (db', a) \<Longrightarrow> governed_step sha isofmt db db'"
| approved: "approve_plan_entry db ap n True now = Inr (db', a) \<Longrightarrow> governed_step sha isofmt db db'"
| approval: "append_approval db ap now = Inr (db', a) \<Longrightarrow> governed_step sha isofmt db db'"
| entered: "complete_plan_entry db actor command key digest answer True = Inr (db', a) \<Longrightarrow> governed_step sha isofmt db db'"
| environment: "control_tables db' = control_tables db \<Longrightarrow> governed_step sha isofmt db db'"

text \<open>
  All the transactions of the repository. No service calls the others: a transition is appended with any ordinal and any expected version, a plan is created with any
  status, the status of a plan is replaced without a decision, a target is moved by itself, and the atomic command does several of these at once.
\<close>

inductive control_step :: "(string \<Rightarrow> string) \<Rightarrow> (int \<Rightarrow> string) \<Rightarrow> control_db \<Rightarrow> control_db \<Rightarrow> bool" for sha isofmt where
  governed: "governed_step sha isofmt db db' \<Longrightarrow> control_step sha isofmt db db'"
| appended: "append_transition db t n = Inr (db', a) \<Longrightarrow> control_step sha isofmt db db'"
| created: "create_plan db p = Inr (db', a) \<Longrightarrow> control_step sha isofmt db db'"
| replaced: "replace_plan_status db i v s n now = Inr (db', a) \<Longrightarrow> control_step sha isofmt db db'"
| swapped: "compare_and_swap_target db kind i s n = Inr (db', a) \<Longrightarrow> control_step sha isofmt db db'"
| persisted: "persist db c True = Inr (db', a) \<Longrightarrow> control_step sha isofmt db db'"

inductive_cases governed_stepE: "governed_step sha isofmt db db'"
inductive_cases control_stepE: "control_step sha isofmt db db'"

inductive control_reachable :: "(string \<Rightarrow> string) \<Rightarrow> (int \<Rightarrow> string) \<Rightarrow> control_db \<Rightarrow> bool" for sha isofmt where
  initial: "control_tables db = ([], [], [], [], []) \<Longrightarrow> control_reachable sha isofmt db"
| stepped: "control_reachable sha isofmt db \<Longrightarrow> control_step sha isofmt db db' \<Longrightarrow> control_reachable sha isofmt db'"

inductive governed_reachable :: "(string \<Rightarrow> string) \<Rightarrow> (int \<Rightarrow> string) \<Rightarrow> control_db \<Rightarrow> bool" for sha isofmt where
  started: "control_tables db = ([], [], [], [], []) \<Longrightarrow> governed_reachable sha isofmt db"
| continued: "governed_reachable sha isofmt db \<Longrightarrow> governed_step sha isofmt db db' \<Longrightarrow> governed_reachable sha isofmt db'"

lemmas operation_step = governed [OF operation]

lemma governed_is_reachable: "governed_reachable sha isofmt db \<Longrightarrow> control_reachable sha isofmt db"
  by (induction rule: governed_reachable.induct) (auto intro: initial stepped governed)

subsection \<open>An answer to an idempotency key is stable\<close>

definition answered :: "control_db \<Rightarrow> claim_key \<Rightarrow> string \<Rightarrow> operation_result \<Rightarrow> bool" where
  "answered db k digest a = (case map_of (wb_claims db) k of None \<Rightarrow> False
     | Some c \<Rightarrow> cl_digest c = digest \<and> cl_completed c \<and> (\<forall>b. operation_result_of (case cl_result c of None \<Rightarrow> [] | Some d \<Rightarrow> d) b = Inr (a\<lparr>or_replayed := b\<rparr>)))"

lemma operation_result_replayed:
  "operation_result_of d b = Inr a \<Longrightarrow> operation_result_of d b' = Inr (a\<lparr>or_replayed := b'\<rparr>)"
  by (auto simp: operation_result_of_def split: if_splits option.splits)

text \<open>Both ways to a successful answer: the replay, or a new claim that is completed.\<close>

lemma persist_operation_cases:
  assumes "persist_operation sha isofmt lp db x True = Inr (db', a)"
  obtains (replay) c where "map_of (wb_claims db) (claim_of x) = Some c" "cl_digest c = operation_digest sha isofmt x" "cl_completed c"
      "operation_result_of (case cl_result c of None \<Rightarrow> [] | Some d \<Rightarrow> d) True = Inr a" "db' = db"
  | (fresh) kind tid where "map_of (wb_claims db) (claim_of x) = None" "target_of (op_target x) = Some (kind, tid)"
      "new_operation sha isofmt lp (db\<lparr>wb_claims := AList.update (claim_of x)
         \<lparr>cl_digest = operation_digest sha isofmt x, cl_completed = False, cl_command = None, cl_intervention = None, cl_identity = None, cl_result = None\<rparr> (wb_claims db)\<rparr>) x kind tid = Inr (db', a)"
  using assms by (auto simp: persist_operation_def split: if_splits option.splits)

lemma new_operation_claims:
  assumes "new_operation sha isofmt lp db x kind tid = Inr (db', a)"
  shows "wb_claims db' = AList.update (claim_of x) \<lparr>cl_digest = operation_digest sha isofmt x, cl_completed = True, cl_command = Some (op_command_id x),
      cl_intervention = op_intervention x, cl_identity = Some (op_command_id x), cl_result = Some (operation_record a)\<rparr> (wb_claims db)" "\<not> or_replayed a"
proof -
  obtain i db1 r db2 db3 current ordinal transition state db4 pg where i: "op_intervention x = Some i"
    and s: "open_requested db x i = Inr db1" "review_step db1 x i r = Inr db2" "decision_step db2 x i r = Inr (db3, current, ordinal, transition)"
    "run_command sha isofmt lp db3 x i r current kind tid state \<lparr>pg_ordinal = ordinal, pg_transition = transition, pg_version = op_expected_version x,
      pg_approval = None, pg_attempt = None, pg_run = None, pg_runtime = None, pg_plan = None\<rparr> = Inr (db4, pg)"
    "record_operation sha isofmt db4 x i kind tid pg = Inr (db', a)"
    using assms by (rule new_operationE)
  have "wb_claims db4 = wb_claims db"
    using open_requested_claims [OF s(1)] review_step_tables [OF s(2)] decision_step_claims [OF s(3)] run_command_tables(1) [OF s(4)]
    by (simp add: control_tables_def)
  then show "wb_claims db' = AList.update (claim_of x) \<lparr>cl_digest = operation_digest sha isofmt x, cl_completed = True, cl_command = Some (op_command_id x),
      cl_intervention = op_intervention x, cl_identity = Some (op_command_id x), cl_result = Some (operation_record a)\<rparr> (wb_claims db)" "\<not> or_replayed a"
    using record_operation_tables(1,3) [OF s(5)] i by (simp_all add: control_tables_def)
qed

lemma persist_operation_answered:
  assumes "persist_operation sha isofmt lp db x True = Inr (db', a)"
  shows "answered db' (claim_of x) (operation_digest sha isofmt x) a"
  using assms
proof (cases rule: persist_operation_cases)
  case (replay c)
  then show ?thesis using operation_result_replayed [OF replay(4)] by (auto simp: answered_def)
next
  case (fresh kind tid)
  show ?thesis using new_operation_claims [OF fresh(3)] operation_result_round_trip [of a] by (simp add: answered_def)
qed

lemma other_claims:
  "request_intervention db q = Inr (db', u1) \<Longrightarrow> wb_claims db' = wb_claims db"
  "append_transition db t n = Inr (db', u2) \<Longrightarrow> wb_claims db' = wb_claims db"
  "append_review db v = Inr (db', u3) \<Longrightarrow> wb_claims db' = wb_claims db"
  "append_decision db d = Inr (db', u4) \<Longrightarrow> wb_claims db' = wb_claims db"
  "prepare_plan_entry sha db p b = Inr (db', u5) \<Longrightarrow> wb_claims db' = wb_claims db"
  "approve_plan_entry db ap m b now = Inr (db', u6) \<Longrightarrow> wb_claims db' = wb_claims db"
  "append_approval db ap now = Inr (db', u6) \<Longrightarrow> wb_claims db' = wb_claims db"
  "create_plan db p = Inr (db', u5) \<Longrightarrow> wb_claims db' = wb_claims db"
  "replace_plan_status db i pv s m now = Inr (db', u7) \<Longrightarrow> wb_claims db' = wb_claims db"
  "compare_and_swap_target db kind i cs m = Inr (db', u8) \<Longrightarrow> wb_claims db' = wb_claims db"
  by (auto simp: request_intervention_def open_intervention_def append_transition_def append_review_def append_decision_def prepare_plan_entry_def create_plan_def
    approve_plan_entry_def append_approval_def advance_def set_intervention_def replace_plan_status_def compare_and_swap_target_def control_tables_def control_statements
    split: if_splits option.splits dest!: move_target_tables)

text \<open>What a transaction does to the claims: nothing, or it writes the claim of a key that had none.\<close>

lemma claim_written:
  "map_of cs k = None \<Longrightarrow> cs' = AList.update k c (AList.update k c0 cs) \<Longrightarrow> \<exists>j b. map_of cs j = None \<and> map_of cs' = (map_of cs)(j \<mapsto> b)"
  by (rule exI [of _ k], rule exI [of _ c]) simp

lemma step_claims:
  assumes "control_step sha isofmt db db'"
  shows "wb_claims db' = wb_claims db \<or> (\<exists>k c. map_of (wb_claims db) k = None \<and> map_of (wb_claims db') = (map_of (wb_claims db))(k \<mapsto> c))"
  using assms
proof (cases rule: control_step.cases)
  case governed
  then show ?thesis
  proof (cases rule: governed_step.cases)
    case (operation lp x ans)
    from operation(1) show ?thesis
    proof (cases rule: persist_operation_cases)
      case (fresh kind tid)
      show ?thesis using new_operation_claims(1) [OF fresh(3)] by (intro disjI2 claim_written [OF fresh(1)]) simp
    qed simp
  next
    case (entered actor command key digest answer u)
    then show ?thesis by (auto simp: complete_plan_entry_def split: if_splits option.splits json.splits)
  next
    case environment
    then show ?thesis by (simp add: control_tables_def)
  qed (auto dest: other_claims)
next
  case (persisted c a)
  from persisted(1) show ?thesis
  proof (cases rule: persist_cases)
    case (fresh r)
    obtain row where "wb_claims db' = AList.update (atomic_key c) row (AList.update (atomic_key c) r (wb_claims db))"
      using new_command_claims [OF fresh(2)] by auto
    then show ?thesis by (rule disjI2 [OF claim_written [OF fresh(1)]])
  qed simp
qed (auto dest: other_claims)

lemma step_keeps_answers:
  assumes "control_step sha isofmt db db'" and "answered db k digest a"
  shows "answered db' k digest a"
  using step_claims [OF assms(1)] assms(2) by (auto simp: answered_def)

lemma steps_keep_answers: "(control_step sha isofmt)\<^sup>*\<^sup>* db db' \<Longrightarrow> answered db k digest a \<Longrightarrow> answered db' k digest a"
  by (induction rule: rtranclp_induct) (blast intro: step_keeps_answers)+

text \<open>
  C16: an idempotency key has one answer. Once an operation has been answered, whatever transactions follow, a later operation
  with the same key changes nothing: it gets the recorded answer, marked as replayed, when its digest is that of the first one, and is refused otherwise.
\<close>

theorem control_answers_are_stable:
  assumes "persist_operation sha isofmt lp db x True = Inr (db', a)" and "(control_step sha isofmt)\<^sup>*\<^sup>* db' db2"
    and "claim_of y = claim_of x" and "op_evidence y \<noteq> []" and "target_of (op_target y) \<noteq> None"
  shows "persist_operation sha isofmt lp' db2 y True =
    (if operation_digest sha isofmt y = operation_digest sha isofmt x then Inr (db2, a\<lparr>or_replayed := True\<rparr>) else Inl ''IDEMPOTENCY_PAYLOAD_MISMATCH'')"
proof -
  have "answered db2 (claim_of y) (operation_digest sha isofmt x) a"
    using steps_keep_answers [OF assms(2) persist_operation_answered [OF assms(1)]] assms(3) by simp
  then show ?thesis using assms(4,5)
    by (auto simp: persist_operation_def answered_def split: option.splits)
qed

text \<open>The atomic command reads its answer back from the text of a version; the text of a number stands for that number.\<close>

lemma decimal_tail_digits: "list_all is_decimal s \<Longrightarrow> decimal_tail n s = Some (foldl (\<lambda>m c. 10 * m + decimal_value c) n s)"
  by (induction n s rule: decimal_tail.induct) auto

lemma foldl_read_nat: "list_all is_decimal s \<Longrightarrow> foldl (\<lambda>m c. 10 * m + decimal_value c) (int n) s = int (foldl (\<lambda>m c. 10 * m + (of_char c - 48)) n s)"
proof (induction s arbitrary: n)
  case (Cons c s)
  then have "48 \<le> (of_char c :: nat)" by (auto simp: is_decimal_def)
  then have "10 * int n + decimal_value c = int (10 * n + (of_char c - 48))" by (simp add: decimal_value_def)
  then show ?case using Cons.IH [of "10 * n + (of_char c - 48)"] Cons.prems by (simp only: foldl_Cons list.pred_inject)
qed simp

lemma show_nat_decimal: "list_all is_decimal (show_nat n)"
proof -
  have "is_decimal c" if "48 \<le> (of_char c :: nat)" "of_char c \<le> (57 :: nat)" for c
  proof -
    have "(of_char c :: nat) \<in> set [48..<58]" using that by (simp del: upt_rec_numeral)
    then have "(of_char c :: nat) \<in> {48, 49, 50, 51, 52, 53, 54, 55, 56, 57}" by simp
    then show ?thesis unfolding is_decimal_def by (simp add: of_char_eq_iff [where ?'a = nat, symmetric] del: of_char_eq_iff)
  qed
  then show ?thesis using show_nat_digits by (auto simp: list_all_iff)
qed

lemma decimal_show_nat: "decimal_tail 0 (show_nat n) = Some (int n)"
  using decimal_tail_digits [OF show_nat_decimal] foldl_read_nat [OF show_nat_decimal, of 0] read_show_nat [of n] by (simp add: read_nat_def)

lemma strip_tight: "list_all (\<lambda>c. \<not> py_space c) s \<Longrightarrow> strip s = s"
proof -
  have id: "list_all (\<lambda>c. \<not> py_space c) u \<Longrightarrow> dropWhile py_space u = u" for u by (cases u) simp_all
  assume "list_all (\<lambda>c. \<not> py_space c) s"
  then show ?thesis using id [of s] id [of "rev s"] by (simp add: strip_def lstrip_def rstrip_def)
qed

lemma py_int_show_int: "py_int (show_int n) = Some n"
proof -
  have d: "is_decimal c \<Longrightarrow> \<not> py_space c \<and> c \<noteq> CHR ''+'' \<and> c \<noteq> CHR ''-''" for c by (auto simp: is_decimal_def py_space_def)
  have t: "list_all (\<lambda>c. \<not> py_space c) (show_nat k)" for k using show_nat_decimal [of k] d by (auto simp: list_all_iff)
  then have s: "strip (show_int n) = show_int n" by (intro strip_tight) (simp add: show_int_def py_space_def)
  have h: "show_nat k \<noteq> [] \<and> is_decimal (hd (show_nat k))" for k using show_nat_head [of k] show_nat_decimal [of k] by auto
  then have "drop_sign (show_int n) = show_nat (nat \<bar>n\<bar>)" using h [of "nat n"] d [of "hd (show_nat (nat n))"]
    by (cases "show_nat (nat n)") (auto simp: drop_sign_def show_int_def split: list.splits)
  moreover have "(hd (show_int n) = CHR ''-'') = (n < 0)" using h [of "nat n"] d [of "hd (show_nat (nat n))"] by (auto simp: show_int_def)
  ultimately show ?thesis using s h [of "nat \<bar>n\<bar>"] by (simp add: py_int_def decimal_show_nat)
qed

lemma persist_is_replayed:
  assumes "persist db c True = Inr (db', a)"
  shows "persist db' c True = Inr (db', a\<lparr>ar_replayed := True\<rparr>)"
  using assms
proof (cases rule: persist_cases)
  case (replay r)
  then have "a\<lparr>ar_replayed := True\<rparr> = a" by (auto simp: replayed_command_def split: if_splits option.splits)
  then show ?thesis using assms replay(3) by simp
next
  case (fresh r)
  then have "map_of (wb_claims db') (atomic_key c) = Some \<lparr>cl_digest = ac_digest c, cl_completed = True, cl_command = ar_command a, cl_intervention = ar_intervention a,
      cl_identity = Some (show_int (ar_version a)), cl_result = None\<rparr> \<and> ar_transition a = tr_id (ac_transition c)"
    by (auto simp: new_command_def Let_def atomic_applied_def split: option.splits if_splits prod.splits)
  then show ?thesis by (simp add: persist_def replayed_command_def py_int_show_int)
qed

subsection \<open>The journal of an intervention\<close>

text \<open>Transitions from a state: each starts where the previous one ended and is allowed.\<close>

fun chain :: "intervention_state option \<Rightarrow> intervention_transition list \<Rightarrow> intervention_state option" where
  "chain s [] = s"
| "chain s (t # ts) = (if tr_from t = s \<and> tr_to t \<in> set (TRANSITIONS s) then chain (Some (tr_to t)) ts else None)"

text \<open>A journal has as many transitions as the version says, under different ordinals; when \<open>g\<close> holds they are numbered from one without a gap.\<close>

definition journal_ok :: "bool \<Rightarrow> intervention_transition list \<Rightarrow> intervention_row \<Rightarrow> bool" where
  "journal_ok g ts r = (int (length ts) = iv_version r \<and> distinct (map tr_ordinal ts) \<and> 1 \<in> set (map tr_ordinal ts) \<and> chain None ts = Some (iv_state r) \<and>
     (g \<longrightarrow> map tr_ordinal ts = [1..iv_version r]))"

definition transitions_of :: "intervention_transition list \<Rightarrow> string \<Rightarrow> intervention_transition list" where
  "transitions_of ts i = filter (\<lambda>t. tr_intervention t = i) ts"

definition journals_ok :: "bool \<Rightarrow> (string, intervention_row) dict \<Rightarrow> intervention_transition list \<Rightarrow> bool" where
  "journals_ok g ivs ts = (\<forall>i. case map_of ivs i of None \<Rightarrow> transitions_of ts i = [] | Some r \<Rightarrow> 0 < iv_version r \<and> journal_ok g (transitions_of ts i) r)"

abbreviation journals :: "bool \<Rightarrow> control_db \<Rightarrow> bool" where
  "journals g db \<equiv> journals_ok g (wb_interventions db) (wb_transitions db)"

lemma transitions_of_append [simp]: "transitions_of (ts @ [t]) i = (if tr_intervention t = i then transitions_of ts i @ [t] else transitions_of ts i)"
  by (simp add: transitions_of_def)

lemma journals_okD:
  "journals_ok g ivs ts \<Longrightarrow> map_of ivs i = Some r \<Longrightarrow> 0 < iv_version r \<and> journal_ok g (transitions_of ts i) r"
  "journals_ok g ivs ts \<Longrightarrow> map_of ivs i = None \<Longrightarrow> transitions_of ts i = []"
  unfolding journals_ok_def by (drule spec [of _ i], simp)+

lemma journals_ok_update:
  assumes "journals_ok g ivs ts" and "tr_intervention t = i" "0 < iv_version r" "journal_ok g (transitions_of ts i @ [t]) r"
  shows "journals_ok g (AList.update i r ivs) (ts @ [t])"
  unfolding journals_ok_def
proof
  fix j
  show "case map_of (AList.update i r ivs) j of None \<Rightarrow> transitions_of (ts @ [t]) j = [] | Some r' \<Rightarrow> 0 < iv_version r' \<and> journal_ok g (transitions_of (ts @ [t]) j) r'"
    using assms(2,3,4) journals_okD [OF assms(1), of j] by (cases "j = i"; cases "map_of ivs j") auto
qed

lemma chain_append: "chain None ts = Some s \<Longrightarrow> chain None (ts @ [t]) = (if tr_from t = Some s \<and> tr_to t \<in> set (TRANSITIONS (Some s)) then Some (tr_to t) else None)"
proof -
  have "chain u ts = Some s \<Longrightarrow> chain u (ts @ [t]) = (if tr_from t = Some s \<and> tr_to t \<in> set (TRANSITIONS (Some s)) then Some (tr_to t) else None)" for u
    by (induction ts arbitrary: u) (auto split: if_splits)
  then show "chain None ts = Some s \<Longrightarrow> ?thesis" by blast
qed

lemma fresh_ordinal: "insert_transition db t = Inr db' \<Longrightarrow> tr_ordinal t \<notin> set (map tr_ordinal (transitions_of (wb_transitions db) (tr_intervention t)))"
  by (auto simp: insert_transition_def transitions_of_def list_all_iff)

text \<open>A first transition, and a further one. Without a gap before it, the ordinal of a further one is the new version.\<close>

lemma open_journals:
  assumes ok: "journals g db" and new: "map_of (wb_interventions db) (tr_intervention t) = None" and t: "tr_ordinal t = 1" "tr_from t = None" "tr_to t = I_REQUESTED"
    and r: "iv_state r = I_REQUESTED" "iv_version r = 1"
  shows "journals_ok g (AList.update (tr_intervention t) r (wb_interventions db)) (wb_transitions db @ [t])"
  using journals_okD(2) [OF ok new] t r by (intro journals_ok_update ok) (simp_all add: journal_ok_def TRANSITIONS_def)

lemma extend_journals:
  assumes ok: "journals g db" and ins: "insert_transition db t = Inr db1" and r: "map_of (wb_interventions db) (tr_intervention t) = Some r"
    and t: "tr_from t = Some (iv_state r)" "tr_to t \<in> set (TRANSITIONS (tr_from t))" and n: "g \<Longrightarrow> tr_ordinal t = iv_version r + 1"
  shows "journals_ok g (AList.update (tr_intervention t) (r\<lparr>iv_state := tr_to t, iv_version := iv_version r + 1\<rparr>) (wb_interventions db)) (wb_transitions db @ [t])"
proof -
  let ?ts = "transitions_of (wb_transitions db) (tr_intervention t)"
  note old = journals_okD(1) [OF ok r]
  have "[1..iv_version r + 1] = [1..iv_version r] @ [iv_version r + 1]" using old by (simp add: upto_rec2)
  then have "journal_ok g (?ts @ [t]) (r\<lparr>iv_state := tr_to t, iv_version := iv_version r + 1\<rparr>)"
    using old t n fresh_ordinal [OF ins] chain_append [of ?ts "iv_state r" t] by (auto simp: journal_ok_def)
  then show ?thesis using old by (intro journals_ok_update ok) simp_all
qed

lemma open_intervention_journals:
  assumes "journals g db" and "open_intervention db q tid = Inr db'"
  shows "journals g db'"
proof -
  let ?t = "requested_transition tid q" and ?r = "\<lparr>iv_request = q, iv_state = I_REQUESTED, iv_version = 1\<rparr>"
  have t: "tr_intervention ?t = iq_id q" "tr_ordinal ?t = 1" "tr_from ?t = None" "tr_to ?t = I_REQUESTED" by (simp_all add: requested_transition_def)
  have "wb_interventions db' = AList.update (iq_id q) ?r (wb_interventions db)" "wb_transitions db' = wb_transitions db @ [?t]" "map_of (wb_interventions db) (iq_id q) = None"
    using assms(2) by (auto simp: open_intervention_def insert_request_def insert_transition_def)
  then show ?thesis using open_journals [OF assms(1), of ?t ?r] t by simp
qed

lemma advance_journals:
  assumes ok: "journals g db" and adv: "advance db t = Inr db'"
    and r: "map_of (wb_interventions db) (tr_intervention t) = Some r" and n: "tr_ordinal t = iv_version r + 1" "tr_from t = Some (iv_state r)"
    and allowed: "tr_to t \<in> set (TRANSITIONS (tr_from t))"
  shows "journals g db'"
    and "map_of (wb_interventions db') (tr_intervention t) = Some (r\<lparr>iv_state := tr_to t, iv_version := tr_ordinal t\<rparr>)"
proof -
  obtain db1 where ins: "insert_transition db t = Inr db1" and set: "db' = set_intervention db1 (tr_intervention t) (tr_to t) (tr_ordinal t)"
    using adv by (auto simp: advance_def)
  have db': "wb_interventions db' = AList.update (tr_intervention t) (r\<lparr>iv_state := tr_to t, iv_version := tr_ordinal t\<rparr>) (wb_interventions db)"
      "wb_transitions db' = wb_transitions db @ [t]"
    using ins r unfolding set by (auto simp: insert_transition_def set_intervention_def)
  show "journals g db'" using extend_journals [OF ok ins r n(2) allowed n(1)] db' n(1) by simp
  show "map_of (wb_interventions db') (tr_intervention t) = Some (r\<lparr>iv_state := tr_to t, iv_version := tr_ordinal t\<rparr>)" using db' by simp
qed

lemma append_transition_journals:
  assumes ok: "journals g db" and app: "append_transition db t n = Inr (db', u)" and g: "g \<Longrightarrow> n = tr_ordinal t - 1"
  shows "journals g db'"
proof -
  obtain r where r: "map_of (wb_interventions db) (tr_intervention t) = Some r" "iv_version r = n" "tr_from t = Some (iv_state r)"
      "tr_to t \<in> set (TRANSITIONS (tr_from t))"
    and ins: "insert_transition (set_intervention db (tr_intervention t) (tr_to t) (iv_version r + 1)) t = Inr db'"
    using app by (auto simp: append_transition_def split: if_splits option.splits)
  from ins r(1) have db': "wb_interventions db' = AList.update (tr_intervention t) (r\<lparr>iv_state := tr_to t, iv_version := iv_version r + 1\<rparr>) (wb_interventions db)"
      "wb_transitions db' = wb_transitions db @ [t]" "insert_transition db t = Inr (db\<lparr>wb_transitions := wb_transitions db @ [t]\<rparr>)"
    by (auto simp: insert_transition_def set_intervention_def)
  show ?thesis using extend_journals [OF ok db'(3) r(1,3,4)] db'(1,2) r(2) g by simp
qed

lemma decide_journals:
  assumes ok: "journals g db" and "insert_decision db d = Inr db1"
    and "advance db1 (decision_transition d (iv_version r + 1)) = Inr db2" and "map_of (wb_interventions db) (dn_intervention d) = Some r" "iv_state r = I_REQUESTED"
  shows "journals g db2"
    and "map_of (wb_interventions db2) (dn_intervention d) = Some (r\<lparr>iv_state := decision_state d, iv_version := iv_version r + 1\<rparr>)"
proof -
  have db1: "wb_interventions db1 = wb_interventions db" "wb_transitions db1 = wb_transitions db"
    using assms(2) by (auto simp: insert_decision_def)
  show "journals g db2"
    "map_of (wb_interventions db2) (dn_intervention d) = Some (r\<lparr>iv_state := decision_state d, iv_version := iv_version r + 1\<rparr>)"
    using advance_journals [of g db1, OF _ assms(3), of r] ok assms(4,5) db1
    by (simp_all add: decision_transition_def decision_state_def TRANSITIONS_def)
qed

lemma apply_journals:
  assumes ok: "journals g db" and r: "map_of (wb_interventions db) i = Some r"
    and app: "apply_decision db x i (iv_state r) (iv_version r) kind tid state = Inr (db', m)"
  shows "journals g db'"
proof -
  obtain t1 db1 s db2 n where a: "iv_state r = I_AUTHORIZED"
      "advance db (application_transition x i t1 (iv_version r + 1) I_AUTHORIZED I_APPLICATION_PENDING) = Inr db1"
      "move_target db1 kind tid s (op_expected_version x) = Inr (db2, n)"
      "advance db2 (application_transition x i (op_command_id x @ '':applied'') (iv_version r + 2) I_APPLICATION_PENDING I_APPLIED) = Inr db'"
    using app by (auto simp: apply_decision_def split: if_splits option.splits json.splits)
  note one = advance_journals [OF ok a(2), of r]
  have db2: "wb_interventions db2 = wb_interventions db1" "wb_transitions db2 = wb_transitions db1"
    using move_target_tables [OF a(3)] by (simp_all add: control_tables_def)
  show ?thesis
    using advance_journals(1) [of g db2, OF _ a(4), of "r\<lparr>iv_state := I_APPLICATION_PENDING, iv_version := iv_version r + 1\<rparr>"] one db2 r a(1)
    by (simp add: application_transition_def TRANSITIONS_def)
qed

lemma journals_tables: "control_tables db' = control_tables db \<Longrightarrow> journals g db \<Longrightarrow> journals g db'"
  by (simp add: control_tables_def)

lemma open_requested_journals: "journals g db \<Longrightarrow> open_requested db x i = Inr db' \<Longrightarrow> journals g db'"
  by (auto simp: open_requested_def split: if_splits option.splits dest: open_intervention_journals)

lemma decision_step_journals:
  assumes "journals g db" and "map_of (wb_interventions db) i = Some r" and "decision_step db x i r = Inr (db', current, ordinal, t)"
  shows "journals g db' \<and> (\<exists>r'. map_of (wb_interventions db') i = Some r' \<and> current = iv_state r' \<and> ordinal = iv_version r')"
proof (cases "op_decision x")
  case None
  then show ?thesis using assms by (auto simp: decision_step_def)
next
  case (Some d)
  then obtain db1 where d: "dn_intervention d = i" "iv_state r = I_REQUESTED" "insert_decision db d = Inr db1"
      "advance db1 (decision_transition d (iv_version r + 1)) = Inr db'" "current = decision_state d" "ordinal = iv_version r + 1"
    using assms(3) by (auto simp: decision_step_def split: if_splits)
  show ?thesis using decide_journals [OF assms(1) d(3,4)] assms(2) d by simp
qed

lemma run_command_journals:
  assumes "journals g db" and "map_of (wb_interventions db) i = Some r'" and "current = iv_state r'" "pg_ordinal pg = iv_version r'"
    and run: "run_command sha isofmt lp db x i r current kind tid state pg = Inr (db', pg')"
  shows "journals g db'"
proof (cases "op_command x = APPLY_INTERVENTION_DECISION")
  case True
  then obtain m where "apply_decision db x i (iv_state r') (iv_version r') kind tid state = Inr (db', m)"
    using run assms(3,4) by (auto simp: run_command_def)
  then show ?thesis by (rule apply_journals [OF assms(1,2)])
next
  case False
  then show ?thesis using run_command_tables(2) [OF run] assms(1) by simp
qed

lemma new_operation_journals:
  assumes "journals g db" and "new_operation sha isofmt lp db x kind tid = Inr (db', a)"
  shows "journals g db'"
proof -
  obtain i db1 r db2 db3 current ordinal transition state db4 pg where s: "open_requested db x i = Inr db1" "map_of (wb_interventions db1) i = Some r"
    "review_step db1 x i r = Inr db2" "decision_step db2 x i r = Inr (db3, current, ordinal, transition)"
    "run_command sha isofmt lp db3 x i r current kind tid state \<lparr>pg_ordinal = ordinal, pg_transition = transition, pg_version = op_expected_version x,
      pg_approval = None, pg_attempt = None, pg_run = None, pg_runtime = None, pg_plan = None\<rparr> = Inr (db4, pg)"
    "record_operation sha isofmt db4 x i kind tid pg = Inr (db', a)"
    using assms(2) by (rule new_operationE)
  have t2: "control_tables db2 = control_tables db1" using review_step_tables [OF s(3)] by simp
  then have "journals g db2" "map_of (wb_interventions db2) i = Some r"
    using journals_tables [OF t2 open_requested_journals [OF assms(1) s(1)]] s(2) by (simp_all add: control_tables_def)
  from decision_step_journals [OF this s(4)] obtain r' where "journals g db3" "map_of (wb_interventions db3) i = Some r'" "current = iv_state r'" "ordinal = iv_version r'"
    by blast
  then have "journals g db4" using run_command_journals [OF _ _ _ _ s(5)] by simp
  then show ?thesis using record_operation_tables(1) [OF s(6)] by (simp add: control_tables_def)
qed

text \<open>
  The atomic command takes the identity of its transitions' intervention from the caller. It can be no other than that of its request, since every other intervention
  has a first transition already.
\<close>

lemma new_command_journals:
  assumes ok: "journals g db" and "new_command db c = Inr (db', a)"
  shows "journals g db'"
proof -
  let ?i = "iq_id (ac_request c)" and ?r = "\<lparr>iv_request = ac_request c, iv_state = I_REQUESTED, iv_version = 1\<rparr>" and ?t = "atomic_requested c" and ?u = "atomic_applied c"
  obtain db1 db2 db3 db4 db5 row where s: "insert_request db (ac_request c) = Inr db1" "insert_transition db1 ?t = Inr db2" "control_tables db3 = control_tables db2"
    "tr_to ?u \<in> set (TRANSITIONS (tr_from ?u))" "insert_transition db3 ?u = Inr db4" "atomic_successors (set_intervention db4 ?i (tr_to ?u) 2) c = Inr db5"
    "control_tables db' = (AList.update (atomic_key c) row (wb_claims db5), wb_interventions db5, wb_transitions db5, wb_plans db5, wb_approvals db5)"
    using assms(2) by (rule new_commandE)
  have 1: "map_of (wb_interventions db) ?i = None" "wb_interventions db1 = AList.update ?i ?r (wb_interventions db)" "wb_transitions db1 = wb_transitions db"
    using s(1) by (auto simp: insert_request_def)
  have i: "tr_intervention ?t = ?i"
  proof (rule ccontr)
    assume other: "tr_intervention ?t \<noteq> ?i"
    then obtain q where "map_of (wb_interventions db) (tr_intervention ?t) = Some q" using s(2) 1(2) by (auto simp: insert_transition_def)
    then have "1 \<in> set (map tr_ordinal (transitions_of (wb_transitions db1) (tr_intervention ?t)))" using journals_okD(1) [OF ok] 1(3) by (auto simp: journal_ok_def)
    then show False using fresh_ordinal [OF s(2)] by (simp add: atomic_requested_def)
  qed
  have 3: "wb_interventions db3 = AList.update ?i ?r (wb_interventions db)" "wb_transitions db3 = wb_transitions db @ [?t]"
    using s(2,3) 1 by (auto simp: insert_transition_def control_tables_def)
  have "journals g db3" using open_journals [OF ok, of ?t ?r] 1(1) i unfolding 3 by (simp add: atomic_requested_def)
  moreover have u: "tr_intervention ?u = ?i" "tr_from ?u = Some I_REQUESTED" "tr_ordinal ?u = 2"
    using i by (simp_all add: atomic_applied_def atomic_requested_def)
  ultimately have "journals_ok g (AList.update ?i (?r\<lparr>iv_state := tr_to ?u, iv_version := 2\<rparr>) (wb_interventions db3)) (wb_transitions db3 @ [?u])"
    using extend_journals [OF _ s(5), of g ?r] s(4) 3(1) by simp
  moreover have "wb_interventions db4 = wb_interventions db3" "wb_transitions db4 = wb_transitions db3 @ [?u]" using s(5) by (auto simp: insert_transition_def)
  ultimately have "journals g (set_intervention db4 ?i (tr_to ?u) 2)" using 3(1) by (simp add: set_intervention_def)
  then have "journals g db5" using atomic_successors_tables [OF s(6)] by (auto simp: control_tables_def insert_plan_row_def)
  then show ?thesis using s(7) by (simp add: control_tables_def)
qed

lemma governed_keeps_journals:
  assumes "governed_step sha isofmt db db'" and ok: "journals g db"
  shows "journals g db'"
  using assms(1)
proof (cases rule: governed_step.cases)
  case (operation lp x a)
  from operation(1) show ?thesis
  proof (cases rule: persist_operation_cases)
    case (fresh kind tid)
    then show ?thesis using new_operation_journals [OF _ fresh(3)] ok by simp
  qed (use ok in simp)
next
  case (requested q a)
  then show ?thesis using open_intervention_journals [OF ok] by (auto simp: request_intervention_def)
next
  case (numbered t a)
  then show ?thesis by (rule append_transition_journals [OF ok]) simp
next
  case (reviewed v a)
  then show ?thesis using ok by (auto simp: append_review_def insert_review_def split: if_splits option.splits)
next
  case (decided d a)
  then obtain r db1 where "map_of (wb_interventions db) (dn_intervention d) = Some r" "iv_state r = I_REQUESTED" "insert_decision db d = Inr db1"
      "advance db1 (decision_transition d (iv_version r + 1)) = Inr db'"
    by (auto simp: append_decision_def split: if_splits option.splits)
  then show ?thesis using decide_journals(1) [OF ok] by blast
next
  case (prepared p a)
  then show ?thesis using ok by (auto simp: prepare_plan_entry_def create_plan_def insert_plan_row_def split: if_splits)
next
  case (approved ap n now a)
  then show ?thesis using ok by (auto simp: approve_plan_entry_def append_approval_def insert_approval_def set_plan_def split: if_splits option.splits)
next
  case (approval ap now a)
  then show ?thesis using ok by (auto simp: append_approval_def insert_approval_def set_plan_def split: if_splits option.splits)
next
  case (entered actor command key digest answer a)
  then show ?thesis using ok by (auto simp: complete_plan_entry_def split: if_splits option.splits json.splits)
next
  case environment
  then show ?thesis by (rule journals_tables [OF _ ok])
qed

lemma step_keeps_journals:
  assumes "control_step sha isofmt db db'" and ok: "journals False db"
  shows "journals False db'"
  using assms(1)
proof (cases rule: control_step.cases)
  case governed
  then show ?thesis by (rule governed_keeps_journals [OF _ ok])
next
  case (appended t n a)
  then show ?thesis by (rule append_transition_journals [OF ok]) simp
next
  case (swapped kind i s n a)
  then show ?thesis using journals_tables [OF move_target_tables ok] by (simp add: compare_and_swap_target_def)
next
  case (persisted c a)
  from persisted(1) show ?thesis
  proof (cases rule: persist_cases)
    case (fresh r)
    then show ?thesis using new_command_journals [OF _ fresh(2)] ok by simp
  qed (use ok in simp)
qed (use ok in \<open>auto simp: create_plan_def insert_plan_row_def replace_plan_status_def set_plan_def split: if_splits option.splits\<close>)

lemma reachable_journals: "control_reachable sha isofmt db \<Longrightarrow> journals False db"
proof (induction rule: control_reachable.induct)
  case (initial db)
  then show ?case by (simp add: control_tables_def journals_ok_def transitions_of_def)
qed (rule step_keeps_journals)

lemma governed_journals: "governed_reachable sha isofmt db \<Longrightarrow> journals True db"
proof (induction rule: governed_reachable.induct)
  case (started db)
  then show ?case by (simp add: control_tables_def journals_ok_def transitions_of_def)
qed (rule governed_keeps_journals)

text \<open>
  C11: every intervention has a complete journal. Whatever transactions of the repository have run, the transitions recorded for an intervention begin with the request, follow
  the transition table, each from where the one before it ended, and end in the current state; there are as many of them as its aggregate version says, under different ordinals, and
  reading returns exactly them. The repository itself accepts any free ordinal from \<open>append_transition\<close>. When every appended transition is numbered by the version it
  produces, as in all transactions of the services, the transitions read back are numbered from one to the version and come in the order in which they were recorded.
\<close>

theorem intervention_journal_complete:
  assumes "control_reachable sha isofmt db" and "map_of (wb_interventions db) i = Some r"
  shows "chain None (transitions_of (wb_transitions db) i) = Some (iv_state r) \<and>
    mset (read_transitions db i) = mset (transitions_of (wb_transitions db) i) \<and>
    int (length (read_transitions db i)) = iv_version r \<and> distinct (map tr_ordinal (read_transitions db i)) \<and>
    (governed_reachable sha isofmt db \<longrightarrow> map tr_ordinal (read_transitions db i) = [1..iv_version r] \<and> chain None (read_transitions db i) = Some (iv_state r))"
proof -
  let ?ts = "transitions_of (wb_transitions db) i"
  have read: "read_transitions db i = sort_key tr_ordinal ?ts" by (simp add: read_transitions_def transitions_of_def)
  have j: "journal_ok False ?ts r" using journals_okD(1) [OF reachable_journals [OF assms(1)] assms(2)] by simp
  have "distinct (map tr_ordinal (sort_key tr_ordinal ?ts))" using j by (simp add: journal_ok_def distinct_map distinct_sort)
  moreover have "map tr_ordinal (read_transitions db i) = [1..iv_version r] \<and> chain None (read_transitions db i) = Some (iv_state r)"
    if "governed_reachable sha isofmt db"
  proof -
    have g: "journal_ok True ?ts r" using journals_okD(1) [OF governed_journals [OF that] assms(2)] by simp
    then have "sort_key tr_ordinal ?ts = ?ts" by (intro sort_key_id_if_sorted) (simp add: journal_ok_def)
    then show ?thesis using g by (simp add: read journal_ok_def)
  qed
  ultimately show ?thesis using j by (simp add: read journal_ok_def)
qed

subsection \<open>Approved plans\<close>

definition approvals_for :: "approval_decision list \<Rightarrow> string \<times> int \<Rightarrow> approval_decision list" where
  "approvals_for as k = filter (\<lambda>a. (ap_plan a, ap_plan_version a) = k) as"

definition decided_by :: "plan_record \<Rightarrow> approval_decision \<Rightarrow> bool" where
  "decided_by p a = (ap_plan_digest a = pn_digest p \<and>
     (ap_decision a = ''APPROVE'' \<and> pn_status p \<in> {APPROVED, SUPERSEDED} \<or> ap_decision a = ''REJECT'' \<and> pn_status p = REJECTED))"

text \<open>A plan without a decision or with the one that its status agrees with; when \<open>g\<close> holds, it is neither approved nor rejected without one.\<close>

definition plan_decided :: "bool \<Rightarrow> plan_record \<Rightarrow> approval_decision list \<Rightarrow> bool" where
  "plan_decided g p as = (as = [] \<and> (g \<longrightarrow> pn_status p \<notin> {APPROVED, REJECTED}) \<or> (\<exists>a. as = [a] \<and> decided_by p a))"

definition plans_ok :: "bool \<Rightarrow> (string \<times> int, plan_record) dict \<Rightarrow> approval_decision list \<Rightarrow> bool" where
  "plans_ok g ps as = (\<forall>k. case map_of ps k of None \<Rightarrow> approvals_for as k = [] | Some p \<Rightarrow> plan_key p = k \<and> plan_decided g p (approvals_for as k))"

abbreviation plans :: "bool \<Rightarrow> control_db \<Rightarrow> bool" where
  "plans g db \<equiv> plans_ok g (wb_plans db) (wb_approvals db)"

lemma approvals_for_append [simp]: "approvals_for (as @ [a]) k = (if (ap_plan a, ap_plan_version a) = k then approvals_for as k @ [a] else approvals_for as k)"
  by (auto simp: approvals_for_def)

lemma plans_okD:
  "plans_ok g ps as \<Longrightarrow> map_of ps k = Some p \<Longrightarrow> plan_key p = k \<and> plan_decided g p (approvals_for as k)"
  "plans_ok g ps as \<Longrightarrow> map_of ps k = None \<Longrightarrow> approvals_for as k = []"
  unfolding plans_ok_def by (drule spec [of _ k], simp)+

lemma plans_ok_update:
  assumes "plans_ok g ps as" and "plan_key p = k" and "plan_decided g p (approvals_for as' k)" and "\<And>j. j \<noteq> k \<Longrightarrow> approvals_for as' j = approvals_for as j"
  shows "plans_ok g (AList.update k p ps) as'"
  unfolding plans_ok_def
proof
  fix j
  show "case map_of (AList.update k p ps) j of None \<Rightarrow> approvals_for as' j = [] | Some q \<Rightarrow> plan_key q = j \<and> plan_decided g q (approvals_for as' j)"
    using assms(2,3,4) plans_okD [OF assms(1), of j] by (cases "j = k"; cases "map_of ps j") auto
qed

lemma insert_plan_row_plans:
  assumes "plans g db" and "insert_plan_row db p = Inr db'" and "g \<Longrightarrow> pn_status p = PENDING_APPROVAL"
  shows "plans g db'"
proof -
  have db': "wb_plans db' = AList.update (plan_key p) p (wb_plans db)" "wb_approvals db' = wb_approvals db" "map_of (wb_plans db) (plan_key p) = None"
    using assms(2) by (auto simp: insert_plan_row_def plan_allowed_def)
  show ?thesis unfolding db'(1,2) using plans_okD(2) [OF assms(1) db'(3)] assms(3) by (intro plans_ok_update [OF assms(1)]) (auto simp: plan_decided_def)
qed

text \<open>A new status: any that agrees with the decision that is there, and one that needs none when none is there.\<close>

lemma set_plan_plans:
  assumes ok: "plans g db" and p: "map_of (wb_plans db) k = Some p" and s: "\<And>a. decided_by p a \<Longrightarrow> decided_by (p\<lparr>pn_status := s\<rparr>) a" "g \<Longrightarrow> s \<notin> {APPROVED, REJECTED}"
  shows "plans g (set_plan db p s now)"
proof -
  have "plan_key p = k" "plan_decided g (p\<lparr>pn_status := s, pn_aggregate := pn_aggregate p + 1, pn_updated := now\<rparr>) (approvals_for (wb_approvals db) k)"
    using plans_okD(1) [OF ok p] s by (auto simp: plan_decided_def decided_by_def)
  then show ?thesis using plans_ok_update [OF ok] by (simp add: set_plan_def plan_key_def)
qed

lemma insert_approval_plans:
  assumes ok: "plans g db" and ins: "insert_approval db a = Inr db1"
    and p: "map_of (wb_plans db) (ap_plan a, ap_plan_version a) = Some p" "pn_digest p = ap_plan_digest a"
    and s: "(s, ap_decision a) \<in> {(APPROVED, ''APPROVE''), (REJECTED, ''REJECT'')}"
  shows "plans g (set_plan db1 p s now)"
proof -
  let ?k = "(ap_plan a, ap_plan_version a)"
  have db1: "wb_plans db1 = wb_plans db" "wb_approvals db1 = wb_approvals db @ [a]" and new: "approvals_for (wb_approvals db) ?k = []"
    using ins by (auto simp: insert_approval_def approval_allowed_def approvals_for_def filter_empty_conv list_all_iff)
  have k: "plan_key p = ?k" using plans_okD(1) [OF ok p(1)] by simp
  have "plan_decided g (p\<lparr>pn_status := s, pn_aggregate := pn_aggregate p + 1, pn_updated := now\<rparr>) (approvals_for (wb_approvals db @ [a]) ?k)"
    using new p(2) s by (auto simp: plan_decided_def decided_by_def)
  then show ?thesis using plans_ok_update [OF ok, of _ ?k "wb_approvals db @ [a]"] k db1 by (simp add: set_plan_def plan_key_def)
qed

lemma append_approval_plans:
  assumes ok: "plans g db" and "append_approval db ap now = Inr (db', a)"
  shows "plans g db'"
proof -
  obtain p db1 where p: "map_of (wb_plans db) (ap_plan ap, ap_plan_version ap) = Some p" "pn_digest p = ap_plan_digest ap" "insert_approval db ap = Inr db1"
      "db' = set_plan db1 p (if ap_decision ap = ''APPROVE'' then APPROVED else REJECTED) now"
    using assms(2) by (auto simp: append_approval_def split: if_splits option.splits)
  then have "ap_decision ap \<in> {''APPROVE'', ''REJECT''}" by (auto simp: insert_approval_def approval_allowed_def)
  then show ?thesis using insert_approval_plans [OF ok p(3,1,2)] p(4) by auto
qed

lemma persist_plan_operation_plans:
  assumes ok: "plans g db" and op: "persist_plan_operation db x kind tid state v = Inr (db', n, i)"
  shows "plans g db'"
proof -
  let ?s = "if op_command x = APPROVE_AND_CONTINUE then APPROVED else REJECTED"
  obtain a p db1 where a: "map_of (wb_plans db) (ap_plan a, ap_plan_version a) = Some p" "pn_digest p = ap_plan_digest a"
      "ap_decision a = (if op_command x = APPROVE_AND_CONTINUE then ''APPROVE'' else ''REJECT'')" "insert_approval db a = Inr db1"
      "control_tables db' = control_tables (set_plan db1 p ?s (op_requested_at x))"
    using op by (auto simp: persist_plan_operation_def Let_def split: option.splits if_splits prod.splits dest!: move_target_tables)
  show ?thesis using insert_approval_plans [OF ok a(4,1,2), of ?s] a(3,5) by (auto simp: control_tables_def)
qed

lemma persist_correction_plans:
  assumes ok: "plans g db" and op: "persist_correction db x = Inr (db', k)"
  shows "plans g db'"
proof -
  obtain c p q key db1 db2 where c: "pn_status p = PENDING_APPROVAL" "map_of (wb_plans db) key = Some q" "insert_plan_row db p = Inr db1"
      "insert_correction db1 c = Inr db2" "db' = set_plan db2 q SUPERSEDED (op_requested_at x)" "pn_status q \<noteq> REJECTED"
    using op by (auto simp: persist_correction_def exact_successor_def split: option.splits if_splits)
  have db2: "wb_plans db2 = AList.update (plan_key p) p (wb_plans db)" "wb_approvals db2 = wb_approvals db" "plan_key p \<noteq> key"
    using c(2,3,4) by (auto simp: insert_plan_row_def insert_correction_def plan_allowed_def)
  have "plans g db2" using insert_plan_row_plans [OF ok c(3,1)] c(3,4) db2 by (auto simp: insert_plan_row_def)
  then show ?thesis using set_plan_plans [of g db2 key q SUPERSEDED] c(2,5,6) db2 by (simp add: decided_by_def)
qed

lemma new_operation_plans:
  assumes "plans g db" and "new_operation sha isofmt lp db x kind tid = Inr (db', a)"
  shows "plans g db'"
proof -
  obtain i db1 r db2 db3 current ordinal transition state db4 pg where s: "open_requested db x i = Inr db1"
    "review_step db1 x i r = Inr db2" "decision_step db2 x i r = Inr (db3, current, ordinal, transition)"
    "run_command sha isofmt lp db3 x i r current kind tid state \<lparr>pg_ordinal = ordinal, pg_transition = transition, pg_version = op_expected_version x,
      pg_approval = None, pg_attempt = None, pg_run = None, pg_runtime = None, pg_plan = None\<rparr> = Inr (db4, pg)"
    "record_operation sha isofmt db4 x i kind tid pg = Inr (db', a)"
    using assms(2) by (rule new_operationE)
  have 1: "wb_plans db1 = wb_plans db \<and> wb_approvals db1 = wb_approvals db"
    using s(1) by (auto simp: open_requested_def open_intervention_def insert_request_def insert_transition_def split: if_splits option.splits)
  have 3: "wb_plans db3 = wb_plans db2 \<and> wb_approvals db3 = wb_approvals db2"
    using s(3) by (auto simp: decision_step_def insert_decision_def advance_def insert_transition_def set_intervention_def split: if_splits option.splits)
  have "plans g db3" using assms(1) 1 3 review_step_tables [OF s(2)] by (simp add: control_tables_def)
  then have "plans g db4"
  proof (cases "op_command x \<in> {APPROVE_AND_CONTINUE, REJECT_PLAN, CORRECT_PLAN}")
    case True
    then show ?thesis using s(4) \<open>plans g db3\<close>
      by (auto simp: run_command_def dest: persist_plan_operation_plans persist_correction_plans)
  qed (use run_command_tables(3) [OF s(4)] in simp)
  then show ?thesis using record_operation_tables(1) [OF s(5)] by (simp add: control_tables_def)
qed

lemma new_command_plans:
  assumes "plans False db" and "new_command db c = Inr (db', a)"
  shows "plans False db'"
proof -
  let ?i = "iq_id (ac_request c)" and ?u = "atomic_applied c"
  obtain db1 db2 db3 db4 db5 row where s: "insert_request db (ac_request c) = Inr db1" "insert_transition db1 (atomic_requested c) = Inr db2"
    "control_tables db3 = control_tables db2" "insert_transition db3 ?u = Inr db4" "atomic_successors (set_intervention db4 ?i (tr_to ?u) 2) c = Inr db5"
    "control_tables db' = (AList.update (atomic_key c) row (wb_claims db5), wb_interventions db5, wb_transitions db5, wb_plans db5, wb_approvals db5)"
    using assms(2) by (rule new_commandE)
  have "plans False (set_intervention db4 ?i (tr_to ?u) 2)"
    using assms(1) s(1,2,3,4) by (auto simp: insert_request_def insert_transition_def control_tables_def set_intervention_def split: option.splits)
  then have "plans False db5" using atomic_successors_tables [OF s(5)] by (auto simp: control_tables_def dest: insert_plan_row_plans)
  then show ?thesis using s(6) by (simp add: control_tables_def)
qed

lemma governed_keeps_plans:
  assumes "governed_step sha isofmt db db'" and ok: "plans g db"
  shows "plans g db'"
  using assms(1)
proof (cases rule: governed_step.cases)
  case (operation lp x a)
  from operation(1) show ?thesis
  proof (cases rule: persist_operation_cases)
    case (fresh kind tid)
    then show ?thesis using new_operation_plans [OF _ fresh(3)] ok by simp
  qed (use ok in simp)
next
  case (prepared p a)
  then have "insert_plan_row db (plan_columns p) = Inr db'" "pn_status (plan_columns p) = PENDING_APPROVAL"
    by (auto simp: prepare_plan_entry_def create_plan_def plan_columns_def split: if_splits)
  then show ?thesis by (intro insert_plan_row_plans [OF ok])
next
  case (approved ap n now a)
  then show ?thesis using append_approval_plans [OF ok] by (auto simp: approve_plan_entry_def split: if_splits option.splits)
next
  case (approval ap now a)
  then show ?thesis by (rule append_approval_plans [OF ok])
next
  case environment
  then show ?thesis using ok by (simp add: control_tables_def)
qed (use ok in \<open>auto simp: request_intervention_def open_intervention_def append_transition_def append_review_def append_decision_def complete_plan_entry_def
    advance_def set_intervention_def insert_request_def insert_transition_def insert_review_def insert_decision_def split: if_splits option.splits json.splits\<close>)

lemma step_keeps_plans:
  assumes "control_step sha isofmt db db'" and ok: "plans False db"
  shows "plans False db'"
  using assms(1)
proof (cases rule: control_step.cases)
  case governed
  then show ?thesis by (rule governed_keeps_plans [OF _ ok])
next
  case (appended t n a)
  then show ?thesis using ok by (auto simp: append_transition_def set_intervention_def insert_transition_def split: if_splits option.splits)
next
  case (created p a)
  then show ?thesis using insert_plan_row_plans [OF ok] by (auto simp: create_plan_def)
next
  case (replaced i v s n now a)
  then obtain p where p: "map_of (wb_plans db) (i, v) = Some p" "pn_status p \<notin> set IMMUTABLE_PLANS" "db' = set_plan db p s now"
    by (auto simp: replace_plan_status_def split: option.splits if_splits)
  then show ?thesis using set_plan_plans [OF ok p(1)] by (auto simp: decided_by_def IMMUTABLE_PLANS_def)
next
  case (swapped kind i s n a)
  then show ?thesis using ok by (auto simp: compare_and_swap_target_def control_tables_def dest!: move_target_tables)
next
  case (persisted c a)
  from persisted(1) show ?thesis
  proof (cases rule: persist_cases)
    case (fresh r)
    then show ?thesis using new_command_plans [OF _ fresh(2)] ok by simp
  qed (use ok in simp)
qed

lemma reachable_plans: "control_reachable sha isofmt db \<Longrightarrow> plans False db"
proof (induction rule: control_reachable.induct)
  case (initial db)
  then show ?case by (simp add: control_tables_def plans_ok_def approvals_for_def)
qed (rule step_keeps_plans)

lemma governed_plans: "governed_reachable sha isofmt db \<Longrightarrow> plans True db"
proof (induction rule: governed_reachable.induct)
  case (started db)
  then show ?case by (simp add: control_tables_def plans_ok_def approvals_for_def)
qed (rule governed_keeps_plans)

text \<open>
  C29: a plan is decided at most once, and its status agrees with the decision. Whatever transactions of the repository have run, a plan has no decision, or exactly one, which is
  for the very digest of the plan: an approval, and then the plan is approved or was superseded later, or a rejection, and then it is rejected. The converse is a matter of the
  callers: the repository lets \<open>create_plan\<close>, \<open>replace_plan_status\<close> and \<open>persist\<close> set a status without a decision. When only the transactions of the services run,
  an approved plan has exactly one decision, its approval, and a rejected plan exactly one, its rejection.
\<close>

theorem approved_plan_has_its_approval:
  assumes "control_reachable sha isofmt db" and "get_plan db i v = Some p"
  shows "(read_approvals db i v = [] \<or> (\<exists>a. read_approvals db i v = [a] \<and> ap_plan_digest a = pn_digest p \<and>
        (ap_decision a = ''APPROVE'' \<and> pn_status p \<in> {APPROVED, SUPERSEDED} \<or> ap_decision a = ''REJECT'' \<and> pn_status p = REJECTED))) \<and>
    (governed_reachable sha isofmt db \<longrightarrow>
      (pn_status p = APPROVED \<longrightarrow> (\<exists>a. read_approvals db i v = [a] \<and> ap_decision a = ''APPROVE'' \<and> ap_plan_digest a = pn_digest p)) \<and>
      (pn_status p = REJECTED \<longrightarrow> (\<exists>a. read_approvals db i v = [a] \<and> ap_decision a = ''REJECT'' \<and> ap_plan_digest a = pn_digest p)))"
proof -
  have "filter (\<lambda>a. ap_plan a = i \<and> ap_plan_version a = v) (wb_approvals db) = approvals_for (wb_approvals db) (i, v)" by (simp add: approvals_for_def)
  moreover have "plan_decided False p (approvals_for (wb_approvals db) (i, v))"
    using plans_okD(1) [OF reachable_plans [OF assms(1)]] assms(2) by (simp add: get_plan_def)
  moreover have "plan_decided True p (approvals_for (wb_approvals db) (i, v))" if "governed_reachable sha isofmt db"
    using plans_okD(1) [OF governed_plans [OF that]] assms(2) by (simp add: get_plan_def)
  ultimately show ?thesis by (auto simp: plan_decided_def decided_by_def read_approvals_def)
qed

subsection \<open>Moves of targets\<close>

text \<open>What a command may do to the control state of its target.\<close>

definition command_moves :: "control_operation \<Rightarrow> target_kind \<Rightarrow> string \<Rightarrow> string \<Rightarrow> bool" where
  "command_moves x kind s s' = (case op_command x of
     APPROVE_AND_CONTINUE \<Rightarrow> s = ''PAUSED'' \<and> s' = ''RESUME_REQUESTED''
   | CANCEL_CONTROLLED_EXECUTION \<Rightarrow> s \<notin> set TERMINAL_TARGETS \<and> s' = ''CANCELLATION_PENDING''
   | COMPLETE_EXECUTION_WITH_OUTCOME \<Rightarrow> s \<notin> set TERMINAL_TARGETS \<and> s' \<in> set (TERMINAL_STATES kind) \<and> op_terminal_state x = Some s'
   | APPLY_INTERVENTION_DECISION \<Rightarrow> target_allows kind s s'
   | _ \<Rightarrow> False)"

lemma target_row_tables: "target_tables db' = target_tables db \<Longrightarrow> target_row db' k i = target_row db k i"
  by (cases k) (simp_all add: target_tables_def target_row_def)

lemma move_target_row:
  assumes "move_target db k i s e = Inr (db', n)"
  shows "\<exists>s0. target_row db k i = Some (s0, e) \<and> n = e + 1" and "target_row db' k' j = (if k' = k \<and> j = i then Some (s, e + 1) else target_row db k' j)"
  using assms by (auto simp: move_target_def target_row_def move_row_def split: option.splits if_splits target_kind.splits)

lemma nonterminal_moves: "target_allows k s s' \<Longrightarrow> s \<notin> set TERMINAL_TARGETS"
  by (cases k) (auto simp: target_allows_def dict_get_def TARGET_TRANSITIONS_def TERMINAL_TARGETS_def)

lemma command_moves_nonterminal: "command_moves x k s s' \<Longrightarrow> s \<notin> set TERMINAL_TARGETS"
  by (cases "op_command x") (auto simp: command_moves_def TERMINAL_TARGETS_def dest: nonterminal_moves)

lemma insert_plan_row_targets: "insert_plan_row db p = Inr db' \<Longrightarrow> target_tables db' = target_tables db"
  by (auto simp: insert_plan_row_def target_tables_def)

lemma set_plan_targets [simp]: "target_tables (set_plan db p s now) = target_tables db"
  by (simp add: set_plan_def target_tables_def)

lemma insert_approval_targets: "insert_approval db a = Inr db' \<Longrightarrow> target_tables db' = target_tables db"
  by (auto simp: insert_approval_def target_tables_def)

lemma insert_correction_targets: "insert_correction db c = Inr db' \<Longrightarrow> target_tables db' = target_tables db"
  by (auto simp: insert_correction_def target_tables_def)

lemma advance_targets: "advance db t = Inr db' \<Longrightarrow> target_tables db' = target_tables db"
  by (auto simp: advance_def insert_transition_def set_intervention_def target_tables_def split: option.splits)

lemma persist_correction_targets: "persist_correction db x = Inr (db', k) \<Longrightarrow> target_tables db' = target_tables db"
  by (auto simp: persist_correction_def split: option.splits if_splits dest!: insert_plan_row_targets insert_correction_targets)

lemma retry_failed_attempt_rows:
  "retry_failed_attempt sha isofmt lp db x kind tid = Inr (db', a) \<Longrightarrow> target_row db k i = Some w \<Longrightarrow> target_row db' k i = Some w"
  by (cases k) (auto simp: retry_failed_attempt_def insert_attempt_def target_row_def split: option.splits if_splits prod.splits)

lemma create_successor_run_rows:
  "create_successor_run db x kind tid = Inr (db', a) \<Longrightarrow> target_row db k i = Some w \<Longrightarrow> target_row db' k i = Some w"
  by (cases k) (auto simp: create_successor_run_def insert_run_def target_row_def split: option.splits if_splits prod.splits)

text \<open>Either a row is as before, or it is the target and has moved.\<close>

definition moved :: "control_operation \<Rightarrow> target_kind \<Rightarrow> string \<Rightarrow> string \<Rightarrow> control_db \<Rightarrow> control_db \<Rightarrow> bool" where
  "moved x kind tid s db db' = (\<exists>s'. command_moves x kind s s' \<and>
     (\<forall>k i. target_row db' k i = (if k = kind \<and> i = tid then Some (s', op_expected_version x + 1) else target_row db k i)))"

lemma move_target_moved:
  "move_target db kind tid s' (op_expected_version x) = Inr (db', n) \<Longrightarrow> command_moves x kind s s' \<Longrightarrow> moved x kind tid s db db'"
proof -
  assume m: "move_target db kind tid s' (op_expected_version x) = Inr (db', n)" and c: "command_moves x kind s s'"
  show ?thesis unfolding moved_def using c move_target_row(2) [OF m] by blast
qed

lemma moved_tables:
  "moved x kind tid s db db' \<Longrightarrow> target_tables db0 = target_tables db \<Longrightarrow> target_tables db1 = target_tables db' \<Longrightarrow> moved x kind tid s db0 db1"
  unfolding moved_def by (metis target_row_tables)

lemma persist_plan_operation_moved:
  assumes "persist_plan_operation db x kind tid state v = Inr (db', n, a)"
  shows "moved x kind tid state db db' \<or> target_tables db' = target_tables db"
proof -
  obtain p db1 where one: "target_tables db1 = target_tables db" "kind = RUN_TARGET" and alt: "db' = set_plan db1 p REJECTED (op_requested_at x) \<or>
      op_command x = APPROVE_AND_CONTINUE \<and> state = ''PAUSED'' \<and>
      move_target (set_plan db1 p APPROVED (op_requested_at x)) RUN_TARGET tid ''RESUME_REQUESTED'' (op_expected_version x) = Inr (db', n)"
    using assms by (auto simp: persist_plan_operation_def Let_def split: option.splits if_splits prod.splits dest!: insert_approval_targets) blast
  from alt show ?thesis
  proof
    assume a: "op_command x = APPROVE_AND_CONTINUE \<and> state = ''PAUSED'' \<and>
      move_target (set_plan db1 p APPROVED (op_requested_at x)) RUN_TARGET tid ''RESUME_REQUESTED'' (op_expected_version x) = Inr (db', n)"
    then have "moved x kind tid state (set_plan db1 p APPROVED (op_requested_at x)) db'"
      using one(2) by (intro move_target_moved) (auto simp: command_moves_def)
    then show ?thesis using one(1) moved_tables by fastforce
  qed (simp add: one)
qed

lemma apply_decision_moved:
  assumes "op_command x = APPLY_INTERVENTION_DECISION" "apply_decision db x i current n kind tid state = Inr (db', m)"
  shows "moved x kind tid state db db'"
proof -
  obtain t1 db1 s db2 v t2 where a: "advance db t1 = Inr db1" "target_allows kind state s" "move_target db1 kind tid s (op_expected_version x) = Inr (db2, v)"
      "advance db2 t2 = Inr db'"
    using assms(2) by (auto simp: apply_decision_def split: if_splits option.splits json.splits)
  have "moved x kind tid state db1 db2" using a(2,3) assms(1) by (intro move_target_moved) (auto simp: command_moves_def)
  then show ?thesis using advance_targets [OF a(1)] advance_targets [OF a(4)] moved_tables by fastforce
qed

lemma run_command_moved:
  assumes "run_command sha isofmt lp db x i r current kind tid state pg = Inr (db', pg')"
  shows "moved x kind tid state db db' \<or> (\<forall>k j w. target_row db k j = Some w \<longrightarrow> target_row db' k j = Some w)"
proof -
  have keep: "target_tables db' = target_tables db \<Longrightarrow> \<forall>k j w. target_row db k j = Some w \<longrightarrow> target_row db' k j = Some w"
    by (metis target_row_tables)
  show ?thesis
  proof (cases "op_command x")
    case CANCEL_CONTROLLED_EXECUTION
    then obtain n where "move_target db kind tid ''CANCELLATION_PENDING'' (op_expected_version x) = Inr (db', n)" "state \<notin> set TERMINAL_TARGETS"
      using assms by (auto simp: run_command_def split: if_splits)
    then show ?thesis using CANCEL_CONTROLLED_EXECUTION by (intro disjI1 move_target_moved) (auto simp: command_moves_def)
  next
    case COMPLETE_EXECUTION_WITH_OUTCOME
    then obtain n s where "move_target db kind tid s (op_expected_version x) = Inr (db', n)" "state \<notin> set TERMINAL_TARGETS" "op_terminal_state x = Some s"
        "s \<in> set (TERMINAL_STATES kind)"
      using assms by (auto simp: run_command_def complete_terminal_target_def split: if_splits option.splits)
    then show ?thesis using COMPLETE_EXECUTION_WITH_OUTCOME by (intro disjI1 move_target_moved [where s' = s]) (auto simp: command_moves_def)
  next
    case APPLY_INTERVENTION_DECISION
    then show ?thesis using assms apply_decision_moved [OF APPLY_INTERVENTION_DECISION] by (auto simp: run_command_def)
  next
    case APPROVE_AND_CONTINUE
    then show ?thesis using assms keep by (auto simp: run_command_def dest!: persist_plan_operation_moved)
  next
    case REJECT_PLAN
    then show ?thesis using assms keep by (auto simp: run_command_def dest!: persist_plan_operation_moved)
  next
    case CORRECT_PLAN
    then show ?thesis using assms keep by (auto simp: run_command_def dest!: persist_correction_targets)
  next
    case RETRY_ATTEMPT
    then show ?thesis using assms by (auto simp: run_command_def dest: retry_failed_attempt_rows)
  next
    case CREATE_SUCCESSOR_RUN
    then show ?thesis using assms by (auto simp: run_command_def dest: create_successor_run_rows)
  qed (use assms in \<open>auto simp: run_command_def split: if_splits option.splits\<close>)
qed

lemma new_operation_moved:
  assumes "new_operation sha isofmt lp db x kind tid = Inr (db', a)" and w: "target_row db k j = Some (s, v)"
  shows "target_row db' k j = Some (s, v) \<or> k = kind \<and> j = tid \<and> v = op_expected_version x \<and> (\<exists>s'. command_moves x k s s' \<and> target_row db' k j = Some (s', v + 1))"
proof -
  obtain i db1 r db2 db3 current ordinal transition state db4 pg where st: "open_requested db x i = Inr db1" "review_step db1 x i r = Inr db2"
    "decision_step db2 x i r = Inr (db3, current, ordinal, transition)" "target_row db3 kind tid = Some (state, op_expected_version x)"
    "run_command sha isofmt lp db3 x i r current kind tid state \<lparr>pg_ordinal = ordinal, pg_transition = transition, pg_version = op_expected_version x,
      pg_approval = None, pg_attempt = None, pg_run = None, pg_runtime = None, pg_plan = None\<rparr> = Inr (db4, pg)"
    "record_operation sha isofmt db4 x i kind tid pg = Inr (db', a)"
    using assms(1) by (rule new_operationE)
  have "target_tables db1 = target_tables db"
    using st(1) by (auto simp: open_requested_def open_intervention_def insert_request_def insert_transition_def target_tables_def split: if_splits option.splits)
  moreover have "target_tables db3 = target_tables db2"
    using st(3) by (auto simp: decision_step_def insert_decision_def target_tables_def split: if_splits option.splits dest!: advance_targets)
  ultimately have db3: "target_row db3 k j = Some (s, v)" using review_step_tables [OF st(2)] w target_row_tables by metis
  have db': "target_row db' k j = target_row db4 k j" using record_operation_tables(2) [OF st(6)] by (rule target_row_tables)
  from run_command_moved [OF st(5)] show ?thesis
  proof
    assume "moved x kind tid state db3 db4"
    then obtain s' where "command_moves x kind state s'" "target_row db4 k j = (if k = kind \<and> j = tid then Some (s', op_expected_version x + 1) else target_row db3 k j)"
      by (auto simp: moved_def)
    then show ?thesis using db3 db' st(4) by (cases "k = kind \<and> j = tid") auto
  qed (use db3 db' in simp)
qed

text \<open>
  C10: an operation moves nothing but its target, once, and only from the version it expects. A run, task run or attempt keeps its control state and version, or it is the target of
  the operation, was at the expected version and not in a terminal state, and takes the one step that the command allows. So no terminal state is ever left,
  and of two operations that expect the same version at most one moves the target.
\<close>

theorem operation_moves_only_its_target:
  assumes "persist_operation sha isofmt lp db x True = Inr (db', a)" and "target_row db k j = Some (s, v)"
  shows "target_row db' k j = Some (s, v) \<or>
    target_of (op_target x) = Some (k, j) \<and> v = op_expected_version x \<and> s \<notin> set TERMINAL_TARGETS \<and>
      (\<exists>s'. command_moves x k s s' \<and> target_row db' k j = Some (s', v + 1))"
  using assms(1)
proof (cases rule: persist_operation_cases)
  case (fresh kind tid)
  have "target_row (db\<lparr>wb_claims := c\<rparr>) k j = Some (s, v)" for c using assms(2) by (cases k) (simp_all add: target_row_def)
  from new_operation_moved [OF fresh(3) this] show ?thesis using fresh(2) command_moves_nonterminal by blast
qed (use assms(2) in simp)

subsection \<open>What a digest does not cover\<close>

text \<open>
  C38: the digest that tells two operations with the same key apart does not cover the intervention, the review and the decision. An operation that repeats the key with another
  intervention or the opposite decision is not refused as a mismatch: it gets the answer of the first one, and its own decision is dropped.
\<close>

theorem opposite_decision_is_replayed:
  assumes "persist_operation sha isofmt lp db x True = Inr (db', a)"
  shows "persist_operation sha isofmt lp' db' (x\<lparr>op_intervention := i, op_review := v, op_decision := d\<rparr>) True = Inr (db', a\<lparr>or_replayed := True\<rparr>)"
proof -
  let ?y = "x\<lparr>op_intervention := i, op_review := v, op_decision := d\<rparr>"
  have y: "claim_of ?y = claim_of x" "operation_digest sha isofmt ?y = operation_digest sha isofmt x"
    by (simp_all add: claim_of_def operation_digest_def payload_json_def)
  have "op_evidence ?y \<noteq> []" "target_of (op_target ?y) \<noteq> None"
    using assms by (auto simp: persist_operation_def split: if_splits option.splits)
  then show ?thesis using persist_operation_answered [OF assms] y
    by (auto simp: persist_operation_def answered_def split: option.splits)
qed

subsection \<open>An intervention in a run\<close>

definition example_sha :: "string \<Rightarrow> string" where
  "example_sha s = replicate 64 (CHR ''0'')"

definition example_iso :: "int \<Rightarrow> string" where
  "example_iso t = show_int t"

definition example_lineage :: lineage_port where
  "example_lineage = \<lparr>lp_prepare = (\<lambda>x r. Inr None), lp_append = (\<lambda>x. Inr ())\<rparr>"

definition example_run :: run_row where
  "example_run = \<lparr>ct_state = ''RUNNING'', ct_version = 1, rn_assignment = ''as'', rn_revision = ''v'', rn_plan = Some ''p'', rn_plan_version = Some 1,
     rn_plan_digest = Some (example_sha []), rn_predecessor = None, rn_correction = None, rn_record = []\<rparr>"

definition example_control :: control_db where
  "example_control = \<lparr>wb_plans = [], wb_approvals = [], wb_corrections = [], wb_runs = [(''r1'', example_run)], wb_tasks = [], wb_attempts = [], wb_interventions = [],
     wb_transitions = [], wb_reviews = [], wb_decisions = [], wb_claims = [], wb_commands = [], wb_evidence = [], wb_outcomes = [], wb_evidence_links = [],
     wb_outcome_links = [], wb_placements = [], wb_runtime_commands = [], wb_definitions = [''w''], wb_assignments = [''as'']\<rparr>"

definition example_target :: intervention_target where
  "example_target = \<lparr>it_run = Some ''r1'', it_task = None, it_attempt = None\<rparr>"

definition example_entry :: "string \<Rightarrow> evidence_entry" where
  "example_entry i = \<lparr>ey_id = i, ey_execution = ''x'', ey_workflow = ''w'', ey_task = ''t'', ey_attempt_ordinal = 1, ey_event_ordinal = 1, ey_event_type = ''E'',
     ey_occurred_at = 1, ey_recorded_at = 1, ey_digest = example_sha [], ey_bytes = ''{}'', ey_record = []\<rparr>"

definition example_operation :: "command_type \<Rightarrow> string \<Rightarrow> control_operation" where
  "example_operation c i = \<lparr>op_scope = \<lparr>namespace = ''n'', security_domain = ''d''\<rparr>, op_command = c, op_actor = ''u'', op_key = ''k'', op_payload = [], op_command_id = i,
     op_requested_at = 1, op_retain_until = 2, op_target = example_target, op_expected_version = 1, op_intervention = Some ''i1'', op_transition = None, op_review = None,
     op_decision = None, op_plan = None, op_plan_version = None, op_plan_digest = None, op_approval = None, op_successor = None, op_placement = None,
     op_runtime_command = None, op_affected_attempt = None, op_evidence_ids = [], op_outcome_ids = [],
     op_request = Some \<lparr>iq_id = ''i1'', iq_action = ''CANCEL'', iq_reason = ''POLICY'', iq_actor = ''u'', iq_basis = ''b'', iq_expected_version = 1, iq_target = example_target,
       iq_fact = [], iq_at = 1\<rparr>, op_successor_plan = None, op_correction = None, op_evidence = [example_entry i], op_outcomes = [], op_terminal_state = None\<rparr>"

definition example_request_op :: control_operation where
  "example_request_op = example_operation REQUEST_INTERVENTION ''c1''"

definition example_cancel_op :: "string \<Rightarrow> control_operation" where
  "example_cancel_op decision = (example_operation CANCEL_CONTROLLED_EXECUTION ''c2'')\<lparr>
     op_review := Some \<lparr>rv_id = ''v1'', rv_intervention = ''i1'', rv_actor = ''u'', rv_basis = ''b'', rv_at = 1\<rparr>,
     op_decision := Some \<lparr>dn_id = ''d1'', dn_intervention = ''i1'', dn_review = ''v1'', dn_decision = decision, dn_actor = ''u'', dn_basis = ''b'', dn_reason = ''POLICY'', dn_at = 1\<rparr>\<rparr>"

definition example_persist :: "control_db \<Rightarrow> control_operation \<Rightarrow> operation_result control_tx" where
  "example_persist db x = persist_operation example_sha example_iso example_lineage db x True"

definition example_after :: control_db where
  "example_after = (case example_persist example_control example_request_op of Inr (db, _) \<Rightarrow> db | Inl _ \<Rightarrow> example_control)"

lemmas example_control_simps = example_persist_def persist_operation_def example_operation_def example_request_op_def example_control_def example_target_def target_of_def claim_of_def new_operation_def open_requested_def open_intervention_def insert_request_def insert_transition_def requested_transition_def requested_id_def either_def intervention_target_init_def target_values_def ACTION_TYPES_def REASON_CATEGORIES_def target_known_def known_def review_step_def decision_step_def target_row_def run_command_def record_operation_def create_operation_facts_def insert_evidence_def example_entry_def ascii_json_def ascii_escape_def insert_command_def command_entry_def link_operation_facts_def evidence_of_def outcomes_of_def fact_links_def example_sha_def Let_def example_run_def example_cancel_op_def insert_review_def insert_decision_def advance_def set_intervention_def decision_transition_def decision_state_def move_target_def CONTROL_STATES_def TERMINAL_TARGETS_def run_binding_ok_def move_row_def octets_between_def utf8_length_def command_value_def

lemma example_requested: "is_ok (example_persist example_control example_request_op)"
  by (simp add: example_control_simps)

lemma example_cancelled: "is_ok (example_persist example_after (example_cancel_op ''AUTHORIZE''))"
  by (simp add: example_after_def example_control_simps)

definition example_cancelled_db :: control_db where
  "example_cancelled_db = (case example_persist example_after (example_cancel_op ''AUTHORIZE'') of Inr (db, _) \<Rightarrow> db | Inl _ \<Rightarrow> example_after)"

lemma example_states:
  "target_row example_after RUN_TARGET ''r1'' = Some (''RUNNING'', 1)"
  "map_option iv_state (map_of (wb_interventions example_cancelled_db) ''i1'') = Some I_AUTHORIZED"
  "target_row example_cancelled_db RUN_TARGET ''r1'' \<noteq> Some (''RUNNING'', 1)"
  by (simp_all add: example_cancelled_db_def example_after_def example_control_simps)

lemma example_first: "\<exists>a. persist_operation example_sha example_iso example_lineage example_control example_request_op True = Inr (example_after, a)"
proof -
  obtain db a where r: "example_persist example_control example_request_op = Inr (db, a)"
    using example_requested by (auto simp: is_ok_iff)
  then have "db = example_after" by (simp add: example_after_def)
  then show ?thesis using r by (auto simp: example_persist_def)
qed

lemma example_second:
  "\<exists>a. persist_operation example_sha example_iso example_lineage example_after (example_cancel_op ''AUTHORIZE'') True = Inr (example_cancelled_db, a)"
proof -
  obtain db a where r: "example_persist example_after (example_cancel_op ''AUTHORIZE'') = Inr (db, a)"
    using example_cancelled by (auto simp: is_ok_iff)
  then have "db = example_cancelled_db" by (simp add: example_cancelled_db_def)
  then show ?thesis using r by (auto simp: example_persist_def)
qed

lemma example_governed: "governed_reachable example_sha example_iso example_cancelled_db"
proof -
  obtain a b where ab: "persist_operation example_sha example_iso example_lineage example_control example_request_op True = Inr (example_after, a)"
    "persist_operation example_sha example_iso example_lineage example_after (example_cancel_op ''AUTHORIZE'') True = Inr (example_cancelled_db, b)"
    using example_first example_second by blast
  have "governed_reachable example_sha example_iso example_control" by (rule started) (simp add: control_tables_def example_control_def)
  then have "governed_reachable example_sha example_iso example_after" by (rule continued) (rule operation [OF ab(1)])
  then show ?thesis by (rule continued) (rule operation [OF ab(2)])
qed

theorem control_answers_are_stable_witness:
  "\<exists>a. persist_operation example_sha example_iso example_lineage example_control example_request_op True = Inr (example_after, a) \<and>
     persist_operation example_sha example_iso example_lineage example_cancelled_db example_request_op True = Inr (example_cancelled_db, a\<lparr>or_replayed := True\<rparr>)"
proof -
  obtain a b where ab: "persist_operation example_sha example_iso example_lineage example_control example_request_op True = Inr (example_after, a)"
    "persist_operation example_sha example_iso example_lineage example_after (example_cancel_op ''AUTHORIZE'') True = Inr (example_cancelled_db, b)"
    using example_first example_second by blast
  have "(control_step example_sha example_iso)\<^sup>*\<^sup>* example_after example_cancelled_db" by (rule r_into_rtranclp) (rule operation_step [OF ab(2)])
  from control_answers_are_stable [OF ab(1) this, of example_request_op example_lineage] ab(1) show ?thesis
    by (auto simp: example_request_op_def example_operation_def example_target_def target_of_def)
qed

theorem intervention_journal_complete_witness:
  "\<exists>r. map_of (wb_interventions example_cancelled_db) ''i1'' = Some r \<and> iv_state r = I_AUTHORIZED \<and>
     map tr_ordinal (read_transitions example_cancelled_db ''i1'') = [1..iv_version r] \<and> chain None (read_transitions example_cancelled_db ''i1'') = Some (iv_state r)"
proof -
  obtain r where r: "map_of (wb_interventions example_cancelled_db) ''i1'' = Some r" "iv_state r = I_AUTHORIZED" using example_states(2) by auto
  from intervention_journal_complete [OF governed_is_reachable [OF example_governed] r(1)] example_governed r show ?thesis by blast
qed

theorem operation_moves_only_its_target_witness:
  "target_row example_cancelled_db RUN_TARGET ''r1'' = Some (''CANCELLATION_PENDING'', 2)"
proof -
  obtain b where b: "persist_operation example_sha example_iso example_lineage example_after (example_cancel_op ''AUTHORIZE'') True = Inr (example_cancelled_db, b)"
    using example_second by blast
  from operation_moves_only_its_target [OF b example_states(1)] example_states(3) show ?thesis
    by (auto simp: command_moves_def example_cancel_op_def example_operation_def)
qed

theorem opposite_decision_is_replayed_witness:
  "\<exists>a. persist_operation example_sha example_iso example_lineage example_after (example_cancel_op ''AUTHORIZE'') True = Inr (example_cancelled_db, a) \<and>
     persist_operation example_sha example_iso example_lineage example_cancelled_db (example_cancel_op ''REJECT'') True = Inr (example_cancelled_db, a\<lparr>or_replayed := True\<rparr>)"
proof -
  obtain b where b: "persist_operation example_sha example_iso example_lineage example_after (example_cancel_op ''AUTHORIZE'') True = Inr (example_cancelled_db, b)"
    using example_second by blast
  have "example_cancel_op ''REJECT'' = (example_cancel_op ''AUTHORIZE'')\<lparr>op_intervention := op_intervention (example_cancel_op ''REJECT''),
      op_review := op_review (example_cancel_op ''REJECT''), op_decision := op_decision (example_cancel_op ''REJECT'')\<rparr>"
    by (simp add: example_cancel_op_def)
  with opposite_decision_is_replayed [OF b] b show ?thesis by metis
qed

definition example_plan :: plan_record where
  "example_plan = \<lparr>pn_scope = \<lparr>namespace = ''n'', security_domain = ''d''\<rparr>, pn_id = ''p'', pn_version = 1, pn_definition = ''w'', pn_definition_revision = ''v'',
     pn_definition_digest = example_sha [], pn_status = PENDING_APPROVAL, pn_aggregate = 1, pn_digest = example_sha [], pn_bytes = [], pn_created = 1, pn_updated = 1,
     pn_predecessor = None, pn_predecessor_version = None, pn_source_revision = None, pn_source_digest = None, pn_actor = None, pn_authority = None,
     pn_correction_reason = None\<rparr>"

definition example_approval :: approval_decision where
  "example_approval = \<lparr>ap_id = ''a1'', ap_plan = ''p'', ap_plan_version = 1, ap_plan_digest = example_sha [], ap_ordinal = 1, ap_decision = ''APPROVE'', ap_actor = ''u'',
     ap_basis = ''b'', ap_reason = ''BUSINESS_APPROVAL'', ap_digest = example_sha [], ap_at = 1\<rparr>"

theorem approved_plan_has_its_approval_witness:
  "\<exists>db1 db2 p a. prepare_plan_entry example_sha example_control example_plan True = Inr (db1, example_plan) \<and>
     approve_plan_entry db1 example_approval 1 True 1 = Inr (db2, example_approval) \<and> get_plan db2 ''p'' 1 = Some p \<and> pn_status p = APPROVED \<and>
     read_approvals db2 ''p'' 1 = [a] \<and> ap_decision a = ''APPROVE''"
proof -
  obtain db1 where 1: "prepare_plan_entry example_sha example_control example_plan True = Inr (db1, example_plan)"
      "db1 = example_control\<lparr>wb_plans := [((''p'', 1), example_plan)]\<rparr>"
    by (simp add: prepare_plan_entry_def create_plan_def plan_columns_def insert_plan_row_def plan_allowed_def plan_key_def predecessor_key_def example_plan_def example_control_def
      octets_between_def utf8_length_def example_sha_def)
  obtain db2 p where 2: "approve_plan_entry db1 example_approval 1 True 1 = Inr (db2, example_approval)" "get_plan db2 ''p'' 1 = Some p" "pn_status p = APPROVED"
    by (simp add: 1(2) approve_plan_entry_def append_approval_def insert_approval_def approval_allowed_def set_plan_def plan_key_def get_plan_def example_plan_def
      example_approval_def example_control_def octets_between_def utf8_length_def example_sha_def APPROVAL_REASONS_def)
  have "governed_reachable example_sha example_iso example_control" by (rule started) (simp add: control_tables_def example_control_def)
  then have "governed_reachable example_sha example_iso db1" by (rule continued) (rule prepared [OF 1(1)])
  then have "governed_reachable example_sha example_iso db2" by (rule continued) (rule approved [OF 2(1)])
  from approved_plan_has_its_approval [OF governed_is_reachable [OF this] 2(2)] this 1 2 show ?thesis by blast
qed

subsection \<open>What the repository leaves to its callers\<close>

text \<open>An appended transition may skip ordinals: the journal of the example is then numbered 1 and 7, at version 2.\<close>

definition example_skip :: intervention_transition where
  "example_skip = \<lparr>tr_id = ''t7'', tr_intervention = ''i1'', tr_ordinal = 7, tr_from = Some I_REQUESTED, tr_to = I_CANCELLED, tr_actor = ''u'', tr_basis = ''b'', tr_reason = ''POLICY'', tr_at = 1\<rparr>"

lemma ordinals_may_skip:
  "\<exists>db r. control_reachable example_sha example_iso db \<and> map_of (wb_interventions db) ''i1'' = Some r \<and> iv_version r = 2 \<and> map tr_ordinal (read_transitions db ''i1'') = [1, 7]"
proof -
  have "control_reachable example_sha example_iso example_control" by (rule initial) (simp add: control_tables_def example_control_def)
  then have "control_reachable example_sha example_iso example_after" using example_first by (auto intro: stepped operation_step)
  moreover obtain db a r where "append_transition example_after example_skip 1 = Inr (db, a)" "map_of (wb_interventions db) ''i1'' = Some r" "iv_version r = 2"
      "map tr_ordinal (read_transitions db ''i1'') = [1, 7]"
    by (simp add: append_transition_def example_skip_def TRANSITIONS_def read_transitions_def example_after_def example_control_simps)
  ultimately show ?thesis by (meson appended stepped)
qed

text \<open>A status may be replaced without a decision: the plan of the example is then approved, and nobody approved it.\<close>

lemma approval_without_decision:
  "\<exists>db p. control_reachable example_sha example_iso db \<and> get_plan db ''p'' 1 = Some p \<and> pn_status p = APPROVED \<and> read_approvals db ''p'' 1 = []"
proof -
  have "control_reachable example_sha example_iso example_control" by (rule initial) (simp add: control_tables_def example_control_def)
  moreover obtain db1 a where 1: "create_plan example_control example_plan = Inr (db1, a)" "db1 = example_control\<lparr>wb_plans := [((''p'', 1), example_plan)]\<rparr>"
    by (simp add: create_plan_def plan_columns_def insert_plan_row_def plan_allowed_def plan_key_def predecessor_key_def example_plan_def example_control_def
      octets_between_def utf8_length_def example_sha_def)
  ultimately have "control_reachable example_sha example_iso db1" by (meson created stepped)
  moreover obtain db p b where "replace_plan_status db1 ''p'' 1 APPROVED 1 1 = Inr (db, b)" "get_plan db ''p'' 1 = Some p" "pn_status p = APPROVED" "read_approvals db ''p'' 1 = []"
    by (simp add: 1(2) replace_plan_status_def set_plan_def plan_key_def get_plan_def read_approvals_def example_plan_def example_control_def IMMUTABLE_PLANS_def)
  ultimately show ?thesis by (meson replaced stepped)
qed

text \<open>An atomic command that cancels the run of the example, and its replay.\<close>

definition example_atomic :: atomic_command where
  "example_atomic = \<lparr>ac_type = ''CANCEL_CONTROLLED_EXECUTION'', ac_key = ''k'', ac_digest = example_sha [],
     ac_request = \<lparr>iq_id = ''i1'', iq_action = ''CANCEL'', iq_reason = ''POLICY'', iq_actor = ''u'', iq_basis = ''b'', iq_expected_version = 1, iq_target = example_target,
       iq_fact = [], iq_at = 1\<rparr>, ac_transition = example_skip, ac_command_id = ''c1'', ac_target_state = ''CANCELLATION_PENDING'', ac_record = [], ac_retain_until = 2,
     ac_evidence_ids = [], ac_outcome_ids = [], ac_evidence = [], ac_outcomes = [], ac_plan = None, ac_run = None\<rparr>"

lemma example_atomic_persisted:
  "\<exists>db a. persist example_control example_atomic True = Inr (db, a) \<and> persist db example_atomic True = Inr (db, a\<lparr>ar_replayed := True\<rparr>) \<and>
     target_row db RUN_TARGET ''r1'' = Some (''CANCELLATION_PENDING'', 2) \<and> map_option iv_state (map_of (wb_interventions db) ''i1'') = Some I_CANCELLED"
proof -
  obtain db a where "persist example_control example_atomic True = Inr (db, a)" "target_row db RUN_TARGET ''r1'' = Some (''CANCELLATION_PENDING'', 2)"
      "map_option iv_state (map_of (wb_interventions db) ''i1'') = Some I_CANCELLED"
    by (simp add: persist_def new_command_def example_atomic_def example_skip_def atomic_key_def atomic_requested_def atomic_applied_def atomic_move_def atomic_successors_def
      atomic_entry_def TRANSITIONS_def target_allows_def dict_get_def TARGET_TRANSITIONS_def example_control_simps)
  then show ?thesis using persist_is_replayed by blast
qed

end
