(* ===== verification/Workflow_Control_Service.thy ===== *)
theory Workflow_Control_Service
  imports Workflow_Control_Safety
begin

text \<open>
  The application service of Workflow Control: \<open>agent_console/workflow_control_application.py\<close>. It validates an operation of a
  trusted principal, persists it, reads the durable facts back and only then applies the effect.

  The store is the protocol \<open>WorkflowControlStore\<close>; the locale \<open>control_store\<close> has what the service relies on, and the repository
  of the preceding theories is an instance. The effect port and the recorder of failures act on a world of their own.
\<close>

subsection \<open>Bounded input\<close>

definition re_secret_field :: regex where
  "re_secret_field = re_any [RSeq (re_literal_i ''api'') (RSeq (re_opt (re_one_of ''_-'')) (re_literal_i ''key'')), re_literal_i ''authorization'',
     re_literal_i ''bearer'', re_literal_i ''credential'', re_literal_i ''password'', re_literal_i ''secret'', re_literal_i ''token'',
     RSeq (re_literal_i ''raw'') (RSeq (re_opt (re_one_of ''_-'')) (re_literal_i ''prompt''))]"

definition CORRECTION_FIELDS :: "string list" where
  "CORRECTION_FIELDS = [''objective'', ''constraints'', ''task_instruction'', ''resource_selection'']"

definition control_identity :: "string \<Rightarrow> string \<Rightarrow> (string, string) result" where
  "control_identity s code = (if s = [] \<or> 200 < utf8_length s then Inl code else Inr s)"

definition control_text :: "string \<Rightarrow> string \<Rightarrow> (string, string) result" where
  "control_text s code = (if s = [] \<or> 256 < length s \<or> re_search re_secret_field s then Inl code else Inr s)"

text \<open>The error of \<open>_safe\<close>, if there is one; the fields of an object are checked before its values.\<close>

fun first_some :: "'a option list \<Rightarrow> 'a option" where
  "first_some [] = None"
| "first_some (None # xs) = first_some xs"
| "first_some (Some x # xs) = Some x"

fun unsafe_value :: "json \<Rightarrow> string option" where
  "unsafe_value (JObj d) = (if list_ex (\<lambda>(k, _). re_search re_secret_field k) d then Some ''PROTECTED_FIELD_REJECTED''
     else first_some (map (\<lambda>(_, v). unsafe_value v) d))"
| "unsafe_value (JList xs) = first_some (map unsafe_value xs)"
| "unsafe_value (JStr s) = (if 2000 < length s then Some ''BOUNDED_INPUT_EXCEEDED'' else None)"
| "unsafe_value _ = None"

definition safe_value :: "json \<Rightarrow> (string, unit) result" where
  "safe_value v = (case unsafe_value v of None \<Rightarrow> Inr () | Some code \<Rightarrow> Inl code)"

definition minimum_disclosure_evidence ::
  "(string \<Rightarrow> string) \<Rightarrow> string \<Rightarrow> string \<Rightarrow> string \<Rightarrow> string \<Rightarrow> int \<Rightarrow> int \<Rightarrow> string \<Rightarrow> string \<Rightarrow> string \<Rightarrow> int \<Rightarrow> (string, evidence_entry) result" where
  "minimum_disclosure_evidence sha eid workflow task execution attempt event etype category reason_code at =
     rbind (control_text category ''EVIDENCE_CATEGORY_INVALID'') (\<lambda>c.
     rbind (control_text reason_code ''EVIDENCE_REASON_INVALID'') (\<lambda>r.
     let rec = [(''category'', JStr c), (''reason_code'', JStr r)] in
     rbind (control_identity eid ''EVIDENCE_ID_INVALID'') (\<lambda>i.
     rbind (control_identity execution ''EXECUTION_ID_INVALID'') (\<lambda>e.
     rbind (control_identity workflow ''WORKFLOW_ID_INVALID'') (\<lambda>w.
     rbind (control_identity task ''TASK_ID_INVALID'') (\<lambda>t.
     rbind (control_text etype ''EVIDENCE_TYPE_INVALID'') (\<lambda>y.
     Inr \<lparr>ey_id = i, ey_execution = e, ey_workflow = w, ey_task = t, ey_attempt_ordinal = attempt, ey_event_ordinal = event, ey_event_type = y,
       ey_occurred_at = at, ey_recorded_at = at, ey_digest = sha (ascii_json (JObj rec)), ey_bytes = ascii_json (JObj rec), ey_record = rec\<rparr>)))))))"

definition terminal_outcome :: "(string \<Rightarrow> string) \<Rightarrow> string \<Rightarrow> string \<Rightarrow> string \<Rightarrow> string \<Rightarrow> (string, outcome_entry) result" where
  "terminal_outcome sha oid target state classification =
     rbind (control_text classification ''OUTCOME_CLASSIFICATION_INVALID'') (\<lambda>c.
     rbind (control_identity oid ''OUTCOME_ID_INVALID'') (\<lambda>i.
     rbind (control_identity target ''TARGET_ID_INVALID'') (\<lambda>t.
     let rec = [(''classification'', JStr c), (''terminal_state'', JStr state)] in
     Inr \<lparr>oy_id = i, oy_target = t, oy_state = state, oy_digest = canonical_digest sha (JObj rec), oy_record = rec\<rparr>)))"

definition with_default_retention :: "control_operation \<Rightarrow> int \<Rightarrow> (string, control_operation) result" where
  "with_default_retention x days = (if days < 1 \<or> 365 < days then Inl ''RETENTION_INVALID''
     else Inr (x\<lparr>op_retain_until := op_requested_at x + days * 86400000000\<rparr>))"

subsection \<open>The service\<close>

datatype control_effect_state = NOT_APPLICABLE | AUTHORIZED_PENDING | OBSERVED | RECOVERY_REQUIRED_EFFECT

record trusted_principal =
  tp_actor :: string
  tp_scope :: scope_identity
  tp_permissions :: "command_type list"

record effect_request =
  ef_command_id :: string
  ef_command :: command_type
  ef_target :: string
  ef_runtime_command :: "string option"

record control_result =
  cr_durable :: operation_result
  cr_state :: control_effect_state
  cr_observation :: "string option"
  cr_evidence :: "string list"
  cr_outcomes :: "string list"

text \<open>An effect answers with the identity of its observation, or raises.\<close>

type_synonym 'w effect_port = "'w \<Rightarrow> effect_request \<Rightarrow> 'w \<times> string option"
type_synonym 'w failure_recorder = "'w \<Rightarrow> control_operation \<Rightarrow> operation_result \<Rightarrow> evidence_entry \<Rightarrow> 'w \<times> (string, unit) result"

record 'db workflow_control_store =
  ws_persist :: "'db \<Rightarrow> control_operation \<Rightarrow> (string, 'db \<times> operation_result) result"
  ws_claimed :: "'db \<Rightarrow> claim_key \<Rightarrow> bool"
  ws_evidence :: "'db \<Rightarrow> string \<Rightarrow> string list"
  ws_outcomes :: "'db \<Rightarrow> string \<Rightarrow> string list"

definition validate_operation :: "trusted_principal \<Rightarrow> control_operation \<Rightarrow> (string, unit) result" where
  "validate_operation pr x =
     (if tp_scope pr \<noteq> op_scope x \<or> tp_actor pr \<noteq> op_actor x then Inl ''NOT_AUTHORIZED''
      else if op_command x \<notin> set (tp_permissions pr) then Inl ''NOT_AUTHORIZED''
      else if op_command x \<notin> set COMMAND_TYPES then Inl ''UNSUPPORTED_CONTROL_COMMAND''
      else rbind (control_identity (op_key x) ''IDEMPOTENCY_KEY_INVALID'') (\<lambda>_.
        rbind (control_identity (op_command_id x) ''CONTROL_COMMAND_ID_INVALID'') (\<lambda>_.
        if op_retain_until x \<le> op_requested_at x then Inl ''INVALID_COMMAND_TIME''
        else if op_evidence x = [] then Inl ''OPERATION_EVIDENCE_REQUIRED''
        else rbind (if op_command x \<noteq> CORRECT_PLAN then Inr ()
            else case op_correction x of None \<Rightarrow> Inl ''CORRECTION_REQUIRED''
            | Some c \<Rightarrow> if cn_correction c = [] then Inl ''CORRECTION_REQUIRED''
                else if \<not> list_all (\<lambda>(k, _). k \<in> set CORRECTION_FIELDS) (cn_correction c) then Inl ''CORRECTION_FIELD_NOT_ALLOWED''
                else safe_value (JObj (cn_correction c))) (\<lambda>_.
          if op_command x \<noteq> COMPLETE_EXECUTION_WITH_OUTCOME \<and> op_outcomes x \<noteq> [] then Inl ''PREMATURE_OUTCOME_REJECTED''
          else if op_command x = COMPLETE_EXECUTION_WITH_OUTCOME \<and> length (op_outcomes x) \<noteq> 1 then Inl ''TERMINAL_OUTCOME_REQUIRED''
          else safe_value (JObj (op_payload x))))))"

definition readback :: "'db workflow_control_store \<Rightarrow> 'db \<Rightarrow> control_operation \<Rightarrow> operation_result \<Rightarrow> (string, string list \<times> string list) result" where
  "readback st db x a =
     (if \<not> ws_claimed st db (claim_of x) \<or> or_command_id a \<noteq> op_command_id x then Inl ''AUTHORITATIVE_READBACK_FAILED''
      else case op_intervention x of None \<Rightarrow> Inl ''INTERVENTION_REQUIRED''
      | Some i \<Rightarrow>
          if \<not> set (map ey_id (op_evidence x)) \<subseteq> set (ws_evidence st db i) \<or> \<not> set (map oy_id (op_outcomes x)) \<subseteq> set (ws_outcomes st db i)
            then Inl ''AUTHORITATIVE_READBACK_FAILED''
          else Inr (ws_evidence st db i, ws_outcomes st db i))"

definition effect_failed ::
  "(string \<Rightarrow> string) \<Rightarrow> 'w failure_recorder option \<Rightarrow> control_operation \<Rightarrow> operation_result \<Rightarrow> string list \<Rightarrow> 'w \<Rightarrow> 'w \<times> (string, control_result) result" where
  "effect_failed sha recorder x a evidence w =
     (case minimum_disclosure_evidence sha (or_command_id a @ '':effect-failed'') (or_target a) (or_target a) (or_target a) 1 (int (length evidence) + 1)
         ''RUNTIME_EFFECT_FAILED'' ''RECOVERY_REQUIRED'' ''RUNTIME_EFFECT_FAILED'' (op_requested_at x) of
        Inl code \<Rightarrow> (w, Inl code)
      | Inr y \<Rightarrow> (case recorder of None \<Rightarrow> (w, Inl ''RUNTIME_EFFECT_FAILED_RECOVERY_REQUIRED'')
          | Some rc \<Rightarrow> (case rc w x a y of (w', Inl code) \<Rightarrow> (w', Inl code) | (w', Inr _) \<Rightarrow> (w', Inl ''RUNTIME_EFFECT_FAILED_RECOVERY_REQUIRED''))))"

definition execute_control ::
  "(string \<Rightarrow> string) \<Rightarrow> 'db workflow_control_store \<Rightarrow> 'w failure_recorder option \<Rightarrow> trusted_principal \<Rightarrow> control_operation \<Rightarrow> 'w effect_port option
   \<Rightarrow> 'db \<times> 'w \<Rightarrow> ('db \<times> 'w) \<times> (string, control_result) result" where
  "execute_control sha st recorder pr x effect s = (case s of (db, w) \<Rightarrow>
     (case validate_operation pr x of Inl code \<Rightarrow> ((db, w), Inl code)
      | Inr _ \<Rightarrow> (case ws_persist st db x of Inl code \<Rightarrow> ((db, w), Inl code)
      | Inr (db', a) \<Rightarrow> (case readback st db' x a of Inl code \<Rightarrow> ((db', w), Inl code)
      | Inr (evidence, outcomes) \<Rightarrow>
          (case effect of
             None \<Rightarrow> ((db', w), Inr \<lparr>cr_durable = a, cr_state = (if op_runtime_command x \<noteq> None then AUTHORIZED_PENDING else NOT_APPLICABLE),
               cr_observation = None, cr_evidence = evidence, cr_outcomes = outcomes\<rparr>)
           | Some eff \<Rightarrow>
               if or_replayed a then ((db', w), Inr \<lparr>cr_durable = a, cr_state = AUTHORIZED_PENDING, cr_observation = None, cr_evidence = evidence, cr_outcomes = outcomes\<rparr>)
               else (case eff w \<lparr>ef_command_id = or_command_id a, ef_command = or_command a, ef_target = or_target a, ef_runtime_command = or_runtime_command a\<rparr> of
                 (w', None) \<Rightarrow> (case effect_failed sha recorder x a evidence w' of (w2, r) \<Rightarrow> ((db', w2), r))
               | (w', Some i) \<Rightarrow> if i = [] then ((db', w'), Inl ''RUNTIME_OBSERVATION_REQUIRED'')
                   else ((db', w'), Inr \<lparr>cr_durable = a, cr_state = OBSERVED, cr_observation = Some i, cr_evidence = evidence, cr_outcomes = outcomes\<rparr>)))))))"

subsection \<open>Effects are applied at most once\<close>

text \<open>An observer of the effects marks the key of the operation that an effect is applied for.\<close>

definition noted_effect :: "control_operation \<Rightarrow> 'w effect_port \<Rightarrow> ('w \<times> claim_key list) effect_port" where
  "noted_effect x eff s q = (case s of (w, marks) \<Rightarrow> (case eff w q of (w', r) \<Rightarrow> ((w', marks @ [claim_of x]), r)))"

definition noted_recorder :: "'w failure_recorder \<Rightarrow> ('w \<times> claim_key list) failure_recorder" where
  "noted_recorder rc s x a y = (case s of (w, marks) \<Rightarrow> (case rc w x a y of (w', r) \<Rightarrow> ((w', marks), r)))"

lemma effect_failed_marks: "effect_failed sha (map_option noted_recorder rc) x a e (w, marks) = ((w', marks'), r) \<Longrightarrow> marks' = marks"
  by (auto simp: effect_failed_def noted_recorder_def split: sum.splits option.splits prod.splits)

lemma execute_control_cases:
  assumes "execute_control sha st (map_option noted_recorder rc) pr x (map_option (noted_effect x) eff) (db, w, marks) = ((db', w', marks'), r)"
  obtains (refused) "db' = db" "marks' = marks"
  | (durable) a where "ws_persist st db x = Inr (db', a)" "marks' = marks"
  | (applied) a where "ws_persist st db x = Inr (db', a)" "\<not> or_replayed a" "marks' = marks @ [claim_of x]"
proof (cases "validate_operation pr x")
  case (Inl code)
  then show ?thesis using assms refused by (simp add: execute_control_def)
next
  case valid: (Inr u)
  show ?thesis
  proof (cases "ws_persist st db x")
    case (Inl code)
    then show ?thesis using assms valid refused by (simp add: execute_control_def)
  next
    case (Inr p)
    obtain d a where p: "p = (d, a)" by (cases p)
    show ?thesis
    proof (cases "is_ok (readback st d x a) \<and> eff \<noteq> None \<and> \<not> or_replayed a")
      case True
      then obtain f where "eff = Some f" by auto
      then have "db' = d \<and> marks' = marks @ [claim_of x]"
        using assms valid Inr p True
        by (auto simp: execute_control_def noted_effect_def is_ok_iff split: prod.splits option.splits if_splits dest: effect_failed_marks)
      then show ?thesis using applied Inr p True by simp
    next
      case False
      then have "db' = d \<and> marks' = marks"
        using assms valid Inr p by (cases "readback st d x a"; cases eff) (auto simp: execute_control_def split: if_splits)
      then show ?thesis using durable Inr p by simp
    qed
  qed
qed

text \<open>
  What the service relies on: an operation is answered as new only for an unclaimed key, which is claimed then, and no transaction of the store gives up a claim.
\<close>

locale control_store =
  fixes stores :: "'db workflow_control_store set" and claimed :: "'db \<Rightarrow> claim_key \<Rightarrow> bool" and step :: "'db \<Rightarrow> 'db \<Rightarrow> bool"
  assumes persist_fresh: "\<And>st db x db' a. st \<in> stores \<Longrightarrow> ws_persist st db x = Inr (db', a) \<Longrightarrow> \<not> or_replayed a \<Longrightarrow>
      \<not> claimed db (claim_of x) \<and> claimed db' (claim_of x)"
    and persist_step: "\<And>st db x db' a. st \<in> stores \<Longrightarrow> ws_persist st db x = Inr (db', a) \<Longrightarrow> step db db'"
    and step_keeps: "\<And>db db' k. step db db' \<Longrightarrow> claimed db k \<Longrightarrow> claimed db' k"

text \<open>Calls of the service with any principal, operation and effect, among other transactions of the store; a service that dies after it persisted is such a transaction.\<close>

inductive service_runs ::
  "'db workflow_control_store set \<Rightarrow> ('db \<Rightarrow> 'db \<Rightarrow> bool) \<Rightarrow> 'db \<Rightarrow> 'w \<Rightarrow> claim_key list \<Rightarrow> bool" for stores step where
  started: "service_runs stores step db w []"
| called: "service_runs stores step db w marks \<Longrightarrow> st \<in> stores \<Longrightarrow>
    execute_control sha st (map_option noted_recorder rc) pr x (map_option (noted_effect x) eff) (db, w, marks) = ((db', w', marks'), r) \<Longrightarrow>
    service_runs stores step db' w' marks'"
| stored: "service_runs stores step db w marks \<Longrightarrow> step db db' \<Longrightarrow> service_runs stores step db' w marks"
| changed: "service_runs stores step db w marks \<Longrightarrow> service_runs stores step db w' marks"

context control_store
begin

lemma effects_once: "service_runs stores step db w marks \<Longrightarrow> distinct marks \<and> (\<forall>k \<in> set marks. claimed db k)"
proof (induction rule: service_runs.induct)
  case (called db w marks st sha rc pr x eff db' w' marks' r)
  from called.hyps(3) show ?case
  proof (cases rule: execute_control_cases)
    case (durable a)
    then show ?thesis using called.IH step_keeps [OF persist_step [OF called.hyps(2) durable(1)]] by simp
  next
    case (applied a)
    note new = persist_fresh [OF called.hyps(2) applied(1,2)] and keep = step_keeps [OF persist_step [OF called.hyps(2) applied(1)]]
    then show ?thesis using called.IH applied(3) by auto
  qed (use called.IH in simp)
qed (auto dest: step_keeps)

end

definition postgres_store :: "(string \<Rightarrow> string) \<Rightarrow> (int \<Rightarrow> string) \<Rightarrow> lineage_port \<Rightarrow> control_db workflow_control_store" where
  "postgres_store sha isofmt lp = \<lparr>ws_persist = (\<lambda>db x. persist_operation sha isofmt lp db x True), ws_claimed = (\<lambda>db (actor, command, key).
       lookup_idempotency db actor command key \<noteq> None),
     ws_evidence = read_linked_evidence, ws_outcomes = read_linked_outcomes\<rparr>"

lemma step_keeps_claims: "control_step sha isofmt db db' \<Longrightarrow> map_of (wb_claims db) k \<noteq> None \<Longrightarrow> map_of (wb_claims db') k \<noteq> None"
  by (drule step_claims) auto

interpretation pgc: control_store "range (postgres_store sha isofmt)" "\<lambda>db k. map_of (wb_claims db) k \<noteq> None" "control_step sha isofmt"
proof unfold_locales
  fix st db x db' a
  assume "st \<in> range (postgres_store sha isofmt)" and r: "ws_persist st db x = Inr (db', a)"
  then obtain lp where p: "persist_operation sha isofmt lp db x True = Inr (db', a)" by (auto simp: postgres_store_def)
  show "control_step sha isofmt db db'" by (rule operation_step [OF p])
  assume n: "\<not> or_replayed a"
  from p show "\<not> map_of (wb_claims db) (claim_of x) \<noteq> None \<and> map_of (wb_claims db') (claim_of x) \<noteq> None"
  proof (cases rule: persist_operation_cases)
    case (replay c)
    then show ?thesis using n operation_result_replayed [OF replay(4), of True] by (cases a) simp
  next
    case (fresh kind tid)
    then show ?thesis using new_operation_claims(1) [OF fresh(3)] by simp
  qed
qed (rule step_keeps_claims)

text \<open>
  C5: the effect of an operation is applied at most once. Whatever operations, principals, lineage ports and effects the service is called with, among
  other transactions of the store and whatever the effects answer, no key is ever noted for two effects, and the store holds the claim of every key
  that an effect was applied for. An operation is durable before its effect.
\<close>

theorem control_effects_at_most_once:
  assumes "service_runs (range (postgres_store sha isofmt)) (control_step sha isofmt) db w marks"
  shows "distinct marks \<and> (\<forall>k \<in> set marks. map_of (wb_claims db) k \<noteq> None)"
  by (rule pgc.effects_once [OF assms])

subsection \<open>A failed effect that leaves no record\<close>

lemma utf8_length_append [simp]: "utf8_length (s @ t) = utf8_length s + utf8_length t"
  by (simp add: utf8_length_def)

text \<open>A match of the pattern has one of the markers, in any case.\<close>

lemma ends_literal_i: "j \<in> set (ends (re_literal_i m) s i) \<Longrightarrow> take (length m) (drop i (map to_lower s)) = m"
proof (induction m arbitrary: i)
  case (Cons c m)
  then have "i < length s" "to_lower (s ! i) = c" "j \<in> set (ends (re_literal_i m) s (Suc i))" by (auto simp: re_literal_i_def split: if_splits)
  moreover from this have "drop i (map to_lower s) = c # drop (Suc i) (map to_lower s)" 
    using Cons_nth_drop_Suc [of i "map to_lower s"] by simp
  ultimately show ?case using Cons.IH by simp
qed simp

definition secret_markers :: "string list" where
  "secret_markers = [''api'', ''authorization'', ''bearer'', ''credential'', ''password'', ''secret'', ''token'', ''raw'']"

lemma secret_field_marker:
  assumes "re_search re_secret_field s"
  shows "list_ex (\<lambda>m. substring_of m (map to_lower s)) secret_markers"
proof -
  obtain i where i: "i < Suc (length s)" "ends re_secret_field s i \<noteq> []"
    using assms by (auto simp: re_search_def list_ex_iff simp del: upt_Suc)
  from i(2) have "\<exists>m \<in> set secret_markers. ends (re_literal_i m) s i \<noteq> []"
    by (simp add: re_secret_field_def secret_markers_def) auto
  then obtain m j where m: "m \<in> set secret_markers" "j \<in> set (ends (re_literal_i m) s i)" by (meson list.set_sel(1))
  then have "substring_of m (map to_lower s)" using ends_literal_i [OF m(2)] i(1) by (auto simp: list_ex_iff substring_of_def simp del: upt_Suc)
  then show ?thesis using m(1) by (auto simp: list_ex_iff)
qed

lemma failure_codes:
  "control_text ''RECOVERY_REQUIRED'' c = Inr ''RECOVERY_REQUIRED''" "control_text ''RUNTIME_EFFECT_FAILED'' c = Inr ''RUNTIME_EFFECT_FAILED''"
proof -
  have "\<not> list_ex (\<lambda>m. substring_of m (map to_lower ''RECOVERY_REQUIRED'')) secret_markers" by code_simp
  then have "\<not> re_search re_secret_field ''RECOVERY_REQUIRED''" using secret_field_marker by blast
  then show "control_text ''RECOVERY_REQUIRED'' c = Inr ''RECOVERY_REQUIRED''" by (simp add: control_text_def)
  have "\<not> list_ex (\<lambda>m. substring_of m (map to_lower ''RUNTIME_EFFECT_FAILED'')) secret_markers" by code_simp
  then have "\<not> re_search re_secret_field ''RUNTIME_EFFECT_FAILED''" using secret_field_marker by blast
  then show "control_text ''RUNTIME_EFFECT_FAILED'' c = Inr ''RUNTIME_EFFECT_FAILED''" by (simp add: control_text_def)
qed

text \<open>
  A command identity may have 200 bytes, and the evidence of a failed effect gets it with a suffix of 14. When the effect of an operation with
  an identity of more than 186 bytes fails, the evidence is refused before the recorder is called: the failure is answered with the error of the evidence
  and nowhere recorded, though the operation is durable and will never be applied again.
\<close>

theorem failed_effect_is_unrecorded:
  assumes "validate_operation pr x = Inr ()" and "ws_persist st db x = Inr (db', a)" and "\<not> or_replayed a" and "readback st db' x a = Inr (e, n)"
    and "eff w \<lparr>ef_command_id = or_command_id a, ef_command = or_command a, ef_target = or_target a, ef_runtime_command = or_runtime_command a\<rparr> = (w', None)"
    and "186 < utf8_length (op_command_id x)"
  shows "execute_control sha st recorder pr x (Some eff) (db, w) = ((db', w'), Inl ''EVIDENCE_ID_INVALID'')"
proof -
  have "or_command_id a = op_command_id x" using assms(4) by (auto simp: readback_def split: if_splits)
  then have "control_identity (or_command_id a @ '':effect-failed'') c = Inl c" for c
    using assms(6) by (simp add: control_identity_def utf8_length_def)
  then have "effect_failed sha recorder x a e w' = (w', Inl ''EVIDENCE_ID_INVALID'')"
    by (simp add: effect_failed_def minimum_disclosure_evidence_def failure_codes)
  then show ?thesis using assms by (simp add: execute_control_def)
qed

subsection \<open>An operation with a long identity\<close>

definition example_long :: string where
  "example_long = replicate 190 CHR ''c''"

definition example_long_op :: control_operation where
  "example_long_op = example_operation REQUEST_INTERVENTION example_long"

definition example_principal :: trusted_principal where
  "example_principal = \<lparr>tp_actor = ''u'', tp_scope = op_scope example_long_op, tp_permissions = [REQUEST_INTERVENTION]\<rparr>"

lemma example_long_bytes [simp]: "utf8_length example_long = 190" "example_long \<noteq> []"
  by (simp_all add: example_long_def utf8_length_def sum_list_replicate)

lemma example_long_valid: "validate_operation example_principal example_long_op = Inr ()"
  by (simp add: validate_operation_def example_principal_def example_long_op_def example_operation_def control_identity_def safe_value_def COMMAND_TYPES_def
    utf8_length_def [of "[CHR ''k'']"])

lemma example_long_persisted:
  "\<exists>db a. ws_persist (postgres_store example_sha example_iso example_lineage) example_control example_long_op = Inr (db, a) \<and> \<not> or_replayed a \<and>
     is_ok (readback (postgres_store example_sha example_iso example_lineage) db example_long_op a)"
  using example_long_bytes
  by (simp add: postgres_store_def example_long_op_def readback_def lookup_idempotency_def read_linked_evidence_def read_linked_outcomes_def operation_answer_def
    example_control_simps)

lemma execute_control_observed:
  assumes "validate_operation pr x = Inr ()" and "ws_persist st db x = Inr (db', a)" and "\<not> or_replayed a" and "readback st db' x a = Inr (e, n)"
    and "eff w \<lparr>ef_command_id = or_command_id a, ef_command = or_command a, ef_target = or_target a, ef_runtime_command = or_runtime_command a\<rparr> = (w', Some i)" and "i \<noteq> []"
  shows "execute_control sha st recorder pr x (Some eff) (db, w) =
    ((db', w'), Inr \<lparr>cr_durable = a, cr_state = OBSERVED, cr_observation = Some i, cr_evidence = e, cr_outcomes = n\<rparr>)"
  using assms by (simp add: execute_control_def)

theorem control_effects_at_most_once_witness:
  "\<exists>db. service_runs (range (postgres_store example_sha example_iso)) (control_step example_sha example_iso) db (0 :: nat) [claim_of example_long_op] \<and>
     map_of (wb_claims db) (claim_of example_long_op) \<noteq> None"
proof -
  let ?st = "postgres_store example_sha example_iso example_lineage"
  obtain db a e n where p: "ws_persist ?st example_control example_long_op = Inr (db, a)" "\<not> or_replayed a" "readback ?st db example_long_op a = Inr (e, n)"
    using example_long_persisted by (auto simp: is_ok_iff)
  have "execute_control example_sha ?st None example_principal example_long_op (Some (noted_effect example_long_op (\<lambda>w q. (w, Some ''o'')))) (example_control, (0 :: nat), []) =
      ((db, 0, [claim_of example_long_op]), Inr \<lparr>cr_durable = a, cr_state = OBSERVED, cr_observation = Some ''o'', cr_evidence = e, cr_outcomes = n\<rparr>)"
    by (rule execute_control_observed [OF example_long_valid p]) (simp_all add: noted_effect_def)
  then have "service_runs (range (postgres_store example_sha example_iso)) (control_step example_sha example_iso) db (0 :: nat) [claim_of example_long_op]"
    by (intro called [OF started, where st = ?st and rc = None and eff = "Some (\<lambda>w q. (w, Some ''o''))"]) simp_all
  from this control_effects_at_most_once [OF this] show ?thesis by auto
qed

theorem failed_effect_is_unrecorded_witness:
  "\<exists>db. execute_control example_sha (postgres_store example_sha example_iso example_lineage) (Some (\<lambda>w x a y. (Suc w, Inr ()))) example_principal example_long_op
     (Some (\<lambda>w q. (w, None))) (example_control, 0) = ((db, 0), Inl ''EVIDENCE_ID_INVALID'')"
proof -
  let ?st = "postgres_store example_sha example_iso example_lineage"
  obtain db a e n where p: "ws_persist ?st example_control example_long_op = Inr (db, a)" "\<not> or_replayed a" "readback ?st db example_long_op a = Inr (e, n)"
    using example_long_persisted by (auto simp: is_ok_iff)
  show ?thesis
    by (rule exI, rule failed_effect_is_unrecorded [OF example_long_valid p]) (simp_all add: example_long_op_def example_operation_def)
qed

end
