(* ===== verification/Resource_Use.thy ===== *)
theory Resource_Use
  imports Complex_Main Canonical_Json Execution_Contract
begin

text \<open>
  Attempt Resource Use: \<open>agent_console/resource_use_domain.py\<close>, \<open>resource_use_postgres.py\<close> and \<open>resource_use_application.py\<close>. A use of a resource by
  an attempt is a numbered history of facts; a snapshot reduces the history up to a high water to one effective state.

  The tables hold the rows of one scope, as every statement selects them. A stored record is the value itself, since the decoders invert
  \<open>canonical_record\<close>. \<open>du_lineage\<close> and \<open>du_placements\<close> are the rows that the joins over the tables of the execution authority return. An error of the
  database is its class; the transaction is rolled back then.
\<close>

subsection \<open>Values\<close>

datatype resource_kind = R_SKILL | R_MCP | R_KNOWLEDGE | R_WORKFLOW | R_RUNTIME | R_DIGITAL_EMPLOYEE

datatype use_fact_kind = F_CONFIGURED | F_BOUND | F_SELECTED | F_REQUESTED | F_DISPATCH_RECORDED | F_ACCEPTED | F_RUNNING | F_SUCCEEDED | F_FAILED
  | F_CANCELLATION_REQUESTED | F_CANCELLATION_CONFIRMED | F_OUTCOME_UNKNOWN | F_REJECTED | F_UNAVAILABLE | F_STALE | F_NOT_EXECUTED | F_NO_RESULT
  | F_MEASUREMENT_RECORDED | F_MEASUREMENT_NOT_COLLECTED | F_MEASUREMENT_NOT_MEASURABLE

datatype use_state = U_CONFIGURED | U_BOUND | U_SELECTED | U_REQUESTED | U_DISPATCH_RECORDED | U_ACCEPTED | U_RUNNING | U_SUCCEEDED | U_FAILED
  | U_CANCELLATION_REQUESTED | U_CANCELLATION_CONFIRMED | U_OUTCOME_UNKNOWN | U_REJECTED | U_UNAVAILABLE | U_STALE | U_NOT_EXECUTED | U_NO_RESULT | U_CONFLICTED

datatype measurement_availability = M_MEASURED | M_NOT_COLLECTED | M_NOT_MEASURABLE | M_ESTIMATED | M_STALE | M_CONFLICTED

definition resource_kind_value :: "resource_kind \<Rightarrow> string" where
  "resource_kind_value k = (case k of R_SKILL \<Rightarrow> ''SKILL'' | R_MCP \<Rightarrow> ''MCP'' | R_KNOWLEDGE \<Rightarrow> ''KNOWLEDGE'' | R_WORKFLOW \<Rightarrow> ''WORKFLOW''
     | R_RUNTIME \<Rightarrow> ''RUNTIME'' | R_DIGITAL_EMPLOYEE \<Rightarrow> ''DIGITAL_EMPLOYEE'')"

definition use_state_value :: "use_state \<Rightarrow> string" where
  "use_state_value s = (case s of U_CONFIGURED \<Rightarrow> ''CONFIGURED'' | U_BOUND \<Rightarrow> ''BOUND'' | U_SELECTED \<Rightarrow> ''SELECTED'' | U_REQUESTED \<Rightarrow> ''REQUESTED''
     | U_DISPATCH_RECORDED \<Rightarrow> ''DISPATCH_RECORDED'' | U_ACCEPTED \<Rightarrow> ''ACCEPTED'' | U_RUNNING \<Rightarrow> ''RUNNING'' | U_SUCCEEDED \<Rightarrow> ''SUCCEEDED''
     | U_FAILED \<Rightarrow> ''FAILED'' | U_CANCELLATION_REQUESTED \<Rightarrow> ''CANCELLATION_REQUESTED'' | U_CANCELLATION_CONFIRMED \<Rightarrow> ''CANCELLATION_CONFIRMED''
     | U_OUTCOME_UNKNOWN \<Rightarrow> ''OUTCOME_UNKNOWN'' | U_REJECTED \<Rightarrow> ''REJECTED'' | U_UNAVAILABLE \<Rightarrow> ''UNAVAILABLE'' | U_STALE \<Rightarrow> ''STALE''
     | U_NOT_EXECUTED \<Rightarrow> ''NOT_EXECUTED'' | U_NO_RESULT \<Rightarrow> ''NO_RESULT'' | U_CONFLICTED \<Rightarrow> ''CONFLICTED'')"

text \<open>\<open>_STATE_FACTS\<close>: the kinds whose name is a state.\<close>

definition STATE_FACTS :: "use_fact_kind \<Rightarrow> use_state option" where
  "STATE_FACTS k = (case k of F_CONFIGURED \<Rightarrow> Some U_CONFIGURED | F_BOUND \<Rightarrow> Some U_BOUND | F_SELECTED \<Rightarrow> Some U_SELECTED
     | F_REQUESTED \<Rightarrow> Some U_REQUESTED | F_DISPATCH_RECORDED \<Rightarrow> Some U_DISPATCH_RECORDED | F_ACCEPTED \<Rightarrow> Some U_ACCEPTED
     | F_RUNNING \<Rightarrow> Some U_RUNNING | F_SUCCEEDED \<Rightarrow> Some U_SUCCEEDED | F_FAILED \<Rightarrow> Some U_FAILED
     | F_CANCELLATION_REQUESTED \<Rightarrow> Some U_CANCELLATION_REQUESTED | F_CANCELLATION_CONFIRMED \<Rightarrow> Some U_CANCELLATION_CONFIRMED
     | F_OUTCOME_UNKNOWN \<Rightarrow> Some U_OUTCOME_UNKNOWN | F_REJECTED \<Rightarrow> Some U_REJECTED | F_UNAVAILABLE \<Rightarrow> Some U_UNAVAILABLE
     | F_STALE \<Rightarrow> Some U_STALE | F_NOT_EXECUTED \<Rightarrow> Some U_NOT_EXECUTED | F_NO_RESULT \<Rightarrow> Some U_NO_RESULT
     | F_MEASUREMENT_RECORDED \<Rightarrow> None | F_MEASUREMENT_NOT_COLLECTED \<Rightarrow> None | F_MEASUREMENT_NOT_MEASURABLE \<Rightarrow> None)"

definition use_fact_value :: "use_fact_kind \<Rightarrow> string" where
  "use_fact_value k = (case STATE_FACTS k of Some s \<Rightarrow> use_state_value s
     | None \<Rightarrow> if k = F_MEASUREMENT_RECORDED then ''MEASUREMENT_RECORDED''
         else if k = F_MEASUREMENT_NOT_COLLECTED then ''MEASUREMENT_NOT_COLLECTED'' else ''MEASUREMENT_NOT_MEASURABLE'')"

definition availability_value :: "measurement_availability \<Rightarrow> string" where
  "availability_value a = (case a of M_MEASURED \<Rightarrow> ''MEASURED'' | M_NOT_COLLECTED \<Rightarrow> ''NOT_COLLECTED'' | M_NOT_MEASURABLE \<Rightarrow> ''NOT_MEASURABLE''
     | M_ESTIMATED \<Rightarrow> ''ESTIMATED'' | M_STALE \<Rightarrow> ''STALE'' | M_CONFLICTED \<Rightarrow> ''CONFLICTED'')"

definition CORE_METRICS :: "string list" where
  "CORE_METRICS = [''duration'', ''request_count'', ''invocation_count'', ''retrieval_count'', ''citation_count'', ''attempt_count'']"

definition REDUCER_VERSION :: string where
  "REDUCER_VERSION = ''resource-use-reducer.v1''"

text \<open>SHA-256 as hexadecimal text, and the texts of instants and of floats, which are rational numbers here.\<close>

record codec =
  cd_sha :: "string \<Rightarrow> string"
  cd_iso :: "int \<Rightarrow> string"
  cd_float :: "rat \<Rightarrow> string"

datatype quantity = Q_INT int | Q_FLOAT rat | Q_BOOL bool

definition value_digest :: "codec \<Rightarrow> json \<Rightarrow> string" where
  "value_digest cd v = cd_sha cd (canonical_json v)"

definition stable_id :: "codec \<Rightarrow> string \<Rightarrow> string list \<Rightarrow> (string, string) result" where
  "stable_id cd kind parts = (if parts = [] \<or> [] \<in> set parts then Inl ''RESOURCE_USE_IDENTITY_INVALID''
     else Inr (kind @ '':'' @ cd_sha cd (py_join [CHR 0x00] parts)))"

fun require_all :: "(string \<times> string) list \<Rightarrow> (string, unit) result" where
  "require_all [] = Inr ()"
| "require_all ((v, code) # rest) = (if v = [] \<or> 500 < utf8_length v then Inl code else require_all rest)"

record use_binding =
  ub_scope :: scope_identity
  ub_id :: string
  ub_attempt :: string
  ub_kind :: resource_kind
  ub_slot :: string
  ub_occurrence :: int
  ub_resource :: string
  ub_revision :: string
  ub_digest :: string
  ub_binding :: string
  ub_binding_digest :: string
  ub_plan :: string
  ub_plan_version :: int
  ub_plan_digest :: string
  ub_run :: string
  ub_task :: string
  ub_definition :: string
  ub_definition_revision :: string
  ub_definition_digest :: string
  ub_employee :: string
  ub_agent :: "string option"
  ub_runtime :: "string option"
  ub_executor :: "string option"
  ub_executor_revision :: "string option"
  ub_provider :: "string option"
  ub_provider_revision :: "string option"
  ub_decision :: string
  ub_predecessor :: "string option"
  ub_predecessor_run :: "string option"

definition binding_identity :: "codec \<Rightarrow> scope_identity \<Rightarrow> string \<Rightarrow> resource_kind \<Rightarrow> string \<Rightarrow> int \<Rightarrow> (string, string) result" where
  "binding_identity cd sc att kind slot n =
     stable_id cd ''resource-use'' [namespace sc, security_domain sc, att, resource_kind_value kind, slot, show_int n]"

definition use_binding_init :: "codec \<Rightarrow> use_binding \<Rightarrow> (string, use_binding) result" where
  "use_binding_init cd b =
     rbind (require_all [(ub_id b, ''RESOURCE_USE_RESOURCE_USE_ID_REQUIRED''), (ub_attempt b, ''RESOURCE_USE_ATTEMPT_ID_REQUIRED''),
       (ub_slot b, ''RESOURCE_USE_SLOT_KEY_REQUIRED''), (ub_resource b, ''RESOURCE_USE_RESOURCE_ID_REQUIRED''),
       (ub_revision b, ''RESOURCE_USE_RESOURCE_REVISION_ID_REQUIRED''), (ub_digest b, ''RESOURCE_USE_RESOURCE_DIGEST_REQUIRED''),
       (ub_binding b, ''RESOURCE_USE_BINDING_ID_REQUIRED''), (ub_binding_digest b, ''RESOURCE_USE_BINDING_DIGEST_REQUIRED''),
       (ub_plan b, ''RESOURCE_USE_PLAN_ID_REQUIRED''), (ub_plan_digest b, ''RESOURCE_USE_PLAN_DIGEST_REQUIRED''),
       (ub_run b, ''RESOURCE_USE_WORKFLOW_RUN_ID_REQUIRED''), (ub_task b, ''RESOURCE_USE_TASK_RUN_ID_REQUIRED''),
       (ub_definition b, ''RESOURCE_USE_DIGITAL_EMPLOYEE_DEFINITION_ID_REQUIRED''),
       (ub_definition_revision b, ''RESOURCE_USE_DIGITAL_EMPLOYEE_DEFINITION_REVISION_ID_REQUIRED''),
       (ub_definition_digest b, ''RESOURCE_USE_DIGITAL_EMPLOYEE_DEFINITION_DIGEST_REQUIRED''),
       (ub_employee b, ''RESOURCE_USE_DIGITAL_EMPLOYEE_INSTANCE_ID_REQUIRED''),
       (ub_decision b, ''RESOURCE_USE_AUTHORIZATION_DECISION_ID_REQUIRED'')]) (\<lambda>_.
     if ub_occurrence b \<noteq> 1 then Inl ''RESOURCE_USE_MANAGED_SLOT_CARDINALITY''
     else if ub_plan_version b < 1 then Inl ''RESOURCE_USE_PLAN_VERSION_INVALID''
     else rbind (binding_identity cd (ub_scope b) (ub_attempt b) (ub_kind b) (ub_slot b) (ub_occurrence b)) (\<lambda>e.
       if ub_id b \<noteq> e then Inl ''RESOURCE_USE_IDENTITY_MISMATCH'' else Inr b))"

record use_fact =
  uf_id :: string
  uf_use :: string
  uf_kind :: use_fact_kind
  uf_owner :: string
  uf_observation :: string
  uf_digest :: string
  uf_observed :: int
  uf_recorded :: int
  uf_evidence :: "string list"
  uf_limits :: "string list"
  uf_supersedes :: "string option"

definition use_fact_init :: "use_fact \<Rightarrow> (string, use_fact) result" where
  "use_fact_init f = rbind (require_all [(uf_id f, ''RESOURCE_USE_FACT_ID_REQUIRED''), (uf_use f, ''RESOURCE_USE_ID_REQUIRED''),
     (uf_owner f, ''RESOURCE_USE_SOURCE_OWNER_REQUIRED''), (uf_observation f, ''RESOURCE_USE_SOURCE_OBSERVATION_REQUIRED''),
     (uf_digest f, ''RESOURCE_USE_SOURCE_DIGEST_REQUIRED'')]) (\<lambda>_. Inr f)"

record use_measurement =
  um_id :: string
  um_use :: string
  um_metric :: string
  um_value :: "quantity option"
  um_unit :: string
  um_availability :: measurement_availability
  um_source :: string
  um_digest :: string
  um_started :: int
  um_ended :: int
  um_observed :: int
  um_authority :: string
  um_confidence :: string
  um_limits :: "string list"
  um_precision :: string
  um_aggregate :: bool
  um_redaction :: string
  um_evidence :: "string list"
  um_superseded :: "string option"

definition negative :: "quantity \<Rightarrow> bool" where
  "negative q = (case q of Q_INT n \<Rightarrow> n < 0 | Q_FLOAT r \<Rightarrow> r < 0 | Q_BOOL _ \<Rightarrow> False)"

definition measured_ok :: "quantity option \<Rightarrow> bool" where
  "measured_ok v = (case v of None \<Rightarrow> False | Some (Q_BOOL _) \<Rightarrow> False | Some q \<Rightarrow> \<not> negative q)"

definition use_measurement_init :: "use_measurement \<Rightarrow> (string, use_measurement) result" where
  "use_measurement_init m =
     rbind (require_all [(um_id m, ''MEASUREMENT_ID_REQUIRED''), (um_use m, ''RESOURCE_USE_ID_REQUIRED''), (um_metric m, ''MEASUREMENT_METRIC_REQUIRED''),
       (um_unit m, ''MEASUREMENT_UNIT_REQUIRED''), (um_source m, ''MEASUREMENT_SOURCE_REQUIRED''), (um_digest m, ''MEASUREMENT_SOURCE_DIGEST_REQUIRED''),
       (um_authority m, ''MEASUREMENT_AUTHORITY_REQUIRED''), (um_confidence m, ''MEASUREMENT_CONFIDENCE_REQUIRED''),
       (um_precision m, ''MEASUREMENT_PRECISION_REQUIRED''), (um_redaction m, ''MEASUREMENT_REDACTION_REQUIRED'')]) (\<lambda>_.
     if um_metric m \<notin> set CORE_METRICS then Inl ''MEASUREMENT_METRIC_INVALID''
     else if um_availability m = M_MEASURED \<and> \<not> measured_ok (um_value m) then Inl ''MEASURED_VALUE_REQUIRED''
     else if um_availability m \<noteq> M_MEASURED \<and> um_value m \<noteq> None then Inl ''UNAVAILABLE_MEASUREMENT_MUST_BE_NULL''
     else if um_ended m < um_started m then Inl ''MEASUREMENT_WINDOW_INVALID''
     else Inr m)"

record use_snapshot =
  sn_id :: string
  sn_digest :: string
  sn_use :: string
  sn_high :: int
  sn_version :: string
  sn_state :: use_state
  sn_facts :: "string list"
  sn_measurements :: "string list"
  sn_evidence :: "string list"
  sn_limits :: "string list"
  sn_conflicts :: "string list"
  sn_created :: int

subsection \<open>The reducer\<close>

definition TERMINAL_USES :: "use_state list" where
  "TERMINAL_USES = [U_SUCCEEDED, U_FAILED, U_CANCELLATION_CONFIRMED, U_OUTCOME_UNKNOWN, U_REJECTED, U_UNAVAILABLE, U_NOT_EXECUTED, U_NO_RESULT]"

definition STATE_RANK :: "(use_state, nat) dict" where
  "STATE_RANK = [(U_CONFIGURED, 0), (U_BOUND, 1), (U_SELECTED, 2), (U_REQUESTED, 3), (U_DISPATCH_RECORDED, 4), (U_ACCEPTED, 5), (U_RUNNING, 6),
     (U_CANCELLATION_REQUESTED, 7)]"

text \<open>\<open>list(dict.fromkeys(xs))\<close>\<close>

definition fromkeys :: "'a list \<Rightarrow> 'a list" where
  "fromkeys xs = rev (remdups (rev xs))"

definition fact_states :: "use_fact list \<Rightarrow> use_state list" where
  "fact_states fs = List.map_filter (\<lambda>f. STATE_FACTS (uf_kind f)) fs"

definition fact_source :: "use_fact \<Rightarrow> string \<times> string" where
  "fact_source f = (uf_owner f, uf_observation f)"

fun source_conflicts :: "(string \<times> string, string) dict \<Rightarrow> use_fact list \<Rightarrow> string list" where
  "source_conflicts seen [] = []"
| "source_conflicts seen (f # fs) = (case map_of seen (fact_source f) of
     None \<Rightarrow> source_conflicts (AList.update (fact_source f) (uf_digest f) seen) fs
   | Some d \<Rightarrow> (if d \<noteq> uf_digest f then [''CONFLICTING_SOURCE_OBSERVATION''] else []) @ source_conflicts seen fs)"

definition regressed :: "use_state \<Rightarrow> use_state \<Rightarrow> bool" where
  "regressed p s = (case (map_of STATE_RANK p, map_of STATE_RANK s) of (Some a, Some b) \<Rightarrow> b < a | _ \<Rightarrow> False)"

fun order_conflicts :: "use_state option \<Rightarrow> use_state list \<Rightarrow> string list" where
  "order_conflicts p [] = []"
| "order_conflicts p (s # ss) = (case p of None \<Rightarrow> [] | Some q \<Rightarrow>
       if q \<in> set TERMINAL_USES \<and> s \<noteq> q then [''STATE_AFTER_TERMINAL''] else if regressed q s then [''ILLEGAL_STATE_REGRESSION''] else [])
     @ order_conflicts (Some s) ss"

definition history_conflicts :: "use_fact list \<Rightarrow> string list" where
  "history_conflicts fs = fromkeys ((if 1 < length (remdups (filter (\<lambda>s. s \<in> set TERMINAL_USES) (fact_states fs))) then [''CONFLICTING_TERMINAL_FACTS''] else [])
     @ source_conflicts [] fs @ order_conflicts None (fact_states fs))"

definition history_state :: "use_fact list \<Rightarrow> use_state" where
  "history_state fs = (if history_conflicts fs \<noteq> [] then U_CONFLICTED else last (fact_states fs))"

definition strings_json :: "string list \<Rightarrow> json" where
  "strings_json ss = JList (map JStr ss)"

definition snapshot_payload :: "string \<Rightarrow> int \<Rightarrow> use_state \<Rightarrow> use_fact list \<Rightarrow> use_measurement list \<Rightarrow> json" where
  "snapshot_payload u high s fs ms = JObj [(''resourceUseId'', JStr u), (''highWater'', JInt high), (''reducerVersion'', JStr REDUCER_VERSION),
     (''effectiveState'', JStr (use_state_value s)), (''factIds'', strings_json (map uf_id fs)), (''measurementIds'', strings_json (map um_id ms)),
     (''evidenceReferences'', strings_json (fromkeys (concat (map uf_evidence fs)))), (''limitationCodes'', strings_json (fromkeys (concat (map uf_limits fs)))),
     (''conflicts'', strings_json (history_conflicts fs))]"

definition reduce_resource_use :: "codec \<Rightarrow> string \<Rightarrow> use_fact list \<Rightarrow> use_measurement list \<Rightarrow> int \<Rightarrow> int \<Rightarrow> (string, use_snapshot) result" where
  "reduce_resource_use cd u facts ms high now =
     (if high < 1 \<or> int (length facts) < high then Inl ''RESOURCE_USE_HIGH_WATER_INVALID''
      else let fs = take (nat high) facts in
      if list_ex (\<lambda>f. uf_use f \<noteq> u) fs \<or> list_ex (\<lambda>m. um_use m \<noteq> u) ms then Inl ''RESOURCE_USE_SCOPE_MISMATCH''
      else if fact_states fs = [] then Inl ''RESOURCE_USE_STATE_FACT_REQUIRED''
      else let digest = value_digest cd (snapshot_payload u high (history_state fs) fs ms) in
      rbind (stable_id cd ''resource-use-snapshot'' [u, show_int high, digest]) (\<lambda>i.
        Inr \<lparr>sn_id = i, sn_digest = digest, sn_use = u, sn_high = high, sn_version = REDUCER_VERSION, sn_state = history_state fs, sn_facts = map uf_id fs,
          sn_measurements = map um_id ms, sn_evidence = fromkeys (concat (map uf_evidence fs)), sn_limits = fromkeys (concat (map uf_limits fs)),
          sn_conflicts = history_conflicts fs, sn_created = now\<rparr>))"

subsection \<open>Legal histories\<close>

text \<open>
  What the reducer accepts: each state is no step back, in the life cycle of a use, from the state just before it; then one terminal state, possibly repeated; and one
  digest for each observation of a source. Only neighbours are compared and only states of the cycle have a place in it, so that a state outside of it, such as
  \<open>STALE\<close>, hides a step back over it.
\<close>

definition life_cycle :: "use_state list" where
  "life_cycle = [U_CONFIGURED, U_BOUND, U_SELECTED, U_REQUESTED, U_DISPATCH_RECORDED, U_ACCEPTED, U_RUNNING, U_CANCELLATION_REQUESTED]"

definition steps_back :: "use_state \<Rightarrow> use_state \<Rightarrow> bool" where
  "steps_back p s = (\<exists>before between after. life_cycle = before @ s # between @ p # after)"

definition ended :: "use_state \<Rightarrow> bool" where
  "ended s = (s \<in> {U_SUCCEEDED, U_FAILED, U_CANCELLATION_CONFIRMED, U_OUTCOME_UNKNOWN, U_REJECTED, U_UNAVAILABLE, U_NOT_EXECUTED, U_NO_RESULT})"

definition legal_history :: "use_state list \<Rightarrow> bool" where
  "legal_history ss = (\<exists>ns k t. ss = ns @ replicate k t \<and> (\<forall>s \<in> set ns. \<not> ended s) \<and> (0 < k \<longrightarrow> ended t) \<and>
     successively (\<lambda>p s. \<not> steps_back p s) ns)"

lemma steps_back_iff: "steps_back p s \<longleftrightarrow> p \<in> set (tl (dropWhile (\<lambda>x. x \<noteq> s) life_cycle))"
proof
  assume "steps_back p s"
  then obtain before between after where c: "life_cycle = before @ s # between @ p # after" by (auto simp: steps_back_def)
  have "distinct life_cycle" by (simp add: life_cycle_def)
  then have "\<forall>x \<in> set before. x \<noteq> s" by (auto simp: c)
  then have "dropWhile (\<lambda>x. x \<noteq> s) before = []" by simp
  then show "p \<in> set (tl (dropWhile (\<lambda>x. x \<noteq> s) life_cycle))" by (simp add: c dropWhile_append3)
next
  assume p: "p \<in> set (tl (dropWhile (\<lambda>x. x \<noteq> s) life_cycle))"
  then obtain r where r: "dropWhile (\<lambda>x. x \<noteq> s) life_cycle = s # r" using hd_dropWhile [of "\<lambda>x. x \<noteq> s" life_cycle] by (cases "dropWhile (\<lambda>x. x \<noteq> s) life_cycle") auto
  then obtain between after where "r = between @ p # after" using p by (auto simp: in_set_conv_decomp)
  then show "steps_back p s" unfolding steps_back_def using takeWhile_dropWhile_id [of "\<lambda>x. x \<noteq> s" life_cycle] r by metis
qed

lemma regressed_steps_back: "regressed p s \<longleftrightarrow> steps_back p s"
  by (cases p; cases s) (simp_all add: steps_back_iff life_cycle_def regressed_def STATE_RANK_def)

lemma terminal_ended: "s \<in> set TERMINAL_USES \<longleftrightarrow> ended s"
  by (simp add: TERMINAL_USES_def ended_def)

lemma legal_history_alt:
  "legal_history ss = (\<exists>ns k t. ss = ns @ replicate k t \<and> (\<forall>s \<in> set ns. s \<notin> set TERMINAL_USES) \<and> (0 < k \<longrightarrow> t \<in> set TERMINAL_USES) \<and>
     successively (\<lambda>p s. \<not> regressed p s) ns)"
  by (simp add: legal_history_def regressed_steps_back terminal_ended)

definition consistent_sources :: "use_fact list \<Rightarrow> bool" where
  "consistent_sources fs = (\<forall>f \<in> set fs. \<forall>g \<in> set fs. fact_source f = fact_source g \<longrightarrow> uf_digest f = uf_digest g)"

lemma fromkeys_Nil [simp]: "fromkeys xs = [] \<longleftrightarrow> xs = []"
  by (simp add: fromkeys_def)

definition follows :: "use_state \<Rightarrow> use_state \<Rightarrow> bool" where
  "follows p s = (\<not> (p \<in> set TERMINAL_USES \<and> s \<noteq> p) \<and> \<not> regressed p s)"

lemma order_conflicts_Some: "order_conflicts (Some p) ss = [] \<longleftrightarrow> successively follows (p # ss)"
  by (induction ss arbitrary: p) (auto simp: follows_def)

lemma order_conflicts_None: "order_conflicts None ss = [] \<longleftrightarrow> successively follows ss"
  by (cases ss) (simp_all add: order_conflicts_Some)

lemma regressed_terminal: "p \<in> set TERMINAL_USES \<Longrightarrow> \<not> regressed p s" "s \<in> set TERMINAL_USES \<Longrightarrow> \<not> regressed p s"
  by (auto simp: TERMINAL_USES_def regressed_def STATE_RANK_def split: option.splits if_splits)

lemma regressed_refl [simp]: "\<not> regressed p p"
  by (simp add: regressed_def split: option.splits)

lemma follows_terminal: "successively follows (t # ss) \<Longrightarrow> t \<in> set TERMINAL_USES \<Longrightarrow> ss = replicate (length ss) t"
  by (induction ss) (auto simp: follows_def)

lemma successively_replicate: "(\<And>x. x = t \<Longrightarrow> P x x) \<Longrightarrow> successively P (replicate k t)"
proof (induction k)
  case (Suc k)
  then show ?case by (cases k) simp_all
qed simp

lemma follows_legal: "successively follows ss \<Longrightarrow> legal_history ss"
proof (induction ss)
  case Nil
  show ?case by (auto simp: legal_history_alt)
next
  case (Cons s ss)
  show ?case
  proof (cases "s \<in> set TERMINAL_USES")
    case True
    then have "s # ss = replicate (Suc (length ss)) s" using follows_terminal [OF Cons.prems] by simp
    then show ?thesis unfolding legal_history_alt using True
      by (intro exI [of _ "[]"] exI [of _ "Suc (length ss)"] exI [of _ s]) simp
  next
    case False
    obtain ns k t where l: "ss = ns @ replicate k t" "\<forall>s \<in> set ns. s \<notin> set TERMINAL_USES" "0 < k \<longrightarrow> t \<in> set TERMINAL_USES" "successively (\<lambda>p s. \<not> regressed p s) ns"
      using Cons by (auto simp: legal_history_alt successively_Cons)
    have "successively (\<lambda>p s. \<not> regressed p s) (s # ns)" using l(1,4) Cons.prems by (cases ns) (auto simp: follows_def)
    then show ?thesis unfolding legal_history_alt using l False by (intro exI [of _ "s # ns"] exI [of _ k] exI [of _ t]) simp
  qed
qed

lemma legal_follows: "legal_history ss \<Longrightarrow> successively follows ss"
proof -
  assume "legal_history ss"
  then obtain ns k t where l: "ss = ns @ replicate k t" "\<forall>s \<in> set ns. s \<notin> set TERMINAL_USES" "0 < k \<longrightarrow> t \<in> set TERMINAL_USES" "successively (\<lambda>p s. \<not> regressed p s) ns"
    by (auto simp: legal_history_alt)
  have "successively follows ns" using l(4) by (rule successively_mono) (use l(2) in \<open>auto simp: follows_def\<close>)
  moreover have "successively follows (replicate k t)"
    by (rule successively_replicate) (simp add: follows_def)
  ultimately show ?thesis using l(1-3) last_in_set [of ns]
    by (auto simp: successively_append_iff follows_def regressed_terminal hd_replicate)
qed

lemma legal_one_terminal: "legal_history ss \<Longrightarrow> length (remdups (filter (\<lambda>s. s \<in> set TERMINAL_USES) ss)) \<le> 1"
proof -
  assume "legal_history ss"
  then obtain ns k t where l: "ss = ns @ replicate k t" "\<forall>s \<in> set ns. s \<notin> set TERMINAL_USES" by (auto simp: legal_history_alt)
  then have "set (filter (\<lambda>s. s \<in> set TERMINAL_USES) ss) \<subseteq> {t}" by auto
  then show ?thesis using card_mono [of "{t}"] by (simp add: length_remdups_card_conv)
qed

definition agrees :: "(string \<times> string, string) dict \<Rightarrow> use_fact list \<Rightarrow> bool" where
  "agrees seen fs = (\<forall>f \<in> set fs. \<forall>d. map_of seen (fact_source f) = Some d \<longrightarrow> d = uf_digest f)"

lemma consistent_Cons:
  "consistent_sources (f # fs) \<longleftrightarrow> consistent_sources fs \<and> (\<forall>g \<in> set fs. fact_source g = fact_source f \<longrightarrow> uf_digest f = uf_digest g)"
  unfolding consistent_sources_def list.set(2) by (metis insert_iff)

lemma agrees_update:
  assumes "map_of seen k = None"
  shows "agrees (AList.update k d seen) fs \<longleftrightarrow> agrees seen fs \<and> (\<forall>g \<in> set fs. fact_source g = k \<longrightarrow> d = uf_digest g)"
  unfolding agrees_def map_of_dict_update fun_upd_apply using assms by (metis option.distinct(1) option.inject)

lemma source_conflicts_agrees: "source_conflicts seen fs = [] \<longleftrightarrow> consistent_sources fs \<and> agrees seen fs"
proof (induction fs arbitrary: seen)
  case (Cons f fs)
  let ?k = "fact_source f"
  show ?case
  proof (cases "map_of seen ?k")
    case None
    then have "agrees seen (f # fs) = agrees seen fs" by (simp add: agrees_def)
    then show ?thesis using None Cons.IH by (auto simp: agrees_update [OF None] consistent_Cons)
  next
    case (Some d)
    then have "agrees seen (f # fs) \<longleftrightarrow> agrees seen fs \<and> d = uf_digest f" by (auto simp: agrees_def)
    moreover have "agrees seen fs \<Longrightarrow> g \<in> set fs \<Longrightarrow> fact_source g = ?k \<Longrightarrow> d = uf_digest g" for g
      using Some by (auto simp: agrees_def)
    ultimately show ?thesis using Some Cons.IH by (auto simp: consistent_Cons)
  qed
qed (simp add: consistent_sources_def agrees_def)

lemma source_conflicts_Nil: "source_conflicts [] fs = [] \<longleftrightarrow> consistent_sources fs"
  by (simp add: source_conflicts_agrees agrees_def)

lemma history_conflicts_Nil: "history_conflicts fs = [] \<longleftrightarrow> legal_history (fact_states fs) \<and> consistent_sources fs"
  using follows_legal legal_follows legal_one_terminal [of "fact_states fs"]
  by (auto simp: history_conflicts_def source_conflicts_Nil order_conflicts_None)

lemma fact_states_not_conflicted: "U_CONFLICTED \<notin> set (fact_states fs)"
proof -
  have "STATE_FACTS k \<noteq> Some U_CONFLICTED" for k by (cases k) (simp_all add: STATE_FACTS_def)
  then show ?thesis by (auto simp: fact_states_def map_filter_def dest!: sym [of "Some _"])
qed

lemma reduceE:
  assumes "reduce_resource_use cd u facts ms high now = Inr s"
  obtains "1 \<le> high" "high \<le> int (length facts)" "\<forall>f \<in> set (take (nat high) facts). uf_use f = u" "fact_states (take (nat high) facts) \<noteq> []" "sn_use s = u" "sn_high s = high"
    "sn_state s = history_state (take (nat high) facts)" "sn_facts s = map uf_id (take (nat high) facts)" "sn_conflicts s = history_conflicts (take (nat high) facts)"
    "sn_evidence s = fromkeys (concat (map uf_evidence (take (nat high) facts)))"
proof -
  have c: "\<not> (high < 1 \<or> int (length facts) < high)" using assms by (auto simp: reduce_resource_use_def)
  have l: "\<not> list_ex (\<lambda>f. uf_use f \<noteq> u) (take (nat high) facts)" "fact_states (take (nat high) facts) \<noteq> []"
    using assms c by (auto simp: reduce_resource_use_def Let_def split: if_splits)
  show ?thesis using that assms c l by (auto simp: reduce_resource_use_def Let_def list_ex_iff split: if_splits)
qed

subsection \<open>Tables\<close>

record lineage_row =
  lr_task :: string
  lr_predecessor :: "string option"
  lr_run :: string
  lr_predecessor_run :: "string option"
  lr_plan :: string
  lr_plan_version :: int
  lr_approved_digest :: "string option"
  lr_employee :: string
  lr_plan_digest :: string
  lr_plan_status :: string
  lr_bound_employee :: string
  lr_definition :: string
  lr_revision :: string
  lr_definition_digest :: string
  lr_bound_plan_digest :: string
  lr_instance_definition :: string
  lr_instance_revision :: string
  lr_instance_digest :: string
  lr_approval :: "(string \<times> string \<times> string) option"

record placement_row =
  pl_agent :: string
  pl_agent_runtime :: "string option"
  pl_runtime :: "string option"
  pl_decision :: "string option"

record use_db =
  du_uses :: "(string, use_binding) dict"
  du_facts :: "(string \<times> int \<times> use_fact) list"
  du_measurements :: "(string \<times> use_measurement) list"
  du_evidence :: "(string \<times> string \<times> (string, json) dict) list"
  du_claims :: "(string \<times> string \<times> (string, json) dict) list"
  du_high :: "(string, int \<times> int) dict"
  du_snapshots :: "use_snapshot list"
  du_keys :: "(string, string \<times> string \<times> string) dict"
  du_lineage :: "(string, lineage_row) dict"
  du_placements :: "(string, placement_row list) dict"

type_synonym 'a use_tx = "(string, use_db \<times> 'a) result"

definition holds :: "bool \<Rightarrow> string \<Rightarrow> 'a \<Rightarrow> (string, 'a) result" where
  "holds b e x = (if b then Inr x else Inl e)"

lemma holds_Inr [simp]: "holds b e x = Inr y \<longleftrightarrow> b \<and> y = x"
  by (auto simp: holds_def)

lemma holds_True [simp]: "holds True e x = Inr x"
  by simp

definition opt_text :: "string option \<Rightarrow> json" where
  "opt_text v = (case v of None \<Rightarrow> JNull | Some s \<Rightarrow> JStr s)"

definition binding_json :: "use_binding \<Rightarrow> json" where
  "binding_json b = JObj [(''scope'', JObj [(''namespace'', JStr (namespace (ub_scope b))), (''security_domain'', JStr (security_domain (ub_scope b)))]),
     (''resource_use_id'', JStr (ub_id b)), (''attempt_id'', JStr (ub_attempt b)), (''resource_kind'', JStr (resource_kind_value (ub_kind b))),
     (''slot_key'', JStr (ub_slot b)), (''occurrence_ordinal'', JInt (ub_occurrence b)), (''resource_id'', JStr (ub_resource b)),
     (''resource_revision_id'', JStr (ub_revision b)), (''resource_digest'', JStr (ub_digest b)), (''binding_id'', JStr (ub_binding b)),
     (''binding_digest'', JStr (ub_binding_digest b)), (''plan_id'', JStr (ub_plan b)), (''plan_version'', JInt (ub_plan_version b)),
     (''plan_digest'', JStr (ub_plan_digest b)), (''workflow_run_id'', JStr (ub_run b)), (''task_run_id'', JStr (ub_task b)),
     (''digital_employee_definition_id'', JStr (ub_definition b)), (''digital_employee_definition_revision_id'', JStr (ub_definition_revision b)),
     (''digital_employee_definition_digest'', JStr (ub_definition_digest b)), (''digital_employee_instance_id'', JStr (ub_employee b)),
     (''agent_instance_id'', opt_text (ub_agent b)), (''runtime_instance_id'', opt_text (ub_runtime b)), (''executor_id'', opt_text (ub_executor b)),
     (''executor_revision'', opt_text (ub_executor_revision b)), (''provider_id'', opt_text (ub_provider b)),
     (''provider_revision'', opt_text (ub_provider_revision b)), (''authorization_decision_id'', JStr (ub_decision b)),
     (''predecessor_attempt_id'', opt_text (ub_predecessor b)), (''predecessor_workflow_run_id'', opt_text (ub_predecessor_run b))]"

definition fact_json :: "codec \<Rightarrow> use_fact \<Rightarrow> json" where
  "fact_json cd f = JObj [(''fact_id'', JStr (uf_id f)), (''resource_use_id'', JStr (uf_use f)), (''kind'', JStr (use_fact_value (uf_kind f))),
     (''source_owner'', JStr (uf_owner f)), (''source_observation_id'', JStr (uf_observation f)), (''source_digest'', JStr (uf_digest f)),
     (''observed_at'', JStr (cd_iso cd (uf_observed f))), (''recorded_at'', JStr (cd_iso cd (uf_recorded f))),
     (''evidence_references'', strings_json (uf_evidence f)), (''limitation_codes'', strings_json (uf_limits f)), (''supersedes_fact_id'', opt_text (uf_supersedes f))]"

definition quantity_json :: "codec \<Rightarrow> quantity option \<Rightarrow> json" where
  "quantity_json cd v = (case v of None \<Rightarrow> JNull | Some (Q_INT n) \<Rightarrow> JInt n | Some (Q_FLOAT r) \<Rightarrow> JFloat (cd_float cd r) | Some (Q_BOOL b) \<Rightarrow> JBool b)"

definition measurement_json :: "codec \<Rightarrow> use_measurement \<Rightarrow> json" where
  "measurement_json cd m = JObj [(''measurement_id'', JStr (um_id m)), (''resource_use_id'', JStr (um_use m)), (''metric'', JStr (um_metric m)),
     (''value'', quantity_json cd (um_value m)), (''unit'', JStr (um_unit m)), (''availability'', JStr (availability_value (um_availability m))),
     (''source_identity'', JStr (um_source m)), (''source_digest'', JStr (um_digest m)), (''window_started_at'', JStr (cd_iso cd (um_started m))),
     (''window_ended_at'', JStr (cd_iso cd (um_ended m))), (''observed_at'', JStr (cd_iso cd (um_observed m))), (''authority_level'', JStr (um_authority m)),
     (''confidence'', JStr (um_confidence m)), (''limitations'', strings_json (um_limits m)), (''precision'', JStr (um_precision m)),
     (''aggregation_eligible'', JBool (um_aggregate m)), (''redaction_profile'', JStr (um_redaction m)), (''evidence_references'', strings_json (um_evidence m)),
     (''superseded_measurement_id'', opt_text (um_superseded m))]"

subsection \<open>Statements\<close>

definition insert_use :: "codec \<Rightarrow> use_db \<Rightarrow> use_binding \<Rightarrow> (string, use_db) result" where
  "insert_use cd db b =
     (if map_of (du_uses db) (ub_id b) \<noteq> None \<or>
         list_ex (\<lambda>(_, c). (ub_attempt c, ub_kind c, ub_slot c, ub_occurrence c) = (ub_attempt b, ub_kind b, ub_slot b, ub_occurrence b)) (du_uses db)
        then Inl ''UniqueViolation''
      else holds (ub_occurrence b = 1 \<and> 0 < ub_plan_version b \<and> length (value_digest cd (binding_json b)) = 64) ''CheckViolation''
        (db\<lparr>du_uses := AList.update (ub_id b) b (du_uses db)\<rparr>))"

fun insert_use_facts :: "use_db \<Rightarrow> use_fact list \<Rightarrow> int \<Rightarrow> (string, use_db) result" where
  "insert_use_facts db [] n = Inr db"
| "insert_use_facts db (f # fs) n =
     (if list_ex (\<lambda>(u, k, g). (u, k) = (uf_use f, n + 1) \<or> uf_id g = uf_id f \<or> fact_source g = fact_source f) (du_facts db) then Inl ''UniqueViolation''
      else if n + 1 \<le> 0 then Inl ''CheckViolation''
      else if map_of (du_uses db) (uf_use f) = None then Inl ''ForeignKeyViolation''
      else insert_use_facts (db\<lparr>du_facts := du_facts db @ [(uf_use f, n + 1, f)]\<rparr>) fs (n + 1))"

definition use_facts :: "use_db \<Rightarrow> string \<Rightarrow> use_fact list" where
  "use_facts db u = map snd (sort_key fst (map snd (filter (\<lambda>(v, _). v = u) (du_facts db))))"

definition use_measurements :: "use_db \<Rightarrow> string \<Rightarrow> use_measurement list" where
  "use_measurements db u = sort_key um_id (map snd (filter (\<lambda>(v, _). v = u) (du_measurements db)))"

definition insert_snapshot :: "use_db \<Rightarrow> use_snapshot \<Rightarrow> (string, use_db) result" where
  "insert_snapshot db s = holds (list_all (\<lambda>t. sn_id t \<noteq> sn_id s \<and> (sn_use t, sn_high t) \<noteq> (sn_use s, sn_high s)) (du_snapshots db)) ''UniqueViolation''
     (db\<lparr>du_snapshots := du_snapshots db @ [s]\<rparr>)"

definition insert_high :: "use_db \<Rightarrow> string \<Rightarrow> int \<Rightarrow> (string, use_db) result" where
  "insert_high db u n = (if map_of (du_high db) u \<noteq> None then Inl ''UniqueViolation''
     else holds (0 < n) ''CheckViolation'' (db\<lparr>du_high := AList.update u (n, 1) (du_high db)\<rparr>))"

definition insert_key :: "use_db \<Rightarrow> string \<Rightarrow> string \<Rightarrow> use_snapshot \<Rightarrow> (string, use_db) result" where
  "insert_key db key digest s = holds (map_of (du_keys db) key = None) ''UniqueViolation''
     (db\<lparr>du_keys := AList.update key (digest, sn_use s, sn_id s) (du_keys db)\<rparr>)"

fun insert_measurements :: "use_db \<Rightarrow> string \<Rightarrow> use_measurement list \<Rightarrow> (string, use_db) result" where
  "insert_measurements db u [] = Inr db"
| "insert_measurements db u (m # ms) =
     (if list_ex (\<lambda>(_, k). um_id k = um_id m) (du_measurements db) then Inl ''UniqueViolation''
      else if (um_availability m = M_MEASURED) \<noteq> (um_value m \<noteq> None) \<or> um_ended m < um_started m \<or> (case um_value m of None \<Rightarrow> False | Some q \<Rightarrow> negative q)
        then Inl ''CheckViolation''
      else insert_measurements (db\<lparr>du_measurements := du_measurements db @ [(u, m)]\<rparr>) u ms)"

definition text_at :: "(string, json) dict \<Rightarrow> string \<Rightarrow> (string, string) result" where
  "text_at d k = (case map_of d k of None \<Rightarrow> Inl ''KeyError'' | Some (JStr s) \<Rightarrow> Inr s | Some JNull \<Rightarrow> Inl ''NotNullViolation'' | Some _ \<Rightarrow> Inl ''DatatypeMismatch'')"

fun insert_evidence_refs :: "use_db \<Rightarrow> string \<Rightarrow> (string, json) dict list \<Rightarrow> (string, use_db) result" where
  "insert_evidence_refs db u [] = Inr db"
| "insert_evidence_refs db u (d # ds) =
     rbind (text_at d ''evidenceId'') (\<lambda>i. rbind (text_at d ''evidenceDigest'') (\<lambda>_. rbind (text_at d ''evidenceKind'') (\<lambda>_.
       if list_ex (\<lambda>(v, j, _). (v, j) = (u, i)) (du_evidence db) then Inl ''UniqueViolation''
       else insert_evidence_refs (db\<lparr>du_evidence := du_evidence db @ [(u, i, d)]\<rparr>) u ds)))"

definition insert_claim :: "use_db \<Rightarrow> string \<Rightarrow> (string, json) dict \<Rightarrow> (string, use_db) result" where
  "insert_claim db u d = rbind (text_at d ''claimId'') (\<lambda>i. rbind (text_at d ''claimDigest'') (\<lambda>_.
     holds (\<not> list_ex (\<lambda>(v, j, _). (v, j) = (u, i)) (du_claims db)) ''UniqueViolation'' (db\<lparr>du_claims := du_claims db @ [(u, i, d)]\<rparr>)))"

text \<open>The statements that open a use and that extend it, which the two repositories share in this order.\<close>

definition open_use :: "codec \<Rightarrow> use_db \<Rightarrow> use_binding \<Rightarrow> use_fact list \<Rightarrow> string \<Rightarrow> string \<Rightarrow> int \<Rightarrow> use_snapshot use_tx" where
  "open_use cd db b facts key digest now =
     rbind (insert_use cd db b) (\<lambda>db1. rbind (insert_use_facts db1 facts 0) (\<lambda>db2.
     rbind (reduce_resource_use cd (ub_id b) facts [] (int (length facts)) now) (\<lambda>s. rbind (insert_snapshot db2 s) (\<lambda>db3.
     rbind (insert_high db3 (ub_id b) (int (length facts))) (\<lambda>db4. rbind (insert_key db4 key digest s) (\<lambda>db5. Inr (db5, s)))))))"

definition extend_use ::
  "codec \<Rightarrow> use_db \<Rightarrow> string \<Rightarrow> int \<times> int \<Rightarrow> use_fact list \<Rightarrow> use_measurement list \<Rightarrow> (string, json) dict list \<Rightarrow> (string, json) dict \<Rightarrow> string \<Rightarrow> string \<Rightarrow> int
   \<Rightarrow> use_snapshot use_tx" where
  "extend_use cd db u hv facts ms evidence claim key digest now = (case hv of (high, version) \<Rightarrow>
     rbind (insert_use_facts db facts high) (\<lambda>db1. rbind (insert_measurements db1 u ms) (\<lambda>db2. rbind (insert_evidence_refs db2 u evidence) (\<lambda>db3.
     rbind (insert_claim db3 u claim) (\<lambda>db4. let high' = high + int (length facts) in
     rbind (reduce_resource_use cd u (use_facts db4 u) (use_measurements db4 u) high' now) (\<lambda>s.
     rbind (insert_snapshot (db4\<lparr>du_high := AList.update u (high', version + 1) (du_high db4)\<rparr>) s) (\<lambda>db5.
     rbind (insert_key db5 key digest s) (\<lambda>db6. Inr (db6, s)))))))))"

subsection \<open>The repository\<close>

definition snapshot_by_id :: "use_db \<Rightarrow> string \<Rightarrow> (string, use_snapshot) result" where
  "snapshot_by_id db i = (case find (\<lambda>s. sn_id s = i) (du_snapshots db) of None \<Rightarrow> Inl ''RESOURCE_USE_NOT_FOUND'' | Some s \<Rightarrow> Inr s)"

definition use_replay :: "use_db \<Rightarrow> string \<Rightarrow> string \<Rightarrow> (string, use_snapshot option) result" where
  "use_replay db key digest = (case map_of (du_keys db) key of None \<Rightarrow> Inr None
     | Some (d, _, i) \<Rightarrow> if d \<noteq> digest then Inl ''RESOURCE_USE_IDEMPOTENCY_PAYLOAD_MISMATCH'' else rbind (snapshot_by_id db i) (\<lambda>s. Inr (Some s)))"

definition lineage_matches :: "use_binding \<Rightarrow> lineage_row \<Rightarrow> bool" where
  "lineage_matches b r = (lr_task r = ub_task b \<and> lr_predecessor r = ub_predecessor b \<and> lr_run r = ub_run b \<and> lr_predecessor_run r = ub_predecessor_run b \<and>
     lr_plan r = ub_plan b \<and> lr_plan_version r = ub_plan_version b \<and> lr_approved_digest r = Some (ub_plan_digest b) \<and> lr_employee r = ub_employee b \<and>
     lr_plan_digest r = ub_plan_digest b \<and> lr_plan_status r = ''APPROVED'' \<and> lr_bound_employee r = ub_employee b \<and> lr_definition r = ub_definition b \<and>
     lr_revision r = ub_definition_revision b \<and> lr_definition_digest r = ub_definition_digest b \<and> lr_instance_definition r = ub_definition b \<and>
     lr_instance_revision r = ub_definition_revision b \<and> lr_instance_digest r = ub_definition_digest b \<and> lr_bound_plan_digest r = ub_plan_digest b)"

definition validate_use_lineage :: "use_db \<Rightarrow> use_binding \<Rightarrow> (string, unit) result" where
  "validate_use_lineage db b = (case map_of (du_lineage db) (ub_attempt b) of None \<Rightarrow> Inl ''RESOURCE_USE_LINEAGE_MISMATCH''
     | Some r \<Rightarrow>
         if \<not> lineage_matches b r then Inl ''RESOURCE_USE_LINEAGE_MISMATCH''
         else (case lr_approval r of None \<Rightarrow> Inl ''RESOURCE_USE_APPROVAL_MISMATCH''
           | Some (_, decision, plan) \<Rightarrow>
               if decision \<noteq> ''APPROVE'' \<or> plan \<noteq> ub_plan_digest b then Inl ''RESOURCE_USE_APPROVAL_MISMATCH''
               else (case dict_get (du_placements db) (ub_attempt b) [] of
                   [] \<Rightarrow> if ub_agent b \<noteq> None \<or> ub_runtime b \<noteq> None then Inl ''RESOURCE_USE_PLACEMENT_MISMATCH'' else Inr ()
                 | [p] \<Rightarrow> if Some (pl_agent p) \<noteq> ub_agent b \<or> pl_decision p \<noteq> Some ''PLACED'' \<or> pl_runtime p \<noteq> ub_runtime b \<or> pl_agent_runtime p \<noteq> pl_runtime p
                     then Inl ''RESOURCE_USE_PLACEMENT_MISMATCH'' else Inr ()
                 | _ \<Rightarrow> Inl ''RESOURCE_USE_PLACEMENT_MISMATCH'')))"

text \<open>A transaction hook works on other tables of the same transaction; it returns or raises.\<close>

definition prepare_use ::
  "codec \<Rightarrow> (string, unit) result \<Rightarrow> use_db \<Rightarrow> use_binding \<Rightarrow> use_fact list \<Rightarrow> string \<Rightarrow> string \<Rightarrow> int \<Rightarrow> use_snapshot use_tx" where
  "prepare_use cd hook db b facts key digest now =
     (if facts = [] \<or> list_ex (\<lambda>f. uf_use f \<noteq> ub_id b) facts then Inl ''RESOURCE_USE_FACTS_INVALID''
      else if digest \<noteq> value_digest cd (JObj [(''binding'', binding_json b), (''facts'', JList (map (fact_json cd) facts))])
        then Inl ''RESOURCE_USE_PAYLOAD_DIGEST_MISMATCH''
      else rbind (use_replay db key digest) (\<lambda>r. case r of Some s \<Rightarrow> Inr (db, s)
        | None \<Rightarrow> rbind (validate_use_lineage db b) (\<lambda>_. rbind hook (\<lambda>_. open_use cd db b facts key digest now))))"

definition observation_json ::
  "codec \<Rightarrow> string \<Rightarrow> use_fact list \<Rightarrow> use_measurement list \<Rightarrow> (string, json) dict list \<Rightarrow> (string, json) dict \<Rightarrow> int \<Rightarrow> json" where
  "observation_json cd u facts ms evidence claim expected = JObj [(''resourceUseId'', JStr u), (''facts'', JList (map (fact_json cd) facts)),
     (''measurements'', JList (map (measurement_json cd) ms)), (''evidence'', JList (map JObj evidence)), (''claim'', JObj claim), (''expectedHighWater'', JInt expected)]"

definition commit_observation ::
  "codec \<Rightarrow> (string, unit) result \<Rightarrow> use_db \<Rightarrow> string \<Rightarrow> use_fact list \<Rightarrow> use_measurement list \<Rightarrow> (string, json) dict list \<Rightarrow> (string, json) dict \<Rightarrow> string \<Rightarrow> string \<Rightarrow> int \<Rightarrow> int
   \<Rightarrow> use_snapshot use_tx" where
  "commit_observation cd hook db u facts ms evidence claim key digest expected now =
     (if digest \<noteq> value_digest cd (observation_json cd u facts ms evidence claim expected) then Inl ''RESOURCE_USE_PAYLOAD_DIGEST_MISMATCH''
      else rbind (use_replay db key digest) (\<lambda>r. case r of Some s \<Rightarrow> Inr (db, s)
        | None \<Rightarrow> (case map_of (du_high db) u of None \<Rightarrow> Inl ''RESOURCE_USE_NOT_FOUND''
            | Some (high, version) \<Rightarrow> if high \<noteq> expected then Inl ''RESOURCE_USE_CAS_MISMATCH''
                else rbind hook (\<lambda>_. extend_use cd db u (high, version) facts ms evidence claim key digest now))))"

definition use_binding_of :: "use_db \<Rightarrow> string \<Rightarrow> use_binding option" where
  "use_binding_of db u = map_of (du_uses db) u"

definition latest_snapshot :: "use_db \<Rightarrow> string \<Rightarrow> use_snapshot option" where
  "latest_snapshot db u = (case rev (sort_key sn_high (filter (\<lambda>s. sn_use s = u) (du_snapshots db))) of [] \<Rightarrow> None | s # _ \<Rightarrow> Some s)"

definition list_use_snapshots :: "use_db \<Rightarrow> use_snapshot list" where
  "list_use_snapshots db = List.map_filter (latest_snapshot db) (sort (remdups (map sn_use (du_snapshots db))))"

definition use_count :: "use_db \<Rightarrow> nat" where
  "use_count db = length (du_uses db)"

subsection \<open>The application service\<close>

record use_authorization =
  ua_scope :: scope_identity
  ua_actor :: string
  ua_permissions :: "string list"
  ua_decision :: string

definition scoped_require :: "use_authorization \<Rightarrow> scope_identity \<Rightarrow> string \<Rightarrow> string \<Rightarrow> (string, string) result" where
  "scoped_require a sc action i =
     (if sc \<noteq> ua_scope a \<or> action \<notin> set (ua_permissions a) \<or> ua_actor a = [] \<or> ua_decision a = [] \<or> i = [] then Inl ''RESOURCE_USE_NOT_FOUND'' else Inr (ua_decision a))"

type_synonym use_authorize = "scope_identity \<Rightarrow> string \<Rightarrow> string \<Rightarrow> (string, string) result"

definition authorize_use :: "use_authorize option \<Rightarrow> scope_identity \<Rightarrow> string \<Rightarrow> string \<Rightarrow> (string, string) result" where
  "authorize_use auth sc action i = (case auth of None \<Rightarrow> Inl ''RESOURCE_USE_NOT_FOUND''
     | Some f \<Rightarrow> rbind (f sc action i) (\<lambda>d. if d = [] then Inl ''RESOURCE_USE_NOT_FOUND'' else Inr d))"

definition app_prepare_use ::
  "codec \<Rightarrow> use_authorize option \<Rightarrow> (string, unit) result \<Rightarrow> use_db \<Rightarrow> use_binding \<Rightarrow> use_fact list \<Rightarrow> string \<Rightarrow> string \<Rightarrow> int \<Rightarrow> use_snapshot use_tx" where
  "app_prepare_use cd auth hook db b facts key digest now = rbind (authorize_use auth (ub_scope b) ''WRITE'' (ub_id b)) (\<lambda>d.
     if ub_decision b \<noteq> d then Inl ''RESOURCE_USE_AUTHORIZATION_MISMATCH'' else prepare_use cd hook db b facts key digest now)"

definition app_commit_observation ::
  "codec \<Rightarrow> use_authorize option \<Rightarrow> scope_identity \<Rightarrow> (string, unit) result \<Rightarrow> use_db \<Rightarrow> string \<Rightarrow> use_fact list \<Rightarrow> use_measurement list \<Rightarrow> (string, json) dict list \<Rightarrow> (string, json) dict
   \<Rightarrow> string \<Rightarrow> string \<Rightarrow> int \<Rightarrow> int \<Rightarrow> use_snapshot use_tx" where
  "app_commit_observation cd auth sc hook db u facts ms evidence claim key digest expected now = rbind (authorize_use auth sc ''WRITE'' u) (\<lambda>d.
     case use_binding_of db u of None \<Rightarrow> Inl ''RESOURCE_USE_AUTHORIZATION_MISMATCH''
     | Some b \<Rightarrow> if ub_decision b \<noteq> d then Inl ''RESOURCE_USE_AUTHORIZATION_MISMATCH''
         else commit_observation cd hook db u facts ms evidence claim key digest expected now)"

definition app_get_snapshot :: "use_authorize option \<Rightarrow> scope_identity \<Rightarrow> use_db \<Rightarrow> string \<Rightarrow> (string, use_snapshot) result" where
  "app_get_snapshot auth sc db u = rbind (authorize_use auth sc ''READ'' u) (\<lambda>_.
     case latest_snapshot db u of None \<Rightarrow> Inl ''RESOURCE_USE_NOT_FOUND'' | Some s \<Rightarrow> Inr s)"

definition app_list_snapshots :: "use_authorize option \<Rightarrow> scope_identity \<Rightarrow> use_db \<Rightarrow> (string, use_snapshot list) result" where
  "app_list_snapshots auth sc db = rbind (authorize_use auth sc ''LIST'' ''resource-uses'') (\<lambda>_. Inr (list_use_snapshots db))"

definition app_count :: "use_authorize option \<Rightarrow> scope_identity \<Rightarrow> use_db \<Rightarrow> (string, nat) result" where
  "app_count auth sc db = rbind (authorize_use auth sc ''COUNT'' ''resource-uses'') (\<lambda>_. Inr (use_count db))"

subsection \<open>What the reducer accepts\<close>

text \<open>
  C24: The reducer agrees with the declarative notion of a legal history: the snapshot it returns has the last state of the selected facts when no
  state steps back in the life cycle from the state just before it, only one terminal state occurs and only at the end, and no source gives two digests for one observation; otherwise the state is
  \<open>CONFLICTED\<close>, and that is so exactly when the snapshot lists a conflict.
\<close>
theorem reducer_accepts_legal_histories:
  assumes "reduce_resource_use cd u facts ms high now = Inr s" and "H = take (nat high) facts"
  shows "sn_state s = (if legal_history (fact_states H) \<and> consistent_sources H then last (fact_states H) else U_CONFLICTED) \<and>
    (sn_state s = U_CONFLICTED \<longleftrightarrow> sn_conflicts s \<noteq> [])"
proof -
  have s: "sn_state s = history_state H" "sn_conflicts s = history_conflicts H" "fact_states H \<noteq> []"
    using assms(1) by (rule reduceE, simp add: assms(2))+
  have "last (fact_states H) \<noteq> U_CONFLICTED" using fact_states_not_conflicted [of H] last_in_set [OF s(3)] by metis
  then show ?thesis using history_conflicts_Nil [of H] by (simp add: s history_state_def)
qed

subsection \<open>A use that fails and then succeeds\<close>

definition demo_sha :: "string \<Rightarrow> string" where
  "demo_sha s = replicate 63 (CHR ''0'') @ [if hd s = CHR ''u'' then s ! 2 else CHR ''0'']"

definition demo_codec :: codec where
  "demo_codec = \<lparr>cd_sha = demo_sha, cd_iso = (\<lambda>_. ''t''), cd_float = (\<lambda>_. ''f'')\<rparr>"

definition demo_fact :: "string \<Rightarrow> use_fact_kind \<Rightarrow> use_fact" where
  "demo_fact i k = \<lparr>uf_id = i, uf_use = ''u'', uf_kind = k, uf_owner = ''o'', uf_observation = i, uf_digest = ''d'', uf_observed = 0, uf_recorded = 0,
     uf_evidence = [], uf_limits = [], uf_supersedes = None\<rparr>"

definition demo_history :: "use_fact list" where
  "demo_history = [demo_fact ''1'' F_REQUESTED, demo_fact ''2'' F_RUNNING, demo_fact ''3'' F_FAILED, demo_fact ''4'' F_SUCCEEDED]"

definition demo_snapshot :: "int \<Rightarrow> use_snapshot" where
  "demo_snapshot n = \<lparr>sn_id = ''resource-use-snapshot:'' @ replicate 63 (CHR ''0'') @ show_int n, sn_digest = replicate 63 (CHR ''0'') @ ''0'', sn_use = ''u'', sn_high = n,
     sn_version = REDUCER_VERSION, sn_state = history_state (take (nat n) demo_history), sn_facts = map uf_id (take (nat n) demo_history), sn_measurements = [],
     sn_evidence = [], sn_limits = [], sn_conflicts = history_conflicts (take (nat n) demo_history), sn_created = 0\<rparr>"

lemma demo_digest: "value_digest demo_codec (JObj d) = replicate 63 (CHR ''0'') @ ''0''"
  by (simp add: value_digest_def demo_codec_def demo_sha_def)

lemma demo_id:
  assumes "0 \<le> n" "n < 10" "d \<noteq> []"
  shows "stable_id demo_codec ''resource-use-snapshot'' [''u'', show_int n, d] = Inr (''resource-use-snapshot:'' @ replicate 63 (CHR ''0'') @ show_int n)"
proof -
  have "show_int n = [char_of (48 + nat n)]" using assms by (simp add: show_int_def show_nat.simps)
  then show ?thesis using assms(3) by (simp add: stable_id_def demo_codec_def demo_sha_def)
qed

lemmas demo_simps = demo_history_def demo_fact_def fact_states_def map_filter_simps STATE_FACTS_def fromkeys_def

lemma demo_reduces:
  assumes "1 \<le> n" "n \<le> 4"
  shows "reduce_resource_use demo_codec ''u'' (take (nat n) demo_history) [] n 0 = Inr (demo_snapshot n)"
proof -
  have "n = 1 \<or> n = 2 \<or> n = 3 \<or> n = 4" using assms by linarith
  then have "list_all (\<lambda>f. uf_use f = ''u'') (take (nat n) demo_history)" "fact_states (take (nat n) demo_history) \<noteq> []"
    "concat (map uf_evidence (take (nat n) demo_history)) = []" "concat (map uf_limits (take (nat n) demo_history)) = []" "int (length (take (nat n) demo_history)) = n"
    by (auto simp: demo_simps numeral_3_eq_3)
  then show ?thesis using assms demo_id [of n]
    by (simp add: reduce_resource_use_def snapshot_payload_def demo_digest demo_snapshot_def list_ex_iff list_all_iff Let_def)
qed

lemma demo_conflicts: "history_conflicts (take 3 demo_history) = []" "history_conflicts (take 4 demo_history) = [''CONFLICTING_TERMINAL_FACTS'', ''STATE_AFTER_TERMINAL'']"
  by (simp_all add: demo_simps history_conflicts_def TERMINAL_USES_def fact_source_def regressed_def STATE_RANK_def numeral_3_eq_3)

theorem reducer_accepts_legal_histories_witness:
  "sn_state (demo_snapshot 3) = U_FAILED \<and> sn_state (demo_snapshot 4) = U_CONFLICTED"
proof -
  have "sn_state (demo_snapshot 3) = last (fact_states (take 3 demo_history))"
    using reducer_accepts_legal_histories [OF demo_reduces [of 3] refl] demo_conflicts(1) history_conflicts_Nil [of "take 3 demo_history"] by simp
  moreover have "sn_conflicts (demo_snapshot 4) \<noteq> []" using demo_conflicts(2) by (simp add: demo_snapshot_def)
  then have "sn_state (demo_snapshot 4) = U_CONFLICTED" by (rule reducer_accepts_legal_histories [OF demo_reduces refl, THEN conjunct2, THEN iffD2, rotated -1]) simp_all
  ultimately show ?thesis by (simp add: demo_simps numeral_3_eq_3)
qed

end
