(* ===== verification/Skill_Invocation.thy ===== *)
theory Skill_Invocation
  imports Resource_Use
begin

text \<open>
  Governed invocations of read-only Skills: \<open>agent_console/skill_invocation_domain.py\<close>, \<open>skill_invocation_postgres.py\<close>, \<open>skill_executor.py\<close> and
  \<open>skill_invocation_application.py\<close>. A request is checked, its dispatch is made durable together with the opening of its resource use, the executor is called
  once, and the outcome is made durable together with the closing facts of the use.

  The tables hold the rows of one scope, as in \<open>Resource_Use\<close>. Inputs and outputs are JSON values, so that the guards of \<open>_validate_shape\<close> for other Python values have no
  counterpart. Instants are microseconds. The number that the text of a float stands for is a parameter.
\<close>

subsection \<open>Python values that are JSON\<close>

type_synonym numbers = "string \<Rightarrow> rat"

definition num_of :: "numbers \<Rightarrow> json \<Rightarrow> rat option" where
  "num_of num j = (case j of JBool b \<Rightarrow> Some (if b then 1 else 0) | JInt i \<Rightarrow> Some (of_int i) | JFloat t \<Rightarrow> Some (num t) | _ \<Rightarrow> None)"

text \<open>\<open>a == b\<close>: numbers and truth values by their number, dictionaries without their order.\<close>

function (sequential) py_equal :: "numbers \<Rightarrow> json \<Rightarrow> json \<Rightarrow> bool" where
  "py_equal num (JList xs) (JList ys) = (length xs = length ys \<and> list_all (\<lambda>(x, y). py_equal num x y) (zip xs ys))"
| "py_equal num (JObj d) (JObj e) = (length d = length e \<and> list_all (\<lambda>(k, v). case map_of e k of None \<Rightarrow> False | Some w \<Rightarrow> py_equal num v w) d)"
| "py_equal num (JStr s) (JStr t) = (s = t)"
| "py_equal num JNull JNull = True"
| "py_equal num a b = (case (num_of num a, num_of num b) of (Some p, Some q) \<Rightarrow> p = q | _ \<Rightarrow> False)"
  by pat_completeness auto

termination
proof (relation "measure (\<lambda>(_, a, _). size a)")
  show "((num, x, y), num, JList xs, JList ys) \<in> measure (\<lambda>(_, a, _). size a)" if "z \<in> set (zip xs ys)" "(x, y) = z" for num x y z and xs ys :: "json list"
  proof -
    have "x \<in> set xs" using that by (metis set_zip_leftD)
    then show ?thesis by (simp add: less_Suc_eq_le size_list_estimation')
  qed
  show "((num, v, w), num, JObj d, JObj e) \<in> measure (\<lambda>(_, a, _). size a)" if "z \<in> set d" "(k, v) = z" for num k v w z and d e :: "(string \<times> json) list"
  proof -
    have "size v < Suc (size_list (size_prod (\<lambda>_. 0) size) d)"
      using that by (auto intro!: le_imp_less_Suc size_list_estimation')
    then show ?thesis by simp
  qed
qed simp_all

definition falsy :: "numbers \<Rightarrow> json option \<Rightarrow> bool" where
  "falsy num v = (case v of None \<Rightarrow> True | Some JNull \<Rightarrow> True | Some (JStr s) \<Rightarrow> s = [] | Some (JList xs) \<Rightarrow> xs = [] | Some (JObj d) \<Rightarrow> d = []
     | Some j \<Rightarrow> num_of num j = Some 0)"

text \<open>\<open>value.get(key)\<close>, the elements of an iteration, and the first dictionary with a given text under a key.\<close>

definition py_get :: "json \<Rightarrow> string \<Rightarrow> (string, json option) result" where
  "py_get j k = (case j of JObj d \<Rightarrow> Inr (map_of d k) | _ \<Rightarrow> Inl ''AttributeError'')"

definition py_elements :: "json option \<Rightarrow> (string, json list) result" where
  "py_elements v = (case v of None \<Rightarrow> Inr [] | Some (JList xs) \<Rightarrow> Inr xs | Some (JObj d) \<Rightarrow> Inr (map (\<lambda>p. JStr (fst p)) d)
     | Some (JStr s) \<Rightarrow> Inr (map (\<lambda>c. JStr [c]) s) | Some _ \<Rightarrow> Inl ''TypeError'')"

fun first_with :: "string \<Rightarrow> string \<Rightarrow> json list \<Rightarrow> (string, json option) result" where
  "first_with k v [] = Inr None"
| "first_with k v (x # xs) = rbind (py_get x k) (\<lambda>w. if w = Some (JStr v) then Inr (Some x) else first_with k v xs)"

subsection \<open>The bounded JSON Schema\<close>

primrec each_check :: "('a \<Rightarrow> ('e, unit) result) \<Rightarrow> 'a list \<Rightarrow> ('e, unit) result" where
  "each_check f [] = Inr ()"
| "each_check f (x # xs) = rbind (f x) (\<lambda>_. each_check f xs)"

lemma each_check_cong [fundef_cong]: "xs = ys \<Longrightarrow> (\<And>y. y \<in> set ys \<Longrightarrow> f y = g y) \<Longrightarrow> each_check f xs = each_check g ys"
  by (induction ys arbitrary: xs) auto

definition schema_type :: "json option \<Rightarrow> json \<Rightarrow> (string, bool) result" where
  "schema_type expected item = (case expected of Some (JList _) \<Rightarrow> Inl ''TypeError'' | Some (JObj _) \<Rightarrow> Inl ''TypeError''
     | Some (JStr t) \<Rightarrow> Inr (case item of JStr _ \<Rightarrow> t = ''string'' | JInt _ \<Rightarrow> t = ''integer'' \<or> t = ''number'' | JFloat _ \<Rightarrow> t = ''number''
         | JBool _ \<Rightarrow> t = ''boolean'' | JObj _ \<Rightarrow> t = ''object'' | JList _ \<Rightarrow> t = ''array'' | JNull \<Rightarrow> False)
     | _ \<Rightarrow> Inr False)"

text \<open>\<open>item in container\<close>\<close>

definition py_member :: "numbers \<Rightarrow> json \<Rightarrow> json \<Rightarrow> (string, bool) result" where
  "py_member num item container = (case container of JList xs \<Rightarrow> Inr (list_ex (py_equal num item) xs)
     | JStr s \<Rightarrow> (case item of JStr t \<Rightarrow> Inr (substring_of t s) | _ \<Rightarrow> Inl ''TypeError'')
     | JObj d \<Rightarrow> (case item of JStr t \<Rightarrow> Inr (t \<in> set (map fst d)) | JList _ \<Rightarrow> Inl ''TypeError'' | JObj _ \<Rightarrow> Inl ''TypeError'' | _ \<Rightarrow> Inr False)
     | _ \<Rightarrow> Inl ''TypeError'')"

definition enum_check :: "numbers \<Rightarrow> string \<Rightarrow> (string, json) dict \<Rightarrow> json \<Rightarrow> (string, unit) result" where
  "enum_check num code r item = (case map_of r ''enum'' of None \<Rightarrow> Inr ()
     | Some e \<Rightarrow> rbind (py_member num item e) (\<lambda>b. if b then Inr () else Inl code))"

definition number_at :: "numbers \<Rightarrow> (string, json) dict \<Rightarrow> string \<Rightarrow> rat \<Rightarrow> (string, rat) result" where
  "number_at num r k dflt = (case map_of r k of None \<Rightarrow> Inr dflt
     | Some j \<Rightarrow> (case num_of num j of None \<Rightarrow> Inl ''TypeError'' | Some q \<Rightarrow> Inr q))"

definition length_check :: "numbers \<Rightarrow> string \<Rightarrow> (string, json) dict \<Rightarrow> string \<Rightarrow> (string, unit) result" where
  "length_check num code r s = rbind (number_at num r ''minLength'' 0) (\<lambda>lo. if rat_of_nat (length s) < lo then Inl code
     else rbind (number_at num r ''maxLength'' (rat_of_nat (length s))) (\<lambda>hi. if hi < rat_of_nat (length s) then Inl code else Inr ()))"

fun required_check :: "string \<Rightarrow> (string, json) dict \<Rightarrow> json list \<Rightarrow> (string, unit) result" where
  "required_check code d [] = Inr ()"
| "required_check code d (n # ns) = (case n of JStr k \<Rightarrow> if map_of d k = None then Inl code else required_check code d ns
     | JList _ \<Rightarrow> Inl ''TypeError'' | JObj _ \<Rightarrow> Inl ''TypeError'' | _ \<Rightarrow> Inl code)"

definition object_check :: "string \<Rightarrow> (string, json) dict \<Rightarrow> (string, json) dict \<Rightarrow> (string, (string, json) dict) result" where
  "object_check code r d = (case (dict_get r ''properties'' (JObj []), dict_get r ''required'' (JList [])) of
     (JObj ps, JList req) \<Rightarrow> rbind (required_check code d req) (\<lambda>_.
       if map_of r ''additionalProperties'' = Some (JBool False) \<and> list_ex (\<lambda>(k, _). map_of ps k = None) d then Inl code else Inr ps)
   | _ \<Rightarrow> Inl code)"

function validate_json_schema :: "numbers \<Rightarrow> string \<Rightarrow> json \<Rightarrow> json \<Rightarrow> (string, unit) result" where
  "validate_json_schema num code item rule = (case rule of JObj r \<Rightarrow>
      rbind (schema_type (map_of r ''type'') item) (\<lambda>valid. if \<not> valid then Inl code else
      rbind (enum_check num code r item) (\<lambda>_. case item of
        JStr s \<Rightarrow> length_check num code r s
      | JObj d \<Rightarrow> rbind (object_check code r d) (\<lambda>ps. each_check (\<lambda>(k, v). case map_of ps k of None \<Rightarrow> Inr () | Some p \<Rightarrow> validate_json_schema num code v p) d)
      | JList xs \<Rightarrow> (case dict_get r ''items'' JNull of JNull \<Rightarrow> Inl code | p \<Rightarrow> each_check (\<lambda>x. validate_json_schema num code x p) xs)
      | _ \<Rightarrow> Inr ()))
    | _ \<Rightarrow> Inl code)"
  by pat_completeness auto

termination
proof (relation "measure (\<lambda>(_, _, a, _). size a)")
  show "((num, code, v, p), num, code, item, rule) \<in> measure (\<lambda>(_, _, a, _). size a)" if "item = JObj d" "z \<in> set d" "(k, v) = z" for num code k v p item rule d z
  proof -
    have "size v < Suc (size_list (size_prod (\<lambda>_. 0) size) d)"
      using that by (auto intro!: le_imp_less_Suc size_list_estimation')
    then show ?thesis using that(1) by simp
  qed
qed (auto simp: less_Suc_eq_le size_list_estimation')

declare validate_json_schema.simps [simp del]

subsection \<open>Shape of inputs and outputs\<close>

text \<open>\<open>walk\<close> threads the number of properties seen so far.\<close>

primrec fold_check :: "('a \<Rightarrow> nat \<Rightarrow> ('e, nat) result) \<Rightarrow> 'a list \<Rightarrow> nat \<Rightarrow> ('e, nat) result" where
  "fold_check f [] n = Inr n"
| "fold_check f (x # xs) n = rbind (f x n) (fold_check f xs)"

lemma fold_check_cong [fundef_cong]: "xs = ys \<Longrightarrow> n = m \<Longrightarrow> (\<And>y k. y \<in> set ys \<Longrightarrow> f y k = g y k) \<Longrightarrow> fold_check f xs n = fold_check g ys m"
proof (induction ys arbitrary: xs n m)
  case (Cons y ys)
  then have "fold_check f ys = fold_check g ys" by (intro ext) simp
  then show ?case using Cons.prems by simp
qed simp

fun walk :: "int \<Rightarrow> int \<Rightarrow> int \<Rightarrow> json \<Rightarrow> nat \<Rightarrow> (string, nat) result" where
  "walk max_depth max_properties depth item n = (if max_depth < depth then Inl ''SKILL_IO_DEPTH_EXCEEDED''
     else case item of
       JObj d \<Rightarrow> if max_properties < int (n + length d) then Inl ''SKILL_IO_PROPERTIES_EXCEEDED''
         else fold_check (\<lambda>(_, v). walk max_depth max_properties (depth + 1) v) d (n + length d)
     | JList xs \<Rightarrow> fold_check (walk max_depth max_properties (depth + 1)) xs n
     | _ \<Rightarrow> Inr n)"

declare walk.simps [simp del]

definition validate_shape :: "json \<Rightarrow> int \<Rightarrow> int \<Rightarrow> (string, unit) result" where
  "validate_shape v max_depth max_properties = rbind (walk max_depth max_properties 1 v 0) (\<lambda>_. Inr ())"

subsection \<open>Records of an invocation\<close>

datatype side_effect_class = SE_READ_ONLY | SE_IDEMPOTENT_WRITE | SE_NON_IDEMPOTENT_WRITE | SE_UNKNOWN

definition side_effect_value :: "side_effect_class \<Rightarrow> string" where
  "side_effect_value c = (case c of SE_READ_ONLY \<Rightarrow> ''READ_ONLY'' | SE_IDEMPOTENT_WRITE \<Rightarrow> ''IDEMPOTENT_WRITE''
     | SE_NON_IDEMPOTENT_WRITE \<Rightarrow> ''NON_IDEMPOTENT_WRITE'' | SE_UNKNOWN \<Rightarrow> ''UNKNOWN'')"

datatype invocation_kind = K_REQUESTED | K_DISPATCH_RECORDED | K_ACCEPTED | K_RUNNING | K_SUCCEEDED | K_FAILED | K_CANCELLATION_REQUESTED | K_CANCELLED | K_OUTCOME_UNKNOWN

datatype invocation_state = V_REQUESTED | V_DISPATCH_RECORDED | V_ACCEPTED | V_RUNNING | V_SUCCEEDED | V_FAILED | V_CANCELLATION_REQUESTED | V_CANCELLED | V_OUTCOME_UNKNOWN

definition invocation_kind_value :: "invocation_kind \<Rightarrow> string" where
  "invocation_kind_value k = (case k of K_REQUESTED \<Rightarrow> ''INVOCATION_REQUESTED'' | K_DISPATCH_RECORDED \<Rightarrow> ''DISPATCH_RECORDED'' | K_ACCEPTED \<Rightarrow> ''INVOCATION_ACCEPTED''
     | K_RUNNING \<Rightarrow> ''INVOCATION_RUNNING'' | K_SUCCEEDED \<Rightarrow> ''INVOCATION_SUCCEEDED'' | K_FAILED \<Rightarrow> ''INVOCATION_FAILED''
     | K_CANCELLATION_REQUESTED \<Rightarrow> ''CANCELLATION_REQUESTED'' | K_CANCELLED \<Rightarrow> ''INVOCATION_CANCELLED'' | K_OUTCOME_UNKNOWN \<Rightarrow> ''OUTCOME_UNKNOWN'')"

definition invocation_state_value :: "invocation_state \<Rightarrow> string" where
  "invocation_state_value s = (case s of V_REQUESTED \<Rightarrow> ''REQUESTED'' | V_DISPATCH_RECORDED \<Rightarrow> ''DISPATCH_RECORDED'' | V_ACCEPTED \<Rightarrow> ''ACCEPTED'' | V_RUNNING \<Rightarrow> ''RUNNING''
     | V_SUCCEEDED \<Rightarrow> ''SUCCEEDED'' | V_FAILED \<Rightarrow> ''FAILED'' | V_CANCELLATION_REQUESTED \<Rightarrow> ''CANCELLATION_REQUESTED'' | V_CANCELLED \<Rightarrow> ''CANCELLED''
     | V_OUTCOME_UNKNOWN \<Rightarrow> ''OUTCOME_UNKNOWN'')"

definition FACT_STATE :: "invocation_kind \<Rightarrow> invocation_state" where
  "FACT_STATE k = (case k of K_REQUESTED \<Rightarrow> V_REQUESTED | K_DISPATCH_RECORDED \<Rightarrow> V_DISPATCH_RECORDED | K_ACCEPTED \<Rightarrow> V_ACCEPTED | K_RUNNING \<Rightarrow> V_RUNNING
     | K_SUCCEEDED \<Rightarrow> V_SUCCEEDED | K_FAILED \<Rightarrow> V_FAILED | K_CANCELLATION_REQUESTED \<Rightarrow> V_CANCELLATION_REQUESTED | K_CANCELLED \<Rightarrow> V_CANCELLED
     | K_OUTCOME_UNKNOWN \<Rightarrow> V_OUTCOME_UNKNOWN)"

definition TERMINAL_INVOCATIONS :: "invocation_state list" where
  "TERMINAL_INVOCATIONS = [V_SUCCEEDED, V_FAILED, V_CANCELLED, V_OUTCOME_UNKNOWN]"

fun digests_all :: "(string \<times> string) list \<Rightarrow> (string, unit) result" where
  "digests_all [] = Inr ()"
| "digests_all ((v, code) # rest) = (if \<not> is_digest v then Inl code else digests_all rest)"

record skill_limits =
  sl_policy :: string
  sl_revision :: string
  sl_input :: int
  sl_output :: int
  sl_depth :: int
  sl_properties :: int
  sl_timeout :: int

definition skill_limits_init :: "skill_limits \<Rightarrow> (string, skill_limits) result" where
  "skill_limits_init l = rbind (require_all [(sl_policy l, ''IO_POLICY_ID_REQUIRED''), (sl_revision l, ''IO_POLICY_REVISION_REQUIRED'')]) (\<lambda>_.
     if sl_input l < 1 then Inl ''IO_MAX_INPUT_BYTES_INVALID'' else if sl_output l < 1 then Inl ''IO_MAX_OUTPUT_BYTES_INVALID''
     else if sl_depth l < 1 then Inl ''IO_MAX_OBJECT_DEPTH_INVALID'' else if sl_properties l < 1 then Inl ''IO_MAX_PROPERTIES_INVALID''
     else if sl_timeout l < 1 then Inl ''IO_TIMEOUT_MS_INVALID'' else Inr l)"

record side_effect_policy =
  sp_id :: string
  sp_revision :: string
  sp_digest :: string
  sp_class :: side_effect_class

definition side_effect_policy_init :: "side_effect_policy \<Rightarrow> (string, side_effect_policy) result" where
  "side_effect_policy_init p = rbind (require_all [(sp_id p, ''SIDE_EFFECT_POLICY_ID_REQUIRED''), (sp_revision p, ''SIDE_EFFECT_POLICY_REVISION_REQUIRED''),
       (sp_digest p, ''SIDE_EFFECT_POLICY_DIGEST_REQUIRED'')]) (\<lambda>_.
     if \<not> is_digest (sp_digest p) then Inl ''SIDE_EFFECT_POLICY_DIGEST_INVALID''
     else if sp_class p \<noteq> SE_READ_ONLY then Inl ''SKILL_SIDE_EFFECT_NOT_ALLOWED'' else Inr p)"

record executor_revision =
  er_id :: string
  er_revision :: string
  er_digest :: string

definition executor_revision_init :: "executor_revision \<Rightarrow> (string, executor_revision) result" where
  "executor_revision_init e = rbind (require_all [(er_id e, ''EXECUTOR_ID_REQUIRED''), (er_revision e, ''EXECUTOR_REVISION_REQUIRED''), (er_digest e, ''EXECUTOR_DIGEST_REQUIRED'')]) (\<lambda>_.
     if \<not> is_digest (er_digest e) then Inl ''EXECUTOR_DIGEST_INVALID'' else Inr e)"

record skill_request =
  sq_scope :: scope_identity
  sq_key :: string
  sq_attempt :: string
  sq_run :: string
  sq_task :: string
  sq_plan :: string
  sq_plan_version :: int
  sq_plan_digest :: string
  sq_approval :: string
  sq_assignment :: string
  sq_definition :: string
  sq_definition_revision :: string
  sq_definition_digest :: string
  sq_employee :: string
  sq_agent :: "string option"
  sq_runtime :: "string option"
  sq_skill :: string
  sq_skill_revision :: string
  sq_skill_digest :: string
  sq_operation :: string
  sq_input_schema :: string
  sq_output_schema :: string
  sq_binding :: string
  sq_binding_digest :: string
  sq_executor :: executor_revision
  sq_side_effect :: side_effect_class
  sq_policy :: side_effect_policy
  sq_limits :: skill_limits
  sq_decision :: string
  sq_use :: use_binding

definition use_binding_exact :: "skill_request \<Rightarrow> bool" where
  "use_binding_exact r = (let b = sq_use r in ub_kind b = R_SKILL \<and> ub_slot b = ''skill:primary'' \<and> ub_occurrence b = 1 \<and> ub_attempt b = sq_attempt r \<and>
     ub_run b = sq_run r \<and> ub_task b = sq_task r \<and> ub_plan b = sq_plan r \<and> ub_plan_version b = sq_plan_version r \<and> ub_plan_digest b = sq_plan_digest r \<and>
     ub_definition b = sq_definition r \<and> ub_definition_revision b = sq_definition_revision r \<and> ub_definition_digest b = sq_definition_digest r \<and>
     ub_employee b = sq_employee r \<and> ub_agent b = sq_agent r \<and> ub_runtime b = sq_runtime r \<and> ub_resource b = sq_skill r \<and> ub_revision b = sq_skill_revision r \<and>
     ub_digest b = sq_skill_digest r \<and> ub_binding b = sq_binding r \<and> ub_binding_digest b = sq_binding_digest r \<and> ub_decision b = sq_decision r \<and>
     ub_executor b = Some (er_id (sq_executor r)) \<and> ub_executor_revision b = Some (er_revision (sq_executor r)))"

definition skill_request_init :: "codec \<Rightarrow> skill_request \<Rightarrow> (string, skill_request) result" where
  "skill_request_init cd r =
     rbind (require_all [(sq_key r, ''IDEMPOTENCY_KEY_REQUIRED''), (sq_attempt r, ''ATTEMPT_ID_REQUIRED''), (sq_run r, ''WORKFLOW_RUN_ID_REQUIRED''),
       (sq_task r, ''TASK_RUN_ID_REQUIRED''), (sq_plan r, ''PLAN_ID_REQUIRED''), (sq_plan_digest r, ''PLAN_DIGEST_REQUIRED''), (sq_approval r, ''APPROVAL_ID_REQUIRED''),
       (sq_assignment r, ''ASSIGNMENT_ID_REQUIRED''), (sq_definition r, ''DIGITAL_EMPLOYEE_DEFINITION_ID_REQUIRED''),
       (sq_definition_revision r, ''DIGITAL_EMPLOYEE_DEFINITION_REVISION_ID_REQUIRED''), (sq_definition_digest r, ''DIGITAL_EMPLOYEE_DEFINITION_DIGEST_REQUIRED''),
       (sq_employee r, ''DIGITAL_EMPLOYEE_INSTANCE_ID_REQUIRED''), (sq_skill r, ''SKILL_ID_REQUIRED''), (sq_skill_revision r, ''SKILL_REVISION_ID_REQUIRED''),
       (sq_skill_digest r, ''SKILL_DIGEST_REQUIRED''), (sq_operation r, ''OPERATION_REQUIRED''), (sq_input_schema r, ''INPUT_SCHEMA_DIGEST_REQUIRED''),
       (sq_output_schema r, ''OUTPUT_SCHEMA_DIGEST_REQUIRED''), (sq_binding r, ''BINDING_ID_REQUIRED''), (sq_binding_digest r, ''BINDING_DIGEST_REQUIRED''),
       (sq_decision r, ''AUTHORIZATION_DECISION_ID_REQUIRED'')]) (\<lambda>_.
     if sq_plan_version r < 1 then Inl ''PLAN_VERSION_INVALID'' else
     rbind (digests_all [(sq_plan_digest r, ''PLAN_DIGEST_INVALID''), (sq_definition_digest r, ''DIGITAL_EMPLOYEE_DEFINITION_DIGEST_INVALID''),
       (sq_skill_digest r, ''SKILL_DIGEST_INVALID''), (sq_input_schema r, ''INPUT_SCHEMA_DIGEST_INVALID''), (sq_output_schema r, ''OUTPUT_SCHEMA_DIGEST_INVALID''),
       (sq_binding_digest r, ''BINDING_DIGEST_INVALID'')]) (\<lambda>_.
     if sq_side_effect r \<noteq> SE_READ_ONLY then Inl ''SKILL_SIDE_EFFECT_NOT_ALLOWED''
     else if sp_class (sq_policy r) \<noteq> SE_READ_ONLY then Inl ''SKILL_SIDE_EFFECT_POLICY_MISMATCH''
     else if ub_scope (sq_use r) \<noteq> sq_scope r then Inl ''SKILL_RESOURCE_USE_SCOPE_MISMATCH''
     else rbind (stable_id cd ''resource-use'' [namespace (sq_scope r), security_domain (sq_scope r), sq_attempt r, ''SKILL'', ''skill:primary'', ''1'']) (\<lambda>u.
       if ub_id (sq_use r) \<noteq> u \<or> \<not> use_binding_exact r then Inl ''SKILL_RESOURCE_USE_BINDING_MISMATCH'' else Inr r)))"

definition invocation_id :: "codec \<Rightarrow> skill_request \<Rightarrow> (string, string) result" where
  "invocation_id cd r = stable_id cd ''skill-invocation'' [namespace (sq_scope r), security_domain (sq_scope r), sq_attempt r, sq_key r]"

definition limits_json :: "skill_limits \<Rightarrow> json" where
  "limits_json l = JObj [(''policy_id'', JStr (sl_policy l)), (''policy_revision'', JStr (sl_revision l)), (''max_input_bytes'', JInt (sl_input l)),
     (''max_output_bytes'', JInt (sl_output l)), (''max_object_depth'', JInt (sl_depth l)), (''max_properties'', JInt (sl_properties l)), (''timeout_ms'', JInt (sl_timeout l))]"

definition request_json :: "skill_request \<Rightarrow> json" where
  "request_json r = JObj [(''scope'', JObj [(''namespace'', JStr (namespace (sq_scope r))), (''security_domain'', JStr (security_domain (sq_scope r)))]),
     (''idempotency_key'', JStr (sq_key r)), (''attempt_id'', JStr (sq_attempt r)), (''workflow_run_id'', JStr (sq_run r)), (''task_run_id'', JStr (sq_task r)),
     (''plan_id'', JStr (sq_plan r)), (''plan_version'', JInt (sq_plan_version r)), (''plan_digest'', JStr (sq_plan_digest r)), (''approval_id'', JStr (sq_approval r)),
     (''assignment_id'', JStr (sq_assignment r)), (''digital_employee_definition_id'', JStr (sq_definition r)),
     (''digital_employee_definition_revision_id'', JStr (sq_definition_revision r)), (''digital_employee_definition_digest'', JStr (sq_definition_digest r)),
     (''digital_employee_instance_id'', JStr (sq_employee r)), (''agent_instance_id'', opt_text (sq_agent r)), (''runtime_instance_id'', opt_text (sq_runtime r)),
     (''skill_id'', JStr (sq_skill r)), (''skill_revision_id'', JStr (sq_skill_revision r)), (''skill_digest'', JStr (sq_skill_digest r)), (''operation'', JStr (sq_operation r)),
     (''input_schema_digest'', JStr (sq_input_schema r)), (''output_schema_digest'', JStr (sq_output_schema r)), (''binding_id'', JStr (sq_binding r)),
     (''binding_digest'', JStr (sq_binding_digest r)),
     (''executor'', JObj [(''executor_id'', JStr (er_id (sq_executor r))), (''executor_revision'', JStr (er_revision (sq_executor r))),
        (''configuration_digest'', JStr (er_digest (sq_executor r)))]),
     (''side_effect_class'', JStr (side_effect_value (sq_side_effect r))),
     (''policy'', JObj [(''policy_id'', JStr (sp_id (sq_policy r))), (''policy_revision'', JStr (sp_revision (sq_policy r))), (''policy_digest'', JStr (sp_digest (sq_policy r))),
        (''allowed_class'', JStr (side_effect_value (sp_class (sq_policy r))))]),
     (''io_limits'', limits_json (sq_limits r)), (''authorization_decision_id'', JStr (sq_decision r)), (''resource_use'', binding_json (sq_use r))]"

definition skill_payload_digest :: "codec \<Rightarrow> skill_request \<Rightarrow> json \<Rightarrow> string" where
  "skill_payload_digest cd r inputs = value_digest cd (JObj [(''request'', request_json r), (''inputDigest'', JStr (value_digest cd inputs))])"

record skill_fact =
  sf_id :: string
  sf_kind :: invocation_kind
  sf_source :: string
  sf_observation :: string
  sf_digest :: string
  sf_observed :: int
  sf_limits :: "string list"

definition skill_fact_init :: "skill_fact \<Rightarrow> (string, skill_fact) result" where
  "skill_fact_init f = rbind (require_all [(sf_id f, ''SKILL_INVOCATION_FACT_ID_REQUIRED''), (sf_source f, ''SKILL_INVOCATION_FACT_SOURCE_REQUIRED''),
       (sf_observation f, ''SKILL_INVOCATION_OBSERVATION_REQUIRED'')]) (\<lambda>_.
     if \<not> is_digest (sf_digest f) then Inl ''SKILL_INVOCATION_SOURCE_DIGEST_INVALID'' else Inr f)"

record skill_snapshot =
  ks_id :: string
  ks_state :: invocation_state
  ks_high :: int
  ks_payload :: string
  ks_input :: string
  ks_output :: "string option"
  ks_evidence :: "string option"
  ks_use :: string
  ks_kinds :: "invocation_kind list"
  ks_error :: "string option"
  ks_limits :: "string list"
  ks_technical :: bool

definition skill_snapshot_init :: "skill_snapshot \<Rightarrow> (string, skill_snapshot) result" where
  "skill_snapshot_init s = (if ks_high s < 1 then Inl ''SKILL_INVOCATION_SNAPSHOT_INVALID''
     else if \<not> is_digest (ks_payload s) then Inl ''SKILL_INVOCATION_PAYLOAD_DIGEST_INVALID''
     else if \<not> is_digest (ks_input s) then Inl ''SKILL_INVOCATION_INPUT_DIGEST_INVALID''
     else if (case ks_output s of None \<Rightarrow> False | Some d \<Rightarrow> \<not> is_digest d) then Inl ''SKILL_INVOCATION_OUTPUT_DIGEST_INVALID''
     else if \<not> ks_technical s then Inl ''BUSINESS_OUTCOME_SEPARATION_REQUIRED'' else Inr s)"

definition canonical_read_model :: "skill_snapshot \<Rightarrow> json" where
  "canonical_read_model s = JObj [(''schemaVersion'', JStr ''skill-invocation-read.v1''), (''invocationId'', JStr (ks_id s)), (''state'', JStr (invocation_state_value (ks_state s))),
     (''resultKnown'', JBool (ks_state s \<in> {V_SUCCEEDED, V_FAILED, V_CANCELLED})), (''technicalSuccessNotBusinessSuccess'', JBool True), (''resourceUseId'', JStr (ks_use s)),
     (''evidenceId'', opt_text (ks_evidence s)), (''errorCode'', opt_text (ks_error s)), (''limitations'', strings_json (ks_limits s)),
     (''technical'', JObj [(''highWater'', JInt (ks_high s)), (''payloadDigest'', JStr (ks_payload s)), (''inputDigest'', JStr (ks_input s)), (''outputDigest'', opt_text (ks_output s)),
        (''factSequence'', strings_json (map invocation_kind_value (ks_kinds s)))])]"

subsection \<open>Tables and statements\<close>

text \<open>\<open>ds_lineage\<close>, \<open>ds_skills\<close> and \<open>ds_employees\<close> are the rows of other authorities that the repository reads: the assignment and approval of an attempt, the record of a Skill,
  and the record and digest of a revision of a digital employee.\<close>

record invocation_row =
  iv_key :: string
  iv_payload :: string
  iv_input :: string
  iv_attempt :: string
  iv_use :: string
  iv_request :: json
  iv_created :: int

record skill_db =
  ds_use :: use_db
  ds_invocations :: "(string, invocation_row) dict"
  ds_facts :: "(string \<times> int \<times> skill_fact) list"
  ds_evidence :: "(string \<times> string \<times> json) list"
  ds_projections :: "(string, skill_snapshot) dict"
  ds_lineage :: "(string, string \<times> string) dict"
  ds_skills :: "(string, json) dict"
  ds_employees :: "(string \<times> string, json \<times> string) dict"

type_synonym 'a skill_tx = "(string, skill_db \<times> 'a) result"

definition on_use :: "skill_db \<Rightarrow> (string, use_db) result \<Rightarrow> (string, skill_db) result" where
  "on_use db m = rbind m (\<lambda>u. Inr (db\<lparr>ds_use := u\<rparr>))"

definition insert_invocation :: "codec \<Rightarrow> skill_db \<Rightarrow> string \<Rightarrow> skill_request \<Rightarrow> json \<Rightarrow> string \<Rightarrow> int \<Rightarrow> (string, skill_db) result" where
  "insert_invocation cd db i r inputs digest now =
     (if map_of (ds_invocations db) i \<noteq> None \<or> list_ex (\<lambda>(_, v). iv_key v = sq_key r \<or> iv_attempt v = sq_attempt r) (ds_invocations db) then Inl ''UniqueViolation''
      else if length digest \<noteq> 64 \<or> length (value_digest cd inputs) \<noteq> 64 \<or> sq_plan_version r \<le> 0 \<or> sq_side_effect r \<noteq> SE_READ_ONLY then Inl ''CheckViolation''
      else holds (map_of (du_uses (ds_use db)) (ub_id (sq_use r)) \<noteq> None) ''ForeignKeyViolation''
        (db\<lparr>ds_invocations := AList.update i \<lparr>iv_key = sq_key r, iv_payload = digest, iv_input = value_digest cd inputs, iv_attempt = sq_attempt r, iv_use = ub_id (sq_use r),
           iv_request = request_json r, iv_created = now\<rparr> (ds_invocations db)\<rparr>))"

fun insert_invocation_facts :: "skill_db \<Rightarrow> string \<Rightarrow> skill_fact list \<Rightarrow> int \<Rightarrow> (string, skill_db) result" where
  "insert_invocation_facts db i [] n = Inr db"
| "insert_invocation_facts db i (f # fs) n =
     (if list_ex (\<lambda>(j, k, g). (j, k) = (i, n + 1) \<or> sf_id g = sf_id f \<or> (sf_source g, sf_observation g) = (sf_source f, sf_observation f)) (ds_facts db) then Inl ''UniqueViolation''
      else if n + 1 \<le> 0 then Inl ''CheckViolation''
      else if map_of (ds_invocations db) i = None then Inl ''ForeignKeyViolation''
      else insert_invocation_facts (db\<lparr>ds_facts := ds_facts db @ [(i, n + 1, f)]\<rparr>) i fs (n + 1))"

definition insert_skill_evidence :: "skill_db \<Rightarrow> string \<Rightarrow> string \<Rightarrow> json \<Rightarrow> (string, skill_db) result" where
  "insert_skill_evidence db e i record = (if list_ex (\<lambda>(f, j, _). f = e \<or> j = i) (ds_evidence db) then Inl ''UniqueViolation''
     else holds (map_of (ds_invocations db) i \<noteq> None) ''ForeignKeyViolation'' (db\<lparr>ds_evidence := ds_evidence db @ [(e, i, record)]\<rparr>))"

definition upsert_projection :: "skill_db \<Rightarrow> skill_snapshot \<Rightarrow> (string, skill_db) result" where
  "upsert_projection db s = (if ks_high s \<le> 0 then Inl ''CheckViolation''
     else holds (map_of (ds_invocations db) (ks_id s) \<noteq> None) ''ForeignKeyViolation'' (db\<lparr>ds_projections := AList.update (ks_id s) s (ds_projections db)\<rparr>))"

definition projection_of :: "skill_db \<Rightarrow> string \<Rightarrow> (string, skill_snapshot) result" where
  "projection_of db i = (case map_of (ds_projections db) i of None \<Rightarrow> Inl ''SKILL_INVOCATION_NOT_FOUND'' | Some s \<Rightarrow> Inr s)"

definition prior_kinds :: "skill_db \<Rightarrow> string \<Rightarrow> invocation_kind list" where
  "prior_kinds db i = map (\<lambda>p. sf_kind (snd p)) (sort_key fst (map snd (filter (\<lambda>(j, _). j = i) (ds_facts db))))"

subsection \<open>Dispatch\<close>

definition opt_json :: "json option \<Rightarrow> json" where
  "opt_json v = (case v of None \<Rightarrow> JNull | Some j \<Rightarrow> j)"

definition find_revision :: "json \<Rightarrow> skill_request \<Rightarrow> (string, json option) result" where
  "find_revision record r = rbind (py_get record ''revisions'') (\<lambda>v. rbind (py_elements v) (first_with ''revisionId'' (sq_skill_revision r)))"

definition find_operation :: "json \<Rightarrow> skill_request \<Rightarrow> (string, json option) result" where
  "find_operation revision r = rbind (py_get revision ''content'') (\<lambda>c. rbind (py_get (case c of None \<Rightarrow> JObj [] | Some j \<Rightarrow> j) ''operations'') (\<lambda>v.
     rbind (py_elements v) (first_with ''name'' (sq_operation r))))"

definition expected_operation :: "skill_request \<Rightarrow> (string, json) dict" where
  "expected_operation r = [(''sideEffectClass'', JStr (side_effect_value (sq_side_effect r))), (''executorId'', JStr (er_id (sq_executor r))),
     (''executorRevision'', JStr (er_revision (sq_executor r))), (''executorConfigurationDigest'', JStr (er_digest (sq_executor r))),
     (''sideEffectPolicy'', JObj [(''policyId'', JStr (sp_id (sq_policy r))), (''policyRevision'', JStr (sp_revision (sq_policy r))), (''policyDigest'', JStr (sp_digest (sq_policy r)))]),
     (''ioLimits'', JObj [(''policyId'', JStr (sl_policy (sq_limits r))), (''policyRevision'', JStr (sl_revision (sq_limits r))), (''maxInputBytes'', JInt (sl_input (sq_limits r))),
        (''maxOutputBytes'', JInt (sl_output (sq_limits r))), (''maxObjectDepth'', JInt (sl_depth (sq_limits r))), (''maxProperties'', JInt (sl_properties (sq_limits r))),
        (''timeoutMs'', JInt (sl_timeout (sq_limits r)))])]"

fun exact_member :: "skill_request \<Rightarrow> json list \<Rightarrow> (string, bool) result" where
  "exact_member r [] = Inr False"
| "exact_member r (x # xs) = rbind (py_get x ''kind'') (\<lambda>k.
     if k = Some (JStr ''SKILL'') \<and> jget x ''resource_id'' = Some (JStr (sq_skill r)) \<and> jget x ''revision_id'' = Some (JStr (sq_skill_revision r)) \<and>
        jget x ''digest'' = Some (JStr (sq_skill_digest r)) then Inr True else exact_member r xs)"

definition binding_semantic :: "skill_request \<Rightarrow> string \<Rightarrow> json" where
  "binding_semantic r b = JObj [(''bindingId'', JStr b), (''employeeDefinitionId'', JStr (sq_definition r)), (''employeeRevisionId'', JStr (sq_definition_revision r)),
     (''skillId'', JStr (sq_skill r)), (''skillRevisionId'', JStr (sq_skill_revision r)), (''skillDigest'', JStr (sq_skill_digest r)), (''operation'', JStr (sq_operation r))]"

definition eligible_revision :: "numbers \<Rightarrow> skill_request \<Rightarrow> json \<Rightarrow> json option \<Rightarrow> bool" where
  "eligible_revision num r record revision = (case revision of None \<Rightarrow> False | Some v \<Rightarrow> jget record ''publishedRevisionId'' = Some (JStr (sq_skill_revision r)) \<and>
     jget v ''state'' = Some (JStr ''PUBLISHED'') \<and> jget v ''digest'' = Some (JStr (sq_skill_digest r)) \<and> \<not> falsy num (jget record ''enabled''))"

definition validate_operation_record :: "codec \<Rightarrow> numbers \<Rightarrow> skill_request \<Rightarrow> json \<Rightarrow> json \<Rightarrow> (string, unit) result" where
  "validate_operation_record cd num r inputs operation =
     (if value_digest cd (opt_json (jget operation ''inputSchema'')) \<noteq> sq_input_schema r \<or> value_digest cd (opt_json (jget operation ''outputSchema'')) \<noteq> sq_output_schema r
        then Inl ''SKILL_SCHEMA_DIGEST_MISMATCH''
      else if list_ex (\<lambda>(k, v). \<not> py_equal num (opt_json (jget operation k)) v) (expected_operation r) then Inl ''SKILL_EXECUTION_POLICY_MISMATCH''
      else validate_json_schema num ''SKILL_INPUT_SCHEMA_MISMATCH'' inputs (opt_json (jget operation ''inputSchema'')))"

definition validate_employee :: "codec \<Rightarrow> skill_db \<Rightarrow> skill_request \<Rightarrow> (string, unit) result" where
  "validate_employee cd db r = (case map_of (ds_employees db) (sq_definition r, sq_definition_revision r) of None \<Rightarrow> Inl ''SKILL_EMPLOYEE_REVISION_MISMATCH''
     | Some (record, digest) \<Rightarrow> if digest \<noteq> sq_definition_digest r then Inl ''SKILL_EMPLOYEE_REVISION_MISMATCH''
         else rbind (py_get record ''members'') (\<lambda>v. rbind (py_elements v) (\<lambda>members. rbind (exact_member r members) (\<lambda>exact.
           rbind (stable_id cd ''skill-binding'' [sq_definition r, sq_definition_revision r, sq_skill r, sq_skill_revision r]) (\<lambda>b.
             if \<not> exact \<or> sq_binding r \<noteq> b \<or> sq_binding_digest r \<noteq> value_digest cd (binding_semantic r b) then Inl ''SKILL_BINDING_MISMATCH'' else Inr ())))))"

definition validate_authorities :: "codec \<Rightarrow> numbers \<Rightarrow> skill_db \<Rightarrow> skill_request \<Rightarrow> json \<Rightarrow> (string, unit) result" where
  "validate_authorities cd num db r inputs =
     (if map_of (ds_lineage db) (sq_attempt r) \<noteq> Some (sq_assignment r, sq_approval r) then Inl ''SKILL_EXECUTION_LINEAGE_MISMATCH''
      else case map_of (ds_skills db) (sq_skill r) of None \<Rightarrow> Inl ''SKILL_INVOCATION_NOT_ELIGIBLE''
      | Some record \<Rightarrow> rbind (find_revision record r) (\<lambda>revision.
          if \<not> eligible_revision num r record revision then Inl ''SKILL_REVISION_NOT_ELIGIBLE''
          else rbind (find_operation (opt_json revision) r) (\<lambda>operation. case operation of None \<Rightarrow> Inl ''SKILL_OPERATION_NOT_ELIGIBLE''
            | Some x \<Rightarrow> rbind (validate_operation_record cd num r inputs x) (\<lambda>_. validate_employee cd db r))))"

definition fact_of :: "codec \<Rightarrow> string \<Rightarrow> invocation_kind \<Rightarrow> string \<Rightarrow> string \<Rightarrow> string \<Rightarrow> int \<Rightarrow> (string, skill_fact) result" where
  "fact_of cd i kind source observation digest now = rbind (stable_id cd ''skill-invocation-fact'' [i, invocation_kind_value kind]) (\<lambda>f.
     skill_fact_init \<lparr>sf_id = f, sf_kind = kind, sf_source = source, sf_observation = observation, sf_digest = digest, sf_observed = now, sf_limits = []\<rparr>)"

definition resource_fact :: "codec \<Rightarrow> string \<Rightarrow> use_fact_kind \<Rightarrow> string \<Rightarrow> string \<Rightarrow> string \<Rightarrow> int \<Rightarrow> string list \<Rightarrow> string list \<Rightarrow> (string, use_fact) result" where
  "resource_fact cd u kind source observation digest now evidence limits = rbind (stable_id cd ''resource-use-fact'' [u, use_fact_value kind]) (\<lambda>f.
     use_fact_init \<lparr>uf_id = f, uf_use = u, uf_kind = kind, uf_owner = source, uf_observation = observation, uf_digest = digest, uf_observed = now, uf_recorded = now,
       uf_evidence = evidence, uf_limits = limits, uf_supersedes = None\<rparr>)"

definition claim_json :: "string \<Rightarrow> string \<Rightarrow> string \<Rightarrow> string \<Rightarrow> (string, json) dict" where
  "claim_json c digest kind i = [(''claimId'', JStr c), (''claimDigest'', JStr digest), (''kind'', JStr kind), (''invocationId'', JStr i)]"

definition insert_resource_use :: "codec \<Rightarrow> skill_db \<Rightarrow> string \<Rightarrow> skill_request \<Rightarrow> use_fact list \<Rightarrow> string \<Rightarrow> int \<Rightarrow> (string, skill_db) result" where
  "insert_resource_use cd db i r facts digest now =
     rbind (open_use cd (ds_use db) (sq_use r) facts (''skill-dispatch:'' @ sq_key r)
        (value_digest cd (JObj [(''request'', request_json r), (''facts'', JList (map (fact_json cd) facts))])) now) (\<lambda>(u, _).
     rbind (stable_id cd ''skill-dispatch-claim'' [i]) (\<lambda>c.
     on_use db (insert_claim u (ub_id (sq_use r))
        (claim_json c (value_digest cd (JObj [(''invocationId'', JStr i), (''payloadDigest'', JStr digest)])) ''SKILL_DISPATCH'' i))))"

definition make_snapshot ::
  "string \<Rightarrow> skill_request \<Rightarrow> invocation_state \<Rightarrow> int \<Rightarrow> string \<Rightarrow> string \<Rightarrow> string option \<Rightarrow> string option \<Rightarrow> invocation_kind list \<Rightarrow> string option \<Rightarrow> string list
   \<Rightarrow> (string, skill_snapshot) result" where
  "make_snapshot i r state high payload input_digest output_digest evidence kinds error limits = skill_snapshot_init
     \<lparr>ks_id = i, ks_state = state, ks_high = high, ks_payload = payload, ks_input = input_digest, ks_output = output_digest, ks_evidence = evidence, ks_use = ub_id (sq_use r),
       ks_kinds = kinds, ks_error = error, ks_limits = limits, ks_technical = True\<rparr>"

definition record_dispatch :: "codec \<Rightarrow> skill_db \<Rightarrow> skill_request \<Rightarrow> json \<Rightarrow> string \<Rightarrow> int \<Rightarrow> skill_snapshot skill_tx" where
  "record_dispatch cd db r inputs digest now =
     rbind (invocation_id cd r) (\<lambda>i. let u = ub_id (sq_use r); config = er_digest (sq_executor r) in
     rbind (fact_of cd i K_REQUESTED ''application'' (sq_key r) digest now) (\<lambda>f1. rbind (fact_of cd i K_DISPATCH_RECORDED ''executor-adapter'' i config now) (\<lambda>f2.
     rbind (resource_fact cd u F_REQUESTED ''application'' (sq_key r) digest now [] []) (\<lambda>u1.
     rbind (resource_fact cd u F_DISPATCH_RECORDED ''executor-adapter'' i config now [] []) (\<lambda>u2.
     rbind (insert_resource_use cd db i r [u1, u2] digest now) (\<lambda>db1. rbind (insert_invocation cd db1 i r inputs digest now) (\<lambda>db2.
     rbind (insert_invocation_facts db2 i [f1, f2] 0) (\<lambda>db3.
     rbind (make_snapshot i r V_DISPATCH_RECORDED 2 digest (value_digest cd inputs) None None [K_REQUESTED, K_DISPATCH_RECORDED] None []) (\<lambda>s.
     rbind (upsert_projection db3 s) (\<lambda>db4. Inr (db4, s)))))))))))"

definition prepare_dispatch :: "codec \<Rightarrow> numbers \<Rightarrow> skill_db \<Rightarrow> skill_request \<Rightarrow> json \<Rightarrow> string \<Rightarrow> int \<Rightarrow> (skill_snapshot \<times> bool) skill_tx" where
  "prepare_dispatch cd num db r inputs digest now =
     (if digest \<noteq> skill_payload_digest cd r inputs then Inl ''SKILL_INVOCATION_PAYLOAD_DIGEST_MISMATCH''
      else case find (\<lambda>(_, v). iv_key v = sq_key r) (ds_invocations db) of
        Some (i, v) \<Rightarrow> if iv_payload v \<noteq> digest then Inl ''SKILL_IDEMPOTENCY_PAYLOAD_MISMATCH'' else rbind (projection_of db i) (\<lambda>s. Inr (db, s, False))
      | None \<Rightarrow> rbind (validate_use_lineage (ds_use db) (sq_use r)) (\<lambda>_. rbind (validate_authorities cd num db r inputs) (\<lambda>_.
          rbind (record_dispatch cd db r inputs digest now) (\<lambda>(db', s). Inr (db', s, True)))))"

subsection \<open>Outcome\<close>

definition operation_schema :: "codec \<Rightarrow> skill_db \<Rightarrow> skill_request \<Rightarrow> (string, json) result" where
  "operation_schema cd db r = (case map_of (ds_skills db) (sq_skill r) of None \<Rightarrow> Inl ''SKILL_REVISION_NOT_ELIGIBLE''
     | Some record \<Rightarrow> rbind (find_revision record r) (\<lambda>revision.
         rbind (case revision of None \<Rightarrow> Inr None | Some v \<Rightarrow> find_operation v r) (\<lambda>operation. case operation of None \<Rightarrow> Inl ''SKILL_OUTPUT_SCHEMA_DIGEST_MISMATCH''
           | Some x \<Rightarrow> if value_digest cd (opt_json (jget x ''outputSchema'')) \<noteq> sq_output_schema r then Inl ''SKILL_OUTPUT_SCHEMA_DIGEST_MISMATCH''
               else (case jget x ''outputSchema'' of None \<Rightarrow> Inl ''KeyError'' | Some v \<Rightarrow> Inr v))))"

definition unconfirmed :: "invocation_state \<Rightarrow> string list" where
  "unconfirmed state = ''TECHNICAL_SUCCESS_NOT_BUSINESS_SUCCESS'' # (if state = V_OUTCOME_UNKNOWN then [''PROVIDER_OUTCOME_UNCONFIRMED''] else [])"

definition evidence_semantic ::
  "codec \<Rightarrow> string \<Rightarrow> skill_request \<Rightarrow> invocation_state \<Rightarrow> string \<Rightarrow> string option \<Rightarrow> string option \<Rightarrow> int \<Rightarrow> (string, json) dict" where
  "evidence_semantic cd i r state input_digest output_digest error now = [(''schemaVersion'', JStr ''skill-invocation-evidence.v1''), (''invocationId'', JStr i), (''attemptId'', JStr (sq_attempt r)),
     (''skillId'', JStr (sq_skill r)), (''skillRevisionId'', JStr (sq_skill_revision r)), (''skillDigest'', JStr (sq_skill_digest r)), (''operation'', JStr (sq_operation r)),
     (''bindingId'', JStr (sq_binding r)), (''bindingDigest'', JStr (sq_binding_digest r)), (''executorId'', JStr (er_id (sq_executor r))),
     (''executorRevision'', JStr (er_revision (sq_executor r))), (''authorizationDecisionId'', JStr (sq_decision r)), (''sideEffectClass'', JStr (side_effect_value (sq_side_effect r))),
     (''policyId'', JStr (sp_id (sq_policy r))), (''policyRevision'', JStr (sp_revision (sq_policy r))), (''policyDigest'', JStr (sp_digest (sq_policy r))),
     (''inputDigest'', JStr input_digest), (''outputDigest'', opt_text output_digest), (''state'', JStr (invocation_state_value state)), (''errorCode'', opt_text error),
     (''redactionProfile'', JStr ''skill-invocation-redaction.v1''), (''rawInputStored'', JBool False), (''rawOutputStored'', JBool False),
     (''technicalSuccessNotBusinessSuccess'', JBool True), (''limitations'', strings_json (unconfirmed state)), (''observedAt'', JStr (cd_iso cd now))]"

text \<open>The identity, the digest and the record of the evidence.\<close>

definition evidence_of_outcome ::
  "codec \<Rightarrow> string \<Rightarrow> skill_request \<Rightarrow> invocation_state \<Rightarrow> string \<Rightarrow> string option \<Rightarrow> string option \<Rightarrow> int \<Rightarrow> (string, string \<times> string \<times> json) result" where
  "evidence_of_outcome cd i r state input_digest output_digest error now = (let sem = evidence_semantic cd i r state input_digest output_digest error now in
     rbind (stable_id cd ''skill-invocation-evidence'' [i]) (\<lambda>e.
       Inr (e, value_digest cd (JObj sem), JObj ((''evidenceId'', JStr e) # sem @ [(''evidenceDigest'', JStr (value_digest cd (JObj sem)))]))))"

definition terminal_kinds :: "invocation_state \<Rightarrow> (string, invocation_kind list) result" where
  "terminal_kinds state = (case state of V_SUCCEEDED \<Rightarrow> Inr [K_ACCEPTED, K_RUNNING, K_SUCCEEDED] | V_FAILED \<Rightarrow> Inr [K_FAILED] | V_CANCELLED \<Rightarrow> Inr [K_CANCELLED]
     | V_OUTCOME_UNKNOWN \<Rightarrow> Inr [K_OUTCOME_UNKNOWN] | _ \<Rightarrow> Inl ''KeyError'')"

definition terminal_use_kinds :: "invocation_state \<Rightarrow> (string, use_fact_kind list) result" where
  "terminal_use_kinds state = (case state of V_SUCCEEDED \<Rightarrow> Inr [F_ACCEPTED, F_RUNNING, F_SUCCEEDED] | V_FAILED \<Rightarrow> Inr [F_FAILED] | V_CANCELLED \<Rightarrow> Inr [F_CANCELLATION_CONFIRMED]
     | V_OUTCOME_UNKNOWN \<Rightarrow> Inr [F_OUTCOME_UNKNOWN] | _ \<Rightarrow> Inl ''KeyError'')"

fun collect :: "('a \<Rightarrow> ('e, 'b) result) \<Rightarrow> 'a list \<Rightarrow> ('e, 'b list) result" where
  "collect f [] = Inr []"
| "collect f (x # xs) = rbind (f x) (\<lambda>y. rbind (collect f xs) (\<lambda>ys. Inr (y # ys)))"

definition terminal_facts :: "codec \<Rightarrow> string \<Rightarrow> invocation_state \<Rightarrow> string \<Rightarrow> string \<Rightarrow> int \<Rightarrow> (string, skill_fact list) result" where
  "terminal_facts cd i state observation digest now = rbind (terminal_kinds state) (collect (\<lambda>k.
     fact_of cd i k ''skill-provider'' (observation @ '':'' @ invocation_kind_value k) digest now))"

definition terminal_resource_facts :: "codec \<Rightarrow> string \<Rightarrow> invocation_state \<Rightarrow> string \<Rightarrow> string \<Rightarrow> string \<Rightarrow> int \<Rightarrow> (string, use_fact list) result" where
  "terminal_resource_facts cd u state observation evidence digest now = rbind (terminal_use_kinds state) (collect (\<lambda>k.
     resource_fact cd u k ''SKILL_INVOCATION'' (observation @ '':'' @ use_fact_value k) digest now [evidence] (unconfirmed state)))"

definition duration_ms :: "int \<Rightarrow> int \<Rightarrow> rat" where
  "duration_ms started observed = max 0 (of_int (observed - started) / 1000)"

definition terminal_measurement ::
  "codec \<Rightarrow> skill_request \<Rightarrow> string \<Rightarrow> string \<Rightarrow> int \<Rightarrow> int \<Rightarrow> string \<times> quantity \<times> string \<Rightarrow> (string, use_measurement) result" where
  "terminal_measurement cd r evidence digest started observed = (\<lambda>(metric, v, measure). let u = ub_id (sq_use r) in
     rbind (stable_id cd ''resource-measurement'' [u, metric]) (\<lambda>m. use_measurement_init
       \<lparr>um_id = m, um_use = u, um_metric = metric, um_value = Some v, um_unit = measure, um_availability = M_MEASURED, um_source = er_id (sq_executor r), um_digest = digest,
         um_started = started, um_ended = observed, um_observed = observed,
         um_authority = (if metric = ''duration'' then ''PROVIDER_OBSERVATION'' else ''PLATFORM_DISPATCH_AUTHORITY''), um_confidence = ''AUTHORITATIVE'',
         um_limits = [''TECHNICAL_SUCCESS_NOT_BUSINESS_SUCCESS''], um_precision = (if metric = ''duration'' then ''MILLISECOND'' else ''EXACT_INTEGER''), um_aggregate = True,
         um_redaction = ''skill-invocation-redaction.v1'', um_evidence = [evidence], um_superseded = None\<rparr>))"

definition terminal_measurements :: "codec \<Rightarrow> skill_request \<Rightarrow> string \<Rightarrow> string \<Rightarrow> int \<Rightarrow> int \<Rightarrow> (string, use_measurement list) result" where
  "terminal_measurements cd r evidence digest started observed = collect (terminal_measurement cd r evidence digest started observed)
     [(''duration'', Q_FLOAT (duration_ms started observed), ''ms''), (''request_count'', Q_INT 1, ''request''), (''invocation_count'', Q_INT 1, ''invocation'')]"

definition evidence_ref :: "string \<Rightarrow> string \<Rightarrow> string \<Rightarrow> (string, json) dict" where
  "evidence_ref e digest i = [(''evidenceId'', JStr e), (''evidenceDigest'', JStr digest), (''evidenceKind'', JStr ''SKILL_INVOCATION''), (''invocationId'', JStr i)]"

definition commit_resource_terminal ::
  "codec \<Rightarrow> skill_db \<Rightarrow> string \<Rightarrow> skill_request \<Rightarrow> use_fact list \<Rightarrow> string \<Rightarrow> string \<Rightarrow> int \<Rightarrow> int \<Rightarrow> int \<Rightarrow> use_snapshot skill_tx" where
  "commit_resource_terminal cd db i r facts evidence digest started observed now = (let u = ub_id (sq_use r) in
     case map_of (du_high (ds_use db)) u of None \<Rightarrow> Inl ''SKILL_RESOURCE_USE_NOT_FOUND''
     | Some (high, version) \<Rightarrow>
         rbind (insert_use_facts (ds_use db) facts high) (\<lambda>_. rbind (terminal_measurements cd r evidence digest started observed) (\<lambda>ms.
         rbind (stable_id cd ''skill-terminal-claim'' [i]) (\<lambda>c.
         let ref = evidence_ref evidence digest i;
             claim = claim_json c (value_digest cd (JObj [(''invocationId'', JStr i), (''evidenceDigest'', JStr digest)])) ''SKILL_TERMINAL_OBSERVATION'' i;
             terminal_digest = value_digest cd (JObj [(''facts'', JList (map (fact_json cd) facts)), (''measurements'', JList (map (measurement_json cd) ms)),
               (''evidence'', JObj ref), (''claim'', JObj claim)]) in
         rbind (extend_use cd (ds_use db) u (high, version) facts ms [ref] claim (''skill-terminal:'' @ i) terminal_digest now) (\<lambda>(use, s).
           Inr (db\<lparr>ds_use := use\<rparr>, s))))))"

text \<open>What a reported outcome becomes: an output that does not match the schema of the operation is a failure.\<close>

definition settle ::
  "codec \<Rightarrow> numbers \<Rightarrow> skill_db \<Rightarrow> skill_request \<Rightarrow> invocation_state \<Rightarrow> json option \<Rightarrow> string option \<Rightarrow> (string, invocation_state \<times> string option \<times> string option) result" where
  "settle cd num db r state output error = (let digest = map_option (value_digest cd) output in
     if state \<noteq> V_SUCCEEDED then Inr (state, digest, error)
     else rbind (operation_schema cd db r) (\<lambda>schema.
       case validate_json_schema num ''SKILL_OUTPUT_SCHEMA_MISMATCH'' (opt_json output) schema of
         Inr _ \<Rightarrow> Inr (state, digest, error)
       | Inl e \<Rightarrow> if e = ''SKILL_OUTPUT_SCHEMA_MISMATCH'' then Inr (V_FAILED, None, Some e) else Inl e))"

definition record_outcome ::
  "codec \<Rightarrow> (string, unit) result \<Rightarrow> skill_db \<Rightarrow> string \<Rightarrow> skill_request \<Rightarrow> invocation_row \<Rightarrow> int \<Rightarrow> invocation_state \<Rightarrow> string option \<Rightarrow> string option \<Rightarrow> string \<Rightarrow> int \<Rightarrow> int \<Rightarrow> int
   \<Rightarrow> skill_snapshot skill_tx" where
  "record_outcome cd hook db i r row high state output_digest error observation started observed now =
     rbind (evidence_of_outcome cd i r state (iv_input row) output_digest error observed) (\<lambda>(e, digest, record).
     rbind (terminal_facts cd i state observation digest observed) (\<lambda>facts. rbind (insert_invocation_facts db i facts high) (\<lambda>db1.
     rbind (insert_skill_evidence db1 e i record) (\<lambda>db2. rbind (terminal_resource_facts cd (ub_id (sq_use r)) state observation e digest observed) (\<lambda>ufacts.
     rbind (commit_resource_terminal cd db2 i r ufacts e digest started observed now) (\<lambda>(db3, us).
     rbind (make_snapshot i r state (high + int (length facts)) (iv_payload row) (iv_input row) output_digest (Some e) (prior_kinds db3 i) error (unconfirmed state)) (\<lambda>s.
     rbind (upsert_projection db3 s) (\<lambda>db4.
       if sn_evidence us \<noteq> [e] then Inl ''SKILL_RESOURCE_USE_EVIDENCE_MISMATCH'' else rbind hook (\<lambda>_. Inr (db4, s))))))))))"

definition commit_terminal ::
  "codec \<Rightarrow> numbers \<Rightarrow> (string, unit) result \<Rightarrow> skill_db \<Rightarrow> skill_request \<Rightarrow> invocation_state \<Rightarrow> json option \<Rightarrow> string \<Rightarrow> string option \<Rightarrow> int \<Rightarrow> int \<Rightarrow> int
   \<Rightarrow> skill_snapshot skill_tx" where
  "commit_terminal cd num hook db r state output observation error started observed now =
     (if state \<notin> set TERMINAL_INVOCATIONS then Inl ''SKILL_TERMINAL_STATE_REQUIRED''
      else rbind (invocation_id cd r) (\<lambda>i. case (map_of (ds_invocations db) i, map_of (ds_projections db) i) of
        (Some row, Some p) \<Rightarrow>
          if \<not> py_equal num (iv_request row) (request_json r) then Inl ''SKILL_TERMINAL_SNAPSHOT_MISMATCH''
          else if ks_state p \<in> set TERMINAL_INVOCATIONS then Inr (db, p)
          else rbind (settle cd num db r state output error) (\<lambda>(state', digest, error').
            record_outcome cd hook db i r row (ks_high p) state' digest error' observation started observed now)
      | _ \<Rightarrow> Inl ''SKILL_INVOCATION_NOT_FOUND''))"

subsection \<open>Executors\<close>

datatype skill_outcome = EX_RESULT json string | EX_FAILURE string bool | EX_RAISED string

type_synonym skill_executor = "string \<Rightarrow> string \<Rightarrow> json \<Rightarrow> int \<Rightarrow> skill_outcome"

type_synonym executor_registry = "(string \<times> string, executor_revision \<times> skill_executor) dict"

definition registry_init :: "(executor_revision \<times> skill_executor) list \<Rightarrow> (string, executor_registry) result" where
  "registry_init xs = (let d = fold (\<lambda>(e, x). AList.update (er_id e, er_revision e) (e, x)) xs [] in
     if length d \<noteq> length xs then Inl ''EXECUTOR_REGISTRY_CONFLICT'' else Inr d)"

definition resolve_executor :: "executor_registry \<Rightarrow> executor_revision \<Rightarrow> (string, skill_executor) result" where
  "resolve_executor reg e = (case map_of reg (er_id e, er_revision e) of None \<Rightarrow> Inl ''EXECUTOR_REVISION_UNAVAILABLE''
     | Some (f, x) \<Rightarrow> if er_digest f \<noteq> er_digest e then Inl ''EXECUTOR_REVISION_UNAVAILABLE'' else Inr x)"

text \<open>The HTTP executor. Its answer is a failure of the transport, or a status with the JSON body when the text is JSON.\<close>

definition rstrip_slash :: "string \<Rightarrow> string" where
  "rstrip_slash s = rev (dropWhile (\<lambda>c. c = CHR ''/'') (rev s))"

definition http_executor_init :: "codec \<Rightarrow> string \<Rightarrow> string \<Rightarrow> string \<Rightarrow> (string, string \<times> executor_revision) result" where
  "http_executor_init cd executor revision endpoint =
     (if take 17 endpoint \<noteq> ''http://127.0.0.1:'' \<and> take 17 endpoint \<noteq> ''http://localhost:'' then Inl ''EXECUTOR_ENDPOINT_NOT_ALLOWLISTED''
      else let e = rstrip_slash endpoint in
        rbind (executor_revision_init \<lparr>er_id = executor, er_revision = revision,
          er_digest = value_digest cd (JObj [(''adapter'', JStr ''http-read-only-skill-executor.v1''), (''endpoint'', JStr e)])\<rparr>) (\<lambda>v. Inr (e, v)))"

definition http_skill_request :: "string \<Rightarrow> string \<Rightarrow> json \<Rightarrow> json" where
  "http_skill_request i operation inputs =
     JObj [(''schemaVersion'', JStr ''read-only-skill-request.v1''), (''invocationId'', JStr i), (''operation'', JStr operation), (''input'', inputs)]"

definition http_skill_invoke :: "(string \<Rightarrow> json \<Rightarrow> int \<Rightarrow> (int \<times> json option) option) \<Rightarrow> string \<Rightarrow> skill_executor" where
  "http_skill_invoke post endpoint i operation inputs timeout =
     (case post (endpoint @ ''/v1/read-only/invoke'') (http_skill_request i operation inputs) timeout of
       None \<Rightarrow> EX_FAILURE ''SKILL_EXECUTOR_OUTCOME_UNKNOWN'' True
     | Some (status, body) \<Rightarrow> if status \<noteq> 200 then EX_FAILURE ''SKILL_EXECUTOR_REJECTED'' False
         else (case body of Some (JObj b) \<Rightarrow>
             if map_of b ''schemaVersion'' \<noteq> Some (JStr ''read-only-skill-response.v1'') \<or> map_of b ''invocationId'' \<noteq> Some (JStr i) \<or> map_of b ''accepted'' \<noteq> Some (JBool True)
             then EX_FAILURE ''SKILL_EXECUTOR_RESPONSE_INVALID'' False
             else (case (map_of b ''output'', map_of b ''observationId'') of
                 (Some (JObj out), Some (JStr obs)) \<Rightarrow> if obs = [] then EX_FAILURE ''SKILL_EXECUTOR_RESPONSE_INVALID'' False else EX_RESULT (JObj out) obs
               | _ \<Rightarrow> EX_FAILURE ''SKILL_EXECUTOR_RESPONSE_INVALID'' False)
           | _ \<Rightarrow> EX_FAILURE ''SKILL_EXECUTOR_RESPONSE_INVALID'' False))"

subsection \<open>The service\<close>

record skill_env =
  sv_codec :: codec
  sv_numbers :: numbers
  sv_authorization :: "use_authorize option"
  sv_policy :: "skill_request \<Rightarrow> (string, side_effect_policy) result"
  sv_executors :: executor_registry
  sv_hook :: "(string, unit) result"

definition skill_scoped_require :: "use_authorization \<Rightarrow> scope_identity \<Rightarrow> string \<Rightarrow> string \<Rightarrow> (string, string) result" where
  "skill_scoped_require a sc action i =
     (if sc \<noteq> ua_scope a \<or> action \<notin> set (ua_permissions a) \<or> ua_actor a = [] \<or> ua_decision a = [] \<or> i = [] then Inl ''SKILL_INVOCATION_NOT_FOUND'' else Inr (ua_decision a))"

definition fixed_policy :: "side_effect_policy \<Rightarrow> skill_request \<Rightarrow> (string, side_effect_policy) result" where
  "fixed_policy p r = (if sq_side_effect r \<noteq> sp_class p then Inl ''SKILL_SIDE_EFFECT_NOT_ALLOWED'' else Inr p)"

definition authorize_skill :: "skill_env \<Rightarrow> scope_identity \<Rightarrow> string \<Rightarrow> string \<Rightarrow> (string, string) result" where
  "authorize_skill env sc action i = (case sv_authorization env of None \<Rightarrow> Inl ''SKILL_INVOCATION_NOT_FOUND'' | Some f \<Rightarrow> f sc action i)"

definition govern :: "skill_env \<Rightarrow> skill_request \<Rightarrow> (string, unit) result" where
  "govern env r = rbind (authorize_skill env (sq_scope r) ''INVOKE_SKILL'' (sq_attempt r)) (\<lambda>d.
     if d \<noteq> sq_decision r then Inl ''SKILL_AUTHORIZATION_DECISION_MISMATCH''
     else rbind (sv_policy env r) (\<lambda>p. if p \<noteq> sq_policy r then Inl ''SKILL_SIDE_EFFECT_POLICY_MISMATCH'' else Inr ()))"

text \<open>\<open>invoke\<close> up to the dispatch, the outcome it reports, and the whole of it. An error after the dispatch leaves the durable state.\<close>

definition invoke_begin :: "skill_env \<Rightarrow> skill_db \<Rightarrow> skill_request \<Rightarrow> json \<Rightarrow> int \<Rightarrow> (skill_snapshot \<times> bool \<times> skill_executor) skill_tx" where
  "invoke_begin env db r inputs now = rbind (govern env r) (\<lambda>_.
     if sl_input (sq_limits r) < int (utf8_length (canonical_json inputs)) then Inl ''SKILL_INPUT_TOO_LARGE''
     else rbind (validate_shape inputs (sl_depth (sq_limits r)) (sl_properties (sq_limits r))) (\<lambda>_.
     rbind (resolve_executor (sv_executors env) (sq_executor r)) (\<lambda>x.
     rbind (prepare_dispatch (sv_codec env) (sv_numbers env) db r inputs (skill_payload_digest (sv_codec env) r inputs) now) (\<lambda>(db', s, created). Inr (db', s, created, x)))))"

definition reported_outcome :: "skill_request \<Rightarrow> string \<Rightarrow> skill_outcome \<Rightarrow> (string, invocation_state \<times> json option \<times> string \<times> string option) result" where
  "reported_outcome r i out = (let failed = (\<lambda>code unknown. Inr (if unknown then V_OUTCOME_UNKNOWN else V_FAILED, None, ''executor-error:'' @ i, Some code)) in
     case out of EX_RAISED e \<Rightarrow> Inl e
     | EX_FAILURE code unknown \<Rightarrow> failed code unknown
     | EX_RESULT v obs \<Rightarrow>
         if sl_output (sq_limits r) < int (utf8_length (canonical_json v)) then failed ''SKILL_OUTPUT_TOO_LARGE'' False
         else (case validate_shape v (sl_depth (sq_limits r)) (sl_properties (sq_limits r)) of
           Inl code \<Rightarrow> failed code False
         | Inr _ \<Rightarrow> Inr (V_SUCCEEDED, Some v, obs, None)))"

definition invoke_finish :: "skill_env \<Rightarrow> skill_db \<Rightarrow> skill_request \<Rightarrow> skill_outcome \<Rightarrow> int \<Rightarrow> int \<Rightarrow> int \<Rightarrow> skill_snapshot skill_tx" where
  "invoke_finish env db r out started observed now = rbind (invocation_id (sv_codec env) r) (\<lambda>i. rbind (reported_outcome r i out) (\<lambda>(state, output, observation, error).
     commit_terminal (sv_codec env) (sv_numbers env) (sv_hook env) db r state output observation error started observed now))"

definition invoke_skill :: "skill_env \<Rightarrow> skill_db \<Rightarrow> skill_request \<Rightarrow> json \<Rightarrow> int \<Rightarrow> int \<Rightarrow> int \<Rightarrow> skill_db \<times> (string, skill_snapshot) result" where
  "invoke_skill env db r inputs started observed now = (case invoke_begin env db r inputs started of
     Inl e \<Rightarrow> (db, Inl e)
   | Inr (db', s, created, x) \<Rightarrow> if \<not> created then (db', Inr s)
       else (case invocation_id (sv_codec env) r of Inl e \<Rightarrow> (db', Inl e)
         | Inr i \<Rightarrow> (case invoke_finish env db' r (x i (sq_operation r) inputs (sl_timeout (sq_limits r))) started observed now of
             Inl e \<Rightarrow> (db', Inl e) | Inr (db'', t) \<Rightarrow> (db'', Inr t))))"

definition recover :: "skill_env \<Rightarrow> skill_db \<Rightarrow> skill_request \<Rightarrow> json \<Rightarrow> int \<Rightarrow> int \<Rightarrow> int \<Rightarrow> skill_db \<times> (string, skill_snapshot) result" where
  "recover env db r inputs started observed now = (case rbind (govern env r) (\<lambda>_.
       prepare_dispatch (sv_codec env) (sv_numbers env) db r inputs (skill_payload_digest (sv_codec env) r inputs) started) of
     Inl e \<Rightarrow> (db, Inl e)
   | Inr (db', s, created) \<Rightarrow> if created then (db', Inl ''SKILL_RECOVERY_REQUIRES_DURABLE_DISPATCH'')
       else if ks_state s \<in> set TERMINAL_INVOCATIONS then (db', Inr s)
       else (case rbind (invocation_id (sv_codec env) r) (\<lambda>i. commit_terminal (sv_codec env) (sv_numbers env) (sv_hook env) db' r V_OUTCOME_UNKNOWN None
             (''recovery:'' @ i) (Some ''SKILL_RESULT_PENDING_CONFIRMATION'') started observed now) of
           Inl e \<Rightarrow> (db', Inl e) | Inr (db'', t) \<Rightarrow> (db'', Inr t)))"

definition read_invocation :: "skill_env \<Rightarrow> skill_db \<Rightarrow> scope_identity \<Rightarrow> string \<Rightarrow> (string, json) result" where
  "read_invocation env db sc i = rbind (authorize_skill env sc ''READ_SKILL_INVOCATION'' i) (\<lambda>_.
     rbind (projection_of db i) (\<lambda>s. Inr (canonical_read_model s)))"

subsection \<open>Shape, declaratively\<close>

fun json_depth :: "json \<Rightarrow> nat" where
  "json_depth (JObj d) = Suc (Max (insert 0 ((\<lambda>(_, v). json_depth v) ` set d)))"
| "json_depth (JList xs) = Suc (Max (insert 0 (json_depth ` set xs)))"
| "json_depth _ = 1"

fun json_properties :: "json \<Rightarrow> nat" where
  "json_properties (JObj d) = length d + sum_list (map (\<lambda>(_, v). json_properties v) d)"
| "json_properties (JList xs) = sum_list (map json_properties xs)"
| "json_properties _ = 0"

lemma fold_check_iff:
  assumes "\<And>x n m. x \<in> set xs \<Longrightarrow> int n \<le> P \<Longrightarrow> f x n = Inr m \<longleftrightarrow> A x \<and> m = n + c x \<and> int m \<le> P" and "int n \<le> P"
  shows "fold_check f xs n = Inr m \<longleftrightarrow> (\<forall>x \<in> set xs. A x) \<and> m = n + sum_list (map c xs) \<and> int m \<le> P"
  using assms
proof (induction xs arbitrary: n)
  case (Cons x xs)
  note f = Cons.prems(1) [of x n, OF _ Cons.prems(2)]
  show ?case
  proof (cases "A x \<and> int (n + c x) \<le> P")
    case True
    then have "f x n = Inr (n + c x)" using f by simp
    moreover have "fold_check f xs (n + c x) = Inr m \<longleftrightarrow> (\<forall>x \<in> set xs. A x) \<and> m = n + c x + sum_list (map c xs) \<and> int m \<le> P"
      by (rule Cons.IH) (use Cons.prems(1) True in auto)
    ultimately show ?thesis using True by auto
  next
    case False
    then have "f x n \<noteq> Inr k" for k using f [of k] by auto
    then have "fold_check f (x # xs) n \<noteq> Inr m" by (auto simp: rbind_Inr_iff)
    then show ?thesis using False by auto
  qed
qed auto

lemma Max_insert_0: "finite S \<Longrightarrow> int (Max (insert 0 S)) \<le> k \<longleftrightarrow> 0 \<le> k \<and> (\<forall>x \<in> S. int x \<le> k)"
proof -
  assume "finite S"
  then have "Max (insert 0 S) \<le> nat k \<longleftrightarrow> (\<forall>x \<in> S. x \<le> nat k)" by simp
  then show ?thesis by (cases "0 \<le> k") (auto simp: le_nat_iff)
qed

lemma walk_iff: "int n \<le> P \<Longrightarrow> walk D P k v n = Inr m \<longleftrightarrow> k - 1 + int (json_depth v) \<le> D \<and> m = n + json_properties v \<and> int m \<le> P"
proof (induction v arbitrary: k n m)
  case (JList xs)
  have "fold_check (walk D P (k + 1)) xs n = Inr m \<longleftrightarrow> (\<forall>x \<in> set xs. k + int (json_depth x) \<le> D) \<and> m = n + sum_list (map json_properties xs) \<and> int m \<le> P"
    by (rule fold_check_iff) (use JList in auto)
  moreover have "k - 1 + int (json_depth (JList xs)) \<le> D \<longleftrightarrow> k \<le> D \<and> (\<forall>x \<in> set xs. k + int (json_depth x) \<le> D)"
    using Max_insert_0 [of "json_depth ` set xs" "D - k"] by (auto simp: algebra_simps)
  ultimately show ?case by (auto simp: walk.simps)
next
  case (JObj d)
  show ?case
  proof (cases "int (n + length d) \<le> P")
    case True
    have "fold_check (\<lambda>(_, v). walk D P (k + 1) v) d (n + length d) = Inr m \<longleftrightarrow>
        (\<forall>p \<in> set d. k + int (json_depth (snd p)) \<le> D) \<and> m = n + length d + sum_list (map (\<lambda>p. json_properties (snd p)) d) \<and> int m \<le> P"
      by (rule fold_check_iff) (use JObj.IH True in \<open>force split: prod.splits\<close>)+
    moreover have "k - 1 + int (json_depth (JObj d)) \<le> D \<longleftrightarrow> k \<le> D \<and> (\<forall>p \<in> set d. k + int (json_depth (snd p)) \<le> D)"
      using Max_insert_0 [of "(\<lambda>(_, v). json_depth v) ` set d" "D - k"] by (auto simp: algebra_simps)
    ultimately show ?thesis using True by (auto simp: walk.simps case_prod_unfold)
  next
    case False
    then show ?thesis by (auto simp: walk.simps)
  qed
qed (auto simp: walk.simps)

text \<open>
  C35: The shape of an input or output is accepted exactly when its nesting and the number of the properties of all its objects are within the limits of the request.
\<close>
theorem validate_shape_exact:
  assumes "skill_limits_init l = Inr l'"
  shows "validate_shape v (sl_depth l) (sl_properties l) = Inr () \<longleftrightarrow> int (json_depth v) \<le> sl_depth l \<and> int (json_properties v) \<le> sl_properties l"
proof -
  have "0 \<le> sl_properties l" using assms by (auto simp: skill_limits_init_def split: if_splits)
  then have "walk (sl_depth l) (sl_properties l) 1 v 0 = Inr m \<longleftrightarrow> int (json_depth v) \<le> sl_depth l \<and> m = json_properties v \<and> int m \<le> sl_properties l" for m
    using walk_iff [of 0 "sl_properties l" "sl_depth l" 1 v m] by simp
  then show ?thesis by (auto simp: validate_shape_def rbind_Inr_iff)
qed

theorem validate_shape_exact_witness:
  "validate_shape (JObj [(''a'', JList [JObj [(''b'', JNull)]])]) 4 2 = Inr () \<and> validate_shape (JObj [(''a'', JList [JObj [(''b'', JNull)]])]) 3 2 \<noteq> Inr ()"
proof -
  have "skill_limits_init \<lparr>sl_policy = ''p'', sl_revision = ''1'', sl_input = 9, sl_output = 9, sl_depth = n, sl_properties = 2, sl_timeout = 1\<rparr> = Inr
      \<lparr>sl_policy = ''p'', sl_revision = ''1'', sl_input = 9, sl_output = 9, sl_depth = n, sl_properties = 2, sl_timeout = 1\<rparr>" if "1 \<le> n" for n
    using that by (simp add: skill_limits_init_def utf8_length_def)
  from validate_shape_exact [OF this [of 4], of "JObj [(''a'', JList [JObj [(''b'', JNull)]])]"] validate_shape_exact [OF this [of 3], of "JObj [(''a'', JList [JObj [(''b'', JNull)]])]"]
  show ?thesis by simp
qed

end
