(* ===== verification/Resource_Use_History.thy ===== *)
theory Resource_Use_History
  imports Resource_Use
begin

text \<open>
  Histories of Resource Use over all transactions: \<open>use_step\<close> is the union of the statements that open, extend or claim a use, with changes of the
  other authorities between them. Facts are numbered without a gap, belong to the use they are written for, and every stored snapshot tells the history up to its high water.
\<close>

subsection \<open>Rows of a use\<close>

fun fact_rows :: "int \<Rightarrow> use_fact list \<Rightarrow> (string \<times> int \<times> use_fact) list" where
  "fact_rows n [] = []"
| "fact_rows n (f # fs) = (uf_use f, n + 1, f) # fact_rows (n + 1) fs"

definition rows_of :: "use_db \<Rightarrow> string \<Rightarrow> (int \<times> use_fact) list" where
  "rows_of db u = map snd (filter (\<lambda>(v, _). v = u) (du_facts db))"

lemma insert_use_facts_rows: "insert_use_facts db fs n = Inr db' \<Longrightarrow> db' = db\<lparr>du_facts := du_facts db @ fact_rows n fs\<rparr>"
proof (induction db fs n rule: insert_use_facts.induct)
  case (2 db f fs n)
  then have "db' = (db\<lparr>du_facts := du_facts db @ [(uf_use f, n + 1, f)]\<rparr>)\<lparr>du_facts := (du_facts db @ [(uf_use f, n + 1, f)]) @ fact_rows (n + 1) fs\<rparr>"
    by (auto split: if_splits)
  then show ?case by simp
qed simp

definition sources :: "use_db \<Rightarrow> (string \<times> string) list" where
  "sources db = map (\<lambda>r. fact_source (snd (snd r))) (du_facts db)"

lemma insert_use_facts_sources:
  "insert_use_facts db fs n = Inr db' \<Longrightarrow> distinct (sources db) \<Longrightarrow> distinct (sources db')"
proof (induction db fs n rule: insert_use_facts.induct)
  case (2 db f fs n)
  then have "fact_source f \<notin> set (sources db)" by (auto simp: list_ex_iff sources_def split: if_splits)
  then show ?case using 2 by (auto simp: sources_def split: if_splits)
qed simp

lemma fact_rows_own: "\<forall>f \<in> set fs. uf_use f = u \<Longrightarrow> map snd (filter (\<lambda>(v, _). v = u) (fact_rows n fs)) = map snd (fact_rows n fs)"
  by (induction fs arbitrary: n) auto

lemma fact_rows_other: "\<forall>f \<in> set fs. uf_use f = u \<Longrightarrow> v \<noteq> u \<Longrightarrow> filter (\<lambda>(w, _). w = v) (fact_rows n fs) = []"
  by (induction fs arbitrary: n) auto

lemma fact_rows_length: "length (filter (\<lambda>(v, _). v = u) (fact_rows n fs)) = length (filter (\<lambda>f. uf_use f = u) fs)"
  by (induction fs arbitrary: n) auto

lemma fact_rows_facts: "map (\<lambda>(_, _, f). f) (fact_rows n fs) = fs"
  by (induction fs arbitrary: n) auto

lemma fact_rows_snd: "map snd (map snd (fact_rows n fs)) = fs"
  by (induction fs arbitrary: n) auto

lemma fact_rows_ordinals: "map fst (map snd (fact_rows n fs)) = [n + 1..n + int (length fs)]"
proof (induction fs arbitrary: n)
  case (Cons f fs)
  have "[n + 1..n + int (length (f # fs))] = (n + 1) # [n + 1 + 1..n + int (length (f # fs))]" by (simp add: upto_rec1)
  then show ?case using Cons.IH [of "n + 1"] by (simp add: algebra_simps)
qed simp

lemma sorted_upto_int: "sorted [i..j::int]"
  by simp

lemma use_facts_rows: "map fst (rows_of db u) = [1..h] \<Longrightarrow> use_facts db u = map snd (rows_of db u)"
proof -
  assume "map fst (rows_of db u) = [1..h]"
  then have "sorted (map fst (rows_of db u))" by simp
  then show ?thesis by (simp add: use_facts_def rows_of_def sort_key_id_if_sorted)
qed

lemma upto_join: "0 \<le> h \<Longrightarrow> [1..h] @ [h + 1..h + int n] = [1..h + int n]"
  using upto_split1 [of 1 "h + 1" "h + int n"] by (cases "n = 0") simp_all

subsection \<open>Steps\<close>

inductive use_step :: "codec \<Rightarrow> use_db \<Rightarrow> use_db \<Rightarrow> bool" for cd where
  opened: "open_use cd db b facts key digest now = Inr (db', s) \<Longrightarrow> use_step cd db db'"
| extended: "map_of (du_high db) u = Some hv \<Longrightarrow> extend_use cd db u hv facts ms evidence claim key digest now = Inr (db', s) \<Longrightarrow> use_step cd db db'"
| claimed: "insert_claim db u claim = Inr db' \<Longrightarrow> use_step cd db db'"
| elsewhere: "use_step cd db (db\<lparr>du_lineage := l, du_placements := p\<rparr>)"

inductive use_reachable :: "codec \<Rightarrow> use_db \<Rightarrow> bool" for cd where
  fresh: "du_facts db = [] \<Longrightarrow> du_high db = [] \<Longrightarrow> du_snapshots db = [] \<Longrightarrow> use_reachable cd db"
| used: "use_reachable cd db \<Longrightarrow> use_step cd db db' \<Longrightarrow> use_reachable cd db'"

definition told :: "use_db \<Rightarrow> use_snapshot \<Rightarrow> bool" where
  "told db s = (1 \<le> sn_high s \<and> sn_high s \<le> int (length (use_facts db (sn_use s))) \<and> sn_state s = history_state (take (nat (sn_high s)) (use_facts db (sn_use s))) \<and>
     sn_facts s = map uf_id (take (nat (sn_high s)) (use_facts db (sn_use s))))"

definition history_ok :: "use_db \<Rightarrow> bool" where
  "history_ok db = ((\<forall>u. map fst (rows_of db u) = (case map_of (du_high db) u of None \<Rightarrow> [] | Some (h, _) \<Rightarrow> [1..h])) \<and>
     (\<forall>u h v. map_of (du_high db) u = Some (h, v) \<longrightarrow> 1 \<le> h \<and> (\<exists>s \<in> set (du_snapshots db). sn_use s = u \<and> sn_high s = h)) \<and> distinct (sources db) \<and> list_all (told db) (du_snapshots db))"

lemma history_okD:
  assumes "history_ok db"
  shows "map_of (du_high db) u = Some (h, v) \<Longrightarrow> map fst (rows_of db u) = [1..h] \<and> 1 \<le> h \<and> use_facts db u = map snd (rows_of db u)"
    and "map_of (du_high db) u = None \<Longrightarrow> rows_of db u = [] \<and> use_facts db u = []"
proof -
  show "map_of (du_high db) u = Some (h, v) \<Longrightarrow> map fst (rows_of db u) = [1..h] \<and> 1 \<le> h \<and> use_facts db u = map snd (rows_of db u)"
    using assms use_facts_rows [of db u h] by (auto simp: history_ok_def)
  assume "map_of (du_high db) u = None"
  then have "map fst (rows_of db u) = []" using assms by (auto simp: history_ok_def)
  then show "rows_of db u = [] \<and> use_facts db u = []" by (simp add: use_facts_def rows_of_def)
qed

lemma history_length: "history_ok db \<Longrightarrow> map_of (du_high db) u = Some (h, v) \<Longrightarrow> int (length (use_facts db u)) = h"
proof -
  assume a: "history_ok db" "map_of (du_high db) u = Some (h, v)"
  then have "length (rows_of db u) = length [1..h]" using history_okD(1) [OF a] by (metis length_map)
  then show ?thesis using history_okD(1) [OF a] by simp
qed

text \<open>A history of a use grows by its own facts, and a snapshot tells the whole of it.\<close>

lemma grown_history:
  assumes ok: "history_ok db" and own: "\<forall>f \<in> set facts. uf_use f = u" and h: "map fst (rows_of db u) = [1..h]" "0 \<le> h" "1 \<le> h + int (length facts)"
    and db': "du_facts db' = du_facts db @ fact_rows h facts" "map_of (du_high db') = (map_of (du_high db))(u \<mapsto> (h + int (length facts), v))"
      "du_snapshots db' = du_snapshots db @ [s]" "distinct (sources db')"
    and s: "reduce_resource_use cd u (use_facts db' u) ms (h + int (length facts)) now = Inr s"
  shows "history_ok db'" "use_facts db' u = use_facts db u @ facts" "w \<noteq> u \<Longrightarrow> use_facts db' w = use_facts db w"
proof -
  have rows: "rows_of db' u = rows_of db u @ map snd (fact_rows h facts)" "w \<noteq> u \<Longrightarrow> rows_of db' w = rows_of db w" for w
    using own by (simp_all add: rows_of_def db'(1) fact_rows_own fact_rows_other [OF own])
  have ord: "map fst (rows_of db' u) = [1..h + int (length facts)]"
    using h(1,2) by (simp add: rows(1) fact_rows_ordinals [unfolded map_map] upto_join)
  show facts: "use_facts db' u = use_facts db u @ facts"
    unfolding use_facts_rows [OF ord] use_facts_rows [OF h(1)] rows(1) map_append fact_rows_snd by simp
  have other: "use_facts db' w = use_facts db w" if "w \<noteq> u" for w using rows(2) [OF that] by (simp add: use_facts_def rows_of_def)
  then show "w \<noteq> u \<Longrightarrow> use_facts db' w = use_facts db w" by simp
  have old: "told db' t" if "told db t" for t
    using that facts other by (cases "sn_use t = u") (auto simp: told_def)
  have new: "told db' s" "sn_use s = u \<and> sn_high s = h + int (length facts)" using s by (rule reduceE, simp add: told_def)+
  have "map fst (rows_of db' w) = (case map_of (du_high db') w of None \<Rightarrow> [] | Some (h, _) \<Rightarrow> [1..h])" for w
    using ok ord rows(2) [of w] by (cases "w = u") (simp_all add: history_ok_def db'(2))
  moreover have "1 \<le> k \<and> (\<exists>t \<in> set (du_snapshots db'). sn_use t = w \<and> sn_high t = k)" if "map_of (du_high db') w = Some (k, x)" for w k x
    using that ok new(2) h(3) by (cases "w = u") (auto simp: history_ok_def db'(2,3))
  moreover have "list_all (told db') (du_snapshots db')" using ok old new(1) by (simp add: history_ok_def db'(3) list_all_iff)
  ultimately show "history_ok db'" using db'(4) unfolding history_ok_def by simp
qed

lemma open_useE:
  assumes "open_use cd db b facts key digest now = Inr (db', s)"
  obtains db2 where "insert_use_facts (db\<lparr>du_uses := AList.update (ub_id b) b (du_uses db)\<rparr>) facts 0 = Inr db2"
    "reduce_resource_use cd (ub_id b) facts [] (int (length facts)) now = Inr s" "map_of (du_high db) (ub_id b) = None" "0 < int (length facts)"
    "db' = db2\<lparr>du_snapshots := du_snapshots db @ [s], du_high := AList.update (ub_id b) (int (length facts), 1) (du_high db), du_keys := AList.update key (digest, sn_use s, sn_id s) (du_keys db)\<rparr>"
    "map_of (du_keys db) key = None" "\<forall>t \<in> set (du_snapshots db). sn_id t \<noteq> sn_id s" "map_of (du_uses db) (ub_id b) = None"
proof -
  obtain db1 db2 db3 db4 db5 where st: "insert_use cd db b = Inr db1" "insert_use_facts db1 facts 0 = Inr db2"
    "reduce_resource_use cd (ub_id b) facts [] (int (length facts)) now = Inr s" "insert_snapshot db2 s = Inr db3"
    "insert_high db3 (ub_id b) (int (length facts)) = Inr db4" "insert_key db4 key digest s = Inr db5" "db' = db5"
    using assms by (auto simp: open_use_def)
  have 1: "db1 = db\<lparr>du_uses := AList.update (ub_id b) b (du_uses db)\<rparr>" "map_of (du_uses db) (ub_id b) = None" using st(1) by (auto simp: insert_use_def split: if_splits)
  have 2: "db2 = db1\<lparr>du_facts := du_facts db1 @ fact_rows 0 facts\<rparr>" using insert_use_facts_rows [OF st(2)] .
  show ?thesis using that [of db2] st 1 2
    by (cases "map_of (du_high db) (ub_id b)") (auto simp: insert_snapshot_def insert_high_def insert_key_def list_all_iff split: if_splits)
qed

lemma insert_measurements_tables:
  "insert_measurements db u ms = Inr db' \<Longrightarrow> db' = db\<lparr>du_measurements := du_measurements db'\<rparr>"
proof (induction db u ms rule: insert_measurements.induct)
  case (2 db u m ms)
  then have "db' = (db\<lparr>du_measurements := du_measurements db @ [(u, m)]\<rparr>)\<lparr>du_measurements := du_measurements db'\<rparr>" by (auto split: if_splits)
  then show ?case by (metis use_db.fold_congs(3) use_db.unfold_congs(3) use_db.update_convs(3) use_db.surjective)
qed simp

lemma insert_evidence_refs_tables:
  "insert_evidence_refs db u ds = Inr db' \<Longrightarrow> db' = db\<lparr>du_evidence := du_evidence db'\<rparr>"
proof (induction db u ds rule: insert_evidence_refs.induct)
  case (2 db u d ds)
  then obtain i where "db' = (db\<lparr>du_evidence := du_evidence db @ [(u, i, d)]\<rparr>)\<lparr>du_evidence := du_evidence db'\<rparr>" by (auto split: if_splits)
  then show ?case by (cases db; cases db') simp
qed simp

lemma extend_useE:
  assumes "extend_use cd db u (h, v) facts ms evidence claim key digest now = Inr (db', s)"
  obtains db1 ms' where "insert_use_facts db facts h = Inr db1" "reduce_resource_use cd u (use_facts db' u) ms' (h + int (length facts)) now = Inr s"
    "du_facts db' = du_facts db1" "du_high db' = AList.update u (h + int (length facts), v + 1) (du_high db)" "du_snapshots db' = du_snapshots db @ [s]"
    "du_keys db' = AList.update key (digest, sn_use s, sn_id s) (du_keys db)" "map_of (du_keys db) key = None" "du_uses db' = du_uses db"
    "\<forall>t \<in> set (du_snapshots db). sn_id t \<noteq> sn_id s"
proof -
  obtain db1 db2 db3 db4 db5 where st: "insert_use_facts db facts h = Inr db1" "insert_measurements db1 u ms = Inr db2" "insert_evidence_refs db2 u evidence = Inr db3"
    "insert_claim db3 u claim = Inr db4" "reduce_resource_use cd u (use_facts db4 u) (use_measurements db4 u) (h + int (length facts)) now = Inr s"
    "insert_snapshot (db4\<lparr>du_high := AList.update u (h + int (length facts), v + 1) (du_high db4)\<rparr>) s = Inr db5" "insert_key db5 key digest s = Inr db'"
    using assms by (auto simp: extend_use_def Let_def)
  have 1: "db1 = db\<lparr>du_facts := du_facts db @ fact_rows h facts\<rparr>" using insert_use_facts_rows [OF st(1)] .
  obtain m e where 2: "db2 = db1\<lparr>du_measurements := m\<rparr>" and 3: "db3 = db2\<lparr>du_evidence := e\<rparr>"
    using insert_measurements_tables [OF st(2)] insert_evidence_refs_tables [OF st(3)] by metis
  obtain c where 4: "db4 = db3\<lparr>du_claims := c\<rparr>" using st(4) by (auto simp: insert_claim_def)
  have 5: "db' = db4\<lparr>du_high := AList.update u (h + int (length facts), v + 1) (du_high db), du_snapshots := du_snapshots db @ [s],
      du_keys := AList.update key (digest, sn_use s, sn_id s) (du_keys db)\<rparr>" "map_of (du_keys db) key = None" "\<forall>t \<in> set (du_snapshots db). sn_id t \<noteq> sn_id s"
    using st(6,7) by (auto simp: insert_snapshot_def insert_key_def 1 2 3 4 list_all_iff)
  have "use_facts db' u = use_facts db4 u" by (simp add: use_facts_def 5(1))
  then show ?thesis using that [OF st(1)] st(5) 5 by (simp add: 1 2 3 4)
qed

lemma open_use_history:
  assumes "history_ok db" and "open_use cd db b facts key digest now = Inr (db', s)"
  shows "history_ok db'" "use_facts db' (ub_id b) = facts" "w \<noteq> ub_id b \<Longrightarrow> use_facts db' w = use_facts db w"
proof -
  from assms(2) obtain db2 where st: "insert_use_facts (db\<lparr>du_uses := AList.update (ub_id b) b (du_uses db)\<rparr>) facts 0 = Inr db2"
    "reduce_resource_use cd (ub_id b) facts [] (int (length facts)) now = Inr s" "map_of (du_high db) (ub_id b) = None" "0 < int (length facts)"
    "db' = db2\<lparr>du_snapshots := du_snapshots db @ [s], du_high := AList.update (ub_id b) (int (length facts), 1) (du_high db), du_keys := AList.update key (digest, sn_use s, sn_id s) (du_keys db)\<rparr>"
    by (rule open_useE)
  note 2 = insert_use_facts_rows [OF st(1)]
  have own: "\<forall>f \<in> set facts. uf_use f = ub_id b" using st(2) by (rule reduceE) simp
  have none: "rows_of db (ub_id b) = []" "use_facts db (ub_id b) = []" using history_okD(2) [OF assms(1) st(3)] by simp_all
  have rows: "rows_of db' (ub_id b) = map snd (fact_rows 0 facts)"
    using none(1) by (simp add: rows_of_def st(5) 2 fact_rows_own [OF own])
  have "use_facts db' (ub_id b) = facts"
    using use_facts_rows [of db' "ub_id b" "int (length facts)"] fact_rows_ordinals [of 0 facts] fact_rows_snd [of 0 facts] by (simp add: rows)
  then have red: "reduce_resource_use cd (ub_id b) (use_facts db' (ub_id b)) [] (0 + int (length facts)) now = Inr s" using st(2) by simp
  have src: "distinct (sources db')"
    using insert_use_facts_sources [OF st(1)] assms(1) by (simp add: history_ok_def sources_def st(5))
  have pos: "1 \<le> 0 + int (length facts)" using st(4) by linarith
  have none1: "map fst (rows_of db (ub_id b)) = [1..0]" using none(1) by simp
  note grown = grown_history [OF assms(1) own none1 order.refl pos _ _ _ src red, of 1]
  show "history_ok db'" by (rule grown(1)) (use none st 2 in simp_all)
  show "use_facts db' (ub_id b) = facts" by fact
  show "w \<noteq> ub_id b \<Longrightarrow> use_facts db' w = use_facts db w" by (rule grown(3)) (use none st 2 in simp_all)
qed

lemma extend_use_history:
  assumes "history_ok db" and "map_of (du_high db) u = Some (h, v)" and "extend_use cd db u (h, v) facts ms evidence claim key digest now = Inr (db', s)"
  shows "history_ok db'" "use_facts db' u = use_facts db u @ facts" "w \<noteq> u \<Longrightarrow> use_facts db' w = use_facts db w" "\<forall>f \<in> set facts. uf_use f = u"
proof -
  from assms(3) obtain db1 ms' where st: "insert_use_facts db facts h = Inr db1" "reduce_resource_use cd u (use_facts db' u) ms' (h + int (length facts)) now = Inr s"
    "du_facts db' = du_facts db1" "du_high db' = AList.update u (h + int (length facts), v + 1) (du_high db)" "du_snapshots db' = du_snapshots db @ [s]"
    by (rule extend_useE)
  note 1 = insert_use_facts_rows [OF st(1)] and ok = history_okD(1) [OF assms(1,2)]
  have len: "int (length (use_facts db u)) = h" using history_length [OF assms(1,2)] .
  have "length (use_facts db' u) = length (use_facts db u) + length (filter (\<lambda>f. uf_use f = u) facts)"
    by (simp add: use_facts_def st(3) 1 fact_rows_length)
  moreover have "h + int (length facts) \<le> int (length (use_facts db' u))" using st(2) by (rule reduceE) simp
  ultimately have "\<not> length (filter (\<lambda>f. uf_use f = u) facts) < length facts" using len by linarith
  then show own: "\<forall>f \<in> set facts. uf_use f = u" using length_filter_less [of _ facts "\<lambda>f. uf_use f = u"] by blast
  have src: "distinct (sources db')"
    using insert_use_facts_sources [OF st(1)] assms(1) by (simp add: history_ok_def sources_def st(3))
  note grown = grown_history [OF assms(1) own _ _ _ _ _ _ src st(2), of "v + 1"]
  show "history_ok db'" by (rule grown(1)) (use ok st 1 in simp_all)
  show "use_facts db' u = use_facts db u @ facts" by (rule grown(2)) (use ok st 1 in simp_all)
  show "w \<noteq> u \<Longrightarrow> use_facts db' w = use_facts db w" by (rule grown(3)) (use ok st 1 in simp_all)
qed

lemma history_tables:
  "du_facts db' = du_facts db \<Longrightarrow> du_high db' = du_high db \<Longrightarrow> du_snapshots db' = du_snapshots db \<Longrightarrow> history_ok db \<Longrightarrow> history_ok db'"
  by (simp add: history_ok_def rows_of_def sources_def told_def [abs_def] use_facts_def)

lemma step_keeps_history: "use_step cd db db' \<Longrightarrow> history_ok db \<Longrightarrow> history_ok db'"
proof (induction rule: use_step.induct)
  case (opened db b facts key digest now db' s)
  then show ?case by (auto dest: open_use_history(1))
next
  case (extended db u hv facts ms evidence claim key digest now db' s)
  then show ?case by (cases hv) (auto dest: extend_use_history(1))
next
  case (claimed db u claim db')
  then show ?case using history_tables [of db' db] by (auto simp: insert_claim_def)
next
  case (elsewhere db p l)
  then show ?case using history_tables [OF _ _ _ elsewhere] by simp
qed

lemma reachable_history: "use_reachable cd db \<Longrightarrow> history_ok db"
proof (induction rule: use_reachable.induct)
  case (fresh db)
  then show ?case by (simp add: history_ok_def rows_of_def sources_def)
qed (rule step_keeps_history)

subsection \<open>Reads\<close>

lemma latest_snapshot_max:
  "case latest_snapshot db u of None \<Rightarrow> \<forall>s \<in> set (du_snapshots db). sn_use s \<noteq> u
   | Some s \<Rightarrow> s \<in> set (du_snapshots db) \<and> sn_use s = u \<and> (\<forall>t \<in> set (du_snapshots db). sn_use t = u \<longrightarrow> sn_high t \<le> sn_high s)"
proof (cases "rev (sort_key sn_high (filter (\<lambda>s. sn_use s = u) (du_snapshots db)))")
  case Nil
  then have "filter (\<lambda>s. sn_use s = u) (du_snapshots db) = []" by (metis rev_is_Nil_conv set_empty set_sort)
  then show ?thesis using Nil by (auto simp: latest_snapshot_def filter_empty_conv)
next
  case (Cons s ss)
  let ?xs = "filter (\<lambda>s. sn_use s = u) (du_snapshots db)"
  have xs: "sort_key sn_high ?xs = rev ss @ [s]" using Cons by (metis rev.simps(2) rev_rev_ident)
  then have "set ?xs = insert s (set ss)" by (metis set_append set_rev set_sort list.set Un_insert_right sup_bot_right)
  moreover have "sorted (map sn_high (rev ss @ [s]))" unfolding xs [symmetric] by simp
  then have "\<forall>t \<in> set ss. sn_high t \<le> sn_high s" by (auto simp: sorted_append)
  ultimately show ?thesis using Cons by (force simp: latest_snapshot_def)
qed

lemma latest_whole:
  assumes "history_ok db"
  shows "case latest_snapshot db u of None \<Rightarrow> use_facts db u = []
   | Some s \<Rightarrow> s \<in> set (du_snapshots db) \<and> sn_use s = u \<and> sn_high s = int (length (use_facts db u)) \<and> use_facts db u \<noteq> []"
proof (cases "map_of (du_high db) u")
  case None
  have "sn_use s \<noteq> u" if "s \<in> set (du_snapshots db)" for s
    using that assms history_okD(2) [OF assms None] by (auto simp: history_ok_def list_all_iff told_def)
  then show ?thesis using latest_snapshot_max [of db u] history_okD(2) [OF assms None] by (auto split: option.splits)
next
  case (Some hv)
  obtain h v where hv: "hv = (h, v)" by (cases hv)
  have len: "int (length (use_facts db u)) = h" "1 \<le> h" using history_length [OF assms, of u h v] history_okD(1) [OF assms, of u h v] Some hv by simp_all
  have "\<exists>t \<in> set (du_snapshots db). sn_use t = u \<and> sn_high t = h" using assms Some hv unfolding history_ok_def by blast
  then obtain t where t: "t \<in> set (du_snapshots db)" "sn_use t = u" "sn_high t = h" by blast
  obtain s where s: "latest_snapshot db u = Some s" "s \<in> set (du_snapshots db)" "sn_use s = u" "h \<le> sn_high s"
    using latest_snapshot_max [of db u] t by (auto split: option.splits)
  have "told db s" using assms s(2) by (simp add: history_ok_def list_all_iff)
  then have "sn_high s = h" using s(3,4) len by (simp add: told_def)
  then show ?thesis using s len by auto
qed

lemma distinct_consistent:
  assumes "history_ok db"
  shows "consistent_sources (take n (use_facts db u))"
proof -
  have "f = g" if fg: "f \<in> set (use_facts db u)" "g \<in> set (use_facts db u)" "fact_source f = fact_source g" for f g
  proof -
    obtain i j where r: "(u, i, f) \<in> set (du_facts db)" "(u, j, g) \<in> set (du_facts db)" using fg(1,2) by (auto simp: use_facts_def)
    have "inj_on (\<lambda>r. fact_source (snd (snd r))) (set (du_facts db))" using assms by (simp add: history_ok_def sources_def distinct_map)
    then have "(u, i, f) = (u, j, g)" by (rule inj_onD) (use r fg(3) in simp_all)
    then show ?thesis by simp
  qed
  then show ?thesis unfolding consistent_sources_def by (metis in_set_takeD)
qed

subsection \<open>Operations\<close>

lemma commit_observation_cases:
  assumes "commit_observation cd hook db u facts ms evidence claim key digest expected now = Inr (db', s)"
  obtains (replayed) "db' = db" "use_replay db key digest = Inr (Some s)"
  | (observed) v where "map_of (du_keys db) key = None" "map_of (du_high db) u = Some (expected, v)"
      "extend_use cd db u (expected, v) facts ms evidence claim key digest now = Inr (db', s)"
proof -
  obtain r where r: "use_replay db key digest = Inr r" using assms by (auto simp: commit_observation_def split: if_splits)
  show ?thesis
  proof (cases r)
    case None
    then have "map_of (du_keys db) key = None" using r by (auto simp: use_replay_def split: option.splits if_splits)
    then show ?thesis using assms r None observed by (auto simp: commit_observation_def split: if_splits option.splits)
  next
    case (Some t)
    then show ?thesis using assms r replayed by (auto simp: commit_observation_def split: if_splits)
  qed
qed

lemma prepare_use_cases:
  assumes "prepare_use cd hook db b facts key digest now = Inr (db', s)"
  obtains (replayed) "db' = db" "use_replay db key digest = Inr (Some s)"
  | (opened) "validate_use_lineage db b = Inr ()" "open_use cd db b facts key digest now = Inr (db', s)"
proof -
  obtain r where r: "use_replay db key digest = Inr r" using assms by (auto simp: prepare_use_def split: if_splits)
  show ?thesis
    using assms r replayed opened by (cases r) (auto simp: prepare_use_def split: if_splits)
qed

lemma prepare_use_step: "prepare_use cd hook db b facts key digest now = Inr (db', s) \<Longrightarrow> db' = db \<or> use_step cd db db'"
  by (erule prepare_use_cases) (auto intro: use_step.opened)

lemma commit_observation_step:
  "commit_observation cd hook db u facts ms evidence claim key digest expected now = Inr (db', s) \<Longrightarrow> db' = db \<or> use_step cd db db'"
  by (erule commit_observation_cases) (auto intro: use_step.extended)

definition answered :: "use_db \<Rightarrow> string \<Rightarrow> string \<Rightarrow> use_snapshot \<Rightarrow> bool" where
  "answered db key digest s = (use_replay db key digest = Inr (Some s))"

lemma answered_iff:
  "answered db key digest s \<longleftrightarrow> (\<exists>u i. map_of (du_keys db) key = Some (digest, u, i) \<and> find (\<lambda>t. sn_id t = i) (du_snapshots db) = Some s)"
  by (auto simp: answered_def use_replay_def snapshot_by_id_def split: option.splits if_splits)

lemma find_append_Some: "find P xs = Some x \<Longrightarrow> find P (xs @ ys) = Some x"
  by (induction xs) (auto split: if_splits)

lemma find_append_last: "(\<forall>x \<in> set xs. \<not> P x) \<Longrightarrow> P y \<Longrightarrow> find P (xs @ [y]) = Some y"
  by (induction xs) auto

lemma answered_grows:
  assumes "answered db key digest s" "du_snapshots db' = du_snapshots db @ ys" "map_of (du_keys db') key = map_of (du_keys db) key"
  shows "answered db' key digest s"
  using assms by (auto simp: answered_iff intro: find_append_Some)

lemma use_step_keeps_answers: "use_step cd db db' \<Longrightarrow> answered db key digest s \<Longrightarrow> answered db' key digest s"
proof (induction rule: use_step.induct)
  case (opened db b facts k d now db' t)
  from opened(1) obtain db2 where o: "map_of (du_keys db) k = None" "du_snapshots db' = du_snapshots db @ [t]" "du_keys db' = AList.update k (d, sn_use t, sn_id t) (du_keys db)"
    by (rule open_useE) auto
  then have "k \<noteq> key" using opened(2) by (auto simp: answered_iff)
  then show ?case using opened(2) o(2) by (rule_tac answered_grows) (simp_all add: o(3))
next
  case (extended db u hv facts ms evidence claim k d now db' t)
  obtain h v where hv: "hv = (h, v)" by (cases hv)
  from extended(2) [unfolded hv] have o: "map_of (du_keys db) k = None" "du_snapshots db' = du_snapshots db @ [t]" "du_keys db' = AList.update k (d, sn_use t, sn_id t) (du_keys db)"
    by (rule extend_useE, simp)+
  then have "k \<noteq> key" using extended(3) by (auto simp: answered_iff)
  then show ?case using extended(3) o(2) by (rule_tac answered_grows) (simp_all add: o(3))
qed (auto simp: insert_claim_def answered_iff)

lemma use_run_keeps_answers: "(use_step cd)\<^sup>*\<^sup>* db db' \<Longrightarrow> answered db key digest s \<Longrightarrow> answered db' key digest s"
  by (induction rule: rtranclp_induct) (auto intro: use_step_keeps_answers)

lemma observation_answered:
  assumes "commit_observation cd hook db u facts ms evidence claim key digest expected now = Inr (db', s)"
  shows "answered db' key digest s"
  using assms
proof (cases rule: commit_observation_cases)
  case (observed v)
  from observed(3) have "du_snapshots db' = du_snapshots db @ [s]" "du_keys db' = AList.update key (digest, sn_use s, sn_id s) (du_keys db)"
    "\<forall>t \<in> set (du_snapshots db). sn_id t \<noteq> sn_id s" by (rule extend_useE, simp)+
  then show ?thesis by (simp add: answered_iff find_append_last)
qed (simp add: answered_def)

lemma answered_observation:
  assumes "commit_observation cd hook db u facts ms evidence claim key digest expected now = Inr (db', s)" "answered db'' key digest s"
  shows "commit_observation cd hook' db'' u facts ms evidence claim key digest expected now' = Inr (db'', s)"
proof -
  have "digest = value_digest cd (observation_json cd u facts ms evidence claim expected)"
    using assms(1) by (auto simp: commit_observation_def split: if_splits)
  then show ?thesis using assms(2) by (simp add: commit_observation_def answered_def)
qed

subsection \<open>Properties\<close>

text \<open>
  C22: In every state that transactions of the repositories reach, the snapshot that \<open>get_snapshot\<close> reads for a use tells its whole stored history: its
  high water is the number of the facts of the use, it names them all in their order, and its effective state is the last state of a legal history and
  \<open>CONFLICTED\<close> otherwise. A use without a snapshot has no fact.
\<close>
theorem latest_snapshot_tells_history:
  assumes "use_reachable cd db"
  shows "case latest_snapshot db u of None \<Rightarrow> use_facts db u = []
    | Some s \<Rightarrow> sn_use s = u \<and> sn_high s = int (length (use_facts db u)) \<and> sn_facts s = map uf_id (use_facts db u) \<and>
        sn_state s = (if legal_history (fact_states (use_facts db u)) then last (fact_states (use_facts db u)) else U_CONFLICTED)"
proof (cases "latest_snapshot db u")
  case None
  then show ?thesis using latest_whole [OF reachable_history [OF assms], of u] by simp
next
  case (Some s)
  note ok = reachable_history [OF assms]
  have s: "s \<in> set (du_snapshots db)" "sn_use s = u" "sn_high s = int (length (use_facts db u))" using latest_whole [OF ok, of u] Some by simp_all
  have "told db s" using ok s(1) by (simp add: history_ok_def list_all_iff)
  then have "sn_state s = history_state (use_facts db u)" "sn_facts s = map uf_id (use_facts db u)" using s(2,3) by (simp_all add: told_def)
  then show ?thesis using Some s(2,3) distinct_consistent [OF ok, of "length (use_facts db u)" u] history_conflicts_Nil [of "use_facts db u"]
    by (simp add: history_state_def)
qed

text \<open>
  C23: An observation is recorded exactly once and on its own use. Although \<open>commit_observation\<close> does not look at the use that its facts name, a new
  observation returns only when all of them name the use it is made on, and then it appends them there and leaves the history of every other use as it
  was; and the same request, made again after any further transactions and with any hook, answers the snapshot it answered first and changes nothing.
\<close>
theorem observation_recorded_exactly_once:
  assumes "use_reachable cd db" and "commit_observation cd hook db u facts ms evidence claim key digest expected now = Inr (db', s)" and "(use_step cd)\<^sup>*\<^sup>* db' db''"
  shows "(map_of (du_keys db) key = None \<longrightarrow> expected = int (length (use_facts db u)) \<and> list_all (\<lambda>f. uf_use f = u) facts \<and> use_facts db' u = use_facts db u @ facts \<and>
      (\<forall>w. w \<noteq> u \<longrightarrow> use_facts db' w = use_facts db w)) \<and>
    commit_observation cd hook' db'' u facts ms evidence claim key digest expected now' = Inr (db'', s)"
proof -
  note ok = reachable_history [OF assms(1)]
  have "expected = int (length (use_facts db u)) \<and> list_all (\<lambda>f. uf_use f = u) facts \<and> use_facts db' u = use_facts db u @ facts \<and> (\<forall>w. w \<noteq> u \<longrightarrow> use_facts db' w = use_facts db w)"
    if new: "map_of (du_keys db) key = None"
    using assms(2)
  proof (cases rule: commit_observation_cases)
    case replayed
    then show ?thesis using new by (simp add: use_replay_def)
  next
    case (observed v)
    then show ?thesis using history_length [OF ok observed(2)] extend_use_history(2-4) [OF ok observed(2,3)] by (simp add: list_all_iff)
  qed
  then show ?thesis using answered_observation [OF assms(2) use_run_keeps_answers [OF assms(3) observation_answered [OF assms(2)]]] by blast
qed

subsection \<open>A use that fails\<close>

definition demo_use :: use_binding where
  "demo_use = \<lparr>ub_scope = \<lparr>namespace = ''n'', security_domain = ''s''\<rparr>, ub_id = ''u'', ub_attempt = ''a'', ub_kind = R_SKILL, ub_slot = ''k'', ub_occurrence = 1,
     ub_resource = ''r'', ub_revision = ''r1'', ub_digest = ''d'', ub_binding = ''b'', ub_binding_digest = ''d'', ub_plan = ''p'', ub_plan_version = 1, ub_plan_digest = ''d'',
     ub_run = ''w'', ub_task = ''t'', ub_definition = ''e'', ub_definition_revision = ''e1'', ub_definition_digest = ''d'', ub_employee = ''i'', ub_agent = None,
     ub_runtime = None, ub_executor = None, ub_executor_revision = None, ub_provider = None, ub_provider_revision = None, ub_decision = ''ok'', ub_predecessor = None,
     ub_predecessor_run = None\<rparr>"

definition demo_db :: use_db where
  "demo_db = \<lparr>du_uses = [], du_facts = [], du_measurements = [], du_evidence = [], du_claims = [], du_high = [], du_snapshots = [], du_keys = [], du_lineage = [], du_placements = []\<rparr>"

definition demo_opened :: use_db where
  "demo_opened = demo_db\<lparr>du_uses := [(''u'', demo_use)], du_facts := fact_rows 0 (take 2 demo_history), du_high := [(''u'', 2, 1)], du_snapshots := [demo_snapshot 2],
     du_keys := [(''k1'', ''d1'', ''u'', sn_id (demo_snapshot 2))]\<rparr>"

definition demo_claim :: "(string, json) dict" where
  "demo_claim = [(''claimId'', JStr ''c''), (''claimDigest'', JStr ''d'')]"

definition demo_observed :: use_db where
  "demo_observed = demo_opened\<lparr>du_facts := fact_rows 0 (take 3 demo_history), du_claims := [(''u'', ''c'', demo_claim)], du_high := [(''u'', 3, 2)], du_snapshots := [demo_snapshot 2, demo_snapshot 3],
     du_keys := [(''k1'', ''d1'', ''u'', sn_id (demo_snapshot 2)), (''k2'', replicate 63 (CHR ''0'') @ ''0'', ''u'', sn_id (demo_snapshot 3))]\<rparr>"

lemma demo_snapshot_simps [simp]: "sn_use (demo_snapshot n) = ''u''" "sn_high (demo_snapshot n) = n" "sn_id (demo_snapshot m) = sn_id (demo_snapshot n) \<longleftrightarrow> m = n"
  by (auto simp: demo_snapshot_def show_int_inject)

lemma demo_facts: "use_facts demo_observed ''u'' = take 3 demo_history"
  by (simp add: use_facts_def demo_observed_def demo_history_def demo_fact_def numeral_3_eq_3)

lemma demo_open: "open_use demo_codec demo_db demo_use (take 2 demo_history) ''k1'' ''d1'' 0 = Inr (demo_opened, demo_snapshot 2)"
proof -
  have "insert_use demo_codec demo_db demo_use = Inr (demo_db\<lparr>du_uses := [(''u'', demo_use)]\<rparr>)"
    by (simp add: insert_use_def binding_json_def demo_digest demo_db_def demo_use_def)
  moreover have "insert_use_facts (demo_db\<lparr>du_uses := [(''u'', demo_use)]\<rparr>) (take 2 demo_history) 0 = Inr (demo_db\<lparr>du_uses := [(''u'', demo_use)], du_facts := fact_rows 0 (take 2 demo_history)\<rparr>)"
    by (simp add: demo_db_def demo_history_def demo_fact_def fact_source_def)
  moreover have "ub_id demo_use = ''u''" "int (length (take 2 demo_history)) = 2" by (simp_all add: demo_use_def demo_history_def)
  ultimately show ?thesis using demo_reduces [of 2]
    by (simp add: open_use_def insert_snapshot_def insert_high_def insert_key_def demo_opened_def demo_db_def)
qed

lemma demo_reachable: "use_reachable demo_codec demo_opened"
proof (rule use_reachable.used)
  show "use_reachable demo_codec demo_db" by (rule use_reachable.fresh) (simp_all add: demo_db_def)
  show "use_step demo_codec demo_db demo_opened" by (rule use_step.opened [OF demo_open])
qed

lemma demo_observe:
  "commit_observation demo_codec (Inr ()) demo_opened ''u'' [demo_fact ''3'' F_FAILED] [] [] demo_claim ''k2'' (replicate 63 (CHR ''0'') @ ''0'') 2 0 = Inr (demo_observed, demo_snapshot 3)"
proof -
  have 1: "insert_use_facts demo_opened [demo_fact ''3'' F_FAILED] 2 = Inr (demo_opened\<lparr>du_facts := fact_rows 0 (take 3 demo_history)\<rparr>)"
    by (simp add: demo_opened_def demo_history_def demo_fact_def fact_source_def numeral_3_eq_3)
  have 2: "insert_claim (demo_opened\<lparr>du_facts := fact_rows 0 (take 3 demo_history)\<rparr>) ''u'' demo_claim
      = Inr (demo_opened\<lparr>du_facts := fact_rows 0 (take 3 demo_history), du_claims := [(''u'', ''c'', demo_claim)]\<rparr>)"
    by (simp add: insert_claim_def demo_claim_def text_at_def demo_opened_def demo_db_def)
  have 3: "use_facts (demo_opened\<lparr>du_facts := fact_rows 0 (take 3 demo_history), du_claims := [(''u'', ''c'', demo_claim)]\<rparr>) ''u'' = take 3 demo_history"
    using demo_facts by (simp add: use_facts_def demo_observed_def)
  have 4: "use_measurements (demo_opened\<lparr>du_facts := fact_rows 0 (take 3 demo_history), du_claims := [(''u'', ''c'', demo_claim)]\<rparr>) ''u'' = []"
    by (simp add: use_measurements_def demo_opened_def demo_db_def)
  have "extend_use demo_codec demo_opened ''u'' (2, 1) [demo_fact ''3'' F_FAILED] [] [] demo_claim ''k2'' (replicate 63 (CHR ''0'') @ ''0'') 0 = Inr (demo_observed, demo_snapshot 3)"
    using demo_reduces [of 3] by (simp add: extend_use_def 1 2 3 4 insert_snapshot_def insert_key_def del: insert_use_facts.simps) (simp add: demo_opened_def demo_observed_def demo_db_def)
  moreover have "map_of (du_keys demo_opened) ''k2'' = None" "map_of (du_high demo_opened) ''u'' = Some (2, 1)" by (simp_all add: demo_opened_def)
  ultimately show ?thesis by (simp add: commit_observation_def observation_json_def demo_digest use_replay_def)
qed

theorem observation_recorded_exactly_once_witness:
  "list_all (\<lambda>f. uf_use f = ''u'') [demo_fact ''3'' F_FAILED] \<and> use_facts demo_observed ''u'' = use_facts demo_opened ''u'' @ [demo_fact ''3'' F_FAILED] \<and>
   commit_observation demo_codec (Inl ''hook'') demo_observed ''u'' [demo_fact ''3'' F_FAILED] [] [] demo_claim ''k2'' (replicate 63 (CHR ''0'') @ ''0'') 2 9 = Inr (demo_observed, demo_snapshot 3)"
proof -
  have "map_of (du_keys demo_opened) ''k2'' = None" by (simp add: demo_opened_def)
  then show ?thesis
    using observation_recorded_exactly_once [OF demo_reachable demo_observe rtranclp.rtrancl_refl, of "Inl ''hook''" 9] by blast
qed

theorem latest_snapshot_tells_history_witness:
  "latest_snapshot demo_observed ''u'' = Some (demo_snapshot 3) \<and> sn_facts (demo_snapshot 3) = map uf_id (use_facts demo_observed ''u'') \<and> sn_high (demo_snapshot 3) = 3"
proof -
  have "use_step demo_codec demo_opened demo_observed \<or> demo_observed = demo_opened" using commit_observation_step [OF demo_observe] by blast
  then have "use_reachable demo_codec demo_observed" using demo_reachable by (auto intro: use_reachable.used)
  moreover have "latest_snapshot demo_observed ''u'' = Some (demo_snapshot 3)" by (simp add: latest_snapshot_def demo_observed_def)
  ultimately show ?thesis using latest_snapshot_tells_history [of demo_codec demo_observed "''u''"] by simp
qed

end
