(* ===== verification/Skill_Invocation_Safety.thy ===== *)
theory Skill_Invocation_Safety
  imports Skill_Invocation Resource_Use_History "HOL-Library.Multiset"
begin

text \<open>
  Skill invocations over all interleavings: \<open>skill_step\<close> runs any number of calls of the service, cut where they leave the database, with crashes, recoveries and changes of
  the other authorities between them. A Skill is executed at most once for an attempt, the projection of an invocation tells its facts, the state of its resource use
  agrees with it, and a terminal result is final.
\<close>

subsection \<open>Effect of a dispatch\<close>

definition skill_rows :: "skill_db \<Rightarrow> string \<Rightarrow> (int \<times> skill_fact) list" where
  "skill_rows db i = map snd (filter (\<lambda>(j, _). j = i) (ds_facts db))"

fun numbered :: "string \<Rightarrow> int \<Rightarrow> 'a list \<Rightarrow> (string \<times> int \<times> 'a) list" where
  "numbered i n [] = []"
| "numbered i n (f # fs) = (i, n + 1, f) # numbered i (n + 1) fs"

lemma insert_invocation_facts_rows:
  "insert_invocation_facts db i fs n = Inr db' \<Longrightarrow> db' = db\<lparr>ds_facts := ds_facts db @ numbered i n fs\<rparr>"
proof (induction db i fs n rule: insert_invocation_facts.induct)
  case (2 db i f fs n)
  then have "db' = (db\<lparr>ds_facts := ds_facts db @ [(i, n + 1, f)]\<rparr>)\<lparr>ds_facts := (ds_facts db @ [(i, n + 1, f)]) @ numbered i (n + 1) fs\<rparr>"
    by (auto split: if_splits)
  then show ?case by simp
qed simp

lemma filter_numbered [simp]: "filter (\<lambda>(j, _). j = k) (numbered i n fs) = (if k = i then numbered i n fs else [])"
  by (induction fs arbitrary: n) auto

lemma numbered_ordinals: "map (\<lambda>r. fst (snd r)) (numbered i n fs) = [n + 1..n + int (length fs)]"
proof (induction fs arbitrary: n)
  case (Cons f fs)
  have "[n + 1..n + int (length (f # fs))] = (n + 1) # [n + 1 + 1..n + int (length (f # fs))]" by (simp add: upto_rec1)
  then show ?case using Cons.IH [of "n + 1"] by (simp add: algebra_simps)
qed simp

lemma numbered_values: "map (\<lambda>r. g (snd (snd r))) (numbered i n fs) = map g fs"
  by (induction fs arbitrary: n) auto

lemma prior_kinds_rows: "map fst (skill_rows db i) = [1..h] \<Longrightarrow> prior_kinds db i = map (\<lambda>p. sf_kind (snd p)) (skill_rows db i)"
proof -
  assume "map fst (skill_rows db i) = [1..h]"
  then have "sorted (map fst (skill_rows db i))" by simp
  then show ?thesis by (simp add: prior_kinds_def skill_rows_def sort_key_id_if_sorted)
qed

lemma fact_of_kind: "fact_of cd i k src obs d now = Inr f \<Longrightarrow> sf_kind f = k"
  by (auto simp: fact_of_def skill_fact_init_def split: if_splits)

lemma resource_fact_kind: "resource_fact cd u k src obs d now ev lms = Inr f \<Longrightarrow> uf_kind f = k"
  by (auto simp: resource_fact_def use_fact_init_def)

lemma collect_map: "collect f xs = Inr ys \<Longrightarrow> (\<And>x y. f x = Inr y \<Longrightarrow> g y = h x) \<Longrightarrow> map g ys = map h xs"
  by (induction f xs arbitrary: ys rule: collect.induct) auto

lemma make_snapshot_value:
  "make_snapshot i r st hi pd ind out ev ks er lms = Inr s \<Longrightarrow> s = \<lparr>ks_id = i, ks_state = st, ks_high = hi, ks_payload = pd, ks_input = ind, ks_output = out, ks_evidence = ev,
     ks_use = ub_id (sq_use r), ks_kinds = ks, ks_error = er, ks_limits = lms, ks_technical = True\<rparr>"
  by (auto simp: make_snapshot_def skill_snapshot_init_def split: if_splits)

lemma record_dispatchE:
  assumes "record_dispatch cd db r inputs digest now = Inr (db', s)"
  obtains i f1 f2 u1 u2 key d use1 us use2 claim row where "invocation_id cd r = Inr i" "sf_kind f1 = K_REQUESTED" "sf_kind f2 = K_DISPATCH_RECORDED"
    "uf_kind u1 = F_REQUESTED" "uf_kind u2 = F_DISPATCH_RECORDED" "open_use cd (ds_use db) (sq_use r) [u1, u2] key d now = Inr (use1, us)"
    "insert_claim use1 (ub_id (sq_use r)) claim = Inr use2" "map_of (ds_invocations db) i = None"
    "list_all (\<lambda>(_, v). iv_key v \<noteq> sq_key r \<and> iv_attempt v \<noteq> sq_attempt r) (ds_invocations db)"
    "row = \<lparr>iv_key = sq_key r, iv_payload = digest, iv_input = value_digest cd inputs, iv_attempt = sq_attempt r, iv_use = ub_id (sq_use r), iv_request = request_json r, iv_created = now\<rparr>"
    "db' = db\<lparr>ds_use := use2, ds_invocations := AList.update i row (ds_invocations db), ds_facts := ds_facts db @ numbered i 0 [f1, f2],
       ds_projections := AList.update i s (ds_projections db)\<rparr>"
    "ks_id s = i" "ks_state s = V_DISPATCH_RECORDED" "ks_high s = 2" "ks_kinds s = [K_REQUESTED, K_DISPATCH_RECORDED]" "ks_evidence s = None"
proof -
  obtain i f1 f2 u1 u2 db1 db2 db3 where st: "invocation_id cd r = Inr i" "fact_of cd i K_REQUESTED ''application'' (sq_key r) digest now = Inr f1"
    "fact_of cd i K_DISPATCH_RECORDED ''executor-adapter'' i (er_digest (sq_executor r)) now = Inr f2"
    "resource_fact cd (ub_id (sq_use r)) F_REQUESTED ''application'' (sq_key r) digest now [] [] = Inr u1"
    "resource_fact cd (ub_id (sq_use r)) F_DISPATCH_RECORDED ''executor-adapter'' i (er_digest (sq_executor r)) now [] [] = Inr u2"
    "insert_resource_use cd db i r [u1, u2] digest now = Inr db1" "insert_invocation cd db1 i r inputs digest now = Inr db2" "insert_invocation_facts db2 i [f1, f2] 0 = Inr db3"
    "make_snapshot i r V_DISPATCH_RECORDED 2 digest (value_digest cd inputs) None None [K_REQUESTED, K_DISPATCH_RECORDED] None [] = Inr s" "upsert_projection db3 s = Inr db'"
    using assms by (auto simp: record_dispatch_def Let_def)
  obtain key d use1 us claim use2 where u: "open_use cd (ds_use db) (sq_use r) [u1, u2] key d now = Inr (use1, us)" "insert_claim use1 (ub_id (sq_use r)) claim = Inr use2"
    "db1 = db\<lparr>ds_use := use2\<rparr>" using st(6) by (auto simp: insert_resource_use_def on_use_def)
  note s = make_snapshot_value [OF st(9)]
  define row where "row = \<lparr>iv_key = sq_key r, iv_payload = digest, iv_input = value_digest cd inputs, iv_attempt = sq_attempt r, iv_use = ub_id (sq_use r), iv_request = request_json r, iv_created = now\<rparr>"
  have 2: "db2 = db\<lparr>ds_use := use2, ds_invocations := AList.update i row (ds_invocations db)\<rparr>" "map_of (ds_invocations db) i = None"
    "\<not> list_ex (\<lambda>(_, v). iv_key v = sq_key r \<or> iv_attempt v = sq_attempt r) (ds_invocations db)"
    using st(7) u(3) by (auto simp: insert_invocation_def row_def split: if_splits)
  have 3: "db3 = db2\<lparr>ds_facts := ds_facts db2 @ numbered i 0 [f1, f2]\<rparr>" using insert_invocation_facts_rows [OF st(8)] .
  have 4: "db' = db3\<lparr>ds_projections := AList.update i s (ds_projections db3)\<rparr>" using st(10) by (auto simp: upsert_projection_def s split: if_splits)
  have l: "list_all (\<lambda>(_, v). iv_key v \<noteq> sq_key r \<and> iv_attempt v \<noteq> sq_attempt r) (ds_invocations db)" using 2(3) by (auto simp: list_all_iff list_ex_iff)
  show ?thesis
    by (rule that [OF st(1) fact_of_kind [OF st(2)] fact_of_kind [OF st(3)] resource_fact_kind [OF st(4)] resource_fact_kind [OF st(5)] u(1,2) 2(2) l row_def])
      (simp_all add: 4 3 2(1) s)
qed

subsection \<open>Effect of an outcome\<close>

lemma record_outcomeE:
  assumes "record_outcome cd hook db i r row high state od er obs started observed now = Inr (db', s)"
  obtains e rec facts ufacts hv ms ev claim key d use' us ks us_kinds where "terminal_kinds state = Inr ks" "map sf_kind facts = ks"
    "terminal_use_kinds state = Inr us_kinds" "map uf_kind ufacts = us_kinds" "started \<le> observed"
    "map_of (du_high (ds_use db)) (ub_id (sq_use r)) = Some hv"
    "extend_use cd (ds_use db) (ub_id (sq_use r)) hv ufacts ms ev claim key d now = Inr (use', us)"
    "db' = db\<lparr>ds_use := use', ds_facts := ds_facts db @ numbered i high facts, ds_evidence := ds_evidence db @ [(e, i, rec)], ds_projections := AList.update i s (ds_projections db)\<rparr>"
    "ks_id s = i" "ks_state s = state" "ks_high s = high + int (length facts)" "ks_kinds s = prior_kinds db' i" "ks_evidence s = Some e" "ks_error s = er"
proof -
  obtain e digest rec facts db1 db2 ufacts db3 us where st: "evidence_of_outcome cd i r state (iv_input row) od er observed = Inr (e, digest, rec)"
    "terminal_facts cd i state obs digest observed = Inr facts" "insert_invocation_facts db i facts high = Inr db1" "insert_skill_evidence db1 e i rec = Inr db2"
    "terminal_resource_facts cd (ub_id (sq_use r)) state obs e digest observed = Inr ufacts" "commit_resource_terminal cd db2 i r ufacts e digest started observed now = Inr (db3, us)"
    "make_snapshot i r state (high + int (length facts)) (iv_payload row) (iv_input row) od (Some e) (prior_kinds db3 i) er (unconfirmed state) = Inr s"
    "upsert_projection db3 s = Inr db'"
    using assms by (auto simp: record_outcome_def split: if_splits)
  obtain ks where ks: "terminal_kinds state = Inr ks" "map sf_kind facts = map (\<lambda>k. k) ks"
    using st(2) by (auto simp: terminal_facts_def dest!: collect_map [where g = sf_kind and h = "\<lambda>k. k"] fact_of_kind)
  obtain us_kinds where uk: "terminal_use_kinds state = Inr us_kinds" "map uf_kind ufacts = map (\<lambda>k. k) us_kinds"
    using st(5) by (auto simp: terminal_resource_facts_def dest!: collect_map [where g = uf_kind and h = "\<lambda>k. k"] resource_fact_kind)
  have 1: "db1 = db\<lparr>ds_facts := ds_facts db @ numbered i high facts\<rparr>" using insert_invocation_facts_rows [OF st(3)] .
  have 2: "db2 = db1\<lparr>ds_evidence := ds_evidence db1 @ [(e, i, rec)]\<rparr>" using st(4) by (auto simp: insert_skill_evidence_def split: if_splits)
  obtain hv ms ev claim key d use' where 3: "map_of (du_high (ds_use db2)) (ub_id (sq_use r)) = Some hv" "terminal_measurements cd r e digest started observed = Inr ms"
    "extend_use cd (ds_use db2) (ub_id (sq_use r)) hv ufacts ms ev claim key d now = Inr (use', us)" "db3 = db2\<lparr>ds_use := use'\<rparr>"
    using st(6) by (auto simp: commit_resource_terminal_def Let_def split: option.splits)
  have "started \<le> observed"
    using 3(2) by (auto simp: terminal_measurements_def terminal_measurement_def use_measurement_init_def Let_def split: if_splits)
  moreover note s = make_snapshot_value [OF st(7)]
  moreover have "db' = db3\<lparr>ds_projections := AList.update i s (ds_projections db3)\<rparr>" using st(8) by (auto simp: upsert_projection_def s split: if_splits)
  ultimately show ?thesis using that [of ks facts us_kinds ufacts hv ms ev claim key d use' us e rec] ks uk 3 by (simp add: 1 2 prior_kinds_def)
qed

lemma commit_terminal_cases:
  assumes "commit_terminal cd num hook db r state outp obs er started observed now = Inr (db', s)"
  obtains (final) i where "invocation_id cd r = Inr i" "db' = db" "map_of (ds_projections db) i = Some s" "ks_state s \<in> set TERMINAL_INVOCATIONS"
  | (recorded) i row p state' od er' where "invocation_id cd r = Inr i" "map_of (ds_invocations db) i = Some row" "map_of (ds_projections db) i = Some p"
      "py_equal num (iv_request row) (request_json r)" "ks_state p \<notin> set TERMINAL_INVOCATIONS" "settle cd num db r state outp er = Inr (state', od, er')"
      "record_outcome cd hook db i r row (ks_high p) state' od er' obs started observed now = Inr (db', s)"
proof -
  obtain i where i: "invocation_id cd r = Inr i" using assms by (auto simp: commit_terminal_def split: if_splits)
  then obtain row p where m: "map_of (ds_invocations db) i = Some row" "map_of (ds_projections db) i = Some p"
    using assms by (auto simp: commit_terminal_def split: if_splits option.splits)
  show ?thesis
  proof (cases "ks_state p \<in> set TERMINAL_INVOCATIONS")
    case True
    then show ?thesis using assms i m final by (auto simp: commit_terminal_def split: if_splits)
  next
    case False
    then show ?thesis using assms i m recorded by (auto simp: commit_terminal_def split: if_splits)
  qed
qed

lemma prepare_dispatch_cases:
  assumes "prepare_dispatch cd num db r inputs digest now = Inr (db', s, created)"
  obtains (replayed) i v where "\<not> created" "db' = db" "(i, v) \<in> set (ds_invocations db)" "iv_key v = sq_key r" "map_of (ds_projections db) i = Some s"
  | (dispatched) "created" "record_dispatch cd db r inputs digest now = Inr (db', s)"
proof (cases "find (\<lambda>(_, v). iv_key v = sq_key r) (ds_invocations db)")
  case None
  then show ?thesis using assms dispatched by (auto simp: prepare_dispatch_def split: if_splits)
next
  case (Some p)
  obtain i v where p: "p = (i, v)" by (cases p)
  then have v: "(i, v) \<in> set (ds_invocations db)" "iv_key v = sq_key r" using Some by (auto simp: find_Some_iff) (metis nth_mem)
  have "\<not> created \<and> db' = db \<and> map_of (ds_projections db) i = Some s"
    using assms Some p by (auto simp: prepare_dispatch_def projection_of_def split: if_splits option.splits)
  then show ?thesis using replayed [OF _ _ v] by blast
qed

subsection \<open>The invariant of the tables\<close>

text \<open>The lives an invocation may have, and the fact of the resource use that each of its facts has at its side.\<close>

definition LIVES :: "invocation_kind list list" where
  "LIVES = map (append [K_REQUESTED, K_DISPATCH_RECORDED]) [[], [K_ACCEPTED, K_RUNNING, K_SUCCEEDED], [K_FAILED], [K_CANCELLED], [K_OUTCOME_UNKNOWN]]"

definition use_kind :: "invocation_kind \<Rightarrow> use_fact_kind" where
  "use_kind k = (case k of K_REQUESTED \<Rightarrow> F_REQUESTED | K_DISPATCH_RECORDED \<Rightarrow> F_DISPATCH_RECORDED | K_ACCEPTED \<Rightarrow> F_ACCEPTED | K_RUNNING \<Rightarrow> F_RUNNING | K_SUCCEEDED \<Rightarrow> F_SUCCEEDED
     | K_FAILED \<Rightarrow> F_FAILED | K_CANCELLATION_REQUESTED \<Rightarrow> F_CANCELLATION_REQUESTED | K_CANCELLED \<Rightarrow> F_CANCELLATION_CONFIRMED | K_OUTCOME_UNKNOWN \<Rightarrow> F_OUTCOME_UNKNOWN)"

definition told_life :: "skill_db \<Rightarrow> string \<Rightarrow> skill_snapshot \<Rightarrow> bool" where
  "told_life db i s = (ks_id s = i \<and> map fst (skill_rows db i) = [1..ks_high s] \<and> ks_kinds s = map (\<lambda>p. sf_kind (snd p)) (skill_rows db i) \<and>
     ks_kinds s \<in> set LIVES \<and> ks_state s = FACT_STATE (last (ks_kinds s)))"

definition row_ok :: "skill_db \<Rightarrow> string \<Rightarrow> invocation_row \<Rightarrow> skill_snapshot \<Rightarrow> bool" where
  "row_ok db i v s = (told_life db i s \<and> map uf_kind (use_facts (ds_use db) (iv_use v)) = map use_kind (ks_kinds s) \<and>
     (\<exists>r. iv_request v = request_json r \<and> iv_use v = ub_id (sq_use r) \<and> iv_attempt v = sq_attempt r))"

definition skill_ok :: "skill_db \<Rightarrow> bool" where
  "skill_ok db = (history_ok (ds_use db) \<and> (\<forall>i. case map_of (ds_invocations db) i of None \<Rightarrow> map_of (ds_projections db) i = None \<and> skill_rows db i = []
     | Some v \<Rightarrow> (\<exists>s. map_of (ds_projections db) i = Some s \<and> row_ok db i v s)) \<and>
     (\<forall>i j v w. map_of (ds_invocations db) i = Some v \<longrightarrow> map_of (ds_invocations db) j = Some w \<longrightarrow> i \<noteq> j \<longrightarrow> iv_use v \<noteq> iv_use w))"

lemma skill_okD:
  assumes "skill_ok db" "map_of (ds_invocations db) i = Some v"
  obtains s where "map_of (ds_projections db) i = Some s" "row_ok db i v s"
proof -
  have "case map_of (ds_invocations db) i of None \<Rightarrow> map_of (ds_projections db) i = None \<and> skill_rows db i = []
     | Some v \<Rightarrow> (\<exists>s. map_of (ds_projections db) i = Some s \<and> row_ok db i v s)" using assms(1) unfolding skill_ok_def by blast
  then show ?thesis using that assms(2) by auto
qed

lemma skill_ok_None: "skill_ok db \<Longrightarrow> map_of (ds_invocations db) i = None \<Longrightarrow> map_of (ds_projections db) i = None \<and> skill_rows db i = []"
proof -
  assume "skill_ok db" "map_of (ds_invocations db) i = None"
  moreover from this have "case map_of (ds_invocations db) i of None \<Rightarrow> map_of (ds_projections db) i = None \<and> skill_rows db i = []
     | Some v \<Rightarrow> (\<exists>s. map_of (ds_projections db) i = Some s \<and> row_ok db i v s)" unfolding skill_ok_def by blast
  ultimately show ?thesis by simp
qed

lemma skill_okI:
  assumes "history_ok (ds_use db)" and "\<And>i. map_of (ds_invocations db) i = None \<Longrightarrow> map_of (ds_projections db) i = None \<and> skill_rows db i = []"
    and "\<And>i v. map_of (ds_invocations db) i = Some v \<Longrightarrow> \<exists>s. map_of (ds_projections db) i = Some s \<and> row_ok db i v s"
    and "\<And>i j v w. map_of (ds_invocations db) i = Some v \<Longrightarrow> map_of (ds_invocations db) j = Some w \<Longrightarrow> i \<noteq> j \<Longrightarrow> iv_use v \<noteq> iv_use w"
  shows "skill_ok db"
  unfolding skill_ok_def
proof (intro conjI allI impI)
  fix i show "case map_of (ds_invocations db) i of None \<Rightarrow> map_of (ds_projections db) i = None \<and> skill_rows db i = [] | Some v \<Rightarrow> (\<exists>s. map_of (ds_projections db) i = Some s \<and> row_ok db i v s)"
    using assms(2,3) [of i] by (cases "map_of (ds_invocations db) i") simp_all
qed (use assms(1,4) in blast)+

lemma row_ok_use: "row_ok db i v s \<Longrightarrow> use_facts (ds_use db) (iv_use v) \<noteq> []"
  by (auto simp: row_ok_def told_life_def LIVES_def)

lemma row_ok_transfer:
  assumes "row_ok db i v s" "skill_rows db' i = skill_rows db i" "use_facts (ds_use db') (iv_use v) = use_facts (ds_use db) (iv_use v)"
  shows "row_ok db' i v s"
  using assms(1) unfolding row_ok_def told_life_def assms(2,3) .

lemma claim_history: "insert_claim u b claim = Inr u' \<Longrightarrow> history_ok u \<Longrightarrow> history_ok u' \<and> use_facts u' = use_facts u"
  using history_tables [of u' u] by (auto simp: insert_claim_def use_facts_def)

lemma dispatch_keeps:
  assumes "skill_ok db" and "record_dispatch cd db r inputs digest now = Inr (db', s)"
  shows "skill_ok db'"
  using assms(2)
proof (rule record_dispatchE)
  fix i f1 f2 u1 u2 key d use1 us use2 claim row
  assume k: "sf_kind f1 = K_REQUESTED" "sf_kind f2 = K_DISPATCH_RECORDED" "uf_kind u1 = F_REQUESTED" "uf_kind u2 = F_DISPATCH_RECORDED"
    and o: "open_use cd (ds_use db) (sq_use r) [u1, u2] key d now = Inr (use1, us)" "insert_claim use1 (ub_id (sq_use r)) claim = Inr use2"
    and new: "map_of (ds_invocations db) i = None"
    and row: "row = \<lparr>iv_key = sq_key r, iv_payload = digest, iv_input = value_digest cd inputs, iv_attempt = sq_attempt r, iv_use = ub_id (sq_use r), iv_request = request_json r, iv_created = now\<rparr>"
    and db': "db' = db\<lparr>ds_use := use2, ds_invocations := AList.update i row (ds_invocations db), ds_facts := ds_facts db @ numbered i 0 [f1, f2], ds_projections := AList.update i s (ds_projections db)\<rparr>"
    and s: "ks_id s = i" "ks_state s = V_DISPATCH_RECORDED" "ks_high s = 2" "ks_kinds s = [K_REQUESTED, K_DISPATCH_RECORDED]"
  have h: "history_ok (ds_use db)" using assms(1) by (simp add: skill_ok_def)
  note oh = open_use_history [OF h o(1)]
  have use: "history_ok use2" "use_facts use2 (ub_id (sq_use r)) = [u1, u2]" "w \<noteq> ub_id (sq_use r) \<Longrightarrow> use_facts use2 w = use_facts (ds_use db) w" for w
    using claim_history [OF o(2) oh(1)] oh(2,3) by simp_all
  have fresh: "use_facts (ds_use db) (ub_id (sq_use r)) = []" using o(1) by (rule open_useE) (use history_okD(2) [OF h] in simp)
  have other: "iv_use v \<noteq> ub_id (sq_use r)" if "map_of (ds_invocations db) j = Some v" for j v
    using skill_okD [OF assms(1) that] row_ok_use fresh by metis
  have rows: "skill_rows db' j = skill_rows db j @ (if j = i then [(1, f1), (2, f2)] else [])" for j by (simp add: skill_rows_def db')
  have "skill_rows db' i = [(1, f1), (2, f2)]" using skill_ok_None [OF assms(1) new] by (simp add: rows)
  then have "told_life db' i s" using k s by (simp add: told_life_def LIVES_def FACT_STATE_def upto_rec1)
  moreover have "map uf_kind (use_facts (ds_use db') (iv_use row)) = map use_kind (ks_kinds s)" using use(2) k s by (simp add: db' row use_kind_def)
  ultimately have mine: "row_ok db' i row s" unfolding row_ok_def row by auto
  show ?thesis
  proof (rule skill_okI)
    show "history_ok (ds_use db')" using use(1) by (simp add: db')
    show "map_of (ds_projections db') j = None \<and> skill_rows db' j = []" if "map_of (ds_invocations db') j = None" for j
      using that skill_ok_None [OF assms(1), of j] by (auto simp: rows) (auto simp: db' split: if_splits)
    show "\<exists>t. map_of (ds_projections db') j = Some t \<and> row_ok db' j v t" if "map_of (ds_invocations db') j = Some v" for j v
    proof (cases "j = i")
      case True
      then show ?thesis using that mine by (auto simp: db')
    next
      case False
      then have j: "map_of (ds_invocations db) j = Some v" using that by (simp add: db')
      obtain t where t: "map_of (ds_projections db) j = Some t" "row_ok db j v t" using skill_okD [OF assms(1) j] .
      have "skill_rows db' j = skill_rows db j" "use_facts (ds_use db') (iv_use v) = use_facts (ds_use db) (iv_use v)"
        using False use(3) [OF other [OF j]] by (simp add: rows, simp add: db')
      then have "row_ok db' j v t" by (rule row_ok_transfer [OF t(2)])
      then show ?thesis using t(1) False by (simp add: db')
    qed
    show "iv_use v \<noteq> iv_use w" if m: "map_of (ds_invocations db') j = Some v" "map_of (ds_invocations db') l = Some w" "j \<noteq> l" for j l v w
    proof -
      have upd: "map_of (ds_invocations db') = (map_of (ds_invocations db))(i \<mapsto> row)" by (simp add: db')
      consider "j = i" "v = row" "map_of (ds_invocations db) l = Some w" | "l = i" "w = row" "map_of (ds_invocations db) j = Some v"
        | "map_of (ds_invocations db) j = Some v" "map_of (ds_invocations db) l = Some w"
        using m unfolding upd by (metis fun_upd_apply option.inject)
      then show ?thesis
      proof cases
        case 1
        then show ?thesis using other [OF 1(3)] by (simp add: row)
      next
        case 2
        then show ?thesis using other [OF 2(3)] by (simp add: row)
      next
        case 3
        then show ?thesis using assms(1) m(3) unfolding skill_ok_def by blast
      qed
    qed
  qed
qed

lemma py_equal_field: "py_equal num (JObj d) (JObj e) \<Longrightarrow> (k, v) \<in> set d \<Longrightarrow> map_of e k = Some w \<Longrightarrow> py_equal num v w"
  by (auto simp: list_all_iff)

lemma request_use: "py_equal num (request_json r) (request_json r') \<Longrightarrow> ub_id (sq_use r) = ub_id (sq_use r')"
proof -
  assume "py_equal num (request_json r) (request_json r')"
  then have "py_equal num (binding_json (sq_use r)) (binding_json (sq_use r'))"
    unfolding request_json_def by (rule py_equal_field [where k = "''resource_use''"]) simp_all
  then have "py_equal num (JStr (ub_id (sq_use r))) (JStr (ub_id (sq_use r')))"
    unfolding binding_json_def by (rule py_equal_field [where k = "''resource_use_id''"]) simp_all
  then show ?thesis by simp
qed

lemma request_attempt: "py_equal num (request_json r) (request_json r') \<Longrightarrow> sq_attempt r = sq_attempt r'"
proof -
  assume "py_equal num (request_json r) (request_json r')"
  then have "py_equal num (JStr (sq_attempt r)) (JStr (sq_attempt r'))"
    unfolding request_json_def by (rule py_equal_field [where k = "''attempt_id''"]) simp_all
  then show ?thesis by simp
qed

lemma terminal_kinds_life:
  assumes "terminal_kinds state = Inr ks" "terminal_use_kinds state = Inr us" "kinds \<in> set LIVES" "FACT_STATE (last kinds) \<notin> set TERMINAL_INVOCATIONS"
  shows "kinds @ ks \<in> set LIVES" "FACT_STATE (last (kinds @ ks)) = state" "us = map use_kind ks"
proof -
  have "kinds = [K_REQUESTED, K_DISPATCH_RECORDED]" using assms(3,4) by (auto simp: LIVES_def FACT_STATE_def TERMINAL_INVOCATIONS_def)
  then show "kinds @ ks \<in> set LIVES" "FACT_STATE (last (kinds @ ks)) = state" "us = map use_kind ks"
    using assms(1,2) by (cases state; auto simp: terminal_kinds_def terminal_use_kinds_def LIVES_def FACT_STATE_def use_kind_def)+
qed

lemma outcome_keeps:
  assumes ok: "skill_ok db" and row: "map_of (ds_invocations db) i = Some row" and p: "map_of (ds_projections db) i = Some p" "ks_state p \<notin> set TERMINAL_INVOCATIONS"
    and eq: "py_equal num (iv_request row) (request_json r)"
    and out: "record_outcome cd hook db i r row (ks_high p) state od er obs started observed now = Inr (db', s)"
  shows "skill_ok db'"
  using out
proof (rule record_outcomeE)
  fix e rec facts ufacts hv ms ev claim key d use' us ks us_kinds
  assume k: "terminal_kinds state = Inr ks" "map sf_kind facts = ks" "terminal_use_kinds state = Inr us_kinds" "map uf_kind ufacts = us_kinds"
    and x: "map_of (du_high (ds_use db)) (ub_id (sq_use r)) = Some hv" "extend_use cd (ds_use db) (ub_id (sq_use r)) hv ufacts ms ev claim key d now = Inr (use', us)"
    and db': "db' = db\<lparr>ds_use := use', ds_facts := ds_facts db @ numbered i (ks_high p) facts, ds_evidence := ds_evidence db @ [(e, i, rec)], ds_projections := AList.update i s (ds_projections db)\<rparr>"
    and s: "ks_id s = i" "ks_state s = state" "ks_high s = ks_high p + int (length facts)" "ks_kinds s = prior_kinds db' i"
  have h: "history_ok (ds_use db)" using ok by (simp add: skill_ok_def)
  have rp: "row_ok db i row p" using skill_okD [OF ok row] p(1) by auto
  then obtain r0 where r0: "iv_request row = request_json r0" "iv_use row = ub_id (sq_use r0)" "iv_attempt row = sq_attempt r0" by (auto simp: row_ok_def)
  then have u: "ub_id (sq_use r) = iv_use row" using request_use [of num r0 r] eq by simp
  obtain hi v where hv: "hv = (hi, v)" by (cases hv)
  note xh = extend_use_history [OF h x(1) [unfolded hv] x(2) [unfolded hv], unfolded u]
  have rows: "skill_rows db' j = skill_rows db j @ (if j = i then map snd (numbered i (ks_high p) facts) else [])" for j by (simp add: skill_rows_def db')
  have life: "told_life db i p" "map uf_kind (use_facts (ds_use db) (iv_use row)) = map use_kind (ks_kinds p)" using rp by (auto simp: row_ok_def)
  have hp: "0 \<le> ks_high p" using life(1) by (auto simp: told_life_def LIVES_def intro: ccontr)
  have ord: "map fst (skill_rows db' i) = [1..ks_high s]"
    using life(1) hp numbered_ordinals [of i "ks_high p" facts] by (simp add: told_life_def rows s(3) upto_join comp_def)
  have kinds: "ks_kinds s = ks_kinds p @ ks"
    using life(1) k(2) numbered_values [of sf_kind i "ks_high p" facts] unfolding s(4) prior_kinds_rows [OF ord] by (simp add: told_life_def rows comp_def)
  note tk = terminal_kinds_life [OF k(1,3), of "ks_kinds p"]
  have lp: "ks_kinds p \<in> set LIVES" "FACT_STATE (last (ks_kinds p)) \<notin> set TERMINAL_INVOCATIONS" using life(1) p(2) by (auto simp: told_life_def)
  have "told_life db' i s" using ord s(1,2) tk(1,2) [OF lp] prior_kinds_rows [OF ord] s(4) by (simp add: told_life_def kinds [symmetric])
  moreover have "map uf_kind (use_facts (ds_use db') (iv_use row)) = map use_kind (ks_kinds s)"
    using xh(2) life(2) k(4) tk(3) [OF lp] by (simp add: db' kinds)
  ultimately have mine: "row_ok db' i row s" using r0 by (auto simp: row_ok_def)
  have inv: "ds_invocations db' = ds_invocations db" by (simp add: db')
  show ?thesis
  proof (rule skill_okI)
    show "history_ok (ds_use db')" using xh(1) by (simp add: db')
    show "map_of (ds_projections db') j = None \<and> skill_rows db' j = []" if "map_of (ds_invocations db') j = None" for j
      using that skill_ok_None [OF ok, of j] row by (auto simp: rows inv) (auto simp: db' split: if_splits)
    show "\<exists>t. map_of (ds_projections db') j = Some t \<and> row_ok db' j v t" if j: "map_of (ds_invocations db') j = Some v" for j v
    proof (cases "j = i")
      case True
      then show ?thesis using j mine row by (auto simp: inv) (simp add: db')
    next
      case False
      obtain t where t: "map_of (ds_projections db) j = Some t" "row_ok db j v t" using skill_okD [OF ok] j by (metis inv)
      have "iv_use v \<noteq> iv_use row" using ok j row False by (auto simp: skill_ok_def inv)
      then have "skill_rows db' j = skill_rows db j" "use_facts (ds_use db') (iv_use v) = use_facts (ds_use db) (iv_use v)"
        using False xh(3) by (simp add: rows, simp add: db')
      then have "row_ok db' j v t" by (rule row_ok_transfer [OF t(2)])
      then show ?thesis using t(1) False by (simp add: db')
    qed
    show "iv_use v \<noteq> iv_use w" if "map_of (ds_invocations db') j = Some v" "map_of (ds_invocations db') l = Some w" "j \<noteq> l" for j l v w
      using that ok unfolding inv skill_ok_def by blast
  qed
qed

lemma prepare_keeps: "skill_ok db \<Longrightarrow> prepare_dispatch cd num db r inputs digest now = Inr (db', s, created) \<Longrightarrow> skill_ok db'"
  by (erule prepare_dispatch_cases) (auto intro: dispatch_keeps)

lemma commit_terminal_keeps:
  assumes "skill_ok db" "commit_terminal cd num hook db r state outp obs er started observed now = Inr (db', s)"
  shows "skill_ok db'"
  using assms(2)
proof (cases rule: commit_terminal_cases)
  case (recorded i row p state' od er')
  show ?thesis by (rule outcome_keeps [OF assms(1) recorded(2,3,5,4,7)])
qed (use assms in simp)

subsection \<open>Calls, crashes and recoveries\<close>

datatype skill_call = Dispatched skill_request json int | Answered skill_request int skill_outcome

record skill_system =
  ss_db :: skill_db
  ss_calls :: "skill_call list"
  ss_log :: "skill_request list"

definition tx_db :: "skill_db \<Rightarrow> 'a skill_tx \<Rightarrow> skill_db" where
  "tx_db db m = (case m of Inl _ \<Rightarrow> db | Inr (db', _) \<Rightarrow> db')"

text \<open>
  The log has the requests that an executor was called for, in order. An executor may answer anything. A call may be lost at any moment. Other parts of the platform change the tables that
  the repository reads and take their own steps on resource uses, which do not touch the uses of Skill invocations.
\<close>

inductive skill_step :: "skill_env \<Rightarrow> skill_system \<Rightarrow> skill_system \<Rightarrow> bool" for env where
  begun: "invoke_begin env (ss_db sys) r inputs now = Inr (db', s, created, x) \<Longrightarrow>
     skill_step env sys (sys\<lparr>ss_db := db', ss_calls := ss_calls sys @ (if created then [Dispatched r inputs now] else [])\<rparr>)"
| executed: "ss_calls sys = xs @ Dispatched r inputs now # ys \<Longrightarrow>
     skill_step env sys (sys\<lparr>ss_calls := xs @ Answered r now out # ys, ss_log := ss_log sys @ [r]\<rparr>)"
| finished: "ss_calls sys = xs @ Answered r started out # ys \<Longrightarrow>
     skill_step env sys (sys\<lparr>ss_db := tx_db (ss_db sys) (invoke_finish env (ss_db sys) r out started observed now), ss_calls := xs @ ys\<rparr>)"
| crashed: "ss_calls sys = xs @ c # ys \<Longrightarrow> skill_step env sys (sys\<lparr>ss_calls := xs @ ys\<rparr>)"
| recovered: "recover env (ss_db sys) r inputs started observed now = (db', res) \<Longrightarrow> skill_step env sys (sys\<lparr>ss_db := db'\<rparr>)"
| elsewhere: "(use_step (sv_codec env))\<^sup>*\<^sup>* (ds_use (ss_db sys)) u' \<Longrightarrow> (\<And>i v. map_of (ds_invocations (ss_db sys)) i = Some v \<Longrightarrow> use_facts u' (iv_use v) = use_facts (ds_use (ss_db sys)) (iv_use v)) \<Longrightarrow>
     skill_step env sys (sys\<lparr>ss_db := (ss_db sys)\<lparr>ds_use := u', ds_lineage := l, ds_skills := k, ds_employees := e\<rparr>\<rparr>)"

inductive skill_reachable :: "skill_env \<Rightarrow> skill_system \<Rightarrow> bool" for env where
  fresh: "use_reachable (sv_codec env) (ds_use db) \<Longrightarrow> ds_invocations db = [] \<Longrightarrow> ds_facts db = [] \<Longrightarrow> ds_projections db = [] \<Longrightarrow> skill_reachable env \<lparr>ss_db = db, ss_calls = [], ss_log = []\<rparr>"
| stepped: "skill_reachable env sys \<Longrightarrow> skill_step env sys sys' \<Longrightarrow> skill_reachable env sys'"

lemma invoke_beginD: "invoke_begin env db r inputs now = Inr (db', s, created, x) \<Longrightarrow> \<exists>digest. prepare_dispatch (sv_codec env) (sv_numbers env) db r inputs digest now = Inr (db', s, created)"
  by (auto simp: invoke_begin_def split: if_splits)

lemma finish_db:
  obtains "tx_db db (invoke_finish env db r out started observed now) = db"
  | state outp obs er db' s where "tx_db db (invoke_finish env db r out started observed now) = db'"
      "commit_terminal (sv_codec env) (sv_numbers env) (sv_hook env) db r state outp obs er started observed now = Inr (db', s)"
  by (cases "invoke_finish env db r out started observed now") (auto simp: tx_db_def invoke_finish_def)

lemma recover_db:
  assumes "recover env db r inputs started observed now = (db', res)"
  obtains "db' = db"
  | s digest where "prepare_dispatch (sv_codec env) (sv_numbers env) db r inputs digest started = Inr (db', s, True)" "res = Inl ''SKILL_RECOVERY_REQUIRES_DURABLE_DISPATCH''"
  | state outp obs er s where "commit_terminal (sv_codec env) (sv_numbers env) (sv_hook env) db r state outp obs er started observed now = Inr (db', s)"
proof (cases "rbind (govern env r) (\<lambda>_. prepare_dispatch (sv_codec env) (sv_numbers env) db r inputs (skill_payload_digest (sv_codec env) r inputs) started)")
  case (Inl e)
  then show ?thesis using assms that(1) by (simp add: recover_def)
next
  case (Inr p)
  obtain db1 s created where p: "p = (db1, s, created)" by (cases p)
  have pd: "prepare_dispatch (sv_codec env) (sv_numbers env) db r inputs (skill_payload_digest (sv_codec env) r inputs) started = Inr (db1, s, created)" using Inr p by auto
  show ?thesis
  proof (cases created)
    case True
    then show ?thesis using assms Inr p pd that(2) by (simp add: recover_def)
  next
    case False
    then have "db1 = db" using pd by (auto elim: prepare_dispatch_cases)
    then show ?thesis using assms Inr p False that(1,3)
      by (auto simp: recover_def split: if_splits sum.splits)
  qed
qed

subsection \<open>Invariants of the system\<close>

definition attempts :: "skill_db \<Rightarrow> string set" where
  "attempts db = {iv_attempt v |i v. map_of (ds_invocations db) i = Some v}"

definition dispatched :: "skill_call list \<Rightarrow> skill_request list" where
  "dispatched cs = concat (map (\<lambda>c. case c of Dispatched r _ _ \<Rightarrow> [r] | Answered _ _ _ \<Rightarrow> []) cs)"

definition handled :: "skill_system \<Rightarrow> string list" where
  "handled sys = map sq_attempt (ss_log sys @ dispatched (ss_calls sys))"

definition sys_ok :: "skill_system \<Rightarrow> bool" where
  "sys_ok sys = (skill_ok (ss_db sys) \<and> distinct (handled sys) \<and> set (handled sys) \<subseteq> attempts (ss_db sys))"

lemma record_dispatch_attempts:
  assumes "record_dispatch cd db r inputs digest now = Inr (db', s)"
  shows "sq_attempt r \<notin> attempts db \<and> attempts db' = insert (sq_attempt r) (attempts db)"
  using assms
proof (rule record_dispatchE)
  fix i row use2 f1 f2
  assume d: "map_of (ds_invocations db) i = None" "list_all (\<lambda>(_, v). iv_key v \<noteq> sq_key r \<and> iv_attempt v \<noteq> sq_attempt r) (ds_invocations db)"
    "row = \<lparr>iv_key = sq_key r, iv_payload = digest, iv_input = value_digest cd inputs, iv_attempt = sq_attempt r, iv_use = ub_id (sq_use r), iv_request = request_json r, iv_created = now\<rparr>"
    "db' = db\<lparr>ds_use := use2, ds_invocations := AList.update i row (ds_invocations db), ds_facts := ds_facts db @ numbered i 0 [f1, f2], ds_projections := AList.update i s (ds_projections db)\<rparr>"
  have upd: "map_of (ds_invocations db') = (map_of (ds_invocations db))(i \<mapsto> row)" by (simp add: d(4))
  have no: "iv_attempt v \<noteq> sq_attempt r" if "map_of (ds_invocations db) j = Some v" for j v using d(2) map_of_SomeD [OF that] by (auto simp: list_all_iff)
  have "sq_attempt r \<notin> attempts db" unfolding attempts_def mem_Collect_eq using no by metis
  moreover have "iv_attempt row = sq_attempt r" by (simp add: d(3))
  then have "attempts db' = insert (sq_attempt r) (attempts db)"
    unfolding attempts_def upd using d(1) by (auto split: if_splits) (metis option.distinct(1))
  ultimately show ?thesis by simp
qed

lemma prepare_attempts:
  assumes "prepare_dispatch cd num db r inputs digest now = Inr (db', s, created)"
  shows "if created then sq_attempt r \<notin> attempts db \<and> attempts db' = insert (sq_attempt r) (attempts db) else db' = db"
  using assms by (cases rule: prepare_dispatch_cases) (simp_all add: record_dispatch_attempts)

lemma commit_attempts:
  assumes "commit_terminal cd num hook db r state outp obs er started observed now = Inr (db', s)"
  shows "attempts db' = attempts db"
  using assms
proof (cases rule: commit_terminal_cases)
  case (recorded i row p state' od er')
  from recorded(7) have "ds_invocations db' = ds_invocations db" by (rule record_outcomeE) simp
  then show ?thesis by (simp add: attempts_def)
qed simp

lemma dispatched_append [simp]: "dispatched (xs @ ys) = dispatched xs @ dispatched ys" "dispatched [] = []"
  "dispatched (Dispatched r inputs t # ys) = r # dispatched ys" "dispatched (Answered r t out # ys) = dispatched ys"
  by (simp_all add: dispatched_def)

lemma use_run_history: "(use_step cd)\<^sup>*\<^sup>* u u' \<Longrightarrow> history_ok u \<Longrightarrow> history_ok u'"
  by (induction rule: rtranclp_induct) (auto intro: step_keeps_history)

lemma elsewhere_keeps:
  assumes "skill_ok db" "(use_step cd)\<^sup>*\<^sup>* (ds_use db) u'" "\<And>i v. map_of (ds_invocations db) i = Some v \<Longrightarrow> use_facts u' (iv_use v) = use_facts (ds_use db) (iv_use v)"
  shows "skill_ok (db\<lparr>ds_use := u', ds_lineage := l, ds_skills := k, ds_employees := e\<rparr>)" (is "skill_ok ?db")
proof (rule skill_okI)
  have same: "ds_invocations ?db = ds_invocations db" "ds_projections ?db = ds_projections db" "skill_rows ?db = skill_rows db" by (simp_all add: skill_rows_def [abs_def])
  show "history_ok (ds_use ?db)" using use_run_history [OF assms(2)] assms(1) by (simp add: skill_ok_def)
  show "map_of (ds_projections ?db) i = None \<and> skill_rows ?db i = []" if "map_of (ds_invocations ?db) i = None" for i
    using skill_ok_None [OF assms(1)] that unfolding same .
  show "\<exists>s. map_of (ds_projections ?db) i = Some s \<and> row_ok ?db i v s" if j: "map_of (ds_invocations ?db) i = Some v" for i v
  proof -
    obtain s where s: "map_of (ds_projections db) i = Some s" "row_ok db i v s" using skill_okD [OF assms(1) j [unfolded same]] .
    have "row_ok ?db i v s" by (rule row_ok_transfer [OF s(2)]) (use assms(3) [OF j [unfolded same]] in \<open>simp_all add: same(3)\<close>)
    then show ?thesis using s(1) by (auto simp: same)
  qed
  show "iv_use v \<noteq> iv_use w" if "map_of (ds_invocations ?db) i = Some v" "map_of (ds_invocations ?db) j = Some w" "i \<noteq> j" for i j v w
    using that assms(1) unfolding same skill_ok_def by blast
qed

text \<open>What each step does to the tables and to the attempts that were handled.\<close>

lemma skill_step_effect:
  assumes "skill_step env sys sys'" "skill_ok (ss_db sys)"
  obtains (quiet) "skill_ok (ss_db sys')" "attempts (ss_db sys') = attempts (ss_db sys)" "mset (handled sys') \<subseteq># mset (handled sys)"
  | (new) a where "skill_ok (ss_db sys')" "a \<notin> attempts (ss_db sys)" "attempts (ss_db sys') = insert a (attempts (ss_db sys))" "handled sys' = handled sys \<or> mset (handled sys') = mset (handled sys) + {#a#}"
  using assms(1)
proof cases
  case (begun r inputs now db' s created x)
  obtain digest where p: "prepare_dispatch (sv_codec env) (sv_numbers env) (ss_db sys) r inputs digest now = Inr (db', s, created)" using invoke_beginD [OF begun(2)] by blast
  have ok: "skill_ok db'" by (rule prepare_keeps [OF assms(2) p])
  show ?thesis
  proof (cases created)
    case True
    then show ?thesis using new [of "sq_attempt r"] ok prepare_attempts [OF p] begun(1) by (simp add: handled_def)
  next
    case False
    then show ?thesis using quiet ok prepare_attempts [OF p] begun(1) by (simp add: handled_def)
  qed
next
  case (executed xs r inputs now ys out)
  then show ?thesis using quiet assms(2) by (simp add: handled_def)
next
  case (finished xs r started out ys observed now)
  have h: "mset (handled sys') \<subseteq># mset (handled sys)" using finished by (simp add: handled_def)
  show ?thesis
  proof (rule finish_db [of "ss_db sys" env r out started observed now])
    assume "tx_db (ss_db sys) (invoke_finish env (ss_db sys) r out started observed now) = ss_db sys"
    then show ?thesis using quiet h assms(2) finished(1) by simp
  next
    fix state outp obs er db' s
    assume c: "tx_db (ss_db sys) (invoke_finish env (ss_db sys) r out started observed now) = db'"
      "commit_terminal (sv_codec env) (sv_numbers env) (sv_hook env) (ss_db sys) r state outp obs er started observed now = Inr (db', s)"
    then show ?thesis using quiet h commit_terminal_keeps [OF assms(2) c(2)] commit_attempts [OF c(2)] finished(1) by simp
  qed
next
  case (crashed xs c ys)
  then show ?thesis using quiet assms(2) by (cases c) (simp_all add: handled_def)
next
  case (recovered r inputs started observed now db' res)
  from recovered(2) show ?thesis
  proof (rule recover_db)
    assume "db' = ss_db sys"
    then show ?thesis using quiet assms(2) recovered(1) by simp
  next
    fix s digest assume p: "prepare_dispatch (sv_codec env) (sv_numbers env) (ss_db sys) r inputs digest started = Inr (db', s, True)"
    then show ?thesis using new [of "sq_attempt r"] prepare_keeps [OF assms(2) p] prepare_attempts [OF p] recovered(1) by (simp add: handled_def)
  next
    fix state outp obs er s assume c: "commit_terminal (sv_codec env) (sv_numbers env) (sv_hook env) (ss_db sys) r state outp obs er started observed now = Inr (db', s)"
    then show ?thesis using quiet commit_terminal_keeps [OF assms(2) c] commit_attempts [OF c] recovered(1) by (simp add: handled_def)
  qed
next
  case elsewhere
  have "skill_ok (ss_db sys')" using elsewhere_keeps [OF assms(2) elsewhere(2,3)] elsewhere(1) by simp
  then show ?thesis using quiet elsewhere(1) by (simp add: handled_def attempts_def)
qed

lemma submset_distinct: "mset xs \<subseteq># mset ys \<Longrightarrow> distinct ys \<Longrightarrow> distinct xs"
proof -
  assume a: "mset xs \<subseteq># mset ys" "distinct ys"
  obtain zs where "mset zs = mset ys - mset xs" using ex_mset by blast
  then have "mset ys = mset (xs @ zs)" using a(1) by simp
  then show ?thesis using a(2) mset_eq_imp_distinct_iff [of ys "xs @ zs"] by simp
qed

lemma step_keeps_system: "skill_step env sys sys' \<Longrightarrow> sys_ok sys \<Longrightarrow> sys_ok sys'"
proof -
  assume st: "skill_step env sys sys'" and ok: "sys_ok sys"
  have ok': "skill_ok (ss_db sys)" "distinct (handled sys)" "set (handled sys) \<subseteq> attempts (ss_db sys)" using ok by (simp_all add: sys_ok_def)
  from st ok'(1) show "sys_ok sys'"
  proof (cases rule: skill_step_effect)
    case quiet
    then have "distinct (handled sys')" "set (handled sys') \<subseteq> set (handled sys)"
      using submset_distinct [OF quiet(3) ok'(2)] set_mset_mono [OF quiet(3)] by simp_all
    then show ?thesis using ok'(3) quiet(1,2) by (auto simp: sys_ok_def)
  next
    case (new a)
    have "a \<notin> set (handled sys)" using new(2) ok'(3) by blast
    then have "distinct (handled sys') \<and> set (handled sys') \<subseteq> insert a (set (handled sys))"
      using new(4) ok'(2) mset_eq_imp_distinct_iff [of "handled sys'" "a # handled sys"] mset_eq_setD [of "handled sys'" "a # handled sys"] by auto
    then show ?thesis using ok'(3) new(1,3) by (auto simp: sys_ok_def)
  qed
qed

lemma reachable_system: "skill_reachable env sys \<Longrightarrow> sys_ok sys"
proof (induction rule: skill_reachable.induct)
  case (fresh db)
  have "skill_ok db" using reachable_history [OF fresh(1)] by (intro skill_okI) (simp_all add: fresh(2-4) skill_rows_def)
  then show ?case by (simp add: sys_ok_def handled_def)
qed (rule step_keeps_system)

lemma run_keeps_system: "(skill_step env)\<^sup>*\<^sup>* sys sys' \<Longrightarrow> sys_ok sys \<Longrightarrow> sys_ok sys'"
  by (induction rule: rtranclp_induct) (auto intro: step_keeps_system)

text \<open>An attempt that is recorded without a call for it stays so.\<close>

definition idle :: "skill_system \<Rightarrow> string \<Rightarrow> bool" where
  "idle sys a = (a \<in> attempts (ss_db sys) \<and> a \<notin> set (handled sys))"

lemma step_keeps_idle: "skill_step env sys sys' \<Longrightarrow> sys_ok sys \<Longrightarrow> idle sys a \<Longrightarrow> idle sys' a"
proof -
  assume st: "skill_step env sys sys'" and ok: "sys_ok sys" and i: "idle sys a"
  have "skill_ok (ss_db sys)" using ok by (simp add: sys_ok_def)
  with st show "idle sys' a"
  proof (cases rule: skill_step_effect)
    case quiet
    then show ?thesis using i set_mset_mono [OF quiet(3)] by (auto simp: idle_def)
  next
    case (new b)
    then have "set (handled sys') \<subseteq> insert b (set (handled sys))" using mset_eq_setD [of "handled sys'" "b # handled sys"] by auto
    then show ?thesis using i new(2,3) by (auto simp: idle_def)
  qed
qed

lemma run_keeps_idle: "(skill_step env)\<^sup>*\<^sup>* sys sys' \<Longrightarrow> sys_ok sys \<Longrightarrow> idle sys a \<Longrightarrow> idle sys' a"
proof (induction rule: rtranclp_induct)
  case (step y z)
  then show ?case using run_keeps_system [OF step(1)] step_keeps_idle by blast
qed simp

text \<open>A terminal projection is not written again.\<close>

definition concluded :: "skill_db \<Rightarrow> string \<Rightarrow> skill_snapshot \<Rightarrow> bool" where
  "concluded db i s = (map_of (ds_projections db) i = Some s \<and> ks_state s \<in> set TERMINAL_INVOCATIONS)"

lemma prepare_concluded:
  assumes "skill_ok db" "concluded db i s" "prepare_dispatch cd num db r inputs digest now = Inr (db', t, created)"
  shows "concluded db' i s"
  using assms(3)
proof (cases rule: prepare_dispatch_cases)
  case dispatched
  from dispatched(2) show ?thesis
  proof (rule record_dispatchE)
    fix j row use2 f1 f2
    assume j: "map_of (ds_invocations db) j = None"
      and d: "db' = db\<lparr>ds_use := use2, ds_invocations := AList.update j row (ds_invocations db), ds_facts := ds_facts db @ numbered j 0 [f1, f2], ds_projections := AList.update j t (ds_projections db)\<rparr>"
    have "i \<noteq> j" using skill_ok_None [OF assms(1) j] assms(2) by (auto simp: concluded_def)
    then show ?thesis using assms(2) by (simp add: concluded_def d)
  qed
qed (use assms in simp)

lemma commit_concluded:
  assumes "concluded db i s" "commit_terminal cd num hook db r state outp obs er started observed now = Inr (db', t)"
  shows "concluded db' i s"
  using assms(2)
proof (cases rule: commit_terminal_cases)
  case (recorded j row p state' od er')
  have "i \<noteq> j" using assms(1) recorded(3,5) by (auto simp: concluded_def)
  from recorded(7) show ?thesis
  proof (rule record_outcomeE)
    fix use' facts e rec
    assume "db' = db\<lparr>ds_use := use', ds_facts := ds_facts db @ numbered j (ks_high p) facts, ds_evidence := ds_evidence db @ [(e, j, rec)], ds_projections := AList.update j t (ds_projections db)\<rparr>"
    then show ?thesis using assms(1) \<open>i \<noteq> j\<close> by (simp add: concluded_def)
  qed
qed (use assms in simp)

lemma step_concluded:
  assumes "skill_step env sys sys'" "skill_ok (ss_db sys)" "concluded (ss_db sys) i s"
  shows "concluded (ss_db sys') i s"
  using assms(1)
proof cases
  case (begun r inputs now db' t created x)
  then show ?thesis using prepare_concluded [OF assms(2,3)] by (auto dest!: invoke_beginD)
next
  case (finished xs r started out ys observed now)
  show ?thesis
    by (rule finish_db [of "ss_db sys" env r out started observed now]) (use finished(1) assms(3) commit_concluded in auto)
next
  case (recovered r inputs started observed now db' res)
  from recovered(2) show ?thesis
    by (rule recover_db) (use recovered(1) assms(3) commit_concluded prepare_concluded [OF assms(2,3)] in auto)
qed (use assms(3) in \<open>simp_all add: concluded_def\<close>)

lemma run_concluded: "(skill_step env)\<^sup>*\<^sup>* sys sys' \<Longrightarrow> sys_ok sys \<Longrightarrow> concluded (ss_db sys) i s \<Longrightarrow> concluded (ss_db sys') i s"
proof (induction rule: rtranclp_induct)
  case (step y z)
  then show ?case using run_keeps_system [OF step(1)] step_concluded [OF step(2)] by (simp add: sys_ok_def)
qed simp

subsection \<open>Properties\<close>

text \<open>The service as a run of the system: a whole call is some of its steps.\<close>

lemma invoke_skill_run:
  assumes "invoke_skill env db r inputs started observed now = (db', res)"
  shows "\<exists>lg'. (skill_step env)\<^sup>*\<^sup>* \<lparr>ss_db = db, ss_calls = cs, ss_log = lg\<rparr> \<lparr>ss_db = db', ss_calls = cs, ss_log = lg'\<rparr>"
proof (cases "invoke_begin env db r inputs started")
  case (Inl e)
  then show ?thesis using assms by (auto simp: invoke_skill_def)
next
  case (Inr p)
  obtain db1 s created x where p: "p = (db1, s, created, x)" by (cases p)
  let ?sys = "\<lambda>db cs lg. \<lparr>ss_db = db, ss_calls = cs, ss_log = lg\<rparr>"
  have b: "skill_step env (?sys db cs lg) (?sys db1 (cs @ (if created then [Dispatched r inputs started] else [])) lg)"
    using skill_step.begun [of env "?sys db cs lg" r inputs started db1 s created x] Inr p by simp
  show ?thesis
  proof (cases created)
    case False
    then have "db' = db1" using assms Inr p by (simp add: invoke_skill_def)
    then show ?thesis using b False by auto
  next
    case True
    have b': "skill_step env (?sys db cs lg) (?sys db1 (cs @ [Dispatched r inputs started]) lg)" using b True by simp
    have drop: "skill_step env (?sys db1 (cs @ [Dispatched r inputs started]) lg) (?sys db1 cs lg)"
      using skill_step.crashed [of "?sys db1 (cs @ [Dispatched r inputs started]) lg" cs "Dispatched r inputs started" "[]"] by simp
    have run: "skill_step env (?sys db1 (cs @ [Dispatched r inputs started]) lg) (?sys db1 (cs @ [Answered r started out]) (lg @ [r]))" for out
      using skill_step.executed [of "?sys db1 (cs @ [Dispatched r inputs started]) lg" cs r inputs started "[]" env out] by simp
    have fin: "skill_step env (?sys db1 (cs @ [Answered r started out]) (lg @ [r])) (?sys (tx_db db1 (invoke_finish env db1 r out started observed now)) cs (lg @ [r]))" for out
      using skill_step.finished [of "?sys db1 (cs @ [Answered r started out]) (lg @ [r])" cs r started out "[]" env observed now] by simp
    consider "db' = db1" | out where "db' = tx_db db1 (invoke_finish env db1 r out started observed now)"
    proof (cases "invocation_id (sv_codec env) r")
      case (Inr i)
      let ?out = "x i (sq_operation r) inputs (sl_timeout (sq_limits r))"
      have "db' = tx_db db1 (invoke_finish env db1 r ?out started observed now)"
        using assms \<open>invoke_begin env db r inputs started = Inr p\<close> p True Inr by (auto simp: invoke_skill_def tx_db_def split: sum.splits)
      then show ?thesis by (rule that(2))
    qed (use assms Inr p True that(1) in \<open>simp add: invoke_skill_def\<close>)
    then show ?thesis
    proof cases
      case 1
      then show ?thesis using b' drop by (metis r_into_rtranclp rtranclp_trans)
    next
      case (2 out)
      then show ?thesis using b' run [of out] fin [of out] by (metis r_into_rtranclp rtranclp_trans)
    qed
  qed
qed

text \<open>
  C6: Over all interleavings of calls of the service, crashes, recoveries and changes of other authorities, a Skill is executed at most once for an attempt, and only after the dispatch of the attempt is
  durable.
\<close>
theorem skill_executed_at_most_once:
  assumes "skill_reachable env sys"
  shows "distinct (map sq_attempt (ss_log sys)) \<and> sq_attempt ` set (ss_log sys) \<subseteq> attempts (ss_db sys)"
  using reachable_system [OF assms] by (auto simp: sys_ok_def handled_def)

definition use_state_of :: "invocation_state \<Rightarrow> use_state" where
  "use_state_of st = (case st of V_REQUESTED \<Rightarrow> U_REQUESTED | V_DISPATCH_RECORDED \<Rightarrow> U_DISPATCH_RECORDED | V_ACCEPTED \<Rightarrow> U_ACCEPTED | V_RUNNING \<Rightarrow> U_RUNNING | V_SUCCEEDED \<Rightarrow> U_SUCCEEDED
     | V_FAILED \<Rightarrow> U_FAILED | V_CANCELLATION_REQUESTED \<Rightarrow> U_CANCELLATION_REQUESTED | V_CANCELLED \<Rightarrow> U_CANCELLATION_CONFIRMED | V_OUTCOME_UNKNOWN \<Rightarrow> U_OUTCOME_UNKNOWN)"

lemma fact_states_kinds: "fact_states fs = List.map_filter STATE_FACTS (map uf_kind fs)"
  by (induction fs) (auto simp: fact_states_def map_filter_simps split: option.splits)

lemma life_state:
  assumes "map uf_kind fs = map use_kind ks" "ks \<in> set LIVES" "consistent_sources fs"
  shows "history_state fs = use_state_of (FACT_STATE (last ks))"
proof -
  have st: "fact_states fs = List.map_filter STATE_FACTS (map use_kind ks)" by (simp add: fact_states_kinds assms(1))
  have "successively follows (fact_states fs) \<and> last (fact_states fs) = use_state_of (FACT_STATE (last ks))"
    using assms(2) by (auto simp: st LIVES_def use_kind_def STATE_FACTS_def map_filter_simps follows_def TERMINAL_USES_def regressed_def STATE_RANK_def FACT_STATE_def use_state_of_def)
  then show ?thesis using assms(3) follows_legal [of "fact_states fs"] by (simp add: history_state_def history_conflicts_Nil)
qed

text \<open>
  C20: The projection of an invocation tells its stored facts: they are one of the five lives of an invocation, the high water is their number, and the state is that of the last one. The resource use of the invocation
  agrees with it: its latest snapshot covers as many facts and its effective state is the one of the invocation.
\<close>
theorem invocation_and_use_agree:
  assumes "skill_reachable env sys" and "map_of (ds_invocations (ss_db sys)) i = Some v"
  shows "\<exists>s us. map_of (ds_projections (ss_db sys)) i = Some s \<and> ks_kinds s = prior_kinds (ss_db sys) i \<and> ks_kinds s \<in> set LIVES \<and> ks_high s = int (length (ks_kinds s)) \<and>
    ks_state s = FACT_STATE (last (ks_kinds s)) \<and> latest_snapshot (ds_use (ss_db sys)) (iv_use v) = Some us \<and> sn_high us = ks_high s \<and> sn_state us = use_state_of (ks_state s)"
proof -
  let ?u = "ds_use (ss_db sys)"
  have ok: "skill_ok (ss_db sys)" using reachable_system [OF assms(1)] by (simp add: sys_ok_def)
  then have h: "history_ok ?u" by (simp add: skill_ok_def)
  obtain s where s: "map_of (ds_projections (ss_db sys)) i = Some s" "row_ok (ss_db sys) i v s" using skill_okD [OF ok assms(2)] .
  have life: "told_life (ss_db sys) i s" "map uf_kind (use_facts ?u (iv_use v)) = map use_kind (ks_kinds s)" using s(2) by (simp_all add: row_ok_def)
  have rows: "map fst (skill_rows (ss_db sys) i) = [1..ks_high s]" "ks_kinds s = map (\<lambda>p. sf_kind (snd p)) (skill_rows (ss_db sys) i)" "ks_kinds s \<in> set LIVES" "ks_state s = FACT_STATE (last (ks_kinds s))"
    using life(1) unfolding told_life_def by blast+
  have "ks_kinds s \<noteq> []" using rows(3) by (auto simp: LIVES_def)
  then have "0 < length (ks_kinds s)" by simp
  moreover have "length (ks_kinds s) = nat (ks_high s)" using arg_cong [OF rows(1), of length] arg_cong [OF rows(2), of length] by simp
  ultimately have high: "ks_high s = int (length (ks_kinds s))" by linarith
  obtain us where us: "latest_snapshot ?u (iv_use v) = Some us" "us \<in> set (du_snapshots ?u)" "sn_use us = iv_use v" "sn_high us = int (length (use_facts ?u (iv_use v)))"
    using latest_whole [OF h, of "iv_use v"] row_ok_use [OF s(2)] by (auto split: option.splits)
  have "told ?u us" using h us(2) by (simp add: history_ok_def list_all_iff)
  then have "sn_state us = history_state (use_facts ?u (iv_use v))" using us(3,4) by (simp add: told_def)
  also have "\<dots> = use_state_of (ks_state s)"
    using life_state [OF life(2) rows(3)] distinct_consistent [OF h, of "length (use_facts ?u (iv_use v))" "iv_use v"] rows(4) by simp
  finally have "sn_state us = use_state_of (ks_state s)" .
  moreover have "sn_high us = ks_high s" using us(4) high arg_cong [OF life(2), of length] by simp
  ultimately show ?thesis using s(1) us(1) rows(3,4) high prior_kinds_rows [OF rows(1)] rows(2) by (intro exI [of _ s] exI [of _ us]) simp
qed

lemma request_equals_itself: "py_equal num (request_json r) (request_json r)"
  by (simp add: request_json_def binding_json_def limits_json_def opt_text_def num_of_def split: option.split)

text \<open>
  C21: A terminal result is final. Whatever steps follow, the projection stays as it is, and the invocation keeps its row. Every outcome of a terminal state that is reported for it later,
  whatever state, output, error or times it carries, is answered with that result and changes nothing when the request is the stored one, and refused when it is another.
\<close>
theorem terminal_result_is_final:
  assumes "skill_reachable env sys" and "concluded (ss_db sys) i s" and "(skill_step env)\<^sup>*\<^sup>* sys sys'"
  shows "concluded (ss_db sys') i s \<and> (\<exists>row. map_of (ds_invocations (ss_db sys')) i = Some row \<and>
    (\<forall>cd num hook r state outp obs er started observed now. invocation_id cd r = Inr i \<and> state \<in> {V_SUCCEEDED, V_FAILED, V_CANCELLED, V_OUTCOME_UNKNOWN} \<longrightarrow>
      commit_terminal cd num hook (ss_db sys') r state outp obs er started observed now =
        (if py_equal num (iv_request row) (request_json r) then Inr (ss_db sys', s) else Inl ''SKILL_TERMINAL_SNAPSHOT_MISMATCH'') \<and>
      (iv_request row = request_json r \<longrightarrow> commit_terminal cd num hook (ss_db sys') r state outp obs er started observed now = Inr (ss_db sys', s))))"
proof -
  note sys = reachable_system [OF assms(1)]
  have c: "concluded (ss_db sys') i s" by (rule run_concluded [OF assms(3) sys assms(2)])
  have ok: "skill_ok (ss_db sys')" using run_keeps_system [OF assms(3) sys] by (simp add: sys_ok_def)
  obtain row where row: "map_of (ds_invocations (ss_db sys')) i = Some row"
    using skill_ok_None [OF ok, of i] c by (cases "map_of (ds_invocations (ss_db sys')) i") (auto simp: concluded_def)
  have "commit_terminal cd num hook (ss_db sys') r state outp obs er started observed now =
      (if py_equal num (iv_request row) (request_json r) then Inr (ss_db sys', s) else Inl ''SKILL_TERMINAL_SNAPSHOT_MISMATCH'')"
    if "invocation_id cd r = Inr i" "state \<in> {V_SUCCEEDED, V_FAILED, V_CANCELLED, V_OUTCOME_UNKNOWN}" for cd num hook r state outp obs er started observed now
    using that row c by (auto simp: commit_terminal_def concluded_def TERMINAL_INVOCATIONS_def)
  then show ?thesis using c row request_equals_itself by auto
qed

text \<open>
  C39: Recovery of an attempt that was never dispatched uses the attempt up. \<open>recover\<close> reports that a durable dispatch is required, but the dispatch it has recorded itself stays, and in no continuation is the
  Skill ever executed for the attempt.
\<close>
theorem recovery_consumes_attempt:
  assumes "skill_reachable env sys" and "sq_attempt r \<notin> attempts (ss_db sys)" and "recover env (ss_db sys) r inputs started observed now = (db', res)" and "db' \<noteq> ss_db sys"
    and "(skill_step env)\<^sup>*\<^sup>* (sys\<lparr>ss_db := db'\<rparr>) sys'"
  shows "res = Inl ''SKILL_RECOVERY_REQUIRES_DURABLE_DISPATCH'' \<and> sq_attempt r \<in> attempts db' \<and> sq_attempt r \<notin> sq_attempt ` set (ss_log sys')"
proof -
  note ok = reachable_system [OF assms(1)]
  have rec: "res = Inl ''SKILL_RECOVERY_REQUIRES_DURABLE_DISPATCH'' \<and> sq_attempt r \<in> attempts db'"
    using assms(3)
  proof (rule recover_db)
    fix s digest assume "prepare_dispatch (sv_codec env) (sv_numbers env) (ss_db sys) r inputs digest started = Inr (db', s, True)" "res = Inl ''SKILL_RECOVERY_REQUIRES_DURABLE_DISPATCH''"
    then show ?thesis using prepare_attempts by fastforce
  next
    fix state outp obs er s assume "commit_terminal (sv_codec env) (sv_numbers env) (sv_hook env) (ss_db sys) r state outp obs er started observed now = Inr (db', s)"
    then show ?thesis
    proof (cases rule: commit_terminal_cases)
      case (recorded i row p state' od er')
      have "row_ok (ss_db sys) i row p" using skill_okD [of "ss_db sys" i row] ok recorded(2,3) by (auto simp: sys_ok_def)
      then obtain r0 where "iv_request row = request_json r0" "iv_attempt row = sq_attempt r0" by (auto simp: row_ok_def)
      then have "iv_attempt row = sq_attempt r" using request_attempt recorded(4) by metis
      then have "sq_attempt r \<in> attempts (ss_db sys)" using recorded(2) unfolding attempts_def mem_Collect_eq by metis
      then show ?thesis using assms(2) by blast
    qed (use assms(4) in simp)
  qed (use assms(4) in simp)
  have st: "skill_step env sys (sys\<lparr>ss_db := db'\<rparr>)" by (rule skill_step.recovered [OF assms(3)])
  have "sq_attempt r \<notin> set (handled sys)" using assms(2) ok by (auto simp: sys_ok_def)
  then have "idle (sys\<lparr>ss_db := db'\<rparr>) (sq_attempt r)" using rec by (simp add: idle_def handled_def)
  then have "idle sys' (sq_attempt r)" by (rule run_keeps_idle [OF assms(5) step_keeps_system [OF st ok]])
  then show ?thesis using rec by (simp add: idle_def handled_def)
qed

text \<open>
  C40: When the clock is set back while a Skill runs, its outcome is lost, whatever it is: \<open>commit_terminal\<close> makes the duration of the call zero, but it then builds measurements for a window that ends before it starts, which
  the measurement refuses, so that nothing is recorded of an invocation that was executed.
\<close>
theorem backward_clock_loses_result:
  assumes "observed < started" and "invocation_id (sv_codec env) r = Inr i" and "map_of (ds_projections db) i = Some p" and "ks_state p \<notin> set TERMINAL_INVOCATIONS"
  shows "\<not> is_ok (invoke_finish env db r out started observed now) \<and> duration_ms started observed = 0"
proof -
  have "commit_terminal (sv_codec env) (sv_numbers env) (sv_hook env) db r state outp obs er started observed now \<noteq> Inr (db', s)" for state outp obs er db' s
  proof
    assume "commit_terminal (sv_codec env) (sv_numbers env) (sv_hook env) db r state outp obs er started observed now = Inr (db', s)"
    then show False
    proof (cases rule: commit_terminal_cases)
      case (recorded j row q state' od er')
      from recorded(7) have "started \<le> observed" by (rule record_outcomeE)
      then show False using assms(1) by simp
    qed (use assms(2-4) in auto)
  qed
  then have "\<not> is_ok (invoke_finish env db r out started observed now)" by (auto simp: is_ok_iff invoke_finish_def)
  then show ?thesis using assms(1) by (simp add: duration_ms_def divide_nonpos_pos)
qed

end
