(* ===== verification/Skill_Invocation_Example.thy ===== *)
theory Skill_Invocation_Example
  imports Skill_Invocation_Safety
begin

text \<open>
  A concrete Skill invocation: dispatched, executed with an unknown outcome and recorded, and the recovery of an attempt that was never dispatched. It is the instance at which the properties of
  \<open>Skill_Invocation_Safety\<close> are applied.
\<close>

subsection \<open>An invocation whose outcome stays unknown\<close>

text \<open>A hash that tells the texts of this example apart: by their length, and by the high water of a snapshot.\<close>

declare canonical_json.simps [simp del] require_all.simps [simp del]

definition ex_digits :: string where
  "ex_digits = ''0123456789''"

definition ex_mark :: "string \<Rightarrow> nat" where
  "ex_mark s = (length s + (if take 1 (drop 78 s) = ''3'' then 1 else 0)) mod 10"

definition ex_sha :: "string \<Rightarrow> string" where
  "ex_sha s = replicate 63 (CHR ''0'') @ [ex_digits ! ex_mark s]"

definition ex_codec :: codec where
  "ex_codec = \<lparr>cd_sha = ex_sha, cd_iso = (\<lambda>_. ''t''), cd_float = (\<lambda>_. ''f'')\<rparr>"

lemma ex_digits: "length ex_digits = 10" "distinct ex_digits" "set ex_digits \<subseteq> set hex_chars"
  by (simp_all add: ex_digits_def hex_chars_def)

lemma ex_mark_less: "ex_mark s < 10"
  by (simp add: ex_mark_def)

lemma ex_sha_simps [simp]: "length (ex_sha s) = 64" "is_digest (ex_sha s)" "ex_sha s \<noteq> []" "value_digest ex_codec v = ex_sha (canonical_json v)"
proof -
  have "ex_digits ! ex_mark s \<in> set hex_chars" using ex_digits ex_mark_less [of s] nth_mem [of "ex_mark s" ex_digits] by auto
  moreover have "CHR ''0'' \<in> set hex_chars" by (simp add: hex_chars_def)
  ultimately show "is_digest (ex_sha s)" by (simp add: is_digest_def ex_sha_def list_all_iff)
qed (simp_all add: ex_sha_def value_digest_def ex_codec_def)

lemma ex_sha_eq: "ex_sha s = ex_sha t \<longleftrightarrow> ex_mark s = ex_mark t"
  using nth_eq_iff_index_eq [OF ex_digits(2), of "ex_mark s" "ex_mark t"] ex_mark_less by (simp add: ex_sha_def ex_digits(1))

lemma ex_stable_id: "parts \<noteq> [] \<Longrightarrow> [] \<notin> set parts \<Longrightarrow> stable_id ex_codec kind parts = Inr (kind @ '':'' @ ex_sha (py_join [CHR 0x00] parts))"
  by (simp add: stable_id_def ex_codec_def)

lemma utf8_short: "length s \<le> 250 \<Longrightarrow> utf8_length s \<le> 500"
proof -
  have "utf8_length s \<le> 2 * length s" by (induction s) (auto simp: utf8_length_def)
  then show "length s \<le> 250 \<Longrightarrow> utf8_length s \<le> 500" by linarith
qed

lemma ex_require: "list_all (\<lambda>(v, _). v \<noteq> [] \<and> length v \<le> 250) xs \<Longrightarrow> require_all xs = Inr ()"
proof (induction xs)
  case (Cons x xs)
  then show ?case using utf8_short [of "fst x"] by (cases x) (auto simp: require_all.simps)
qed (simp add: require_all.simps)

definition ex_scope :: scope_identity where
  "ex_scope = \<lparr>namespace = ''n'', security_domain = ''s''\<rparr>"

definition ex_uid :: string where
  "ex_uid = ''resource-use:'' @ ex_sha (py_join [CHR 0x00] [''n'', ''s'', ''a'', ''SKILL'', ''skill:primary'', ''1''])"

definition ex_iid :: string where
  "ex_iid = ''skill-invocation:'' @ ex_sha (py_join [CHR 0x00] [''n'', ''s'', ''a'', ''k''])"

lemma ex_ids [simp]: "length ex_uid = 77" "length ex_iid = 81" "ex_uid \<noteq> []" "ex_iid \<noteq> []"
  by (simp_all add: ex_uid_def ex_iid_def)

definition ex_digest :: string where
  "ex_digest = replicate 64 (CHR ''a'')"

definition ex_schema :: json where
  "ex_schema = JObj [(''type'', JStr ''object'')]"

definition ex_use :: use_binding where
  "ex_use = \<lparr>ub_scope = ex_scope, ub_id = ex_uid, ub_attempt = ''a'', ub_kind = R_SKILL, ub_slot = ''skill:primary'', ub_occurrence = 1,
     ub_resource = ''sk'', ub_revision = ''s1'', ub_digest = ex_digest, ub_binding = ''skill-binding:'' @ ex_sha (py_join [CHR 0x00] [''e'', ''e1'', ''sk'', ''s1'']), ub_binding_digest = [],
     ub_plan = ''p'', ub_plan_version = 1, ub_plan_digest = ex_digest, ub_run = ''w'', ub_task = ''t'', ub_definition = ''e'', ub_definition_revision = ''e1'',
     ub_definition_digest = ex_digest, ub_employee = ''i'', ub_agent = None, ub_runtime = None, ub_executor = Some ''x'', ub_executor_revision = Some ''x1'', ub_provider = None,
     ub_provider_revision = None, ub_decision = ''ok'', ub_predecessor = None, ub_predecessor_run = None\<rparr>"

definition ex_plain :: skill_request where
  "ex_plain = \<lparr>sq_scope = ex_scope, sq_key = ''k'', sq_attempt = ''a'', sq_run = ''w'', sq_task = ''t'', sq_plan = ''p'', sq_plan_version = 1, sq_plan_digest = ex_digest,
     sq_approval = ''ap'', sq_assignment = ''as'', sq_definition = ''e'', sq_definition_revision = ''e1'', sq_definition_digest = ex_digest, sq_employee = ''i'', sq_agent = None,
     sq_runtime = None, sq_skill = ''sk'', sq_skill_revision = ''s1'', sq_skill_digest = ex_digest, sq_operation = ''op'', sq_input_schema = ex_sha (canonical_json ex_schema),
     sq_output_schema = ex_sha (canonical_json ex_schema), sq_binding = ub_binding ex_use, sq_binding_digest = [],
     sq_executor = \<lparr>er_id = ''x'', er_revision = ''x1'', er_digest = ex_digest\<rparr>, sq_side_effect = SE_READ_ONLY,
     sq_policy = \<lparr>sp_id = ''po'', sp_revision = ''1'', sp_digest = ex_digest, sp_class = SE_READ_ONLY\<rparr>,
     sq_limits = \<lparr>sl_policy = ''io'', sl_revision = ''1'', sl_input = 99, sl_output = 99, sl_depth = 3, sl_properties = 3, sl_timeout = 10\<rparr>, sq_decision = ''ok'', sq_use = ex_use\<rparr>"

definition ex_request :: skill_request where
  "ex_request = (let d = ex_sha (canonical_json (binding_semantic ex_plain (ub_binding ex_use))) in ex_plain\<lparr>sq_binding_digest := d, sq_use := ex_use\<lparr>ub_binding_digest := d\<rparr>\<rparr>)"

lemma ex_request_fields [simp]:
  "sq_scope ex_request = ex_scope" "sq_key ex_request = ''k''" "sq_attempt ex_request = ''a''" "sq_approval ex_request = ''ap''" "sq_assignment ex_request = ''as''"
  "sq_definition ex_request = ''e''" "sq_definition_revision ex_request = ''e1''" "sq_definition_digest ex_request = ex_digest" "sq_skill ex_request = ''sk''"
  "sq_skill_revision ex_request = ''s1''" "sq_skill_digest ex_request = ex_digest" "sq_operation ex_request = ''op''" "sq_input_schema ex_request = ex_sha (canonical_json ex_schema)"
  "sq_output_schema ex_request = ex_sha (canonical_json ex_schema)" "sq_binding ex_request = ub_binding ex_use" "sq_executor ex_request = \<lparr>er_id = ''x'', er_revision = ''x1'', er_digest = ex_digest\<rparr>"
  "sq_side_effect ex_request = SE_READ_ONLY" "sq_policy ex_request = sq_policy ex_plain" "sq_limits ex_request = sq_limits ex_plain" "sq_decision ex_request = ''ok''" "sq_plan_version ex_request = 1"
  "sq_binding_digest ex_request = ex_sha (canonical_json (binding_semantic ex_request (ub_binding ex_use)))" "ub_id (sq_use ex_request) = ex_uid"
  by (simp_all add: ex_request_def ex_plain_def ex_use_def Let_def binding_semantic_def)

lemma ex_digest_ok [simp]: "is_digest ex_digest" "length ex_digest = 64" "ex_digest \<noteq> []"
  by (simp_all add: is_digest_def hex_chars_def list_all_iff ex_digest_def)

lemma ex_request_valid: "skill_request_init ex_codec ex_request = Inr ex_request"
  by (simp add: ex_require skill_request_init_def ex_request_def ex_plain_def ex_use_def Let_def ex_scope_def ex_stable_id ex_uid_def use_binding_exact_def)

definition ex_operation :: json where
  "ex_operation = JObj ([(''name'', JStr ''op''), (''inputSchema'', ex_schema), (''outputSchema'', ex_schema)] @ expected_operation ex_plain)"

definition ex_skill :: json where
  "ex_skill = JObj [(''revisions'', JList [JObj [(''revisionId'', JStr ''s1''), (''state'', JStr ''PUBLISHED''), (''digest'', JStr ex_digest),
     (''content'', JObj [(''operations'', JList [ex_operation])])]]), (''publishedRevisionId'', JStr ''s1''), (''enabled'', JBool True)]"

definition ex_member :: json where
  "ex_member = JObj [(''kind'', JStr ''SKILL''), (''resource_id'', JStr ''sk''), (''revision_id'', JStr ''s1''), (''digest'', JStr ex_digest)]"

definition ex_lineage :: lineage_row where
  "ex_lineage = \<lparr>lr_task = ''t'', lr_predecessor = None, lr_run = ''w'', lr_predecessor_run = None, lr_plan = ''p'', lr_plan_version = 1, lr_approved_digest = Some ex_digest,
     lr_employee = ''i'', lr_plan_digest = ex_digest, lr_plan_status = ''APPROVED'', lr_bound_employee = ''i'', lr_definition = ''e'', lr_revision = ''e1'', lr_definition_digest = ex_digest,
     lr_bound_plan_digest = ex_digest, lr_instance_definition = ''e'', lr_instance_revision = ''e1'', lr_instance_digest = ex_digest, lr_approval = Some (''ap'', ''APPROVE'', ex_digest)\<rparr>"

definition ex_use_db :: use_db where
  "ex_use_db = \<lparr>du_uses = [], du_facts = [], du_measurements = [], du_evidence = [], du_claims = [], du_high = [], du_snapshots = [], du_keys = [],
     du_lineage = [(''a'', ex_lineage)], du_placements = []\<rparr>"

definition ex_db :: skill_db where
  "ex_db = \<lparr>ds_use = ex_use_db, ds_invocations = [], ds_facts = [], ds_evidence = [], ds_projections = [], ds_lineage = [(''a'', ''as'', ''ap'')], ds_skills = [(''sk'', ex_skill)],
     ds_employees = [((''e'', ''e1''), JObj [(''members'', JList [ex_member])], ex_digest)]\<rparr>"

lemma ex_lineage_ok: "validate_use_lineage ex_use_db (sq_use ex_request) = Inr ()"
  by (simp add: validate_use_lineage_def ex_use_db_def ex_lineage_def lineage_matches_def ex_request_def ex_plain_def ex_use_def Let_def dict_get_def)

lemma ex_expected: "expected_operation ex_request = expected_operation ex_plain"
  by (simp add: expected_operation_def) (simp add: ex_plain_def)

lemma ex_operation_ok: "validate_operation_record ex_codec num ex_request (JObj []) ex_operation = Inr ()"
proof -
  have "list_all (\<lambda>(k, v). py_equal num (opt_json (jget ex_operation k)) v) (expected_operation ex_plain)"
    by (simp add: ex_operation_def expected_operation_def opt_json_def num_of_def)
  then have "\<not> list_ex (\<lambda>(k, v). \<not> py_equal num (opt_json (jget ex_operation k)) v) (expected_operation ex_request)" by (auto simp: ex_expected list_ex_iff list_all_iff)
  moreover have "jget ex_operation ''inputSchema'' = Some ex_schema" "jget ex_operation ''outputSchema'' = Some ex_schema" by (simp_all add: ex_operation_def)
  moreover have "validate_json_schema num code (JObj []) ex_schema = Inr ()" for code
    by (simp add: validate_json_schema.simps ex_schema_def schema_type_def enum_check_def object_check_def dict_get_def)
  ultimately show ?thesis by (simp add: validate_operation_record_def opt_json_def)
qed

lemma ex_employee_ok: "validate_employee ex_codec ex_db ex_request = Inr ()"
  by (simp add: validate_employee_def ex_db_def py_get_def py_elements_def ex_member_def ex_stable_id) (simp add: ex_use_def)

lemma ex_authorities_ok: "validate_authorities ex_codec num ex_db ex_request (JObj []) = Inr ()"
proof -
  have "find_operation (JObj [(''revisionId'', JStr ''s1''), (''state'', JStr ''PUBLISHED''), (''digest'', JStr ex_digest), (''content'', JObj [(''operations'', JList [ex_operation])])]) ex_request
      = Inr (Some ex_operation)"
    by (simp add: find_operation_def py_get_def py_elements_def) (simp add: ex_operation_def)
  then show ?thesis using ex_operation_ok [of num] ex_employee_ok
    by (simp add: validate_authorities_def ex_db_def ex_skill_def find_revision_def py_get_def py_elements_def eligible_revision_def falsy_def num_of_def opt_json_def)
qed

text \<open>Facts.\<close>

definition ex_fact :: "invocation_kind \<Rightarrow> string \<Rightarrow> string \<Rightarrow> string \<Rightarrow> skill_fact" where
  "ex_fact k src obs d = \<lparr>sf_id = ''skill-invocation-fact:'' @ ex_sha (ex_iid @ [CHR 0x00] @ invocation_kind_value k), sf_kind = k, sf_source = src, sf_observation = obs, sf_digest = d, sf_observed = 0, sf_limits = []\<rparr>"

definition ex_use_fact :: "use_fact_kind \<Rightarrow> string \<Rightarrow> string \<Rightarrow> string \<Rightarrow> string list \<Rightarrow> string list \<Rightarrow> use_fact" where
  "ex_use_fact k src obs d ev ls = \<lparr>uf_id = ''resource-use-fact:'' @ ex_sha (ex_uid @ [CHR 0x00] @ use_fact_value k), uf_use = ex_uid, uf_kind = k, uf_owner = src, uf_observation = obs, uf_digest = d,
     uf_observed = 0, uf_recorded = 0, uf_evidence = ev, uf_limits = ls, uf_supersedes = None\<rparr>"

lemma nil_eq: "[] = xs \<longleftrightarrow> xs = []"
  by auto

lemma ex_fact_of:
  assumes "src \<noteq> []" "length src \<le> 250" "obs \<noteq> []" "length obs \<le> 250" "is_digest d"
  shows "fact_of ex_codec ex_iid k src obs d 0 = Inr (ex_fact k src obs d)"
proof -
  have "invocation_kind_value k \<noteq> []" by (cases k) (simp_all add: invocation_kind_value_def)
  then show ?thesis using assms by (simp add: fact_of_def ex_stable_id nil_eq skill_fact_init_def ex_require ex_fact_def)
qed

lemma ex_resource_fact:
  assumes "src \<noteq> []" "length src \<le> 250" "obs \<noteq> []" "length obs \<le> 250" "is_digest d"
  shows "resource_fact ex_codec ex_uid k src obs d 0 ev ls = Inr (ex_use_fact k src obs d ev ls)"
proof -
  have "use_fact_value k \<noteq> []" by (cases k) (simp_all add: use_fact_value_def STATE_FACTS_def use_state_value_def)
  moreover have "d \<noteq> []" "length d \<le> 250" using assms(5) by (auto simp: is_digest_def)
  ultimately show ?thesis using assms by (simp add: resource_fact_def ex_stable_id nil_eq use_fact_init_def ex_require ex_use_fact_def)
qed

text \<open>Dispatch.\<close>

definition ex_payload :: string where
  "ex_payload = ex_sha (canonical_json (JObj [(''request'', request_json ex_request), (''inputDigest'', JStr (ex_sha (canonical_json (JObj []))))]))"

definition ex_facts2 :: "use_fact list" where
  "ex_facts2 = [ex_use_fact F_REQUESTED ''application'' ''k'' ex_payload [] [], ex_use_fact F_DISPATCH_RECORDED ''executor-adapter'' ex_iid ex_digest [] []]"

definition ex_snapshot :: "use_fact list \<Rightarrow> use_measurement list \<Rightarrow> use_snapshot" where
  "ex_snapshot fs ms = (let d = ex_sha (canonical_json (snapshot_payload ex_uid (int (length fs)) (history_state fs) fs ms)) in
     \<lparr>sn_id = ''resource-use-snapshot:'' @ ex_sha (py_join [CHR 0x00] [ex_uid, show_int (int (length fs)), d]), sn_digest = d, sn_use = ex_uid, sn_high = int (length fs), sn_version = REDUCER_VERSION,
       sn_state = history_state fs, sn_facts = map uf_id fs, sn_measurements = map um_id ms, sn_evidence = fromkeys (concat (map uf_evidence fs)),
       sn_limits = fromkeys (concat (map uf_limits fs)), sn_conflicts = history_conflicts fs, sn_created = 0\<rparr>)"

lemma ex_reduce:
  assumes "fs \<noteq> []" "list_all (\<lambda>f. uf_use f = ex_uid) fs" "list_all (\<lambda>m. um_use m = ex_uid) ms" "fact_states fs \<noteq> []" "length fs < 10"
  shows "reduce_resource_use ex_codec ex_uid fs ms (int (length fs)) 0 = Inr (ex_snapshot fs ms)"
proof -
  have "show_int (int (length fs)) \<noteq> []" using assms(5) by (simp add: show_int_def show_nat.simps)
  then have "stable_id ex_codec ''resource-use-snapshot'' [ex_uid, show_int (int (length fs)), ex_sha d] = Inr (''resource-use-snapshot:'' @ ex_sha (py_join [CHR 0x00] [ex_uid, show_int (int (length fs)), ex_sha d]))" for d
    by (simp add: ex_stable_id nil_eq)
  moreover have "\<not> list_ex (\<lambda>f. uf_use f \<noteq> ex_uid) fs" "\<not> list_ex (\<lambda>m. um_use m \<noteq> ex_uid) ms" using assms(2,3) by (auto simp: list_ex_iff list_all_iff)
  moreover have "\<not> int (length fs) < 1" using assms(1) by (cases fs) auto
  ultimately show ?thesis using assms(4) by (simp add: reduce_resource_use_def Let_def ex_snapshot_def)
qed

definition ex_claim :: "(string, json) dict" where
  "ex_claim = claim_json (''skill-dispatch-claim:'' @ ex_sha ex_iid) (ex_sha (canonical_json (JObj [(''invocationId'', JStr ex_iid), (''payloadDigest'', JStr ex_payload)]))) ''SKILL_DISPATCH'' ex_iid"

definition ex_opened :: use_db where
  "ex_opened = ex_use_db\<lparr>du_uses := [(ex_uid, sq_use ex_request)], du_facts := fact_rows 0 ex_facts2, du_claims := [(ex_uid, ''skill-dispatch-claim:'' @ ex_sha ex_iid, ex_claim)],
     du_high := [(ex_uid, 2, 1)], du_snapshots := [ex_snapshot ex_facts2 []],
     du_keys := [(''skill-dispatch:k'', ex_sha (canonical_json (JObj [(''request'', request_json ex_request), (''facts'', JList (map (fact_json ex_codec) ex_facts2))])), ex_uid, sn_id (ex_snapshot ex_facts2 []))]\<rparr>"

lemma ex_payload_digest [simp]: "is_digest ex_payload" "length ex_payload = 64" "skill_payload_digest ex_codec ex_request (JObj []) = ex_payload"
  by (simp_all add: ex_payload_def skill_payload_digest_def)

lemma ex_invocation_id: "invocation_id ex_codec ex_request = Inr ex_iid"
  by (simp add: invocation_id_def ex_scope_def ex_stable_id ex_iid_def)

lemma ex_mark_append: "length p = 77 \<Longrightarrow> ex_mark (p @ CHR 0x00 # c # q) = (length q + 79 + (if c = CHR ''3'' then 1 else 0)) mod 10"
  by (simp add: ex_mark_def add.commute)

lemma ex_uses_open: "insert_use ex_codec ex_use_db (sq_use ex_request) = Inr (ex_use_db\<lparr>du_uses := [(ex_uid, sq_use ex_request)]\<rparr>)"
proof -
  have "ub_occurrence (sq_use ex_request) = 1" "ub_plan_version (sq_use ex_request) = 1" by (simp_all add: ex_request_def ex_use_def Let_def)
  then show ?thesis by (simp add: insert_use_def ex_use_db_def)
qed

lemma ex_facts_open:
  "insert_use_facts (ex_use_db\<lparr>du_uses := [(ex_uid, sq_use ex_request)]\<rparr>) ex_facts2 0 = Inr (ex_use_db\<lparr>du_uses := [(ex_uid, sq_use ex_request)], du_facts := fact_rows 0 ex_facts2\<rparr>)"
  by (simp add: ex_facts2_def ex_use_fact_def ex_use_db_def fact_source_def ex_sha_eq use_fact_value_def STATE_FACTS_def use_state_value_def ex_mark_append)

lemma ex_open: "insert_resource_use ex_codec ex_db ex_iid ex_request ex_facts2 ex_payload 0 = Inr (ex_db\<lparr>ds_use := ex_opened\<rparr>)"
proof -
  have "length ex_facts2 = 2" "list_all (\<lambda>f. uf_use f = ex_uid) ex_facts2" "fact_states ex_facts2 \<noteq> []"
    by (simp_all add: ex_facts2_def ex_use_fact_def fact_states_def map_filter_simps STATE_FACTS_def)
  then have "reduce_resource_use ex_codec ex_uid ex_facts2 [] 2 0 = Inr (ex_snapshot ex_facts2 [])" using ex_reduce [of ex_facts2 "[]"] by force
  moreover have "sn_use (ex_snapshot ex_facts2 []) = ex_uid" by (simp add: ex_snapshot_def Let_def)
  ultimately show ?thesis
    using \<open>length ex_facts2 = 2\<close>
    by (simp add: insert_resource_use_def open_use_def ex_uses_open ex_facts_open insert_snapshot_def insert_high_def insert_key_def ex_stable_id nil_eq on_use_def insert_claim_def claim_json_def text_at_def
        ex_db_def ex_opened_def ex_claim_def) (simp add: ex_use_db_def)
qed

definition ex_skill_facts2 :: "skill_fact list" where
  "ex_skill_facts2 = [ex_fact K_REQUESTED ''application'' ''k'' ex_payload, ex_fact K_DISPATCH_RECORDED ''executor-adapter'' ex_iid ex_digest]"

definition ex_row :: invocation_row where
  "ex_row = \<lparr>iv_key = ''k'', iv_payload = ex_payload, iv_input = ex_sha (canonical_json (JObj [])), iv_attempt = ''a'', iv_use = ex_uid, iv_request = request_json ex_request, iv_created = 0\<rparr>"

definition ex_projection :: skill_snapshot where
  "ex_projection = \<lparr>ks_id = ex_iid, ks_state = V_DISPATCH_RECORDED, ks_high = 2, ks_payload = ex_payload, ks_input = ex_sha (canonical_json (JObj [])), ks_output = None, ks_evidence = None,
     ks_use = ex_uid, ks_kinds = [K_REQUESTED, K_DISPATCH_RECORDED], ks_error = None, ks_limits = [], ks_technical = True\<rparr>"

definition ex_dispatched :: skill_db where
  "ex_dispatched = ex_db\<lparr>ds_use := ex_opened, ds_invocations := [(ex_iid, ex_row)], ds_facts := numbered ex_iid 0 ex_skill_facts2, ds_projections := [(ex_iid, ex_projection)]\<rparr>"

lemma ex_mark_iid: "length p = 81 \<Longrightarrow> ex_mark (p @ CHR 0x00 # q) = (82 + length q + (if p ! 78 = CHR ''3'' then 1 else 0)) mod 10"
  by (simp add: ex_mark_def take_Suc_conv_app_nth hd_drop_conv_nth take_Suc)

lemma ex_insert_facts:
  "insert_invocation_facts (ex_db\<lparr>ds_use := ex_opened, ds_invocations := [(ex_iid, ex_row)]\<rparr>) ex_iid ex_skill_facts2 0
   = Inr (ex_db\<lparr>ds_use := ex_opened, ds_invocations := [(ex_iid, ex_row)], ds_facts := numbered ex_iid 0 ex_skill_facts2\<rparr>)"
  by (simp add: ex_skill_facts2_def ex_fact_def ex_db_def ex_sha_eq invocation_kind_value_def ex_mark_iid)

lemma ex_record_dispatch: "record_dispatch ex_codec ex_db ex_request (JObj []) ex_payload 0 = Inr (ex_dispatched, ex_projection)"
proof -
  have "insert_invocation ex_codec (ex_db\<lparr>ds_use := ex_opened\<rparr>) ex_iid ex_request (JObj []) ex_payload 0 = Inr (ex_db\<lparr>ds_use := ex_opened, ds_invocations := [(ex_iid, ex_row)]\<rparr>)"
    by (simp add: insert_invocation_def ex_db_def ex_opened_def ex_row_def)
  moreover have "make_snapshot ex_iid ex_request V_DISPATCH_RECORDED 2 ex_payload (ex_sha (canonical_json (JObj []))) None None [K_REQUESTED, K_DISPATCH_RECORDED] None [] = Inr ex_projection"
    by (simp add: make_snapshot_def skill_snapshot_init_def ex_projection_def)
  ultimately show ?thesis using ex_open ex_insert_facts unfolding ex_facts2_def ex_skill_facts2_def
    by (simp add: record_dispatch_def ex_invocation_id ex_fact_of ex_resource_fact upsert_projection_def del: insert_invocation_facts.simps)
      (simp add: ex_projection_def ex_dispatched_def ex_db_def ex_skill_facts2_def)
qed

lemma ex_db_simps: "ds_invocations ex_db = []" "ds_use ex_db = ex_use_db"
  by (simp_all add: ex_db_def)

lemma ex_prepare: "prepare_dispatch ex_codec num ex_db ex_request (JObj []) ex_payload 0 = Inr (ex_dispatched, ex_projection, True)"
  by (simp add: prepare_dispatch_def ex_db_simps ex_lineage_ok ex_authorities_ok ex_record_dispatch)

text \<open>Outcome.\<close>

definition ex_env :: skill_env where
  "ex_env = \<lparr>sv_codec = ex_codec, sv_numbers = (\<lambda>_. 0), sv_authorization = Some (skill_scoped_require \<lparr>ua_scope = ex_scope, ua_actor = ''u'', ua_permissions = [''INVOKE_SKILL''], ua_decision = ''ok''\<rparr>),
     sv_policy = fixed_policy (sq_policy ex_plain), sv_executors = [((''x'', ''x1''), \<lparr>er_id = ''x'', er_revision = ''x1'', er_digest = ex_digest\<rparr>, \<lambda>_ _ _ _. EX_FAILURE ''SKILL_EXECUTOR_OUTCOME_UNKNOWN'' True)],
     sv_hook = Inr ()\<rparr>"

lemma ex_env_simps [simp]: "sv_codec ex_env = ex_codec" "sv_hook ex_env = Inr ()"
  by (simp_all add: ex_env_def)

lemma ex_govern: "govern ex_env ex_request = Inr ()"
proof -
  have "sp_class (sq_policy ex_plain) = SE_READ_ONLY" by (simp add: ex_plain_def)
  then show ?thesis by (simp add: govern_def authorize_skill_def ex_env_def skill_scoped_require_def fixed_policy_def)
qed

lemma ex_begin: "\<exists>x. invoke_begin ex_env ex_db ex_request (JObj []) 0 = Inr (ex_dispatched, ex_projection, True, x)"
proof -
  have "utf8_length (canonical_json (JObj [])) = 2" by (simp add: canonical_json.simps utf8_length_def)
  moreover have "validate_shape (JObj []) 3 3 = Inr ()" by (simp add: validate_shape_def walk.simps)
  moreover have "sl_input (sq_limits ex_plain) = 99" "sl_depth (sq_limits ex_plain) = 3" "sl_properties (sq_limits ex_plain) = 3" by (simp_all add: ex_plain_def)
  moreover have "\<exists>x. resolve_executor (sv_executors ex_env) (sq_executor ex_request) = Inr x" by (simp add: resolve_executor_def ex_env_def)
  ultimately show ?thesis by (auto simp: invoke_begin_def ex_govern ex_prepare)
qed

definition ex_eid :: string where
  "ex_eid = ''skill-invocation-evidence:'' @ ex_sha ex_iid"

definition ex_observation :: string where
  "ex_observation = ''executor-error:'' @ ex_iid"

definition ex_late :: "string \<Rightarrow> use_fact" where
  "ex_late d = ex_use_fact F_OUTCOME_UNKNOWN ''SKILL_INVOCATION'' (ex_observation @ '':OUTCOME_UNKNOWN'') d [ex_eid] (unconfirmed V_OUTCOME_UNKNOWN)"

lemma ex_late_facts:
  assumes "is_digest d"
  shows "terminal_facts ex_codec ex_iid V_OUTCOME_UNKNOWN ex_observation d 0 = Inr [ex_fact K_OUTCOME_UNKNOWN ''skill-provider'' (ex_observation @ '':OUTCOME_UNKNOWN'') d]"
    "terminal_resource_facts ex_codec ex_uid V_OUTCOME_UNKNOWN ex_observation ex_eid d 0 = Inr [ex_late d]"
  using assms by (simp_all add: terminal_facts_def terminal_resource_facts_def terminal_kinds_def terminal_use_kinds_def ex_fact_of ex_resource_fact ex_observation_def ex_late_def
      invocation_kind_value_def use_fact_value_def STATE_FACTS_def use_state_value_def)

lemma ex_late_insert:
  "insert_invocation_facts ex_dispatched ex_iid [ex_fact K_OUTCOME_UNKNOWN ''skill-provider'' (ex_observation @ '':OUTCOME_UNKNOWN'') d] 2
   = Inr (ex_dispatched\<lparr>ds_facts := ds_facts ex_dispatched @ [(ex_iid, 3, ex_fact K_OUTCOME_UNKNOWN ''skill-provider'' (ex_observation @ '':OUTCOME_UNKNOWN'') d)]\<rparr>)"
  by (simp add: ex_dispatched_def ex_skill_facts2_def ex_fact_def ex_db_def ex_sha_eq invocation_kind_value_def ex_mark_iid)

lemma ex_late_use:
  "insert_use_facts ex_opened [ex_late d] 2 = Inr (ex_opened\<lparr>du_facts := fact_rows 0 (ex_facts2 @ [ex_late d])\<rparr>)"
  by (simp add: ex_opened_def ex_facts2_def ex_late_def ex_use_fact_def ex_use_db_def fact_source_def ex_sha_eq use_fact_value_def STATE_FACTS_def use_state_value_def ex_mark_append)

definition ex_measurement :: "string \<Rightarrow> string \<times> quantity \<times> string \<Rightarrow> use_measurement" where
  "ex_measurement d = (\<lambda>(metric, v, measure). \<lparr>um_id = ''resource-measurement:'' @ ex_sha (ex_uid @ [CHR 0x00] @ metric), um_use = ex_uid, um_metric = metric, um_value = Some v, um_unit = measure,
     um_availability = M_MEASURED, um_source = ''x'', um_digest = d, um_started = 0, um_ended = 0, um_observed = 0,
     um_authority = (if metric = ''duration'' then ''PROVIDER_OBSERVATION'' else ''PLATFORM_DISPATCH_AUTHORITY''), um_confidence = ''AUTHORITATIVE'',
     um_limits = [''TECHNICAL_SUCCESS_NOT_BUSINESS_SUCCESS''], um_precision = (if metric = ''duration'' then ''MILLISECOND'' else ''EXACT_INTEGER''), um_aggregate = True,
     um_redaction = ''skill-invocation-redaction.v1'', um_evidence = [ex_eid], um_superseded = None\<rparr>)"

definition ex_measurements :: "string \<Rightarrow> use_measurement list" where
  "ex_measurements d = map (ex_measurement d) [(''duration'', Q_FLOAT 0, ''ms''), (''request_count'', Q_INT 1, ''request''), (''invocation_count'', Q_INT 1, ''invocation'')]"

lemma ex_terminal_measurements: "is_digest d \<Longrightarrow> terminal_measurements ex_codec ex_request ex_eid d 0 0 = Inr (ex_measurements d)"
proof -
  assume "is_digest d"
  then have "d \<noteq> []" "length d \<le> 250" by (auto simp: is_digest_def)
  then show ?thesis
    by (simp add: terminal_measurements_def terminal_measurement_def ex_stable_id nil_eq use_measurement_init_def ex_require CORE_METRICS_def measured_ok_def negative_def duration_ms_def
        ex_measurements_def ex_measurement_def)
qed

lemma ex_insert_measurements:
  assumes "du_measurements u = []"
  shows "insert_measurements u ex_uid (ex_measurements d) = Inr (u\<lparr>du_measurements := map (\<lambda>m. (ex_uid, m)) (ex_measurements d)\<rparr>)"
  using assms by (simp add: ex_measurements_def ex_measurement_def ex_sha_eq ex_mark_append negative_def)

lemma ex_digits_text: "show_int 2 = ''2''" "show_int 3 = ''3''"
proof -
  have "of_char (CHR ''2'') = (50 :: nat)" "of_char (CHR ''3'') = (51 :: nat)" by simp_all
  then have "char_of (50 :: nat) = CHR ''2''" "char_of (51 :: nat) = CHR ''3''" by (metis char_of_char)+
  then show "show_int 2 = ''2''" "show_int 3 = ''3''" by (simp_all add: show_int_def show_nat.simps)
qed

lemma ex_snapshot_fields [simp]: "sn_use (ex_snapshot fs ms) = ex_uid" "sn_high (ex_snapshot fs ms) = int (length fs)" "sn_evidence (ex_snapshot fs ms) = fromkeys (concat (map uf_evidence fs))"
  by (simp_all add: ex_snapshot_def Let_def)

lemma ex_snapshot_ids: "length fs = 2 \<Longrightarrow> length gs = 3 \<Longrightarrow> sn_id (ex_snapshot fs ms) \<noteq> sn_id (ex_snapshot gs ns)"
  by (simp add: ex_snapshot_def Let_def ex_digits_text ex_sha_eq ex_mark_append)

lemma ex_extend:
  assumes "i = ''skill-terminal-claim:'' @ c" and "claim = claim_json i cd ''SKILL_TERMINAL_OBSERVATION'' ex_iid" and "ref = evidence_ref ex_eid d ex_iid"
  shows "\<exists>u. extend_use ex_codec ex_opened ex_uid (2, 1) [ex_late d] (ex_measurements d) [ref] claim (''skill-terminal:'' @ ex_iid) td 0 = Inr (u, ex_snapshot (ex_facts2 @ [ex_late d]) (sort_key um_id (ex_measurements d)))"
proof -
  let ?fs = "ex_facts2 @ [ex_late d]"
  let ?u1 = "ex_opened\<lparr>du_facts := fact_rows 0 ?fs\<rparr>"
  let ?u4 = "?u1\<lparr>du_measurements := map (\<lambda>m. (ex_uid, m)) (ex_measurements d), du_evidence := [(ex_uid, ex_eid, ref)], du_claims := du_claims ex_opened @ [(ex_uid, i, claim)]\<rparr>"
  have empty: "du_measurements ex_opened = []" "du_evidence ex_opened = []" "du_high ex_opened = [(ex_uid, 2, 1)]" "du_snapshots ex_opened = [ex_snapshot ex_facts2 []]"
    by (simp_all add: ex_opened_def ex_use_db_def)
  have e: "insert_evidence_refs (?u1\<lparr>du_measurements := ms\<rparr>) ex_uid [ref] = Inr (?u1\<lparr>du_measurements := ms, du_evidence := [(ex_uid, ex_eid, ref)]\<rparr>)" for ms
    by (simp add: assms(3) evidence_ref_def text_at_def empty)
  have c: "insert_claim (?u1\<lparr>du_measurements := ms, du_evidence := ev\<rparr>) ex_uid claim = Inr (?u1\<lparr>du_measurements := ms, du_evidence := ev, du_claims := du_claims ex_opened @ [(ex_uid, i, claim)]\<rparr>)" for ms ev
    using assms(1,2) by (simp add: insert_claim_def claim_json_def text_at_def ex_opened_def)
  have own: "list_all (\<lambda>f. uf_use f = ex_uid) ?fs" "fact_states ?fs \<noteq> []" "length ?fs = 3"
    by (simp_all add: ex_facts2_def ex_late_def ex_use_fact_def fact_states_def map_filter_simps STATE_FACTS_def)
  have ord: "map fst (rows_of ?u4 ex_uid) = [1..3]" "map snd (rows_of ?u4 ex_uid) = ?fs"
    using own(1,3) fact_rows_own [of ?fs ex_uid 0] fact_rows_ordinals [of 0 ?fs] fact_rows_snd [of 0 ?fs] unfolding list_all_iff rows_of_def by simp_all
  have f: "use_facts ?u4 ex_uid = ?fs" using use_facts_rows [OF ord(1)] ord(2) by simp
  have m: "use_measurements ?u4 ex_uid = sort_key um_id (ex_measurements d)" by (simp add: use_measurements_def filter_map comp_def)
  have "list_all (\<lambda>m. um_use m = ex_uid) (sort_key um_id (ex_measurements d))" by (simp add: list_all_iff ex_measurements_def ex_measurement_def)
  then have r: "reduce_resource_use ex_codec ex_uid ?fs (sort_key um_id (ex_measurements d)) 3 0 = Inr (ex_snapshot ?fs (sort_key um_id (ex_measurements d)))"
    using ex_reduce [OF _ own(1) _ own(2)] own(3) by force
  have n: "sn_id (ex_snapshot ex_facts2 []) \<noteq> sn_id (ex_snapshot ?fs (sort_key um_id (ex_measurements d)))"
    by (rule ex_snapshot_ids) (use own(3) in \<open>simp_all add: ex_facts2_def\<close>)
  have k: "map_of (du_keys ex_opened) (''skill-terminal:'' @ ex_iid) = None" by (simp add: ex_opened_def)
  show ?thesis
    using n own(3) k by (simp add: extend_use_def ex_late_use ex_insert_measurements empty e c f m r insert_snapshot_def insert_key_def del: insert_use_facts.simps insert_evidence_refs.simps)
qed

lemma ex_finish: "is_ok (invoke_finish ex_env ex_dispatched ex_request (EX_FAILURE ''SKILL_EXECUTOR_OUTCOME_UNKNOWN'' True) 0 0 0)"
proof -
  obtain d rec where ev: "evidence_of_outcome ex_codec ex_iid ex_request V_OUTCOME_UNKNOWN (iv_input ex_row) None (Some ''SKILL_EXECUTOR_OUTCOME_UNKNOWN'') 0 = Inr (ex_eid, d, rec)" "is_digest d"
    by (simp add: evidence_of_outcome_def Let_def ex_stable_id nil_eq ex_eid_def)
  let ?f = "ex_fact K_OUTCOME_UNKNOWN ''skill-provider'' (ex_observation @ '':OUTCOME_UNKNOWN'') d"
  let ?db1 = "ex_dispatched\<lparr>ds_facts := ds_facts ex_dispatched @ [(ex_iid, 3, ?f)]\<rparr>"
  let ?db2 = "?db1\<lparr>ds_evidence := [(ex_eid, ex_iid, rec)]\<rparr>"
  have e: "insert_skill_evidence ?db1 ex_eid ex_iid rec = Inr ?db2" by (simp add: insert_skill_evidence_def ex_dispatched_def ex_db_def)
  have use: "ds_use ?db2 = ex_opened" "map_of (du_high ex_opened) ex_uid = Some (2, 1)" by (simp_all add: ex_dispatched_def ex_opened_def)
  let ?claim = "claim_json (''skill-terminal-claim:'' @ ex_sha ex_iid) (ex_sha (canonical_json (JObj [(''invocationId'', JStr ex_iid), (''evidenceDigest'', JStr d)]))) ''SKILL_TERMINAL_OBSERVATION'' ex_iid"
  let ?td = "ex_sha (canonical_json (JObj [(''facts'', JList [fact_json ex_codec (ex_late d)]), (''measurements'', JList (map (measurement_json ex_codec) (ex_measurements d))),
      (''evidence'', JObj (evidence_ref ex_eid d ex_iid)), (''claim'', JObj ?claim)]))"
  let ?us = "ex_snapshot (ex_facts2 @ [ex_late d]) (sort_key um_id (ex_measurements d))"
  obtain u where x: "extend_use ex_codec ex_opened ex_uid (2, 1) [ex_late d] (ex_measurements d) [evidence_ref ex_eid d ex_iid] ?claim (''skill-terminal:'' @ ex_iid) ?td 0 = Inr (u, ?us)"
    using ex_extend [OF refl refl refl] by blast
  have u: "commit_resource_terminal ex_codec ?db2 ex_iid ex_request [ex_late d] ex_eid d 0 0 0 = Inr (?db2\<lparr>ds_use := u\<rparr>, ?us)"
    using x by (simp add: commit_resource_terminal_def Let_def use ex_late_use ex_terminal_measurements [OF ev(2)] ex_stable_id nil_eq del: insert_use_facts.simps)
  have dd: "ds_invocations ex_dispatched = [(ex_iid, ex_row)]" "ds_projections ex_dispatched = [(ex_iid, ex_projection)]" by (simp_all add: ex_dispatched_def)
  have evs: "fromkeys (concat (map uf_evidence ex_facts2) @ uf_evidence (ex_late d)) = [ex_eid]" by (simp add: ex_facts2_def ex_late_def ex_use_fact_def fromkeys_def)
  have dig: "is_digest (iv_payload ex_row)" "is_digest (iv_input ex_row)" by (simp_all add: ex_row_def)
  have "is_ok (record_outcome ex_codec (Inr ()) ex_dispatched ex_iid ex_request ex_row 2 V_OUTCOME_UNKNOWN None (Some ''SKILL_EXECUTOR_OUTCOME_UNKNOWN'') ex_observation 0 0 0)"
    using dig by (simp add: record_outcome_def ev(1) ex_late_facts [OF ev(2)] ex_late_insert e u make_snapshot_def skill_snapshot_init_def upsert_projection_def evs dd
        del: insert_invocation_facts.simps)
  moreover have "py_equal num (iv_request ex_row) (request_json ex_request)" for num
    by (simp add: ex_row_def request_json_def binding_json_def limits_json_def opt_text_def num_of_def split: option.split)
  moreover have "ks_state ex_projection = V_DISPATCH_RECORDED" "ks_high ex_projection = 2" by (simp_all add: ex_projection_def)
  ultimately show ?thesis
    by (simp add: invoke_finish_def ex_invocation_id reported_outcome_def commit_terminal_def TERMINAL_INVOCATIONS_def dd settle_def ex_observation_def)
qed

subsection \<open>The properties at the example\<close>

definition ex_start :: skill_system where
  "ex_start = \<lparr>ss_db = ex_db, ss_calls = [], ss_log = []\<rparr>"

definition ex_executed :: skill_system where
  "ex_executed = \<lparr>ss_db = ex_dispatched, ss_calls = [Answered ex_request 0 (EX_FAILURE ''SKILL_EXECUTOR_OUTCOME_UNKNOWN'' True)], ss_log = [ex_request]\<rparr>"

lemma ex_start_reachable: "skill_reachable ex_env ex_start"
  unfolding ex_start_def
proof (rule skill_reachable.fresh)
  show "use_reachable (sv_codec ex_env) (ds_use ex_db)" by (rule use_reachable.fresh) (simp_all add: ex_db_def ex_use_db_def)
qed (simp_all add: ex_db_def)

lemma ex_executed_reachable: "skill_reachable ex_env ex_executed"
proof -
  obtain x where "invoke_begin ex_env (ss_db ex_start) ex_request (JObj []) 0 = Inr (ex_dispatched, ex_projection, True, x)" using ex_begin by (auto simp: ex_start_def)
  from skill_step.begun [OF this] have "skill_step ex_env ex_start \<lparr>ss_db = ex_dispatched, ss_calls = [Dispatched ex_request (JObj []) 0], ss_log = []\<rparr>" by (simp add: ex_start_def)
  from skill_reachable.stepped [OF ex_start_reachable this]
  have r: "skill_reachable ex_env \<lparr>ss_db = ex_dispatched, ss_calls = [Dispatched ex_request (JObj []) 0], ss_log = []\<rparr>" .
  have "skill_step ex_env \<lparr>ss_db = ex_dispatched, ss_calls = [Dispatched ex_request (JObj []) 0], ss_log = []\<rparr> ex_executed"
    using skill_step.executed [of "\<lparr>ss_db = ex_dispatched, ss_calls = [Dispatched ex_request (JObj []) 0], ss_log = []\<rparr>" "[]" ex_request "JObj []" 0 "[]" ex_env "EX_FAILURE ''SKILL_EXECUTOR_OUTCOME_UNKNOWN'' True"]
    by (simp add: ex_executed_def)
  then show ?thesis by (rule skill_reachable.stepped [OF r])
qed

definition ex_concluded :: skill_system where
  "ex_concluded = \<lparr>ss_db = tx_db ex_dispatched (invoke_finish ex_env ex_dispatched ex_request (EX_FAILURE ''SKILL_EXECUTOR_OUTCOME_UNKNOWN'' True) 0 0 0), ss_calls = [], ss_log = [ex_request]\<rparr>"

lemma ex_concluded_reachable: "skill_reachable ex_env ex_concluded"
  using skill_reachable.stepped [OF ex_executed_reachable skill_step.finished [of ex_executed "[]" ex_request 0 "EX_FAILURE ''SKILL_EXECUTOR_OUTCOME_UNKNOWN'' True" "[]" ex_env 0 0]]
  by (simp add: ex_executed_def ex_concluded_def)

lemma ex_concluded_projection: "\<exists>s. concluded (ss_db ex_concluded) ex_iid s"
proof -
  obtain db' s where f: "invoke_finish ex_env ex_dispatched ex_request (EX_FAILURE ''SKILL_EXECUTOR_OUTCOME_UNKNOWN'' True) 0 0 0 = Inr (db', s)" using ex_finish by (auto simp: is_ok_iff)
  then obtain state outp obs er where c: "commit_terminal ex_codec (sv_numbers ex_env) (Inr ()) ex_dispatched ex_request state outp obs er 0 0 0 = Inr (db', s)" "state \<in> set TERMINAL_INVOCATIONS"
    by (auto simp: invoke_finish_def ex_invocation_id reported_outcome_def TERMINAL_INVOCATIONS_def)
  from c(1) have "concluded db' ex_iid s"
  proof (cases rule: commit_terminal_cases)
    case (final i)
    then show ?thesis using ex_invocation_id by (auto simp: concluded_def)
  next
    case (recorded i row p state' od er')
    have "state' \<in> set TERMINAL_INVOCATIONS" using recorded(6) c(2) by (auto simp: settle_def Let_def TERMINAL_INVOCATIONS_def split: if_splits sum.splits)
    moreover from recorded(7) have "ks_state s = state'" "map_of (ds_projections db') i = Some s" by (rule record_outcomeE, simp)+
    ultimately show ?thesis using recorded(1) ex_invocation_id by (auto simp: concluded_def)
  qed
  then show ?thesis using f by (auto simp: ex_concluded_def tx_db_def)
qed

lemma ex_concluded_row: "map_of (ds_invocations (ss_db ex_concluded)) ex_iid = Some ex_row"
proof -
  obtain db' s where f: "invoke_finish ex_env ex_dispatched ex_request (EX_FAILURE ''SKILL_EXECUTOR_OUTCOME_UNKNOWN'' True) 0 0 0 = Inr (db', s)" using ex_finish by (auto simp: is_ok_iff)
  then obtain state outp obs er where "commit_terminal ex_codec (sv_numbers ex_env) (Inr ()) ex_dispatched ex_request state outp obs er 0 0 0 = Inr (db', s)"
    by (auto simp: invoke_finish_def ex_invocation_id reported_outcome_def)
  then have "ds_invocations db' = ds_invocations ex_dispatched"
  proof (cases rule: commit_terminal_cases)
    case (recorded i row p state' od er')
    from recorded(7) show ?thesis by (rule record_outcomeE) simp
  qed simp
  then show ?thesis using f by (simp add: ex_concluded_def tx_db_def ex_dispatched_def)
qed

theorem skill_executed_at_most_once_witness:
  "distinct (map sq_attempt (ss_log ex_executed)) \<and> ss_log ex_executed = [ex_request] \<and> ''a'' \<in> attempts (ss_db ex_executed)"
  using skill_executed_at_most_once [OF ex_executed_reachable] by (simp add: ex_executed_def)

theorem invocation_and_use_agree_witness:
  "\<exists>us. latest_snapshot (ds_use (ss_db ex_executed)) ex_uid = Some us \<and> sn_state us = U_DISPATCH_RECORDED \<and> ks_state ex_projection = V_DISPATCH_RECORDED"
proof -
  have db: "map_of (ds_invocations (ss_db ex_executed)) ex_iid = Some ex_row" "map_of (ds_projections (ss_db ex_executed)) ex_iid = Some ex_projection"
    by (simp_all add: ex_executed_def ex_dispatched_def)
  show ?thesis using invocation_and_use_agree [OF ex_executed_reachable db(1)] db(2) by (auto simp: ex_row_def ex_projection_def use_state_of_def)
qed

theorem terminal_result_is_final_witness:
  "\<exists>s. ks_state s \<in> set TERMINAL_INVOCATIONS \<and> map_of (ds_projections (ss_db ex_concluded)) ex_iid = Some s \<and>
     commit_terminal ex_codec (sv_numbers ex_env) (Inr ()) (ss_db ex_concluded) ex_request V_SUCCEEDED (Some (JObj [])) ''late'' None 7 8 9 = Inr (ss_db ex_concluded, s)"
proof -
  obtain s where s: "concluded (ss_db ex_concluded) ex_iid s" using ex_concluded_projection by blast
  have row: "map_of (ds_invocations (ss_db ex_concluded)) ex_iid = Some ex_row" by (rule ex_concluded_row)
  then have stored: "iv_request ex_row = request_json ex_request" by (simp add: ex_row_def)
  show ?thesis using terminal_result_is_final [OF ex_concluded_reachable s rtranclp.rtrancl_refl] row stored ex_invocation_id s
    by (auto simp: concluded_def request_equals_itself)
qed

theorem recovery_consumes_attempt_witness:
  "snd (recover ex_env ex_db ex_request (JObj []) 0 0 0) = Inl ''SKILL_RECOVERY_REQUIRES_DURABLE_DISPATCH'' \<and> ''a'' \<in> attempts (fst (recover ex_env ex_db ex_request (JObj []) 0 0 0))"
proof -
  have r: "recover ex_env (ss_db ex_start) ex_request (JObj []) 0 0 0 = (ex_dispatched, snd (recover ex_env ex_db ex_request (JObj []) 0 0 0))"
    by (simp add: recover_def ex_govern ex_prepare ex_start_def)
  have "ex_dispatched \<noteq> ss_db ex_start" "sq_attempt ex_request \<notin> attempts (ss_db ex_start)" by (auto simp: ex_start_def ex_dispatched_def ex_db_def attempts_def)
  then show ?thesis using recovery_consumes_attempt [OF ex_start_reachable _ r _ rtranclp.rtrancl_refl] r by (simp add: ex_start_def)
qed

theorem backward_clock_loses_result_witness:
  "\<not> is_ok (invoke_finish ex_env ex_dispatched ex_request (EX_RESULT (JObj []) ''seen'') 5 4 9) \<and> duration_ms 5 4 = 0"
proof -
  have "map_of (ds_projections ex_dispatched) ex_iid = Some ex_projection" "ks_state ex_projection \<notin> set TERMINAL_INVOCATIONS" by (simp_all add: ex_dispatched_def ex_projection_def TERMINAL_INVOCATIONS_def)
  then show ?thesis using backward_clock_loses_result [of 4 5 ex_env ex_request ex_iid ex_dispatched ex_projection] ex_invocation_id by simp
qed

end
