(* ===== verification/Spec2Isabelle.thy ===== *)
theory Spec2Isabelle
  imports Workflow_Controller Dispatch_Worker Native_Provider Capability_Gateway Execution_Evidence Identity_Spine Task_Controller
    Workflow_Control_Service Skill_Invocation_Example
begin

text \<open>
  Verification of the control plane of the cloud-native agent platform.

  \<^bold>\<open>The program.\<close> The platform runs Workflows of Agent Tasks on Kubernetes. The operator (\<open>src/operator\<close>) reconciles
  Workflow and Task resources: it orders the tasks of a Workflow, creates a Task when its inputs are ready, interprets the
  identity evidence of a Task and executes it through the runtime provider (\<open>src/runtime\<close>) and, when the Agent
  declares a capability, through the capability gateway (\<open>src/gateway\<close>), and records evidence of the outcome. The core
  package (\<open>src/core\<close>) holds the values these parts exchange: the execution authority contract, Agent Instances and
  their repository, the identity spine, runtime control and execution evidence. The console backend
  (\<open>src/console/backend\<close>) keeps the authority over governed executions in PostgreSQL; the operator's dispatch worker claims
  commands there and turns each into one Task, Workflow Control lets people approve plans and intervene in runs, and governed Skill invocations run read-only
  operations for an attempt and account for them as resource uses.

  \<^bold>\<open>The theories\<close>, each with the code it models and what its lemmas show. File names are relative to the \<open>src\<close>
  directory of the package.

  \<^item> \<open>Prelude\<close>: results with errors as \<open>Inl\<close>, dictionaries as association lists in insertion order, JSON values, Python's
    \<open>str.strip\<close>, decimal numerals; the shared lemmas on them. \<open>Py_Objects\<close>: a heap of Python objects with sharing and cycles,
    reachability, and the small regular-expression matcher that the secret scanners need. \<open>Py_Datetime\<close>: UTC instants with their
    ISO text; the locale \<open>datetime_text\<close> is what serialization relies on and \<open>utc\<close> is its instance.
  \<^item> \<open>Workflow_Graph\<close> (\<open>agent_operator/workflow_graph.py\<close>): validation, Kahn's algorithm, ready and skipped tasks. The order is
    complete with dependencies first, or the graph is cyclic; acceptance is characterised; the skipped tasks are exactly
    the blocked ones; in the locale \<open>task_scheduler\<close> no state deadlocks.
  \<^item> \<open>Workflow_Controller\<close> (\<open>workflow_controller.py\<close>, \<open>build_workflow_task\<close> of \<open>resources.py\<close>): the whole reconciliation over an
    abstract cluster. It refines the specification of which Tasks to launch, publishes the right phase, and no
    interleaving of reconciliations with stale listings starts a Task before its inputs.
  \<^item> \<open>Task_Execution\<close> (\<open>errors.py\<close>, \<open>retry.py\<close>, \<open>invoke_agent\<close>): error classification and the retry loop, as a protocol on the
    observed calls and sleeps, within the deadline.
  \<^item> \<open>Execution_Contract\<close> (\<open>agent_core/execution_contract.py\<close>): identities, commands, observations, placements, lineage;
    requirement codes are bounded and have a canonical form, whatever order they are given in, and a retry keeps the lineage.
  \<^item> \<open>Dispatch_Repository\<close> (\<open>agent_console/execution_postgres.py\<close>, \<open>execution_application.py\<close>): the dispatch tables and every
    transaction on them, each as a function on the database; \<open>dispatch_tx\<close> is their union. The constraints of the schema are invariant, the effect of a command starts
    exactly when it is permitted, stale claims are fenced, terminal commands are final.
  \<^item> \<open>Dispatch_Worker\<close> (\<open>native_dispatch_reconciler.py\<close>): the Task port and the worker, cut at every external call into a step
    function; \<open>system_reachable\<close> interleaves any number of workers and crashes. The locale \<open>dispatch_repository\<close> is what a
    worker relies on, and \<open>pg\<close> shows that the PostgreSQL repository provides it. The Runtime is invoked at most once for a command.
  \<^item> \<open>Runtime_Manager\<close> (\<open>agent_core/runtime_control.py\<close>, \<open>runtime_manager.py\<close>, \<open>native_runtime_adapter.py\<close>,
    \<open>runtime_identity_translation.py\<close>, \<open>runtime_kubernetes_observer.py\<close>): desired state, observation and
    reconciliation of one runtime, over a repository with the laws of the locale \<open>runtime_control_repository\<close>.
  \<^item> \<open>Native_Provider\<close> (\<open>agent_runtime/providers/native\<close>): exact compatibility, the bounded scanner of configurations, binding
    translation and the invocation with its registry of native identities.
  \<^item> \<open>Capability_Gateway\<close> (\<open>agent_gateway/capability\<close>): request models, authorization first, the REST provider and its
    outcome evidence. The locale \<open>provider_contract\<close> is what the gateway relies on; \<open>rest\<close> is the REST provider.
  \<^item> \<open>Canonical_Json\<close> and \<open>Execution_Evidence\<close> (\<open>agent_core/execution_evidence\<close>): the sorted compact JSON text identifies a value; evidence records with
    digests; the SQLite repository refines an append-only log, and reads below a high-water mark are stable.
  \<^item> \<open>Agent_Instances\<close> (\<open>agent_core/representation/v0_2\<close>, \<open>repositories/memory.py\<close>): the aggregate, its serialization round trip, and the in-memory
    repository as a refinement of a catalogue of values.
  \<^item> \<open>Identity_Spine\<close> (\<open>agent_core/interface_spine/v0_2\<close>, \<open>compatibility_interpreter/interpreter.py\<close>, \<open>identity_adapter.py\<close>): projection, selection,
    the envelope, and the interpreter of Task and Agent bodies, shown equal to a direct construction from the fields of the two bodies.
  \<^item> \<open>Execution_Coordinator\<close> (\<open>execution_coordinator.py\<close>): Runtime, capability and evidence in sequence over the ports of the
    locale \<open>coordinator_ports\<close>; \<open>default\<close> is the instance that \<open>build_default_coordinator\<close> builds from the provider, gateway
    and evidence repository above. Outcomes and evidence are truthful.
  \<^item> \<open>Task_Controller\<close> (\<open>task_controller.py\<close>): the handler of a new Task on top of interpreter, coordinator and retry loop; replayed in any
    way it executes a Task at most once, and a call that returns settles the Task unless the native dispatch manages it.
  \<^item> \<open>Workflow_Control\<close> (\<open>agent_console/workflow_control_domain.py\<close>, \<open>workflow_control_postgres.py\<close>): plans with approvals and corrections, interventions with their journal,
    the one transaction that persists an operation of any of the eleven commands, and the older atomic command, over the constraints of the migrations.
    \<open>Workflow_Control_Safety\<close>: over all sequences of transactions of the repository (\<open>control_step\<close>) answers are stable, the journal of an intervention follows the allowed transitions to
    its state, a plan is decided at most once and has the status of its decision, and an operation moves nothing but its target. Over the transactions that the services use
    (\<open>governed_step\<close>, all but unnumbered transitions, changes of a plan's status without a decision, and the atomic command) journals have no gap and approved plans have their approval.
  \<^item> \<open>Workflow_Control_Service\<close> (\<open>workflow_control_application.py\<close>): validation, durable write, readback, effect. The locale \<open>control_store\<close> is what the service
    relies on and \<open>pgc\<close> the repository's instance; an effect is applied at most once.
  \<^item> \<open>Resource_Use\<close> (\<open>agent_console/resource_use_domain.py\<close>, \<open>resource_use_postgres.py\<close>, \<open>resource_use_application.py\<close>): the numbered facts of a use of a resource by
    an attempt, the reducer, shown to accept exactly the legal histories, and the transactions on the tables of uses. \<open>Resource_Use_History\<close>: over all transactions
    (\<open>use_step\<close>) the latest snapshot tells the whole history, and an observation is recorded once and on its own use.
  \<^item> \<open>Skill_Invocation\<close> (\<open>skill_invocation_domain.py\<close>, \<open>skill_invocation_postgres.py\<close>, \<open>skill_executor.py\<close>, \<open>skill_invocation_application.py\<close>): requests, the bounded JSON Schema, the
    transactions that dispatch an invocation with its resource use and record its outcome, executors, invocation and recovery. \<open>Skill_Invocation_Safety\<close>: in \<open>skill_step\<close>, which
    interleaves calls, crashes, recoveries and other transactions, a Skill runs at most once for an attempt, invocation and use agree, terminal results are final; two ways to lose an attempt
    or a result are shown. \<open>Skill_Invocation_Example\<close>: a concrete invocation.

  \<^bold>\<open>Conventions.\<close> A class is a record with the fields of the source, an enumeration a datatype, a \<open>__post_init__\<close> a function
  \<open>..._init\<close> that returns the validated value or the error. Errors are the reason codes of the source, or pairs of exception class and message. Effects pass an explicit state. The Kubernetes
  and HTTP clients, clocks, SHA-256 and name-based UUIDs are parameters; what a theorem needs of them is a hypothesis
  in it (that digests of different texts differ, for instance), and its witness has an instance.

  \<^bold>\<open>Loops and fuel.\<close> Loops over data are recursive functions. Kahn's loop has the measure of open in-degrees plus ready
  tasks. The retry loop recurses on the attempts that are left. The traversals of the Python heap have a fuel: the native scanner visits at most
  \<open>MAX_CONFIGURATION_NODES\<close> nodes, and the gateway's recursive scanner keeps its set of active objects, so that the size of
  the heap bounds its depth; both are shown to return an answer.

  \<^bold>\<open>Not modelled.\<close> Times are real or whole numbers rather than floats. The PostgreSQL and Kubernetes servers are their transaction and answer
  semantics. Left out are: the console's HTTP API, authentication and remaining PostgreSQL adapters, which are mostly
  SQL and request plumbing; the console's planning and drafting assistants, which call language models; the OpenClaw
  provider, driver and adapter; the PostgreSQL evidence repository; the resource builders other than the Task
  builder; process entry points and environment configuration; the conformance harness, scripts, experiments and the
  browser front end.
\<close>

end
